(* ===== verification/Prelude.thy ===== *)
theory Prelude imports Complex_Main "HOL-Library.Word" "HOL-Library.Sublist" begin

text \<open>
  Shared vocabulary of the development: the result type of the fallible asynchronous
  operations, the few functions of the JavaScript standard library that the code uses on
  strings and buffers, and generic lemmas on lists that the components share.

  \<^item> A rejected promise or a thrown exception is the left side of a sum; \<open>await\<close> is the
    sequencing of the code's \<open>await\<close> statements, which stops at the first rejection.
  \<^item> Strings are lists of ASCII characters. \<open>to_lower\<close> is \<open>String.prototype.toLowerCase\<close>
    on them.
  \<^item> A number that the code only uses as an integer (block numbers, epochs, scores,
    timestamps) is an \<open>int\<close>.
\<close>

section \<open>Results of asynchronous operations\<close>

datatype error =
    UniqueViolation string
  | ForeignKeyViolation string
  | MultipleRows string
  | UndefinedColumn string
  | TransactionAborted
  | ConnectionLost string
  | CallFailed string
  | Thrown string

type_synonym 'a result = "error + 'a"

named_theorems result_simps \<open>unfolding of sequenced results\<close>

fun await :: "'a result \<Rightarrow> ('a \<Rightarrow> 'b result) \<Rightarrow> 'b result" where
  "await (Inl e) f = Inl e"
| "await (Inr x) f = f x"

lemma await_Inr_iff [result_simps]:
  "await r f = Inr y \<longleftrightarrow> (\<exists>x. r = Inr x \<and> f x = Inr y)"
  by (cases r) auto

lemma await_Inl_iff [result_simps]:
  "await r f = Inl e \<longleftrightarrow> r = Inl e \<or> (\<exists>x. r = Inr x \<and> f x = Inl e)"
  by (cases r) auto

lemma await_assoc: "await (await r f) g = await r (\<lambda>x. await (f x) g)"
  by (cases r) auto

lemma await_cong [fundef_cong]:
  "r = r' \<Longrightarrow> (\<And>x. r' = Inr x \<Longrightarrow> f x = g x) \<Longrightarrow> await r f = await r' g"
  by (cases r') auto

text \<open>A \<open>for ... of\<close> loop whose body awaits: it stops at the first rejection.\<close>

fun forM :: "'a list \<Rightarrow> ('a \<Rightarrow> 's \<Rightarrow> 's result) \<Rightarrow> 's \<Rightarrow> 's result" where
  "forM [] f s = Inr s"
| "forM (x # xs) f s = await (f x s) (forM xs f)"

lemma forM_append: "forM (xs @ ys) f s = await (forM xs f s) (forM ys f)"
proof (induction xs arbitrary: s)
  case (Cons x xs)
  then have "forM (xs @ ys) f = (\<lambda>t. await (forM xs f t) (forM ys f))" by blast
  then show ?case by (simp add: await_assoc)
qed simp

lemma forM_invariant:
  assumes "forM xs f s = Inr s'" "I s"
    and "\<And>x s s'. x \<in> set xs \<Longrightarrow> I s \<Longrightarrow> f x s = Inr s' \<Longrightarrow> I s'"
  shows "I s'"
  using assms
proof (induction xs arbitrary: s)
  case (Cons x xs)
  then obtain t where t: "f x s = Inr t" "forM xs f t = Inr s'"
    by (auto simp: result_simps)
  with Cons.prems have "I t" by auto
  with t Cons show ?case by auto
qed simp

lemma forM_total:
  assumes "I s" and "\<And>x s. x \<in> set xs \<Longrightarrow> I s \<Longrightarrow> \<exists>s'. f x s = Inr s' \<and> I s'"
  shows "\<exists>s'. forM xs f s = Inr s' \<and> I s'"
  using assms
proof (induction xs arbitrary: s)
  case (Cons x xs)
  from Cons.prems obtain t where "f x s = Inr t" "I t" by fastforce
  with Cons show ?case by fastforce
qed simp

text \<open>The same loop when the body pushes one value per element.\<close>

fun mapM :: "('a \<Rightarrow> 'b result) \<Rightarrow> 'a list \<Rightarrow> 'b list result" where
  "mapM f [] = Inr []"
| "mapM f (x # xs) = await (f x) (\<lambda>y. await (mapM f xs) (\<lambda>ys. Inr (y # ys)))"

lemma mapM_Inr: "mapM f xs = Inr ys \<longleftrightarrow> list_all2 (\<lambda>x y. f x = Inr y) xs ys"
  by (induction xs arbitrary: ys) (auto simp: result_simps list_all2_Cons1)

lemma mapM_total: "(\<And>x. x \<in> set xs \<Longrightarrow> \<exists>y. f x = Inr y) \<Longrightarrow> \<exists>ys. mapM f xs = Inr ys"
  by (induction xs) fastforce+

section \<open>Strings\<close>

definition lower_char :: "char \<Rightarrow> char" where
  "lower_char c =
     (let n = (of_char c :: nat) in if 65 \<le> n \<and> n \<le> 90 then char_of (n + 32) else c)"

definition to_lower :: "string \<Rightarrow> string" where
  "to_lower s = map lower_char s"

lemma lower_char_idem [simp]: "lower_char (lower_char c) = lower_char c"
  by (auto simp: lower_char_def Let_def)

lemma to_lower_idem [simp]: "to_lower (to_lower s) = to_lower s"
  by (simp add: to_lower_def)

lemma to_lower_append [simp]: "to_lower (s @ t) = to_lower s @ to_lower t"
  by (simp add: to_lower_def)

lemma length_to_lower [simp]: "length (to_lower s) = length s"
  by (simp add: to_lower_def)

lemma drop_to_lower: "drop n (to_lower s) = to_lower (drop n s)"
  by (simp add: to_lower_def drop_map)

section \<open>Lists\<close>

lemma filter_map_update:
  assumes "\<And>r. r \<in> set rs \<Longrightarrow> P r \<Longrightarrow> Q (f r) = Q r"
  shows "filter Q (map (\<lambda>r. if P r then f r else r) rs) =
         map (\<lambda>r. if P r then f r else r) (filter Q rs)"
  using assms by (induction rs) auto

lemma filter_singletonD: "filter P xs = [x] \<Longrightarrow> x \<in> set xs \<and> P x"
  by (auto simp: filter_eq_Cons_iff)

lemma filter_singleton_unique:
  assumes "filter P xs = [x]" "y \<in> set xs" "P y"
  shows "y = x"
proof -
  have "y \<in> set (filter P xs)" using assms(2,3) by simp
  then have "y \<in> set [x]" unfolding assms(1) .
  then show ?thesis by simp
qed

end
