(* ===== verification/Ether.thy ===== *)
theory Ether imports Prelude "HOL-Library.List_Lexorder" begin

text \<open>
  The conversions of src/src/utils/ether.ts, src/src/utils/hex.ts and of the end of
  src/src/db/database-persistent.ts: addresses as \<open>0x\<close>-prefixed hex strings, as the byte
  buffers that the database columns hold, and as bit strings.

  \<^item> \<open>buffer\<close> is Node's \<open>Buffer\<close>; \<open>buffer_from_hex\<close> is \<open>Buffer.from(s, 'hex')\<close> (it decodes
    pairs of digits and stops at the first pair that is not hexadecimal), \<open>buffer_to_hex\<close>
    is \<open>toString('hex')\<close>. Buffers are ordered lexicographically, as \<open>Buffer.compare\<close> does.
  \<^item> A \<open>BigNumber\<close> is a rational number: its sums, differences and products are exact.
    Division, which bignumber.js rounds to the configured 18 places, is a parameter where it
    occurs. \<open>parseEther\<close> turns a wei amount into ether.
\<close>

section \<open>Hexadecimal digits and buffers\<close>

fun hex_digit :: "nat \<Rightarrow> char" where
  "hex_digit n = (if n < 10 then char_of (48 + n) else char_of (87 + n))"

definition hex_val :: "char \<Rightarrow> nat option" where
  "hex_val c =
     (let n = (of_char c :: nat) in
      if 48 \<le> n \<and> n \<le> 57 then Some (n - 48)
      else if 97 \<le> n \<and> n \<le> 102 then Some (n - 87)
      else if 65 \<le> n \<and> n \<le> 70 then Some (n - 55)
      else None)"

lemma hex_val_hex_digit: "n < 16 \<Longrightarrow> hex_val (hex_digit n) = Some n"
  by (auto simp: hex_val_def Let_def)

lemma hex_val_less: "hex_val c = Some n \<Longrightarrow> n < 16"
  by (auto simp: hex_val_def Let_def split: if_splits)

lemma hex_digit_hex_val: "hex_val c = Some n \<Longrightarrow> hex_digit n = lower_char c"
proof -
  assume h: "hex_val c = Some n"
  have c: "char_of (of_char c :: nat) = c" by simp
  show ?thesis
    using h c by (auto simp: hex_val_def lower_char_def Let_def add.commute split: if_splits)
qed

lemma lower_hex_digit [simp]: "n < 16 \<Longrightarrow> lower_char (hex_digit n) = hex_digit n"
  by (auto simp: lower_char_def Let_def)

datatype buffer = Buffer (raw: "8 word list")

instantiation buffer :: linorder
begin

definition less_eq_buffer :: "buffer \<Rightarrow> buffer \<Rightarrow> bool" where
  "less_eq_buffer a b \<longleftrightarrow> raw a \<le> raw b"

definition less_buffer :: "buffer \<Rightarrow> buffer \<Rightarrow> bool" where
  "less_buffer a b \<longleftrightarrow> raw a < raw b"

instance
  by standard (auto simp: less_eq_buffer_def less_buffer_def buffer.expand)

end

fun hex_decode :: "string \<Rightarrow> 8 word list" where
  "hex_decode (a # b # s) =
     (case (hex_val a, hex_val b) of
        (Some x, Some y) \<Rightarrow> word_of_nat (16 * x + y) # hex_decode s
      | _ \<Rightarrow> [])"
| "hex_decode _ = []"

definition buffer_from_hex :: "string \<Rightarrow> buffer" where
  "buffer_from_hex s = Buffer (hex_decode s)"

fun hex_encode :: "8 word list \<Rightarrow> string" where
  "hex_encode [] = []"
| "hex_encode (b # bs) =
     hex_digit (unat b div 16) # hex_digit (unat b mod 16) # hex_encode bs"

definition buffer_to_hex :: "buffer \<Rightarrow> string" where
  "buffer_to_hex b = hex_encode (raw b)"

lemma unat_byte_less: "unat (b :: 8 word) < 256"
  using unsigned_less [of b, where ?'a = nat] by simp

lemma byte_digit_less [simp]: "unat (b :: 8 word) div 16 < 16"
  using unat_byte_less [of b] by linarith

lemma hex_decode_encode [simp]: "hex_decode (hex_encode bs) = bs"
  by (induction bs) (simp_all add: hex_val_hex_digit del: hex_digit.simps)

lemma lower_hex_encode [simp]: "to_lower (hex_encode bs) = hex_encode bs"
  by (induction bs) (simp_all add: to_lower_def del: hex_digit.simps)

definition is_hex :: "string \<Rightarrow> bool" where
  "is_hex s \<longleftrightarrow> even (length s) \<and> list_all (\<lambda>c. hex_val c \<noteq> None) s"

lemma unat_hex_byte:
  assumes "x < 16" "y < 16"
  shows "unat (16 * word_of_nat x + word_of_nat y :: 8 word) = 16 * x + y"
proof -
  have "unat (word_of_nat (16 * x + y) :: 8 word) = (16 * x + y) mod 2 ^ LENGTH(8)"
    by (rule unat_of_nat)
  then show ?thesis using assms by simp
qed

lemma hex_encode_decode: "is_hex s \<Longrightarrow> hex_encode (hex_decode s) = to_lower s"
proof (induction s rule: hex_decode.induct)
  case (1 a b s)
  then obtain x y where xy: "hex_val a = Some x" "hex_val b = Some y"
    by (auto simp: is_hex_def)
  then have "x < 16" "y < 16" by (auto dest: hex_val_less)
  with xy 1 show ?case
    by (auto simp: is_hex_def to_lower_def unat_hex_byte hex_digit_hex_val simp del: hex_digit.simps)
qed (auto simp: is_hex_def to_lower_def)

lemma hex_val_lower [simp]: "hex_val (lower_char c) = hex_val c"
  by (auto simp: hex_val_def lower_char_def Let_def)

lemma hex_decode_lower: "hex_decode (to_lower s) = hex_decode s"
  by (induction s rule: hex_decode.induct) (auto simp: to_lower_def split: option.splits)

section \<open>Addresses\<close>

definition addressToBuffer :: "string \<Rightarrow> buffer" where
  "addressToBuffer address = buffer_from_hex (drop 2 (to_lower address))"

definition bufferToAddress :: "buffer \<Rightarrow> string" where
  "bufferToAddress buffer = ''0x'' @ to_lower (buffer_to_hex buffer)"

definition is_address :: "string \<Rightarrow> bool" where
  "is_address a \<longleftrightarrow> take 2 a = ''0x'' \<and> is_hex (drop 2 a)"

lemma addressToBuffer_lower [simp]: "addressToBuffer (to_lower a) = addressToBuffer a"
  by (simp add: addressToBuffer_def)

lemma to_lower_0x [simp]:
  "to_lower (CHR ''0'' # CHR ''x'' # s) = CHR ''0'' # CHR ''x'' # to_lower s"
  by (simp add: to_lower_def lower_char_def)

lemma addressToBuffer_bufferToAddress [simp]: "addressToBuffer (bufferToAddress b) = b"
  by (simp add: addressToBuffer_def bufferToAddress_def buffer_to_hex_def buffer_from_hex_def)

lemma bufferToAddress_addressToBuffer:
  assumes "is_address a"
  shows "bufferToAddress (addressToBuffer a) = to_lower a"
proof -
  have "to_lower a = to_lower (take 2 a @ drop 2 a)" by simp
  also have "\<dots> = ''0x'' @ to_lower (drop 2 a)"
    using assms by (simp add: is_address_def del: append_take_drop_id)
  finally show ?thesis
    using assms
    by (simp add: bufferToAddress_def addressToBuffer_def buffer_to_hex_def buffer_from_hex_def
        drop_to_lower hex_decode_lower hex_encode_decode is_address_def)
qed

lemma addressToBuffer_eq_iff:
  assumes "is_address a" "is_address b"
  shows "addressToBuffer a = addressToBuffer b \<longleftrightarrow> to_lower a = to_lower b"
  using assms bufferToAddress_addressToBuffer addressToBuffer_lower by metis

section \<open>Hex strings and token ids\<close>

definition truncate0x :: "string \<Rightarrow> string" where
  "truncate0x hex = (if take 2 hex = ''0x'' then drop 2 hex else hex)"

definition hexToBuffer :: "string \<Rightarrow> buffer" where
  "hexToBuffer hex = buffer_from_hex (to_lower (truncate0x hex))"

text \<open>\<open>BigInt.prototype.toString(16)\<close> and \<open>padStart\<close>.\<close>

fun to_hex :: "nat \<Rightarrow> string" where
  "to_hex n = (if n < 16 then [hex_digit n] else to_hex (n div 16) @ [hex_digit (n mod 16)])"

declare to_hex.simps [simp del]

definition padStart :: "nat \<Rightarrow> char \<Rightarrow> string \<Rightarrow> string" where
  "padStart n c s = replicate (n - length s) c @ s"

definition tokenIdToLabelHash :: "nat \<Rightarrow> string" where
  "tokenIdToLabelHash tokenId = ''0x'' @ padStart 64 (CHR ''0'') (to_hex tokenId)"

section \<open>Ether amounts\<close>

type_synonym wei = int
type_synonym BigNumber = rat

definition parseEther :: "wei \<Rightarrow> BigNumber" where
  "parseEther wei = of_int wei / 10 ^ 18"

lemma parseEther_add: "parseEther (a + b) = parseEther a + parseEther b"
  by (simp add: parseEther_def add_divide_distrib)

lemma parseEther_nonneg [simp]: "0 \<le> parseEther w \<longleftrightarrow> 0 \<le> w"
  by (simp add: parseEther_def zero_le_divide_iff)

lemma parseEther_eq_iff [simp]: "parseEther v = parseEther w \<longleftrightarrow> v = w"
  by (simp add: parseEther_def)

end
