(* ===== verification/Tables.thy ===== *)
theory Tables imports Prelude begin

text \<open>
  Relational tables as the code uses them through @databases/pg-typed. A table is the list of
  its rows in insertion order; \<open>key\<close> gives a row's primary key and \<open>fk\<close> says whether every
  foreign key of a row refers to an existing row (both are read off the schema in
  src/db/container-content/01_create_tables.sql and src/db/migrations).

  \<^item> An insertion fails with a unique violation when the key is taken, and with a foreign key
    violation when a referenced row is missing; PostgreSQL checks uniqueness first.
  \<^item> An update rewrites every row that matches; it fails when two rows end up with one key.
  \<^item> \<open>find_one\<close> is pg-typed's \<open>findOne\<close>: null for no match, an error for more than one.
\<close>

definition insert_row ::
  "string \<Rightarrow> ('r \<Rightarrow> 'k) \<Rightarrow> ('r \<Rightarrow> bool) \<Rightarrow> 'r \<Rightarrow> 'r list \<Rightarrow> 'r list result" where
  "insert_row name key fk r rows =
     (if key r \<in> set (map key rows) then Inl (UniqueViolation name)
      else if \<not> fk r then Inl (ForeignKeyViolation name)
      else Inr (rows @ [r]))"

definition insert_or_ignore ::
  "string \<Rightarrow> ('r \<Rightarrow> 'k) \<Rightarrow> ('r \<Rightarrow> bool) \<Rightarrow> 'r \<Rightarrow> 'r list \<Rightarrow> 'r list result" where
  "insert_or_ignore name key fk r rows =
     (if key r \<in> set (map key rows) then Inr rows
      else if \<not> fk r then Inl (ForeignKeyViolation name)
      else Inr (rows @ [r]))"

abbreviation set_where :: "('r \<Rightarrow> bool) \<Rightarrow> ('r \<Rightarrow> 'r) \<Rightarrow> 'r list \<Rightarrow> 'r list" where
  "set_where P f rows \<equiv> map (\<lambda>r. if P r then f r else r) rows"

definition update_rows ::
  "string \<Rightarrow> ('r \<Rightarrow> 'k) \<Rightarrow> ('r \<Rightarrow> bool) \<Rightarrow> ('r \<Rightarrow> bool) \<Rightarrow> ('r \<Rightarrow> 'r) \<Rightarrow> 'r list \<Rightarrow> 'r list result" where
  "update_rows name key fk P f rows =
     (if \<not> distinct (map key (set_where P f rows)) then Inl (UniqueViolation name)
      else if \<not> list_all (\<lambda>r. P r \<longrightarrow> fk (f r)) rows then Inl (ForeignKeyViolation name)
      else Inr (set_where P f rows))"

definition delete_where :: "('r \<Rightarrow> bool) \<Rightarrow> 'r list \<Rightarrow> 'r list" where
  "delete_where P rows = filter (\<lambda>r. \<not> P r) rows"

definition find_one :: "string \<Rightarrow> ('r \<Rightarrow> bool) \<Rightarrow> 'r list \<Rightarrow> 'r option result" where
  "find_one name P rows =
     (case filter P rows of
        [] \<Rightarrow> Inr None
      | [r] \<Rightarrow> Inr (Some r)
      | _ \<Rightarrow> Inl (MultipleRows name))"

definition max_of :: "int list \<Rightarrow> int option" where
  "max_of xs = (case xs of [] \<Rightarrow> None | x # ys \<Rightarrow> Some (fold max ys x))"

section \<open>Laws of the operations\<close>

named_theorems table_simps \<open>what the table operations return\<close>

lemma insert_row_Inr [table_simps]:
  "insert_row name key fk r rows = Inr rows' \<longleftrightarrow>
     key r \<notin> key ` set rows \<and> fk r \<and> rows' = rows @ [r]"
  by (auto simp: insert_row_def)

lemma insert_or_ignore_Inr [table_simps]:
  "insert_or_ignore name key fk r rows = Inr rows' \<longleftrightarrow>
     (if key r \<in> key ` set rows then rows' = rows else fk r \<and> rows' = rows @ [r])"
  by (auto simp: insert_or_ignore_def)

lemma update_rows_Inr [table_simps]:
  "update_rows name key fk P f rows = Inr rows' \<longleftrightarrow>
     distinct (map key (set_where P f rows)) \<and> (\<forall>r \<in> set rows. P r \<longrightarrow> fk (f r)) \<and>
     rows' = set_where P f rows"
  by (auto simp: update_rows_def list_all_iff)

lemma distinct_insert_row:
  "insert_row name key fk r rows = Inr rows' \<Longrightarrow> distinct (map key rows) \<Longrightarrow>
   distinct (map key rows')"
  by (auto simp: table_simps)

lemma distinct_insert_or_ignore:
  "insert_or_ignore name key fk r rows = Inr rows' \<Longrightarrow> distinct (map key rows) \<Longrightarrow>
   distinct (map key rows')"
  by (auto simp: table_simps split: if_splits)

lemma distinct_update_rows:
  "update_rows name key fk P f rows = Inr rows' \<Longrightarrow> distinct (map key rows')"
  by (auto simp: table_simps)

lemma distinct_delete_where:
  "distinct (map key rows) \<Longrightarrow> distinct (map key (delete_where P rows))"
  by (simp add: delete_where_def distinct_map_filter)

text \<open>An update that keeps the keys of the rows it touches never clashes.\<close>

lemma map_key_set_where:
  assumes "\<And>r. r \<in> set rows \<Longrightarrow> P r \<Longrightarrow> key (f r) = key r"
  shows "map key (set_where P f rows) = map key rows"
  using assms by (induction rows) auto

lemma find_one_Some:
  "find_one name P rows = Inr (Some r) \<longleftrightarrow> filter P rows = [r]"
  by (auto simp: find_one_def split: list.splits)

lemma find_one_None [simp]:
  "find_one name P rows = Inr None \<longleftrightarrow> (\<forall>r \<in> set rows. \<not> P r)"
proof -
  have "find_one name P rows = Inr None \<longleftrightarrow> filter P rows = []"
    by (simp add: find_one_def split: list.splits)
  then show ?thesis by (simp add: filter_empty_conv)
qed

lemma find_one_SomeD:
  "find_one name P rows = Inr (Some r) \<Longrightarrow> r \<in> set rows \<and> P r"
  using filter_singletonD [of P rows r] by (simp add: find_one_Some)

lemma distinct_singleton:
  assumes "distinct xs" "set xs = {r}"
  shows "xs = [r]"
proof (cases xs)
  case (Cons x ys)
  then have "ys = []" using assms by (cases ys) auto
  then show ?thesis using assms(2) Cons by simp
qed (use assms in simp)

text \<open>A condition that determines the key matches at most one row, so \<open>find_one\<close> succeeds.\<close>

lemma filter_by_key:
  assumes "distinct (map key rows)" "r \<in> set rows" "P r"
    and "\<And>r'. r' \<in> set rows \<Longrightarrow> P r' \<Longrightarrow> key r' = key r"
  shows "filter P rows = [r]"
proof -
  have inj: "inj_on key (set rows)" and dist: "distinct (filter P rows)"
    using assms(1) by (simp_all add: distinct_map)
  have "r' = r" if "r' \<in> set rows" "P r'" for r'
    using inj_onD [OF inj assms(4) [OF that] that(1) assms(2)] .
  then have "set (filter P rows) = {r}" using assms(2,3) unfolding set_filter by blast
  with dist show ?thesis by (rule distinct_singleton)
qed

lemma find_one_by_key:
  assumes "distinct (map key rows)" "r \<in> set rows" "P r"
    and "\<And>r'. r' \<in> set rows \<Longrightarrow> P r' \<Longrightarrow> key r' = key r"
  shows "find_one name P rows = Inr (Some r)"
  unfolding find_one_Some using assms by (rule filter_by_key [where key = key])

lemma max_of_None [simp]: "max_of xs = None \<longleftrightarrow> xs = []"
  by (simp add: max_of_def split: list.splits)

lemma max_of_Some: "max_of xs = Some m \<longleftrightarrow> m \<in> set xs \<and> (\<forall>x \<in> set xs. x \<le> m)"
proof (cases xs)
  case (Cons y ys)
  have "fold max ys y = Max (set (y # ys))"
    by (rule Max.set_eq_fold [symmetric])
  then have m: "max_of xs = Some (Max (set xs))" using Cons by (simp add: max_of_def)
  have ne: "set xs \<noteq> {}" using Cons by simp
  have "Max (set xs) = m \<longleftrightarrow> m \<in> set xs \<and> (\<forall>x \<in> set xs. x \<le> m)"
    by (rule Max_eq_iff [OF List.finite_set ne])
  then show ?thesis unfolding m by simp
qed (simp add: max_of_def)

end
