(* ===== verification/Schema.thy ===== *)
theory Schema imports Ether Tables begin

text \<open>
  The tables that the importer writes inside its block transaction, as they stand in
  src/db/container-content/01_create_tables.sql and src/db/migrations (mirrored by the row
  types of src/src/db/schema). One record per row type, a record \<open>db\<close> of all tables, and for
  each table its primary key and its foreign keys. \<open>valid_db\<close> is the schema's integrity:
  keys are unique and every reference resolves. A NULL column is \<open>None\<close>. NUMERIC columns are exact.
\<close>

section \<open>Row types\<close>

text \<open>
  A JavaScript number that comes out of a division: the quotient of two integers, or one of
  the values that IEEE division by zero gives.
\<close>

datatype js_ratio = Ratio rat | Infinity | NaN

record Headers =
  block_number :: int
  block_hash :: string
  extra_data :: string
  block_time :: int
  block_duration :: int
  transaction_count :: int
  txs_per_sec :: js_ratio
  posdao_hbbft_epoch :: int
  reinsert_pot :: BigNumber
  delta_pot :: BigNumber
  governance_pot :: BigNumber
  reward_contract_total :: BigNumber
  unclaimed_rewards :: BigNumber

record PosdaoEpoch =
  epoch_id :: int
  block_start :: int
  block_end :: "int option"

record Node =
  pool_address :: buffer
  mining_address :: buffer
  mining_public_key :: buffer
  added_block :: int
  node_bonus_score :: int

record PosdaoEpochNode =
  id_node :: buffer
  id_posdao_epoch :: int
  owner_reward :: "BigNumber option"
  is_claimed :: "bool option"
  epoch_apy :: BigNumber
  total_pool_reward :: BigNumber
  validator_fixed_reward :: BigNumber
  node_operator_reward :: BigNumber
  delegators_total_reward :: BigNumber
  total_staked_snapshot :: BigNumber
  reward_computed :: bool

record DelegateReward =
  dr_id_node :: buffer
  dr_id_posdao_epoch :: int
  dr_id_delegator :: buffer
  dr_is_claimed :: bool
  reward_amount :: BigNumber

record OrderedWithdrawal =
  ow_id :: int
  ow_amount :: BigNumber
  ow_block_number :: int
  ow_staking_epoch :: int
  from_pool_stakingAddress :: buffer
  ow_staker :: buffer
  claimed_on_block :: "int option"

record StakeHistory =
  from_block :: int
  to_block :: int
  stake_amount :: BigNumber
  sh_node :: buffer

record PendingValidatorStateEvent =
  pv_state :: string
  on_enter_block_number :: int
  on_exit_block_number :: "int option"
  pv_node :: buffer
  keygen_round :: int

record AvailableEvent =
  av_node :: buffer
  av_block :: int
  became_available :: bool

record BonusScoreHistory =
  bs_from_block :: int
  bs_to_block :: "int option"
  bs_node :: buffer
  bs_score :: int

record StakeDelegators =
  sd_pool_address :: buffer
  sd_delegator :: buffer
  total_delegated :: BigNumber

record BonusScoreChangeReason =
  node_pool_address :: buffer
  br_block_number :: int
  br_epoch :: int
  score_change :: int
  previous_score :: int
  new_score :: int
  br_reason :: string

record db =
  headers :: "Headers list"
  posdao_epoch :: "PosdaoEpoch list"
  node :: "Node list"
  posdao_epoch_node :: "PosdaoEpochNode list"
  delegate_staker :: "buffer list"
  delegate_reward :: "DelegateReward list"
  ordered_withdrawal :: "OrderedWithdrawal list"
  ordered_withdrawal_id_seq :: int
  stake_history :: "StakeHistory list"
  pending_validator_state_event :: "PendingValidatorStateEvent list"
  available_event :: "AvailableEvent list"
  bonus_score_history :: "BonusScoreHistory list"
  stake_delegators :: "StakeDelegators list"
  bonus_score_change_reasons :: "BonusScoreChangeReason list"

definition empty_db :: db where
  "empty_db = \<lparr>headers = [], posdao_epoch = [], node = [], posdao_epoch_node = [],
     delegate_staker = [], delegate_reward = [], ordered_withdrawal = [],
     ordered_withdrawal_id_seq = 1, stake_history = [], pending_validator_state_event = [],
     available_event = [], bonus_score_history = [], stake_delegators = [],
     bonus_score_change_reasons = []\<rparr>"

section \<open>Keys and references\<close>

abbreviation header_exists :: "db \<Rightarrow> int \<Rightarrow> bool" where
  "header_exists d b \<equiv> b \<in> set (map block_number (headers d))"

abbreviation node_exists :: "db \<Rightarrow> buffer \<Rightarrow> bool" where
  "node_exists d p \<equiv> p \<in> set (map pool_address (node d))"

abbreviation epoch_exists :: "db \<Rightarrow> int \<Rightarrow> bool" where
  "epoch_exists d e \<equiv> e \<in> set (map epoch_id (posdao_epoch d))"

abbreviation staker_exists :: "db \<Rightarrow> buffer \<Rightarrow> bool" where
  "staker_exists d a \<equiv> a \<in> set (delegate_staker d)"

definition nullable :: "('a \<Rightarrow> bool) \<Rightarrow> 'a option \<Rightarrow> bool" where
  "nullable P v = (case v of None \<Rightarrow> True | Some x \<Rightarrow> P x)"

definition epoch_fk :: "db \<Rightarrow> PosdaoEpoch \<Rightarrow> bool" where
  "epoch_fk d r \<longleftrightarrow> header_exists d (block_start r) \<and> nullable (header_exists d) (block_end r)"

definition node_fk :: "db \<Rightarrow> Node \<Rightarrow> bool" where
  "node_fk d r \<longleftrightarrow> header_exists d (added_block r)"

definition epoch_node_key :: "PosdaoEpochNode \<Rightarrow> int \<times> buffer" where
  "epoch_node_key r = (id_posdao_epoch r, id_node r)"

definition epoch_node_fk :: "db \<Rightarrow> PosdaoEpochNode \<Rightarrow> bool" where
  "epoch_node_fk d r \<longleftrightarrow> node_exists d (id_node r) \<and> epoch_exists d (id_posdao_epoch r)"

definition delegate_reward_key :: "DelegateReward \<Rightarrow> buffer \<times> buffer \<times> int" where
  "delegate_reward_key r = (dr_id_node r, dr_id_delegator r, dr_id_posdao_epoch r)"

definition delegate_reward_fk :: "db \<Rightarrow> DelegateReward \<Rightarrow> bool" where
  "delegate_reward_fk d r \<longleftrightarrow>
     epoch_exists d (dr_id_posdao_epoch r) \<and> staker_exists d (dr_id_delegator r)"

definition ordered_withdrawal_fk :: "db \<Rightarrow> OrderedWithdrawal \<Rightarrow> bool" where
  "ordered_withdrawal_fk d r \<longleftrightarrow>
     node_exists d (from_pool_stakingAddress r) \<and> epoch_exists d (ow_staking_epoch r) \<and>
     nullable (header_exists d) (claimed_on_block r)"

definition stake_history_key :: "StakeHistory \<Rightarrow> int \<times> int \<times> buffer" where
  "stake_history_key r = (from_block r, to_block r, sh_node r)"

definition stake_history_fk :: "db \<Rightarrow> StakeHistory \<Rightarrow> bool" where
  "stake_history_fk d r \<longleftrightarrow>
     header_exists d (from_block r) \<and> header_exists d (to_block r) \<and> node_exists d (sh_node r)"

definition pending_validator_key ::
  "PendingValidatorStateEvent \<Rightarrow> string \<times> buffer \<times> int \<times> int" where
  "pending_validator_key r = (pv_state r, pv_node r, on_enter_block_number r, keygen_round r)"

definition pending_validator_fk :: "db \<Rightarrow> PendingValidatorStateEvent \<Rightarrow> bool" where
  "pending_validator_fk d r \<longleftrightarrow>
     header_exists d (on_enter_block_number r) \<and> nullable (header_exists d) (on_exit_block_number r)"

definition available_event_key :: "AvailableEvent \<Rightarrow> buffer \<times> int" where
  "available_event_key r = (av_node r, av_block r)"

definition available_event_fk :: "db \<Rightarrow> AvailableEvent \<Rightarrow> bool" where
  "available_event_fk d r \<longleftrightarrow> node_exists d (av_node r) \<and> header_exists d (av_block r)"

definition bonus_score_history_key :: "BonusScoreHistory \<Rightarrow> buffer \<times> int" where
  "bonus_score_history_key r = (bs_node r, bs_from_block r)"

definition bonus_score_history_fk :: "db \<Rightarrow> BonusScoreHistory \<Rightarrow> bool" where
  "bonus_score_history_fk d r \<longleftrightarrow>
     header_exists d (bs_from_block r) \<and> nullable (header_exists d) (bs_to_block r) \<and>
     node_exists d (bs_node r)"

definition stake_delegators_key :: "StakeDelegators \<Rightarrow> buffer \<times> buffer" where
  "stake_delegators_key r = (sd_pool_address r, sd_delegator r)"

definition stake_delegators_fk :: "db \<Rightarrow> StakeDelegators \<Rightarrow> bool" where
  "stake_delegators_fk d r \<longleftrightarrow>
     node_exists d (sd_pool_address r) \<and> staker_exists d (sd_delegator r)"

definition reason_key :: "BonusScoreChangeReason \<Rightarrow> buffer \<times> int" where
  "reason_key r = (node_pool_address r, br_block_number r)"

definition reason_fk :: "db \<Rightarrow> BonusScoreChangeReason \<Rightarrow> bool" where
  "reason_fk d r \<longleftrightarrow> node_exists d (node_pool_address r) \<and> header_exists d (br_block_number r)"

section \<open>Integrity\<close>

definition present :: "'a option list \<Rightarrow> 'a list" where
  "present xs = map the (filter (\<lambda>v. v \<noteq> None) xs)"

definition keys_ok :: "db \<Rightarrow> bool" where
  "keys_ok d \<longleftrightarrow>
     distinct (map block_number (headers d)) \<and>
     distinct (map epoch_id (posdao_epoch d)) \<and>
     distinct (map block_start (posdao_epoch d)) \<and>
     distinct (present (map block_end (posdao_epoch d))) \<and>
     distinct (map pool_address (node d)) \<and>
     distinct (map epoch_node_key (posdao_epoch_node d)) \<and>
     distinct (delegate_staker d) \<and>
     distinct (map delegate_reward_key (delegate_reward d)) \<and>
     distinct (map ow_id (ordered_withdrawal d)) \<and>
     list_all (\<lambda>r. ow_id r < ordered_withdrawal_id_seq d) (ordered_withdrawal d) \<and>
     distinct (map stake_history_key (stake_history d)) \<and>
     distinct (map pending_validator_key (pending_validator_state_event d)) \<and>
     distinct (map available_event_key (available_event d)) \<and>
     distinct (map bonus_score_history_key (bonus_score_history d)) \<and>
     distinct (map stake_delegators_key (stake_delegators d)) \<and>
     distinct (map reason_key (bonus_score_change_reasons d))"

definition refs_ok :: "db \<Rightarrow> bool" where
  "refs_ok d \<longleftrightarrow>
     list_all (epoch_fk d) (posdao_epoch d) \<and>
     list_all (node_fk d) (node d) \<and>
     list_all (epoch_node_fk d) (posdao_epoch_node d) \<and>
     list_all (delegate_reward_fk d) (delegate_reward d) \<and>
     list_all (ordered_withdrawal_fk d) (ordered_withdrawal d) \<and>
     list_all (stake_history_fk d) (stake_history d) \<and>
     list_all (pending_validator_fk d) (pending_validator_state_event d) \<and>
     list_all (available_event_fk d) (available_event d) \<and>
     list_all (bonus_score_history_fk d) (bonus_score_history d) \<and>
     list_all (stake_delegators_fk d) (stake_delegators d) \<and>
     list_all (reason_fk d) (bonus_score_change_reasons d)"

definition valid_db :: "db \<Rightarrow> bool" where
  "valid_db d \<longleftrightarrow> keys_ok d \<and> refs_ok d"

lemma valid_empty_db: "valid_db empty_db"
  by (simp add: valid_db_def keys_ok_def refs_ok_def empty_db_def present_def)

text \<open>A reference depends only on the keys of the four referenced tables.\<close>

definition parents_le :: "db \<Rightarrow> db \<Rightarrow> bool" where
  "parents_le d d' \<longleftrightarrow>
     set (map block_number (headers d)) \<subseteq> set (map block_number (headers d')) \<and>
     set (map pool_address (node d)) \<subseteq> set (map pool_address (node d')) \<and>
     set (map epoch_id (posdao_epoch d)) \<subseteq> set (map epoch_id (posdao_epoch d')) \<and>
     set (delegate_staker d) \<subseteq> set (delegate_staker d')"

named_theorems fk_defs \<open>definitions of the foreign keys\<close>

lemmas [fk_defs] =
  epoch_fk_def node_fk_def epoch_node_fk_def delegate_reward_fk_def ordered_withdrawal_fk_def
  stake_history_fk_def pending_validator_fk_def available_event_fk_def
  bonus_score_history_fk_def stake_delegators_fk_def reason_fk_def

lemma nullable_mono: "nullable P v \<Longrightarrow> (\<And>x. P x \<Longrightarrow> Q x) \<Longrightarrow> nullable Q v"
  by (auto simp: nullable_def split: option.splits)

lemma list_all_fk_mono: "list_all (P d) rs \<Longrightarrow> (\<And>r. P d r \<Longrightarrow> P d' r) \<Longrightarrow> list_all (P d') rs"
  by (auto simp: list_all_iff)

lemma fk_mono:
  assumes "parents_le d d'"
  shows "epoch_fk d r1 \<Longrightarrow> epoch_fk d' r1" and "node_fk d r2 \<Longrightarrow> node_fk d' r2"
    and "epoch_node_fk d r3 \<Longrightarrow> epoch_node_fk d' r3"
    and "delegate_reward_fk d r4 \<Longrightarrow> delegate_reward_fk d' r4"
    and "ordered_withdrawal_fk d r5 \<Longrightarrow> ordered_withdrawal_fk d' r5"
    and "stake_history_fk d r6 \<Longrightarrow> stake_history_fk d' r6"
    and "pending_validator_fk d r7 \<Longrightarrow> pending_validator_fk d' r7"
    and "available_event_fk d r8 \<Longrightarrow> available_event_fk d' r8"
    and "bonus_score_history_fk d r9 \<Longrightarrow> bonus_score_history_fk d' r9"
    and "stake_delegators_fk d r10 \<Longrightarrow> stake_delegators_fk d' r10"
    and "reason_fk d r11 \<Longrightarrow> reason_fk d' r11"
proof -
  have h: "header_exists d b \<Longrightarrow> header_exists d' b" for b
    using assms unfolding parents_le_def by blast
  have n: "node_exists d p \<Longrightarrow> node_exists d' p" for p
    using assms unfolding parents_le_def by blast
  have e: "epoch_exists d i \<Longrightarrow> epoch_exists d' i" for i
    using assms unfolding parents_le_def by blast
  have s: "staker_exists d a \<Longrightarrow> staker_exists d' a" for a
    using assms unfolding parents_le_def by blast
  note up = h n e s nullable_mono [where P = "header_exists d" and Q = "header_exists d'", OF _ h]
  show "epoch_fk d r1 \<Longrightarrow> epoch_fk d' r1" unfolding fk_defs using up by blast
  show "node_fk d r2 \<Longrightarrow> node_fk d' r2" unfolding fk_defs using up by blast
  show "epoch_node_fk d r3 \<Longrightarrow> epoch_node_fk d' r3" unfolding fk_defs using up by blast
  show "delegate_reward_fk d r4 \<Longrightarrow> delegate_reward_fk d' r4" unfolding fk_defs using up by blast
  show "ordered_withdrawal_fk d r5 \<Longrightarrow> ordered_withdrawal_fk d' r5" unfolding fk_defs using up by blast
  show "stake_history_fk d r6 \<Longrightarrow> stake_history_fk d' r6" unfolding fk_defs using up by blast
  show "pending_validator_fk d r7 \<Longrightarrow> pending_validator_fk d' r7" unfolding fk_defs using up by blast
  show "available_event_fk d r8 \<Longrightarrow> available_event_fk d' r8" unfolding fk_defs using up by blast
  show "bonus_score_history_fk d r9 \<Longrightarrow> bonus_score_history_fk d' r9" unfolding fk_defs using up by blast
  show "stake_delegators_fk d r10 \<Longrightarrow> stake_delegators_fk d' r10" unfolding fk_defs using up by blast
  show "reason_fk d r11 \<Longrightarrow> reason_fk d' r11" unfolding fk_defs using up by blast
qed

lemma refs_ok_mono:
  assumes "refs_ok d" "parents_le d d'"
    and "posdao_epoch d' = posdao_epoch d" "node d' = node d"
    and "posdao_epoch_node d' = posdao_epoch_node d" "delegate_reward d' = delegate_reward d"
    and "ordered_withdrawal d' = ordered_withdrawal d" "stake_history d' = stake_history d"
    and "pending_validator_state_event d' = pending_validator_state_event d"
    and "available_event d' = available_event d" "bonus_score_history d' = bonus_score_history d"
    and "stake_delegators d' = stake_delegators d"
    and "bonus_score_change_reasons d' = bonus_score_change_reasons d"
  shows "refs_ok d'"
  using assms(1) unfolding refs_ok_def list_all_iff assms(3-13)
  by (auto intro: fk_mono [OF assms(2)])

end
