(* ===== verification/Manager.thy ===== *)
theory Manager imports Schema begin

text \<open>
  The connection side of the class DbManager (src/src/db/database-persistent.ts): statements,
  the block transaction, and retrying after a lost connection.

  \<^item> A \<open>manager\<close> holds the committed tables, the working copy of the transaction under way
    (the field \<open>currentTransaction\<close>), whether PostgreSQL has marked that transaction as
    aborted, and the tables that are only written through the connection pool, outside of
    any transaction: \<open>stake_transactions\<close>, \<open>dmd_names\<close> and \<open>dmd_name_events\<close>. The importer is
    the only writer.
  \<^item> An \<open>action\<close> is an asynchronous method: it gives a result and the manager's next state,
    also when it fails. \<open>query\<close> runs one statement on what \<open>getDbContext\<close> returns. After a
    failed statement PostgreSQL refuses every further statement of the transaction, and its
    COMMIT rolls back.
  \<^item> Reconnection attempts succeed or fail as the list \<open>reconnects\<close> says (none left: fail),
    and sleeping moves \<open>clock\<close>. A second caller of \<open>reconnect\<close>, which waits until the first
    one is done, does not occur: the importer awaits every call.
\<close>

section \<open>The manager\<close>

record StakeTransaction =
  st_id :: int
  st_block_number :: int
  st_block_timestamp :: int
  action_type :: string
  st_pool_address :: buffer
  staker_address :: "buffer option"
  to_pool_address :: "buffer option"
  caller_address :: "buffer option"
  st_amount :: wei
  staking_epoch :: "int option"
  is_delegator_stake :: bool

record DmdName =
  label_hash :: buffer
  label :: "string option"
  name_owner :: "buffer option"
  name_creator :: "buffer option"
  created_block :: "int option"
  created_timestamp :: "int option"
  expiration :: "int option"
  active :: "bool option"
  blocked :: "bool option"
  last_action_type :: string
  last_action_block :: int
  last_action_timestamp :: int

record DmdNameEvent =
  ne_label_hash :: buffer
  ne_label :: "string option"
  event_type :: string
  actor_address :: "buffer option"
  from_address :: "buffer option"
  to_address :: "buffer option"
  ne_expiration :: "int option"
  ne_blocked :: "bool option"
  ne_block_number :: int
  ne_block_timestamp :: int
  tx_hash :: "buffer option"

record manager =
  committed :: db
  currentTransaction :: "db option"
  tx_aborted :: bool
  stake_transactions :: "StakeTransaction list"
  stake_transactions_id_seq :: int
  dmd_names :: "DmdName list"
  dmd_name_events :: "DmdNameEvent list"
  connectionRetries :: nat
  reconnects :: "bool list"
  clock :: int

definition new_manager :: manager where
  "new_manager = \<lparr>committed = empty_db, currentTransaction = None, tx_aborted = False,
     stake_transactions = [], stake_transactions_id_seq = 1, dmd_names = [],
     dmd_name_events = [], connectionRetries = 0, reconnects = [], clock = 0\<rparr>"

section \<open>Actions\<close>

text \<open>A program on a state \<open>'s\<close>; an action is a program on the manager.\<close>

type_synonym ('s, 'a) prog = "'s \<Rightarrow> 'a result \<times> 's"
type_synonym 'a action = "(manager, 'a) prog"

definition ret :: "'a \<Rightarrow> ('s, 'a) prog" where
  "ret x m = (Inr x, m)"

definition throw :: "error \<Rightarrow> ('s, 'a) prog" where
  "throw e m = (Inl e, m)"

definition andThen :: "('s, 'a) prog \<Rightarrow> ('a \<Rightarrow> ('s, 'b) prog) \<Rightarrow> ('s, 'b) prog" where
  "andThen A f m =
     (case A m of (Inl e, m') \<Rightarrow> (Inl e, m') | (Inr x, m') \<Rightarrow> f x m')"

definition try_catch :: "('s, 'a) prog \<Rightarrow> (error \<Rightarrow> ('s, 'a) prog) \<Rightarrow> ('s, 'a) prog" where
  "try_catch A h m =
     (case A m of (Inl e, m') \<Rightarrow> h e m' | (Inr x, m') \<Rightarrow> (Inr x, m'))"

fun forEach :: "'a list \<Rightarrow> ('a \<Rightarrow> ('s, unit) prog) \<Rightarrow> ('s, unit) prog" where
  "forEach [] f = ret ()"
| "forEach (x # xs) f = andThen (f x) (\<lambda>_. forEach xs f)"

text \<open>A loop whose body pushes any number of results.\<close>

fun collect :: "'a list \<Rightarrow> ('a \<Rightarrow> ('s, 'b list) prog) \<Rightarrow> ('s, 'b list) prog" where
  "collect [] f = ret []"
| "collect (x # xs) f = andThen (f x) (\<lambda>ys. andThen (collect xs f) (\<lambda>zs. ret (ys @ zs)))"

named_theorems action_simps \<open>what an action that succeeds did\<close>

lemma ret_Inr [action_simps]: "ret x m = (Inr y, m') \<longleftrightarrow> y = x \<and> m' = m"
  by (auto simp: ret_def)

lemma throw_Inr [action_simps]: "throw e m = (Inr y, m') \<longleftrightarrow> False"
  by (simp add: throw_def)

lemma andThen_Inr [action_simps]:
  "andThen A f m = (Inr y, m') \<longleftrightarrow> (\<exists>x m1. A m = (Inr x, m1) \<and> f x m1 = (Inr y, m'))"
  by (auto simp: andThen_def split: prod.splits sum.splits)

lemma andThen_assoc: "andThen (andThen A f) g = andThen A (\<lambda>x. andThen (f x) g)"
  by (rule ext) (auto simp: andThen_def split: prod.splits sum.splits)

lemma andThen_ret [simp]: "andThen (ret x) f = f x"
  by (rule ext) (simp add: andThen_def ret_def)

lemma forEach_append: "forEach (xs @ ys) f = andThen (forEach xs f) (\<lambda>_. forEach ys f)"
  by (induction xs) (simp_all add: andThen_assoc)

lemma forEach_invariant:
  assumes "forEach xs f m = (Inr u, m')" "I m"
    and "\<And>x m m'. x \<in> set xs \<Longrightarrow> I m \<Longrightarrow> f x m = (Inr (), m') \<Longrightarrow> I m'"
  shows "I m'"
  using assms
proof (induction xs arbitrary: m)
  case (Cons x xs)
  then obtain m1 where m1: "f x m = (Inr (), m1)" "forEach xs f m1 = (Inr u, m')"
    by (auto simp: action_simps)
  with Cons.prems have "I m1" by auto
  with m1 Cons show ?case by auto
qed (simp add: action_simps)

section \<open>Statements\<close>

definition getDbContext :: "manager \<Rightarrow> db" where
  "getDbContext m = (case currentTransaction m of Some d \<Rightarrow> d | None \<Rightarrow> committed m)"

definition set_context :: "db \<Rightarrow> manager \<Rightarrow> manager" where
  "set_context d m =
     (case currentTransaction m of
        Some _ \<Rightarrow> m\<lparr>currentTransaction := Some d\<rparr> | None \<Rightarrow> m\<lparr>committed := d\<rparr>)"

definition usable :: "manager \<Rightarrow> bool" where
  "usable m \<longleftrightarrow> \<not> (currentTransaction m \<noteq> None \<and> tx_aborted m)"

definition query :: "(db \<Rightarrow> ('a \<times> db) result) \<Rightarrow> 'a action" where
  "query statement m =
     (if \<not> usable m then (Inl TransactionAborted, m)
      else case statement (getDbContext m) of
        Inl e \<Rightarrow> (Inl e, if currentTransaction m = None then m else m\<lparr>tx_aborted := True\<rparr>)
      | Inr (x, d) \<Rightarrow> (Inr x, set_context d m))"

definition execute :: "(db \<Rightarrow> db result) \<Rightarrow> unit action" where
  "execute statement = query (\<lambda>d. await (statement d) (\<lambda>d'. Inr ((), d')))"

definition read :: "(db \<Rightarrow> 'a result) \<Rightarrow> 'a action" where
  "read statement = query (\<lambda>d. await (statement d) (\<lambda>x. Inr (x, d)))"

text \<open>A statement sent through \<open>this.connectionPool\<close> sees only committed data.\<close>

definition pool_read :: "(db \<Rightarrow> 'a result) \<Rightarrow> 'a action" where
  "pool_read statement m = (statement (committed m), m)"

lemma getDbContext_set [simp]: "getDbContext (set_context d m) = d"
  by (simp add: getDbContext_def set_context_def split: option.splits)

lemma usable_set [simp]: "usable (set_context d m) = usable m"
  by (simp add: usable_def set_context_def split: option.splits)

lemma set_context_set [simp]: "set_context d (set_context d' m) = set_context d m"
  by (simp add: set_context_def split: option.splits)

lemma set_context_get [simp]: "set_context (getDbContext m) m = m"
  by (simp add: getDbContext_def set_context_def split: option.splits)

lemma set_context_fields [simp]:
  "stake_transactions (set_context d m) = stake_transactions m"
  "dmd_names (set_context d m) = dmd_names m"
  "dmd_name_events (set_context d m) = dmd_name_events m"
  "tx_aborted (set_context d m) = tx_aborted m"
  "currentTransaction (set_context d m) = None \<longleftrightarrow> currentTransaction m = None"
  by (simp_all add: set_context_def split: option.splits)

lemma committed_set_context:
  "currentTransaction m \<noteq> None \<Longrightarrow> committed (set_context d m) = committed m"
  by (auto simp: set_context_def)

lemma query_Inr [action_simps]:
  "query s m = (Inr x, m') \<longleftrightarrow>
     usable m \<and> (\<exists>d. s (getDbContext m) = Inr (x, d) \<and> m' = set_context d m)"
  by (auto simp: query_def split: sum.splits if_splits)

lemma execute_Inr [action_simps]:
  "execute s m = (Inr u, m') \<longleftrightarrow>
     usable m \<and> (\<exists>d. s (getDbContext m) = Inr d \<and> m' = set_context d m)"
  by (auto simp: execute_def action_simps result_simps)

lemma read_Inr [action_simps]:
  "read s m = (Inr x, m') \<longleftrightarrow> usable m \<and> s (getDbContext m) = Inr x \<and> m' = m"
  by (auto simp: read_def action_simps result_simps)

lemma pool_read_Inr [action_simps]:
  "pool_read s m = (Inr x, m') \<longleftrightarrow> s (committed m) = Inr x \<and> m' = m"
  by (auto simp: pool_read_def)

section \<open>Transactions\<close>

text \<open>
  \<open>connectionPool.tx\<close>: BEGIN takes the committed tables as the working copy, a returned
  operation commits (rolls back, without an error, when the transaction is aborted), a thrown
  one rolls back. The \<open>finally\<close> restores the previous context.
\<close>

definition begin_transaction :: "manager \<Rightarrow> manager" where
  "begin_transaction m = m\<lparr>currentTransaction := Some (committed m), tx_aborted := False\<rparr>"

definition end_transaction :: "manager \<Rightarrow> manager \<Rightarrow> bool \<Rightarrow> manager" where
  "end_transaction before m returned =
     (let m1 = (if returned \<and> usable m then m\<lparr>committed := getDbContext m\<rparr> else m)
      in m1\<lparr>currentTransaction := currentTransaction before, tx_aborted := tx_aborted before\<rparr>)"

definition executeInTransaction :: "int \<Rightarrow> 'a action \<Rightarrow> 'a action" where
  "executeInTransaction blockNumber operation m =
     (case operation (begin_transaction m) of
        (Inr x, m') \<Rightarrow> (Inr x, end_transaction m m' True)
      | (Inl e, m') \<Rightarrow> (Inl e, end_transaction m m' False))"

text \<open>
  An action is transactional when, inside a transaction, it leaves the committed tables and
  the transaction in place. Every action built from statements is.
\<close>

definition transactional :: "'a action \<Rightarrow> bool" where
  "transactional A \<longleftrightarrow>
     (\<forall>m. currentTransaction m \<noteq> None \<longrightarrow>
        committed (snd (A m)) = committed m \<and> currentTransaction (snd (A m)) \<noteq> None)"

named_theorems transactionals \<open>actions that keep to the transaction\<close>

lemma transactionalD:
  assumes "transactional A" "A m = (r, m')" "currentTransaction m \<noteq> None"
  shows "committed m' = committed m" and "currentTransaction m' \<noteq> None"
  using assms(1)[unfolded transactional_def, rule_format, OF assms(3)] assms(2) by auto

lemma transactional_ret [transactionals]: "transactional (ret x)"
  by (simp add: transactional_def ret_def)

lemma transactional_throw [transactionals]: "transactional (throw e)"
  by (simp add: transactional_def throw_def)

lemma transactional_andThen [transactionals]:
  assumes "transactional A" "\<And>x. transactional (f x)"
  shows "transactional (andThen A f)"
  unfolding transactional_def
proof (intro allI impI)
  fix m :: manager
  assume m: "currentTransaction m \<noteq> None"
  obtain r m1 where A: "A m = (r, m1)" by fastforce
  note a = transactionalD [OF assms(1) A m]
  show "committed (snd (andThen A f m)) = committed m \<and>
      currentTransaction (snd (andThen A f m)) \<noteq> None"
    using A a assms(2) by (cases r) (auto simp: andThen_def transactional_def)
qed

lemma transactional_try_catch [transactionals]:
  assumes "transactional A" "\<And>e. transactional (h e)"
  shows "transactional (try_catch A h)"
  unfolding transactional_def
proof (intro allI impI)
  fix m :: manager
  assume m: "currentTransaction m \<noteq> None"
  obtain r m1 where A: "A m = (r, m1)" by fastforce
  note a = transactionalD [OF assms(1) A m]
  show "committed (snd (try_catch A h m)) = committed m \<and>
      currentTransaction (snd (try_catch A h m)) \<noteq> None"
    using A a assms(2) by (cases r) (auto simp: try_catch_def transactional_def)
qed

lemma transactional_query [transactionals]: "transactional (query s)"
  by (auto simp: transactional_def query_def set_context_def split: sum.splits option.splits)

lemma transactional_execute [transactionals]: "transactional (execute s)"
  by (simp add: execute_def transactional_query)

lemma transactional_read [transactionals]: "transactional (read s)"
  by (simp add: read_def transactional_query)

lemma transactional_pool_read [transactionals]: "transactional (pool_read s)"
  by (simp add: transactional_def pool_read_def)

lemma transactional_forEach [transactionals]:
  "(\<And>x. transactional (f x)) \<Longrightarrow> transactional (forEach xs f)"
  by (induction xs) (simp_all add: transactionals)

lemma transactional_if [transactionals]:
  "transactional A \<Longrightarrow> transactional B \<Longrightarrow> transactional (if c then A else B)"
  by simp

lemma transactional_case_option [transactionals]:
  "transactional A \<Longrightarrow> (\<And>x. transactional (f x)) \<Longrightarrow> transactional (case_option A f v)"
  by (cases v) simp_all

lemma begin_transaction_simps [simp]:
  "getDbContext (begin_transaction m) = committed m"
  "usable (begin_transaction m)"
  "currentTransaction (begin_transaction m) \<noteq> None"
  "committed (begin_transaction m) = committed m"
  "stake_transactions (begin_transaction m) = stake_transactions m"
  "dmd_names (begin_transaction m) = dmd_names m"
  "dmd_name_events (begin_transaction m) = dmd_name_events m"
  by (simp_all add: begin_transaction_def getDbContext_def usable_def)

lemma end_transaction_simps [simp]:
  "currentTransaction (end_transaction b m r) = currentTransaction b"
  "tx_aborted (end_transaction b m r) = tx_aborted b"
  "stake_transactions (end_transaction b m r) = stake_transactions m"
  "dmd_names (end_transaction b m r) = dmd_names m"
  "dmd_name_events (end_transaction b m r) = dmd_name_events m"
  "committed (end_transaction b m r) =
     (if r \<and> usable m then getDbContext m else committed m)"
  by (simp_all add: end_transaction_def Let_def)

text \<open>Atomicity: a rejected operation, or an aborted transaction, changes no committed table.\<close>

lemma executeInTransaction_rollback:
  assumes "transactional A" "executeInTransaction b A m = (Inl e, m')"
  shows "committed m' = committed m" and "currentTransaction m' = currentTransaction m"
proof -
  obtain r m1 where A: "A (begin_transaction m) = (r, m1)" by fastforce
  have "committed m1 = committed m"
    using transactionalD(1) [OF assms(1) A] by simp
  then show "committed m' = committed m" "currentTransaction m' = currentTransaction m"
    using assms(2) A by (auto simp: executeInTransaction_def split: sum.splits)
qed

lemma executeInTransaction_commit:
  assumes "transactional A" "executeInTransaction b A m = (Inr x, m')"
  obtains m1 where "A (begin_transaction m) = (Inr x, m1)"
    and "committed m' = (if usable m1 then getDbContext m1 else committed m)"
    and "currentTransaction m' = currentTransaction m"
proof -
  obtain r m1 where A: "A (begin_transaction m) = (r, m1)" by fastforce
  have "committed m1 = committed m"
    using transactionalD(1) [OF assms(1) A] by simp
  then show ?thesis
    using assms(2) A that [of m1] by (auto simp: executeInTransaction_def split: sum.splits)
qed

section \<open>What an action leaves alone\<close>

text \<open>\<open>f\<close> reads nothing of the transactional tables and of the connection's own fields.\<close>

definition outside_view :: "(manager \<Rightarrow> 'b) \<Rightarrow> bool" where
  "outside_view f \<longleftrightarrow> (\<forall>m d b c rs n. f (set_context d m) = f m \<and> f (m\<lparr>tx_aborted := b\<rparr>) = f m \<and>
     f (m\<lparr>clock := c, reconnects := rs, connectionRetries := n\<rparr>) = f m)"

definition untouched :: "('s \<Rightarrow> 'b) \<Rightarrow> ('s, 'a) prog \<Rightarrow> bool" where
  "untouched f A \<longleftrightarrow> (\<forall>m. f (snd (A m)) = f m)"

named_theorems untouched_rules \<open>actions that leave a view alone\<close>

lemma untouchedD: "untouched f A \<Longrightarrow> A m = (r, m') \<Longrightarrow> f m' = f m"
  unfolding untouched_def by (metis snd_conv)

lemma untouched_ret [untouched_rules]: "untouched f (ret x)"
  by (simp add: untouched_def ret_def)

lemma untouched_throw [untouched_rules]: "untouched f (throw e)"
  by (simp add: untouched_def throw_def)

lemma untouched_andThen [untouched_rules]:
  "untouched f A \<Longrightarrow> (\<And>x. untouched f (B x)) \<Longrightarrow> untouched f (andThen A B)"
  by (auto simp: untouched_def andThen_def split: prod.splits sum.splits) (metis snd_conv)+

lemma untouched_try_catch [untouched_rules]:
  "untouched f A \<Longrightarrow> (\<And>e. untouched f (h e)) \<Longrightarrow> untouched f (try_catch A h)"
  by (auto simp: untouched_def try_catch_def split: prod.splits sum.splits) (metis snd_conv)+

lemma untouched_query [untouched_rules]: "outside_view f \<Longrightarrow> untouched f (query s)"
  by (auto simp: untouched_def outside_view_def query_def split: sum.splits)

lemma untouched_execute [untouched_rules]: "outside_view f \<Longrightarrow> untouched f (execute s)"
  by (simp add: execute_def untouched_query)

lemma untouched_read [untouched_rules]: "outside_view f \<Longrightarrow> untouched f (read s)"
  by (simp add: read_def untouched_query)

lemma untouched_pool_read [untouched_rules]: "untouched f (pool_read s)"
  by (simp add: untouched_def pool_read_def)

lemma untouched_forEach [untouched_rules]:
  "(\<And>x. untouched f (A x)) \<Longrightarrow> untouched f (forEach xs A)"
  by (induction xs) (simp_all add: untouched_rules)

lemma untouched_if [untouched_rules]:
  "untouched f A \<Longrightarrow> untouched f B \<Longrightarrow> untouched f (if c then A else B)"
  by simp

lemma untouched_case_option [untouched_rules]:
  "untouched f A \<Longrightarrow> (\<And>x. untouched f (B x)) \<Longrightarrow> untouched f (case_option A B v)"
  by (cases v) simp_all

section \<open>Invariants of programs\<close>

text \<open>A program keeps a property of its state, however it ends.\<close>

definition keeps :: "('s \<Rightarrow> bool) \<Rightarrow> ('s, 'a) prog \<Rightarrow> bool" where
  "keeps I A \<longleftrightarrow> (\<forall>w. I w \<longrightarrow> I (snd (A w)))"

named_theorems keeps_rules \<open>programs that keep a property\<close>

lemma keepsD: "keeps I A \<Longrightarrow> I w \<Longrightarrow> A w = (r, w') \<Longrightarrow> I w'"
  unfolding keeps_def by (metis snd_conv)

lemma keeps_ret [keeps_rules]: "keeps I (ret x)"
  by (simp add: keeps_def ret_def)

lemma keeps_andThen [keeps_rules]: "keeps I A \<Longrightarrow> (\<And>x. keeps I (f x)) \<Longrightarrow> keeps I (andThen A f)"
  by (fastforce simp: keeps_def andThen_def split: prod.splits sum.splits)

lemma keeps_try_catch [keeps_rules]:
  "keeps I A \<Longrightarrow> (\<And>e. keeps I (h e)) \<Longrightarrow> keeps I (try_catch A h)"
  by (fastforce simp: keeps_def try_catch_def split: prod.splits sum.splits)

lemma keeps_forEach [keeps_rules]: "(\<And>x. x \<in> set xs \<Longrightarrow> keeps I (f x)) \<Longrightarrow> keeps I (forEach xs f)"
  by (induction xs) (auto intro: keeps_rules)

lemma keeps_collect [keeps_rules]: "(\<And>x. x \<in> set xs \<Longrightarrow> keeps I (f x)) \<Longrightarrow> keeps I (collect xs f)"
  by (induction xs) (auto intro!: keeps_rules)

lemma keeps_if [keeps_rules]: "keeps I A \<Longrightarrow> keeps I B \<Longrightarrow> keeps I (if c then A else B)"
  by simp

end
