(* ===== verification/Retry.thy ===== *)
theory Retry imports Manager begin

text \<open>
  Retrying a database operation after a lost connection: \<open>handleConnectionError\<close>,
  \<open>reconnect\<close> and \<open>executeWithRetry\<close> of src/src/db/database-persistent.ts. Whether an error
  is a connection error is decided by its message, as in the code. The operation is an
  arbitrary action; the loop ends because each round counts an attempt.
\<close>

section \<open>Error messages\<close>

fun errorMessage :: "error \<Rightarrow> string" where
  "errorMessage (UniqueViolation t) = ''duplicate key value violates unique constraint''"
| "errorMessage (ForeignKeyViolation t) = ''insert or update violates foreign key constraint''"
| "errorMessage (MultipleRows t) = ''expected at most one row''"
| "errorMessage (UndefinedColumn c) = ''column does not exist''"
| "errorMessage TransactionAborted = ''current transaction is aborted''"
| "errorMessage (ConnectionLost msg) = msg"
| "errorMessage (CallFailed msg) = msg"
| "errorMessage (Thrown msg) = msg"

text \<open>\<open>String.prototype.includes\<close>\<close>

fun includesString :: "string \<Rightarrow> string \<Rightarrow> bool" where
  "includesString [] t = (t = [])"
| "includesString (c # s) t = (take (length t) (c # s) = t \<or> includesString s t)"

definition isConnectionError :: "error \<Rightarrow> bool" where
  "isConnectionError error =
     (let m = errorMessage error in
        includesString m ''Connection terminated unexpectedly'' \<or>
        includesString m ''password authentication failed'' \<or>
        includesString m ''connect ECONNREFUSED'' \<or>
        includesString m ''Client has encountered a connection error'')"

lemma sql_not_connection_error [simp]:
  "\<not> isConnectionError (UniqueViolation t)" "\<not> isConnectionError (ForeignKeyViolation t)"
  "\<not> isConnectionError (MultipleRows t)" "\<not> isConnectionError (UndefinedColumn t)"
  "\<not> isConnectionError TransactionAborted"
  by (simp_all add: isConnectionError_def)

section \<open>Reconnecting\<close>

definition maxConnectionRetries :: nat where "maxConnectionRetries = 10"

definition sleep :: "int \<Rightarrow> unit action" where
  "sleep ms m = (Inr (), m\<lparr>clock := clock m + ms\<rparr>)"

text \<open>Dispose the pool (its errors are ignored), wait, create a pool and test it.\<close>

definition reconnect :: "unit action" where
  "reconnect = andThen (sleep 500) (\<lambda>_ m.
     case reconnects m of
       True # rest \<Rightarrow> (Inr (), m\<lparr>reconnects := rest\<rparr>)
     | _ \<Rightarrow> (Inl (ConnectionLost ''connect ECONNREFUSED''), m\<lparr>reconnects := tl (reconnects m)\<rparr>))"

definition backoffMs :: "nat \<Rightarrow> int" where
  "backoffMs retries = min (1000 * 2 ^ retries) 30000"

definition handleConnectionError :: "error \<Rightarrow> bool action" where
  "handleConnectionError error m =
     (if \<not> isConnectionError error then throw error m
      else if connectionRetries m \<ge> maxConnectionRetries
      then throw (Thrown ''Database connection failed'') m
      else andThen (sleep (backoffMs (connectionRetries m)))
        (\<lambda>_. try_catch
          (andThen reconnect (\<lambda>_ m2. (Inr True, m2\<lparr>connectionRetries := 0\<rparr>)))
          (\<lambda>_. ret False))
        (m\<lparr>connectionRetries := connectionRetries m + 1\<rparr>))"

definition maxAttempts :: nat where "maxAttempts = 3"

function executeWithRetry_from :: "nat \<Rightarrow> 'a action \<Rightarrow> 'a action" where
  "executeWithRetry_from attempts operation m =
     (if attempts < maxAttempts then
        (case operation m of
           (Inr x, m1) \<Rightarrow> (Inr x, m1)
         | (Inl error, m1) \<Rightarrow>
             if attempts + 1 \<ge> maxAttempts then (Inl error, m1)
             else (case try_catch (handleConnectionError error) (\<lambda>_. ret False) m1 of
                 (Inr True, m2) \<Rightarrow> executeWithRetry_from (attempts + 1) operation m2
               | (_, m2) \<Rightarrow> (Inl error, m2)))
      else (Inl (Thrown ''Operation failed''), m))"
  by pat_completeness auto
termination
  by (relation "measure (\<lambda>(attempts, _). maxAttempts - attempts)") auto

declare executeWithRetry_from.simps [simp del]

definition executeWithRetry :: "'a action \<Rightarrow> 'a action" where
  "executeWithRetry operation = executeWithRetry_from 0 operation"

section \<open>What a retry does\<close>

lemma handle_other_error:
  "\<not> isConnectionError e \<Longrightarrow>
   try_catch (handleConnectionError e) (\<lambda>_. ret False) m = (Inr False, m)"
  by (simp add: try_catch_def handleConnectionError_def throw_def ret_def)

lemma handle_connection_error:
  assumes "isConnectionError e" "connectionRetries m < maxConnectionRetries"
  shows "try_catch (handleConnectionError e) (\<lambda>_. ret False) m =
    (Inr (case reconnects m of True # _ \<Rightarrow> True | _ \<Rightarrow> False),
     m\<lparr>clock := clock m + backoffMs (connectionRetries m) + 500,
       reconnects := tl (reconnects m),
       connectionRetries :=
         (case reconnects m of True # _ \<Rightarrow> 0 | _ \<Rightarrow> connectionRetries m + 1)\<rparr>)"
  using assms
  by (auto simp: try_catch_def handleConnectionError_def throw_def ret_def andThen_def sleep_def
      reconnect_def split: list.splits bool.splits)

lemma handle_exhausted:
  assumes "connectionRetries m \<ge> maxConnectionRetries"
  shows "try_catch (handleConnectionError e) (\<lambda>_. ret False) m = (Inr False, m)"
  using assms by (simp add: try_catch_def handleConnectionError_def throw_def ret_def)

text \<open>The decision never rejects and touches only the connection's own fields.\<close>

lemma handle_frame:
  assumes "try_catch (handleConnectionError e) (\<lambda>_. ret False) m = (r, m')"
  shows "(\<exists>b. r = Inr b) \<and>
    m' = m\<lparr>clock := clock m', reconnects := reconnects m', connectionRetries := connectionRetries m'\<rparr>"
proof (cases "isConnectionError e \<and> connectionRetries m < maxConnectionRetries")
  case True
  then show ?thesis using assms handle_connection_error [of e m] by auto
next
  case False
  then have "r = Inr False \<and> m' = m"
    using assms handle_other_error [of e m] handle_exhausted [of m e] by (auto simp: not_less)
  then show ?thesis by (auto intro: exI [of _ False])
qed

lemma executeWithRetry_success: "operation m = (Inr x, m') \<Longrightarrow> executeWithRetry operation m = (Inr x, m')"
  by (simp add: executeWithRetry_def executeWithRetry_from.simps [of 0] maxAttempts_def)

lemma executeWithRetry_other_error:
  "operation m = (Inl e, m') \<Longrightarrow> \<not> isConnectionError e \<Longrightarrow>
   executeWithRetry operation m = (Inl e, m')"
  by (simp add: executeWithRetry_def executeWithRetry_from.simps [of 0] maxAttempts_def
      handle_other_error)

text \<open>An operation that fails only with SQL errors runs exactly once.\<close>

lemma executeWithRetry_sql:
  assumes "\<And>e m'. operation m = (Inl e, m') \<Longrightarrow> \<not> isConnectionError e"
  shows "executeWithRetry operation m = operation m"
proof -
  obtain r m' where r: "operation m = (r, m')" by fastforce
  then show ?thesis
    using assms executeWithRetry_success [of operation m] executeWithRetry_other_error [of operation m]
    by (cases r) auto
qed

lemma transactional_handle [transactionals]:
  "transactional (try_catch (handleConnectionError e) (\<lambda>_. ret False))"
  unfolding transactional_def
proof (intro allI impI)
  fix m :: manager
  assume "currentTransaction m \<noteq> None"
  moreover obtain r m' where r: "try_catch (handleConnectionError e) (\<lambda>_. ret False) m = (r, m')"
    by fastforce
  moreover from handle_frame [OF r] obtain c rs n
    where "m' = m\<lparr>clock := c, reconnects := rs, connectionRetries := n\<rparr>" by blast
  ultimately show "committed (snd (try_catch (handleConnectionError e) (\<lambda>_. ret False) m)) = committed m \<and>
      currentTransaction (snd (try_catch (handleConnectionError e) (\<lambda>_. ret False) m)) \<noteq> None"
    by simp
qed

lemma transactional_retry_from: "transactional A \<Longrightarrow> transactional (executeWithRetry_from n A)"
proof (induction "maxAttempts - n" arbitrary: n)
  case 0
  then show ?case
    by (auto simp: transactional_def executeWithRetry_from.simps [of n] throw_def)
next
  case (Suc left)
  then have more: "transactional (executeWithRetry_from (n + 1) A)" by simp
  show ?case unfolding transactional_def
  proof (intro allI impI)
    fix m :: manager
    assume m: "currentTransaction m \<noteq> None"
    obtain r m1 where A: "A m = (r, m1)" by fastforce
    note a = transactionalD [OF Suc.prems A m]
    obtain r2 m2 where h: "try_catch (handleConnectionError (projl r)) (\<lambda>_. ret False) m1 = (r2, m2)"
      by fastforce
    note b = transactionalD [OF transactional_handle h a(2)]
    show "committed (snd (executeWithRetry_from n A m)) = committed m \<and>
        currentTransaction (snd (executeWithRetry_from n A m)) \<noteq> None"
      using A a m h b more
      by (auto simp: executeWithRetry_from.simps [of n] throw_def transactional_def
          split: sum.splits bool.splits)
  qed
qed

lemma transactional_retry [transactionals]: "transactional A \<Longrightarrow> transactional (executeWithRetry A)"
  by (simp add: executeWithRetry_def transactional_retry_from)

text \<open>
  Three runs at most: whatever a run adds to a quantity of the tables, a retried operation
  adds at most three times. The recursion is unrolled twice.
\<close>

lemma retry_from_measure:
  fixes c :: "manager \<Rightarrow> int"
  assumes run: "\<And>m. c (snd (A m)) \<le> c m + k" and "0 \<le> k"
    and handle: "\<And>m e. c (snd (try_catch (handleConnectionError e) (\<lambda>_. ret False) m)) \<le> c m + h"
    and "0 \<le> h" and "n < maxAttempts"
  shows "c (snd (executeWithRetry_from n A m)) \<le>
         c m + int (maxAttempts - n) * k + int (maxAttempts - n - 1) * h"
  using assms(5)
proof (induction "maxAttempts - n" arbitrary: n m)
  case (Suc left)
  obtain r m1 where A: "A m = (r, m1)" by fastforce
  with run [of m] have r1: "c m1 \<le> c m + k" by simp
  obtain r2 m2 where hd: "try_catch (handleConnectionError (projl r)) (\<lambda>_. ret False) m1 = (r2, m2)"
    by fastforce
  with handle [of "projl r" m1] r1 have r2: "c m2 \<le> c m + k + h" by simp
  have d: "int (maxAttempts - n) = int left + 1" "int (maxAttempts - n - 1) = int left"
    using Suc.hyps(2) by linarith+
  have pos: "0 \<le> int left * k" "0 \<le> int left * h" using assms(2,4) by simp_all
  show ?case
  proof (cases "left = 0")
    case True
    then have "n + 1 \<ge> maxAttempts" using Suc.hyps(2) by linarith
    then show ?thesis using A r1 True Suc.prems assms(2,4) unfolding d
      by (auto simp: executeWithRetry_from.simps [of n] algebra_simps split: sum.splits)
  next
    case False
    then have n: "n + 1 < maxAttempts" "left = maxAttempts - (n + 1)" using Suc.hyps(2) by linarith+
    have e: "int (left - 1) = int left - 1" using False by linarith
    have k: "1 * h \<le> int left * h" using False assms(4) by (intro mult_right_mono) auto
    have "c (snd (executeWithRetry_from (n + 1) A m2)) \<le> c m2 + int left * k + (int left - 1) * h"
      using Suc.hyps(1) [OF n(2) n(1), of m2] unfolding n(2) [symmetric] e .
    then show ?thesis using A r1 r2 pos n Suc.prems assms(2,4) hd k unfolding d
      by (auto simp: executeWithRetry_from.simps [of n] algebra_simps split: sum.splits bool.splits)
  qed
qed (use assms in simp)

lemma untouched_handle:
  assumes "outside_view f"
  shows "untouched f (try_catch (handleConnectionError e) (\<lambda>_. ret False))"
  unfolding untouched_def
proof
  fix m
  obtain r m' where r: "try_catch (handleConnectionError e) (\<lambda>_. ret False) m = (r, m')" by fastforce
  from handle_frame [OF r] obtain c rs n
    where "m' = m\<lparr>clock := c, reconnects := rs, connectionRetries := n\<rparr>" by blast
  then show "f (snd (try_catch (handleConnectionError e) (\<lambda>_. ret False) m)) = f m"
    using r assms by (simp add: outside_view_def)
qed

lemma untouched_retry_from:
  "outside_view f \<Longrightarrow> untouched f A \<Longrightarrow> untouched f (executeWithRetry_from n A)"
proof (induction "maxAttempts - n" arbitrary: n)
  case 0
  then show ?case by (auto simp: untouched_def executeWithRetry_from.simps [of n] throw_def)
next
  case (Suc left)
  then have more: "untouched f (executeWithRetry_from (n + 1) A)" by simp
  show ?case unfolding untouched_def
  proof
    fix m
    obtain r m1 where A: "A m = (r, m1)" by fastforce
    obtain r2 m2 where h: "try_catch (handleConnectionError (projl r)) (\<lambda>_. ret False) m1 = (r2, m2)"
      by fastforce
    have "f m1 = f m" "f m2 = f m1"
      using untouchedD [OF Suc.prems(2) A] untouchedD [OF untouched_handle [OF Suc.prems(1)] h] by simp_all
    then show "f (snd (executeWithRetry_from n A m)) = f m"
      using A h more Suc.prems
      by (auto simp: executeWithRetry_from.simps [of n] throw_def untouched_def
          split: sum.splits bool.splits)
  qed
qed

lemma untouched_retry [untouched_rules]:
  "outside_view f \<Longrightarrow> untouched f A \<Longrightarrow> untouched f (executeWithRetry A)"
  by (simp add: executeWithRetry_def untouched_retry_from)

end
