(* ===== verification/DbManager.thy ===== *)
theory DbManager imports Retry "HOL-Library.Product_Lexorder" begin

text \<open>
  The methods of the class DbManager in src/src/db/database-persistent.ts that read and write
  the tables, one definition per method, in the order of the source. An address argument is
  the string of the code; the columns hold its buffer. Rows that a method returns and no
  caller reads are not returned here. A method that the code wraps in \<open>executeWithRetry\<close> is
  wrapped here too.
\<close>

section \<open>Bonus scores\<close>

definition insert_bonus_score_history :: "BonusScoreHistory \<Rightarrow> unit action" where
  "insert_bonus_score_history r = execute (\<lambda>d.
     await (insert_row ''bonus_score_history'' bonus_score_history_key (bonus_score_history_fk d) r
         (bonus_score_history d))
       (\<lambda>rows. Inr (d\<lparr>bonus_score_history := rows\<rparr>)))"

definition writeInitialBonusScore :: "string \<Rightarrow> int \<Rightarrow> int \<Rightarrow> unit action" where
  "writeInitialBonusScore pool blockNumber currentScore =
     insert_bonus_score_history
       \<lparr>bs_from_block = blockNumber, bs_to_block = None, bs_node = addressToBuffer pool,
        bs_score = currentScore\<rparr>"

definition update_node_bonus_score :: "string \<Rightarrow> int \<Rightarrow> unit action" where
  "update_node_bonus_score pool bonusScore = execute (\<lambda>d.
     await (update_rows ''node'' pool_address (node_fk d)
         (\<lambda>r. pool_address r = addressToBuffer pool) (\<lambda>r. r\<lparr>node_bonus_score := bonusScore\<rparr>) (node d))
       (\<lambda>rows. Inr (d\<lparr>node := rows\<rparr>)))"

definition updateBonusScore :: "string \<Rightarrow> int \<Rightarrow> int \<Rightarrow> unit action" where
  "updateBonusScore pool bonusScore changeBlock =
     andThen (execute (\<lambda>d.
       await (update_rows ''bonus_score_history'' bonus_score_history_key (bonus_score_history_fk d)
           (\<lambda>r. bs_node r = addressToBuffer pool \<and> bs_to_block r = None)
           (\<lambda>r. r\<lparr>bs_to_block := Some (changeBlock - 1)\<rparr>) (bonus_score_history d))
         (\<lambda>rows. Inr (d\<lparr>bonus_score_history := rows\<rparr>))))
     (\<lambda>_. andThen (insert_bonus_score_history
       \<lparr>bs_from_block = changeBlock, bs_to_block = None, bs_node = addressToBuffer pool,
        bs_score = bonusScore\<rparr>)
     (\<lambda>_. update_node_bonus_score pool bonusScore))"

section \<open>Blocks and epochs\<close>

definition insertHeader :: "Headers \<Rightarrow> unit action" where
  "insertHeader r = executeWithRetry (execute (\<lambda>d.
     await (insert_or_ignore ''headers'' block_number (\<lambda>_. True) r (headers d))
       (\<lambda>rows. Inr (d\<lparr>headers := rows\<rparr>))))"

text \<open>\<open>SELECT MAX(id)\<close> always gives one row, with NULL for an empty table; pg-typed's
  \<open>findOne\<close> of a NULL id matches nothing.\<close>

definition getLastProcessedEpoch :: "PosdaoEpoch option action" where
  "getLastProcessedEpoch = executeWithRetry (pool_read (\<lambda>d.
     case max_of (map epoch_id (posdao_epoch d)) of
       None \<Rightarrow> Inr None
     | Some i \<Rightarrow> find_one ''posdao_epoch'' (\<lambda>r. epoch_id r = i) (posdao_epoch d)))"

definition getLastProcessedBlock :: "Headers option action" where
  "getLastProcessedBlock = executeWithRetry (pool_read (\<lambda>d.
     case max_of (map block_number (headers d)) of
       None \<Rightarrow> Inr None
     | Some b \<Rightarrow> find_one ''headers'' (\<lambda>r. block_number r = b) (headers d)))"

definition insertStakingEpoch :: "int \<Rightarrow> int \<Rightarrow> unit action" where
  "insertStakingEpoch epochNumber blockStartNumber = executeWithRetry (execute (\<lambda>d.
     if blockStartNumber \<in> set (map block_start (posdao_epoch d))
     then Inl (UniqueViolation ''posdao_epoch'')
     else await (insert_row ''posdao_epoch'' epoch_id (epoch_fk d)
         \<lparr>epoch_id = epochNumber, block_start = blockStartNumber, block_end = None\<rparr> (posdao_epoch d))
       (\<lambda>rows. Inr (d\<lparr>posdao_epoch := rows\<rparr>))))"

definition updateValidatorReward ::
  "string \<Rightarrow> int \<Rightarrow> BigNumber \<Rightarrow> BigNumber \<Rightarrow> BigNumber \<Rightarrow> BigNumber \<Rightarrow> BigNumber \<Rightarrow> BigNumber \<Rightarrow>
   BigNumber \<Rightarrow> unit action" where
  "updateValidatorReward rewardedValidator epoch reward apy totalPoolReward validatorFixed
     nodeOperatorReward delegatorsTotal totalStake = executeWithRetry (execute (\<lambda>d.
     await (update_rows ''posdao_epoch_node'' epoch_node_key (epoch_node_fk d)
         (\<lambda>r. id_posdao_epoch r = epoch \<and> id_node r = addressToBuffer rewardedValidator)
         (\<lambda>r. r\<lparr>owner_reward := Some reward, epoch_apy := apy, total_pool_reward := totalPoolReward,
                validator_fixed_reward := validatorFixed, node_operator_reward := nodeOperatorReward,
                delegators_total_reward := delegatorsTotal, total_staked_snapshot := totalStake,
                reward_computed := True\<rparr>)
         (posdao_epoch_node d))
       (\<lambda>rows. Inr (d\<lparr>posdao_epoch_node := rows\<rparr>))))"

definition endStakingEpoch :: "int \<Rightarrow> int \<Rightarrow> unit action" where
  "endStakingEpoch epochToEnd epochsLastBlockNumber = executeWithRetry (execute (\<lambda>d.
     if \<not> distinct (present (map block_end (set_where (\<lambda>r. epoch_id r = epochToEnd)
          (\<lambda>r. r\<lparr>block_end := Some epochsLastBlockNumber\<rparr>) (posdao_epoch d))))
     then Inl (UniqueViolation ''posdao_epoch'')
     else await (update_rows ''posdao_epoch'' epoch_id (epoch_fk d) (\<lambda>r. epoch_id r = epochToEnd)
         (\<lambda>r. r\<lparr>block_end := Some epochsLastBlockNumber\<rparr>) (posdao_epoch d))
       (\<lambda>rows. Inr (d\<lparr>posdao_epoch := rows\<rparr>))))"

section \<open>Nodes\<close>

definition insertNode :: "string \<Rightarrow> string \<Rightarrow> string \<Rightarrow> int \<Rightarrow> int \<Rightarrow> unit action" where
  "insertNode poolAddress miningAddress miningPublicKey addedBlock bonusScore =
     executeWithRetry (execute (\<lambda>d.
       await (insert_row ''node'' pool_address (node_fk d)
           \<lparr>pool_address = addressToBuffer poolAddress, mining_address = addressToBuffer miningAddress,
            mining_public_key = addressToBuffer miningPublicKey, added_block = addedBlock,
            node_bonus_score = bonusScore\<rparr> (node d))
         (\<lambda>rows. Inr (d\<lparr>node := rows\<rparr>))))"

definition insertEpochNode :: "int \<Rightarrow> string \<Rightarrow> unit action" where
  "insertEpochNode posdaoEpoch validator = executeWithRetry (execute (\<lambda>d.
     await (insert_row ''posdao_epoch_node'' epoch_node_key (epoch_node_fk d)
         \<lparr>id_node = addressToBuffer validator, id_posdao_epoch = posdaoEpoch, owner_reward = None,
          is_claimed = None, epoch_apy = 0, total_pool_reward = 0, validator_fixed_reward = 0,
          node_operator_reward = 0, delegators_total_reward = 0, total_staked_snapshot = 0,
          reward_computed = False\<rparr> (posdao_epoch_node d))
       (\<lambda>rows. Inr (d\<lparr>posdao_epoch_node := rows\<rparr>))))"

definition getNodes :: "Node list action" where
  "getNodes = executeWithRetry (pool_read (\<lambda>d. Inr (sort_key pool_address (node d))))"

definition updateValidatorBonusScore :: "string \<Rightarrow> int \<Rightarrow> unit action" where
  "updateValidatorBonusScore poolAddress newScore = update_node_bonus_score poolAddress newScore"

definition insertAvailabilityEvent :: "AvailableEvent \<Rightarrow> unit action" where
  "insertAvailabilityEvent params = execute (\<lambda>d.
     await (insert_row ''available_event'' available_event_key (available_event_fk d) params
         (available_event d))
       (\<lambda>rows. Inr (d\<lparr>available_event := rows\<rparr>)))"

section \<open>Withdrawals, stakes and delegators\<close>

definition insertOrderWithdrawalEvent ::
  "int \<Rightarrow> buffer \<Rightarrow> buffer \<Rightarrow> int \<Rightarrow> BigNumber \<Rightarrow> unit action" where
  "insertOrderWithdrawalEvent blockNumber pool staker stakingEpoch amount = execute (\<lambda>d.
     await (insert_row ''ordered_withdrawal'' ow_id (ordered_withdrawal_fk d)
         \<lparr>ow_id = ordered_withdrawal_id_seq d, ow_amount = amount, ow_block_number = blockNumber,
          ow_staking_epoch = stakingEpoch, from_pool_stakingAddress = pool, ow_staker = staker,
          claimed_on_block = None\<rparr> (ordered_withdrawal d))
       (\<lambda>rows. Inr (d\<lparr>ordered_withdrawal := rows,
                       ordered_withdrawal_id_seq := ordered_withdrawal_id_seq d + 1\<rparr>)))"

definition getOrderWithdrawalEvent ::
  "(OrderedWithdrawal \<Rightarrow> bool) \<Rightarrow> OrderedWithdrawal option action" where
  "getOrderWithdrawalEvent cond = read (\<lambda>d.
     find_one ''ordered_withdrawal'' cond (ordered_withdrawal d))"

definition updateOrderWithdrawalEvent ::
  "(OrderedWithdrawal \<Rightarrow> bool) \<Rightarrow> (OrderedWithdrawal \<Rightarrow> OrderedWithdrawal) \<Rightarrow> unit action" where
  "updateOrderWithdrawalEvent cond update = execute (\<lambda>d.
     await (update_rows ''ordered_withdrawal'' ow_id (ordered_withdrawal_fk d) cond update
         (ordered_withdrawal d))
       (\<lambda>rows. Inr (d\<lparr>ordered_withdrawal := rows\<rparr>)))"

definition insertStakeHistoryRecord :: "StakeHistory \<Rightarrow> unit action" where
  "insertStakeHistoryRecord params = execute (\<lambda>d.
     await (insert_row ''stake_history'' stake_history_key (stake_history_fk d) params
         (stake_history d))
       (\<lambda>rows. Inr (d\<lparr>stake_history := rows\<rparr>)))"

definition insertStakeDelegator :: "string \<Rightarrow> string \<Rightarrow> BigNumber \<Rightarrow> unit action" where
  "insertStakeDelegator poolAddress delegator value = execute (\<lambda>d.
     await (insert_row ''stake_delegators'' stake_delegators_key (stake_delegators_fk d)
         \<lparr>sd_pool_address = addressToBuffer poolAddress, sd_delegator = addressToBuffer delegator,
          total_delegated = value\<rparr> (stake_delegators d))
       (\<lambda>rows. Inr (d\<lparr>stake_delegators := rows\<rparr>)))"

definition ensureDelegateStaker :: "string \<Rightarrow> unit action" where
  "ensureDelegateStaker delegator =
     andThen (read (\<lambda>d. find_one ''delegate_staker'' (\<lambda>a. a = addressToBuffer delegator)
       (delegate_staker d)))
     (\<lambda>found. case found of
        Some _ \<Rightarrow> ret ()
      | None \<Rightarrow> execute (\<lambda>d.
          await (insert_row ''delegate_staker'' id (\<lambda>_. True) (addressToBuffer delegator)
              (delegate_staker d))
            (\<lambda>rows. Inr (d\<lparr>delegate_staker := rows\<rparr>))))"

definition updateStakeDelegator :: "string \<Rightarrow> string \<Rightarrow> BigNumber \<Rightarrow> unit action" where
  "updateStakeDelegator poolAddress delegator value = execute (\<lambda>d.
     await (update_rows ''stake_delegators'' stake_delegators_key (stake_delegators_fk d)
         (\<lambda>r. sd_pool_address r = addressToBuffer poolAddress \<and>
              sd_delegator r = addressToBuffer delegator)
         (\<lambda>r. r\<lparr>total_delegated := value\<rparr>) (stake_delegators d))
       (\<lambda>rows. Inr (d\<lparr>stake_delegators := rows\<rparr>)))"

definition getStakeDelegator :: "string \<Rightarrow> string \<Rightarrow> StakeDelegators option action" where
  "getStakeDelegator poolAddress delegator = read (\<lambda>d.
     find_one ''stake_delegators''
       (\<lambda>r. sd_pool_address r = addressToBuffer poolAddress \<and>
            sd_delegator r = addressToBuffer delegator)
       (stake_delegators d))"

definition last_stake_rows :: "buffer \<Rightarrow> StakeHistory list \<Rightarrow> StakeHistory list" where
  "last_stake_rows pool rows =
     (case max_of (map to_block (filter (\<lambda>r. from_block r = to_block r \<and> sh_node r = pool) rows)) of
        None \<Rightarrow> []
      | Some m \<Rightarrow> filter (\<lambda>r. sh_node r = pool \<and> to_block r = m) rows)"

definition getLastStakeHistoryRecord :: "string \<Rightarrow> StakeHistory option action" where
  "getLastStakeHistoryRecord poolAddress =
     andThen (read (\<lambda>d. Inr (last_stake_rows (addressToBuffer poolAddress) (stake_history d))))
     (\<lambda>result. case result of
        [resultLine] \<Rightarrow> read (\<lambda>d.
          find_one ''stake_history''
            (\<lambda>r. from_block r = from_block resultLine \<and> to_block r = to_block resultLine \<and>
                 stake_amount r = stake_amount resultLine \<and>
                 sh_node r = addressToBuffer poolAddress)
            (stake_history d))
      | _ \<Rightarrow> ret None)"

definition updateStakeHistory :: "StakeHistory \<Rightarrow> int \<Rightarrow> unit action" where
  "updateStakeHistory record toBlock = execute (\<lambda>d.
     await (update_rows ''stake_history'' stake_history_key (stake_history_fk d)
         (\<lambda>r. from_block r = from_block record \<and> to_block r = to_block record \<and>
              sh_node r = sh_node record)
         (\<lambda>r. r\<lparr>to_block := toBlock\<rparr>) (stake_history d))
       (\<lambda>rows. Inr (d\<lparr>stake_history := rows\<rparr>)))"

section \<open>Delegator rewards\<close>

record DelegateRewardData =
  rd_delegatorAddress :: string
  rd_poolAddress :: string
  rd_epoch :: int
  rd_isClaimed :: bool
  rd_amount :: BigNumber

definition getDelegatorRewardRecord :: "string \<Rightarrow> int \<Rightarrow> string \<Rightarrow> DelegateReward option action" where
  "getDelegatorRewardRecord pool epoch delegator = read (\<lambda>d.
     find_one ''delegate_reward''
       (\<lambda>r. dr_id_delegator r = addressToBuffer delegator \<and> dr_id_node r = addressToBuffer pool \<and>
            dr_id_posdao_epoch r = epoch)
       (delegate_reward d))"

definition updateDelegatorRewardRecord :: "string \<Rightarrow> int \<Rightarrow> string \<Rightarrow> unit action" where
  "updateDelegatorRewardRecord pool epoch delegator = execute (\<lambda>d.
     await (update_rows ''delegate_reward'' delegate_reward_key (delegate_reward_fk d)
         (\<lambda>r. dr_id_delegator r = addressToBuffer delegator \<and> dr_id_node r = addressToBuffer pool \<and>
              dr_id_posdao_epoch r = epoch)
         (\<lambda>r. r\<lparr>dr_is_claimed := True\<rparr>) (delegate_reward d))
       (\<lambda>rows. Inr (d\<lparr>delegate_reward := rows\<rparr>)))"

definition insertDelegateStaker :: "string list \<Rightarrow> unit action" where
  "insertDelegateStaker delegators = executeWithRetry (execute (\<lambda>d.
     await (forM (map addressToBuffer delegators)
         (\<lambda>a rows. insert_or_ignore ''delegate_staker'' id (\<lambda>_. True) a rows) (delegate_staker d))
       (\<lambda>rows. Inr (d\<lparr>delegate_staker := rows\<rparr>))))"

definition insertDelegateRewardsBulk :: "DelegateRewardData list \<Rightarrow> unit action" where
  "insertDelegateRewardsBulk rewards = executeWithRetry (execute (\<lambda>d.
     await (forM rewards
         (\<lambda>reward rows. insert_row ''delegate_reward'' delegate_reward_key (delegate_reward_fk d)
            \<lparr>dr_id_node = addressToBuffer (rd_poolAddress reward),
             dr_id_posdao_epoch = rd_epoch reward,
             dr_id_delegator = addressToBuffer (rd_delegatorAddress reward),
             dr_is_claimed = rd_isClaimed reward, reward_amount = rd_amount reward\<rparr> rows)
         (delegate_reward d))
       (\<lambda>rows. Inr (d\<lparr>delegate_reward := rows\<rparr>))))"

section \<open>Validator states\<close>

definition getValidators :: "PendingValidatorStateEvent list action" where
  "getValidators = read (\<lambda>d.
     Inr (filter (\<lambda>r. on_exit_block_number r = None) (pending_validator_state_event d)))"

definition findValidator :: "string \<Rightarrow> string \<Rightarrow> PendingValidatorStateEvent option action" where
  "findValidator validator state = read (\<lambda>d.
     find_one ''pending_validator_state_event''
       (\<lambda>r. pv_node r = addressToBuffer validator \<and> on_exit_block_number r = None \<and>
            pv_state r = state)
       (pending_validator_state_event d))"

definition insertValidator :: "PendingValidatorStateEvent \<Rightarrow> unit action" where
  "insertValidator validator = execute (\<lambda>d.
     await (insert_row ''pending_validator_state_event'' pending_validator_key
         (pending_validator_fk d) validator (pending_validator_state_event d))
       (\<lambda>rows. Inr (d\<lparr>pending_validator_state_event := rows\<rparr>)))"

text \<open>ORDER BY on_enter_block_number DESC, keygen_round DESC: the last of the ascending order.\<close>

definition open_states ::
  "buffer \<Rightarrow> string \<Rightarrow> int \<Rightarrow> PendingValidatorStateEvent list \<Rightarrow> PendingValidatorStateEvent list" where
  "open_states sqlNode state exitBlockNumber rows =
     rev (sort_key (\<lambda>r. (on_enter_block_number r, keygen_round r))
       (filter (\<lambda>r. pv_node r = sqlNode \<and> on_enter_block_number r \<noteq> exitBlockNumber \<and>
          on_exit_block_number r = None \<and> pv_state r = state) rows))"

definition updateOrIgnoreValidator :: "string \<Rightarrow> string \<Rightarrow> int \<Rightarrow> int \<Rightarrow> unit action" where
  "updateOrIgnoreValidator validator state exitBlockNumber keygenRound =
     andThen (read (\<lambda>d. Inr (open_states (addressToBuffer validator) state exitBlockNumber
       (pending_validator_state_event d))))
     (\<lambda>existingRecords. case existingRecords of
        [] \<Rightarrow> ret ()
      | existingRecord # _ \<Rightarrow> execute (\<lambda>d.
          await (update_rows ''pending_validator_state_event'' pending_validator_key
              (pending_validator_fk d)
              (\<lambda>r. pv_node r = addressToBuffer validator \<and> pv_state r = state \<and>
                   on_enter_block_number r = on_enter_block_number existingRecord \<and>
                   keygen_round r = keygen_round existingRecord)
              (\<lambda>r. r\<lparr>on_exit_block_number := Some exitBlockNumber\<rparr>)
              (pending_validator_state_event d))
            (\<lambda>rows. Inr (d\<lparr>pending_validator_state_event := rows\<rparr>))))"

section \<open>Bonus score change reasons\<close>

text \<open>INSERT ... ON CONFLICT (node_pool_address, block_number) DO UPDATE\<close>

definition upsert_reason :: "BonusScoreChangeReason \<Rightarrow> db \<Rightarrow> db result" where
  "upsert_reason r d =
     (if reason_key r \<in> set (map reason_key (bonus_score_change_reasons d))
      then Inr (d\<lparr>bonus_score_change_reasons :=
                  set_where (\<lambda>q. reason_key q = reason_key r) (\<lambda>_. r) (bonus_score_change_reasons d)\<rparr>)
      else await (insert_row ''bonus_score_change_reasons'' reason_key (reason_fk d) r
             (bonus_score_change_reasons d))
           (\<lambda>rows. Inr (d\<lparr>bonus_score_change_reasons := rows\<rparr>)))"

text \<open>A failed statement is only logged.\<close>

definition insertBonusScoreChangeReason ::
  "string \<Rightarrow> int \<Rightarrow> int \<Rightarrow> int \<Rightarrow> int \<Rightarrow> int \<Rightarrow> string \<Rightarrow> unit action" where
  "insertBonusScoreChangeReason poolAddress blockNumber epoch scoreChange previousScore newScore
     reason = try_catch (execute (upsert_reason
       \<lparr>node_pool_address = addressToBuffer poolAddress, br_block_number = blockNumber,
        br_epoch = epoch, score_change = scoreChange, previous_score = previousScore,
        new_score = newScore, br_reason = reason\<rparr>))
     (\<lambda>_. ret ())"

definition getEpochByBlock :: "int \<Rightarrow> int option action" where
  "getEpochByBlock blockNumber = try_catch (pool_read (\<lambda>d.
     case rev (sort_key block_start (filter (\<lambda>r. block_start r \<le> blockNumber \<and>
         (case block_end r of None \<Rightarrow> True | Some e \<Rightarrow> e \<ge> blockNumber)) (posdao_epoch d))) of
       [] \<Rightarrow> Inr None
     | r # _ \<Rightarrow> Inr (Some (epoch_id r))))
     (\<lambda>_. ret None)"

text \<open>The row that the history query gives back, with the address as a string.\<close>

record ReasonView =
  rv_poolAddress :: string
  rv_blockNumber :: int
  rv_epoch :: int
  rv_scoreChange :: int
  rv_previousScore :: int
  rv_newScore :: int
  rv_reason :: string

definition getBonusScoreChangeHistory ::
  "string \<Rightarrow> int option \<Rightarrow> int option \<Rightarrow> ReasonView list action" where
  "getBonusScoreChangeHistory poolAddress fromBlock toBlock = try_catch (pool_read (\<lambda>d.
     Inr (map (\<lambda>r. \<lparr>rv_poolAddress = bufferToAddress (node_pool_address r),
          rv_blockNumber = br_block_number r, rv_epoch = br_epoch r,
          rv_scoreChange = score_change r, rv_previousScore = previous_score r,
          rv_newScore = new_score r, rv_reason = br_reason r\<rparr>)
       (take 1000 (rev (sort_key br_block_number
         (filter (\<lambda>r. node_pool_address r = addressToBuffer poolAddress \<and>
            nullable (\<lambda>b. br_block_number r \<ge> b) fromBlock \<and>
            nullable (\<lambda>b. br_block_number r \<le> b) toBlock) (bonus_score_change_reasons d))))))))
     (\<lambda>_. ret [])"

text \<open>
  GROUP BY reason: one group per reason, with COUNT and AVG. The code folds the groups back
  into totals; its floating-point numbers are rationals here.
\<close>

record ReasonStats =
  totalChanges :: nat
  reasonCounts :: "(string \<times> nat) list"
  avgScoreChange :: rat

definition reason_groups :: "BonusScoreChangeReason list \<Rightarrow> (string \<times> nat \<times> rat) list" where
  "reason_groups rows =
     map (\<lambda>reason. let g = filter (\<lambda>r. br_reason r = reason) rows in
        (reason, length g, of_int (sum_list (map score_change g)) / of_nat (length g)))
       (remdups (map br_reason rows))"

definition getBonusScoreChangeStats :: "int option \<Rightarrow> int option \<Rightarrow> ReasonStats action" where
  "getBonusScoreChangeStats epochStart epochEnd = pool_read (\<lambda>d.
     let result = reason_groups (filter (\<lambda>r. nullable (\<lambda>e. br_epoch r \<ge> e) epochStart \<and>
           nullable (\<lambda>e. br_epoch r \<le> e) epochEnd) (bonus_score_change_reasons d));
         total = sum_list (map (\<lambda>(_, n, _). n) result);
         totalScoreChange = sum_list (map (\<lambda>(_, n, avg). avg * of_nat n) result)
     in Inr \<lparr>totalChanges = total,
             reasonCounts = map (\<lambda>(reason, n, _). (reason, n)) result,
             avgScoreChange = (if total > 0 then totalScoreChange / of_nat total else 0)\<rparr>)"

section \<open>Stake transactions\<close>

text \<open>Written through the connection pool: outside of the block transaction.\<close>

definition insertStakeTransaction ::
  "int \<Rightarrow> int \<Rightarrow> string \<Rightarrow> string \<Rightarrow> string option \<Rightarrow> string option \<Rightarrow> string option \<Rightarrow> wei \<Rightarrow>
   int option \<Rightarrow> bool \<Rightarrow> unit action" where
  "insertStakeTransaction blockNumber blockTimestamp actionType pool staker toPool caller amount
     epoch isDelegatorStake m =
     (Inr (), m\<lparr>stake_transactions := stake_transactions m @
         [\<lparr>st_id = stake_transactions_id_seq m, st_block_number = blockNumber,
           st_block_timestamp = blockTimestamp, action_type = actionType,
           st_pool_address = addressToBuffer pool,
           staker_address = map_option addressToBuffer staker,
           to_pool_address = map_option addressToBuffer toPool,
           caller_address = map_option addressToBuffer caller,
           st_amount = amount, staking_epoch = epoch, is_delegator_stake = isDelegatorStake\<rparr>],
       stake_transactions_id_seq := stake_transactions_id_seq m + 1\<rparr>)"

definition query_stake_transactions ::
  "(StakeTransaction \<Rightarrow> bool) \<Rightarrow> manager \<Rightarrow> StakeTransaction list" where
  "query_stake_transactions cond m =
     rev (sort_key (\<lambda>t. (st_block_timestamp t, st_id t)) (filter cond (stake_transactions m)))"

abbreviation has_action :: "string option \<Rightarrow> StakeTransaction \<Rightarrow> bool" where
  "has_action actionType t \<equiv> nullable (\<lambda>a. a = [] \<or> action_type t = a) actionType"

definition getStakeTransactionsByStaker ::
  "string \<Rightarrow> string option \<Rightarrow> nat \<Rightarrow> nat \<Rightarrow> StakeTransaction list action" where
  "getStakeTransactionsByStaker staker actionType limit offset m =
     (Inr (take limit (drop offset (query_stake_transactions
        (\<lambda>t. staker_address t = Some (addressToBuffer staker) \<and> has_action actionType t) m))), m)"

definition getStakeTransactionsByPool ::
  "string \<Rightarrow> string option \<Rightarrow> nat \<Rightarrow> nat \<Rightarrow> StakeTransaction list action" where
  "getStakeTransactionsByPool pool actionType limit offset m =
     (Inr (take limit (drop offset (query_stake_transactions
        (\<lambda>t. st_pool_address t = addressToBuffer pool \<and> has_action actionType t) m))), m)"

definition getStakeTransactionsByBlockRange :: "int \<Rightarrow> int \<Rightarrow> StakeTransaction list action" where
  "getStakeTransactionsByBlockRange startBlock endBlock m =
     (Inr (sort_key (\<lambda>t. (st_block_number t, st_id t))
        (filter (\<lambda>t. st_block_number t \<ge> startBlock \<and> st_block_number t \<le> endBlock)
          (stake_transactions m))), m)"

definition getStakeTransactionsByTimeRange ::
  "int \<Rightarrow> int \<Rightarrow> string option \<Rightarrow> nat \<Rightarrow> StakeTransaction list action" where
  "getStakeTransactionsByTimeRange startTimestamp endTimestamp actionType limit m =
     (Inr (take limit (query_stake_transactions
        (\<lambda>t. st_block_timestamp t \<ge> startTimestamp \<and> st_block_timestamp t \<le> endTimestamp \<and>
             has_action actionType t) m)), m)"

definition getRecentStakeTransactions :: "nat \<Rightarrow> string option \<Rightarrow> StakeTransaction list action" where
  "getRecentStakeTransactions limit actionType m =
     (Inr (take limit (query_stake_transactions (has_action actionType) m)), m)"

text \<open>GROUP BY action_type, most frequent first; groups of one size stay as they come.\<close>

definition getStakeTransactionVolume ::
  "int option \<Rightarrow> int option \<Rightarrow> (string \<times> nat \<times> wei) list action" where
  "getStakeTransactionVolume startTimestamp endTimestamp m =
     (let rows = filter (\<lambda>t. nullable (\<lambda>b. st_block_timestamp t \<ge> b) startTimestamp \<and>
            nullable (\<lambda>b. st_block_timestamp t \<le> b) endTimestamp) (stake_transactions m)
      in (Inr (sort_key (\<lambda>(_, n, _). - int n)
            (map (\<lambda>a. let g = filter (\<lambda>t. action_type t = a) rows in
               (a, length g, sum_list (map st_amount g)))
             (remdups (map action_type rows)))), m))"

section \<open>Names\<close>

definition coalesce :: "'a option \<Rightarrow> 'a option \<Rightarrow> 'a option" where
  "coalesce a b = (case a of None \<Rightarrow> b | Some _ \<Rightarrow> a)"

text \<open>\<open>ON CONFLICT (label_hash) DO UPDATE\<close>: \<open>excluded\<close> is the row that was to be inserted.\<close>

definition merge_name :: "DmdName \<Rightarrow> DmdName \<Rightarrow> DmdName" where
  "merge_name excluded old = old
     \<lparr>label := coalesce (label excluded) (label old),
      name_owner := coalesce (name_owner excluded) (name_owner old),
      name_creator := coalesce (name_creator old) (name_creator excluded),
      created_block := coalesce (created_block old) (created_block excluded),
      created_timestamp := coalesce (created_timestamp old) (created_timestamp excluded),
      expiration := coalesce (expiration excluded) (expiration old),
      active := coalesce (active excluded) (active old),
      blocked := coalesce (blocked excluded) (blocked old),
      last_action_type := last_action_type excluded,
      last_action_block := last_action_block excluded,
      last_action_timestamp := last_action_timestamp excluded\<rparr>"

definition upsertDmdName :: "DmdName \<Rightarrow> unit action" where
  "upsertDmdName params m =
     (Inr (), m\<lparr>dmd_names :=
        (if label_hash params \<in> set (map label_hash (dmd_names m))
         then set_where (\<lambda>n. label_hash n = label_hash params) (merge_name params) (dmd_names m)
         else dmd_names m @ [params])\<rparr>)"

definition insertDmdNameEvent :: "DmdNameEvent \<Rightarrow> unit action" where
  "insertDmdNameEvent params m =
     (if ne_label_hash params \<in> set (map label_hash (dmd_names m))
      then (Inr (), m\<lparr>dmd_name_events := dmd_name_events m @ [params]\<rparr>)
      else (Inl (ForeignKeyViolation ''dmd_name_events''), m))"

section \<open>Cleaning up\<close>

text \<open>A statement through the pool that commits by itself; a DELETE or UPDATE must leave every
  reference intact. The reasons of a deleted header go with it (ON DELETE CASCADE).\<close>

definition pool_delete :: "(db \<Rightarrow> db) \<Rightarrow> unit action" where
  "pool_delete f m =
     (if refs_ok (f (committed m)) then (Inr (), m\<lparr>committed := f (committed m)\<rparr>)
      else (Inl (ForeignKeyViolation ''delete''), m))"

definition delete_headers_from :: "int \<Rightarrow> db \<Rightarrow> db" where
  "delete_headers_from b d = d
     \<lparr>headers := delete_where (\<lambda>r. block_number r \<ge> b) (headers d),
      bonus_score_change_reasons :=
        delete_where (\<lambda>r. br_block_number r \<ge> b) (bonus_score_change_reasons d)\<rparr>"

definition deleteDataFromBlock :: "int \<Rightarrow> unit action" where
  "deleteDataFromBlock blockNumber =
     andThen (pool_read (\<lambda>d. Inr (map epoch_id
       (filter (\<lambda>r. block_start r \<ge> blockNumber) (posdao_epoch d)))))
     (\<lambda>epochIds. andThen (forEach epochIds (\<lambda>epoch.
         andThen (pool_delete (\<lambda>d. d\<lparr>posdao_epoch_node :=
           delete_where (\<lambda>r. id_posdao_epoch r = epoch) (posdao_epoch_node d)\<rparr>))
         (\<lambda>_. andThen (pool_delete (\<lambda>d. d\<lparr>delegate_reward :=
           delete_where (\<lambda>r. dr_id_posdao_epoch r = epoch) (delegate_reward d)\<rparr>))
         (\<lambda>_. throw (UndefinedColumn ''stake_delegators.epoch'')))))
     (\<lambda>_. andThen (\<lambda>m. (Inr (), m\<lparr>stake_transactions :=
         delete_where (\<lambda>t. st_block_number t \<ge> blockNumber) (stake_transactions m)\<rparr>))
     (\<lambda>_. andThen (pool_delete (\<lambda>d. d\<lparr>bonus_score_change_reasons :=
         delete_where (\<lambda>r. br_block_number r \<ge> blockNumber) (bonus_score_change_reasons d)\<rparr>))
     (\<lambda>_. andThen (pool_delete (\<lambda>d. d\<lparr>available_event :=
         delete_where (\<lambda>r. av_block r \<ge> blockNumber) (available_event d)\<rparr>))
     (\<lambda>_. andThen (pool_delete (\<lambda>d. d\<lparr>bonus_score_history :=
         delete_where (\<lambda>r. bs_from_block r \<ge> blockNumber) (bonus_score_history d)\<rparr>))
     (\<lambda>_. andThen (pool_delete (\<lambda>d. d\<lparr>bonus_score_history :=
         set_where (\<lambda>r. bs_from_block r < blockNumber \<and>
             (case bs_to_block r of None \<Rightarrow> True | Some t \<Rightarrow> t \<ge> blockNumber))
           (\<lambda>r. r\<lparr>bs_to_block := Some (blockNumber - 1)\<rparr>) (bonus_score_history d)\<rparr>))
     (\<lambda>_. andThen (pool_delete (\<lambda>d. d\<lparr>stake_history :=
         delete_where (\<lambda>r. from_block r \<ge> blockNumber) (stake_history d)\<rparr>))
     (\<lambda>_. andThen (pool_delete (\<lambda>d. d\<lparr>ordered_withdrawal :=
         delete_where (\<lambda>r. ow_block_number r \<ge> blockNumber \<or>
             (case claimed_on_block r of None \<Rightarrow> False | Some c \<Rightarrow> c \<ge> blockNumber))
           (ordered_withdrawal d)\<rparr>))
     (\<lambda>_. andThen (pool_delete (\<lambda>d. d\<lparr>pending_validator_state_event :=
         set_where (\<lambda>r. on_enter_block_number r < blockNumber \<and>
             (case on_exit_block_number r of None \<Rightarrow> False | Some x \<Rightarrow> x \<ge> blockNumber))
           (\<lambda>r. r\<lparr>on_exit_block_number := None\<rparr>) (pending_validator_state_event d)\<rparr>))
     (\<lambda>_. andThen (pool_delete (\<lambda>d. d\<lparr>pending_validator_state_event :=
         delete_where (\<lambda>r. on_enter_block_number r \<ge> blockNumber) (pending_validator_state_event d)\<rparr>))
     (\<lambda>_. andThen (if epochIds \<noteq> [] then pool_delete (\<lambda>d. d\<lparr>posdao_epoch :=
         delete_where (\<lambda>r. block_start r \<ge> blockNumber) (posdao_epoch d)\<rparr>) else ret ())
     (\<lambda>_. pool_delete (delete_headers_from blockNumber)))))))))))))"

text \<open>
  \<open>DELETE FROM\<close> a whole table of \<open>DB_TABLES\<close>, which lists them so that no row is deleted
  before the rows that refer to it.
\<close>

definition DB_TABLES :: "string list" where
  "DB_TABLES = [''dmd_name_events'', ''dmd_names'', ''stake_transactions'',
     ''bonus_score_change_reasons'', ''stake_delegators'', ''delegate_reward'',
     ''posdao_epoch_node'', ''delegate_staker'', ''pending_validator_state_event'',
     ''ordered_withdrawal'', ''posdao_epoch'', ''stake_history'', ''available_event'',
     ''bonus_score_history'', ''node'', ''headers'']"

definition delete_table :: "string \<Rightarrow> unit action" where
  "delete_table table =
     (if table = ''dmd_name_events'' then (\<lambda>m. (Inr (), m\<lparr>dmd_name_events := []\<rparr>))
      else if table = ''dmd_names'' then (\<lambda>m.
        if dmd_name_events m = [] then (Inr (), m\<lparr>dmd_names := []\<rparr>)
        else (Inl (ForeignKeyViolation table), m))
      else if table = ''stake_transactions'' then (\<lambda>m. (Inr (), m\<lparr>stake_transactions := []\<rparr>))
      else pool_delete (\<lambda>d.
        if table = ''bonus_score_change_reasons'' then d\<lparr>bonus_score_change_reasons := []\<rparr>
        else if table = ''stake_delegators'' then d\<lparr>stake_delegators := []\<rparr>
        else if table = ''delegate_reward'' then d\<lparr>delegate_reward := []\<rparr>
        else if table = ''posdao_epoch_node'' then d\<lparr>posdao_epoch_node := []\<rparr>
        else if table = ''delegate_staker'' then d\<lparr>delegate_staker := []\<rparr>
        else if table = ''pending_validator_state_event''
        then d\<lparr>pending_validator_state_event := []\<rparr>
        else if table = ''ordered_withdrawal'' then d\<lparr>ordered_withdrawal := []\<rparr>
        else if table = ''posdao_epoch'' then d\<lparr>posdao_epoch := []\<rparr>
        else if table = ''stake_history'' then d\<lparr>stake_history := []\<rparr>
        else if table = ''available_event'' then d\<lparr>available_event := []\<rparr>
        else if table = ''bonus_score_history'' then d\<lparr>bonus_score_history := []\<rparr>
        else if table = ''node'' then d\<lparr>node := []\<rparr>
        else if table = ''headers'' then d\<lparr>headers := []\<rparr>
        else d))"

definition deleteCurrentData :: "unit action" where
  "deleteCurrentData = forEach DB_TABLES delete_table"

end
