(* ===== verification/EventsVisitor.thy ===== *)
theory EventsVisitor imports DbManager begin

text \<open>
  src/src/eventsVisitor.ts: the contract events and the visitor that books them. The event
  classes are the constructors of \<open>contract_event\<close>, their fields its selectors; \<open>accept\<close> is
  the dispatch on the constructor. Amounts are in wei, addresses and hashes are strings, and
  a token id is the number its decimal string denotes.
\<close>

section \<open>Events\<close>

datatype contract_event =
    StakeChangedEvent (eventName: string) (blockNumber: int) (blockTimestamp: int)
      (poolAddress: string) (stakerAddress: string) (epoch: int) (amount: wei)
  | MovedStakeEvent (eventName: string) (blockNumber: int) (blockTimestamp: int)
      (fromPoolAddress: string) (toPoolAddress: string) (stakerAddress: string) (epoch: int)
      (amount: wei)
  | OrderedWithdrawalEvent (eventName: string) (blockNumber: int) (blockTimestamp: int)
      (poolAddress: string) (stakerAddress: string) (epoch: int) (amount: wei)
  | ClaimedOrderedWithdrawalEvent (eventName: string) (blockNumber: int) (blockTimestamp: int)
      (poolAddress: string) (stakerAddress: string) (epoch: int) (amount: wei)
  | GatherAbandonedStakesEvent (eventName: string) (blockNumber: int) (blockTimestamp: int)
      (caller: string) (poolAddress: string) (amount: wei)
  | AvailabilityEvent (eventName: string) (blockNumber: int) (blockTimestamp: int)
      (poolAddress: string) (available: bool)
  | NameRegisteredEvent (eventName: string) (blockNumber: int) (blockTimestamp: int)
      (logIndex: int) (nameOwner: string) (labelHash: string) (dmdName: string) (expires: int)
      (txHash: string)
  | NameActivatedEvent (eventName: string) (blockNumber: int) (blockTimestamp: int)
      (logIndex: int) (nameOwner: string) (labelHash: string) (dmdName: string) (txHash: string)
  | NameDeactivatedEvent (eventName: string) (blockNumber: int) (blockTimestamp: int)
      (logIndex: int) (nameOwner: string) (labelHash: string) (dmdName: string) (txHash: string)
  | NameRenewedEvent (eventName: string) (blockNumber: int) (blockTimestamp: int)
      (logIndex: int) (nameOwner: string) (labelHash: string) (dmdName: string) (expires: int)
      (txHash: string)
  | NameBlockedSetEvent (eventName: string) (blockNumber: int) (blockTimestamp: int)
      (logIndex: int) (labelHash: string) (dmdName: string) (nameBlocked: bool) (txHash: string)
  | DmdNameTransferEvent (eventName: string) (blockNumber: int) (blockTimestamp: int)
      (logIndex: int) (fromAddress: string) (toAddress: string) (tokenId: nat) (txHash: string)

definition isDelegatorStake :: "contract_event \<Rightarrow> bool" where
  "isDelegatorStake event \<longleftrightarrow> poolAddress event \<noteq> stakerAddress event"

definition isPlaceStakeEvent :: "contract_event \<Rightarrow> bool" where
  "isPlaceStakeEvent event \<longleftrightarrow> eventName event = ''PlacedStake''"

definition getStakeChangeAmount :: "contract_event \<Rightarrow> BigNumber" where
  "getStakeChangeAmount event =
     (let bnAmount = parseEther (amount event) in
      if eventName event = ''WithdrewStake'' then - bnAmount else bnAmount)"

text \<open>\<open>BigInt(from)\<close> of a hex string: the value of its digits.\<close>

definition hex_value :: "string \<Rightarrow> nat" where
  "hex_value s = fold (\<lambda>c n. 16 * n + (case hex_val c of Some v \<Rightarrow> v | None \<Rightarrow> 0)) s 0"

definition isMint :: "contract_event \<Rightarrow> bool" where
  "isMint event \<longleftrightarrow> hex_value (truncate0x (fromAddress event)) = 0"

section \<open>Stake history\<close>

text \<open>The two statements that the visitor repeats for every change of a pool's stake: close the
  record's time frame at the previous block and open a new one with the new amount.\<close>

definition replaceStakeRecord :: "StakeHistory \<Rightarrow> int \<Rightarrow> buffer \<Rightarrow> BigNumber \<Rightarrow> unit action" where
  "replaceStakeRecord record b pool newAmount =
     andThen (updateStakeHistory record (b - 1))
     (\<lambda>_. insertStakeHistoryRecord
        \<lparr>from_block = b, to_block = b, stake_amount = newAmount, sh_node = pool\<rparr>)"

definition saveDelegatedStake :: "string \<Rightarrow> string \<Rightarrow> BigNumber \<Rightarrow> unit action" where
  "saveDelegatedStake pool delegator change =
     andThen (ensureDelegateStaker delegator)
     (\<lambda>_. andThen (getStakeDelegator pool delegator)
     (\<lambda>delegateRecord. case delegateRecord of
        Some r \<Rightarrow> updateStakeDelegator pool delegator (total_delegated r + change)
      | None \<Rightarrow> insertStakeDelegator pool delegator change))"

definition visitAvailabilityEvents :: "contract_event \<Rightarrow> unit action" where
  "visitAvailabilityEvents event = insertAvailabilityEvent
     \<lparr>av_node = addressToBuffer (poolAddress event), av_block = blockNumber event,
      became_available = available event\<rparr>"

definition open_order :: "contract_event \<Rightarrow> OrderedWithdrawal \<Rightarrow> bool" where
  "open_order event r \<longleftrightarrow>
     from_pool_stakingAddress r = addressToBuffer (poolAddress event) \<and>
     ow_staker r = addressToBuffer (stakerAddress event) \<and> claimed_on_block r = None"

definition visitOrderedWithdrawalEvent :: "contract_event \<Rightarrow> unit action" where
  "visitOrderedWithdrawalEvent event =
     andThen (insertStakeTransaction (blockNumber event) (blockTimestamp event)
       ''OrderedWithdrawal'' (poolAddress event) (Some (stakerAddress event)) None None
       (amount event) (Some (epoch event)) (poolAddress event \<noteq> stakerAddress event))
     (\<lambda>_. andThen (getOrderWithdrawalEvent (open_order event))
     (\<lambda>existingOrder. let eventAmount = parseEther (amount event) in
       case existingOrder of
         None \<Rightarrow> insertOrderWithdrawalEvent (blockNumber event)
           (addressToBuffer (poolAddress event)) (addressToBuffer (stakerAddress event))
           (epoch event) eventAmount
       | Some order \<Rightarrow> updateOrderWithdrawalEvent (\<lambda>r. ow_id r = ow_id order)
           (\<lambda>r. r\<lparr>ow_staking_epoch := epoch event, ow_block_number := blockNumber event,
                  ow_amount := ow_amount order + eventAmount\<rparr>)))"

definition visitClaimedOrderedWithdrawalEvent :: "contract_event \<Rightarrow> unit action" where
  "visitClaimedOrderedWithdrawalEvent event =
     andThen (insertStakeTransaction (blockNumber event) (blockTimestamp event)
       ''ClaimedOrderedWithdrawal'' (poolAddress event) (Some (stakerAddress event)) None None
       (amount event) (Some (epoch event)) (poolAddress event \<noteq> stakerAddress event))
     (\<lambda>_. andThen (getOrderWithdrawalEvent (open_order event))
     (\<lambda>existingOrder. andThen (getLastStakeHistoryRecord (poolAddress event))
     (\<lambda>stakeRecord. case (existingOrder, stakeRecord) of
         (Some order, Some record) \<Rightarrow>
           andThen (updateOrderWithdrawalEvent (\<lambda>r. ow_id r = ow_id order)
             (\<lambda>r. r\<lparr>claimed_on_block := Some (blockNumber event)\<rparr>))
           (\<lambda>_. replaceStakeRecord record (blockNumber event) (sh_node record)
             (stake_amount record - parseEther (amount event)))
       | _ \<Rightarrow> ret ())))"

definition visitStakeChangedEvent :: "contract_event \<Rightarrow> unit action" where
  "visitStakeChangedEvent event =
     andThen (insertStakeTransaction (blockNumber event) (blockTimestamp event)
       (eventName event) (poolAddress event) (Some (stakerAddress event)) None None
       (amount event) (Some (epoch event)) (isDelegatorStake event))
     (\<lambda>_. let changeAmount = getStakeChangeAmount event in
     andThen (if isDelegatorStake event
       then andThen (insertDelegateStaker [stakerAddress event])
         (\<lambda>_. saveDelegatedStake (poolAddress event) (stakerAddress event) changeAmount)
       else ret ())
     (\<lambda>_. andThen (getLastStakeHistoryRecord (poolAddress event))
     (\<lambda>record. case record of
         None \<Rightarrow> insertStakeHistoryRecord
           \<lparr>from_block = blockNumber event, to_block = blockNumber event,
            stake_amount = parseEther (amount event),
            sh_node = addressToBuffer (poolAddress event)\<rparr>
       | Some r \<Rightarrow> replaceStakeRecord r (blockNumber event) (sh_node r)
           (stake_amount r + changeAmount))))"

definition visitMovedStakeEvent :: "contract_event \<Rightarrow> unit action" where
  "visitMovedStakeEvent event =
     andThen (insertStakeTransaction (blockNumber event) (blockTimestamp event)
       ''MovedStake'' (fromPoolAddress event) (Some (stakerAddress event))
       (Some (toPoolAddress event)) None (amount event) (Some (epoch event))
       (fromPoolAddress event \<noteq> stakerAddress event))
     (\<lambda>_. andThen (getLastStakeHistoryRecord (fromPoolAddress event))
     (\<lambda>fromPoolRecord. case fromPoolRecord of
         None \<Rightarrow> ret ()
       | Some fromRecord \<Rightarrow> let movedAmount = parseEther (amount event) in
           andThen (replaceStakeRecord fromRecord (blockNumber event) (sh_node fromRecord)
             (stake_amount fromRecord - movedAmount))
           (\<lambda>_. andThen (getLastStakeHistoryRecord (toPoolAddress event))
           (\<lambda>toPoolRecord. andThen (case toPoolRecord of
               Some toRecord \<Rightarrow> replaceStakeRecord toRecord (blockNumber event)
                 (addressToBuffer (toPoolAddress event)) (stake_amount toRecord + movedAmount)
             | None \<Rightarrow> insertStakeHistoryRecord
                 \<lparr>from_block = blockNumber event, to_block = blockNumber event,
                  stake_amount = 0 + movedAmount,
                  sh_node = addressToBuffer (toPoolAddress event)\<rparr>)
           (\<lambda>_. andThen (if fromPoolAddress event \<noteq> stakerAddress event
             then saveDelegatedStake (fromPoolAddress event) (stakerAddress event) (- movedAmount)
             else ret ())
           (\<lambda>_. if toPoolAddress event \<noteq> stakerAddress event
             then saveDelegatedStake (toPoolAddress event) (stakerAddress event) movedAmount
             else ret ()))))))"

definition visitGatherAbandonedStakesEvent :: "contract_event \<Rightarrow> unit action" where
  "visitGatherAbandonedStakesEvent event =
     andThen (insertStakeTransaction (blockNumber event) (blockTimestamp event)
       ''GatherAbandonedStakes'' (poolAddress event) None None (Some (caller event))
       (amount event) None False)
     (\<lambda>_. andThen (getLastStakeHistoryRecord (poolAddress event))
     (\<lambda>record. case record of
         None \<Rightarrow> ret ()
       | Some r \<Rightarrow> replaceStakeRecord r (blockNumber event) (addressToBuffer (poolAddress event))
           (stake_amount r - parseEther (amount event))))"

section \<open>Names\<close>

text \<open>The row of \<open>dmd_names\<close> that an event upserts, with the columns it does not set at NULL.\<close>

definition name_row :: "contract_event \<Rightarrow> buffer \<Rightarrow> string \<Rightarrow> DmdName" where
  "name_row event hash actionType =
     \<lparr>label_hash = hash, label = None, name_owner = None, name_creator = None,
      created_block = None, created_timestamp = None, expiration = None, active = None,
      blocked = None, last_action_type = actionType, last_action_block = blockNumber event,
      last_action_timestamp = blockTimestamp event\<rparr>"

definition name_event_row :: "contract_event \<Rightarrow> buffer \<Rightarrow> string \<Rightarrow> DmdNameEvent" where
  "name_event_row event hash eventType =
     \<lparr>ne_label_hash = hash, ne_label = None, event_type = eventType, actor_address = None,
      from_address = None, to_address = None, ne_expiration = None, ne_blocked = None,
      ne_block_number = blockNumber event, ne_block_timestamp = blockTimestamp event,
      tx_hash = Some (hexToBuffer (txHash event))\<rparr>"

definition visitNameRegisteredEvent :: "contract_event \<Rightarrow> unit action" where
  "visitNameRegisteredEvent event = (let hash = hexToBuffer (labelHash event) in
     andThen (upsertDmdName ((name_row event hash ''Registered'')
       \<lparr>label := Some (dmdName event), created_block := Some (blockNumber event),
        created_timestamp := Some (blockTimestamp event), expiration := Some (expires event)\<rparr>))
     (\<lambda>_. insertDmdNameEvent ((name_event_row event hash ''Registered'')
       \<lparr>ne_label := Some (dmdName event), actor_address := Some (addressToBuffer (nameOwner event)),
        ne_expiration := Some (expires event)\<rparr>)))"

definition visitNameActivatedEvent :: "contract_event \<Rightarrow> unit action" where
  "visitNameActivatedEvent event = (let hash = hexToBuffer (labelHash event) in
     andThen (upsertDmdName ((name_row event hash ''Activated'')
       \<lparr>label := Some (dmdName event), active := Some True\<rparr>))
     (\<lambda>_. insertDmdNameEvent ((name_event_row event hash ''Activated'')
       \<lparr>ne_label := Some (dmdName event), actor_address := Some (addressToBuffer (nameOwner event))\<rparr>)))"

definition visitNameDeactivatedEvent :: "contract_event \<Rightarrow> unit action" where
  "visitNameDeactivatedEvent event = (let hash = hexToBuffer (labelHash event) in
     andThen (upsertDmdName ((name_row event hash ''Deactivated'')
       \<lparr>label := Some (dmdName event), active := Some False\<rparr>))
     (\<lambda>_. insertDmdNameEvent ((name_event_row event hash ''Deactivated'')
       \<lparr>ne_label := Some (dmdName event), actor_address := Some (addressToBuffer (nameOwner event))\<rparr>)))"

definition visitNameRenewedEvent :: "contract_event \<Rightarrow> unit action" where
  "visitNameRenewedEvent event = (let hash = hexToBuffer (labelHash event) in
     andThen (upsertDmdName ((name_row event hash ''Renewed'')
       \<lparr>label := Some (dmdName event), expiration := Some (expires event)\<rparr>))
     (\<lambda>_. insertDmdNameEvent ((name_event_row event hash ''Renewed'')
       \<lparr>ne_label := Some (dmdName event), actor_address := Some (addressToBuffer (nameOwner event)),
        ne_expiration := Some (expires event)\<rparr>)))"

definition visitNameBlockedSetEvent :: "contract_event \<Rightarrow> unit action" where
  "visitNameBlockedSetEvent event = (let hash = hexToBuffer (labelHash event) in
     andThen (upsertDmdName ((name_row event hash ''BlockedSet'')
       \<lparr>label := Some (dmdName event), blocked := Some (nameBlocked event)\<rparr>))
     (\<lambda>_. insertDmdNameEvent ((name_event_row event hash ''BlockedSet'')
       \<lparr>ne_label := Some (dmdName event), ne_blocked := Some (nameBlocked event)\<rparr>)))"

definition visitDmdNameTransferEvent :: "contract_event \<Rightarrow> unit action" where
  "visitDmdNameTransferEvent event =
     (let hash = hexToBuffer (tokenIdToLabelHash (tokenId event)); mint = isMint event;
          to = addressToBuffer (toAddress event) in
     andThen (upsertDmdName ((name_row event hash ''Transfer'')
       \<lparr>name_owner := Some to,
        name_creator := (if mint then Some to else None),
        created_block := (if mint then Some (blockNumber event) else None),
        created_timestamp := (if mint then Some (blockTimestamp event) else None),
        active := (if mint then Some False else None)\<rparr>))
     (\<lambda>_. insertDmdNameEvent ((name_event_row event hash ''Transfer'')
       \<lparr>actor_address := Some to, from_address := Some (addressToBuffer (fromAddress event)),
        to_address := Some to\<rparr>)))"

section \<open>Dispatch\<close>

fun accept :: "contract_event \<Rightarrow> unit action" where
  "accept (StakeChangedEvent n b t p s e a) = visitStakeChangedEvent (StakeChangedEvent n b t p s e a)"
| "accept (MovedStakeEvent n b t f p s e a) = visitMovedStakeEvent (MovedStakeEvent n b t f p s e a)"
| "accept (OrderedWithdrawalEvent n b t p s e a) =
     visitOrderedWithdrawalEvent (OrderedWithdrawalEvent n b t p s e a)"
| "accept (ClaimedOrderedWithdrawalEvent n b t p s e a) =
     visitClaimedOrderedWithdrawalEvent (ClaimedOrderedWithdrawalEvent n b t p s e a)"
| "accept (GatherAbandonedStakesEvent n b t c p a) =
     visitGatherAbandonedStakesEvent (GatherAbandonedStakesEvent n b t c p a)"
| "accept (AvailabilityEvent n b t p a) = visitAvailabilityEvents (AvailabilityEvent n b t p a)"
| "accept (NameRegisteredEvent n b t l p h d x i) =
     visitNameRegisteredEvent (NameRegisteredEvent n b t l p h d x i)"
| "accept (NameActivatedEvent n b t l p h d i) =
     visitNameActivatedEvent (NameActivatedEvent n b t l p h d i)"
| "accept (NameDeactivatedEvent n b t l p h d i) =
     visitNameDeactivatedEvent (NameDeactivatedEvent n b t l p h d i)"
| "accept (NameRenewedEvent n b t l p h d x i) =
     visitNameRenewedEvent (NameRenewedEvent n b t l p h d x i)"
| "accept (NameBlockedSetEvent n b t l h d k i) =
     visitNameBlockedSetEvent (NameBlockedSetEvent n b t l h d k i)"
| "accept (DmdNameTransferEvent n b t l f p k i) =
     visitDmdNameTransferEvent (DmdNameTransferEvent n b t l f p k i)"

end
