(* ===== verification/StakeHistoryRows.thy ===== *)
theory StakeHistoryRows imports EventsVisitor begin

text \<open>
  The shape of the table \<open>stake_history\<close>. A pool's current record is the row \<open>(m, m)\<close> whose
  block is above every other time frame of the pool; replacing it closes the frame and opens
  the next one. The lemmas say what \<open>getLastStakeHistoryRecord\<close> finds in such a table and
  what \<open>replaceStakeRecord\<close> makes of it.
\<close>

definition current_record :: "buffer \<Rightarrow> StakeHistory \<Rightarrow> StakeHistory list \<Rightarrow> bool" where
  "current_record p r rows \<longleftrightarrow>
     r \<in> set rows \<and> sh_node r = p \<and> from_block r = to_block r \<and>
     list_all (\<lambda>q. sh_node q = p \<and> q \<noteq> r \<longrightarrow> to_block q < to_block r \<and> from_block q \<le> to_block r) rows"

text \<open>Every pool with a record has a current one, keys are unique, nothing is later than \<open>t\<close>.\<close>

definition stake_rows_ok :: "int \<Rightarrow> StakeHistory list \<Rightarrow> bool" where
  "stake_rows_ok t rows \<longleftrightarrow>
     distinct (map stake_history_key rows) \<and>
     list_all (\<lambda>q. to_block q \<le> t) rows \<and>
     list_all (\<lambda>q. list_ex (\<lambda>r. current_record (sh_node q) r rows) rows) rows"

definition current_stake :: "StakeHistory list \<Rightarrow> buffer \<rightharpoonup> BigNumber" where
  "current_stake rows p =
     (case last_stake_rows p rows of [r] \<Rightarrow> Some (stake_amount r) | _ \<Rightarrow> None)"

lemma current_recordD:
  assumes "current_record p r rows"
  shows "r \<in> set rows" "sh_node r = p" "from_block r = to_block r"
    and "\<And>q. q \<in> set rows \<Longrightarrow> sh_node q = p \<Longrightarrow> q \<noteq> r \<Longrightarrow> to_block q < to_block r"
    and "\<And>q. q \<in> set rows \<Longrightarrow> sh_node q = p \<Longrightarrow> q \<noteq> r \<Longrightarrow> from_block q \<le> to_block r"
  using assms by (auto simp: current_record_def list_all_iff)

lemma stake_rows_okD:
  assumes "stake_rows_ok t rows"
  shows "distinct rows" "distinct (map stake_history_key rows)"
    and "q \<in> set rows \<Longrightarrow> to_block q \<le> t"
    and "q \<in> set rows \<Longrightarrow> \<exists>r. current_record (sh_node q) r rows"
  using assms by (auto simp: stake_rows_ok_def list_all_iff list_ex_iff distinct_map)

lemma stake_rows_ok_mono: "stake_rows_ok t rows \<Longrightarrow> t \<le> t' \<Longrightarrow> stake_rows_ok t' rows"
  by (auto simp: stake_rows_ok_def list_all_iff)

lemma last_stake_rows_current:
  assumes "current_record p r rows" "distinct rows"
  shows "last_stake_rows p rows = [r]"
proof -
  note c = current_recordD [OF assms(1)]
  have le: "q \<in> set rows \<Longrightarrow> sh_node q = p \<Longrightarrow> to_block q \<le> to_block r" for q
    using c(4) [of q] by (cases "q = r") auto
  have "max_of (map to_block (filter (\<lambda>r. from_block r = to_block r \<and> sh_node r = p) rows)) =
        Some (to_block r)"
    unfolding max_of_Some using c(1-3) le by auto
  moreover have "filter (\<lambda>q. sh_node q = p \<and> to_block q = to_block r) rows = [r]"
  proof (rule distinct_singleton)
    show "set (filter (\<lambda>q. sh_node q = p \<and> to_block q = to_block r) rows) = {r}"
      using c(1,2,4) by fastforce
  qed (simp add: assms(2))
  ultimately show ?thesis by (simp add: last_stake_rows_def)
qed

lemma last_stake_rows_none:
  assumes "\<And>q. q \<in> set rows \<Longrightarrow> sh_node q \<noteq> p"
  shows "last_stake_rows p rows = []"
proof -
  have "filter (\<lambda>r. from_block r = to_block r \<and> sh_node r = p) rows = []"
    using assms by (auto simp: filter_empty_conv)
  then show ?thesis by (simp add: last_stake_rows_def max_of_def)
qed

lemma current_stake_Some:
  assumes "current_record p r rows" "distinct rows"
  shows "current_stake rows p = Some (stake_amount r)"
  by (simp add: current_stake_def last_stake_rows_current [OF assms])

lemma current_stake_None:
  "(\<And>q. q \<in> set rows \<Longrightarrow> sh_node q \<noteq> p) \<Longrightarrow> current_stake rows p = None"
  by (simp add: current_stake_def last_stake_rows_none)

lemma current_record_unique:
  "current_record p r rows \<Longrightarrow> current_record p r' rows \<Longrightarrow> r = r'"
  using current_recordD(4) [of p r rows r'] current_recordD(4) [of p r' rows r]
    current_recordD(1,2) [of p r rows] current_recordD(1,2) [of p r' rows]
  by fastforce

text \<open>What the two reads of \<open>getLastStakeHistoryRecord\<close> give on such a table.\<close>

definition last_record :: "buffer \<Rightarrow> StakeHistory list \<Rightarrow> StakeHistory option" where
  "last_record p rows = (case last_stake_rows p rows of [r] \<Rightarrow> Some r | _ \<Rightarrow> None)"

lemma current_stake_last: "current_stake rows p = map_option stake_amount (last_record p rows)"
  by (auto simp: current_stake_def last_record_def split: list.splits)

lemma last_record_cases:
  assumes "stake_rows_ok t rows"
  obtains (none) "last_record p rows = None" "\<And>q. q \<in> set rows \<Longrightarrow> sh_node q \<noteq> p"
  | (some) r where "last_record p rows = Some r" "current_record p r rows"
proof (cases "\<exists>q \<in> set rows. sh_node q = p")
  case True
  then obtain r where "current_record p r rows" using stake_rows_okD(4) [OF assms] by blast
  then show ?thesis
    using some last_stake_rows_current [OF _ stake_rows_okD(1) [OF assms]]
    by (simp add: last_record_def)
next
  case False
  then show ?thesis using none last_stake_rows_none [of rows p] by (auto simp: last_record_def)
qed

lemma getLastStakeHistoryRecord_ok:
  assumes "stake_rows_ok t (stake_history (getDbContext m))"
    and "getLastStakeHistoryRecord pool m = (Inr x, m')"
  shows "x = last_record (addressToBuffer pool) (stake_history (getDbContext m))" "m' = m"
proof -
  let ?rows = "stake_history (getDbContext m)" and ?p = "addressToBuffer pool"
  have "x = last_record ?p ?rows \<and> m' = m"
  proof (rule last_record_cases [OF assms(1), of ?p])
    assume "last_record ?p ?rows = None" and n: "\<And>q. q \<in> set ?rows \<Longrightarrow> sh_node q \<noteq> ?p"
    then show ?thesis using assms(2) last_stake_rows_none [of ?rows ?p]
      by (auto simp: getLastStakeHistoryRecord_def action_simps)
  next
    fix r assume l: "last_record ?p ?rows = Some r" and c: "current_record ?p r ?rows"
    have f: "find_one ''stake_history'' (\<lambda>q. from_block q = from_block r \<and> to_block q = to_block r \<and>
          stake_amount q = stake_amount r \<and> sh_node q = ?p) ?rows = Inr (Some r)"
      by (rule find_one_by_key [where key = stake_history_key])
        (use current_recordD [OF c] stake_rows_okD(2) [OF assms(1)] in
          \<open>auto simp: stake_history_key_def\<close>)
    show ?thesis
      using assms(2) last_stake_rows_current [OF c stake_rows_okD(1) [OF assms(1)]] f l
      by (auto simp: getLastStakeHistoryRecord_def action_simps)
  qed
  then show "x = last_record ?p ?rows" "m' = m" by blast+
qed

section \<open>Replacing the current record\<close>

abbreviation of_pool :: "buffer \<Rightarrow> StakeHistory list \<Rightarrow> StakeHistory list" where
  "of_pool p \<equiv> filter (\<lambda>q. sh_node q = p)"

lemma current_record_of_pool: "current_record p r (of_pool p rows) \<longleftrightarrow> current_record p r rows"
  by (auto simp: current_record_def list_all_iff)

lemma last_stake_rows_of_pool: "last_stake_rows p (of_pool p rows) = last_stake_rows p rows"
proof -
  have a: "filter (\<lambda>r. from_block r = to_block r \<and> sh_node r = p) (of_pool p rows) =
        filter (\<lambda>r. from_block r = to_block r \<and> sh_node r = p) rows"
    unfolding filter_filter by (rule filter_cong) auto
  have b: "filter (\<lambda>r. sh_node r = p \<and> to_block r = m) (of_pool p rows) =
        filter (\<lambda>r. sh_node r = p \<and> to_block r = m) rows" for m
    unfolding filter_filter by (rule filter_cong) auto
  show ?thesis unfolding last_stake_rows_def a b ..
qed

lemma current_stake_cong: "of_pool p rows = of_pool p rows' \<Longrightarrow> current_stake rows p = current_stake rows' p"
  using last_stake_rows_of_pool [of p rows] last_stake_rows_of_pool [of p rows']
  by (simp add: current_stake_def)

text \<open>\<open>opened\<close> is a new last row at block \<open>b\<close>; the other rows of its pool end before \<open>b\<close>.\<close>

lemma open_record:
  assumes dist: "distinct (map stake_history_key (rows @ [n]))"
    and n: "sh_node n = p" "from_block n = b" "to_block n = b"
    and others: "\<And>q. q \<in> set rows \<Longrightarrow> sh_node q = p \<Longrightarrow> to_block q < b \<and> from_block q \<le> b"
    and rest: "\<And>q. q \<in> set rows \<Longrightarrow> sh_node q \<noteq> p \<Longrightarrow>
        to_block q \<le> b \<and> (\<exists>r. current_record (sh_node q) r rows)"
  shows "stake_rows_ok b (rows @ [n])" "current_stake (rows @ [n]) p = Some (stake_amount n)"
proof -
  have c: "current_record p n (rows @ [n])"
    using n others by (fastforce simp: current_record_def list_all_iff)
  have d: "distinct (rows @ [n])" using dist distinct_map [of stake_history_key "rows @ [n]"] by blast
  show "current_stake (rows @ [n]) p = Some (stake_amount n)"
    by (rule current_stake_Some [OF c d])
  have "\<exists>r. current_record (sh_node q) r (rows @ [n])" if "q \<in> set (rows @ [n])" for q
  proof (cases "sh_node q = p")
    case False
    then have q: "q \<in> set rows" using that n(1) by auto
    then obtain r where r: "current_record (sh_node q) r rows" using rest False by blast
    have "of_pool (sh_node q) (rows @ [n]) = of_pool (sh_node q) rows" using n(1) False by simp
    then have "current_record (sh_node q) r (rows @ [n])"
      using r current_record_of_pool [of "sh_node q" r rows]
        current_record_of_pool [of "sh_node q" r "rows @ [n]"] by simp
    then show ?thesis ..
  qed (use c in auto)
  moreover have "to_block q \<le> b" if "q \<in> set (rows @ [n])" for q
    using that n others [of q] rest [of q] by (cases "sh_node q = p") auto
  ultimately show "stake_rows_ok b (rows @ [n])"
    using dist current_recordD(1) unfolding stake_rows_ok_def list_all_iff list_ex_iff by blast
qed

definition close_record :: "StakeHistory \<Rightarrow> int \<Rightarrow> StakeHistory list \<Rightarrow> StakeHistory list" where
  "close_record record t rows = set_where
     (\<lambda>q. from_block q = from_block record \<and> to_block q = to_block record \<and>
          sh_node q = sh_node record) (\<lambda>q. q\<lparr>to_block := t\<rparr>) rows"

lemma close_record_eq:
  assumes "distinct (map stake_history_key rows)" "r \<in> set rows"
  shows "close_record r t rows = map (\<lambda>q. if q = r then q\<lparr>to_block := t\<rparr> else q) rows"
proof -
  have "q = r" if "q \<in> set rows" "from_block q = from_block r \<and> to_block q = to_block r \<and>
      sh_node q = sh_node r" for q
    using that assms unfolding distinct_map
    by (intro inj_onD [of stake_history_key "set rows"]) (auto simp: stake_history_key_def)
  then show ?thesis unfolding close_record_def by (intro map_cong) auto
qed

lemma replace_record:
  assumes ok: "stake_rows_ok t rows" and "t \<le> b" and c: "current_record p r rows"
    and n: "sh_node n = p" "from_block n = b" "to_block n = b"
    and dist: "distinct (map stake_history_key (close_record r (b - 1) rows @ [n]))"
  shows "stake_rows_ok b (close_record r (b - 1) rows @ [n])"
    and "current_stake (close_record r (b - 1) rows @ [n]) = (current_stake rows)(p \<mapsto> stake_amount n)"
proof -
  let ?closed = "close_record r (b - 1) rows"
  note cr = current_recordD [OF c]
  have m: "to_block r \<le> b" using stake_rows_okD(3) [OF ok cr(1)] assms(2) by simp
  have eq: "?closed = map (\<lambda>q. if q = r then q\<lparr>to_block := b - 1\<rparr> else q) rows"
    by (rule close_record_eq [OF stake_rows_okD(2) [OF ok] cr(1)])
  have other: "of_pool p' ?closed = of_pool p' rows" if "p' \<noteq> p" for p'
    unfolding eq using that cr(2) by (induction rows) auto
  have own: "to_block q < b \<and> from_block q \<le> b" if "q \<in> set ?closed" "sh_node q = p" for q
    using that cr(3-5) m unfolding eq by fastforce
  have rest: "to_block q \<le> b \<and> (\<exists>r'. current_record (sh_node q) r' ?closed)"
    if q: "q \<in> set ?closed" "sh_node q \<noteq> p" for q
  proof -
    have "q \<in> set (of_pool (sh_node q) ?closed)" using q(1) by simp
    then have qr: "q \<in> set rows" unfolding other [OF q(2)] by simp
    then obtain r' where "current_record (sh_node q) r' rows" using stake_rows_okD(4) [OF ok] by blast
    then have "current_record (sh_node q) r' ?closed"
      using other [OF q(2)] current_record_of_pool [of "sh_node q" r'] by metis
    then show ?thesis using stake_rows_okD(3) [OF ok qr] assms(2) by auto
  qed
  show "stake_rows_ok b (?closed @ [n])"
    by (rule open_record(1) [OF dist n]) (use own rest in auto)
  have p: "current_stake (?closed @ [n]) p = Some (stake_amount n)"
    by (rule open_record(2) [OF dist n]) (use own rest in auto)
  have "current_stake (?closed @ [n]) p' = current_stake rows p'" if "p' \<noteq> p" for p'
    by (rule current_stake_cong) (use other [OF that] that n(1) in auto)
  with p show "current_stake (?closed @ [n]) = (current_stake rows)(p \<mapsto> stake_amount n)"
    by (intro ext) simp
qed

end
