(* ===== verification/Ledger.thy ===== *)
theory Ledger imports StakeHistoryRows begin

text \<open>
  What the tables \<open>stake_history\<close>, \<open>stake_delegators\<close> and \<open>ordered_withdrawal\<close> stand for: a
  \<open>ledger\<close> of the stake per pool, the stake per pool and delegator, and the open withdrawal
  order per pool and staker. \<open>book\<close> is what an event means for the ledger; the visitor's
  database code refines it.
\<close>

section \<open>The abstract ledger\<close>

record ledger =
  pool_stake :: "buffer \<rightharpoonup> BigNumber"
  delegated :: "buffer \<times> buffer \<rightharpoonup> BigNumber"
  ordered :: "buffer \<times> buffer \<rightharpoonup> BigNumber"

definition or_zero :: "BigNumber option \<Rightarrow> BigNumber" where
  "or_zero v = (case v of None \<Rightarrow> 0 | Some x \<Rightarrow> x)"

definition credit :: "'k \<Rightarrow> BigNumber \<Rightarrow> ('k \<rightharpoonup> BigNumber) \<Rightarrow> ('k \<rightharpoonup> BigNumber)" where
  "credit k x f = f(k \<mapsto> or_zero (f k) + x)"

definition credit_known :: "'k \<Rightarrow> BigNumber \<Rightarrow> ('k \<rightharpoonup> BigNumber) \<Rightarrow> ('k \<rightharpoonup> BigNumber)" where
  "credit_known k x f = (case f k of None \<Rightarrow> f | Some v \<Rightarrow> f(k \<mapsto> v + x))"

fun book :: "contract_event \<Rightarrow> ledger \<Rightarrow> ledger" where
  "book (StakeChangedEvent n b t p s e a) l =
     (let pool = addressToBuffer p; change = getStakeChangeAmount (StakeChangedEvent n b t p s e a) in
      l\<lparr>delegated := (if p \<noteq> s then credit (pool, addressToBuffer s) change (delegated l)
                      else delegated l),
        pool_stake := (case pool_stake l pool of
            None \<Rightarrow> (pool_stake l)(pool \<mapsto> parseEther a)
          | Some v \<Rightarrow> (pool_stake l)(pool \<mapsto> v + change))\<rparr>)"
| "book (MovedStakeEvent n b t p q s e a) l =
     (let from = addressToBuffer p; to = addressToBuffer q; x = parseEther a in
      if pool_stake l from = None then l
      else l\<lparr>pool_stake := credit to x (credit_known from (- x) (pool_stake l)),
             delegated :=
               (let d1 = (if p \<noteq> s then credit (from, addressToBuffer s) (- x) (delegated l)
                          else delegated l)
                in if q \<noteq> s then credit (to, addressToBuffer s) x d1 else d1)\<rparr>)"
| "book (OrderedWithdrawalEvent n b t p s e a) l =
     l\<lparr>ordered := credit (addressToBuffer p, addressToBuffer s) (parseEther a) (ordered l)\<rparr>"
| "book (ClaimedOrderedWithdrawalEvent n b t p s e a) l =
     (let k = (addressToBuffer p, addressToBuffer s) in
      if ordered l k = None \<or> pool_stake l (fst k) = None then l
      else l\<lparr>ordered := (ordered l)(k := None),
             pool_stake := credit_known (fst k) (- parseEther a) (pool_stake l)\<rparr>)"
| "book (GatherAbandonedStakesEvent n b t c p a) l =
     l\<lparr>pool_stake := credit_known (addressToBuffer p) (- parseEther a) (pool_stake l)\<rparr>"
| "book _ l = l"

section \<open>Looking up a row by its key\<close>

abbreviation lookup :: "('r \<Rightarrow> 'k) \<Rightarrow> 'r list \<Rightarrow> 'k \<rightharpoonup> 'r" where
  "lookup key rows k \<equiv> find (\<lambda>r. key r = k) rows"

lemma find_one_find: "find_one name P rows = Inr x \<Longrightarrow> x = find P rows"
proof -
  have "find P rows = (case filter P rows of [] \<Rightarrow> None | r # _ \<Rightarrow> Some r)"
    by (induction rows) auto
  then show "find_one name P rows = Inr x \<Longrightarrow> x = find P rows"
    by (auto simp: find_one_def split: list.splits)
qed

lemma find_append: "find P (xs @ ys) = (case find P xs of None \<Rightarrow> find P ys | Some r \<Rightarrow> Some r)"
  by (induction xs) auto

lemma lookup_insert:
  "key r \<notin> key ` set rows \<Longrightarrow>
   lookup key (rows @ [r]) k = (if k = key r then Some r else lookup key rows k)"
  by (induction rows) auto

lemma lookup_None: "lookup key rows k = None \<longleftrightarrow> k \<notin> key ` set rows"
  by (auto simp: find_None_iff image_iff)

lemma lookup_SomeD: "lookup key rows k = Some r \<Longrightarrow> r \<in> set rows \<and> key r = k"
  by (auto simp: find_Some_iff)

lemma lookup_update:
  assumes "\<And>r. key (f r) = key r"
  shows "lookup key (set_where (\<lambda>r. key r = k') f rows) k =
         (if k = k' then map_option f (lookup key rows k) else lookup key rows k)"
  using assms by (induction rows) auto

lemma lookup_unique:
  assumes "distinct (map key rows)" "r \<in> set rows"
  shows "lookup key rows (key r) = Some r"
  using assms by (induction rows) auto

section \<open>The ledger of the tables\<close>

definition order_key :: "OrderedWithdrawal \<Rightarrow> buffer \<times> buffer" where
  "order_key r = (from_pool_stakingAddress r, ow_staker r)"

abbreviation open_orders :: "OrderedWithdrawal list \<Rightarrow> OrderedWithdrawal list" where
  "open_orders \<equiv> filter (\<lambda>r. claimed_on_block r = None)"

definition ledger_of :: "db \<Rightarrow> ledger" where
  "ledger_of d =
     \<lparr>pool_stake = current_stake (stake_history d),
      delegated = (\<lambda>k. map_option total_delegated (lookup stake_delegators_key (stake_delegators d) k)),
      ordered = (\<lambda>k. map_option ow_amount (lookup order_key (open_orders (ordered_withdrawal d)) k))\<rparr>"

definition orders_ok :: "int \<Rightarrow> OrderedWithdrawal list \<Rightarrow> bool" where
  "orders_ok seq rows \<longleftrightarrow>
     distinct (map ow_id rows) \<and> list_all (\<lambda>r. ow_id r < seq) rows \<and>
     distinct (map order_key (open_orders rows))"

text \<open>The integrity that the refinement needs, with no stake row later than block \<open>t\<close>.\<close>

definition ledger_ok :: "int \<Rightarrow> db \<Rightarrow> bool" where
  "ledger_ok t d \<longleftrightarrow>
     stake_rows_ok t (stake_history d) \<and>
     distinct (map stake_delegators_key (stake_delegators d)) \<and>
     orders_ok (ordered_withdrawal_id_seq d) (ordered_withdrawal d)"

lemma ledger_ok_mono: "ledger_ok t d \<Longrightarrow> t \<le> t' \<Longrightarrow> ledger_ok t' d"
  using stake_rows_ok_mono by (auto simp: ledger_ok_def)

lemma ledger_ok_empty: "ledger_ok t empty_db"
  by (simp add: ledger_ok_def empty_db_def stake_rows_ok_def orders_ok_def)

section \<open>What the visitor's statements do to the ledger\<close>

lemma getDbContext_stake_transactions [simp]:
  "getDbContext (stake_transactions_update f m) = getDbContext m"
  "getDbContext (stake_transactions_id_seq_update g m) = getDbContext m"
  "usable (stake_transactions_update f m) = usable m"
  "usable (stake_transactions_id_seq_update g m) = usable m"
  by (simp_all add: getDbContext_def usable_def split: option.splits)

lemma insertStakeTransaction_Inr [action_simps]:
  "insertStakeTransaction b t n p s q c a e i m = (Inr u, m') \<Longrightarrow>
   getDbContext m' = getDbContext m \<and> usable m' = usable m"
  by (auto simp: insertStakeTransaction_def)

definition sql_statement :: "(db \<Rightarrow> 'a result) \<Rightarrow> bool" where
  "sql_statement s \<longleftrightarrow> (\<forall>d e. s d = Inl e \<longrightarrow> \<not> isConnectionError e)"

lemma insert_row_sql: "insert_row n key fk r rows = Inl e \<Longrightarrow> \<not> isConnectionError e"
  by (auto simp: insert_row_def split: if_splits)

lemma insert_or_ignore_sql: "insert_or_ignore n key fk r rows = Inl e \<Longrightarrow> \<not> isConnectionError e"
  by (auto simp: insert_or_ignore_def split: if_splits)

lemma update_rows_sql: "update_rows n key fk P f rows = Inl e \<Longrightarrow> \<not> isConnectionError e"
  by (auto simp: update_rows_def split: if_splits)

lemma forM_sql:
  "forM xs f s = Inl e \<Longrightarrow> (\<And>x s e. f x s = Inl e \<Longrightarrow> \<not> isConnectionError e) \<Longrightarrow>
   \<not> isConnectionError e"
  by (induction xs arbitrary: s) (auto simp: result_simps)

lemma retry_execute: "sql_statement s \<Longrightarrow> executeWithRetry (execute s) = execute s"
  by (intro ext executeWithRetry_sql)
    (auto simp: execute_def query_def sql_statement_def result_simps split: if_splits sum.splits)

lemma insertDelegateStaker_Inr:
  assumes "insertDelegateStaker ds m = (Inr u, m')"
  obtains rows where "usable m"
    "forM (map addressToBuffer ds) (\<lambda>a rows. insert_or_ignore ''delegate_staker'' id (\<lambda>_. True) a rows)
       (delegate_staker (getDbContext m)) = Inr rows"
    "m' = set_context ((getDbContext m)\<lparr>delegate_staker := rows\<rparr>) m"
proof -
  have "sql_statement (\<lambda>d. await (forM (map addressToBuffer ds)
      (\<lambda>a rows. insert_or_ignore ''delegate_staker'' id (\<lambda>_. True) a rows) (delegate_staker d))
      (\<lambda>rows. Inr (d\<lparr>delegate_staker := rows\<rparr>)))"
    by (auto simp: sql_statement_def result_simps dest!: forM_sql dest: insert_or_ignore_sql)
  from retry_execute [OF this] show ?thesis
    using assms that by (auto simp: insertDelegateStaker_def action_simps result_simps)
qed

lemma ledger_delegate_staker [simp]:
  "ledger_of (d\<lparr>delegate_staker := rows\<rparr>) = ledger_of d"
  "ledger_ok t (d\<lparr>delegate_staker := rows\<rparr>) = ledger_ok t d"
  by (simp_all add: ledger_of_def ledger_ok_def)

lemma ensureDelegateStaker_ledger:
  assumes "ensureDelegateStaker a m = (Inr u, m')"
  shows "ledger_of (getDbContext m') = ledger_of (getDbContext m)"
    and "ledger_ok t (getDbContext m') = ledger_ok t (getDbContext m)"
    and "stake_delegators (getDbContext m') = stake_delegators (getDbContext m)"
  using assms
  by (auto simp: ensureDelegateStaker_def action_simps result_simps split: option.splits)

lemma saveDelegatedStake_ledger:
  assumes ok: "ledger_ok t (getDbContext m)"
    and run: "saveDelegatedStake pool a x m = (Inr u, m')"
  shows "ledger_ok t (getDbContext m')"
    and "ledger_of (getDbContext m') = (ledger_of (getDbContext m))
      \<lparr>delegated := credit (addressToBuffer pool, addressToBuffer a) x
        (delegated (ledger_of (getDbContext m)))\<rparr>"
proof -
  let ?k = "(addressToBuffer pool, addressToBuffer a)"
  let ?P = "\<lambda>r. sd_pool_address r = addressToBuffer pool \<and> sd_delegator r = addressToBuffer a"
  have P: "?P = (\<lambda>r. stake_delegators_key r = ?k)"
    by (auto simp: stake_delegators_key_def)
  obtain u1 m1 r m2 where e: "ensureDelegateStaker a m = (Inr u1, m1)"
    and g: "getStakeDelegator pool a m1 = (Inr r, m2)"
    and w: "(case r of Some r \<Rightarrow> updateStakeDelegator pool a (total_delegated r + x)
        | None \<Rightarrow> insertStakeDelegator pool a x) m2 = (Inr u, m')"
    using run by (auto simp: saveDelegatedStake_def action_simps)
  note e = ensureDelegateStaker_ledger [OF e]
  have r: "r = lookup stake_delegators_key (stake_delegators (getDbContext m1)) ?k" and m2: "m2 = m1"
    using g by (auto simp: getStakeDelegator_def action_simps P dest!: find_one_find)
  have ok1: "ledger_ok t (getDbContext m1)" using ok unfolding e(2) [of t] .
  then have dist: "distinct (map stake_delegators_key (stake_delegators (getDbContext m1)))"
    by (simp add: ledger_ok_def)
  have "ledger_ok t (getDbContext m') \<and> ledger_of (getDbContext m') = (ledger_of (getDbContext m1))
      \<lparr>delegated := credit ?k x (delegated (ledger_of (getDbContext m1)))\<rparr>"
  proof (cases r)
    case None
    then have new: "?k \<notin> stake_delegators_key ` set (stake_delegators (getDbContext m1))"
      using r by (simp add: lookup_None)
    define n where "n = \<lparr>sd_pool_address = addressToBuffer pool, sd_delegator = addressToBuffer a,
      total_delegated = x\<rparr>"
    have nk: "stake_delegators_key n = ?k" by (simp add: n_def stake_delegators_key_def)
    have "getDbContext m' = (getDbContext m1)\<lparr>stake_delegators := stake_delegators (getDbContext m1) @ [n]\<rparr>"
      using w None m2 by (auto simp: insertStakeDelegator_def action_simps result_simps table_simps n_def)
    then show ?thesis
      using ok1 dist new None r nk
      by (auto simp: ledger_ok_def ledger_of_def lookup_insert credit_def or_zero_def n_def fun_eq_iff)
  next
    case (Some old)
    define f :: "StakeDelegators \<Rightarrow> StakeDelegators"
      where "f = (\<lambda>r. r\<lparr>total_delegated := total_delegated old + x\<rparr>)"
    define rows' where "rows' = set_where (\<lambda>r. stake_delegators_key r = ?k) f
      (stake_delegators (getDbContext m1))"
    have kf: "stake_delegators_key (f r) = stake_delegators_key r" for r
      by (simp add: stake_delegators_key_def f_def)
    have keys: "map stake_delegators_key rows' = map stake_delegators_key (stake_delegators (getDbContext m1))"
      unfolding rows'_def by (rule map_key_set_where) (rule kf)
    have look: "lookup stake_delegators_key rows' k = (if k = ?k then Some (f old)
        else lookup stake_delegators_key (stake_delegators (getDbContext m1)) k)" for k
      unfolding rows'_def using lookup_update [of stake_delegators_key f, OF kf] Some r by auto
    have "getDbContext m' = (getDbContext m1)\<lparr>stake_delegators := rows'\<rparr>"
      using w Some m2 P
      by (auto simp: updateStakeDelegator_def action_simps result_simps table_simps rows'_def f_def)
    then show ?thesis
      using ok1 dist keys look Some r
      by (auto simp: ledger_ok_def ledger_of_def credit_def or_zero_def f_def fun_eq_iff)
  qed
  then show "ledger_ok t (getDbContext m')" and "ledger_of (getDbContext m') = (ledger_of (getDbContext m))
      \<lparr>delegated := credit ?k x (delegated (ledger_of (getDbContext m)))\<rparr>"
    using e by simp_all
qed

lemma stake_history_update_simps [simp]:
  "ledger_of (d\<lparr>stake_history := rows\<rparr>) = (ledger_of d)\<lparr>pool_stake := current_stake rows\<rparr>"
  "ledger_ok t (d\<lparr>stake_history := rows\<rparr>) \<longleftrightarrow>
     stake_rows_ok t rows \<and> distinct (map stake_delegators_key (stake_delegators d)) \<and>
     orders_ok (ordered_withdrawal_id_seq d) (ordered_withdrawal d)"
  by (simp_all add: ledger_of_def ledger_ok_def)

lemma replaceStakeRecord_ledger:
  assumes ok: "ledger_ok t (getDbContext m)" and "t \<le> b"
    and last: "last_record p (stake_history (getDbContext m)) = Some r"
    and run: "replaceStakeRecord r b p x m = (Inr u, m')"
  shows "ledger_ok b (getDbContext m')"
    and "ledger_of (getDbContext m') = (ledger_of (getDbContext m))
      \<lparr>pool_stake := (pool_stake (ledger_of (getDbContext m)))(p \<mapsto> x)\<rparr>"
proof -
  let ?d = "getDbContext m"
  let ?n = "\<lparr>from_block = b, to_block = b, stake_amount = x, sh_node = p\<rparr>"
  have rows: "stake_rows_ok t (stake_history ?d)" using ok by (simp add: ledger_ok_def)
  have c: "current_record p r (stake_history ?d)"
    using last_record_cases [OF rows, of p] last by (metis option.distinct(1) option.inject)
  have d': "getDbContext m' = ?d\<lparr>stake_history := close_record r (b - 1) (stake_history ?d) @ [?n]\<rparr>"
    and dist: "distinct (map stake_history_key (close_record r (b - 1) (stake_history ?d) @ [?n]))"
    using run
    by (auto simp: replaceStakeRecord_def updateStakeHistory_def insertStakeHistoryRecord_def
        close_record_def action_simps result_simps table_simps simp del: map_map)
  note rep = replace_record [OF rows \<open>t \<le> b\<close> c, of ?n, simplified]
  show "ledger_ok b (getDbContext m')"
    using ok rep(1) dist unfolding d' by (simp add: ledger_ok_def)
  show "ledger_of (getDbContext m') = (ledger_of ?d)
      \<lparr>pool_stake := (pool_stake (ledger_of ?d))(p \<mapsto> x)\<rparr>"
    using rep(2) dist unfolding d' by (simp add: ledger_of_def)
qed

lemma insertStakeHistoryRecord_ledger:
  assumes ok: "ledger_ok t (getDbContext m)" and "t \<le> b"
    and last: "last_record p (stake_history (getDbContext m)) = None"
    and run: "insertStakeHistoryRecord \<lparr>from_block = b, to_block = b, stake_amount = x, sh_node = p\<rparr> m =
       (Inr u, m')"
  shows "ledger_ok b (getDbContext m')"
    and "ledger_of (getDbContext m') = (ledger_of (getDbContext m))
      \<lparr>pool_stake := (pool_stake (ledger_of (getDbContext m)))(p \<mapsto> x)\<rparr>"
proof -
  let ?d = "getDbContext m"
  let ?n = "\<lparr>from_block = b, to_block = b, stake_amount = x, sh_node = p\<rparr>"
  have rows: "stake_rows_ok t (stake_history ?d)" using ok by (simp add: ledger_ok_def)
  have none: "sh_node q \<noteq> p" if "q \<in> set (stake_history ?d)" for q
    using last_record_cases [OF rows, of p] last that by (metis option.distinct(1))
  have d': "getDbContext m' = ?d\<lparr>stake_history := stake_history ?d @ [?n]\<rparr>"
    and new: "stake_history_key ?n \<notin> stake_history_key ` set (stake_history ?d)"
    using run by (auto simp: insertStakeHistoryRecord_def action_simps result_simps table_simps)
  have rest: "to_block q \<le> b \<and> (\<exists>r. current_record (sh_node q) r (stake_history ?d))"
    if "q \<in> set (stake_history ?d)" for q
    using stake_rows_okD(3,4) [OF rows that] \<open>t \<le> b\<close> by auto
  have dist: "distinct (map stake_history_key (stake_history ?d @ [?n]))"
    using new stake_rows_okD(2) [OF rows] by simp
  have o: "stake_rows_ok b (stake_history ?d @ [?n])"
    "current_stake (stake_history ?d @ [?n]) p = Some x"
    using open_record [OF dist, of p b] none rest by simp_all
  show "ledger_ok b (getDbContext m')" using ok o(1) unfolding d' by (simp add: ledger_ok_def)
  have "current_stake (stake_history ?d @ [?n]) q = current_stake (stake_history ?d) q" if "q \<noteq> p" for q
    by (rule current_stake_cong) (use that in simp)
  with o(2) have "current_stake (stake_history ?d @ [?n]) = (current_stake (stake_history ?d))(p \<mapsto> x)"
    by (intro ext) simp
  then show "ledger_of (getDbContext m') = (ledger_of ?d)
      \<lparr>pool_stake := (pool_stake (ledger_of ?d))(p \<mapsto> x)\<rparr>"
    unfolding d' by (simp add: ledger_of_def)
qed

lemma getLast_ledger:
  assumes "ledger_ok t (getDbContext m)" "getLastStakeHistoryRecord pool m = (Inr x, m')"
  shows "m' = m" "x = last_record (addressToBuffer pool) (stake_history (getDbContext m))"
    and "pool_stake (ledger_of (getDbContext m)) (addressToBuffer pool) = map_option stake_amount x"
    and "x = Some r \<Longrightarrow> sh_node r = addressToBuffer pool"
proof -
  have rows: "stake_rows_ok t (stake_history (getDbContext m))" using assms(1) by (simp add: ledger_ok_def)
  note l = getLastStakeHistoryRecord_ok [OF rows assms(2)]
  show "m' = m" "x = last_record (addressToBuffer pool) (stake_history (getDbContext m))" by (fact l)+
  show "pool_stake (ledger_of (getDbContext m)) (addressToBuffer pool) = map_option stake_amount x"
    using l by (simp add: ledger_of_def current_stake_last)
  show "sh_node r = addressToBuffer pool" if "x = Some r"
    using last_record_cases [OF rows, of "addressToBuffer pool"] l(1) that
      current_recordD(2) by (metis option.distinct(1) option.inject)
qed

section \<open>Withdrawal orders\<close>

abbreviation with_id :: "OrderedWithdrawal \<Rightarrow> OrderedWithdrawal \<Rightarrow> bool" where
  "with_id order \<equiv> \<lambda>r. ow_id r = ow_id order"

lemma find_open: "find (\<lambda>r. P r \<and> Q r) rows = find P (filter Q rows)"
  by (induction rows) auto

lemma open_order_lookup:
  "find (open_order e) rows =
   lookup order_key (open_orders rows) (addressToBuffer (poolAddress e), addressToBuffer (stakerAddress e))"
proof -
  have "open_order e = (\<lambda>r. order_key r = (addressToBuffer (poolAddress e),
      addressToBuffer (stakerAddress e)) \<and> claimed_on_block r = None)"
    by (auto simp: open_order_def order_key_def)
  then show ?thesis by (simp only: find_open)
qed

lemma with_id_iff:
  assumes "orders_ok seq rows" "order \<in> set rows" "q \<in> set rows"
  shows "ow_id q = ow_id order \<longleftrightarrow> q = order"
  using assms by (auto simp: orders_ok_def distinct_map inj_on_def)

lemma order_key_iff:
  assumes "orders_ok seq rows" "order \<in> set (open_orders rows)" "q \<in> set (open_orders rows)"
  shows "order_key q = order_key order \<longleftrightarrow> q = order"
  using assms unfolding orders_ok_def distinct_map inj_on_def by blast

text \<open>Rewriting an open order so that it stays open, or so that it is claimed.\<close>

lemma set_where_with_id:
  assumes "orders_ok seq rows" "order \<in> set rows"
  shows "set_where (with_id order) f rows = map (\<lambda>q. if q = order then f q else q) rows"
  by (rule map_cong) (use with_id_iff [OF assms] in auto)

lemma filter_map_one:
  assumes "Q (f x) = Q x"
  shows "filter Q (map (\<lambda>q. if q = x then f q else q) xs) = map (\<lambda>q. if q = x then f q else q) (filter Q xs)"
  using assms by (induction xs) auto

lemma filter_map_drop:
  assumes "\<not> Q (f x)"
  shows "filter Q (map (\<lambda>q. if q = x then f q else q) xs) = filter (\<lambda>q. q \<noteq> x) (filter Q xs)"
  using assms by (induction xs) auto

lemma order_amount_update:
  assumes ok: "orders_ok seq rows" and o: "order \<in> set (open_orders rows)"
    and f: "\<And>q. ow_id (f q) = ow_id q" "\<And>q. order_key (f q) = order_key q"
      "\<And>q. claimed_on_block (f q) = claimed_on_block q"
  shows "orders_ok seq (set_where (with_id order) f rows)"
    and "lookup order_key (open_orders (set_where (with_id order) f rows)) k =
      (if k = order_key order then Some (f order) else lookup order_key (open_orders rows) k)"
proof -
  let ?g = "\<lambda>q. if q = order then f q else q"
  have eq: "set_where (with_id order) f rows = map ?g rows"
    using set_where_with_id [OF ok] o by simp
  have op: "open_orders (map ?g rows) = map ?g (open_orders rows)"
    by (rule filter_map_one) (simp add: f(3))
  have op': "map ?g (open_orders rows) = set_where (\<lambda>q. order_key q = order_key order) f (open_orders rows)"
    by (rule map_cong) (use order_key_iff [OF ok o] in auto)
  have ids: "map ow_id (map ?g rows) = map ow_id rows" by (simp add: f(1))
  have keys: "map order_key (map ?g (open_orders rows)) = map order_key (open_orders rows)"
    by (simp add: f(2))
  have "list_all (\<lambda>r. ow_id r < seq) (map ?g rows)"
    using ok f(1) by (auto simp: orders_ok_def list_all_iff)
  then show "orders_ok seq (set_where (with_id order) f rows)"
    using ok unfolding eq orders_ok_def op ids keys by blast
  have "lookup order_key (open_orders rows) (order_key order) = Some order"
    using ok o by (intro lookup_unique) (auto simp: orders_ok_def)
  then show "lookup order_key (open_orders (set_where (with_id order) f rows)) k =
      (if k = order_key order then Some (f order) else lookup order_key (open_orders rows) k)"
    unfolding eq op op' lookup_update [of order_key f, OF f(2)] by auto
qed

lemma lookup_filter:
  "lookup key (filter (\<lambda>q. key q \<noteq> k') rows) k = (if k = k' then None else lookup key rows k)"
  by (induction rows) auto

lemma order_claim_update:
  assumes ok: "orders_ok seq rows" and o: "order \<in> set (open_orders rows)"
    and f: "\<And>q. ow_id (f q) = ow_id q" "claimed_on_block (f order) \<noteq> None"
  shows "orders_ok seq (set_where (with_id order) f rows)"
    and "lookup order_key (open_orders (set_where (with_id order) f rows)) k =
      (if k = order_key order then None else lookup order_key (open_orders rows) k)"
proof -
  let ?g = "\<lambda>q. if q = order then f q else q"
  have eq: "set_where (with_id order) f rows = map ?g rows"
    using set_where_with_id [OF ok] o by simp
  have op: "open_orders (map ?g rows) = filter (\<lambda>q. q \<noteq> order) (open_orders rows)"
    by (rule filter_map_drop) (simp add: f(2))
  have op': "\<dots> = filter (\<lambda>q. order_key q \<noteq> order_key order) (open_orders rows)"
    by (rule filter_cong) (use order_key_iff [OF ok o] in auto)
  have ids: "map ow_id (map ?g rows) = map ow_id rows" by (simp add: f(1))
  have "list_all (\<lambda>r. ow_id r < seq) (map ?g rows)"
    using ok f(1) by (auto simp: orders_ok_def list_all_iff)
  then show "orders_ok seq (set_where (with_id order) f rows)"
    using ok unfolding eq orders_ok_def op ids by (simp add: distinct_map_filter del: filter_filter)
  show "lookup order_key (open_orders (set_where (with_id order) f rows)) k =
      (if k = order_key order then None else lookup order_key (open_orders rows) k)"
    unfolding eq op op' by (rule lookup_filter)
qed

lemma order_insert:
  assumes "orders_ok seq rows" "ow_id n = seq" "claimed_on_block n = None"
    and "lookup order_key (open_orders rows) (order_key n) = None"
  shows "orders_ok (seq + 1) (rows @ [n])"
    and "lookup order_key (open_orders (rows @ [n])) k =
      (if k = order_key n then Some n else lookup order_key (open_orders rows) k)"
proof -
  have new: "order_key n \<notin> order_key ` set (open_orders rows)" using lookup_None [THEN iffD1, OF assms(4)] .
  show "orders_ok (seq + 1) (rows @ [n])"
    using assms(1-3) new by (fastforce simp: orders_ok_def list_all_iff)
  show "lookup order_key (open_orders (rows @ [n])) k =
      (if k = order_key n then Some n else lookup order_key (open_orders rows) k)"
    using lookup_insert [OF new, of k] assms(3) by simp
qed

lemma orders_update_simps [simp]:
  "ledger_of (d\<lparr>ordered_withdrawal := rows\<rparr>) =
     (ledger_of d)\<lparr>ordered := \<lambda>k. map_option ow_amount (lookup order_key (open_orders rows) k)\<rparr>"
  "ledger_of (d\<lparr>ordered_withdrawal_id_seq := i\<rparr>) = ledger_of d"
  "ledger_ok t (d\<lparr>ordered_withdrawal := rows\<rparr>) \<longleftrightarrow>
     stake_rows_ok t (stake_history d) \<and> distinct (map stake_delegators_key (stake_delegators d)) \<and>
     orders_ok (ordered_withdrawal_id_seq d) rows"
  by (simp_all add: ledger_of_def ledger_ok_def)

end
