(* ===== verification/Simulation.thy ===== *)
theory Simulation imports Manager begin

text \<open>
  The contract of a component that keeps an abstract state in the tables while operations
  arrive in the order of their blocks: a successful step keeps the integrity up to the
  operation's block, and changes the abstract state as the specification says. The client
  lemmas lift both to whole runs.
\<close>

locale timed_actions =
  fixes time :: "'op \<Rightarrow> int"
    and step :: "'op \<Rightarrow> unit action"
    and ok :: "int \<Rightarrow> manager \<Rightarrow> bool"
    and abstraction :: "manager \<Rightarrow> 'a"
    and astep :: "'op \<Rightarrow> 'a \<Rightarrow> 'a"
  assumes step_ok:
      "ok t m \<Longrightarrow> t \<le> time x \<Longrightarrow> step x m = (Inr (), m') \<Longrightarrow> ok (time x) m'"
    and step_abstraction:
      "ok t m \<Longrightarrow> t \<le> time x \<Longrightarrow> step x m = (Inr (), m') \<Longrightarrow>
       abstraction m' = astep x (abstraction m)"
begin

lemma run_ok:
  assumes "ok t m" "sorted (t # map time xs)" "forEach xs step m = (Inr (), m')"
  shows "ok (last (t # map time xs)) m'"
  using assms
proof (induction xs arbitrary: t m)
  case (Cons x xs)
  then obtain m1 where m1: "step x m = (Inr (), m1)" "forEach xs step m1 = (Inr (), m')"
    by (auto simp: action_simps)
  have "ok (time x) m1" using step_ok [OF Cons.prems(1) _ m1(1)] Cons.prems(2) by simp
  from Cons.IH [OF this _ m1(2)] show ?case using Cons.prems(2) by simp
qed (simp add: action_simps)

lemma run_abstraction:
  assumes "ok t m" "sorted (t # map time xs)" "forEach xs step m = (Inr (), m')"
  shows "abstraction m' = fold astep xs (abstraction m)"
  using assms
proof (induction xs arbitrary: t m)
  case (Cons x xs)
  then obtain m1 where m1: "step x m = (Inr (), m1)" "forEach xs step m1 = (Inr (), m')"
    by (auto simp: action_simps)
  have ok: "ok (time x) m1" using step_ok [OF Cons.prems(1) _ m1(1)] Cons.prems(2) by simp
  have "abstraction m1 = astep x (abstraction m)"
    using step_abstraction [OF Cons.prems(1) _ m1(1)] Cons.prems(2) by simp
  with Cons.IH [OF ok _ m1(2)] show ?case using Cons.prems(2) by simp
qed (simp add: action_simps)

text \<open>A property that every specified step keeps is kept by every run.\<close>

lemma run_invariant:
  assumes "ok t m" "sorted (t # map time xs)" "forEach xs step m = (Inr (), m')"
    and "P (abstraction m)" "\<And>x a. x \<in> set xs \<Longrightarrow> P a \<Longrightarrow> P (astep x a)"
  shows "P (abstraction m')"
proof -
  have "P (fold astep xs a)" if "P a" for a
    using that assms(5) by (induction xs arbitrary: a) auto
  then show ?thesis using run_abstraction [OF assms(1-3)] assms(4) by simp
qed

end

end
