(* ===== verification/Booking.thy ===== *)
theory Booking imports Ledger Simulation begin

text \<open>
  The visitor of src/src/eventsVisitor.ts books every event as the ledger demands: one lemma
  per visit method, each saying that a successful run keeps the tables' integrity up to the
  event's block and changes the ledger as \<open>book\<close> does.
\<close>

definition books :: "contract_event \<Rightarrow> unit action \<Rightarrow> bool" where
  "books e A \<longleftrightarrow> (\<forall>t m m'. ledger_ok t (getDbContext m) \<longrightarrow> t \<le> blockNumber e \<longrightarrow>
     A m = (Inr (), m') \<longrightarrow>
     ledger_ok (blockNumber e) (getDbContext m') \<and>
     ledger_of (getDbContext m') = book e (ledger_of (getDbContext m)))"

lemma booksI:
  assumes "\<And>t m m'. ledger_ok t (getDbContext m) \<Longrightarrow> t \<le> blockNumber e \<Longrightarrow> A m = (Inr (), m') \<Longrightarrow>
     ledger_ok (blockNumber e) (getDbContext m') \<and>
     ledger_of (getDbContext m') = book e (ledger_of (getDbContext m))"
  shows "books e A"
  using assms unfolding books_def by blast

lemma booksD:
  assumes "books e A" "ledger_ok t (getDbContext m)" "t \<le> blockNumber e" "A m = (Inr (), m')"
  shows "ledger_ok (blockNumber e) (getDbContext m')"
    and "ledger_of (getDbContext m') = book e (ledger_of (getDbContext m))"
  using assms unfolding books_def by blast+

lemma books_gather:
  assumes e: "e = GatherAbandonedStakesEvent n b t c p a"
  shows "books e (visitGatherAbandonedStakesEvent e)"
proof (rule booksI)
  fix t m m'
  assume ok: "ledger_ok t (getDbContext m)" and t: "t \<le> blockNumber e"
    and run: "visitGatherAbandonedStakesEvent e m = (Inr (), m')"
  obtain m1 rec m2 where m1: "getDbContext m1 = getDbContext m"
    and get: "getLastStakeHistoryRecord p m1 = (Inr rec, m2)"
    and rest: "(case rec of None \<Rightarrow> ret ()
       | Some r \<Rightarrow> replaceStakeRecord r b (addressToBuffer p) (stake_amount r - parseEther a)) m2 =
       (Inr (), m')"
    using run by (auto simp: visitGatherAbandonedStakesEvent_def andThen_Inr e
        dest!: insertStakeTransaction_Inr)
  have ok1: "ledger_ok t (getDbContext m1)" using ok m1 by simp
  note g = getLast_ledger [OF ok1 get]
  show "ledger_ok (blockNumber e) (getDbContext m') \<and>
      ledger_of (getDbContext m') = book e (ledger_of (getDbContext m))"
  proof (cases rec)
    case None
    then show ?thesis
      using rest g ok m1 t ledger_ok_mono [OF ok t] by (auto simp: ret_Inr e credit_known_def)
  next
    case (Some r)
    have lst: "last_record (addressToBuffer p) (stake_history (getDbContext m1)) = Some r"
      using g(2) Some by simp
    have t': "t \<le> b" using t e by simp
    have "replaceStakeRecord r b (addressToBuffer p) (stake_amount r - parseEther a) m1 = (Inr (), m')"
      using rest Some g(1) by simp
    from replaceStakeRecord_ledger [OF ok1 t' lst this] show ?thesis
      using g(3) Some m1 by (simp add: e credit_known_def)
  qed
qed

lemma books_stake_changed:
  assumes e: "e = StakeChangedEvent n b t p s ep a"
  shows "books e (visitStakeChangedEvent e)"
proof (rule booksI)
  fix t m m'
  assume ok: "ledger_ok t (getDbContext m)" and t: "t \<le> blockNumber e"
    and run: "visitStakeChangedEvent e m = (Inr (), m')"
  have sel: "poolAddress e = p" "stakerAddress e = s" "amount e = a" "blockNumber e = b"
    by (simp_all add: e)
  let ?x = "getStakeChangeAmount e" and ?l = "ledger_of (getDbContext m)"
  have t': "t \<le> b" using t e by simp
  have bk: "book e ?l = ?l
      \<lparr>delegated := (if p \<noteq> s then credit (addressToBuffer p, addressToBuffer s) ?x (delegated ?l)
         else delegated ?l),
       pool_stake := (case pool_stake ?l (addressToBuffer p) of
           None \<Rightarrow> (pool_stake ?l)(addressToBuffer p \<mapsto> parseEther a)
         | Some v \<Rightarrow> (pool_stake ?l)(addressToBuffer p \<mapsto> v + ?x))\<rparr>"
    unfolding e book.simps Let_def by (rule refl)
  obtain m1 m2 rec m3 where m1: "getDbContext m1 = getDbContext m"
    and del: "(if p \<noteq> s then andThen (insertDelegateStaker [s]) (\<lambda>_. saveDelegatedStake p s ?x)
       else ret ()) m1 = (Inr (), m2)"
    and get: "getLastStakeHistoryRecord p m2 = (Inr rec, m3)"
    and rest: "(case rec of
         None \<Rightarrow> insertStakeHistoryRecord
           \<lparr>from_block = b, to_block = b, stake_amount = parseEther a, sh_node = addressToBuffer p\<rparr>
       | Some r \<Rightarrow> replaceStakeRecord r b (sh_node r) (stake_amount r + ?x)) m3 = (Inr (), m')"
    using run unfolding visitStakeChangedEvent_def isDelegatorStake_def Let_def sel
    by (auto simp: andThen_Inr dest!: insertStakeTransaction_Inr)
  have ok1: "ledger_ok t (getDbContext m1)" using ok m1 by simp
  have d: "ledger_ok t (getDbContext m2) \<and> ledger_of (getDbContext m2) =
      ?l\<lparr>delegated := (if p \<noteq> s then credit (addressToBuffer p, addressToBuffer s) ?x (delegated ?l)
         else delegated ?l)\<rparr>"
  proof (cases "p \<noteq> s")
    case True
    with del obtain m1' where i: "insertDelegateStaker [s] m1 = (Inr (), m1')"
      and sv: "saveDelegatedStake p s ?x m1' = (Inr (), m2)"
      by (auto simp: andThen_Inr)
    have ok1': "ledger_ok t (getDbContext m1')" and l1': "ledger_of (getDbContext m1') = ?l"
      using ok1 m1 i by (auto elim!: insertDelegateStaker_Inr)
    show ?thesis using saveDelegatedStake_ledger [OF ok1' sv] True by (simp add: l1')
  qed (use del ok1 m1 in \<open>auto simp: ret_Inr\<close>)
  then have ok2: "ledger_ok t (getDbContext m2)" ..
  note g = getLast_ledger [OF ok2 get]
  show "ledger_ok (blockNumber e) (getDbContext m') \<and>
      ledger_of (getDbContext m') = book e (ledger_of (getDbContext m))"
  proof (cases rec)
    case None
    have "insertStakeHistoryRecord
        \<lparr>from_block = b, to_block = b, stake_amount = parseEther a, sh_node = addressToBuffer p\<rparr> m2 =
        (Inr (), m')" using rest None g(1) by simp
    from insertStakeHistoryRecord_ledger [OF ok2 t' _ this] show ?thesis
      using g(2)[symmetric] g(3) None conjunct2 [OF d] unfolding bk by (simp add: sel)
  next
    case (Some r)
    have r: "sh_node r = addressToBuffer p" using g(4) Some by simp
    have "replaceStakeRecord r b (addressToBuffer p) (stake_amount r + ?x) m2 = (Inr (), m')"
      using rest Some g(1) r by simp
    from replaceStakeRecord_ledger [OF ok2 t' _ this] show ?thesis
      using g(2)[symmetric] g(3) Some conjunct2 [OF d] unfolding bk by (simp add: sel)
  qed
qed

lemma delegated_if:
  assumes ok: "ledger_ok t (getDbContext m)"
    and run: "(if c then saveDelegatedStake pool a x else ret ()) m = (Inr u, m')"
  shows "ledger_ok t (getDbContext m')"
    and "ledger_of (getDbContext m') = (ledger_of (getDbContext m))
      \<lparr>delegated := (if c then credit (addressToBuffer pool, addressToBuffer a) x
         (delegated (ledger_of (getDbContext m))) else delegated (ledger_of (getDbContext m)))\<rparr>"
  using assms saveDelegatedStake_ledger [OF ok, of pool a x u m']
  by (cases c; simp add: ret_Inr)+

lemma books_moved:
  assumes e: "e = MovedStakeEvent n b t p q s ep a"
  shows "books e (visitMovedStakeEvent e)"
proof (rule booksI)
  fix t m m'
  assume ok: "ledger_ok t (getDbContext m)" and t: "t \<le> blockNumber e"
    and run: "visitMovedStakeEvent e m = (Inr (), m')"
  have sel: "fromPoolAddress e = p" "toPoolAddress e = q" "stakerAddress e = s" "amount e = a"
    "blockNumber e = b" by (simp_all add: e)
  let ?x = "parseEther a" and ?l = "ledger_of (getDbContext m)"
  let ?from = "addressToBuffer p" and ?to = "addressToBuffer q"
  have t': "t \<le> b" using t e by simp
  have bk: "book e ?l = (if pool_stake ?l ?from = None then ?l
      else ?l\<lparr>pool_stake := credit ?to ?x (credit_known ?from (- ?x) (pool_stake ?l)),
             delegated :=
               (let d1 = (if p \<noteq> s then credit (?from, addressToBuffer s) (- ?x) (delegated ?l)
                          else delegated ?l)
                in if q \<noteq> s then credit (?to, addressToBuffer s) ?x d1 else d1)\<rparr>)"
    unfolding e book.simps Let_def by (rule refl)
  obtain m1 rec m2 where m1: "getDbContext m1 = getDbContext m"
    and get: "getLastStakeHistoryRecord p m1 = (Inr rec, m2)"
    and rest: "(case rec of None \<Rightarrow> ret ()
       | Some fr \<Rightarrow> andThen (replaceStakeRecord fr b (sh_node fr) (stake_amount fr - ?x))
           (\<lambda>_. andThen (getLastStakeHistoryRecord q)
           (\<lambda>toRec. andThen (case toRec of
               Some tr \<Rightarrow> replaceStakeRecord tr b ?to (stake_amount tr + ?x)
             | None \<Rightarrow> insertStakeHistoryRecord
                 \<lparr>from_block = b, to_block = b, stake_amount = 0 + ?x, sh_node = ?to\<rparr>)
           (\<lambda>_. andThen (if p \<noteq> s then saveDelegatedStake p s (- ?x) else ret ())
           (\<lambda>_. if q \<noteq> s then saveDelegatedStake q s ?x else ret ()))))) m2 = (Inr (), m')"
    using run unfolding visitMovedStakeEvent_def Let_def sel
    by (auto simp: andThen_Inr dest!: insertStakeTransaction_Inr)
  have ok1: "ledger_ok t (getDbContext m1)" using ok m1 by simp
  note g = getLast_ledger [OF ok1 get]
  show "ledger_ok (blockNumber e) (getDbContext m') \<and>
      ledger_of (getDbContext m') = book e (ledger_of (getDbContext m))"
  proof (cases rec)
    case None
    then show ?thesis
      using rest g(1,3) m1 ledger_ok_mono [OF ok t] unfolding bk by (auto simp: ret_Inr)
  next
    case (Some fr)
    have fr: "sh_node fr = ?from" using g(4) Some by simp
    have ps: "pool_stake ?l ?from = Some (stake_amount fr)" using g(3) Some m1 by simp
    obtain m3 m4 m5 m6 toRec where
      rep: "replaceStakeRecord fr b ?from (stake_amount fr - ?x) m1 = (Inr (), m3)"
      and get2: "getLastStakeHistoryRecord q m3 = (Inr toRec, m4)"
      and rep2: "(case toRec of
               Some tr \<Rightarrow> replaceStakeRecord tr b ?to (stake_amount tr + ?x)
             | None \<Rightarrow> insertStakeHistoryRecord
                 \<lparr>from_block = b, to_block = b, stake_amount = 0 + ?x, sh_node = ?to\<rparr>) m4 = (Inr (), m5)"
      and s1: "(if p \<noteq> s then saveDelegatedStake p s (- ?x) else ret ()) m5 = (Inr (), m6)"
      and s2: "(if q \<noteq> s then saveDelegatedStake q s ?x else ret ()) m6 = (Inr (), m')"
      using rest Some g(1) fr by (auto simp: andThen_Inr)
    note r1 = replaceStakeRecord_ledger [OF ok1 t' g(2)[symmetric, unfolded Some] rep, unfolded m1]
    note g2 = getLast_ledger [OF r1(1) get2]
    have ck: "(pool_stake ?l)(?from \<mapsto> stake_amount fr - ?x) = credit_known ?from (- ?x) (pool_stake ?l)"
      by (simp add: credit_known_def ps)
    have r2: "ledger_ok b (getDbContext m5) \<and> ledger_of (getDbContext m5) =
        ?l\<lparr>pool_stake := credit ?to ?x (credit_known ?from (- ?x) (pool_stake ?l))\<rparr>"
    proof (cases toRec)
      case None
      have "insertStakeHistoryRecord
          \<lparr>from_block = b, to_block = b, stake_amount = ?x, sh_node = ?to\<rparr> m3 = (Inr (), m5)"
        using rep2 None g2(1) by simp
      from insertStakeHistoryRecord_ledger [OF r1(1) order_refl g2(2)[symmetric, unfolded None] this]
      show ?thesis using g2(3) None by (simp add: r1(2) ck credit_def or_zero_def)
    next
      case (Some tr)
      have "replaceStakeRecord tr b ?to (stake_amount tr + ?x) m3 = (Inr (), m5)"
        using rep2 Some g2(1) by simp
      from replaceStakeRecord_ledger [OF r1(1) order_refl g2(2)[symmetric, unfolded Some] this]
      show ?thesis using g2(3) Some by (simp add: r1(2) ck credit_def or_zero_def)
    qed
    note d1 = delegated_if [OF conjunct1 [OF r2] s1]
    note d2 = delegated_if [OF d1(1) s2]
    show ?thesis
      using d2 unfolding bk d1(2) conjunct2 [OF r2] by (simp add: ps sel)
  qed
qed

lemma books_ordered:
  assumes e: "e = OrderedWithdrawalEvent n b t p s ep a"
  shows "books e (visitOrderedWithdrawalEvent e)"
proof (rule booksI)
  fix t m m'
  assume ok: "ledger_ok t (getDbContext m)" and t: "t \<le> blockNumber e"
    and run: "visitOrderedWithdrawalEvent e m = (Inr (), m')"
  have sel: "poolAddress e = p" "stakerAddress e = s" "amount e = a" "blockNumber e = b"
    by (simp_all add: e)
  let ?d = "getDbContext m" and ?k = "(addressToBuffer p, addressToBuffer s)"
  let ?rows = "ordered_withdrawal ?d" and ?x = "parseEther a"
  obtain m1 old m2 where m1: "getDbContext m1 = getDbContext m"
    and get: "getOrderWithdrawalEvent (open_order e) m1 = (Inr old, m2)"
    and rest: "(case old of
         None \<Rightarrow> insertOrderWithdrawalEvent b (addressToBuffer p) (addressToBuffer s) (epoch e) ?x
       | Some order \<Rightarrow> updateOrderWithdrawalEvent (with_id order)
           (\<lambda>r. r\<lparr>ow_staking_epoch := epoch e, ow_block_number := b, ow_amount := ow_amount order + ?x\<rparr>))
       m2 = (Inr (), m')"
    using run unfolding visitOrderedWithdrawalEvent_def Let_def sel
    by (auto simp: andThen_Inr dest!: insertStakeTransaction_Inr)
  have m2: "m2 = m1" and look: "lookup order_key (open_orders ?rows) ?k = old"
    using get by (auto simp: getOrderWithdrawalEvent_def action_simps m1 open_order_lookup sel
        dest!: find_one_find)
  have okt: "ledger_ok b ?d" using ledger_ok_mono [OF ok t] sel by simp
  then have oo: "orders_ok (ordered_withdrawal_id_seq ?d) ?rows" by (simp add: ledger_ok_def)
  have amt: "ordered (ledger_of ?d) ?k = map_option ow_amount old"
    using look by (simp add: ledger_of_def)
  show "ledger_ok (blockNumber e) (getDbContext m') \<and>
      ledger_of (getDbContext m') = book e (ledger_of (getDbContext m))"
  proof (cases old)
    case None
    define new where "new = \<lparr>ow_id = ordered_withdrawal_id_seq ?d, ow_amount = ?x, ow_block_number = b,
      ow_staking_epoch = epoch e, from_pool_stakingAddress = addressToBuffer p,
      ow_staker = addressToBuffer s, claimed_on_block = None\<rparr>"
    have new: "ow_id new = ordered_withdrawal_id_seq ?d" "claimed_on_block new = None"
      "order_key new = ?k" "ow_amount new = ?x" by (simp_all add: new_def order_key_def)
    have d': "getDbContext m' = ?d\<lparr>ordered_withdrawal := ?rows @ [new],
        ordered_withdrawal_id_seq := ordered_withdrawal_id_seq ?d + 1\<rparr>"
      using rest None m2 m1
      by (auto simp: insertOrderWithdrawalEvent_def action_simps result_simps table_simps new_def)
    have "lookup order_key (open_orders ?rows) (order_key new) = None" using look None new by simp
    note ins = order_insert [OF oo new(1,2) this]
    have "ledger_ok b (getDbContext m')" using okt ins(1) unfolding d' by (simp add: ledger_ok_def)
    moreover have "ordered (ledger_of (getDbContext m')) = credit ?k ?x (ordered (ledger_of ?d))"
      using amt None unfolding d'
      by (auto simp: ledger_of_def ins(2) new credit_def or_zero_def simp del: filter_append)
    ultimately show ?thesis unfolding d' by (simp add: e ledger_of_def sel)
  next
    case (Some order)
    define f :: "OrderedWithdrawal \<Rightarrow> OrderedWithdrawal" where
      "f = (\<lambda>r. r\<lparr>ow_staking_epoch := epoch e, ow_block_number := b, ow_amount := ow_amount order + ?x\<rparr>)"
    have f: "ow_id (f q) = ow_id q" "order_key (f q) = order_key q"
      "claimed_on_block (f q) = claimed_on_block q" for q by (simp_all add: f_def order_key_def)
    have o: "order \<in> set (open_orders ?rows)" and k: "order_key order = ?k"
      using lookup_SomeD [OF look [unfolded Some]] by simp_all
    have d': "getDbContext m' = ?d\<lparr>ordered_withdrawal := set_where (with_id order) f ?rows\<rparr>"
      using rest Some m2 m1
      by (auto simp: updateOrderWithdrawalEvent_def action_simps result_simps table_simps f_def)
    note upd = order_amount_update [OF oo o f]
    have "ledger_ok b (getDbContext m')" using okt upd(1) unfolding d' by (simp add: ledger_ok_def)
    moreover have "ordered (ledger_of (getDbContext m')) = credit ?k ?x (ordered (ledger_of ?d))"
      using amt Some k unfolding d'
      by (auto simp: ledger_of_def upd(2) f_def credit_def or_zero_def)
    ultimately show ?thesis unfolding d' by (simp add: e ledger_of_def sel)
  qed
qed

lemma books_claimed:
  assumes e: "e = ClaimedOrderedWithdrawalEvent n b t p s ep a"
  shows "books e (visitClaimedOrderedWithdrawalEvent e)"
proof (rule booksI)
  fix t m m'
  assume ok: "ledger_ok t (getDbContext m)" and t: "t \<le> blockNumber e"
    and run: "visitClaimedOrderedWithdrawalEvent e m = (Inr (), m')"
  have sel: "poolAddress e = p" "stakerAddress e = s" "amount e = a" "blockNumber e = b"
    by (simp_all add: e)
  let ?d = "getDbContext m" and ?k = "(addressToBuffer p, addressToBuffer s)"
  let ?rows = "ordered_withdrawal ?d" and ?l = "ledger_of (getDbContext m)"
  have t': "t \<le> b" using t sel by simp
  have bk: "book e ?l = (if ordered ?l ?k = None \<or> pool_stake ?l (addressToBuffer p) = None then ?l
      else ?l\<lparr>ordered := (ordered ?l)(?k := None),
              pool_stake := credit_known (addressToBuffer p) (- parseEther a) (pool_stake ?l)\<rparr>)"
    unfolding e book.simps Let_def fst_conv by (rule refl)
  obtain m1 old m2 rec m3 where m1: "getDbContext m1 = getDbContext m"
    and get: "getOrderWithdrawalEvent (open_order e) m1 = (Inr old, m2)"
    and last: "getLastStakeHistoryRecord p m2 = (Inr rec, m3)"
    and rest: "(case (old, rec) of
         (Some order, Some r) \<Rightarrow>
           andThen (updateOrderWithdrawalEvent (with_id order) (\<lambda>r. r\<lparr>claimed_on_block := Some b\<rparr>))
           (\<lambda>_. replaceStakeRecord r b (sh_node r) (stake_amount r - parseEther a))
       | _ \<Rightarrow> ret ()) m3 = (Inr (), m')"
    using run unfolding visitClaimedOrderedWithdrawalEvent_def Let_def sel
    by (auto simp: andThen_Inr dest!: insertStakeTransaction_Inr)
  have m2: "m2 = m1" and look: "lookup order_key (open_orders ?rows) ?k = old"
    using get by (auto simp: getOrderWithdrawalEvent_def action_simps m1 open_order_lookup sel
        dest!: find_one_find)
  have okt: "ledger_ok b ?d" using ledger_ok_mono [OF ok t] sel by simp
  have oo: "orders_ok (ordered_withdrawal_id_seq ?d) ?rows" using ok by (simp add: ledger_ok_def)
  have ord: "ordered ?l ?k = map_option ow_amount old" using look by (simp add: ledger_of_def)
  have ok2: "ledger_ok t (getDbContext m2)" using ok m1 m2 by simp
  note g = getLast_ledger [OF ok2 last]
  have ps: "pool_stake ?l (addressToBuffer p) = map_option stake_amount rec" using g(3) m1 m2 by simp
  show "ledger_ok (blockNumber e) (getDbContext m') \<and>
      ledger_of (getDbContext m') = book e (ledger_of (getDbContext m))"
  proof (cases "old = None \<or> rec = None")
    case True
    then have "m' = m2" using rest g(1) by (cases old; cases rec) (auto simp: ret_Inr)
    then show ?thesis using True okt m1 m2 unfolding bk ord ps by (auto simp: sel)
  next
    case False
    then obtain order r where old: "old = Some order" and r: "rec = Some r" by auto
    have o: "order \<in> set (open_orders ?rows)" and k: "order_key order = ?k"
      using lookup_SomeD [OF look [unfolded old]] by simp_all
    define f :: "OrderedWithdrawal \<Rightarrow> OrderedWithdrawal" where
      "f = (\<lambda>q. q\<lparr>claimed_on_block := Some b\<rparr>)"
    have f: "ow_id (f q) = ow_id q" "claimed_on_block (f order) \<noteq> None" for q by (simp_all add: f_def)
    have node: "sh_node r = addressToBuffer p" using g(4) r by simp
    obtain m4 where up: "updateOrderWithdrawalEvent (with_id order) f m2 = (Inr (), m4)"
      and rep: "replaceStakeRecord r b (addressToBuffer p) (stake_amount r - parseEther a) m4 = (Inr (), m')"
      using rest old r node g(1) by (auto simp: andThen_Inr f_def)
    have d4: "getDbContext m4 = ?d\<lparr>ordered_withdrawal := set_where (with_id order) f ?rows\<rparr>"
      using up m2 m1
      by (auto simp: updateOrderWithdrawalEvent_def action_simps result_simps table_simps)
    note upd = order_claim_update [OF oo o f]
    have ok4: "ledger_ok t (getDbContext m4)" using ok upd(1) unfolding d4 by (simp add: ledger_ok_def)
    have "ordered (ledger_of (getDbContext m4)) = (ordered ?l)(?k := None)"
      unfolding d4 by (auto simp: ledger_of_def upd(2) k)
    then have l4: "ledger_of (getDbContext m4) = ?l\<lparr>ordered := (ordered ?l)(?k := None)\<rparr>"
      unfolding d4 by (simp add: ledger_of_def)
    have last4: "last_record (addressToBuffer p) (stake_history (getDbContext m4)) = Some r"
      using g(2) r m1 m2 unfolding d4 by simp
    show ?thesis
      using replaceStakeRecord_ledger [OF ok4 t' last4 rep] old r ord ps unfolding bk l4
      by (simp add: sel credit_known_def)
  qed
qed

section \<open>The other events\<close>

lemma getDbContext_names [simp]:
  "getDbContext (dmd_names_update f m) = getDbContext m"
  "getDbContext (dmd_name_events_update g m) = getDbContext m"
  by (simp_all add: getDbContext_def split: option.splits)

lemma upsertDmdName_context: "upsertDmdName n m = (Inr u, m') \<Longrightarrow> getDbContext m' = getDbContext m"
  by (auto simp: upsertDmdName_def)

lemma insertDmdNameEvent_context:
  "insertDmdNameEvent n m = (Inr u, m') \<Longrightarrow> getDbContext m' = getDbContext m"
  by (auto simp: insertDmdNameEvent_def split: if_splits)

lemma name_pair_context:
  "andThen (upsertDmdName n) (\<lambda>_. insertDmdNameEvent v) m = (Inr u, m') \<Longrightarrow>
   getDbContext m' = getDbContext m"
  using upsertDmdName_context insertDmdNameEvent_context by (fastforce simp: andThen_Inr)

lemma name_visit_context:
  "visitNameRegisteredEvent e m = (Inr u, m') \<Longrightarrow> getDbContext m' = getDbContext m"
  "visitNameActivatedEvent e m = (Inr u, m') \<Longrightarrow> getDbContext m' = getDbContext m"
  "visitNameDeactivatedEvent e m = (Inr u, m') \<Longrightarrow> getDbContext m' = getDbContext m"
  "visitNameRenewedEvent e m = (Inr u, m') \<Longrightarrow> getDbContext m' = getDbContext m"
  "visitNameBlockedSetEvent e m = (Inr u, m') \<Longrightarrow> getDbContext m' = getDbContext m"
  "visitDmdNameTransferEvent e m = (Inr u, m') \<Longrightarrow> getDbContext m' = getDbContext m"
  unfolding visitNameRegisteredEvent_def visitNameActivatedEvent_def visitNameDeactivatedEvent_def
    visitNameRenewedEvent_def visitNameBlockedSetEvent_def visitDmdNameTransferEvent_def Let_def
  by (erule name_pair_context)+

lemma books_same:
  assumes "\<And>m m'. A m = (Inr (), m') \<Longrightarrow> ledger_of (getDbContext m') = ledger_of (getDbContext m) \<and>
      (\<forall>t. ledger_ok t (getDbContext m') = ledger_ok t (getDbContext m))"
    and "\<And>l. book e l = l"
  shows "books e A"
  using assms ledger_ok_mono by (intro booksI) fastforce

lemma books_availability: "books (AvailabilityEvent n b t p a) (visitAvailabilityEvents e)"
  by (rule books_same)
    (auto simp: visitAvailabilityEvents_def insertAvailabilityEvent_def action_simps result_simps
      ledger_of_def ledger_ok_def)

lemma books_name:
  assumes "\<And>m m'. A m = (Inr (), m') \<Longrightarrow> getDbContext m' = getDbContext m" "\<And>l. book e l = l"
  shows "books e A"
  by (rule books_same) (use assms in auto)

lemma accept_books: "books e (accept e)"
proof (cases e)
  case (StakeChangedEvent n b t p s ep a)
  then show ?thesis using books_stake_changed [OF StakeChangedEvent] by simp
next
  case (MovedStakeEvent n b t p q s ep a)
  then show ?thesis using books_moved [OF MovedStakeEvent] by simp
next
  case (OrderedWithdrawalEvent n b t p s ep a)
  then show ?thesis using books_ordered [OF OrderedWithdrawalEvent] by simp
next
  case (ClaimedOrderedWithdrawalEvent n b t p s ep a)
  then show ?thesis using books_claimed [OF ClaimedOrderedWithdrawalEvent] by simp
next
  case (GatherAbandonedStakesEvent n b t c p a)
  then show ?thesis using books_gather [OF GatherAbandonedStakesEvent] by simp
next
  case (AvailabilityEvent n b t p a)
  then show ?thesis using books_availability by simp
qed (simp_all, (rule books_name, erule name_visit_context, simp)+)

section \<open>Runs of events\<close>

interpretation stake_ledger: timed_actions blockNumber accept
  "\<lambda>t m. ledger_ok t (getDbContext m)" "\<lambda>m. ledger_of (getDbContext m)" book
  by unfold_locales (blast dest: booksD [OF accept_books])+

text \<open>The stake that a ledger records for a set of pools.\<close>

definition total_stake :: "buffer set \<Rightarrow> ledger \<Rightarrow> BigNumber" where
  "total_stake pools l = (\<Sum>p\<in>pools. or_zero (pool_stake l p))"

lemma total_stake_upd:
  assumes "finite P" "p \<in> P"
  shows "(\<Sum>q\<in>P. or_zero ((f(p \<mapsto> v)) q)) = (\<Sum>q\<in>P. or_zero (f q)) + v - or_zero (f p)"
proof -
  have "(\<Sum>q\<in>P. or_zero ((f(p \<mapsto> v)) q)) = v + (\<Sum>q\<in>P - {p}. or_zero ((f(p \<mapsto> v)) q))"
    using assms by (simp add: sum.remove or_zero_def)
  also have "(\<Sum>q\<in>P - {p}. or_zero ((f(p \<mapsto> v)) q)) = (\<Sum>q\<in>P - {p}. or_zero (f q))"
    by (rule sum.cong) auto
  also have "\<dots> = (\<Sum>q\<in>P. or_zero (f q)) - or_zero (f p)"
    using assms by (simp add: sum_diff1)
  finally show ?thesis by simp
qed

lemma total_stake_credit:
  "finite P \<Longrightarrow> p \<in> P \<Longrightarrow>
   (\<Sum>q\<in>P. or_zero (credit p x f q)) = (\<Sum>q\<in>P. or_zero (f q)) + x"
  unfolding credit_def by (subst total_stake_upd) (simp_all add: or_zero_def)

lemma total_stake_credit_known:
  "finite P \<Longrightarrow> p \<in> P \<Longrightarrow> f p \<noteq> None \<Longrightarrow>
   (\<Sum>q\<in>P. or_zero (credit_known p x f q)) = (\<Sum>q\<in>P. or_zero (f q)) + x"
  using total_stake_upd [of P p f] by (auto simp: credit_known_def or_zero_def fun_upd_def)

end
