(* ===== verification/StakeEvents.thy ===== *)
theory StakeEvents imports Booking begin

text \<open>
  When a stake event is booked at all: every event of a pool's first two in a block is, and
  the third violates the primary key of \<open>stake_history\<close>, because closing the record of the
  block for the second time produces the row \<open>(b, b - 1)\<close> again.
\<close>

lemma execute_success:
  "usable m \<Longrightarrow> s (getDbContext m) = Inr d \<Longrightarrow> execute s m = (Inr (), set_context d m)"
  by (simp add: execute_Inr)

lemma read_success:
  "usable m \<Longrightarrow> s (getDbContext m) = Inr x \<Longrightarrow> read s m = (Inr x, m)"
  by (simp add: read_Inr)

lemma andThen_success: "A m = (Inr x, m1) \<Longrightarrow> andThen A f m = f x m1"
  by (simp add: andThen_def)

lemma getLast_success:
  assumes "stake_rows_ok t (stake_history (getDbContext m))" "usable m"
  shows "getLastStakeHistoryRecord pool m =
    (Inr (last_record (addressToBuffer pool) (stake_history (getDbContext m))), m)"
proof -
  let ?rows = "stake_history (getDbContext m)" and ?p = "addressToBuffer pool"
  have "\<exists>x m'. getLastStakeHistoryRecord pool m = (Inr x, m')"
  proof (rule last_record_cases [OF assms(1), of ?p])
    assume n: "\<And>q. q \<in> set ?rows \<Longrightarrow> sh_node q \<noteq> ?p"
    then show ?thesis using assms(2) last_stake_rows_none [of ?rows ?p]
      by (simp add: getLastStakeHistoryRecord_def andThen_Inr read_Inr ret_Inr)
  next
    fix r assume c: "current_record ?p r ?rows"
    have f: "find_one ''stake_history'' (\<lambda>q. from_block q = from_block r \<and> to_block q = to_block r \<and>
          stake_amount q = stake_amount r \<and> sh_node q = ?p) ?rows = Inr (Some r)"
      by (rule find_one_by_key [where key = stake_history_key])
        (use current_recordD [OF c] stake_rows_okD(2) [OF assms(1)] in
          \<open>auto simp: stake_history_key_def\<close>)
    show ?thesis
      using assms(2) last_stake_rows_current [OF c stake_rows_okD(1) [OF assms(1)]] f
      by (simp add: getLastStakeHistoryRecord_def andThen_Inr read_Inr)
  qed
  then show ?thesis using getLastStakeHistoryRecord_ok [OF assms(1)] by metis
qed

lemma distinct_map_replace:
  assumes "distinct (map key rows)" "r \<in> set rows"
  shows "distinct (map (\<lambda>q. if q = r then k' else key q) rows) \<longleftrightarrow> k' \<notin> key ` (set rows - {r})"
  using assms
proof (induction rows)
  case (Cons a rows)
  show ?case
  proof (cases "a = r")
    case True
    then have r: "r \<notin> set rows" using Cons.prems(1) by auto
    then have eq: "map (\<lambda>q. if q = r then k' else key q) rows = map key rows"
      by (intro map_cong) auto
    have "set (a # rows) - {r} = set rows" using True r by auto
    then show ?thesis using True Cons.prems(1) by (simp del: map_eq_conv add: eq)
  next
    case False
    then have r: "r \<in> set rows" using Cons.prems(2) by simp
    have im: "(\<lambda>q. if q = r then k' else key q) ` set rows = insert k' (key ` (set rows - {r}))"
      using r by auto
    have ka: "key a \<notin> key ` (set rows - {r})" using Cons.prems(1) by auto
    have "set (a # rows) - {r} = insert a (set rows - {r})" using False by auto
    then show ?thesis using Cons.IH r Cons.prems(1) False ka im by auto
  qed
qed simp

text \<open>The key that closing the record at block \<open>b - 1\<close> produces is taken, or it is not.\<close>

lemma close_record_distinct:
  assumes ok: "stake_rows_ok t rows" and c: "current_record p r rows" and "t \<le> b"
  shows "distinct (map stake_history_key (close_record r (b - 1) rows)) \<longleftrightarrow>
         (from_block r, b - 1, p) \<notin> stake_history_key ` (set rows - {r})"
proof -
  note cr = current_recordD [OF c] and d = stake_rows_okD(1,2) [OF ok]
  let ?g = "\<lambda>q. if q = r then q\<lparr>to_block := b - 1\<rparr> else q"
  have keys: "map stake_history_key (close_record r (b - 1) rows) =
      map (\<lambda>q. if q = r then (from_block r, b - 1, p) else stake_history_key q) rows"
    unfolding close_record_eq [OF d(2) cr(1)] using cr(2)
    by (auto simp: stake_history_key_def)
  show ?thesis unfolding keys by (rule distinct_map_replace [OF d(2) cr(1)])
qed

lemma replaceStakeRecord_success:
  assumes ok: "stake_rows_ok t (stake_history (getDbContext m))" and "t \<le> b" and u: "usable m"
    and c: "current_record p r (stake_history (getDbContext m))"
    and free: "(from_block r, b - 1, p) \<notin> stake_history_key ` (set (stake_history (getDbContext m)) - {r})"
    and fk: "header_exists (getDbContext m) (from_block r)" "header_exists (getDbContext m) (b - 1)"
      "header_exists (getDbContext m) b" "node_exists (getDbContext m) p"
  shows "\<exists>m'. replaceStakeRecord r b p x m = (Inr (), m')"
proof -
  let ?d = "getDbContext m" and ?rows = "stake_history (getDbContext m)"
  let ?closed = "close_record r (b - 1) ?rows"
  let ?n = "\<lparr>from_block = b, to_block = b, stake_amount = x, sh_node = p\<rparr>"
  note cr = current_recordD [OF c]
  have dist: "distinct (map stake_history_key ?closed)"
    using close_record_distinct [OF ok c \<open>t \<le> b\<close>] free by blast
  have upd: "update_rows ''stake_history'' stake_history_key (stake_history_fk ?d)
      (\<lambda>q. from_block q = from_block r \<and> to_block q = to_block r \<and> sh_node q = sh_node r)
      (\<lambda>q. q\<lparr>to_block := b - 1\<rparr>) ?rows = Inr ?closed"
    unfolding update_rows_Inr using dist fk cr(2)
    by (auto simp: close_record_def stake_history_fk_def simp del: map_map)
  have new: "stake_history_key ?n \<notin> stake_history_key ` set ?closed"
  proof
    assume "stake_history_key ?n \<in> stake_history_key ` set ?closed"
    then obtain q where q: "q \<in> set ?closed" "from_block q = b" "to_block q = b" "sh_node q = p"
      by (auto simp: stake_history_key_def)
    then obtain q0 where q0: "q0 \<in> set ?rows" "q = (if q0 = r then q0\<lparr>to_block := b - 1\<rparr> else q0)"
      unfolding close_record_eq [OF stake_rows_okD(2) [OF ok] cr(1)] by auto
    have "q0 \<noteq> r"
    proof
      assume "q0 = r"
      then have "to_block q = b - 1" using q0(2) by simp
      then show False using q(3) by simp
    qed
    then have "q \<in> set ?rows \<and> q \<noteq> r" using q0 by simp
    then show False
      using cr(4) [of q] q(3,4) stake_rows_okD(3) [OF ok cr(1)] \<open>t \<le> b\<close> by simp
  qed
  have "insert_row ''stake_history'' stake_history_key
      (stake_history_fk (?d\<lparr>stake_history := ?closed\<rparr>)) ?n ?closed = Inr (?closed @ [?n])"
    unfolding insert_row_Inr using new fk by (simp add: stake_history_fk_def)
  then show ?thesis
    using u upd
    by (auto simp: replaceStakeRecord_def updateStakeHistory_def insertStakeHistoryRecord_def
        andThen_Inr execute_Inr result_simps)
qed

section \<open>The rows after a stake event\<close>

lemma saveDelegatedStake_rows:
  assumes "saveDelegatedStake pool a x m = (Inr u, m')"
  shows "stake_history (getDbContext m') = stake_history (getDbContext m)"
  using assms
  by (auto simp: saveDelegatedStake_def ensureDelegateStaker_def getStakeDelegator_def
      updateStakeDelegator_def insertStakeDelegator_def action_simps result_simps
      split: option.splits)

lemma stake_changed_rows:
  assumes ok: "ledger_ok t (getDbContext m)" and e: "e = StakeChangedEvent n b ts p s ep a"
    and run: "visitStakeChangedEvent e m = (Inr (), m')"
  obtains new where "sh_node new = addressToBuffer p" "from_block new = b" "to_block new = b"
    and "stake_history (getDbContext m') =
      (case last_record (addressToBuffer p) (stake_history (getDbContext m)) of
         None \<Rightarrow> stake_history (getDbContext m)
       | Some r \<Rightarrow> close_record r (b - 1) (stake_history (getDbContext m))) @ [new]"
    and "distinct (map stake_history_key (stake_history (getDbContext m')))"
proof -
  have sel: "poolAddress e = p" "stakerAddress e = s" "amount e = a" "blockNumber e = b"
    by (simp_all add: e)
  let ?rows = "stake_history (getDbContext m)" and ?p = "addressToBuffer p"
  have rows: "stake_rows_ok t ?rows" using ok by (simp add: ledger_ok_def)
  obtain m1 m2 rec m3 where m1: "getDbContext m1 = getDbContext m"
    and del: "(if p \<noteq> s then andThen (insertDelegateStaker [s])
         (\<lambda>_. saveDelegatedStake p s (getStakeChangeAmount e)) else ret ()) m1 = (Inr (), m2)"
    and get: "getLastStakeHistoryRecord p m2 = (Inr rec, m3)"
    and rest: "(case rec of
         None \<Rightarrow> insertStakeHistoryRecord
           \<lparr>from_block = b, to_block = b, stake_amount = parseEther a, sh_node = ?p\<rparr>
       | Some r \<Rightarrow> replaceStakeRecord r b (sh_node r) (stake_amount r + getStakeChangeAmount e)) m3 =
       (Inr (), m')"
    using run unfolding visitStakeChangedEvent_def isDelegatorStake_def Let_def sel
    by (auto simp: andThen_Inr dest!: insertStakeTransaction_Inr)
  have h2: "stake_history (getDbContext m2) = ?rows"
    using del m1 saveDelegatedStake_rows [of p s]
    by (cases "p \<noteq> s") (auto simp: andThen_Inr ret_Inr elim!: insertDelegateStaker_Inr)
  note g = getLastStakeHistoryRecord_ok [OF rows [folded h2] get]
  show ?thesis
  proof (cases rec)
    case None
    let ?new = "\<lparr>from_block = b, to_block = b, stake_amount = parseEther a, sh_node = ?p\<rparr>"
    have "stake_history (getDbContext m') = ?rows @ [?new]"
      and "stake_history_key ?new \<notin> stake_history_key ` set ?rows"
      using None rest g(2) h2
      by (auto simp: insertStakeHistoryRecord_def action_simps result_simps table_simps)
    then show ?thesis
      using None g(1) h2 stake_rows_okD(2) [OF rows] by (intro that [of ?new]) simp_all
  next
    case (Some r)
    let ?new = "\<lparr>from_block = b, to_block = b, stake_amount = stake_amount r + getStakeChangeAmount e,
      sh_node = ?p\<rparr>"
    have "sh_node r = ?p"
      using last_record_cases [OF rows, of ?p] g(1) Some h2 current_recordD(2)
      by (metis option.distinct(1) option.inject)
    then have "stake_history (getDbContext m') = close_record r (b - 1) ?rows @ [?new]"
      and "distinct (map stake_history_key (close_record r (b - 1) ?rows @ [?new]))"
      using Some rest g(2) h2
      by (auto simp: replaceStakeRecord_def updateStakeHistory_def insertStakeHistoryRecord_def
          close_record_def action_simps result_simps table_simps simp del: map_map)
    then show ?thesis using Some g(1) h2 by (intro that [of ?new]) simp_all
  qed
qed

lemma third_event_fails:
  assumes ok: "ledger_ok b (getDbContext m)" and e: "e = StakeChangedEvent n b ts p s ep a"
    and c: "current_record (addressToBuffer p) r (stake_history (getDbContext m))" "to_block r = b"
    and taken: "(b, b - 1, addressToBuffer p) \<in> stake_history_key ` set (stake_history (getDbContext m))"
  shows "fst (visitStakeChangedEvent e m) \<noteq> Inr ()"
proof
  assume "fst (visitStakeChangedEvent e m) = Inr ()"
  then obtain m' where run: "visitStakeChangedEvent e m = (Inr (), m')" by (metis prod.collapse)
  let ?rows = "stake_history (getDbContext m)" and ?p = "addressToBuffer p"
  have rows: "stake_rows_ok b ?rows" using ok by (simp add: ledger_ok_def)
  note cr = current_recordD [OF c(1)]
  have last: "last_record ?p ?rows = Some r"
    using last_stake_rows_current [OF c(1) stake_rows_okD(1) [OF rows]] by (simp add: last_record_def)
  have "distinct (map stake_history_key (close_record r (b - 1) ?rows))"
    by (rule stake_changed_rows [OF ok e run]) (simp add: last)
  then have "(b, b - 1, ?p) \<notin> stake_history_key ` (set ?rows - {r})"
    using close_record_distinct [OF rows c(1) order_refl] cr(3) c(2) by simp
  moreover have "stake_history_key r \<noteq> (b, b - 1, ?p)" using c(2) by (simp add: stake_history_key_def)
  ultimately show False using taken by auto
qed

text \<open>After an event at block \<open>b\<close> the pool's current record is the one of block \<open>b\<close>.\<close>

lemma stake_changed_current:
  assumes ok: "ledger_ok t (getDbContext m)" and "t \<le> b" and e: "e = StakeChangedEvent n b ts p s ep a"
    and run: "visitStakeChangedEvent e m = (Inr (), m')"
  obtains r where "current_record (addressToBuffer p) r (stake_history (getDbContext m'))"
    and "to_block r = b"
proof -
  have "books e (visitStakeChangedEvent e)" using accept_books [of e] by (simp add: e)
  from booksD(1) [OF this ok _ run] have ok': "ledger_ok b (getDbContext m')"
    using \<open>t \<le> b\<close> by (simp add: e)
  then have rows: "stake_rows_ok b (stake_history (getDbContext m'))" by (simp add: ledger_ok_def)
  obtain new where
    new: "sh_node new = addressToBuffer p" "to_block new = b" "new \<in> set (stake_history (getDbContext m'))"
  proof (rule stake_changed_rows [OF ok e run])
    fix new
    assume "sh_node new = addressToBuffer p" "to_block new = b"
      "stake_history (getDbContext m') = (case last_record (addressToBuffer p) (stake_history (getDbContext m)) of
         None \<Rightarrow> stake_history (getDbContext m)
       | Some r \<Rightarrow> close_record r (b - 1) (stake_history (getDbContext m))) @ [new]"
    then show ?thesis using that [of new] by simp
  qed
  obtain r where r: "current_record (addressToBuffer p) r (stake_history (getDbContext m'))"
    using stake_rows_okD(4) [OF rows new(3)] new(1) by auto
  have "to_block r = b"
    using current_recordD(4) [OF r new(3) new(1)] new(2)
      stake_rows_okD(3) [OF rows current_recordD(1) [OF r]] by fastforce
  with r that show ?thesis by blast
qed

lemma stake_changed_closed:
  assumes ok: "ledger_ok b (getDbContext m)" and e: "e = StakeChangedEvent n b ts p s ep a"
    and c: "current_record (addressToBuffer p) r (stake_history (getDbContext m))" "to_block r = b"
    and run: "visitStakeChangedEvent e m = (Inr (), m')"
  shows "(b, b - 1, addressToBuffer p) \<in> stake_history_key ` set (stake_history (getDbContext m'))"
proof -
  let ?rows = "stake_history (getDbContext m)" and ?p = "addressToBuffer p"
  have rows: "stake_rows_ok b ?rows" using ok by (simp add: ledger_ok_def)
  note cr = current_recordD [OF c(1)]
  have last: "last_record ?p ?rows = Some r"
    using last_stake_rows_current [OF c(1) stake_rows_okD(1) [OF rows]] by (simp add: last_record_def)
  have "r\<lparr>to_block := b - 1\<rparr> \<in> set (close_record r (b - 1) ?rows)"
    unfolding close_record_eq [OF stake_rows_okD(2) [OF rows] cr(1)] using cr(1) by force
  moreover have "set (close_record r (b - 1) ?rows) \<subseteq> set (stake_history (getDbContext m'))"
    by (rule stake_changed_rows [OF ok e run]) (auto simp: last)
  ultimately have "r\<lparr>to_block := b - 1\<rparr> \<in> set (stake_history (getDbContext m'))" by blast
  moreover have "stake_history_key (r\<lparr>to_block := b - 1\<rparr>) = (b, b - 1, ?p)"
    using cr(2,3) c(2) by (simp add: stake_history_key_def)
  ultimately show ?thesis by (metis imageI)
qed

section \<open>Booking succeeds\<close>

lemma executeWithRetry_Inr: "A m = (Inr x, m') \<Longrightarrow> executeWithRetry A m = (Inr x, m')"
  by (rule executeWithRetry_success)

lemma insertDelegateStaker_success:
  assumes "usable m"
  shows "\<exists>rows. insertDelegateStaker ds m =
      (Inr (), set_context ((getDbContext m)\<lparr>delegate_staker := rows\<rparr>) m) \<and>
    (distinct (delegate_staker (getDbContext m)) \<longrightarrow> distinct rows)"
proof -
  let ?f = "\<lambda>a rows. insert_or_ignore ''delegate_staker'' id (\<lambda>_. True) a rows"
  have "\<exists>rows. forM as ?f start = Inr rows \<and> (distinct start \<longrightarrow> distinct rows)" for as start
  proof (induction as arbitrary: start)
    case (Cons a as)
    show ?case
      using Cons [of start] Cons [of "start @ [a]"]
      by (cases "a \<in> set start") (auto simp: insert_or_ignore_def)
  qed simp
  from this [of "map addressToBuffer ds" "delegate_staker (getDbContext m)"] obtain rows where
    rows: "forM (map addressToBuffer ds) ?f (delegate_staker (getDbContext m)) = Inr rows"
      "distinct (delegate_staker (getDbContext m)) \<longrightarrow> distinct rows" by blast
  then show ?thesis
    unfolding insertDelegateStaker_def
    by (intro exI [of _ rows] conjI executeWithRetry_success execute_success assms) simp_all
qed

lemma ensureDelegateStaker_success:
  assumes "usable m" "distinct (delegate_staker (getDbContext m))"
  obtains rows where "ensureDelegateStaker a m =
      (Inr (), set_context ((getDbContext m)\<lparr>delegate_staker := rows\<rparr>) m)"
    and "addressToBuffer a \<in> set rows" and "distinct rows"
proof (cases "addressToBuffer a \<in> set (delegate_staker (getDbContext m))")
  case True
  have "find_one ''delegate_staker'' (\<lambda>x. x = addressToBuffer a) (delegate_staker (getDbContext m)) =
      Inr (Some (addressToBuffer a))"
    by (rule find_one_by_key [where key = id]) (use assms(2) True in auto)
  then have "ensureDelegateStaker a m = (Inr (), m)"
    using assms(1) by (auto simp: ensureDelegateStaker_def andThen_Inr read_Inr ret_Inr)
  with that [of "delegate_staker (getDbContext m)"] True assms(2) show ?thesis by simp
next
  case False
  then have f: "find_one ''delegate_staker'' (\<lambda>x. x = addressToBuffer a)
      (delegate_staker (getDbContext m)) = Inr None" by auto
  have rd: "read (\<lambda>d. find_one ''delegate_staker'' (\<lambda>x. x = addressToBuffer a) (delegate_staker d)) m =
      (Inr None, m)" by (rule read_success) (fact assms(1), fact f)
  have "ensureDelegateStaker a m = (Inr (), set_context ((getDbContext m)
      \<lparr>delegate_staker := delegate_staker (getDbContext m) @ [addressToBuffer a]\<rparr>) m)"
    unfolding ensureDelegateStaker_def andThen_def rd using assms(1) False
    by (simp add: execute_Inr result_simps insert_row_Inr)
  with that show ?thesis using False assms(2) by simp
qed

lemma saveDelegatedStake_success:
  assumes "usable m" "distinct (delegate_staker (getDbContext m))"
    and "distinct (map stake_delegators_key (stake_delegators (getDbContext m)))"
    and "node_exists (getDbContext m) (addressToBuffer pool)"
  shows "\<exists>rows sd. saveDelegatedStake pool a x m = (Inr (), set_context
     ((getDbContext m)\<lparr>delegate_staker := rows, stake_delegators := sd\<rparr>) m)"
proof -
  let ?k = "(addressToBuffer pool, addressToBuffer a)"
  obtain rows where e: "ensureDelegateStaker a m =
      (Inr (), set_context ((getDbContext m)\<lparr>delegate_staker := rows\<rparr>) m)"
    and a: "addressToBuffer a \<in> set rows"
    using ensureDelegateStaker_success [OF assms(1,2)] by metis
  let ?m1 = "set_context ((getDbContext m)\<lparr>delegate_staker := rows\<rparr>) m"
  let ?P = "\<lambda>r. sd_pool_address r = addressToBuffer pool \<and> sd_delegator r = addressToBuffer a"
  let ?sd = "stake_delegators (getDbContext m)"
  have P: "?P r \<longleftrightarrow> stake_delegators_key r = ?k" for r by (auto simp: stake_delegators_key_def)
  show ?thesis
  proof (cases "\<exists>r \<in> set ?sd. ?P r")
    case True
    then obtain r where r: "r \<in> set ?sd" "?P r" by blast
    have "find_one ''stake_delegators'' ?P ?sd = Inr (Some r)"
      by (rule find_one_by_key [where key = stake_delegators_key])
        (use assms(3) r in \<open>auto simp: stake_delegators_key_def\<close>)
    then have get: "getStakeDelegator pool a ?m1 = (Inr (Some r), ?m1)"
      using assms(1) by (simp add: getStakeDelegator_def read_Inr)
    let ?f = "\<lambda>r. r\<lparr>total_delegated := total_delegated r + x\<rparr>"
    have "map stake_delegators_key (set_where ?P (\<lambda>q. q\<lparr>total_delegated := total_delegated r + x\<rparr>) ?sd) =
        map stake_delegators_key ?sd"
      by (rule map_key_set_where) (simp add: stake_delegators_key_def)
    then have "update_rows ''stake_delegators'' stake_delegators_key
        (stake_delegators_fk (getDbContext ?m1)) ?P
        (\<lambda>q. q\<lparr>total_delegated := total_delegated r + x\<rparr>) ?sd =
        Inr (set_where ?P (\<lambda>q. q\<lparr>total_delegated := total_delegated r + x\<rparr>) ?sd)"
      unfolding update_rows_Inr using assms(3,4) a
      by (auto simp: stake_delegators_fk_def simp del: map_map map_eq_conv)
    then show ?thesis
      unfolding saveDelegatedStake_def andThen_def e prod.case sum.case get
      using assms(1) by (auto simp: updateStakeDelegator_def execute_Inr result_simps intro!: exI)
  next
    case False
    then have get: "getStakeDelegator pool a ?m1 = (Inr None, ?m1)"
      using assms(1) by (simp add: getStakeDelegator_def read_Inr)
    have new: "?k \<notin> stake_delegators_key ` set ?sd" using False P by auto
    show ?thesis
      unfolding saveDelegatedStake_def andThen_def e prod.case sum.case get
      using assms(1,4) a new
      by (auto simp: insertStakeDelegator_def execute_Inr result_simps insert_row_Inr
          stake_delegators_fk_def stake_delegators_key_def intro!: exI)
  qed
qed

end
