(* ===== verification/Samples.thy ===== *)
theory Samples imports EventsVisitor begin

text \<open>
  A small database on which the theorems are applied: ten blocks, one epoch, two pools. The
  instances show that the hypotheses of the theorems can be met.
\<close>

definition sample_header :: "int \<Rightarrow> Headers" where
  "sample_header b = \<lparr>block_number = b, block_hash = ''h'', extra_data = [], block_time = b,
     block_duration = 1, transaction_count = 0, txs_per_sec = Ratio 0, posdao_hbbft_epoch = 0,
     reinsert_pot = 0, delta_pot = 0, governance_pot = 0, reward_contract_total = 0,
     unclaimed_rewards = 0\<rparr>"

definition sample_node :: "string \<Rightarrow> Node" where
  "sample_node p = \<lparr>pool_address = addressToBuffer p, mining_address = addressToBuffer p,
     mining_public_key = addressToBuffer p, added_block = 0, node_bonus_score = 100\<rparr>"

definition sample_db :: db where
  "sample_db = empty_db\<lparr>headers := map sample_header [0..9],
     node := [sample_node ''0xaa'', sample_node ''0xBB''],
     posdao_epoch := [\<lparr>epoch_id = 0, block_start = 0, block_end = None\<rparr>]\<rparr>"

definition sample_manager :: manager where
  "sample_manager = new_manager\<lparr>committed := sample_db\<rparr>"

definition placed :: "int \<Rightarrow> string \<Rightarrow> string \<Rightarrow> wei \<Rightarrow> contract_event" where
  "placed b p s a = StakeChangedEvent ''PlacedStake'' b 0 p s 0 a"

definition sample_events :: "contract_event list" where
  "sample_events =
     [placed 3 ''0xaa'' ''0xaa'' 5000, placed 4 ''0xaa'' ''0xcc'' 7000,
      MovedStakeEvent ''MovedStake'' 4 0 ''0xaa'' ''0xBB'' ''0xcc'' 0 1000,
      OrderedWithdrawalEvent ''OrderedWithdrawal'' 5 0 ''0xaa'' ''0xcc'' 0 300]"

definition after_events :: manager where
  "after_events = snd (forEach sample_events accept sample_manager)"

lemma sample_run: "forEach sample_events accept sample_manager = (Inr (), after_events)"
proof -
  have "fst (forEach sample_events accept sample_manager) = Inr ()" by code_simp
  then show ?thesis unfolding after_events_def by (metis prod.collapse)
qed

lemma sample_context: "getDbContext sample_manager = sample_db" "usable sample_manager"
  by (simp_all add: sample_manager_def new_manager_def getDbContext_def usable_def)

end
