(* ===== verification/StakeProperties.thy ===== *)
theory StakeProperties imports StakeEvents Samples begin

text \<open>
  What holds of the stake bookkeeping of src/src/eventsVisitor.ts, from any tables that meet
  \<open>ledger_ok\<close>: runs of events refine the abstract ledger, moving stake conserves it, an event
  is booked unless it is the pool's third one in its block.
\<close>

lemma sample_ledger_ok: "ledger_ok 0 (getDbContext sample_manager)"
  by (simp add: sample_context sample_db_def empty_db_def ledger_ok_def stake_rows_ok_def orders_ok_def)



text \<open>A MovedStake event that is booked leaves the total stake of every finite set of pools
  that holds both its pools unchanged.\<close>

theorem moved_stake_conserves_total:
  assumes "ledger_ok t (getDbContext m)" "t \<le> b"
    and "accept (MovedStakeEvent n b ts p q s ep a) m = (Inr (), m')"
    and "finite pools" "addressToBuffer p \<in> pools" "addressToBuffer q \<in> pools"
  shows "total_stake pools (ledger_of (getDbContext m')) = total_stake pools (ledger_of (getDbContext m))"
proof -
  let ?e = "MovedStakeEvent n b ts p q s ep a" and ?l = "ledger_of (getDbContext m)"
  have "ledger_of (getDbContext m') = book ?e ?l"
    by (rule booksD(2) [OF accept_books assms(1) _ assms(3)]) (simp add: assms(2))
  then show ?thesis
    using assms(4-6)
    by (cases "pool_stake ?l (addressToBuffer p)")
      (simp_all add: total_stake_def Let_def total_stake_credit total_stake_credit_known)
qed

definition sample_move :: contract_event where
  "sample_move = MovedStakeEvent ''MovedStake'' 6 0 ''0xaa'' ''0xBB'' ''0xcc'' 0 2000"

lemma moved_stake_conserves_total_witness:
  "fst (accept sample_move after_events) = Inr () \<and>
   (let pools = {addressToBuffer ''0xaa'', addressToBuffer ''0xBB''} in
    total_stake pools (ledger_of (getDbContext (snd (accept sample_move after_events)))) =
    total_stake pools (ledger_of (getDbContext after_events)))"
proof -
  have ok: "ledger_ok 5 (getDbContext after_events)" by code_simp
  have run: "fst (accept sample_move after_events) = Inr ()" by code_simp
  then have "accept sample_move after_events = (Inr (), snd (accept sample_move after_events))"
    by (metis prod.collapse)
  from moved_stake_conserves_total [OF ok _ this [unfolded sample_move_def]] run show ?thesis
    by (simp add: sample_move_def Let_def)
qed

text \<open>The steps of a stake event: the delegator part never fails on tables with their integrity, the
  first event of a pool starts its history, and a later one replaces its current row unless a row
  from that block to the block before is in the way.\<close>

lemma delegated_part_succeeds:
  assumes "valid_db (getDbContext m)" "usable m" "node_exists (getDbContext m) (addressToBuffer p)"
  obtains m' where "(if p \<noteq> s then andThen (insertDelegateStaker [s]) (\<lambda>_. saveDelegatedStake p s d) else ret ()) m =
      (Inr (), m')"
    "stake_history (getDbContext m') = stake_history (getDbContext m)"
    "headers (getDbContext m') = headers (getDbContext m)" "node (getDbContext m') = node (getDbContext m)" "usable m'"
proof (cases "p \<noteq> s")
  case True
  have dist: "distinct (delegate_staker (getDbContext m))"
    "distinct (map stake_delegators_key (stake_delegators (getDbContext m)))"
    using assms(1) by (simp_all add: valid_db_def keys_ok_def)
  obtain rows where r: "insertDelegateStaker [s] m =
      (Inr (), set_context ((getDbContext m)\<lparr>delegate_staker := rows\<rparr>) m)" "distinct rows"
    using insertDelegateStaker_success [OF assms(2), of "[s]"] dist(1) by auto
  let ?m = "set_context ((getDbContext m)\<lparr>delegate_staker := rows\<rparr>) m"
  obtain rows' sd where "saveDelegatedStake p s d ?m = (Inr (), set_context
      ((getDbContext ?m)\<lparr>delegate_staker := rows', stake_delegators := sd\<rparr>) ?m)"
    using saveDelegatedStake_success [of ?m p s d] assms(2,3) r(2) dist(2) by auto
  with r(1) True that show ?thesis using assms(2) by (auto simp: andThen_Inr)
qed (use that assms(2) in \<open>auto simp: ret_Inr\<close>)

lemma first_stake_row_succeeds:
  assumes "usable m" "header_exists (getDbContext m) b" "node_exists (getDbContext m) pool"
    and "\<And>q. q \<in> set (stake_history (getDbContext m)) \<Longrightarrow> sh_node q \<noteq> pool"
  shows "\<exists>m'. insertStakeHistoryRecord \<lparr>from_block = b, to_block = b, stake_amount = a, sh_node = pool\<rparr> m =
    (Inr (), m')"
  using assms by (fastforce simp: insertStakeHistoryRecord_def execute_Inr result_simps
      insert_row_Inr stake_history_key_def stake_history_fk_def image_iff)

lemma closed_row_is_new:
  assumes rows: "stake_rows_ok t shs" and "t \<le> b" and c: "current_record pool r shs"
    and free: "(b, b - 1, pool) \<notin> stake_history_key ` set shs"
  shows "(from_block r, b - 1, pool) \<notin> stake_history_key ` (set shs - {r})"
proof
  assume k: "(from_block r, b - 1, pool) \<in> stake_history_key ` (set shs - {r})"
  from k obtain q where "(from_block r, b - 1, pool) = stake_history_key q" "q \<in> set shs - {r}" by (rule imageE)
  then have q: "q \<in> set shs" "q \<noteq> r" "from_block q = from_block r" "to_block q = b - 1" "sh_node q = pool"
    by (simp_all add: stake_history_key_def)
  have "to_block r \<le> b" using stake_rows_okD(3) [OF rows current_recordD(1) [OF c]] \<open>t \<le> b\<close> by simp
  moreover have "to_block r \<noteq> b" using k free current_recordD(3) [OF c] by auto
  ultimately show False
    using current_recordD(3) [OF c] current_recordD(4) [OF c q(1,5,2)] q(3,4) by auto
qed

text \<open>A stake placement or withdrawal is always booked when its block and the block before
  have headers, its pool has a node, and the pool's stake has changed at most once before in
  the same block (the row from \<open>b\<close> to \<open>b - 1\<close> is not there yet).\<close>

theorem stake_event_is_booked:
  assumes ok: "ledger_ok t (getDbContext m)" and "t \<le> b" and u: "usable m"
    and valid: "valid_db (getDbContext m)"
    and heads: "header_exists (getDbContext m) (b - 1)" "header_exists (getDbContext m) b"
    and pool: "node_exists (getDbContext m) (addressToBuffer p)"
    and free: "(b, b - 1, addressToBuffer p) \<notin>
      stake_history_key ` set (stake_history (getDbContext m))"
  shows "\<exists>m'. accept (StakeChangedEvent n b ts p s ep a) m = (Inr (), m')"
proof -
  let ?e = "StakeChangedEvent n b ts p s ep a" and ?p = "addressToBuffer p"
  obtain m1 where tx: "insertStakeTransaction b ts n p (Some s) None None a (Some ep) (p \<noteq> s) m = (Inr (), m1)"
    and c1: "getDbContext m1 = getDbContext m" "usable m1"
    using u by (auto simp: insertStakeTransaction_def)
  obtain m2 where del: "(if p \<noteq> s then andThen (insertDelegateStaker [s])
        (\<lambda>_. saveDelegatedStake p s (getStakeChangeAmount ?e)) else ret ()) m1 = (Inr (), m2)"
    and c2: "stake_history (getDbContext m2) = stake_history (getDbContext m)"
      "headers (getDbContext m2) = headers (getDbContext m)"
      "node (getDbContext m2) = node (getDbContext m)" "usable m2"
    by (rule delegated_part_succeeds [of m1 p s "getStakeChangeAmount ?e"]) (use c1 valid pool in auto)
  have rows: "stake_rows_ok t (stake_history (getDbContext m2))" using ok c2(1) by (simp add: ledger_ok_def)
  let ?last = "last_record ?p (stake_history (getDbContext m2))"
  have get: "getLastStakeHistoryRecord p m2 = (Inr ?last, m2)"
    by (rule getLast_success [OF rows c2(4)])
  have "\<exists>m'. (case ?last of
         None \<Rightarrow> insertStakeHistoryRecord
           \<lparr>from_block = b, to_block = b, stake_amount = parseEther a, sh_node = ?p\<rparr>
       | Some r \<Rightarrow> replaceStakeRecord r b (sh_node r) (stake_amount r + getStakeChangeAmount ?e)) m2 =
       (Inr (), m')"
  proof (rule last_record_cases [OF rows, of ?p])
    assume "?last = None" "\<And>q. q \<in> set (stake_history (getDbContext m2)) \<Longrightarrow> sh_node q \<noteq> ?p"
    then show ?thesis using first_stake_row_succeeds [OF c2(4), of b ?p] heads(2) pool c2(2,3) by auto
  next
    fix r assume l: "?last = Some r" and c: "current_record ?p r (stake_history (getDbContext m2))"
    have "r \<in> set (stake_history (getDbContext m))" using current_recordD(1) [OF c] c2(1) by simp
    then have h: "header_exists (getDbContext m2) (from_block r)"
      using valid c2 by (auto simp: valid_db_def refs_ok_def list_all_iff stake_history_fk_def)
    from replaceStakeRecord_success [OF rows \<open>t \<le> b\<close> c2(4) c closed_row_is_new [OF rows \<open>t \<le> b\<close> c] h]
    show ?thesis using l heads pool free c2 current_recordD(2) [OF c] by simp
  qed
  then show ?thesis
    using tx del get by (auto simp: visitStakeChangedEvent_def isDelegatorStake_def Let_def andThen_Inr)
qed

lemma stake_event_is_booked_witness:
  "\<exists>m'. accept (placed 9 ''0xaa'' ''0xdd'' 12) sample_manager = (Inr (), m')"
proof -
  have "valid_db sample_db" by code_simp
  moreover have "header_exists sample_db 8" "header_exists sample_db 9"
    "node_exists sample_db (addressToBuffer ''0xaa'')" by code_simp+
  moreover have "stake_history sample_db = []" by (simp add: sample_db_def empty_db_def)
  ultimately show ?thesis
    unfolding placed_def
    using stake_event_is_booked [OF sample_ledger_ok, of 9 "''0xaa''"] by (simp add: sample_context)
qed



end
