(* ===== verification/Names.thy ===== *)
theory Names imports Booking Samples begin

text \<open>
  The directory of DMD names: what the visitor's name events (src/src/eventsVisitor.ts) and
  the upsert of src/src/db/database-persistent.ts make of the table \<open>dmd_names\<close>. The directory
  is a map from label hashes to rows; \<open>register\<close> says what an event does to it.
\<close>

definition directory :: "manager \<Rightarrow> buffer \<rightharpoonup> DmdName" where
  "directory m = lookup label_hash (dmd_names m)"

definition names_ok :: "manager \<Rightarrow> bool" where
  "names_ok m \<longleftrightarrow> distinct (map label_hash (dmd_names m)) \<and>
     list_all (\<lambda>e. ne_label_hash e \<in> set (map label_hash (dmd_names m))) (dmd_name_events m)"

text \<open>The row that a name event upserts; other events upsert none.\<close>

fun upserted :: "contract_event \<Rightarrow> DmdName option" where
  "upserted (NameRegisteredEvent n b t l p h d x i) = Some
     \<lparr>label_hash = hexToBuffer h, label = Some d, name_owner = None, name_creator = None,
      created_block = Some b, created_timestamp = Some t, expiration = Some x, active = None,
      blocked = None, last_action_type = ''Registered'', last_action_block = b,
      last_action_timestamp = t\<rparr>"
| "upserted (NameActivatedEvent n b t l p h d i) = Some
     \<lparr>label_hash = hexToBuffer h, label = Some d, name_owner = None, name_creator = None,
      created_block = None, created_timestamp = None, expiration = None, active = Some True,
      blocked = None, last_action_type = ''Activated'', last_action_block = b,
      last_action_timestamp = t\<rparr>"
| "upserted (NameDeactivatedEvent n b t l p h d i) = Some
     \<lparr>label_hash = hexToBuffer h, label = Some d, name_owner = None, name_creator = None,
      created_block = None, created_timestamp = None, expiration = None, active = Some False,
      blocked = None, last_action_type = ''Deactivated'', last_action_block = b,
      last_action_timestamp = t\<rparr>"
| "upserted (NameRenewedEvent n b t l p h d x i) = Some
     \<lparr>label_hash = hexToBuffer h, label = Some d, name_owner = None, name_creator = None,
      created_block = None, created_timestamp = None, expiration = Some x, active = None,
      blocked = None, last_action_type = ''Renewed'', last_action_block = b,
      last_action_timestamp = t\<rparr>"
| "upserted (NameBlockedSetEvent n b t l h d k i) = Some
     \<lparr>label_hash = hexToBuffer h, label = Some d, name_owner = None, name_creator = None,
      created_block = None, created_timestamp = None, expiration = None, active = None,
      blocked = Some k, last_action_type = ''BlockedSet'', last_action_block = b,
      last_action_timestamp = t\<rparr>"
| "upserted (DmdNameTransferEvent n b t l f p k i) =
     (let mint = isMint (DmdNameTransferEvent n b t l f p k i); to = addressToBuffer p in Some
     \<lparr>label_hash = hexToBuffer (tokenIdToLabelHash k), label = None, name_owner = Some to,
      name_creator = (if mint then Some to else None),
      created_block = (if mint then Some b else None),
      created_timestamp = (if mint then Some t else None), expiration = None,
      active = (if mint then Some False else None), blocked = None,
      last_action_type = ''Transfer'', last_action_block = b, last_action_timestamp = t\<rparr>)"
| "upserted _ = None"

definition register :: "contract_event \<Rightarrow> (buffer \<rightharpoonup> DmdName) \<Rightarrow> (buffer \<rightharpoonup> DmdName)" where
  "register e names = (case upserted e of
     None \<Rightarrow> names
   | Some row \<Rightarrow> names(label_hash row \<mapsto>
       (case names (label_hash row) of None \<Rightarrow> row | Some old \<Rightarrow> merge_name row old)))"

section \<open>The upsert\<close>

lemma merge_name_hash [simp]: "label_hash (merge_name x old) = label_hash old"
  by (simp add: merge_name_def)

lemma upsert_directory:
  assumes "upsertDmdName row m = (Inr (), m')"
  shows "directory m' = (directory m)(label_hash row \<mapsto>
      (case directory m (label_hash row) of None \<Rightarrow> row | Some old \<Rightarrow> merge_name row old))"
proof (cases "label_hash row \<in> set (map label_hash (dmd_names m))")
  case True
  then have "directory m (label_hash row) \<noteq> None" by (simp add: directory_def lookup_None)
  then obtain old where old: "directory m (label_hash row) = Some old" by blast
  have "dmd_names m' = set_where (\<lambda>n. label_hash n = label_hash row) (merge_name row) (dmd_names m)"
    using assms True by (auto simp: upsertDmdName_def)
  then show ?thesis
    using old lookup_update [of label_hash "merge_name row", OF merge_name_hash]
    by (auto simp: directory_def fun_eq_iff)
next
  case False
  then have "directory m (label_hash row) = None" by (simp add: directory_def lookup_None)
  moreover have "dmd_names m' = dmd_names m @ [row]" using assms False by (auto simp: upsertDmdName_def)
  ultimately show ?thesis
    using lookup_insert [of label_hash row "dmd_names m"] False by (auto simp: directory_def fun_eq_iff)
qed

lemma upsert_hashes:
  assumes "upsertDmdName row m = (Inr (), m')"
  shows "set (map label_hash (dmd_names m')) = insert (label_hash row) (set (map label_hash (dmd_names m)))"
    and "distinct (map label_hash (dmd_names m)) \<Longrightarrow> distinct (map label_hash (dmd_names m'))"
    and "dmd_name_events m' = dmd_name_events m"
proof -
  have keys: "map label_hash (set_where (\<lambda>n. label_hash n = label_hash row) (merge_name row) rows) =
      map label_hash rows" for rows :: "DmdName list"
    by (rule map_key_set_where) simp
  show "set (map label_hash (dmd_names m')) = insert (label_hash row) (set (map label_hash (dmd_names m)))"
    "distinct (map label_hash (dmd_names m)) \<Longrightarrow> distinct (map label_hash (dmd_names m'))"
    "dmd_name_events m' = dmd_name_events m"
    using assms keys [of "dmd_names m"]
    by (auto simp: upsertDmdName_def insert_absorb simp del: map_map map_eq_conv set_map
        split: if_splits)
qed

lemma upsert_then_event:
  assumes ok: "names_ok m" and run: "andThen (upsertDmdName row) (\<lambda>_. insertDmdNameEvent ev) m = (Inr (), m')"
  shows "names_ok m'" and "directory m' = (directory m)(label_hash row \<mapsto>
      (case directory m (label_hash row) of None \<Rightarrow> row | Some old \<Rightarrow> merge_name row old))"
proof -
  obtain m1 where m1: "upsertDmdName row m = (Inr (), m1)" "insertDmdNameEvent ev m1 = (Inr (), m')"
    using run by (auto simp: andThen_Inr)
  have names: "dmd_names m' = dmd_names m1" "ne_label_hash ev \<in> set (map label_hash (dmd_names m1))"
    "dmd_name_events m' = dmd_name_events m1 @ [ev]"
    using m1(2) by (auto simp: insertDmdNameEvent_def split: if_splits)
  show "names_ok m'"
    using ok names upsert_hashes [OF m1(1)] unfolding names_ok_def list_all_iff by auto
  show "directory m' = (directory m)(label_hash row \<mapsto>
      (case directory m (label_hash row) of None \<Rightarrow> row | Some old \<Rightarrow> merge_name row old))"
    using upsert_directory [OF m1(1)] names(1) by (simp add: directory_def)
qed

section \<open>Every event\<close>

abbreviation name_tables :: "manager \<Rightarrow> DmdName list \<times> DmdNameEvent list" where
  "name_tables m \<equiv> (dmd_names m, dmd_name_events m)"

lemma name_tables_outside [simp]: "outside_view name_tables"
  by (simp add: outside_view_def)

lemma untouched_insertStakeTransaction [untouched_rules]:
  "untouched name_tables (insertStakeTransaction b t n p s q c a e i)"
  by (simp add: untouched_def insertStakeTransaction_def)

lemma other_events_keep_names:
  "upserted e = None \<Longrightarrow> untouched name_tables (accept e)"
  by (cases e) (auto simp: Let_def visitStakeChangedEvent_def visitMovedStakeEvent_def
      visitOrderedWithdrawalEvent_def visitClaimedOrderedWithdrawalEvent_def
      visitGatherAbandonedStakesEvent_def visitAvailabilityEvents_def replaceStakeRecord_def
      saveDelegatedStake_def ensureDelegateStaker_def getStakeDelegator_def updateStakeDelegator_def
      insertStakeDelegator_def updateStakeHistory_def insertStakeHistoryRecord_def
      getLastStakeHistoryRecord_def getOrderWithdrawalEvent_def updateOrderWithdrawalEvent_def
      insertOrderWithdrawalEvent_def insertAvailabilityEvent_def insertDelegateStaker_def
      split: option.splits list.splits prod.splits intro!: untouched_rules)

lemma name_event_steps:
  assumes "upserted e = Some row"
  obtains ev where "accept e = andThen (upsertDmdName row) (\<lambda>_. insertDmdNameEvent ev)"
  using assms
  by (cases "isMint e"; cases e) (auto simp: Let_def visitNameRegisteredEvent_def visitNameActivatedEvent_def
      visitNameDeactivatedEvent_def visitNameRenewedEvent_def visitNameBlockedSetEvent_def
      visitDmdNameTransferEvent_def name_row_def)

lemma accept_registers:
  assumes "names_ok m" "accept e m = (Inr (), m')"
  shows "names_ok m'" and "directory m' = register e (directory m)"
proof -
  have "names_ok m' \<and> directory m' = register e (directory m)"
  proof (cases "upserted e")
    case None
    have "name_tables m' = name_tables m"
      using other_events_keep_names [OF None] assms(2) by (auto simp: untouched_def dest: spec [of _ m])
    then show ?thesis using assms(1) None by (simp add: names_ok_def directory_def register_def)
  next
    case (Some row)
    obtain ev where "accept e = andThen (upsertDmdName row) (\<lambda>_. insertDmdNameEvent ev)"
      using name_event_steps [OF Some] .
    with upsert_then_event [OF assms(1)] assms(2) Some show ?thesis by (simp add: register_def)
  qed
  then show "names_ok m'" "directory m' = register e (directory m)" by blast+
qed

interpretation name_directory: timed_actions "\<lambda>_. 0" accept "\<lambda>t m. names_ok m" directory register
  by unfold_locales (blast intro: accept_registers)+

definition has_creator :: "buffer \<Rightarrow> buffer \<Rightarrow> (buffer \<rightharpoonup> DmdName) \<Rightarrow> bool" where
  "has_creator h c names \<longleftrightarrow> (case names h of None \<Rightarrow> False | Some n \<Rightarrow> name_creator n = Some c)"

lemma register_keeps_creator: "has_creator h c names \<Longrightarrow> has_creator h c (register e names)"
  by (auto simp: has_creator_def register_def merge_name_def coalesce_def split: option.splits)

lemma forEach_single: "A x m = (Inr (), m') \<Longrightarrow> forEach [x] A m = (Inr (), m')"
  by (simp add: andThen_Inr ret_Inr)

definition sample_names :: "contract_event list" where
  "sample_names =
     [DmdNameTransferEvent ''Transfer'' 5 50 0 ''0x00'' ''0xaa'' 7 ''0x01'',
      NameRegisteredEvent ''NameRegistered'' 5 50 1 ''0xaa''
        ''0x0000000000000000000000000000000000000000000000000000000000000007'' ''alice'' 900 ''0x01'',
      DmdNameTransferEvent ''Transfer'' 6 60 0 ''0xaa'' ''0xbb'' 7 ''0x02'']"

definition after_names :: manager where
  "after_names = snd (forEach sample_names accept new_manager)"

lemma sample_names_run: "forEach sample_names accept new_manager = (Inr (), after_names)"
proof -
  have "fst (forEach sample_names accept new_manager) = Inr ()" by code_simp
  then show ?thesis unfolding after_names_def by (metis prod.collapse)
qed

lemma names_ok_new: "names_ok new_manager"
  by (simp add: names_ok_def new_manager_def)



text \<open>The creator of a name, once recorded, is never changed by any later event of any
  kind.\<close>

theorem name_creator_is_permanent:
  assumes "names_ok m" and "forEach events accept m = (Inr (), m')"
    and "has_creator h c (directory m)"
  shows "has_creator h c (directory m')"
  using name_directory.run_invariant [OF assms(1) _ assms(2), of 0 "has_creator h c"]
    assms(3) register_keeps_creator by (simp add: map_replicate_const)

lemma name_creator_is_permanent_witness:
  "let m1 = snd (forEach (take 2 sample_names) accept new_manager);
       h = hexToBuffer (tokenIdToLabelHash 7)
   in has_creator h (addressToBuffer ''0xaa'') (directory m1) \<and>
      has_creator h (addressToBuffer ''0xaa'') (directory (snd (accept (sample_names ! 2) m1)))"
proof -
  let ?m1 = "snd (forEach (take 2 sample_names) accept new_manager)"
  let ?h = "hexToBuffer (tokenIdToLabelHash 7)"
  have ok: "names_ok ?m1" by code_simp
  have run: "forEach [sample_names ! 2] accept ?m1 = (Inr (), snd (accept (sample_names ! 2) ?m1))"
  proof -
    have "fst (accept (sample_names ! 2) ?m1) = Inr ()" by code_simp
    then have "accept (sample_names ! 2) ?m1 = (Inr (), snd (accept (sample_names ! 2) ?m1))"
      by (metis prod.collapse)
    then show ?thesis by (rule forEach_single)
  qed
  have creator: "has_creator ?h (addressToBuffer ''0xaa'') (directory ?m1)" by code_simp
  from name_creator_is_permanent [OF ok run creator] creator show ?thesis unfolding Let_def by blast
qed

end
