(* ===== verification/EventProcessor.thy ===== *)
theory EventProcessor imports StakeProperties Names begin

text \<open>
  Where the events come from and in which order they are processed: the fetching part of the
  class ContractManager (src/src/contractManager.ts) and src/src/eventProcessor.ts.

  The node behind web3 is a parameter: a record \<open>chain\<close> of the remote calls, each of which may
  reject. A log carries its block, its index, its transaction and its named return values.
\<close>

section \<open>The remote calls\<close>

record raw_log =
  log_block :: int
  log_index :: int
  log_tx :: string
  ret_string :: "string \<Rightarrow> string"
  ret_int :: "string \<Rightarrow> int"
  ret_bool :: "string \<Rightarrow> bool"

record chain =
  pastEvents :: "string \<Rightarrow> int \<Rightarrow> int \<Rightarrow> raw_log list result"
  blockTimestampAt :: "int \<Rightarrow> int result"
  stakingByMining :: "string \<Rightarrow> int \<Rightarrow> string result"
  registrarConfigured :: bool
  namesConfigured :: bool

text \<open>One event per log of the kind \<open>name\<close>, with the timestamp of the log's block.\<close>

definition stamped ::
  "chain \<Rightarrow> string \<Rightarrow> int \<Rightarrow> int \<Rightarrow> (raw_log \<Rightarrow> int \<Rightarrow> contract_event) \<Rightarrow> contract_event list result" where
  "stamped c name a b build = await (pastEvents c name a b)
     (mapM (\<lambda>log. await (blockTimestampAt c (log_block log)) (\<lambda>t. Inr (build log t))))"

section \<open>Stake events\<close>

definition getPlacedStakeEvents :: "chain \<Rightarrow> int \<Rightarrow> int \<Rightarrow> contract_event list result" where
  "getPlacedStakeEvents c a b = stamped c ''PlacedStake'' a b (\<lambda>log t.
     StakeChangedEvent ''PlacedStake'' (log_block log) t (ret_string log ''toPoolStakingAddress'')
       (ret_string log ''staker'') (ret_int log ''stakingEpoch'') (ret_int log ''amount''))"

definition getWithdrewStakeEvents :: "chain \<Rightarrow> int \<Rightarrow> int \<Rightarrow> contract_event list result" where
  "getWithdrewStakeEvents c a b = stamped c ''WithdrewStake'' a b (\<lambda>log t.
     StakeChangedEvent ''WithdrewStake'' (log_block log) t (ret_string log ''fromPoolStakingAddress'')
       (ret_string log ''staker'') (ret_int log ''stakingEpoch'') (ret_int log ''amount''))"

definition getMovedStakeEvents :: "chain \<Rightarrow> int \<Rightarrow> int \<Rightarrow> contract_event list result" where
  "getMovedStakeEvents c a b = stamped c ''MovedStake'' a b (\<lambda>log t.
     MovedStakeEvent ''MovedStake'' (log_block log) t (ret_string log ''fromPoolStakingAddress'')
       (ret_string log ''toPoolStakingAddress'') (ret_string log ''staker'')
       (ret_int log ''stakingEpoch'') (ret_int log ''amount''))"

definition getWithdrawalOrderEvents :: "chain \<Rightarrow> int \<Rightarrow> int \<Rightarrow> contract_event list result" where
  "getWithdrawalOrderEvents c a b =
     await (stamped c ''OrderedWithdrawal'' a b (\<lambda>log t.
       OrderedWithdrawalEvent ''OrderedWithdrawal'' (log_block log) t
         (ret_string log ''fromPoolStakingAddress'') (ret_string log ''staker'')
         (ret_int log ''stakingEpoch'') (ret_int log ''amount'')))
     (\<lambda>orders. await (stamped c ''ClaimedOrderedWithdrawal'' a b (\<lambda>log t.
       ClaimedOrderedWithdrawalEvent ''ClaimedOrderedWithdrawal'' (log_block log) t
         (ret_string log ''fromPoolStakingAddress'') (ret_string log ''staker'')
         (ret_int log ''stakingEpoch'') (ret_int log ''amount'')))
     (\<lambda>claims. Inr (orders @ claims)))"

definition availability ::
  "chain \<Rightarrow> string \<Rightarrow> bool \<Rightarrow> raw_log list \<Rightarrow> contract_event list result" where
  "availability c name av logs = mapM (\<lambda>log.
     await (stakingByMining c (ret_string log ''validator'') (log_block log))
       (\<lambda>pool. Inr (AvailabilityEvent name (log_block log) (ret_int log ''timestamp'') pool av))) logs"

definition getAvailabilityEvents :: "chain \<Rightarrow> int \<Rightarrow> int \<Rightarrow> contract_event list result" where
  "getAvailabilityEvents c a b =
     await (pastEvents c ''ValidatorAvailable'' a b)
     (\<lambda>becameAvailable. await (pastEvents c ''ValidatorUnavailable'' a b)
     (\<lambda>becameUnavailable. await (availability c ''ValidatorAvailable'' True becameAvailable)
     (\<lambda>up. await (availability c ''ValidatorUnavailable'' False becameUnavailable)
     (\<lambda>down. Inr (up @ down)))))"

definition getGatherAbandonedStakesEvents :: "chain \<Rightarrow> int \<Rightarrow> int \<Rightarrow> contract_event list result" where
  "getGatherAbandonedStakesEvents c a b = stamped c ''GatherAbandonedStakes'' a b (\<lambda>log t.
     GatherAbandonedStakesEvent ''GatherAbandonedStakes'' (log_block log) t
       (ret_string log ''caller'') (ret_string log ''stakingAddress'') (ret_int log ''gatheredFunds''))"

text \<open>\<open>Array.prototype.sort\<close> is stable; so is \<open>sort_key\<close>.\<close>

definition getStakeUpdateEvents :: "chain \<Rightarrow> int \<Rightarrow> int \<Rightarrow> contract_event list result" where
  "getStakeUpdateEvents c a b =
     await (getPlacedStakeEvents c a b) (\<lambda>stakeEvents.
     await (getWithdrewStakeEvents c a b) (\<lambda>withdrawalEvents.
     await (getMovedStakeEvents c a b) (\<lambda>moveStakeEvents.
     await (getWithdrawalOrderEvents c a b) (\<lambda>orderWithdrawalEvents.
     await (getGatherAbandonedStakesEvents c a b) (\<lambda>abandonedStakesEvents.
       Inr (sort_key blockNumber (stakeEvents @ withdrawalEvents @ moveStakeEvents @
         orderWithdrawalEvents @ abandonedStakesEvents)))))))"

section \<open>Name events\<close>

definition getNameRegisteredEvents :: "chain \<Rightarrow> int \<Rightarrow> int \<Rightarrow> contract_event list result" where
  "getNameRegisteredEvents c a b = (if \<not> registrarConfigured c then Inr [] else
     stamped c ''NameRegistered'' a b (\<lambda>log t.
       NameRegisteredEvent ''NameRegistered'' (log_block log) t (log_index log)
         (ret_string log ''node'') (ret_string log ''labelHash'') (ret_string log ''name'')
         (ret_int log ''expiration'') (log_tx log)))"

definition getNameActivatedEvents :: "chain \<Rightarrow> int \<Rightarrow> int \<Rightarrow> contract_event list result" where
  "getNameActivatedEvents c a b = (if \<not> registrarConfigured c then Inr [] else
     stamped c ''NameActivated'' a b (\<lambda>log t.
       NameActivatedEvent ''NameActivated'' (log_block log) t (log_index log)
         (ret_string log ''owner'') (ret_string log ''labelHash'') (ret_string log ''name'')
         (log_tx log)))"

definition getNameDeactivatedEvents :: "chain \<Rightarrow> int \<Rightarrow> int \<Rightarrow> contract_event list result" where
  "getNameDeactivatedEvents c a b = (if \<not> registrarConfigured c then Inr [] else
     stamped c ''NameDeactivated'' a b (\<lambda>log t.
       NameDeactivatedEvent ''NameDeactivated'' (log_block log) t (log_index log)
         (ret_string log ''owner'') (ret_string log ''labelHash'') (ret_string log ''name'')
         (log_tx log)))"

definition getNameRenewedEvents :: "chain \<Rightarrow> int \<Rightarrow> int \<Rightarrow> contract_event list result" where
  "getNameRenewedEvents c a b = (if \<not> registrarConfigured c then Inr [] else
     stamped c ''NameRenewed'' a b (\<lambda>log t.
       NameRenewedEvent ''NameRenewed'' (log_block log) t (log_index log)
         (ret_string log ''owner'') (ret_string log ''labelHash'') (ret_string log ''name'')
         (ret_int log ''expiration'') (log_tx log)))"

definition getNameBlockedSetEvents :: "chain \<Rightarrow> int \<Rightarrow> int \<Rightarrow> contract_event list result" where
  "getNameBlockedSetEvents c a b = (if \<not> registrarConfigured c then Inr [] else
     stamped c ''NameBlockedSet'' a b (\<lambda>log t.
       NameBlockedSetEvent ''NameBlockedSet'' (log_block log) t (log_index log)
         (ret_string log ''labelHash'') (ret_string log ''name'') (ret_bool log ''blocked'')
         (log_tx log)))"

definition getDmdNameTransferEvents :: "chain \<Rightarrow> int \<Rightarrow> int \<Rightarrow> contract_event list result" where
  "getDmdNameTransferEvents c a b = (if \<not> namesConfigured c then Inr [] else
     stamped c ''Transfer'' a b (\<lambda>log t.
       DmdNameTransferEvent ''Transfer'' (log_block log) t (log_index log)
         (ret_string log ''from'') (ret_string log ''to'') (nat (ret_int log ''tokenId''))
         (log_tx log)))"

text \<open>The position of a log in the chain, ordered by block and then by index.\<close>

datatype log_position = LogPosition (pos_block: int) (pos_index: int)

instantiation log_position :: linorder
begin

definition less_eq_log_position :: "log_position \<Rightarrow> log_position \<Rightarrow> bool" where
  "less_eq_log_position p q \<longleftrightarrow>
     pos_block p < pos_block q \<or> pos_block p = pos_block q \<and> pos_index p \<le> pos_index q"

definition less_log_position :: "log_position \<Rightarrow> log_position \<Rightarrow> bool" where
  "less_log_position p q \<longleftrightarrow>
     pos_block p < pos_block q \<or> pos_block p = pos_block q \<and> pos_index p < pos_index q"

instance
  by standard (auto simp: less_eq_log_position_def less_log_position_def log_position.expand)

end

fun position :: "contract_event \<Rightarrow> log_position" where
  "position (NameRegisteredEvent n b t l p h d x i) = LogPosition b l"
| "position (NameActivatedEvent n b t l p h d i) = LogPosition b l"
| "position (NameDeactivatedEvent n b t l p h d i) = LogPosition b l"
| "position (NameRenewedEvent n b t l p h d x i) = LogPosition b l"
| "position (NameBlockedSetEvent n b t l h d k i) = LogPosition b l"
| "position (DmdNameTransferEvent n b t l f p k i) = LogPosition b l"
| "position e = LogPosition (blockNumber e) 0"

definition getDmdNamingEvents :: "chain \<Rightarrow> int \<Rightarrow> int \<Rightarrow> contract_event list result" where
  "getDmdNamingEvents c a b =
     await (getNameRegisteredEvents c a b) (\<lambda>registered.
     await (getNameActivatedEvents c a b) (\<lambda>activated.
     await (getNameDeactivatedEvents c a b) (\<lambda>deactivated.
     await (getNameRenewedEvents c a b) (\<lambda>renewed.
     await (getNameBlockedSetEvents c a b) (\<lambda>blockedSet.
     await (getDmdNameTransferEvents c a b) (\<lambda>transfers.
       Inr (sort_key position (registered @ activated @ deactivated @ renewed @ blockedSet @
         transfers))))))))"

definition getAllEvents :: "chain \<Rightarrow> int \<Rightarrow> int \<Rightarrow> contract_event list result" where
  "getAllEvents c a b =
     await (getAvailabilityEvents c a b) (\<lambda>availabilityEvents.
     await (getStakeUpdateEvents c a b) (\<lambda>stakeUpdateEvents.
     await (getDmdNamingEvents c a b) (\<lambda>dmdNamingEvents.
       Inr (sort_key blockNumber (availabilityEvents @ stakeUpdateEvents @ dmdNamingEvents)))))"

section \<open>The event processor\<close>

definition fetchBlockEvents :: "chain \<Rightarrow> int \<Rightarrow> contract_event list result" where
  "fetchBlockEvents c block = getAllEvents c block block"

definition processEvents :: "contract_event list \<Rightarrow> unit action" where
  "processEvents events = (if length events = 0 then ret () else forEach events accept)"

definition getStakeMovementEvents :: "string list" where
  "getStakeMovementEvents = [''PlacedStake'', ''MovedStake'', ''WithdrewStake'',
     ''OrderedWithdrawal'', ''ClaimedOrderedWithdrawal'', ''GatherAbandonedStakes'']"

definition isStakeMovementEvent :: "contract_event \<Rightarrow> bool" where
  "isStakeMovementEvent event \<longleftrightarrow> eventName event \<in> set getStakeMovementEvents"

definition isPlacedStakeEvent :: "contract_event \<Rightarrow> bool" where
  "isPlacedStakeEvent event \<longleftrightarrow> eventName event = ''PlacedStake''"

text \<open>A JavaScript set keeps its elements in the order of their insertion.\<close>

definition set_add :: "'a \<Rightarrow> 'a list \<Rightarrow> 'a list" where
  "set_add x xs = (if x \<in> set xs then xs else xs @ [x])"

definition getPoolsSet :: "contract_event list \<Rightarrow> string list" where
  "getPoolsSet events = fold (\<lambda>event result.
     if \<not> isStakeMovementEvent event then result
     else if eventName event = ''MovedStake'' then
       set_add (to_lower (toPoolAddress event)) (set_add (to_lower (fromPoolAddress event)) result)
     else set_add (to_lower (poolAddress event)) result) events []"

definition getDelegatorsSet :: "contract_event list \<Rightarrow> string list" where
  "getDelegatorsSet events = fold (\<lambda>event result.
     if \<not> isPlacedStakeEvent event then result
     else if isDelegatorStake event then set_add (stakerAddress event) result
     else result) events []"

section \<open>What is fetched\<close>

text \<open>The name that \<open>ContractManager\<close> gives to an event of each class.\<close>

fun well_named :: "contract_event \<Rightarrow> bool" where
  "well_named (StakeChangedEvent n b t p s e a) \<longleftrightarrow> n = ''PlacedStake'' \<or> n = ''WithdrewStake''"
| "well_named (MovedStakeEvent n b t p q s e a) \<longleftrightarrow> n = ''MovedStake''"
| "well_named (OrderedWithdrawalEvent n b t p s e a) \<longleftrightarrow> n = ''OrderedWithdrawal''"
| "well_named (ClaimedOrderedWithdrawalEvent n b t p s e a) \<longleftrightarrow> n = ''ClaimedOrderedWithdrawal''"
| "well_named (GatherAbandonedStakesEvent n b t c p a) \<longleftrightarrow> n = ''GatherAbandonedStakes''"
| "well_named (AvailabilityEvent n b t p a) \<longleftrightarrow> n = ''ValidatorAvailable'' \<or> n = ''ValidatorUnavailable''"
| "well_named (NameRegisteredEvent n b t l p h d x i) \<longleftrightarrow> n = ''NameRegistered''"
| "well_named (NameActivatedEvent n b t l p h d i) \<longleftrightarrow> n = ''NameActivated''"
| "well_named (NameDeactivatedEvent n b t l p h d i) \<longleftrightarrow> n = ''NameDeactivated''"
| "well_named (NameRenewedEvent n b t l p h d x i) \<longleftrightarrow> n = ''NameRenewed''"
| "well_named (NameBlockedSetEvent n b t l h d k i) \<longleftrightarrow> n = ''NameBlockedSet''"
| "well_named (DmdNameTransferEvent n b t l f p k i) \<longleftrightarrow> n = ''Transfer''"

text \<open>The pools whose stake an event may change, and the class of an event.\<close>

fun stake_pools :: "contract_event \<Rightarrow> string list" where
  "stake_pools (StakeChangedEvent n b t p s e a) = [p]"
| "stake_pools (MovedStakeEvent n b t p q s e a) = [p, q]"
| "stake_pools (OrderedWithdrawalEvent n b t p s e a) = [p]"
| "stake_pools (ClaimedOrderedWithdrawalEvent n b t p s e a) = [p]"
| "stake_pools (GatherAbandonedStakesEvent n b t c p a) = [p]"
| "stake_pools e = []"

definition is_name_event :: "contract_event \<Rightarrow> bool" where
  "is_name_event e \<longleftrightarrow> upserted e \<noteq> None"

lemma mapM_all:
  "mapM f xs = Inr ys \<Longrightarrow> (\<And>x y. f x = Inr y \<Longrightarrow> P y) \<Longrightarrow> list_all P ys"
  by (induction xs arbitrary: ys) (auto simp: result_simps)

lemma stamped_all:
  assumes "stamped c name a b build = Inr es" "\<And>log t. P (build log t)"
  shows "list_all P es"
  using assms by (auto simp: stamped_def result_simps elim!: mapM_all)

lemma availability_all:
  assumes "availability c name av logs = Inr es"
    and "\<And>(log :: raw_log) p. P (AvailabilityEvent name (log_block log) (ret_int log ''timestamp'') p av)"
  shows "list_all P es"
  using assms by (auto simp: availability_def result_simps elim!: mapM_all)

abbreviation plain :: "contract_event \<Rightarrow> bool" where
  "plain e \<equiv> well_named e \<and> \<not> is_name_event e"

abbreviation naming :: "contract_event \<Rightarrow> bool" where
  "naming e \<equiv> well_named e \<and> is_name_event e"

lemma fetched_plain:
  "getPlacedStakeEvents c a b = Inr es \<Longrightarrow> list_all plain es"
  "getWithdrewStakeEvents c a b = Inr es \<Longrightarrow> list_all plain es"
  "getMovedStakeEvents c a b = Inr es \<Longrightarrow> list_all plain es"
  "getGatherAbandonedStakesEvents c a b = Inr es \<Longrightarrow> list_all plain es"
  unfolding getPlacedStakeEvents_def getWithdrewStakeEvents_def getMovedStakeEvents_def
    getGatherAbandonedStakesEvents_def
  by (erule stamped_all, simp add: is_name_event_def)+

lemma orders_plain:
  assumes "getWithdrawalOrderEvents c a b = Inr es"
  shows "list_all plain es"
proof -
  obtain orders claims where
    "stamped c ''OrderedWithdrawal'' a b (\<lambda>log t.
       OrderedWithdrawalEvent ''OrderedWithdrawal'' (log_block log) t
         (ret_string log ''fromPoolStakingAddress'') (ret_string log ''staker'')
         (ret_int log ''stakingEpoch'') (ret_int log ''amount'')) = Inr orders"
    "stamped c ''ClaimedOrderedWithdrawal'' a b (\<lambda>log t.
       ClaimedOrderedWithdrawalEvent ''ClaimedOrderedWithdrawal'' (log_block log) t
         (ret_string log ''fromPoolStakingAddress'') (ret_string log ''staker'')
         (ret_int log ''stakingEpoch'') (ret_int log ''amount'')) = Inr claims"
    "es = orders @ claims"
    using assms by (auto simp: getWithdrawalOrderEvents_def result_simps)
  then have "list_all plain orders" "list_all plain claims"
    by (auto elim!: stamped_all simp: is_name_event_def)
  then show ?thesis using \<open>es = orders @ claims\<close> by simp
qed

lemma availability_plain:
  assumes "getAvailabilityEvents c a b = Inr es"
  shows "list_all plain es"
proof -
  obtain l1 l2 up down where
    "availability c ''ValidatorAvailable'' True l1 = Inr up"
    "availability c ''ValidatorUnavailable'' False l2 = Inr down" "es = up @ down"
    using assms by (auto simp: getAvailabilityEvents_def result_simps)
  then have "list_all plain up" "list_all plain down"
    by (auto elim!: availability_all simp: is_name_event_def)
  then show ?thesis using \<open>es = up @ down\<close> by simp
qed

lemma fetched_naming:
  "getNameRegisteredEvents c a b = Inr es \<Longrightarrow> list_all naming es"
  "getNameActivatedEvents c a b = Inr es \<Longrightarrow> list_all naming es"
  "getNameDeactivatedEvents c a b = Inr es \<Longrightarrow> list_all naming es"
  "getNameRenewedEvents c a b = Inr es \<Longrightarrow> list_all naming es"
  "getNameBlockedSetEvents c a b = Inr es \<Longrightarrow> list_all naming es"
  "getDmdNameTransferEvents c a b = Inr es \<Longrightarrow> list_all naming es"
  unfolding getNameRegisteredEvents_def getNameActivatedEvents_def getNameDeactivatedEvents_def
    getNameRenewedEvents_def getNameBlockedSetEvents_def getDmdNameTransferEvents_def
  by (cases "registrarConfigured c"; cases "namesConfigured c"; simp;
      (elim stamped_all)?; auto simp: is_name_event_def Let_def)+

lemma getStakeUpdateEvents_plain:
  assumes "getStakeUpdateEvents c a b = Inr es"
  shows "list_all plain es" and "sorted (map blockNumber es)"
proof -
  obtain e1 e2 e3 e4 e5 where f: "getPlacedStakeEvents c a b = Inr e1"
    "getWithdrewStakeEvents c a b = Inr e2" "getMovedStakeEvents c a b = Inr e3"
    "getWithdrawalOrderEvents c a b = Inr e4" "getGatherAbandonedStakesEvents c a b = Inr e5"
    and es: "es = sort_key blockNumber (e1 @ e2 @ e3 @ e4 @ e5)"
    using assms by (auto simp: getStakeUpdateEvents_def result_simps)
  show "sorted (map blockNumber es)" unfolding es by simp
  show "list_all plain es"
    using fetched_plain(1) [OF f(1)] fetched_plain(2) [OF f(2)] fetched_plain(3) [OF f(3)]
      orders_plain [OF f(4)] fetched_plain(4) [OF f(5)]
    unfolding es list_all_iff by auto
qed

lemma getDmdNamingEvents_naming:
  assumes "getDmdNamingEvents c a b = Inr es"
  shows "list_all naming es" and "sorted (map position es)"
proof -
  obtain e1 e2 e3 e4 e5 e6 where f: "getNameRegisteredEvents c a b = Inr e1"
    "getNameActivatedEvents c a b = Inr e2" "getNameDeactivatedEvents c a b = Inr e3"
    "getNameRenewedEvents c a b = Inr e4" "getNameBlockedSetEvents c a b = Inr e5"
    "getDmdNameTransferEvents c a b = Inr e6"
    and es: "es = sort_key position (e1 @ e2 @ e3 @ e4 @ e5 @ e6)"
    using assms by (auto simp: getDmdNamingEvents_def result_simps)
  show "sorted (map position es)" unfolding es by simp
  show "list_all naming es"
    using fetched_naming(1) [OF f(1)] fetched_naming(2) [OF f(2)] fetched_naming(3) [OF f(3)]
      fetched_naming(4) [OF f(4)] fetched_naming(5) [OF f(5)] fetched_naming(6) [OF f(6)]
    unfolding es list_all_iff by auto
qed

lemma pos_block_position [simp]: "pos_block (position e) = blockNumber e"
  by (cases e) simp_all

lemma sorted_position_block: "sorted (map position es) \<Longrightarrow> sorted (map blockNumber es)"
  by (induction es) (fastforce simp: less_eq_log_position_def)+

text \<open>The events fetched for a range of blocks come in the order of their blocks, each
  carries the name of its class, and the name events among them are in the chain's order of
  logs.\<close>

theorem fetched_events_in_order:
  assumes "getAllEvents c a b = Inr es"
  shows "sorted (map blockNumber es) \<and> list_all well_named es \<and>
         sorted (map position (filter is_name_event es))"
proof -
  obtain av st nm where f: "getAvailabilityEvents c a b = Inr av"
    "getStakeUpdateEvents c a b = Inr st" "getDmdNamingEvents c a b = Inr nm"
    and es: "es = sort_key blockNumber (av @ st @ nm)"
    using assms by (auto simp: getAllEvents_def result_simps)
  note av = availability_plain [OF f(1)] and st = getStakeUpdateEvents_plain [OF f(2)]
    and nm = getDmdNamingEvents_naming [OF f(3)]
  have "filter is_name_event av = []" "filter is_name_event st = []" "filter is_name_event nm = nm"
    using av st(1) nm(1) by (auto simp: list_all_iff filter_empty_conv filter_id_conv)
  then have "filter is_name_event es = sort_key blockNumber nm" unfolding es filter_sort by simp
  also have "\<dots> = nm" by (rule sort_key_id_if_sorted [OF sorted_position_block [OF nm(2)]])
  finally have "filter is_name_event es = nm" .
  moreover have "list_all well_named es" using av st(1) nm(1) unfolding es list_all_iff by auto
  moreover have "sorted (map blockNumber es)" unfolding es by simp
  ultimately show ?thesis using nm(2) by simp
qed

definition sample_log :: "int \<Rightarrow> int \<Rightarrow> raw_log" where
  "sample_log b i = \<lparr>log_block = b, log_index = i, log_tx = ''0x01'', ret_string = (\<lambda>_. ''0xaa''),
     ret_int = (\<lambda>_. 7), ret_bool = (\<lambda>_. True)\<rparr>"

definition sample_chain :: chain where
  "sample_chain = \<lparr>pastEvents = (\<lambda>name a b.
      if name = ''Transfer'' then Inr [sample_log a 1, sample_log a 4]
      else if name = ''NameRenewed'' then Inr [sample_log a 3]
      else if name = ''PlacedStake'' then Inr [sample_log a 2] else Inr []),
    blockTimestampAt = (\<lambda>b. Inr (5 * b)), stakingByMining = (\<lambda>a _. Inr a),
    registrarConfigured = True, namesConfigured = True\<rparr>"

definition sample_fetched :: "contract_event list" where
  "sample_fetched = (case getAllEvents sample_chain 4 4 of Inl _ \<Rightarrow> [] | Inr es \<Rightarrow> es)"

lemma sample_fetch: "getAllEvents sample_chain 4 4 = Inr sample_fetched"
proof -
  have "\<not> isl (getAllEvents sample_chain 4 4)" by code_simp
  then show ?thesis by (cases "getAllEvents sample_chain 4 4") (simp_all add: sample_fetched_def)
qed

lemma fetched_events_in_order_witness:
  "length sample_fetched = 4 \<and> sorted (map blockNumber sample_fetched) \<and>
   sorted (map position (filter is_name_event sample_fetched))"
proof -
  have "length sample_fetched = 4" by code_simp
  then show ?thesis using fetched_events_in_order [OF sample_fetch] by blast
qed

lemma set_set_add [simp]: "set (set_add x xs) = insert x (set xs)"
  by (auto simp: set_add_def)

lemma stake_pools_movement:
  assumes "well_named e"
  shows "isStakeMovementEvent e \<longleftrightarrow> stake_pools e \<noteq> []"
    and "isStakeMovementEvent e \<Longrightarrow> stake_pools e =
      (if eventName e = ''MovedStake'' then [fromPoolAddress e, toPoolAddress e] else [poolAddress e])"
  using assms by (cases e; auto simp: isStakeMovementEvent_def getStakeMovementEvents_def)+

text \<open>The set of pools that the importer makes nodes for before it processes a block's events
  is, up to letter case, exactly the set of pools whose stake those events book.\<close>

theorem pools_set_is_booked_pools:
  assumes "list_all well_named events"
  shows "set (getPoolsSet events) = {to_lower p | p e. e \<in> set events \<and> p \<in> set (stake_pools e)}"
proof -
  have "set (fold (\<lambda>event result.
     if \<not> isStakeMovementEvent event then result
     else if eventName event = ''MovedStake'' then
       set_add (to_lower (toPoolAddress event)) (set_add (to_lower (fromPoolAddress event)) result)
     else set_add (to_lower (poolAddress event)) result) events start) =
     set start \<union> {to_lower p | p e. e \<in> set events \<and> p \<in> set (stake_pools e)}" for start
    using assms
  proof (induction events arbitrary: start)
    case (Cons e events)
    then have e: "well_named e" and es: "list_all well_named events" by auto
    have split: "{to_lower p | p x. x \<in> set (e # events) \<and> p \<in> set (stake_pools x)} =
        to_lower ` set (stake_pools e) \<union> {to_lower p | p x. x \<in> set events \<and> p \<in> set (stake_pools x)}"
      by auto
    show ?case unfolding split
      using stake_pools_movement [OF e] Cons.IH [OF es]
      by (cases "isStakeMovementEvent e") auto
  qed simp
  then show ?thesis unfolding getPoolsSet_def by simp
qed

lemma pools_set_is_booked_pools_witness:
  "set (getPoolsSet sample_events) = {to_lower p | p e. e \<in> set sample_events \<and> p \<in> set (stake_pools e)}"
  by (rule pools_set_is_booked_pools) (simp add: sample_events_def placed_def)

end
