(* ===== verification/Network.thy ===== *)
theory Network imports EventProcessor begin

text \<open>
  What the importer asks the blockchain node, and the state it keeps in memory.

  The calls of web3 and of the contracts are a parameter: the record \<open>network\<close> has one field
  per remote call, with the block as an argument, and each call may reject. The wrappers of
  the class ContractManager (src/src/contractManager.ts) that compute something are
  definitions. \<open>importer\<close> is the memory of the process that src/src/db/runFillDb.ts starts: the
  DbManager and the fields of the ValidatorObserver, of the BonusScoreProcessor, of the
  EventProcessor (the events it has fetched), of the ContractManager (a cache) and of
  \<open>run()\<close>.
\<close>

section \<open>Remote calls\<close>

record block_header =
  bh_number :: int
  bh_hash :: string
  bh_timestamp :: int
  bh_extraData :: string
  bh_transactions :: "string list"

record network =
  events_of :: chain
  call_getBlock :: "int \<Rightarrow> block_header result"
  call_getBlockNumber :: "int result"
  call_getBalance :: "string \<Rightarrow> int option \<Rightarrow> wei result"
  call_stakingEpoch :: "int \<Rightarrow> int result"
  call_stakingEpochStartBlock :: "int \<Rightarrow> int result"
  call_getPools :: "int \<Rightarrow> string list result"
  call_getPoolsInactive :: "int \<Rightarrow> string list result"
  call_poolDelegators :: "string \<Rightarrow> int \<Rightarrow> string list result"
  call_poolDelegatorsInactive :: "string \<Rightarrow> int \<Rightarrow> string list result"
  call_stakeAmount :: "string \<Rightarrow> string \<Rightarrow> int \<Rightarrow> wei result"
  call_stakeAmountTotal :: "string \<Rightarrow> int \<Rightarrow> wei result"
  call_candidateMinStake :: "int \<Rightarrow> wei result"
  call_poolNodeOperatorShare :: "string \<Rightarrow> int \<Rightarrow> int result"
  call_snapshotPoolTotalStakeAmount :: "int \<Rightarrow> string \<Rightarrow> wei result"
  call_epochPoolNativeReward :: "int \<Rightarrow> string \<Rightarrow> int \<Rightarrow> wei result"
  call_validatorMinRewardPercent :: "int \<Rightarrow> int \<Rightarrow> int result"
  call_miningByStakingAddress :: "string \<Rightarrow> int \<Rightarrow> string result"
  call_stakingByMiningAddress :: "string \<Rightarrow> int \<Rightarrow> string result"
  call_publicKeyByStakingAddress :: "string \<Rightarrow> int \<Rightarrow> string result"
  call_getValidators :: "int \<Rightarrow> string list result"
  call_getPendingValidators :: "int \<Rightarrow> string list result"
  call_getCurrentKeyGenRound :: "int \<Rightarrow> int result"
  call_validatorAvailableSince :: "string \<Rightarrow> int \<Rightarrow> int result"
  call_getAcksLength :: "string \<Rightarrow> int \<Rightarrow> int result"
  call_getValidatorScore :: "string \<Rightarrow> int \<Rightarrow> int result"
  call_standByFactor :: "int \<Rightarrow> int result"
  call_deltaPot :: "int \<Rightarrow> wei result"
  call_reinsertPot :: "int \<Rightarrow> wei result"
  call_blockRewardContract :: "int \<Rightarrow> string result"
  call_getGovernanceAddress :: "string result"
  claimingPotAddress :: string

definition getAllPools :: "network \<Rightarrow> int \<Rightarrow> string list result" where
  "getAllPools n b = await (call_getPools n b)
     (\<lambda>pools. await (call_getPoolsInactive n b) (\<lambda>poolsInactive. Inr (pools @ poolsInactive)))"

definition getAllPoolDelegators :: "network \<Rightarrow> string \<Rightarrow> int \<Rightarrow> string list result" where
  "getAllPoolDelegators n pool b = await (call_poolDelegators n pool b)
     (\<lambda>delegators. await (call_poolDelegatorsInactive n pool b)
       (\<lambda>delegatorsInactive. Inr (delegators @ delegatorsInactive)))"

text \<open>The candidates with enough stake are collected in \<open>result\<close>, but all pools are returned.\<close>

definition getValidatorCandidates :: "network \<Rightarrow> int \<Rightarrow> string list result" where
  "getValidatorCandidates n b =
     await (call_getPools n b) (\<lambda>pools.
     await (call_candidateMinStake n b) (\<lambda>minStake.
     await (forM pools (\<lambda>p result. await (call_stakeAmountTotal n p b)
       (\<lambda>poolStake. Inr (if poolStake \<ge> minStake then result @ [p] else result))) [])
     (\<lambda>result. Inr pools)))"

definition isValidatorAvailable :: "network \<Rightarrow> string \<Rightarrow> int \<Rightarrow> bool result" where
  "isValidatorAvailable n mining b =
     await (call_validatorAvailableSince n mining b) (\<lambda>since. Inr (since \<noteq> 0))"

definition getGovernancePot :: "network \<Rightarrow> int \<Rightarrow> wei result" where
  "getGovernancePot n b =
     await (call_getGovernanceAddress n) (\<lambda>address. call_getBalance n address (Some b))"

definition getRewardContractTotal :: "network \<Rightarrow> int \<Rightarrow> wei result" where
  "getRewardContractTotal n b =
     await (call_blockRewardContract n b) (\<lambda>address. call_getBalance n address (Some b))"

text \<open>\<open>transaction_count / duration\<close>: two blocks can have the same timestamp.\<close>

definition js_div :: "int \<Rightarrow> int \<Rightarrow> js_ratio" where
  "js_div a b = (if b \<noteq> 0 then Ratio (of_int a / of_int b) else if a = 0 then NaN else Infinity)"

record block_infos =
  bi_timeStamp :: int
  bi_duration :: int
  bi_transaction_count :: int
  bi_txs_per_sec :: js_ratio
  bi_posdaoEpoch :: int

definition getBlockInfos :: "network \<Rightarrow> block_header \<Rightarrow> int \<Rightarrow> block_infos result" where
  "getBlockInfos n blockHeader blockBeforeTimestamp =
     (let timeStamp = bh_timestamp blockHeader;
          duration = timeStamp - blockBeforeTimestamp;
          transaction_count = int (length (bh_transactions blockHeader))
      in await (call_stakingEpoch n (bh_number blockHeader)) (\<lambda>posdaoEpoch.
        Inr \<lparr>bi_timeStamp = timeStamp, bi_duration = duration,
             bi_transaction_count = transaction_count,
             bi_txs_per_sec = js_div transaction_count duration, bi_posdaoEpoch = posdaoEpoch\<rparr>))"

section \<open>The importer's memory\<close>

datatype BonusScoreChangeReasonKind =
  StandByBonus | NoStandByPenalty | NoKeyWritePenalty | BadPerformancePenalty | Unknown

record BonusScoreChangeEvent =
  be_blockNumber :: int
  be_validator :: string
  be_poolAddress :: string
  be_epoch :: int
  be_previousScore :: int
  be_newScore :: int
  be_scoreChange :: int
  be_reason :: BonusScoreChangeReasonKind

record importer =
  db_manager :: manager
  currentValidators :: "string list"
  pendingValidators :: "string list"
  currentKeyGenRound :: int
  currentPosdaoEpoch :: int
  currentBonusScores :: "string \<rightharpoonup> int"
  lastKnownStandByFactor :: "int option"
  scoreChangeEvents :: "BonusScoreChangeEvent list"
  knownNodes :: "string \<rightharpoonup> Node"
  knownNodesByMining :: "string \<rightharpoonup> Node"
  fetchedEvents :: "contract_event list"
  cachedValidatorMinRewardPercent :: "int \<rightharpoonup> int"
  lastInsertedPosdaoEpoch :: int
  blockBeforeTimestamp :: int
  currentBlockNumber :: int
  latest_known_block :: int

type_synonym 'a task = "(importer, 'a) prog"

definition remote :: "'a result \<Rightarrow> 'a task" where
  "remote r w = (r, w)"

definition on_db :: "'a action \<Rightarrow> 'a task" where
  "on_db A w = (case A (db_manager w) of (r, m) \<Rightarrow> (r, w\<lparr>db_manager := m\<rparr>))"

definition modify :: "(importer \<Rightarrow> importer) \<Rightarrow> unit task" where
  "modify f w = (Inr (), f w)"

definition inspect :: "(importer \<Rightarrow> 'a) \<Rightarrow> 'a task" where
  "inspect f w = (Inr (f w), w)"

lemma remote_Inr [action_simps]: "remote r w = (Inr x, w') \<longleftrightarrow> r = Inr x \<and> w' = w"
  by (auto simp: remote_def)

lemma on_db_Inr [action_simps]:
  "on_db A w = (Inr x, w') \<longleftrightarrow>
     (\<exists>m. A (db_manager w) = (Inr x, m) \<and> w' = w\<lparr>db_manager := m\<rparr>)"
  by (auto simp: on_db_def split: prod.splits)

lemma modify_Inr [action_simps]: "modify f w = (Inr u, w') \<longleftrightarrow> w' = f w"
  by (auto simp: modify_def)

lemma inspect_Inr [action_simps]: "inspect f w = (Inr x, w') \<longleftrightarrow> x = f w \<and> w' = w"
  by (auto simp: inspect_def)

section \<open>A network and an importer to apply the theorems to\<close>

definition sample_network :: network where
  "sample_network = \<lparr>events_of = sample_chain,
    call_getBlock = (\<lambda>b. Inr \<lparr>bh_number = b, bh_hash = ''0xff'', bh_timestamp = 5 * b,
       bh_extraData = ''0x'', bh_transactions = [''0x01'']\<rparr>),
    call_getBlockNumber = Inr 9, call_getBalance = (\<lambda>_ _. Inr 100),
    call_stakingEpoch = (\<lambda>b. Inr (if b < 8 then 0 else 1)), call_stakingEpochStartBlock = (\<lambda>_. Inr 0),
    call_getPools = (\<lambda>_. Inr [''0xAA'']), call_getPoolsInactive = (\<lambda>_. Inr [''0xbb'']),
    call_poolDelegators = (\<lambda>_ _. Inr [''0xcc'', ''0xdd'']), call_poolDelegatorsInactive = (\<lambda>_ _. Inr []),
    call_stakeAmount = (\<lambda>_ _ _. Inr 500), call_stakeAmountTotal = (\<lambda>p _. Inr (if p = ''0xAA'' then 1000 else 0)),
    call_candidateMinStake = (\<lambda>_. Inr 10), call_poolNodeOperatorShare = (\<lambda>_ _. Inr 1000),
    call_snapshotPoolTotalStakeAmount = (\<lambda>_ _. Inr 1000), call_epochPoolNativeReward = (\<lambda>_ _ _. Inr 300),
    call_validatorMinRewardPercent = (\<lambda>_ _. Inr 20), call_miningByStakingAddress = (\<lambda>p _. Inr p),
    call_stakingByMiningAddress = (\<lambda>m _. Inr m),
    call_publicKeyByStakingAddress = (\<lambda>p _. Inr p), call_getValidators = (\<lambda>_. Inr [''0xAA'']),
    call_getPendingValidators = (\<lambda>_. Inr [''0xBB'']), call_getCurrentKeyGenRound = (\<lambda>_. Inr 1),
    call_validatorAvailableSince = (\<lambda>_ _. Inr 1), call_getAcksLength = (\<lambda>_ _. Inr 0),
    call_getValidatorScore = (\<lambda>_ b. Inr (100 + b)), call_standByFactor = (\<lambda>_. Inr 15),
    call_deltaPot = (\<lambda>_. Inr 1), call_reinsertPot = (\<lambda>_. Inr 2),
    call_blockRewardContract = (\<lambda>_. Inr ''0x20''), call_getGovernanceAddress = Inr ''0x30'',
    claimingPotAddress = ''0x40''\<rparr>"

definition sample_importer :: importer where
  "sample_importer = \<lparr>db_manager = sample_manager, currentValidators = [], pendingValidators = [],
     currentKeyGenRound = 0, currentPosdaoEpoch = 0, currentBonusScores = Map.empty,
     lastKnownStandByFactor = None, scoreChangeEvents = [], knownNodes = Map.empty,
     knownNodesByMining = Map.empty, fetchedEvents = [],
     cachedValidatorMinRewardPercent = Map.empty, lastInsertedPosdaoEpoch = 0, blockBeforeTimestamp = 0,
     currentBlockNumber = 4, latest_known_block = 9\<rparr>"

end
