(* ===== verification/BonusScore.thy ===== *)
theory BonusScore imports Network begin

text \<open>
  Bonus scores: src/src/bonusScoreReasonDetector.ts and src/src/db/bonusScoreProcessor.ts. The
  tasks that \<open>processBatch\<close> starts together are run one after the other here, in the order of
  the pools.
\<close>

section \<open>Detecting the reason of a change\<close>

record ReasonDetectionContext =
  cx_validator :: string
  cx_poolAddress :: string
  cx_blockNumber :: int
  cx_epoch :: int
  cx_previousScore :: int
  cx_newScore :: int
  cx_scoreChange :: int

definition reason_name :: "BonusScoreChangeReasonKind \<Rightarrow> string" where
  "reason_name r = (case r of StandByBonus \<Rightarrow> ''StandByBonus'' | NoStandByPenalty \<Rightarrow> ''NoStandByPenalty''
     | NoKeyWritePenalty \<Rightarrow> ''NoKeyWritePenalty'' | BadPerformancePenalty \<Rightarrow> ''BadPerformancePenalty''
     | Unknown \<Rightarrow> ''Unknown'')"

text \<open>A check whose remote call fails takes its default.\<close>

definition or_default :: "'a \<Rightarrow> 'a result \<Rightarrow> 'a" where
  "or_default d r = (case r of Inl _ \<Rightarrow> d | Inr x \<Rightarrow> x)"

definition isValidatorInActiveSet :: "network \<Rightarrow> ReasonDetectionContext \<Rightarrow> bool" where
  "isValidatorInActiveSet n context = or_default False
     (await (call_getValidators n (cx_blockNumber context))
       (\<lambda>validators. Inr (to_lower (cx_validator context) \<in> set validators)))"

definition isValidatorConnected :: "network \<Rightarrow> ReasonDetectionContext \<Rightarrow> bool" where
  "isValidatorConnected n context =
     or_default True (isValidatorAvailable n (cx_validator context) (cx_blockNumber context))"

definition hasValidatorSubmittedRequiredKeys :: "network \<Rightarrow> ReasonDetectionContext \<Rightarrow> bool" where
  "hasValidatorSubmittedRequiredKeys n context = or_default True
     (await (call_getAcksLength n (cx_validator context) (cx_blockNumber context))
       (\<lambda>acksLength. Inr (acksLength > 0)))"

definition hasValidatorGoodPerformance :: "network \<Rightarrow> ReasonDetectionContext \<Rightarrow> bool" where
  "hasValidatorGoodPerformance n context = False"

definition detectPositiveScoreReason ::
  "network \<Rightarrow> ReasonDetectionContext \<Rightarrow> BonusScoreChangeReasonKind" where
  "detectPositiveScoreReason n context =
     (let isConnected = isValidatorConnected n context in
      if isConnected then StandByBonus else Unknown)"

definition detectNegativeScoreReason ::
  "network \<Rightarrow> ReasonDetectionContext \<Rightarrow> BonusScoreChangeReasonKind" where
  "detectNegativeScoreReason n context =
     (let isInValidatorSet = isValidatorInActiveSet n context;
          isConnected = isValidatorConnected n context in
      if \<not> isInValidatorSet \<or> \<not> isConnected then NoStandByPenalty
      else if \<not> hasValidatorSubmittedRequiredKeys n context then NoKeyWritePenalty
      else if \<not> hasValidatorGoodPerformance n context then BadPerformancePenalty
      else Unknown)"

definition detectReason :: "network \<Rightarrow> ReasonDetectionContext \<Rightarrow> BonusScoreChangeReasonKind" where
  "detectReason n context =
     (if cx_scoreChange context > 0 then detectPositiveScoreReason n context
      else if cx_scoreChange context < 0 then detectNegativeScoreReason n context
      else Unknown)"

section \<open>The processor\<close>

definition BATCH_SIZE :: nat where "BATCH_SIZE = 50"

definition miningScore :: "network \<Rightarrow> string \<Rightarrow> int \<Rightarrow> (string \<times> int) result" where
  "miningScore n pool b = await (call_miningByStakingAddress n pool b)
     (\<lambda>mining. await (call_getValidatorScore n mining b) (\<lambda>score. Inr (mining, score)))"

definition cacheScore :: "string \<Rightarrow> int \<Rightarrow> unit task" where
  "cacheScore pool score =
     modify (\<lambda>w. w\<lparr>currentBonusScores := (currentBonusScores w)(to_lower pool \<mapsto> score)\<rparr>)"

definition loadBonusScore :: "network \<Rightarrow> int \<Rightarrow> string \<Rightarrow> unit task" where
  "loadBonusScore n b pool = andThen (remote (miningScore n pool b))
     (\<lambda>(mining, bonusScore). cacheScore pool bonusScore)"

definition loadBonusScoresBatch :: "network \<Rightarrow> string list \<Rightarrow> int \<Rightarrow> unit task" where
  "loadBonusScoresBatch n pools b = forEach pools (\<lambda>pool. try_catch (loadBonusScore n b pool) (\<lambda>_. ret ()))"

text \<open>\<open>for (i = 0; i < length; i += BATCH_SIZE)\<close> over slices\<close>

fun batches :: "nat \<Rightarrow> 'a list \<Rightarrow> 'a list list" where
  "batches n [] = []"
| "batches n (x # xs) = (if n = 0 then [x # xs] else take n (x # xs) # batches n (drop (n - 1) xs))"

definition batchLoadBonusScores :: "network \<Rightarrow> string list \<Rightarrow> int \<Rightarrow> unit task" where
  "batchLoadBonusScores n pools b =
     forEach (batches BATCH_SIZE pools) (\<lambda>batch. loadBonusScoresBatch n batch b)"

definition initBonusScores :: "network \<Rightarrow> int \<Rightarrow> unit task" where
  "initBonusScores n b =
     andThen (remote (getAllPools n b)) (\<lambda>allPools.
     andThen (modify (\<lambda>w. w\<lparr>lastKnownStandByFactor :=
       (case call_standByFactor n b of Inl _ \<Rightarrow> None | Inr f \<Rightarrow> Some f)\<rparr>)) (\<lambda>_.
     if length allPools > BATCH_SIZE then batchLoadBonusScores n allPools b
     else forEach allPools (loadBonusScore n b)))"

definition registerNewNode :: "network \<Rightarrow> string \<Rightarrow> string \<Rightarrow> int \<Rightarrow> unit task" where
  "registerNewNode n pool mining b =
     andThen (remote (call_getValidatorScore n mining b)) (\<lambda>currentScore.
     andThen (on_db (writeInitialBonusScore pool b currentScore)) (\<lambda>_.
     cacheScore pool currentScore))"

text \<open>Whether the factor changed; a failed call leaves the tracked value and reports no change.\<close>

definition checkStandByFactorChange :: "network \<Rightarrow> int \<Rightarrow> bool task" where
  "checkStandByFactorChange n b w = (case call_standByFactor n b of
       Inl _ \<Rightarrow> (Inr False, w)
     | Inr factorValue \<Rightarrow>
         (Inr (lastKnownStandByFactor w \<noteq> None \<and> Some factorValue \<noteq> lastKnownStandByFactor w),
          w\<lparr>lastKnownStandByFactor := Some factorValue\<rparr>))"

record score_change =
  sc_pool :: string
  sc_mining :: string
  sc_previousScore :: int
  sc_newScore :: int

text \<open>The task of one pool; \<open>existingScore || 0\<close> is 0 for an unknown pool.\<close>

definition processPool :: "network \<Rightarrow> int \<Rightarrow> string \<Rightarrow> score_change list task" where
  "processPool n b pool = try_catch
     (andThen (remote (miningScore n pool b)) (\<lambda>(mining, currentScore).
      andThen (inspect (\<lambda>w. currentBonusScores w (to_lower pool))) (\<lambda>existingScore.
      if Some currentScore \<noteq> existingScore then
        andThen (on_db (updateBonusScore pool currentScore b)) (\<lambda>_.
        andThen (cacheScore pool currentScore) (\<lambda>_.
        ret [\<lparr>sc_pool = pool, sc_mining = mining,
              sc_previousScore = (case existingScore of None \<Rightarrow> 0 | Some s \<Rightarrow> s),
              sc_newScore = currentScore\<rparr>]))
      else ret [])))
     (\<lambda>_. ret [])"

definition processBatch :: "network \<Rightarrow> string list \<Rightarrow> int \<Rightarrow> score_change list task" where
  "processBatch n pools b = collect pools (processPool n b)"

definition processReason :: "network \<Rightarrow> int \<Rightarrow> int \<Rightarrow> score_change \<Rightarrow> unit task" where
  "processReason n b epochId change = try_catch
     (let reason = detectReason n
            \<lparr>cx_validator = sc_mining change, cx_poolAddress = sc_pool change, cx_blockNumber = b,
             cx_epoch = epochId, cx_previousScore = sc_previousScore change,
             cx_newScore = sc_newScore change,
             cx_scoreChange = sc_newScore change - sc_previousScore change\<rparr>
      in andThen (modify (\<lambda>w. w\<lparr>scoreChangeEvents := scoreChangeEvents w @
            [\<lparr>be_blockNumber = b, be_validator = sc_mining change, be_poolAddress = sc_pool change,
              be_epoch = epochId, be_previousScore = sc_previousScore change,
              be_newScore = sc_newScore change,
              be_scoreChange = sc_newScore change - sc_previousScore change, be_reason = reason\<rparr>]\<rparr>))
         (\<lambda>_. on_db (insertBonusScoreChangeReason (sc_pool change) b epochId
            (sc_newScore change - sc_previousScore change) (sc_previousScore change)
            (sc_newScore change) (reason_name reason))))
     (\<lambda>_. ret ())"

definition processReasonDetection :: "network \<Rightarrow> score_change list \<Rightarrow> int \<Rightarrow> unit task" where
  "processReasonDetection n changedPools b =
     andThen (on_db (getEpochByBlock b)) (\<lambda>epochData.
     forEach changedPools (processReason n b (case epochData of None \<Rightarrow> 0 | Some i \<Rightarrow> i)))"

definition processBonusScore :: "network \<Rightarrow> int \<Rightarrow> string list \<Rightarrow> unit task" where
  "processBonusScore n b allPools =
     andThen (checkStandByFactorChange n b) (\<lambda>_.
     andThen (modify (\<lambda>w. w\<lparr>scoreChangeEvents := []\<rparr>)) (\<lambda>_.
     andThen (if length allPools > BATCH_SIZE
       then collect (batches BATCH_SIZE allPools) (\<lambda>batch. processBatch n batch b)
       else processBatch n allPools b) (\<lambda>changedPools.
     if length changedPools > 0 then processReasonDetection n changedPools b else ret ())))"

end
