(* ===== verification/BonusTimeline.thy ===== *)
theory BonusTimeline imports BonusScore begin

text \<open>
  The table \<open>bonus_score_history\<close> as a timeline: which score a node has at a block. An update at
  block \<open>b\<close> (\<open>updateBonusScore\<close> of src/src/db/database-persistent.ts) overwrites the timeline
  from \<open>b\<close> on and leaves the past as it was.
\<close>

definition covers :: "int \<Rightarrow> BonusScoreHistory \<Rightarrow> bool" where
  "covers x r \<longleftrightarrow> bs_from_block r \<le> x \<and> nullable (\<lambda>t. x \<le> t) (bs_to_block r)"

definition ends_before :: "BonusScoreHistory \<Rightarrow> BonusScoreHistory \<Rightarrow> bool" where
  "ends_before r q \<longleftrightarrow> (case bs_to_block r of None \<Rightarrow> False | Some t \<Rightarrow> t < bs_from_block q)"

text \<open>Keys are unique, nothing starts after \<open>t\<close>, what is closed ended before \<open>t\<close>, and two rows of
  one node never overlap.\<close>

definition history_ok :: "int \<Rightarrow> BonusScoreHistory list \<Rightarrow> bool" where
  "history_ok t rows \<longleftrightarrow> distinct (map bonus_score_history_key rows) \<and>
     list_all (\<lambda>r. bs_from_block r \<le> t \<and> nullable (\<lambda>x. x < t) (bs_to_block r)) rows \<and>
     list_all (\<lambda>r. list_all (\<lambda>q. bs_node r = bs_node q \<and> r \<noteq> q \<longrightarrow>
       ends_before r q \<or> ends_before q r) rows) rows"

definition score_at :: "BonusScoreHistory list \<Rightarrow> buffer \<Rightarrow> int \<Rightarrow> int option" where
  "score_at rows p x = map_option bs_score (find (\<lambda>r. bs_node r = p \<and> covers x r) rows)"

definition overwrite :: "buffer \<Rightarrow> int \<Rightarrow> int \<Rightarrow> (buffer \<Rightarrow> int \<Rightarrow> int option) \<Rightarrow> buffer \<Rightarrow> int \<Rightarrow> int option" where
  "overwrite p s b timeline = (\<lambda>q x. if q = p \<and> b \<le> x then Some s else timeline q x)"

lemma history_okD:
  assumes "history_ok t rows"
  shows "distinct (map bonus_score_history_key rows)"
    and "r \<in> set rows \<Longrightarrow> bs_from_block r \<le> t"
    and "r \<in> set rows \<Longrightarrow> nullable (\<lambda>x. x < t) (bs_to_block r)"
    and "r \<in> set rows \<Longrightarrow> q \<in> set rows \<Longrightarrow> bs_node r = bs_node q \<Longrightarrow> r \<noteq> q \<Longrightarrow> ends_before r q \<or> ends_before q r"
  using assms by (auto simp: history_ok_def list_all_iff)

lemma ends_before_covers: "ends_before r q \<Longrightarrow> covers x r \<Longrightarrow> covers x q \<Longrightarrow> False"
  by (auto simp: ends_before_def covers_def nullable_def split: option.splits)

lemma covers_unique:
  assumes "history_ok t rows" "r \<in> set rows" "q \<in> set rows" "bs_node r = p" "bs_node q = p"
    and "covers x r" "covers x q"
  shows "r = q"
  using history_okD(4) [OF assms(1-3)] assms(4-7) ends_before_covers by metis

lemma score_at_Some:
  assumes "history_ok t rows"
  shows "score_at rows p x = Some s \<longleftrightarrow> (\<exists>r \<in> set rows. bs_node r = p \<and> covers x r \<and> bs_score r = s)"
proof
  assume "score_at rows p x = Some s"
  then show "\<exists>r \<in> set rows. bs_node r = p \<and> covers x r \<and> bs_score r = s"
    by (auto simp: score_at_def find_Some_iff)
next
  assume "\<exists>r \<in> set rows. bs_node r = p \<and> covers x r \<and> bs_score r = s"
  then obtain r where r: "r \<in> set rows" "bs_node r = p" "covers x r" "bs_score r = s" by blast
  then have "find (\<lambda>r. bs_node r = p \<and> covers x r) rows \<noteq> None" by (auto simp: find_None_iff)
  then obtain q where q: "find (\<lambda>r. bs_node r = p \<and> covers x r) rows = Some q" by blast
  then have "q \<in> set rows \<and> bs_node q = p \<and> covers x q" by (auto simp: find_Some_iff)
  then have "q = r" using covers_unique [OF assms, of q r p x] r by blast
  with q r show "score_at rows p x = Some s" by (simp add: score_at_def)
qed

section \<open>Closing the open row and adding one\<close>

definition close_row :: "buffer \<Rightarrow> int \<Rightarrow> BonusScoreHistory \<Rightarrow> BonusScoreHistory" where
  "close_row p b r = (if bs_node r = p \<and> bs_to_block r = None then r\<lparr>bs_to_block := Some (b - 1)\<rparr> else r)"

definition close_scores :: "buffer \<Rightarrow> int \<Rightarrow> BonusScoreHistory list \<Rightarrow> BonusScoreHistory list" where
  "close_scores p b rows = map (close_row p b) rows"

lemma close_scores_set_where:
  "set_where (\<lambda>r. bs_node r = p \<and> bs_to_block r = None) (\<lambda>r. r\<lparr>bs_to_block := Some (b - 1)\<rparr>) rows =
   close_scores p b rows"
  by (induction rows) (simp_all add: close_scores_def close_row_def)

lemma close_row_simps [simp]:
  "bs_node (close_row p b r) = bs_node r" "bs_from_block (close_row p b r) = bs_from_block r"
  "bs_score (close_row p b r) = bs_score r"
  "bs_to_block (close_row p b r) =
     (if bs_node r = p \<and> bs_to_block r = None then Some (b - 1) else bs_to_block r)"
  by (simp_all add: close_row_def)

lemma close_scoresE:
  assumes "q \<in> set (close_scores p b rows)"
  obtains r where "r \<in> set rows" "q = close_row p b r"
  using assms unfolding close_scores_def set_map by blast

lemma updateBonusScore_rows:
  assumes "updateBonusScore pool s b m = (Inr (), m')"
  defines "p \<equiv> addressToBuffer pool"
  shows "bonus_score_history (getDbContext m') =
      close_scores p b (bonus_score_history (getDbContext m)) @
      [\<lparr>bs_from_block = b, bs_to_block = None, bs_node = p, bs_score = s\<rparr>]"
    and "distinct (map bonus_score_history_key (bonus_score_history (getDbContext m')))"
    and "node (getDbContext m') = set_where (\<lambda>r. pool_address r = p) (\<lambda>r. r\<lparr>node_bonus_score := s\<rparr>)
      (node (getDbContext m))"
  using assms(1) unfolding p_def
  by (auto simp: updateBonusScore_def insert_bonus_score_history_def update_node_bonus_score_def
      close_scores_set_where action_simps result_simps table_simps)

lemma close_history:
  assumes ok: "history_ok t rows" and "t \<le> b"
    and dist: "distinct (map bonus_score_history_key (close_scores p b rows @ [n]))"
    and n: "bs_from_block n = b" "bs_to_block n = None" "bs_node n = p"
  shows "history_ok b (close_scores p b rows @ [n])" (is "history_ok b ?rows")
proof -
  have old: "bs_from_block q \<le> b \<and> nullable (\<lambda>x. x < b) (bs_to_block q) \<and>
      (bs_node q = p \<longrightarrow> ends_before q n)" if q: "q \<in> set (close_scores p b rows)" for q
  proof -
    obtain r where r: "r \<in> set rows" "q = close_row p b r" by (rule close_scoresE [OF q])
    show ?thesis
      using history_okD(2,3) [OF ok r(1)] \<open>t \<le> b\<close> n
      by (auto simp: r(2) nullable_def ends_before_def split: option.splits if_splits)
  qed
  have pair: "ends_before x y \<or> ends_before y x"
    if x: "x \<in> set (close_scores p b rows)" and y: "y \<in> set (close_scores p b rows)"
      and xy: "bs_node x = bs_node y" "x \<noteq> y" for x y
  proof -
    obtain r where r: "r \<in> set rows" "x = close_row p b r" by (rule close_scoresE [OF x])
    obtain q where q: "q \<in> set rows" "y = close_row p b q" by (rule close_scoresE [OF y])
    have "r \<noteq> q" "bs_node r = bs_node q" using r q xy by auto
    then have "ends_before r q \<or> ends_before q r" using history_okD(4) [OF ok r(1) q(1)] by blast
    then show ?thesis unfolding r(2) q(2) by (auto simp: ends_before_def split: option.splits)
  qed
  show ?thesis unfolding history_ok_def list_all_iff
  proof (intro conjI ballI impI)
    show "distinct (map bonus_score_history_key ?rows)" by (rule dist)
    fix x assume x: "x \<in> set ?rows"
    show "bs_from_block x \<le> b" "nullable (\<lambda>t. t < b) (bs_to_block x)"
      using x old n by (auto simp: nullable_def)
    fix y assume y: "y \<in> set ?rows" and xy: "bs_node x = bs_node y \<and> x \<noteq> y"
    show "ends_before x y \<or> ends_before y x"
      using x y xy old pair n by auto
  qed
qed

lemma close_timeline:
  assumes ok: "history_ok t rows" and "t \<le> b"
    and dist: "distinct (map bonus_score_history_key (close_scores p b rows @ [n]))"
    and n: "bs_from_block n = b" "bs_to_block n = None" "bs_node n = p"
  shows "score_at (close_scores p b rows @ [n]) = overwrite p (bs_score n) b (score_at rows)"
proof (intro ext)
  fix q x
  let ?rows = "close_scores p b rows @ [n]"
  note ok' = close_history [OF assms]
  show "score_at ?rows q x = overwrite p (bs_score n) b (score_at rows) q x"
  proof (cases "q = p \<and> b \<le> x")
    case True
    then have "bs_node n = q \<and> covers x n" using n by (simp add: covers_def nullable_def)
    then have "score_at ?rows q x = Some (bs_score n)" unfolding score_at_Some [OF ok'] by auto
    then show ?thesis using True by (simp add: overwrite_def)
  next
    case False
    have "(\<exists>r \<in> set ?rows. bs_node r = q \<and> covers x r \<and> bs_score r = s) \<longleftrightarrow>
          (\<exists>r \<in> set rows. bs_node r = q \<and> covers x r \<and> bs_score r = s)" (is "?L \<longleftrightarrow> ?R") for s
    proof
      assume ?L
      then obtain y where y: "y \<in> set ?rows" "bs_node y = q" "covers x y" "bs_score y = s" by blast
      have "y \<noteq> n" using False y(2,3) n by (auto simp: covers_def)
      then have "y \<in> set (close_scores p b rows)" using y(1) by simp
      then obtain r where r: "r \<in> set rows" "y = close_row p b r" by (rule close_scoresE)
      have "bs_node r = q \<and> covers x r \<and> bs_score r = s"
        using y(2-4) by (auto simp: r(2) covers_def nullable_def split: if_splits)
      then show ?R using r(1) by blast
    next
      assume ?R
      then obtain r where r: "r \<in> set rows" "bs_node r = q" "covers x r" "bs_score r = s" by blast
      have "bs_node (close_row p b r) = q \<and> covers x (close_row p b r) \<and> bs_score (close_row p b r) = s"
        using r False by (auto simp: covers_def nullable_def)
      then show ?L using r(1) by (auto simp: close_scores_def)
    qed
    then have "score_at ?rows q x = score_at rows q x"
      using score_at_Some [OF ok', of q x] score_at_Some [OF ok, of q x]
      by (metis option.exhaust)
    then show ?thesis using False by (auto simp: overwrite_def)
  qed
qed

section \<open>Runs of updates\<close>

type_synonym score_update = "string \<times> int \<times> int"

definition update_block :: "score_update \<Rightarrow> int" where
  "update_block u = snd (snd u)"

definition apply_update :: "score_update \<Rightarrow> unit action" where
  "apply_update u = updateBonusScore (fst u) (fst (snd u)) (snd (snd u))"

definition overwrite_with :: "score_update \<Rightarrow> (buffer \<Rightarrow> int \<Rightarrow> int option) \<Rightarrow> buffer \<Rightarrow> int \<Rightarrow> int option" where
  "overwrite_with u = overwrite (addressToBuffer (fst u)) (fst (snd u)) (snd (snd u))"

definition timeline :: "manager \<Rightarrow> buffer \<Rightarrow> int \<Rightarrow> int option" where
  "timeline m = score_at (bonus_score_history (getDbContext m))"

definition timeline_ok :: "int \<Rightarrow> manager \<Rightarrow> bool" where
  "timeline_ok t m = history_ok t (bonus_score_history (getDbContext m))"

lemma updateBonusScore_timeline:
  assumes "timeline_ok t m" "t \<le> b" "updateBonusScore pool s b m = (Inr (), m')"
  shows "timeline_ok b m'" and "timeline m' = overwrite (addressToBuffer pool) s b (timeline m)"
proof -
  note rows = updateBonusScore_rows [OF assms(3)]
  have ok: "history_ok t (bonus_score_history (getDbContext m))"
    using assms(1) by (simp add: timeline_ok_def)
  note d = rows(2) [unfolded rows(1)]
  show "timeline_ok b m'"
    unfolding timeline_ok_def rows(1) by (rule close_history [OF ok assms(2) d]) simp_all
  show "timeline m' = overwrite (addressToBuffer pool) s b (timeline m)"
    unfolding timeline_def rows(1) by (subst close_timeline [OF ok assms(2) d]) simp_all
qed

interpretation bonus_timeline: timed_actions update_block apply_update timeline_ok timeline overwrite_with
  by unfold_locales (auto simp: update_block_def apply_update_def overwrite_with_def
      dest: updateBonusScore_timeline)

lemma timeline_ok_mono: "timeline_ok t m \<Longrightarrow> t \<le> b \<Longrightarrow> timeline_ok b m"
  unfolding timeline_ok_def history_ok_def list_all_iff nullable_def
  by (force split: option.splits)

lemma timeline_latest:
  assumes "timeline_ok t m" "t \<le> x"
  shows "timeline m p x = timeline m p t"
proof -
  have "covers x r = covers t r" if "r \<in> set (bonus_score_history (getDbContext m))" for r
    using history_okD(2,3) [OF assms(1) [unfolded timeline_ok_def] that] assms(2)
    by (auto simp: covers_def nullable_def split: option.splits)
  then have "find (\<lambda>r. bs_node r = p \<and> covers x r) (bonus_score_history (getDbContext m)) =
      find (\<lambda>r. bs_node r = p \<and> covers t r) (bonus_score_history (getDbContext m))"
    by (intro find_cong) auto
  then show ?thesis by (simp add: timeline_def score_at_def)
qed

definition sample_updates :: "score_update list" where
  "sample_updates = [(''0xaa'', 105, 3), (''0xBB'', 90, 3), (''0xaa'', 95, 6)]"

definition after_updates :: manager where
  "after_updates = snd (forEach sample_updates apply_update sample_manager)"

lemma sample_updates_run: "forEach sample_updates apply_update sample_manager = (Inr (), after_updates)"
proof -
  have "fst (forEach sample_updates apply_update sample_manager) = Inr ()" by code_simp
  then show ?thesis unfolding after_updates_def by (metis prod.collapse)
qed

text \<open>C6: A successful run of score updates in the order of their blocks overwrites the score
  timeline update by update: from the block of the update on, the node has the new score, and
  what the table says about every earlier block and every other node stays as it was. The rows
  of a node keep disjoint ranges of blocks.\<close>

theorem score_updates_overwrite_timeline:
  assumes "timeline_ok t m" and "sorted (t # map update_block updates)"
    and "forEach updates apply_update m = (Inr (), m')"
  shows "timeline m' = fold overwrite_with updates (timeline m) \<and>
    timeline_ok (last (t # map update_block updates)) m'"
  using bonus_timeline.run_abstraction [OF assms] bonus_timeline.run_ok [OF assms] by blast

lemma score_updates_overwrite_timeline_witness:
  "timeline after_updates = fold overwrite_with sample_updates (timeline sample_manager) \<and>
   timeline_ok (last (0 # map update_block sample_updates)) after_updates"
proof (rule score_updates_overwrite_timeline [OF _ _ sample_updates_run])
  show "timeline_ok 0 sample_manager"
    by (simp add: timeline_ok_def sample_context sample_db_def empty_db_def history_ok_def)
  show "sorted (0 # map update_block sample_updates)" by code_simp
qed

end
