(* ===== verification/BonusCache.thy ===== *)
theory BonusCache imports BonusTimeline begin

text \<open>
  The score cache of the BonusScoreProcessor (\<open>currentBonusScores\<close>) against the contract and
  against the table: what a batch reports and caches, and that inside a transaction that is
  not aborted the cache always says what the timeline says.
\<close>

section \<open>Failed statements inside a transaction\<close>

text \<open>A rejected action leaves an aborted transaction, and nothing makes it usable again.\<close>

definition fails_aborted :: "'a action \<Rightarrow> bool" where
  "fails_aborted A \<longleftrightarrow> (\<forall>m e m'. currentTransaction m \<noteq> None \<longrightarrow> A m = (Inl e, m') \<longrightarrow> \<not> usable m')"

definition stays_aborted :: "'a action \<Rightarrow> bool" where
  "stays_aborted A \<longleftrightarrow> (\<forall>m. \<not> usable m \<longrightarrow> \<not> usable (snd (A m)))"

lemma stays_abortedD: "stays_aborted A \<Longrightarrow> \<not> usable m \<Longrightarrow> A m = (r, m') \<Longrightarrow> \<not> usable m'"
  unfolding stays_aborted_def by (metis snd_conv)

named_theorems abort_rules \<open>actions that keep an aborted transaction aborted\<close>

lemma stays_aborted_ret [abort_rules]: "stays_aborted (ret x)"
  by (simp add: stays_aborted_def ret_def)

lemma stays_aborted_query [abort_rules]: "stays_aborted (query s)"
  by (simp add: stays_aborted_def query_def)

lemma stays_aborted_execute [abort_rules]: "stays_aborted (execute s)"
  by (simp add: execute_def stays_aborted_query)

lemma stays_aborted_pool_read [abort_rules]: "stays_aborted (pool_read s)"
  by (simp add: stays_aborted_def pool_read_def)

lemma stays_aborted_andThen [abort_rules]:
  "stays_aborted A \<Longrightarrow> (\<And>x. stays_aborted (f x)) \<Longrightarrow> stays_aborted (andThen A f)"
  by (fastforce simp: stays_aborted_def andThen_def split: prod.splits sum.splits)

lemma stays_aborted_try_catch [abort_rules]:
  "stays_aborted A \<Longrightarrow> (\<And>e. stays_aborted (h e)) \<Longrightarrow> stays_aborted (try_catch A h)"
  by (fastforce simp: stays_aborted_def try_catch_def split: prod.splits sum.splits)

lemma fails_aborted_ret [abort_rules]: "fails_aborted (ret x)"
  by (simp add: fails_aborted_def ret_def)

lemma fails_aborted_query [abort_rules]: "fails_aborted (query s)"
  by (auto simp: fails_aborted_def query_def usable_def split: sum.splits if_splits)

lemma fails_aborted_execute [abort_rules]: "fails_aborted (execute s)"
  by (simp add: execute_def fails_aborted_query)

lemma fails_aborted_andThen [abort_rules]:
  assumes "transactional A" "fails_aborted A" "\<And>x. fails_aborted (f x)"
  shows "fails_aborted (andThen A f)"
  unfolding fails_aborted_def
proof (intro allI impI)
  fix m e m' assume m: "currentTransaction m \<noteq> None" and run: "andThen A f m = (Inl e, m')"
  obtain r m1 where A: "A m = (r, m1)" by fastforce
  show "\<not> usable m'"
  proof (cases r)
    case (Inl a)
    then show ?thesis using assms(2) A m run by (auto simp: fails_aborted_def andThen_def)
  next
    case (Inr x)
    then have "f x m1 = (Inl e, m')" using A run by (simp add: andThen_def)
    then show ?thesis
      using assms(3) [of x] transactionalD(2) [OF assms(1) A m] unfolding fails_aborted_def by blast
  qed
qed

lemma updateBonusScore_aborts:
  "transactional (updateBonusScore pool s b)"
  "fails_aborted (updateBonusScore pool s b)"
  "stays_aborted (updateBonusScore pool s b)"
  by (auto simp: updateBonusScore_def insert_bonus_score_history_def update_node_bonus_score_def
      intro!: transactionals abort_rules)

section \<open>One pool\<close>

definition reported :: "network \<Rightarrow> int \<Rightarrow> (string \<rightharpoonup> int) \<Rightarrow> string \<Rightarrow> score_change list" where
  "reported n b cache pool = (case miningScore n pool b of
       Inl _ \<Rightarrow> []
     | Inr (mining, s) \<Rightarrow>
         if cache (to_lower pool) = Some s then []
         else [\<lparr>sc_pool = pool, sc_mining = mining,
                sc_previousScore = (case cache (to_lower pool) of None \<Rightarrow> 0 | Some old \<Rightarrow> old),
                sc_newScore = s\<rparr>])"

definition scored :: "network \<Rightarrow> int \<Rightarrow> string \<Rightarrow> (string \<rightharpoonup> int) \<Rightarrow> (string \<rightharpoonup> int)" where
  "scored n b pool cache = (case miningScore n pool b of
       Inl _ \<Rightarrow> cache | Inr (mining, s) \<Rightarrow> cache(to_lower pool \<mapsto> s))"

definition score_cache :: "importer \<Rightarrow> string \<rightharpoonup> int" where
  "score_cache w = currentBonusScores w"

lemma processPool_cases:
  assumes tx: "currentTransaction (db_manager w) \<noteq> None"
  obtains (unchanged) "processPool n b pool w = (Inr [], w)"
      "scored n b pool (currentBonusScores w) = currentBonusScores w"
      "reported n b (currentBonusScores w) pool = []"
  | (refused) m1 where "processPool n b pool w = (Inr [], w\<lparr>db_manager := m1\<rparr>)"
      "\<not> usable m1"
  | (written) m1 s where
      "processPool n b pool w = (Inr (reported n b (currentBonusScores w) pool),
         w\<lparr>db_manager := m1, currentBonusScores := (currentBonusScores w)(to_lower pool \<mapsto> s)\<rparr>)"
      "updateBonusScore pool s b (db_manager w) = (Inr (), m1)"
      "scored n b pool (currentBonusScores w) = (currentBonusScores w)(to_lower pool \<mapsto> s)"
proof (cases "miningScore n pool b")
  case (Inl e)
  then show ?thesis
    by (intro unchanged) (simp_all add: processPool_def try_catch_def andThen_def remote_def ret_def
        scored_def reported_def)
next
  case (Inr ms)
  obtain mining s where ms: "miningScore n pool b = Inr (mining, s)" using Inr by (cases ms) auto
  show ?thesis
  proof (cases "currentBonusScores w (to_lower pool) = Some s")
    case True
    then show ?thesis
      by (intro unchanged) (auto simp: processPool_def try_catch_def andThen_def remote_def ret_def
          inspect_def scored_def reported_def ms)
  next
    case False
    obtain r m1 where up: "updateBonusScore pool s b (db_manager w) = (r, m1)" by fastforce
    show ?thesis
    proof (cases r)
      case (Inl e)
      have "\<not> usable m1"
        using updateBonusScore_aborts(2) [of pool s b] tx up Inl unfolding fails_aborted_def by blast
      then show ?thesis using up Inl False
        by (intro refused [of m1]) (auto simp: processPool_def try_catch_def andThen_def remote_def
            ret_def inspect_def on_db_def ms)
    next
      case (Inr u)
      show ?thesis using up Inr False
        by (intro written [of s m1]) (auto simp: processPool_def try_catch_def andThen_def remote_def
            ret_def inspect_def on_db_def cacheScore_def modify_def scored_def reported_def ms)
    qed
  qed
qed

section \<open>The cache and the table\<close>

definition agrees :: "int \<Rightarrow> importer \<Rightarrow> bool" where
  "agrees t w \<longleftrightarrow> currentTransaction (db_manager w) \<noteq> None \<and>
     (usable (db_manager w) \<longrightarrow> timeline_ok t (db_manager w) \<and>
       (\<forall>k s. currentBonusScores w k = Some s \<longrightarrow> is_address k \<and> to_lower k = k \<and>
          timeline (db_manager w) (addressToBuffer k) t = Some s))"

lemma agrees_mono:
  assumes "agrees t w" "t \<le> b"
  shows "agrees b w"
  using assms timeline_ok_mono timeline_latest unfolding agrees_def by metis

lemma agrees_db:
  assumes "agrees t w" "currentTransaction m \<noteq> None"
    and "usable m \<longrightarrow> usable (db_manager w) \<and>
      bonus_score_history (getDbContext m) = bonus_score_history (getDbContext (db_manager w))"
  shows "agrees t (w\<lparr>db_manager := m\<rparr>)"
  using assms by (auto simp: agrees_def timeline_ok_def timeline_def)

lemma lower_char_0x [simp]:
  "lower_char (CHR ''0'') = CHR ''0''" "lower_char (CHR ''x'') = CHR ''x''"
  by (simp_all add: lower_char_def)

lemma is_address_lower: "is_address a \<Longrightarrow> is_address (to_lower a)"
  by (auto simp: is_address_def is_hex_def to_lower_def take_map drop_map list_all_iff)

lemma agrees_written:
  assumes "agrees b w" "is_address pool" "updateBonusScore pool s b (db_manager w) = (Inr (), m)"
  shows "agrees b (w\<lparr>db_manager := m, currentBonusScores := (currentBonusScores w)(to_lower pool \<mapsto> s)\<rparr>)"
proof -
  have tx: "currentTransaction (db_manager w) \<noteq> None" using assms(1) by (simp add: agrees_def)
  have "currentTransaction m \<noteq> None"
    using transactionalD(2) [OF updateBonusScore_aborts(1) assms(3) tx] .
  moreover have "usable m \<longrightarrow> usable (db_manager w)"
    using updateBonusScore_aborts(3) [of pool s b] assms(3) unfolding stays_aborted_def by (metis snd_conv)
  ultimately show ?thesis
    using assms(1,2) updateBonusScore_timeline [OF _ order_refl assms(3)]
    by (auto simp: agrees_def overwrite_def is_address_lower addressToBuffer_eq_iff)
qed

lemma processPool_agrees:
  assumes "is_address pool"
  shows "keeps (agrees b) (processPool n b pool)"
  unfolding keeps_def
proof (intro allI impI)
  fix w assume w: "agrees b w"
  then have tx: "currentTransaction (db_manager w) \<noteq> None" by (simp add: agrees_def)
  show "agrees b (snd (processPool n b pool w))"
    using tx
  proof (cases rule: processPool_cases [of w n b pool])
    case unchanged
    then show ?thesis using w by simp
  next
    case (refused m1)
    then show ?thesis by (simp add: agrees_def usable_def)
  next
    case (written m1 s)
    then show ?thesis using agrees_written [OF w assms] by simp
  qed
qed

lemma on_db_reason_agrees: "keeps (agrees t) (on_db (insertBonusScoreChangeReason p b e c o' n' r))"
  unfolding keeps_def
  by (auto simp: on_db_def insertBonusScoreChangeReason_def try_catch_def execute_def query_def ret_def
      upsert_reason_def usable_def set_context_def getDbContext_def agrees_def
      timeline_ok_def timeline_def result_simps split: prod.splits sum.splits option.splits if_splits)

section \<open>A batch and a block\<close>

lemma batches_concat: "0 < k \<Longrightarrow> concat (batches k xs) = xs"
proof (induction k xs rule: batches.induct)
  case (2 k x xs)
  then show ?case using append_take_drop_id [of "k - 1" xs] by (auto simp: take_Cons')
qed simp

lemma processBatch_agrees: "list_all is_address pools \<Longrightarrow> keeps (agrees b) (processBatch n pools b)"
  unfolding processBatch_def by (auto simp: list_all_iff intro!: keeps_rules processPool_agrees)

lemma processReasonDetection_agrees: "keeps (agrees b) (processReasonDetection n changes b)"
proof -
  have 1: "keeps (agrees b) (on_db (getEpochByBlock b))"
    by (auto simp: keeps_def on_db_def getEpochByBlock_def try_catch_def pool_read_def ret_def
        split: prod.splits sum.splits)
  have 2: "keeps (agrees b) (modify (\<lambda>w. w\<lparr>scoreChangeEvents := f w\<rparr>))" for f
    by (simp add: keeps_def modify_def agrees_def)
  show ?thesis
    unfolding processReasonDetection_def processReason_def Let_def
    by (intro keeps_rules 1 2 on_db_reason_agrees)
qed

lemma processBonusScore_agrees:
  assumes "list_all is_address pools"
  shows "keeps (agrees b) (processBonusScore n b pools)"
proof -
  have 1: "keeps (agrees b) (checkStandByFactorChange n b)"
    by (auto simp: keeps_def checkStandByFactorChange_def agrees_def split: sum.splits)
  have 2: "keeps (agrees b) (modify (\<lambda>w. w\<lparr>scoreChangeEvents := f w\<rparr>))" for f
    by (simp add: keeps_def modify_def agrees_def)
  have 3: "keeps (agrees b) (collect (batches BATCH_SIZE pools) (\<lambda>batch. processBatch n batch b))"
  proof (rule keeps_collect)
    fix batch assume "batch \<in> set (batches BATCH_SIZE pools)"
    then have "set batch \<subseteq> set (concat (batches BATCH_SIZE pools))" by auto
    then have "set batch \<subseteq> set pools" by (simp add: batches_concat BATCH_SIZE_def)
    then show "keeps (agrees b) (processBatch n batch b)"
      using assms by (intro processBatch_agrees) (auto simp: list_all_iff)
  qed
  show ?thesis
    unfolding processBonusScore_def
    by (intro keeps_rules 1 2 3 processBatch_agrees assms processReasonDetection_agrees)
qed

section \<open>What a batch reports\<close>

lemma processPool_stays_aborted: "keeps (\<lambda>w :: importer. \<not> usable (db_manager w)) (processPool n b pool)"
  unfolding keeps_def
proof (intro allI impI)
  fix w :: importer assume w: "\<not> usable (db_manager w)"
  then have tx: "currentTransaction (db_manager w) \<noteq> None" by (simp add: usable_def)
  then show "\<not> usable (db_manager (snd (processPool n b pool w)))"
  proof (cases rule: processPool_cases [of w n b pool])
    case (written m1 s)
    then show ?thesis using stays_abortedD [OF updateBonusScore_aborts(3) w written(2)] by simp
  next
    case unchanged
    then show ?thesis using w by simp
  next
    case (refused m1)
    then show ?thesis by simp
  qed
qed

lemma processPool_transaction:
  fixes w :: importer
  assumes "currentTransaction (db_manager w) \<noteq> None" "processPool n b pool w = (r, w')"
  shows "currentTransaction (db_manager w') \<noteq> None"
proof -
  show ?thesis using assms(1)
  proof (cases rule: processPool_cases [of w n b pool])
    case (written m1 s)
    then show ?thesis
      using assms transactionalD(2) [OF updateBonusScore_aborts(1) written(2) assms(1)] by auto
  qed (use assms in \<open>auto simp: usable_def\<close>)
qed

lemma processPool_follows:
  assumes tx: "currentTransaction (db_manager w) \<noteq> None"
    and run: "processPool n b pool w = (r, w')" and "usable (db_manager w')"
  shows "r = Inr (reported n b (currentBonusScores w) pool)"
    and "currentBonusScores w' = scored n b pool (currentBonusScores w)"
proof -
  have "r = Inr (reported n b (currentBonusScores w) pool) \<and>
      currentBonusScores w' = scored n b pool (currentBonusScores w)"
    using tx by (cases rule: processPool_cases [of w n b pool]) (use assms in auto)
  then show "r = Inr (reported n b (currentBonusScores w) pool)"
    "currentBonusScores w' = scored n b pool (currentBonusScores w)" by blast+
qed

lemma reported_other:
  "to_lower x \<noteq> to_lower pool \<Longrightarrow> reported n b (scored n b x cache) pool = reported n b cache pool"
  by (auto simp: reported_def scored_def split: sum.splits)

lemma collect_pools_follow:
  assumes "currentTransaction (db_manager w) \<noteq> None" "distinct (map to_lower pools)"
    and "collect pools (processPool n b) w = (r, w')" "usable (db_manager w')"
  shows "r = Inr (concat (map (reported n b (currentBonusScores w)) pools)) \<and>
    currentBonusScores w' = fold (scored n b) pools (currentBonusScores w)"
  using assms
proof (induction pools arbitrary: w r)
  case (Cons x pools)
  obtain r1 w1 where x: "processPool n b x w = (r1, w1)" by fastforce
  obtain r2 w2 where rest: "collect pools (processPool n b) w1 = (r2, w2)" by fastforce
  have never: "\<exists>cs. r1 = Inr cs"
    using Cons.prems(1) by (cases rule: processPool_cases [of w n b x]) (use x in auto)
  then have w2: "w2 = w'" using Cons.prems(3) x rest
    by (auto simp: andThen_def ret_def split: sum.splits)
  have u1: "usable (db_manager w1)"
    using keepsD [OF keeps_collect [OF processPool_stays_aborted] _ rest] Cons.prems(4) w2 by blast
  note x' = processPool_follows [OF Cons.prems(1) x u1]
  have IH: "r2 = Inr (concat (map (reported n b (currentBonusScores w1)) pools)) \<and>
      currentBonusScores w' = fold (scored n b) pools (currentBonusScores w1)"
    using Cons.IH [OF processPool_transaction [OF Cons.prems(1) x] _ rest [unfolded w2]] Cons.prems(2,4)
    by simp
  have "map (reported n b (currentBonusScores w1)) pools = map (reported n b (currentBonusScores w)) pools"
    using Cons.prems(2) x'(2) by (intro map_cong) (auto intro!: reported_other)
  then have "concat (map (reported n b (currentBonusScores w1)) pools) =
      concat (map (reported n b (currentBonusScores w)) pools)" by (rule arg_cong)
  then show ?case using Cons.prems(3) x rest IH x' w2 by (auto simp: andThen_def ret_def)
qed (simp add: ret_def)

section \<open>The properties\<close>

definition sample_in_block :: importer where
  "sample_in_block = sample_importer\<lparr>db_manager := begin_transaction sample_manager\<rparr>"

text \<open>A batch inside a transaction that is still usable afterwards has followed the contract:
  it reports exactly the pools whose score could be read and differs from the cached one, with
  the score cached before (0 when there was none) and the contract's score, in the order of the
  pools, and every score that could be read is cached; a failed call never rejects the batch.\<close>

theorem processBatch_follows_contract:
  assumes "currentTransaction (db_manager w) \<noteq> None" and "distinct (map to_lower pools)"
    and "processBatch n pools b w = (r, w')" and "usable (db_manager w')"
  shows "r = Inr (concat (map (reported n b (currentBonusScores w)) pools)) \<and>
    currentBonusScores w' = fold (scored n b) pools (currentBonusScores w)"
  using collect_pools_follow assms unfolding processBatch_def by blast

lemma processBatch_follows_contract_witness:
  "let pools = [''0xaa'', ''0xBB'']; (r, w') = processBatch sample_network pools 5 sample_in_block
   in r = Inr (concat (map (reported sample_network 5 (currentBonusScores sample_in_block)) pools)) \<and>
      currentBonusScores w' = fold (scored sample_network 5) pools (currentBonusScores sample_in_block)"
proof -
  let ?pools = "[''0xaa'', ''0xBB'']"
  obtain r w' where run: "processBatch sample_network ?pools 5 sample_in_block = (r, w')" by fastforce
  have "usable (db_manager (snd (processBatch sample_network ?pools 5 sample_in_block)))" by code_simp
  then have usable: "usable (db_manager w')" using run by simp
  have "currentTransaction (db_manager sample_in_block) \<noteq> None" "distinct (map to_lower ?pools)"
    by code_simp+
  from processBatch_follows_contract [OF this run usable] show ?thesis unfolding Let_def run prod.case .
qed



end
