(* ===== verification/ValidatorObserver.thy ===== *)
theory ValidatorObserver imports Network begin

text \<open>
  src/src/db/validatorObserver.ts: the lists of current and pending validators in memory, and
  the rows of \<open>pending_validator_state_event\<close> that say when a validator entered and left each
  of the two states.
\<close>

definition deepEquals :: "string list \<Rightarrow> string list \<Rightarrow> bool" where
  "deepEquals a b \<longleftrightarrow> a = b"

definition createDiffgram :: "'a list \<Rightarrow> 'a list \<Rightarrow> 'a list \<times> 'a list" where
  "createDiffgram before after =
     (filter (\<lambda>x. x \<notin> set before) after, filter (\<lambda>x. x \<notin> set after) before)"

datatype ValidatorState = Current | Pending

definition state_value :: "ValidatorState \<Rightarrow> string" where
  "state_value s = (case s of Current \<Rightarrow> ''current'' | Pending \<Rightarrow> ''pending'')"

record Validator =
  v_state :: ValidatorState
  v_node :: string
  v_enterBlockNumber :: int
  v_keyGenRound :: int
  v_exitBlockNumber :: "int option"

definition toEntity :: "Validator \<Rightarrow> PendingValidatorStateEvent" where
  "toEntity v = \<lparr>pv_state = state_value (v_state v), on_enter_block_number = v_enterBlockNumber v,
     on_exit_block_number = v_exitBlockNumber v, pv_node = addressToBuffer (v_node v),
     keygen_round = v_keyGenRound v\<rparr>"

text \<open>\<open>JSON.stringify\<close> distinguishes lists of addresses exactly when they differ.\<close>

definition initialize :: "unit task" where
  "initialize = andThen (on_db getValidators) (\<lambda>result. modify (\<lambda>w.
     w\<lparr>currentValidators := map (\<lambda>r. to_lower (bufferToAddress (pv_node r)))
          (filter (\<lambda>r. pv_state r = state_value Current) result),
       pendingValidators := map (\<lambda>r. to_lower (bufferToAddress (pv_node r)))
          (filter (\<lambda>r. pv_state r = state_value Pending) result)\<rparr>))"

definition processAddedValidators :: "string list \<Rightarrow> int \<Rightarrow> ValidatorState \<Rightarrow> int \<Rightarrow> unit action" where
  "processAddedValidators addedValidators block state keyGenRound =
     forEach addedValidators (\<lambda>added.
       andThen (findValidator added (state_value state))
       (\<lambda>existingValidator. case existingValidator of
          Some _ \<Rightarrow> ret ()
        | None \<Rightarrow> insertValidator (toEntity
            \<lparr>v_state = state, v_node = added, v_enterBlockNumber = block,
             v_keyGenRound = keyGenRound, v_exitBlockNumber = None\<rparr>)))"

definition processRemovedValidators :: "string list \<Rightarrow> int \<Rightarrow> ValidatorState \<Rightarrow> int \<Rightarrow> unit action" where
  "processRemovedValidators removedValidators block state keygenRound =
     forEach removedValidators (\<lambda>removed.
       updateOrIgnoreValidator removed (state_value state) block keygenRound)"

definition normalize :: "string list \<Rightarrow> string list" where
  "normalize items = map to_lower items"

definition fetchCurrentValidators :: "network \<Rightarrow> int \<Rightarrow> string list result" where
  "fetchCurrentValidators n b = await (call_getValidators n b) (\<lambda>vs. Inr (normalize vs))"

definition fetchPendingValidators :: "network \<Rightarrow> int \<Rightarrow> string list result" where
  "fetchPendingValidators n b = await (call_getPendingValidators n b) (\<lambda>vs. Inr (normalize vs))"

definition updateValidators :: "network \<Rightarrow> int \<Rightarrow> int \<Rightarrow> unit task" where
  "updateValidators n block posdaoEpoch =
     andThen (remote (call_getCurrentKeyGenRound n block)) (\<lambda>keyGenRound.
     andThen (remote (fetchPendingValidators n block)) (\<lambda>pending.
     andThen (inspect (\<lambda>w. currentKeyGenRound w = keyGenRound \<and> currentPosdaoEpoch w = posdaoEpoch \<and>
       deepEquals (pendingValidators w) pending)) (\<lambda>unchanged.
     if unchanged then ret ()
     else
     andThen (remote (fetchCurrentValidators n block)) (\<lambda>current.
     andThen (modify (\<lambda>w. w\<lparr>currentPosdaoEpoch := posdaoEpoch\<rparr>)) (\<lambda>_.
     andThen (inspect (\<lambda>w. (pendingValidators w, currentKeyGenRound w))) (\<lambda>(oldPending, round).
     andThen (if \<not> deepEquals oldPending pending \<or> round \<noteq> keyGenRound
       then andThen (on_db (processRemovedValidators oldPending block Pending keyGenRound))
         (\<lambda>_. andThen (on_db (processAddedValidators pending block Pending keyGenRound))
         (\<lambda>_. modify (\<lambda>w. w\<lparr>pendingValidators := pending, currentKeyGenRound := keyGenRound\<rparr>)))
       else ret ()) (\<lambda>_.
     andThen (inspect (\<lambda>w. (currentValidators w, currentKeyGenRound w))) (\<lambda>(oldCurrent, round2).
     if \<not> deepEquals oldCurrent current \<or> round2 \<noteq> keyGenRound
     then andThen (on_db (processRemovedValidators oldCurrent block Current keyGenRound))
       (\<lambda>_. andThen (on_db (processAddedValidators current block Current keyGenRound))
       (\<lambda>_. modify (\<lambda>w. w\<lparr>currentValidators := current\<rparr>)))
     else ret ()))))))))"

section \<open>Open states\<close>

definition is_open :: "string \<Rightarrow> PendingValidatorStateEvent \<Rightarrow> bool" where
  "is_open state r \<longleftrightarrow> pv_state r = state \<and> on_exit_block_number r = None"

definition open_nodes :: "string \<Rightarrow> PendingValidatorStateEvent list \<Rightarrow> buffer set" where
  "open_nodes state rows = pv_node ` {r \<in> set rows. is_open state r}"

text \<open>Keys are unique and a validator has at most one open row per state.\<close>

definition states_ok :: "PendingValidatorStateEvent list \<Rightarrow> bool" where
  "states_ok rows \<longleftrightarrow> distinct (map pending_validator_key rows) \<and>
     list_all (\<lambda>r. list_all (\<lambda>q. is_open (pv_state r) r \<and> is_open (pv_state r) q \<and>
       pv_node q = pv_node r \<longrightarrow> q = r) rows) rows"

definition entered_before :: "int \<Rightarrow> string \<Rightarrow> PendingValidatorStateEvent list \<Rightarrow> bool" where
  "entered_before b state rows \<longleftrightarrow> list_all (\<lambda>r. is_open state r \<longrightarrow> on_enter_block_number r < b) rows"

abbreviation state_rows :: "manager \<Rightarrow> PendingValidatorStateEvent list" where
  "state_rows m \<equiv> pending_validator_state_event (getDbContext m)"

lemma states_ok_unique:
  assumes "states_ok rows" "r \<in> set rows" "q \<in> set rows" "is_open s r" "is_open s q" "pv_node q = pv_node r"
  shows "q = r"
  using assms unfolding states_ok_def list_all_iff is_open_def by metis

lemma sort_key_nil: "sort_key f xs = [] \<longleftrightarrow> xs = []"
  by (metis length_0_conv length_sort)

lemma open_states_nil:
  "open_states p s b rows = [] \<longleftrightarrow>
   \<not> (\<exists>r \<in> set rows. is_open s r \<and> pv_node r = p \<and> on_enter_block_number r \<noteq> b)"
  by (auto simp: open_states_def is_open_def sort_key_nil filter_empty_conv)

lemma open_states_head:
  "open_states p s b rows = r # rs \<Longrightarrow>
   r \<in> set rows \<and> is_open s r \<and> pv_node r = p \<and> on_enter_block_number r \<noteq> b"
proof -
  assume "open_states p s b rows = r # rs"
  then have "r \<in> set (open_states p s b rows)" by simp
  then show ?thesis by (auto simp: open_states_def is_open_def)
qed

text \<open>Closing a validator's open row.\<close>

lemma close_validator:
  assumes ok: "states_ok (state_rows m)" and before: "entered_before b s (state_rows m)"
    and run: "updateOrIgnoreValidator v s b k m = (Inr (), m')"
  shows "states_ok (state_rows m')"
    and "open_nodes s (state_rows m') = open_nodes s (state_rows m) - {addressToBuffer v}"
    and "entered_before b s (state_rows m')"
    and "s' \<noteq> s \<Longrightarrow> open_nodes s' (state_rows m') = open_nodes s' (state_rows m)"
    and "s' \<noteq> s \<Longrightarrow> entered_before c s' (state_rows m) \<Longrightarrow> entered_before c s' (state_rows m')"
proof -
  let ?rows = "state_rows m" and ?p = "addressToBuffer v"
  have goal: "states_ok (state_rows m') \<and>
      open_nodes s (state_rows m') = open_nodes s ?rows - {?p} \<and> entered_before b s (state_rows m') \<and>
      (s' \<noteq> s \<longrightarrow> open_nodes s' (state_rows m') = open_nodes s' ?rows) \<and>
      (s' \<noteq> s \<longrightarrow> entered_before c s' ?rows \<longrightarrow> entered_before c s' (state_rows m'))"
  proof (cases "open_states ?p s b ?rows")
    case Nil
    then have "m' = m" using run by (auto simp: updateOrIgnoreValidator_def action_simps)
    moreover have "?p \<notin> open_nodes s ?rows"
      using Nil before unfolding open_states_nil open_nodes_def entered_before_def list_all_iff by auto
    ultimately show ?thesis using ok before by simp
  next
    case (Cons r rs)
    note r = open_states_head [OF Cons]
    let ?f = "\<lambda>q. q\<lparr>on_exit_block_number := Some b\<rparr>"
    let ?P = "\<lambda>q. pv_node q = ?p \<and> pv_state q = s \<and> on_enter_block_number q = on_enter_block_number r \<and>
        keygen_round q = keygen_round r"
    have P: "?P q \<longleftrightarrow> q = r" if "q \<in> set ?rows" for q
      using that r ok inj_onD [of pending_validator_key "set ?rows" q r]
      by (auto simp: states_ok_def distinct_map pending_validator_key_def is_open_def)
    have "state_rows m' = set_where ?P ?f ?rows"
      using run Cons by (auto simp: updateOrIgnoreValidator_def action_simps result_simps table_simps)
    also have "\<dots> = map (\<lambda>q. if q = r then ?f q else q) ?rows"
      by (rule map_cong) (use P in auto)
    finally have rows': "state_rows m' = map (\<lambda>q. if q = r then ?f q else q) ?rows" .
    have keys: "map pending_validator_key (state_rows m') = map pending_validator_key ?rows"
      unfolding rows' by (simp add: pending_validator_key_def)
    have openq: "q \<in> set (state_rows m') \<and> is_open st q \<longleftrightarrow> q \<in> set ?rows \<and> is_open st q \<and> q \<noteq> r" for q st
    proof -
      have "?f r \<noteq> r"
      proof
        assume "?f r = r"
        then have "on_exit_block_number (?f r) = on_exit_block_number r" by (rule arg_cong)
        then show False using r by (simp add: is_open_def)
      qed
      then show ?thesis unfolding rows' by (auto simp: is_open_def)
    qed
    have "states_ok (state_rows m')"
      unfolding states_ok_def list_all_iff
    proof (intro conjI ballI impI)
      show "distinct (map pending_validator_key (state_rows m'))"
        unfolding keys using ok by (simp add: states_ok_def)
      fix x y assume xy: "x \<in> set (state_rows m')" "y \<in> set (state_rows m')"
        "is_open (pv_state x) x \<and> is_open (pv_state x) y \<and> pv_node y = pv_node x"
      have "x \<in> set ?rows" "y \<in> set ?rows" using xy openq [of x] openq [of y] by blast+
      then show "y = x" using states_ok_unique [OF ok] xy(3) by blast
    qed
    moreover have "open_nodes s (state_rows m') = open_nodes s ?rows - {?p}"
    proof -
      have "pv_node q \<noteq> ?p" if "q \<in> set ?rows" "is_open s q" "q \<noteq> r" for q
        using states_ok_unique [OF ok, of r q s] r that by auto
      then show ?thesis unfolding open_nodes_def using openq [of _ s] r by auto
    qed
    moreover have "entered_before b s (state_rows m')"
      using before openq [of _ s] unfolding entered_before_def list_all_iff by blast
    moreover have "open_nodes s' (state_rows m') = open_nodes s' ?rows" if "s' \<noteq> s"
      unfolding open_nodes_def using openq [of _ s'] r that by (auto simp: is_open_def)
    moreover have "entered_before c s' (state_rows m')" if "entered_before c s' ?rows"
      using that openq [of _ s'] unfolding entered_before_def list_all_iff by blast
    ultimately show ?thesis by blast
  qed
  show "states_ok (state_rows m')" "open_nodes s (state_rows m') = open_nodes s ?rows - {?p}"
    "entered_before b s (state_rows m')" using goal by blast+
  show "s' \<noteq> s \<Longrightarrow> open_nodes s' (state_rows m') = open_nodes s' ?rows"
    "s' \<noteq> s \<Longrightarrow> entered_before c s' ?rows \<Longrightarrow> entered_before c s' (state_rows m')"
    using goal by blast+
qed

text \<open>Opening a row for a validator that has none.\<close>

definition addValidator :: "int \<Rightarrow> ValidatorState \<Rightarrow> int \<Rightarrow> string \<Rightarrow> unit action" where
  "addValidator block state keyGenRound added =
     andThen (findValidator added (state_value state))
       (\<lambda>existingValidator. case existingValidator of
          Some _ \<Rightarrow> ret ()
        | None \<Rightarrow> insertValidator (toEntity
            \<lparr>v_state = state, v_node = added, v_enterBlockNumber = block,
             v_keyGenRound = keyGenRound, v_exitBlockNumber = None\<rparr>))"

lemma processAdded_eq: "processAddedValidators vs b st k = forEach vs (addValidator b st k)"
  unfolding processAddedValidators_def addValidator_def ..

lemma add_validator:
  assumes ok: "states_ok (state_rows m)" and run: "addValidator b st k v m = (Inr (), m')"
  shows "states_ok (state_rows m')"
    and "open_nodes (state_value st) (state_rows m') =
      insert (addressToBuffer v) (open_nodes (state_value st) (state_rows m))"
    and "s' \<noteq> state_value st \<Longrightarrow> open_nodes s' (state_rows m') = open_nodes s' (state_rows m)"
    and "b < c \<Longrightarrow> entered_before c s' (state_rows m) \<Longrightarrow> entered_before c s' (state_rows m')"
    and "s' \<noteq> state_value st \<Longrightarrow> entered_before c s' (state_rows m) \<Longrightarrow> entered_before c s' (state_rows m')"
proof -
  let ?rows = "state_rows m" and ?p = "addressToBuffer v" and ?s = "state_value st"
  obtain found m1 where f: "findValidator v ?s m = (Inr found, m1)"
    and rest: "(case found of Some _ \<Rightarrow> ret () | None \<Rightarrow> insertValidator (toEntity
            \<lparr>v_state = st, v_node = v, v_enterBlockNumber = b, v_keyGenRound = k, v_exitBlockNumber = None\<rparr>)) m1 =
          (Inr (), m')"
    using run by (auto simp: addValidator_def andThen_Inr)
  have m1: "m1 = m" and find: "find_one ''pending_validator_state_event''
      (\<lambda>r. pv_node r = ?p \<and> on_exit_block_number r = None \<and> pv_state r = ?s) ?rows = Inr found"
    using f by (auto simp: findValidator_def action_simps)
  have goal: "states_ok (state_rows m') \<and>
      open_nodes ?s (state_rows m') = insert ?p (open_nodes ?s ?rows) \<and>
      (s' \<noteq> ?s \<longrightarrow> open_nodes s' (state_rows m') = open_nodes s' ?rows) \<and>
      (b < c \<or> s' \<noteq> ?s \<longrightarrow> entered_before c s' ?rows \<longrightarrow> entered_before c s' (state_rows m'))"
  proof (cases found)
    case None
    define n where "n = \<lparr>pv_state = ?s, on_enter_block_number = b, on_exit_block_number = None,
      pv_node = ?p, keygen_round = k\<rparr>"
    have n: "is_open st' n \<longleftrightarrow> st' = ?s" "pv_node n = ?p" "on_enter_block_number n = b" "pv_state n = ?s"
      for st' by (auto simp: n_def is_open_def)
    have none: "\<not> (is_open ?s r \<and> pv_node r = ?p)" if "r \<in> set ?rows" for r
      using find None that by (auto simp: is_open_def)
    have rows': "state_rows m' = ?rows @ [n]"
      and new: "pending_validator_key n \<notin> pending_validator_key ` set ?rows"
      using rest None m1
      by (auto simp: insertValidator_def toEntity_def action_simps result_simps table_simps n_def)
    have "states_ok (state_rows m')"
      unfolding states_ok_def list_all_iff
    proof (intro conjI ballI impI)
      show "distinct (map pending_validator_key (state_rows m'))"
        unfolding rows' using ok new by (simp add: states_ok_def)
      fix x y assume xy: "x \<in> set (state_rows m')" "y \<in> set (state_rows m')"
        "is_open (pv_state x) x \<and> is_open (pv_state x) y \<and> pv_node y = pv_node x"
      show "y = x"
      proof (cases "x = n \<or> y = n")
        case True
        then have "is_open ?s x \<and> is_open ?s y \<and> pv_node x = ?p \<and> pv_node y = ?p"
          using xy(3) n by (metis is_open_def)
        then show ?thesis using xy(1,2) none unfolding rows' by auto
      next
        case False
        then have "x \<in> set ?rows" "y \<in> set ?rows" using xy(1,2) unfolding rows' by auto
        then show ?thesis using states_ok_unique [OF ok] xy(3) by blast
      qed
    qed
    moreover have "open_nodes ?s (state_rows m') = insert ?p (open_nodes ?s ?rows)"
    proof -
      have "{r \<in> set (?rows @ [n]). is_open ?s r} = insert n {r \<in> set ?rows. is_open ?s r}"
        using n(1) by auto
      then show ?thesis unfolding rows' open_nodes_def by (simp add: n(2))
    qed
    moreover have "open_nodes s' (state_rows m') = open_nodes s' ?rows" if "s' \<noteq> ?s"
      unfolding rows' open_nodes_def using n that by auto
    moreover have "entered_before c s' (state_rows m')" if "b < c \<or> s' \<noteq> ?s" "entered_before c s' ?rows"
      using that n unfolding rows' entered_before_def by auto
    ultimately show ?thesis by blast
  next
    case (Some r)
    then have "m' = m" using rest m1 by (simp add: ret_Inr)
    moreover have "r \<in> set ?rows" "is_open ?s r" "pv_node r = ?p"
      using find_one_SomeD [OF find [unfolded Some]] by (auto simp: is_open_def)
    then have "?p \<in> open_nodes ?s ?rows" by (force simp: open_nodes_def)
    ultimately show ?thesis using ok by (simp add: insert_absorb)
  qed
  show "states_ok (state_rows m')" "open_nodes ?s (state_rows m') = insert ?p (open_nodes ?s ?rows)"
    using goal by blast+
  show "s' \<noteq> ?s \<Longrightarrow> open_nodes s' (state_rows m') = open_nodes s' ?rows"
    "b < c \<Longrightarrow> entered_before c s' ?rows \<Longrightarrow> entered_before c s' (state_rows m')"
    "s' \<noteq> ?s \<Longrightarrow> entered_before c s' ?rows \<Longrightarrow> entered_before c s' (state_rows m')"
    using goal by blast+
qed

section \<open>Lists of validators\<close>

lemma processRemoved_rows:
  assumes "states_ok (state_rows m)" "entered_before b (state_value st) (state_rows m)"
    and "processRemovedValidators vs b st k m = (Inr (), m')"
  shows "states_ok (state_rows m') \<and>
    open_nodes (state_value st) (state_rows m') =
      open_nodes (state_value st) (state_rows m) - addressToBuffer ` set vs \<and>
    entered_before b (state_value st) (state_rows m') \<and>
    (\<forall>s'. s' \<noteq> state_value st \<longrightarrow> open_nodes s' (state_rows m') = open_nodes s' (state_rows m) \<and>
      (\<forall>c. entered_before c s' (state_rows m) \<longrightarrow> entered_before c s' (state_rows m')))"
  using assms
proof (induction vs arbitrary: m)
  case (Cons v vs)
  then obtain m1 where v: "updateOrIgnoreValidator v (state_value st) b k m = (Inr (), m1)"
    and vs: "processRemovedValidators vs b st k m1 = (Inr (), m')"
    by (auto simp: processRemovedValidators_def andThen_Inr)
  note c = close_validator [OF Cons.prems(1,2) v]
  note ih = Cons.IH [OF c(1) c(3) vs]
  have "open_nodes (state_value st) (state_rows m) - addressToBuffer ` set (v # vs) =
      open_nodes (state_value st) (state_rows m) - {addressToBuffer v} - addressToBuffer ` set vs" by auto
  then show ?case using ih c(2,4,5) by simp
qed (simp add: processRemovedValidators_def ret_Inr)

lemma processAdded_rows:
  assumes "states_ok (state_rows m)" "processAddedValidators vs b st k m = (Inr (), m')"
  shows "states_ok (state_rows m') \<and>
    open_nodes (state_value st) (state_rows m') =
      open_nodes (state_value st) (state_rows m) \<union> addressToBuffer ` set vs \<and>
    (\<forall>s'. s' \<noteq> state_value st \<longrightarrow> open_nodes s' (state_rows m') = open_nodes s' (state_rows m) \<and>
      (\<forall>c. entered_before c s' (state_rows m) \<longrightarrow> entered_before c s' (state_rows m'))) \<and>
    (\<forall>s' c. b < c \<longrightarrow> entered_before c s' (state_rows m) \<longrightarrow> entered_before c s' (state_rows m'))"
  using assms unfolding processAdded_eq
proof (induction vs arbitrary: m)
  case (Cons v vs)
  then obtain m1 where v: "addValidator b st k v m = (Inr (), m1)"
    and vs: "forEach vs (addValidator b st k) m1 = (Inr (), m')"
    by (auto simp: andThen_Inr)
  note a = add_validator [OF Cons.prems(1) v]
  note ih = Cons.IH [OF a(1) vs]
  then show ?case using a(2-5) by simp
qed (simp add: ret_Inr)

section \<open>The observer\<close>

definition observed :: "ValidatorState \<Rightarrow> importer \<Rightarrow> string list" where
  "observed st w = (case st of Current \<Rightarrow> currentValidators w | Pending \<Rightarrow> pendingValidators w)"

text \<open>The lists in memory are the open rows, all of them entered before block \<open>b\<close>.\<close>

definition observer_ok :: "int \<Rightarrow> importer \<Rightarrow> bool" where
  "observer_ok b w \<longleftrightarrow> states_ok (state_rows (db_manager w)) \<and>
     (\<forall>st \<in> {Current, Pending}.
        open_nodes (state_value st) (state_rows (db_manager w)) = addressToBuffer ` set (observed st w) \<and>
        entered_before b (state_value st) (state_rows (db_manager w)))"

definition switchValidators :: "string list \<Rightarrow> string list \<Rightarrow> int \<Rightarrow> ValidatorState \<Rightarrow> int \<Rightarrow> unit action" where
  "switchValidators old new b st k =
     andThen (processRemovedValidators old b st k) (\<lambda>_. processAddedValidators new b st k)"

lemma entered_before_mono: "entered_before b s rows \<Longrightarrow> b \<le> c \<Longrightarrow> entered_before c s rows"
  by (auto simp: entered_before_def list_all_iff)

lemma state_value_neq [simp]: "state_value st = state_value st' \<longleftrightarrow> st = st'"
  by (cases st; cases st') (simp_all add: state_value_def)

lemma switch_rows:
  assumes ok: "states_ok (state_rows m)" "entered_before b (state_value st) (state_rows m)"
    and old: "open_nodes (state_value st) (state_rows m) = addressToBuffer ` set old"
    and run: "switchValidators old new b st k m = (Inr (), m')"
  shows "states_ok (state_rows m') \<and>
    open_nodes (state_value st) (state_rows m') = addressToBuffer ` set new \<and>
    entered_before (b + 1) (state_value st) (state_rows m') \<and>
    (\<forall>st'. st' \<noteq> st \<longrightarrow> open_nodes (state_value st') (state_rows m') = open_nodes (state_value st') (state_rows m) \<and>
      (\<forall>c. entered_before c (state_value st') (state_rows m) \<longrightarrow> entered_before c (state_value st') (state_rows m')))"
proof -
  obtain m1 where r: "processRemovedValidators old b st k m = (Inr (), m1)"
    and a: "processAddedValidators new b st k m1 = (Inr (), m')"
    using run by (auto simp: switchValidators_def andThen_Inr)
  note r = processRemoved_rows [OF ok r]
  note a = processAdded_rows [OF conjunct1 [OF r] a]
  have "entered_before (b + 1) (state_value st) (state_rows m1)"
    using r entered_before_mono [of b _ _ "b + 1"] by auto
  then show ?thesis using r a old by simp
qed

lemma updateValidators_run:
  assumes "updateValidators n b e w = (Inr (), w')"
  obtains (unchanged) k p where "call_getCurrentKeyGenRound n b = Inr k" "fetchPendingValidators n b = Inr p"
      "currentKeyGenRound w = k" "currentPosdaoEpoch w = e" "pendingValidators w = p" "w' = w"
  | (switch) k p c m1 m2 where "call_getCurrentKeyGenRound n b = Inr k" "fetchPendingValidators n b = Inr p"
      "fetchCurrentValidators n b = Inr c"
      "\<not> (currentKeyGenRound w = k \<and> currentPosdaoEpoch w = e \<and> pendingValidators w = p)"
      "if pendingValidators w \<noteq> p \<or> currentKeyGenRound w \<noteq> k
       then switchValidators (pendingValidators w) p b Pending k (db_manager w) = (Inr (), m1)
       else m1 = db_manager w"
      "if currentValidators w \<noteq> c then switchValidators (currentValidators w) c b Current k m1 = (Inr (), m2)
       else m2 = m1"
      "w' = w\<lparr>db_manager := m2, currentPosdaoEpoch := e, pendingValidators := p,
         currentKeyGenRound := k, currentValidators := c\<rparr>"
proof -
  obtain k p where k: "call_getCurrentKeyGenRound n b = Inr k" and p: "fetchPendingValidators n b = Inr p"
    using assms by (auto simp: updateValidators_def andThen_Inr remote_Inr)
  show ?thesis
  proof (cases "currentKeyGenRound w = k \<and> currentPosdaoEpoch w = e \<and> pendingValidators w = p")
    case True
    then show ?thesis
      using assms k p unchanged
      by (auto simp: updateValidators_def andThen_Inr remote_Inr inspect_Inr deepEquals_def ret_Inr)
  next
    case False
    let ?w1 = "w\<lparr>currentPosdaoEpoch := e\<rparr>"
    obtain c w2 where c: "fetchCurrentValidators n b = Inr c"
      and one: "(if pendingValidators w \<noteq> p \<or> currentKeyGenRound w \<noteq> k
       then andThen (on_db (processRemovedValidators (pendingValidators w) b Pending k))
         (\<lambda>_. andThen (on_db (processAddedValidators p b Pending k))
         (\<lambda>_. modify (\<lambda>w. w\<lparr>pendingValidators := p, currentKeyGenRound := k\<rparr>)))
       else ret ()) ?w1 = (Inr (), w2)"
      and two: "(if currentValidators w2 \<noteq> c \<or> currentKeyGenRound w2 \<noteq> k
       then andThen (on_db (processRemovedValidators (currentValidators w2) b Current k))
         (\<lambda>_. andThen (on_db (processAddedValidators c b Current k))
         (\<lambda>_. modify (\<lambda>w. w\<lparr>currentValidators := c\<rparr>)))
       else ret ()) w2 = (Inr (), w')"
      using assms k p False
      by (auto simp: updateValidators_def andThen_Inr remote_Inr inspect_Inr modify_Inr deepEquals_def
          cong: if_cong split del: if_split)
    obtain m1 where m1: "if pendingValidators w \<noteq> p \<or> currentKeyGenRound w \<noteq> k
       then switchValidators (pendingValidators w) p b Pending k (db_manager w) = (Inr (), m1)
       else m1 = db_manager w"
      and w2: "w2 = w\<lparr>db_manager := m1, currentPosdaoEpoch := e, pendingValidators := p, currentKeyGenRound := k\<rparr>"
      using one by (auto simp: andThen_Inr on_db_Inr modify_Inr ret_Inr switchValidators_def split: if_splits)
    obtain m2 where "if currentValidators w \<noteq> c then switchValidators (currentValidators w) c b Current k m1 = (Inr (), m2)
       else m2 = m1"
      and "w' = w\<lparr>db_manager := m2, currentPosdaoEpoch := e, pendingValidators := p,
         currentKeyGenRound := k, currentValidators := c\<rparr>"
      using two unfolding w2
      by (auto simp: andThen_Inr on_db_Inr modify_Inr ret_Inr switchValidators_def split: if_splits)
    then show ?thesis using switch [OF k p c False m1] by blast
  qed
qed



end
