(* ===== verification/Rewards.thy ===== *)
theory Rewards imports Network begin

text \<open>
  The rewards of an epoch that has ended: the class ContractManager (src/src/contractManager.ts)
  reads what a pool earned and splits it among the pool's delegators.

  Division of \<open>BigNumber\<close>s is bignumber.js's, a parameter \<open>bdiv\<close>. The theorems use of it what its
  documentation says for 18 decimal places and rounding half up: the quotient is off by at
  most half a unit of the last place.
\<close>

type_synonym division = "BigNumber \<Rightarrow> BigNumber \<Rightarrow> BigNumber"

definition getEpochPoolNativeReward :: "network \<Rightarrow> int \<Rightarrow> string \<Rightarrow> int \<Rightarrow> BigNumber result" where
  "getEpochPoolNativeReward n epochNr miningAddress b =
     await (call_epochPoolNativeReward n epochNr miningAddress b) (\<lambda>result. Inr (parseEther result))"

definition getValidatorMinRewardPercent :: "network \<Rightarrow> int \<Rightarrow> int \<Rightarrow> int task" where
  "getValidatorMinRewardPercent n epochNr b =
     andThen (inspect (\<lambda>w. cachedValidatorMinRewardPercent w epochNr)) (\<lambda>cached. case cached of
       Some result \<Rightarrow> ret result
     | None \<Rightarrow> andThen (remote (call_validatorMinRewardPercent n epochNr b)) (\<lambda>result.
         andThen (modify (\<lambda>w. w\<lparr>cachedValidatorMinRewardPercent :=
            (cachedValidatorMinRewardPercent w)(epochNr \<mapsto> result)\<rparr>)) (\<lambda>_. ret result)))"

definition getSnapshotPoolTotalStakeAmount :: "network \<Rightarrow> int \<Rightarrow> string \<Rightarrow> BigNumber result" where
  "getSnapshotPoolTotalStakeAmount n epochNr pool =
     await (call_snapshotPoolTotalStakeAmount n epochNr pool) (\<lambda>result. Inr (parseEther result))"

definition apyStakeFraction :: BigNumber where
  "apyStakeFraction = parseEther (10000 * 10 ^ 18)"

record pool_rewards =
  pr_apy :: BigNumber
  pr_rewards :: "DelegateRewardData list"
  pr_totalPoolReward :: BigNumber
  pr_validatorFixed :: BigNumber
  pr_nodeOperatorReward :: BigNumber
  pr_delegatorsTotal :: BigNumber
  pr_totalStake :: BigNumber

text \<open>The body of the loop over the delegators.\<close>

definition delegatorReward ::
  "division \<Rightarrow> network \<Rightarrow> string \<Rightarrow> int \<Rightarrow> int \<Rightarrow> BigNumber \<Rightarrow> BigNumber \<Rightarrow> string \<Rightarrow> DelegateRewardData result" where
  "delegatorReward bdiv n pool epochNr epochSnapshotBlock delegatorsTotal totalStake delegator =
     await (call_stakeAmount n pool delegator epochSnapshotBlock) (\<lambda>stake.
     let delegatorStake = parseEther stake;
         reward = (if totalStake = 0 then 0 else bdiv (delegatorsTotal * delegatorStake) totalStake)
     in Inr \<lparr>rd_delegatorAddress = delegator, rd_poolAddress = pool, rd_epoch = epochNr,
             rd_isClaimed = True, rd_amount = reward\<rparr>)"

definition getDelegateRewards ::
  "division \<Rightarrow> network \<Rightarrow> string \<Rightarrow> string \<Rightarrow> int \<Rightarrow> int \<Rightarrow> BigNumber \<Rightarrow> BigNumber \<Rightarrow> pool_rewards result" where
  "getDelegateRewards bdiv n pool miningAddress epochNr epochSnapshotBlock eventValidatorReward
     eventDelegatorsReward =
     (let poolReward = eventValidatorReward + eventDelegatorsReward;
          validatorFixed = eventValidatorReward;
          delegatorsTotal = eventDelegatorsReward
      in await (call_poolNodeOperatorShare n pool epochSnapshotBlock) (\<lambda>operatorSharePct.
         let nodeOperatorReward = bdiv (poolReward * of_int operatorSharePct) 10000
         in await (getSnapshotPoolTotalStakeAmount n epochNr pool) (\<lambda>totalStake.
         await (getAllPoolDelegators n pool epochSnapshotBlock) (\<lambda>delegators.
         await (mapM (delegatorReward bdiv n pool epochNr epochSnapshotBlock delegatorsTotal totalStake) delegators)
         (\<lambda>result.
         let apy = (if totalStake = 0 then 0 else bdiv (delegatorsTotal * apyStakeFraction) totalStake)
         in Inr \<lparr>pr_apy = apy, pr_rewards = result, pr_totalPoolReward = poolReward,
                 pr_validatorFixed = validatorFixed, pr_nodeOperatorReward = nodeOperatorReward,
                 pr_delegatorsTotal = delegatorsTotal, pr_totalStake = totalStake\<rparr>)))))"

section \<open>What the delegators get together\<close>

definition half_ulp :: rat where
  "half_ulp = 1 / (2 * 10 ^ 18)"

definition rounds_half_ulp :: "division \<Rightarrow> bool" where
  "rounds_half_ulp bdiv \<longleftrightarrow> (\<forall>a b. b \<noteq> 0 \<longrightarrow> \<bar>bdiv a b - a / b\<bar> \<le> half_ulp)"

text \<open>The division that rounds to 18 places, half up.\<close>

definition div18 :: division where
  "div18 a b = of_int \<lfloor>a / b * 10 ^ 18 + 1 / 2\<rfloor> / 10 ^ 18"

lemma round_places:
  fixes x k :: rat
  assumes "0 < k"
  shows "\<bar>of_int \<lfloor>x * k + 1 / 2\<rfloor> / k - x\<bar> \<le> 1 / (2 * k)"
proof -
  have "\<bar>of_int \<lfloor>x * k + 1 / 2\<rfloor> - x * k\<bar> \<le> 1 / 2" by linarith
  then have "\<bar>of_int \<lfloor>x * k + 1 / 2\<rfloor> - x * k\<bar> / k \<le> 1 / 2 / k"
    using assms by (intro divide_right_mono) simp_all
  moreover have "\<bar>of_int \<lfloor>x * k + 1 / 2\<rfloor> - x * k\<bar> / k = \<bar>(of_int \<lfloor>x * k + 1 / 2\<rfloor> - x * k) / k\<bar>"
    using assms by simp
  moreover have "(of_int \<lfloor>x * k + 1 / 2\<rfloor> - x * k) / k = of_int \<lfloor>x * k + 1 / 2\<rfloor> / k - x"
    using assms by (simp add: diff_divide_distrib)
  ultimately show ?thesis by simp
qed

lemma div18_rounds: "rounds_half_ulp div18"
  unfolding rounds_half_ulp_def div18_def half_ulp_def by (intro allI impI) (rule round_places, simp)

definition delegatorStakes :: "network \<Rightarrow> string \<Rightarrow> int \<Rightarrow> string list \<Rightarrow> BigNumber list result" where
  "delegatorStakes n pool b delegators =
     mapM (\<lambda>a. await (call_stakeAmount n pool a b) (\<lambda>s. Inr (parseEther s))) delegators"

lemma sum_rounding:
  assumes "rounds_half_ulp bdiv" "s \<noteq> 0"
  shows "\<bar>sum_list (map (\<lambda>x. bdiv (t * x) s) xs) - t * sum_list xs / s\<bar> \<le> of_nat (length xs) * half_ulp"
proof (induction xs)
  case (Cons x xs)
  have "\<bar>bdiv (t * x) s - t * x / s\<bar> \<le> half_ulp" using assms by (simp add: rounds_half_ulp_def)
  moreover have "t * sum_list (x # xs) / s = t * x / s + t * sum_list xs / s"
    by (simp add: add_divide_distrib distrib_left)
  ultimately show ?case using Cons.IH by (simp add: algebra_simps)
qed simp

lemma delegator_amounts:
  assumes "mapM (delegatorReward bdiv n pool e b t s) delegators = Inr rewards"
  shows "\<exists>stakes. delegatorStakes n pool b delegators = Inr stakes \<and>
    map rd_delegatorAddress rewards = delegators \<and> length stakes = length delegators \<and>
    map rd_amount rewards = map (\<lambda>x. if s = 0 then 0 else bdiv (t * x) s) stakes"
  using assms
proof (induction delegators arbitrary: rewards)
  case (Cons a delegators)
  then obtain r rs where r: "delegatorReward bdiv n pool e b t s a = Inr r" "rewards = r # rs"
    and rs: "mapM (delegatorReward bdiv n pool e b t s) delegators = Inr rs"
    by (auto simp: result_simps)
  from r obtain v where v: "call_stakeAmount n pool a b = Inr v"
    "rd_delegatorAddress r = a" "rd_amount r = (if s = 0 then 0 else bdiv (t * parseEther v) s)"
    by (auto simp: delegatorReward_def result_simps Let_def)
  from Cons.IH [OF rs] obtain stakes where "delegatorStakes n pool b delegators = Inr stakes"
    "map rd_delegatorAddress rs = delegators" "length stakes = length delegators"
    "map rd_amount rs = map (\<lambda>x. if s = 0 then 0 else bdiv (t * x) s) stakes" by blast
  with v r(2) show ?case
    by (intro exI [of _ "parseEther v # stakes"]) (simp add: delegatorStakes_def)
qed (simp add: delegatorStakes_def)

lemma getDelegateRewards_parts:
  assumes "getDelegateRewards bdiv n pool m e b vr dr = Inr r"
  obtains delegators where "getAllPoolDelegators n pool b = Inr delegators"
    "getSnapshotPoolTotalStakeAmount n e pool = Inr (pr_totalStake r)"
    "mapM (delegatorReward bdiv n pool e b dr (pr_totalStake r)) delegators = Inr (pr_rewards r)"
    "pr_validatorFixed r = vr" "pr_delegatorsTotal r = dr" "pr_totalPoolReward r = vr + dr"
  using assms by (auto simp: getDelegateRewards_def result_simps Let_def)

text \<open>C27: The delegators of a pool get together the delegators' part of the reward times their
  part of the snapshot stake, up to half a unit of the 18th decimal place per delegator; the
  parts of the validator and of the delegators are exactly the pool's reward. There is one entry per delegator, in order, and an empty snapshot pays nothing.\<close>

theorem delegator_rewards_bounded:
  assumes "rounds_half_ulp bdiv" and "getDelegateRewards bdiv n pool m e b vr dr = Inr r"
  shows "\<exists>delegators stakes. getAllPoolDelegators n pool b = Inr delegators \<and>
    delegatorStakes n pool b delegators = Inr stakes \<and>
    map rd_delegatorAddress (pr_rewards r) = delegators \<and>
    (let paid = sum_list (map rd_amount (pr_rewards r)); total = pr_totalStake r;
         slack = of_nat (length delegators) * half_ulp
     in if total = 0 then paid = 0 else \<bar>paid - dr * sum_list stakes / total\<bar> \<le> slack) \<and>
    pr_validatorFixed r = vr \<and> pr_delegatorsTotal r = dr \<and>
    pr_validatorFixed r + pr_delegatorsTotal r = pr_totalPoolReward r"
proof -
  obtain delegators where d: "getAllPoolDelegators n pool b = Inr delegators"
    "mapM (delegatorReward bdiv n pool e b dr (pr_totalStake r)) delegators = Inr (pr_rewards r)"
    and parts: "pr_validatorFixed r = vr" "pr_delegatorsTotal r = dr" "pr_totalPoolReward r = vr + dr"
    using getDelegateRewards_parts [OF assms(2)] by metis
  obtain stakes where s: "delegatorStakes n pool b delegators = Inr stakes"
    "map rd_delegatorAddress (pr_rewards r) = delegators" "length stakes = length delegators"
    "map rd_amount (pr_rewards r) =
       map (\<lambda>x. if pr_totalStake r = 0 then 0 else bdiv (dr * x) (pr_totalStake r)) stakes"
    using delegator_amounts [OF d(2)] by blast
  let ?total = "pr_totalStake r" and ?paid = "sum_list (map rd_amount (pr_rewards r))"
  have none: "?paid = 0" if "?total = 0" using that s(4) by (simp add: map_replicate_const sum_list_replicate)
  have some: "\<bar>?paid - dr * sum_list stakes / ?total\<bar> \<le> of_nat (length delegators) * half_ulp"
    if "?total \<noteq> 0"
    using sum_rounding [OF assms(1) that, of dr stakes] that s(3,4) by simp
  show ?thesis using d(1) s(1,2) none some parts by (auto simp: Let_def)
qed

lemma delegator_rewards_bounded_witness:
  "\<exists>r. getDelegateRewards div18 sample_network ''0xAA'' ''0xAA'' 0 7 60 240 = Inr r \<and>
    (\<exists>delegators stakes. getAllPoolDelegators sample_network ''0xAA'' 7 = Inr delegators \<and>
      delegatorStakes sample_network ''0xAA'' 7 delegators = Inr stakes \<and>
      map rd_delegatorAddress (pr_rewards r) = delegators \<and>
      (let paid = sum_list (map rd_amount (pr_rewards r)); total = pr_totalStake r;
           slack = of_nat (length delegators) * half_ulp
       in if total = 0 then paid = 0 else \<bar>paid - 240 * sum_list stakes / total\<bar> \<le> slack) \<and>
      pr_validatorFixed r = 60 \<and> pr_delegatorsTotal r = 240 \<and>
      pr_validatorFixed r + pr_delegatorsTotal r = pr_totalPoolReward r)"
proof -
  obtain r where r: "getDelegateRewards div18 sample_network ''0xAA'' ''0xAA'' 0 7 60 240 = Inr r"
    by (simp add: getDelegateRewards_def getSnapshotPoolTotalStakeAmount_def getAllPoolDelegators_def
        delegatorReward_def sample_network_def Let_def)
  from delegator_rewards_bounded [OF div18_rounds r] r show ?thesis by blast
qed

end
