(* ===== verification/RunFillDb.thy ===== *)
theory RunFillDb imports Rewards BonusCache ValidatorObserver begin

text \<open>
  src/src/db/runFillDb.ts: the program that imports block after block. \<open>importBlock\<close> is the body
  of the block transaction, step by step; \<open>importer_step\<close> is one turn of the main loop, with the
  transaction, the catch clause and the wait at the head of the chain. \<open>startImport\<close> is what
  \<open>run()\<close> does before the loop.

  The variables that the body assigns for the code after it (\<open>posdaoEpochAfterBlock\<close>,
  \<open>blockTimestampAfter\<close>) are its result; the code reads them only after a success. The list
  \<open>allPools\<close>, \<open>allValidators\<close> and the map \<open>knownNodesStakingByMining\<close> are never read and left out.
\<close>

section \<open>Blocks\<close>

definition header_row :: "network \<Rightarrow> block_header \<Rightarrow> block_infos \<Rightarrow> Headers result" where
  "header_row n blockHeader infos =
     await (call_deltaPot n (bh_number blockHeader)) (\<lambda>delta.
     await (call_reinsertPot n (bh_number blockHeader)) (\<lambda>reinsert.
     await (getRewardContractTotal n (bh_number blockHeader)) (\<lambda>rewardContractTotal.
     await (getGovernancePot n (bh_number blockHeader)) (\<lambda>governanceBalance.
     await (call_getBalance n (claimingPotAddress n) None) (\<lambda>unclaimed.
     Inr \<lparr>block_number = bh_number blockHeader, block_hash = truncate0x (bh_hash blockHeader),
          extra_data = truncate0x (bh_extraData blockHeader), block_time = bi_timeStamp infos,
          block_duration = bi_duration infos, transaction_count = bi_transaction_count infos,
          txs_per_sec = bi_txs_per_sec infos, posdao_hbbft_epoch = bi_posdaoEpoch infos,
          reinsert_pot = parseEther reinsert, delta_pot = parseEther delta,
          governance_pot = parseEther governanceBalance,
          reward_contract_total = parseEther rewardContractTotal,
          unclaimed_rewards = parseEther unclaimed\<rparr>)))))"

definition importHeader :: "network \<Rightarrow> int \<Rightarrow> int \<Rightarrow> (block_header \<times> block_infos) task" where
  "importHeader n blockNum beforeTimestamp =
     andThen (remote (call_getBlock n blockNum)) (\<lambda>blockHeader.
     andThen (remote (getBlockInfos n blockHeader beforeTimestamp)) (\<lambda>infos.
     andThen (remote (header_row n blockHeader infos)) (\<lambda>row.
     andThen (on_db (insertHeader row)) (\<lambda>_. ret (blockHeader, infos)))))"

definition insertHeaderForBlock :: "network \<Rightarrow> int \<Rightarrow> int \<Rightarrow> int task" where
  "insertHeaderForBlock n blockNum beforeTimestamp =
     andThen (importHeader n blockNum beforeTimestamp) (\<lambda>(_, infos). ret (bi_timeStamp infos))"

section \<open>Nodes\<close>

definition newNode :: "string \<Rightarrow> string \<Rightarrow> string \<Rightarrow> int \<Rightarrow> int \<Rightarrow> Node" where
  "newNode pool miningAddress publicKey b bonusScore =
     \<lparr>pool_address = addressToBuffer pool, mining_address = addressToBuffer miningAddress,
      mining_public_key = addressToBuffer publicKey, added_block = b, node_bonus_score = bonusScore\<rparr>"

definition insertNode_run :: "network \<Rightarrow> string \<Rightarrow> int \<Rightarrow> unit task" where
  "insertNode_run n pool b =
     andThen (remote (call_miningByStakingAddress n pool b)) (\<lambda>miningAddress.
     andThen (remote (call_publicKeyByStakingAddress n pool b)) (\<lambda>publicKey.
     andThen (remote (call_getValidatorScore n miningAddress b)) (\<lambda>bonusScore.
     andThen (on_db (insertNode pool miningAddress publicKey b bonusScore)) (\<lambda>_.
     andThen (registerNewNode n pool miningAddress b) (\<lambda>_.
     modify (\<lambda>w. w\<lparr>knownNodes := (knownNodes w)(to_lower pool \<mapsto>
           newNode pool miningAddress publicKey b bonusScore),
         knownNodesByMining := (knownNodesByMining w)(to_lower miningAddress \<mapsto>
           newNode pool miningAddress publicKey b bonusScore)\<rparr>))))))"

definition ensureNode :: "network \<Rightarrow> int \<Rightarrow> string \<Rightarrow> unit task" where
  "ensureNode n b pool = andThen (inspect (\<lambda>w. knownNodes w (to_lower pool) \<noteq> None))
     (\<lambda>known. if known then ret () else insertNode_run n pool b)"

definition insertGenesisPools :: "network \<Rightarrow> block_header \<Rightarrow> int \<Rightarrow> unit task" where
  "insertGenesisPools n header b =
     (if b = 0 then andThen (remote (getAllPools n (bh_number header))) (\<lambda>pools. forEach pools (ensureNode n b))
      else ret ())"

section \<open>The end of an epoch\<close>

definition rewardPool ::
  "division \<Rightarrow> network \<Rightarrow> int \<Rightarrow> int \<Rightarrow> int \<Rightarrow> int \<Rightarrow> string \<Rightarrow> DelegateRewardData list task" where
  "rewardPool bdiv n e epochSnapshotBlock epochRewardBlock validatorMinPct pool =
     andThen (remote (call_miningByStakingAddress n pool epochSnapshotBlock)) (\<lambda>miningAddress.
     andThen (remote (getEpochPoolNativeReward n e miningAddress epochRewardBlock)) (\<lambda>totalPoolReward.
     if totalPoolReward = 0 then
       andThen (remote (getSnapshotPoolTotalStakeAmount n e pool)) (\<lambda>totalStake.
       andThen (on_db (updateValidatorReward pool e 0 0 0 0 0 0 totalStake)) (\<lambda>_. ret []))
     else
       let validatorReward = bdiv (totalPoolReward * of_int validatorMinPct) 100;
           delegatorsReward = totalPoolReward - validatorReward
       in andThen (remote (getDelegateRewards bdiv n pool miningAddress e epochSnapshotBlock
            validatorReward delegatorsReward)) (\<lambda>r.
          andThen (on_db (updateValidatorReward pool e validatorReward (pr_apy r)
            (pr_totalPoolReward r) (pr_validatorFixed r) (pr_nodeOperatorReward r)
            (pr_delegatorsTotal r) (pr_totalStake r))) (\<lambda>_. ret (pr_rewards r)))))"

definition dedup :: "'a list \<Rightarrow> 'a list" where
  "dedup xs = fold set_add xs []"

definition endEpoch :: "division \<Rightarrow> network \<Rightarrow> int \<Rightarrow> int \<Rightarrow> unit task" where
  "endEpoch bdiv n e b =
     andThen (on_db (endStakingEpoch e (b - 1))) (\<lambda>_.
     andThen (remote (getAllPools n (b - 1))) (\<lambda>epochPools.
     andThen (getValidatorMinRewardPercent n e b) (\<lambda>validatorMinPct.
     andThen (collect epochPools (rewardPool bdiv n e (b - 1) b validatorMinPct)) (\<lambda>delegatedRewards.
     if length delegatedRewards > 0 then
       andThen (on_db (insertDelegateStaker (dedup (map rd_delegatorAddress delegatedRewards)))) (\<lambda>_.
       on_db (insertDelegateRewardsBulk delegatedRewards))
     else ret ()))))"

definition insertEpochValidator :: "network \<Rightarrow> int \<Rightarrow> int \<Rightarrow> string \<Rightarrow> unit task" where
  "insertEpochValidator n e b validator =
     andThen (inspect (\<lambda>w. knownNodesByMining w (to_lower validator))) (\<lambda>known.
     andThen (case known of Some _ \<Rightarrow> ret ()
       | None \<Rightarrow> andThen (remote (call_stakingByMiningAddress n validator b)) (ensureNode n b)) (\<lambda>_.
     andThen (inspect (\<lambda>w. knownNodesByMining w (to_lower validator))) (\<lambda>found. case found of
       None \<Rightarrow> ret ()
     | Some r \<Rightarrow> on_db (insertEpochNode e (bufferToAddress (pool_address r))))))"

definition switchEpoch ::
  "division \<Rightarrow> network \<Rightarrow> int \<Rightarrow> int \<Rightarrow> block_header \<Rightarrow> int \<Rightarrow> unit task" where
  "switchEpoch bdiv n epochAtBlockStart posdaoEpoch header b =
     (if posdaoEpoch > epochAtBlockStart then
        andThen (if epochAtBlockStart \<ge> 0 then endEpoch bdiv n epochAtBlockStart (bh_number header)
          else ret ()) (\<lambda>_.
        andThen (on_db (insertStakingEpoch posdaoEpoch (bh_number header))) (\<lambda>_.
        andThen (remote (call_getValidators n b)) (\<lambda>validators.
        forEach validators (insertEpochValidator n posdaoEpoch b))))
      else ret ())"

section \<open>One block\<close>

definition fetchEvents :: "network \<Rightarrow> int \<Rightarrow> contract_event list task" where
  "fetchEvents n b = andThen (remote (fetchBlockEvents (events_of n) b)) (\<lambda>events.
     andThen (modify (\<lambda>w. w\<lparr>fetchedEvents := events\<rparr>)) (\<lambda>_. ret events))"

text \<open>The body in two parts: what books the block's header, nodes, epoch and events, and what
  follows the validators and the bonus scores.\<close>

definition bookBlock :: "division \<Rightarrow> network \<Rightarrow> int \<Rightarrow> int \<Rightarrow> int \<Rightarrow> block_infos task" where
  "bookBlock bdiv n b epochAtBlockStart beforeTimestamp =
     andThen (importHeader n b beforeTimestamp) (\<lambda>(header, infos).
     andThen (insertGenesisPools n header b) (\<lambda>_.
     andThen (fetchEvents n b) (\<lambda>events.
     andThen (forEach (getPoolsSet events) (ensureNode n b)) (\<lambda>_.
     andThen (on_db (insertDelegateStaker (getDelegatorsSet events))) (\<lambda>_.
     andThen (switchEpoch bdiv n epochAtBlockStart (bi_posdaoEpoch infos) header b) (\<lambda>_.
     andThen (on_db (processEvents events)) (\<lambda>_. ret infos)))))))"

definition followBlock :: "network \<Rightarrow> int \<Rightarrow> block_infos \<Rightarrow> block_infos task" where
  "followBlock n b infos =
     andThen (updateValidators n b (bi_posdaoEpoch infos)) (\<lambda>_.
     andThen (remote (getAllPools n b)) (\<lambda>currentAllPools.
     andThen (processBonusScore n b currentAllPools) (\<lambda>_. ret infos)))"

definition importBlock :: "division \<Rightarrow> network \<Rightarrow> int \<Rightarrow> int \<Rightarrow> int \<Rightarrow> block_infos task" where
  "importBlock bdiv n b epochAtBlockStart beforeTimestamp =
     andThen (bookBlock bdiv n b epochAtBlockStart beforeTimestamp) (followBlock n b)"

text \<open>\<open>executeInTransaction\<close> around a body that also uses the importer's memory: only the
  database goes back.\<close>

definition inTransaction :: "'a task \<Rightarrow> 'a task" where
  "inTransaction body w =
     (case body (w\<lparr>db_manager := begin_transaction (db_manager w)\<rparr>) of
        (Inr x, w') \<Rightarrow> (Inr x, w'\<lparr>db_manager := end_transaction (db_manager w) (db_manager w') True\<rparr>)
      | (Inl e, w') \<Rightarrow> (Inl e, w'\<lparr>db_manager := end_transaction (db_manager w) (db_manager w') False\<rparr>))"

definition blockTransaction :: "division \<Rightarrow> network \<Rightarrow> block_infos task" where
  "blockTransaction bdiv n w = inTransaction (importBlock bdiv n (currentBlockNumber w)
     (lastInsertedPosdaoEpoch w) (blockBeforeTimestamp w)) w"

section \<open>The main loop\<close>

text \<open>At the head of the chain \<open>getBlockNumber\<close> is asked again and again. Its answers are the list
  \<open>heads\<close>; when there is no further answer, the program is still waiting.\<close>

datatype 'a progress = Waiting | Stopped | Done 'a

fun awaitHead :: "network \<Rightarrow> int result list \<Rightarrow> importer \<Rightarrow> (unit result \<times> importer) progress" where
  "awaitHead n [] w =
     (if currentBlockNumber w \<noteq> latest_known_block w then Done (Inr (), w) else Waiting)"
| "awaitHead n (answer # heads) w =
     (if currentBlockNumber w \<noteq> latest_known_block w then Done (Inr (), w)
      else case answer of
        Inl e \<Rightarrow> Done (Inl e, w)
      | Inr h \<Rightarrow>
          let w1 = w\<lparr>latest_known_block := h\<rparr> in
          if h > currentBlockNumber w1 then
            (case fetchEvents n (currentBlockNumber w1) w1 of
               (Inl e, w2) \<Rightarrow> Done (Inl e, w2)
             | (Inr _, w2) \<Rightarrow> awaitHead n heads w2)
          else awaitHead n heads (w1\<lparr>db_manager := snd (sleep 1000 (db_manager w1))\<rparr>))"

text \<open>The catch clause: wait, and leave the block number as it is.\<close>

definition afterError :: "error \<Rightarrow> importer \<Rightarrow> importer" where
  "afterError err w = w\<lparr>db_manager :=
     snd (sleep (if isConnectionError err then 10000 else 5000) (db_manager w))\<rparr>"

definition blockImported :: "block_infos \<Rightarrow> importer \<Rightarrow> importer" where
  "blockImported infos w = w\<lparr>blockBeforeTimestamp := bi_timeStamp infos,
     lastInsertedPosdaoEpoch := max (lastInsertedPosdaoEpoch w) (bi_posdaoEpoch infos)\<rparr>"

definition importer_step ::
  "division \<Rightarrow> network \<Rightarrow> int option \<Rightarrow> int result list \<Rightarrow> importer \<Rightarrow> importer progress" where
  "importer_step bdiv n fillStopBlock heads w =
     (if currentBlockNumber w > latest_known_block w \<or>
         (case fillStopBlock of None \<Rightarrow> False | Some b \<Rightarrow> currentBlockNumber w \<ge> b + 1) then Stopped
      else case blockTransaction bdiv n w of
        (Inl err, w1) \<Rightarrow> Done (afterError err w1)
      | (Inr infos, w1) \<Rightarrow>
          (case awaitHead n heads (blockImported infos w1) of
             Waiting \<Rightarrow> Waiting
           | Stopped \<Rightarrow> Stopped
           | Done (Inl err, w2) \<Rightarrow> Done (afterError err w2)
           | Done (Inr _, w2) \<Rightarrow> Done (w2\<lparr>currentBlockNumber := currentBlockNumber w2 + 1\<rparr>)))"

text \<open>The states of the importer after any number of turns.\<close>

inductive importing :: "division \<Rightarrow> network \<Rightarrow> int option \<Rightarrow> importer \<Rightarrow> importer \<Rightarrow> bool"
  for bdiv n stop w where
  start: "importing bdiv n stop w w"
| turn: "importing bdiv n stop w w1 \<Longrightarrow> importer_step bdiv n stop heads w1 = Done w2 \<Longrightarrow>
    importing bdiv n stop w w2"

section \<open>Before the loop\<close>

definition knownFromDb :: "(Node \<Rightarrow> buffer) \<Rightarrow> Node list \<Rightarrow> string \<rightharpoonup> Node" where
  "knownFromDb address nodes =
     fold (\<lambda>r known. known(to_lower (bufferToAddress (address r)) \<mapsto> r)) nodes Map.empty"

definition loadKnownNodes :: "Node list \<Rightarrow> unit task" where
  "loadKnownNodes nodes = modify (\<lambda>w. w\<lparr>knownNodes := knownFromDb pool_address nodes,
     knownNodesByMining := knownFromDb mining_address nodes\<rparr>)"

definition blockTime :: "network \<Rightarrow> int \<Rightarrow> int task" where
  "blockTime n b = andThen (remote (call_getBlock n b)) (\<lambda>header. ret (bh_timestamp header))"

definition bootstrapAtBlock :: "network \<Rightarrow> int \<Rightarrow> unit task" where
  "bootstrapAtBlock n startBlock =
     andThen (remote (call_stakingEpoch n startBlock)) (\<lambda>e.
     andThen (remote (call_stakingEpochStartBlock n startBlock)) (\<lambda>epochStartBlock.
     andThen (if startBlock > 0 then
         andThen (blockTime n (startBlock - 1)) (\<lambda>prior.
         andThen (if startBlock > 1 then blockTime n (startBlock - 2) else ret prior) (\<lambda>priorBeforeTs.
         andThen (insertHeaderForBlock n (startBlock - 1) priorBeforeTs) (\<lambda>_.
         andThen (insertHeaderForBlock n startBlock prior) (\<lambda>_. ret ()))))
       else ret ()) (\<lambda>_.
     andThen (if epochStartBlock \<noteq> startBlock - 1 \<and> epochStartBlock > 0 then
         andThen (blockTime n (if epochStartBlock > 1 then epochStartBlock - 2 else 0)) (\<lambda>beforeEpochStart.
         andThen (insertHeaderForBlock n epochStartBlock beforeEpochStart) (\<lambda>_. ret ()))
       else ret ()) (\<lambda>_.
     andThen (on_db getLastProcessedEpoch) (\<lambda>existingEpoch.
     andThen (if existingEpoch = None then on_db (insertStakingEpoch e epochStartBlock) else ret ()) (\<lambda>_.
     andThen (modify (\<lambda>w. w\<lparr>lastInsertedPosdaoEpoch := e\<rparr>)) (\<lambda>_.
     andThen (remote (getAllPools n startBlock)) (\<lambda>pools.
     andThen (forEach pools (ensureNode n startBlock)) (\<lambda>_.
     andThen (remote (call_getValidators n startBlock)) (\<lambda>validators.
     andThen (forEach validators (\<lambda>validator.
        andThen (inspect (\<lambda>w. knownNodesByMining w (to_lower validator))) (\<lambda>found. case found of
          None \<Rightarrow> ret ()
        | Some r \<Rightarrow> on_db (insertEpochNode e (bufferToAddress (pool_address r)))))) (\<lambda>_.
     initBonusScores n startBlock)))))))))))"

definition epoch_or_none :: "PosdaoEpoch option \<Rightarrow> int" where
  "epoch_or_none r = (case r of None \<Rightarrow> -1 | Some e \<Rightarrow> epoch_id e)"

definition needsBootstrap :: "Headers option \<Rightarrow> PosdaoEpoch option \<Rightarrow> Node list \<Rightarrow> int \<Rightarrow> bool" where
  "needsBootstrap lastProcessedBlock lastProcessedEpochRow nodes fillStartBlock \<longleftrightarrow>
     (case lastProcessedBlock of None \<Rightarrow> True | Some h \<Rightarrow> block_number h < fillStartBlock - 1) \<or>
     lastProcessedEpochRow = None \<or> nodes = []"

text \<open>Bootstrapping and the second reading of what is in the tables.\<close>

definition startAt :: "network \<Rightarrow> Headers option \<Rightarrow> PosdaoEpoch option \<Rightarrow> Node list \<Rightarrow> int \<Rightarrow> Headers option task" where
  "startAt n lastProcessedBlock lastProcessedEpochRow nodes fillStartBlock =
     andThen (if needsBootstrap lastProcessedBlock lastProcessedEpochRow nodes fillStartBlock then
         andThen (bootstrapAtBlock n fillStartBlock) (\<lambda>_.
         andThen (on_db getLastProcessedBlock) (\<lambda>block1.
         andThen (on_db getLastProcessedEpoch) (\<lambda>epoch1.
         andThen (modify (\<lambda>w. w\<lparr>lastInsertedPosdaoEpoch := epoch_or_none epoch1\<rparr>)) (\<lambda>_.
         andThen (on_db getNodes) (\<lambda>nodes1.
         andThen (loadKnownNodes nodes1) (\<lambda>_. ret block1))))))
       else ret lastProcessedBlock) (\<lambda>block.
     andThen (modify (\<lambda>w. w\<lparr>currentBlockNumber := fillStartBlock\<rparr>)) (\<lambda>_. ret block))"

definition startImport :: "network \<Rightarrow> int option \<Rightarrow> int option \<Rightarrow> unit task" where
  "startImport n fillStartBlock fillStopBlock =
     andThen initialize (\<lambda>_.
     andThen (remote (call_getBlockNumber n)) (\<lambda>head.
     andThen (modify (\<lambda>w. w\<lparr>latest_known_block :=
        (case fillStopBlock of None \<Rightarrow> head | Some b \<Rightarrow> min head b)\<rparr>)) (\<lambda>_.
     andThen (on_db getLastProcessedEpoch) (\<lambda>lastProcessedEpochRow.
     andThen (modify (\<lambda>w. w\<lparr>lastInsertedPosdaoEpoch := epoch_or_none lastProcessedEpochRow\<rparr>)) (\<lambda>_.
     andThen (on_db getNodes) (\<lambda>nodes.
     andThen (loadKnownNodes nodes) (\<lambda>_.
     andThen (on_db getLastProcessedBlock) (\<lambda>lastProcessedBlock.
     andThen (modify (\<lambda>w. w\<lparr>currentBlockNumber :=
        (case lastProcessedBlock of None \<Rightarrow> 0 | Some h \<Rightarrow> block_number h + 1)\<rparr>)) (\<lambda>_.
     andThen (case fillStartBlock of None \<Rightarrow> ret lastProcessedBlock
       | Some b \<Rightarrow> startAt n lastProcessedBlock lastProcessedEpochRow nodes b) (\<lambda>block.
     andThen (inspect currentBlockNumber) (\<lambda>b.
     andThen (initBonusScores n b) (\<lambda>_.
     modify (\<lambda>w. w\<lparr>blockBeforeTimestamp := (case block of None \<Rightarrow> 0 | Some h \<Rightarrow> block_time h)\<rparr>)))))))))))))"

end
