(* ===== verification/Integrity.thy ===== *)
theory Integrity imports RunFillDb begin

text \<open>
  The integrity of the schema (\<open>valid_db\<close>: unique keys, resolved references) through every statement
  of the importer, through the block transaction and the main loop.
\<close>

section \<open>One table at a time\<close>

named_theorems integrity \<open>replacing the rows of one table\<close>

lemma parents_headers:
  "set (map block_number (headers d)) \<subseteq> set (map block_number rows) \<Longrightarrow>
   parents_le d (d\<lparr>headers := rows\<rparr>)"
  by (simp add: parents_le_def)

lemma valid_headers:
  assumes "valid_db d" "distinct (map block_number rows)"
    and "set (map block_number (headers d)) \<subseteq> set (map block_number rows)"
  shows "valid_db (d\<lparr>headers := rows\<rparr>)"
proof -
  have "refs_ok (d\<lparr>headers := rows\<rparr>)"
    using assms(1) refs_ok_mono [OF _ parents_headers [OF assms(3)]] by (simp add: valid_db_def)
  then show ?thesis using assms(1,2) by (simp add: valid_db_def keys_ok_def)
qed

lemma valid_delegate_staker:
  assumes "valid_db d" "distinct rows" "set (delegate_staker d) \<subseteq> set rows"
  shows "valid_db (d\<lparr>delegate_staker := rows\<rparr>)"
proof -
  have "parents_le d (d\<lparr>delegate_staker := rows\<rparr>)" using assms(3) by (simp add: parents_le_def)
  from refs_ok_mono [OF _ this] have "refs_ok (d\<lparr>delegate_staker := rows\<rparr>)"
    using assms(1) by (simp add: valid_db_def)
  then show ?thesis using assms(1,2) by (simp add: valid_db_def keys_ok_def)
qed

lemma valid_node:
  assumes "valid_db d" "distinct (map pool_address rows)" "list_all (node_fk d) rows"
    and "set (map pool_address (node d)) \<subseteq> set (map pool_address rows)"
  shows "valid_db (d\<lparr>node := rows\<rparr>)"
proof -
  have le: "parents_le d (d\<lparr>node := rows\<rparr>)" using assms(4) by (simp add: parents_le_def)
  have "refs_ok (d\<lparr>node := rows\<rparr>)"
    using assms(1,3) unfolding valid_db_def refs_ok_def list_all_iff
    by (auto intro: fk_mono [OF le])
  then show ?thesis using assms(1,2) by (simp add: valid_db_def keys_ok_def)
qed

lemma valid_posdao_epoch:
  assumes "valid_db d" "distinct (map epoch_id rows)" "distinct (map block_start rows)"
    and "distinct (present (map block_end rows))" "list_all (epoch_fk d) rows"
    and "set (map epoch_id (posdao_epoch d)) \<subseteq> set (map epoch_id rows)"
  shows "valid_db (d\<lparr>posdao_epoch := rows\<rparr>)"
proof -
  have le: "parents_le d (d\<lparr>posdao_epoch := rows\<rparr>)" using assms(6) by (simp add: parents_le_def)
  have "refs_ok (d\<lparr>posdao_epoch := rows\<rparr>)"
    using assms(1,5) unfolding valid_db_def refs_ok_def list_all_iff
    by (auto intro: fk_mono [OF le])
  then show ?thesis using assms(1-4) by (simp add: valid_db_def keys_ok_def)
qed

text \<open>Nothing refers to the other tables.\<close>

lemma fk_same:
  assumes "headers d' = headers d" "node d' = node d" "posdao_epoch d' = posdao_epoch d"
    and "delegate_staker d' = delegate_staker d"
  shows "epoch_fk d' = epoch_fk d" "node_fk d' = node_fk d" "epoch_node_fk d' = epoch_node_fk d"
    and "delegate_reward_fk d' = delegate_reward_fk d" "ordered_withdrawal_fk d' = ordered_withdrawal_fk d"
    and "stake_history_fk d' = stake_history_fk d" "pending_validator_fk d' = pending_validator_fk d"
    and "available_event_fk d' = available_event_fk d"
    and "bonus_score_history_fk d' = bonus_score_history_fk d"
    and "stake_delegators_fk d' = stake_delegators_fk d" "reason_fk d' = reason_fk d"
  by (simp_all add: fk_defs fun_eq_iff assms)

lemma valid_posdao_epoch_node:
  "valid_db d \<Longrightarrow> distinct (map epoch_node_key rows) \<Longrightarrow> list_all (epoch_node_fk d) rows \<Longrightarrow>
   valid_db (d\<lparr>posdao_epoch_node := rows\<rparr>)"
  by (simp add: valid_db_def keys_ok_def refs_ok_def fk_same [of "d\<lparr>posdao_epoch_node := rows\<rparr>" d])

lemma valid_delegate_reward:
  "valid_db d \<Longrightarrow> distinct (map delegate_reward_key rows) \<Longrightarrow> list_all (delegate_reward_fk d) rows \<Longrightarrow>
   valid_db (d\<lparr>delegate_reward := rows\<rparr>)"
  by (simp add: valid_db_def keys_ok_def refs_ok_def fk_same [of "d\<lparr>delegate_reward := rows\<rparr>" d])

lemma valid_stake_history:
  "valid_db d \<Longrightarrow> distinct (map stake_history_key rows) \<Longrightarrow> list_all (stake_history_fk d) rows \<Longrightarrow>
   valid_db (d\<lparr>stake_history := rows\<rparr>)"
  by (simp add: valid_db_def keys_ok_def refs_ok_def fk_same [of "d\<lparr>stake_history := rows\<rparr>" d])

lemma valid_pending_validator_state_event:
  "valid_db d \<Longrightarrow> distinct (map pending_validator_key rows) \<Longrightarrow> list_all (pending_validator_fk d) rows \<Longrightarrow>
   valid_db (d\<lparr>pending_validator_state_event := rows\<rparr>)"
  by (simp add: valid_db_def keys_ok_def refs_ok_def fk_same [of "d\<lparr>pending_validator_state_event := rows\<rparr>" d])

lemma valid_available_event:
  "valid_db d \<Longrightarrow> distinct (map available_event_key rows) \<Longrightarrow> list_all (available_event_fk d) rows \<Longrightarrow>
   valid_db (d\<lparr>available_event := rows\<rparr>)"
  by (simp add: valid_db_def keys_ok_def refs_ok_def fk_same [of "d\<lparr>available_event := rows\<rparr>" d])

lemma valid_bonus_score_history:
  "valid_db d \<Longrightarrow> distinct (map bonus_score_history_key rows) \<Longrightarrow> list_all (bonus_score_history_fk d) rows \<Longrightarrow>
   valid_db (d\<lparr>bonus_score_history := rows\<rparr>)"
  by (simp add: valid_db_def keys_ok_def refs_ok_def fk_same [of "d\<lparr>bonus_score_history := rows\<rparr>" d])

lemma valid_stake_delegators:
  "valid_db d \<Longrightarrow> distinct (map stake_delegators_key rows) \<Longrightarrow> list_all (stake_delegators_fk d) rows \<Longrightarrow>
   valid_db (d\<lparr>stake_delegators := rows\<rparr>)"
  by (simp add: valid_db_def keys_ok_def refs_ok_def fk_same [of "d\<lparr>stake_delegators := rows\<rparr>" d])

lemma valid_bonus_score_change_reasons:
  "valid_db d \<Longrightarrow> distinct (map reason_key rows) \<Longrightarrow> list_all (reason_fk d) rows \<Longrightarrow>
   valid_db (d\<lparr>bonus_score_change_reasons := rows\<rparr>)"
  by (simp add: valid_db_def keys_ok_def refs_ok_def fk_same [of "d\<lparr>bonus_score_change_reasons := rows\<rparr>" d])

lemma valid_ordered_withdrawal:
  "valid_db d \<Longrightarrow> distinct (map ow_id rows) \<Longrightarrow> list_all (\<lambda>r. ow_id r < i) rows \<Longrightarrow>
   list_all (ordered_withdrawal_fk d) rows \<Longrightarrow>
   valid_db (d\<lparr>ordered_withdrawal := rows, ordered_withdrawal_id_seq := i\<rparr>)"
  by (simp add: valid_db_def keys_ok_def refs_ok_def
      fk_same [of "d\<lparr>ordered_withdrawal := rows, ordered_withdrawal_id_seq := i\<rparr>" d])

text \<open>What a statement leaves behind.\<close>

lemma insert_row_ok:
  assumes "insert_row name key fk r rows = Inr rows'" "distinct (map key rows)" "list_all fk rows"
  shows "distinct (map key rows')" "list_all fk rows'"
  using assms by (auto simp: table_simps)

lemma update_rows_ok:
  assumes "update_rows name key fk P f rows = Inr rows'" "list_all fk rows"
  shows "distinct (map key rows')" "list_all fk rows'"
  using assms by (auto simp: table_simps list_all_iff)

lemma valid_tables:
  assumes "valid_db d"
  shows "distinct (map block_number (headers d))" "distinct (delegate_staker d)"
    "distinct (map pool_address (node d))" "list_all (node_fk d) (node d)"
    "distinct (map epoch_id (posdao_epoch d))" "distinct (map block_start (posdao_epoch d))"
    "distinct (present (map block_end (posdao_epoch d)))" "list_all (epoch_fk d) (posdao_epoch d)"
    "distinct (map ow_id (ordered_withdrawal d))" "list_all (ordered_withdrawal_fk d) (ordered_withdrawal d)"
    "list_all (\<lambda>r. ow_id r < ordered_withdrawal_id_seq d) (ordered_withdrawal d)"
  using assms by (simp_all add: valid_db_def keys_ok_def refs_ok_def)

lemma valid_child_tables:
  assumes "valid_db d"
  shows "distinct (map epoch_node_key (posdao_epoch_node d)) \<and> list_all (epoch_node_fk d) (posdao_epoch_node d)"
    "distinct (map delegate_reward_key (delegate_reward d)) \<and> list_all (delegate_reward_fk d) (delegate_reward d)"
    "distinct (map stake_history_key (stake_history d)) \<and> list_all (stake_history_fk d) (stake_history d)"
    "distinct (map pending_validator_key (pending_validator_state_event d)) \<and> list_all (pending_validator_fk d) (pending_validator_state_event d)"
    "distinct (map available_event_key (available_event d)) \<and> list_all (available_event_fk d) (available_event d)"
    "distinct (map bonus_score_history_key (bonus_score_history d)) \<and> list_all (bonus_score_history_fk d) (bonus_score_history d)"
    "distinct (map stake_delegators_key (stake_delegators d)) \<and> list_all (stake_delegators_fk d) (stake_delegators d)"
    "distinct (map reason_key (bonus_score_change_reasons d)) \<and> list_all (reason_fk d) (bonus_score_change_reasons d)"
  using assms by (simp_all add: valid_db_def keys_ok_def refs_ok_def)

section \<open>Statements\<close>

definition keeps_valid :: "(db \<Rightarrow> db result) \<Rightarrow> bool" where
  "keeps_valid s \<longleftrightarrow> (\<forall>d d'. valid_db d \<longrightarrow> s d = Inr d' \<longrightarrow> valid_db d')"

lemma keeps_insert:
  assumes "\<And>d rows. valid_db d \<Longrightarrow> distinct (map key rows) \<Longrightarrow> list_all (fk d) rows \<Longrightarrow> valid_db (put d rows)"
    and "\<And>d. valid_db d \<Longrightarrow> distinct (map key (tab d)) \<and> list_all (fk d) (tab d)"
  shows "keeps_valid (\<lambda>d. await (insert_row name key (fk d) r (tab d)) (\<lambda>rows. Inr (put d rows)))"
  using assms by (auto simp: keeps_valid_def result_simps dest: insert_row_ok)

lemma keeps_update:
  assumes "\<And>d rows. valid_db d \<Longrightarrow> distinct (map key rows) \<Longrightarrow> list_all (fk d) rows \<Longrightarrow> valid_db (put d rows)"
    and "\<And>d. valid_db d \<Longrightarrow> distinct (map key (tab d)) \<and> list_all (fk d) (tab d)"
  shows "keeps_valid (\<lambda>d. await (update_rows name key (fk d) P f (tab d)) (\<lambda>rows. Inr (put d rows)))"
  using assms by (auto simp: keeps_valid_def result_simps dest: update_rows_ok)

lemma keeps_posdao_epoch_node:
  "keeps_valid (\<lambda>d. await (insert_row name epoch_node_key (epoch_node_fk d) r (posdao_epoch_node d))
     (\<lambda>rows. Inr (d\<lparr>posdao_epoch_node := rows\<rparr>)))"
  "keeps_valid (\<lambda>d. await (update_rows name epoch_node_key (epoch_node_fk d) P f (posdao_epoch_node d))
     (\<lambda>rows. Inr (d\<lparr>posdao_epoch_node := rows\<rparr>)))"
  by (rule keeps_insert keeps_update; simp add: valid_posdao_epoch_node valid_child_tables)+

lemma keeps_delegate_reward:
  "keeps_valid (\<lambda>d. await (insert_row name delegate_reward_key (delegate_reward_fk d) r (delegate_reward d))
     (\<lambda>rows. Inr (d\<lparr>delegate_reward := rows\<rparr>)))"
  "keeps_valid (\<lambda>d. await (update_rows name delegate_reward_key (delegate_reward_fk d) P f (delegate_reward d))
     (\<lambda>rows. Inr (d\<lparr>delegate_reward := rows\<rparr>)))"
  by (rule keeps_insert keeps_update; simp add: valid_delegate_reward valid_child_tables)+

lemma keeps_stake_history:
  "keeps_valid (\<lambda>d. await (insert_row name stake_history_key (stake_history_fk d) r (stake_history d))
     (\<lambda>rows. Inr (d\<lparr>stake_history := rows\<rparr>)))"
  "keeps_valid (\<lambda>d. await (update_rows name stake_history_key (stake_history_fk d) P f (stake_history d))
     (\<lambda>rows. Inr (d\<lparr>stake_history := rows\<rparr>)))"
  by (rule keeps_insert keeps_update; simp add: valid_stake_history valid_child_tables)+

lemma keeps_pending_validator_state_event:
  "keeps_valid (\<lambda>d. await (insert_row name pending_validator_key (pending_validator_fk d) r (pending_validator_state_event d))
     (\<lambda>rows. Inr (d\<lparr>pending_validator_state_event := rows\<rparr>)))"
  "keeps_valid (\<lambda>d. await (update_rows name pending_validator_key (pending_validator_fk d) P f (pending_validator_state_event d))
     (\<lambda>rows. Inr (d\<lparr>pending_validator_state_event := rows\<rparr>)))"
  by (rule keeps_insert keeps_update; simp add: valid_pending_validator_state_event valid_child_tables)+

lemma keeps_available_event:
  "keeps_valid (\<lambda>d. await (insert_row name available_event_key (available_event_fk d) r (available_event d))
     (\<lambda>rows. Inr (d\<lparr>available_event := rows\<rparr>)))"
  "keeps_valid (\<lambda>d. await (update_rows name available_event_key (available_event_fk d) P f (available_event d))
     (\<lambda>rows. Inr (d\<lparr>available_event := rows\<rparr>)))"
  by (rule keeps_insert keeps_update; simp add: valid_available_event valid_child_tables)+

lemma keeps_bonus_score_history:
  "keeps_valid (\<lambda>d. await (insert_row name bonus_score_history_key (bonus_score_history_fk d) r (bonus_score_history d))
     (\<lambda>rows. Inr (d\<lparr>bonus_score_history := rows\<rparr>)))"
  "keeps_valid (\<lambda>d. await (update_rows name bonus_score_history_key (bonus_score_history_fk d) P f (bonus_score_history d))
     (\<lambda>rows. Inr (d\<lparr>bonus_score_history := rows\<rparr>)))"
  by (rule keeps_insert keeps_update; simp add: valid_bonus_score_history valid_child_tables)+

lemma keeps_stake_delegators:
  "keeps_valid (\<lambda>d. await (insert_row name stake_delegators_key (stake_delegators_fk d) r (stake_delegators d))
     (\<lambda>rows. Inr (d\<lparr>stake_delegators := rows\<rparr>)))"
  "keeps_valid (\<lambda>d. await (update_rows name stake_delegators_key (stake_delegators_fk d) P f (stake_delegators d))
     (\<lambda>rows. Inr (d\<lparr>stake_delegators := rows\<rparr>)))"
  by (rule keeps_insert keeps_update; simp add: valid_stake_delegators valid_child_tables)+

lemma keeps_bonus_score_change_reasons:
  "keeps_valid (\<lambda>d. await (insert_row name reason_key (reason_fk d) r (bonus_score_change_reasons d))
     (\<lambda>rows. Inr (d\<lparr>bonus_score_change_reasons := rows\<rparr>)))"
  "keeps_valid (\<lambda>d. await (update_rows name reason_key (reason_fk d) P f (bonus_score_change_reasons d))
     (\<lambda>rows. Inr (d\<lparr>bonus_score_change_reasons := rows\<rparr>)))"
  by (rule keeps_insert keeps_update; simp add: valid_bonus_score_change_reasons valid_child_tables)+

text \<open>A manager is sound when the committed tables and the transaction's working copy are valid.\<close>

definition sound :: "manager \<Rightarrow> bool" where
  "sound m \<longleftrightarrow> valid_db (committed m) \<and> nullable valid_db (currentTransaction m)"

lemma sound_context: "sound m \<Longrightarrow> valid_db (getDbContext m)"
  by (auto simp: sound_def nullable_def getDbContext_def split: option.splits)

lemma sound_set: "sound m \<Longrightarrow> valid_db d \<Longrightarrow> sound (set_context d m)"
  by (auto simp: sound_def nullable_def set_context_def split: option.splits)

lemma sound_aborted [simp]: "sound (m\<lparr>tx_aborted := b\<rparr>) = sound m"
  by (simp add: sound_def)

lemma sound_execute:
  assumes "keeps_valid s"
  shows "keeps sound (execute s)"
  unfolding keeps_def
proof (intro allI impI)
  fix m assume m: "sound m"
  show "sound (snd (execute s m))"
  proof (cases "s (getDbContext m)")
    case (Inr d)
    then have "valid_db d" using assms sound_context [OF m] unfolding keeps_valid_def by blast
    then show ?thesis using Inr m sound_set [OF m] by (simp add: execute_def query_def)
  qed (use m in \<open>simp add: execute_def query_def\<close>)
qed

lemma keeps_read:
  assumes "\<And>m. I m \<Longrightarrow> I (m\<lparr>tx_aborted := True\<rparr>)"
  shows "keeps I (read s)"
  using assms by (auto simp: keeps_def read_def query_def result_simps split: sum.splits)

lemma keeps_case_option [keeps_rules]:
  "keeps I A \<Longrightarrow> (\<And>x. keeps I (f x)) \<Longrightarrow> keeps I (case_option A f v)"
  by (cases v) simp_all

lemma keeps_case_list [keeps_rules]:
  "keeps I A \<Longrightarrow> (\<And>x xs. keeps I (f x xs)) \<Longrightarrow> keeps I (case_list A f v)"
  by (cases v) simp_all

lemma keeps_case_prod [keeps_rules]: "(\<And>x y. keeps I (f x y)) \<Longrightarrow> keeps I (case_prod f v)"
  by (cases v) simp_all

lemma keeps_pool_read [keeps_rules]: "keeps I (pool_read s)"
  by (simp add: keeps_def pool_read_def)

lemma keeps_retry_from:
  assumes A: "keeps I A" and I: "\<And>m c rs n. I m \<Longrightarrow> I (m\<lparr>clock := c, reconnects := rs, connectionRetries := n\<rparr>)"
  shows "keeps I (executeWithRetry_from n A)"
proof (induction "maxAttempts - n" arbitrary: n)
  case 0
  then show ?case by (auto simp: keeps_def executeWithRetry_from.simps [of n] throw_def)
next
  case (Suc left)
  then have more: "keeps I (executeWithRetry_from (n + 1) A)" by simp
  show ?case unfolding keeps_def
  proof (intro allI impI)
    fix m assume m: "I m"
    obtain r m1 where run: "A m = (r, m1)" by fastforce
    obtain r2 m2 where h: "try_catch (handleConnectionError (projl r)) (\<lambda>_. ret False) m1 = (r2, m2)"
      by fastforce
    have 1: "I m1" by (rule keepsD [OF A m run])
    have "I (m1\<lparr>clock := clock m2, reconnects := reconnects m2, connectionRetries := connectionRetries m2\<rparr>)"
      using I [OF 1] by blast
    then have 2: "I m2" using handle_frame [OF h] by simp
    have 3: "I (snd (executeWithRetry_from (n + 1) A m2))" using more 2 by (simp add: keeps_def)
    show "I (snd (executeWithRetry_from n A m))"
      using m run 1 h 2 3
      by (auto simp: executeWithRetry_from.simps [of n] throw_def split: sum.splits bool.splits)
  qed
qed

lemma sound_retry: "keeps sound A \<Longrightarrow> keeps sound (executeWithRetry A)"
  unfolding executeWithRetry_def by (rule keeps_retry_from) (simp_all add: sound_def)

end
