(* ===== verification/Invariants.thy ===== *)
theory Invariants imports Integrity begin

text \<open>
  Properties of the manager that the body of the block transaction keeps, whatever fails on the
  way. The locale \<open>block_methods\<close> lists the methods of the DbManager that the steps of the body
  use, except for the processing of the events: a property that they keep is kept by each step.
  A \<open>statement_invariant\<close> is kept by every single statement, so by every method, by the visits of
  all events and by the whole body. It is interpreted for the integrity of the tables, for "the
  transaction is open and the committed tables are these", and for "the transaction is aborted";
  the theory BlockLedger interprets \<open>block_methods\<close> for the tables that only events change.
\<close>

locale block_methods =
  fixes I :: "manager \<Rightarrow> bool"
  assumes header: "keeps I (insertHeader r)"
    and node: "keeps I (insertNode p ma pk b s)"
    and initial_score: "keeps I (writeInitialBonusScore p b s)"
    and score: "keeps I (updateBonusScore p s b)"
    and reason: "keeps I (insertBonusScoreChangeReason p b e ch o' n' re)"
    and epoch_of_block: "keeps I (getEpochByBlock b)"
    and start_epoch: "keeps I (insertStakingEpoch e b)"
    and end_epoch: "keeps I (endStakingEpoch e b)"
    and validator_reward: "keeps I (updateValidatorReward p e v a t f o'' g q)"
    and epoch_node: "keeps I (insertEpochNode e p)"
    and stakers: "keeps I (insertDelegateStaker as)"
    and rewards: "keeps I (insertDelegateRewardsBulk rs)"
    and added: "keeps I (processAddedValidators vs b st k)"
    and removed: "keeps I (processRemovedValidators vs b st k)"

locale statement_invariant =
  fixes I :: "manager \<Rightarrow> bool"
  assumes execute_keeps: "keeps_valid s \<Longrightarrow> keeps I (execute s)"
    and aborting: "I m \<Longrightarrow> I (m\<lparr>tx_aborted := True\<rparr>)"
    and connection: "I m \<Longrightarrow> I (m\<lparr>clock := c, reconnects := rs, connectionRetries := k\<rparr>)"
    and stake_log: "I m \<Longrightarrow> I (m\<lparr>stake_transactions := ts, stake_transactions_id_seq := i\<rparr>)"
    and name_table: "I m \<Longrightarrow> I (m\<lparr>dmd_names := ns\<rparr>)"
    and name_log: "I m \<Longrightarrow> I (m\<lparr>dmd_name_events := es\<rparr>)"

section \<open>The statements of the methods\<close>

named_theorems valid_statements \<open>statements that keep the integrity\<close>

lemmas [valid_statements] =
  keeps_posdao_epoch_node keeps_delegate_reward keeps_stake_history
  keeps_pending_validator_state_event keeps_available_event keeps_bonus_score_history
  keeps_stake_delegators

lemma valid_insertHeader [valid_statements]:
  "keeps_valid (\<lambda>d. await (insert_or_ignore name block_number (\<lambda>_. True) r (headers d))
     (\<lambda>rows. Inr (d\<lparr>headers := rows\<rparr>)))"
  by (auto simp: keeps_valid_def result_simps table_simps valid_tables split: if_splits
      intro!: valid_headers)

lemma valid_insertStakingEpoch [valid_statements]:
  "keeps_valid (\<lambda>d. if b \<in> set (map block_start (posdao_epoch d)) then Inl err
     else await (insert_row name epoch_id (epoch_fk d)
         \<lparr>epoch_id = e, block_start = b, block_end = None\<rparr> (posdao_epoch d))
       (\<lambda>rows. Inr (d\<lparr>posdao_epoch := rows\<rparr>)))"
  by (auto simp: keeps_valid_def result_simps table_simps valid_tables present_def split: if_splits
      intro!: valid_posdao_epoch dest: valid_tables(7))

lemma valid_endStakingEpoch [valid_statements]:
  "keeps_valid (\<lambda>d. if \<not> distinct (present (map block_end (set_where (\<lambda>r. epoch_id r = e)
          (\<lambda>r. r\<lparr>block_end := Some b\<rparr>) (posdao_epoch d)))) then Inl err
     else await (update_rows name epoch_id (epoch_fk d) (\<lambda>r. epoch_id r = e)
         (\<lambda>r. r\<lparr>block_end := Some b\<rparr>) (posdao_epoch d))
       (\<lambda>rows. Inr (d\<lparr>posdao_epoch := rows\<rparr>)))"
  unfolding keeps_valid_def
proof (intro allI impI)
  fix d d' :: db
  let ?rows = "set_where (\<lambda>r. epoch_id r = e) (\<lambda>r. r\<lparr>block_end := Some b\<rparr>) (posdao_epoch d)"
  assume d: "valid_db d" and run: "(if \<not> distinct (present (map block_end ?rows)) then Inl err
     else await (update_rows name epoch_id (epoch_fk d) (\<lambda>r. epoch_id r = e)
         (\<lambda>r. r\<lparr>block_end := Some b\<rparr>) (posdao_epoch d))
       (\<lambda>rows. Inr (d\<lparr>posdao_epoch := rows\<rparr>))) = Inr d'"
  have ends: "distinct (present (map block_end ?rows))" using run by (metis Inl_Inr_False)
  have up: "update_rows name epoch_id (epoch_fk d) (\<lambda>r. epoch_id r = e)
      (\<lambda>r. r\<lparr>block_end := Some b\<rparr>) (posdao_epoch d) = Inr ?rows" "d' = d\<lparr>posdao_epoch := ?rows\<rparr>"
    using run ends by (auto simp: result_simps table_simps simp del: map_map)
  have keys: "map epoch_id ?rows = map epoch_id (posdao_epoch d)"
    "map block_start ?rows = map block_start (posdao_epoch d)"
    by (rule map_key_set_where; simp)+
  have fks: "list_all (epoch_fk d) ?rows" by (rule update_rows_ok [OF up(1) valid_tables(8) [OF d]])
  show "valid_db d'"
    unfolding up(2) using keys valid_tables(5,6) [OF d]
    by (intro valid_posdao_epoch [OF d _ _ ends fks]) (simp_all only: order_refl)
qed

lemma valid_insertNode [valid_statements]:
  "keeps_valid (\<lambda>d. await (insert_row name pool_address (node_fk d) r (node d))
     (\<lambda>rows. Inr (d\<lparr>node := rows\<rparr>)))"
  by (auto simp: keeps_valid_def result_simps table_simps valid_tables intro!: valid_node)

lemma valid_update_node [valid_statements]:
  "keeps_valid (\<lambda>d. await (update_rows name pool_address (node_fk d) P
     (\<lambda>r. r\<lparr>node_bonus_score := s\<rparr>) (node d)) (\<lambda>rows. Inr (d\<lparr>node := rows\<rparr>)))"
  unfolding keeps_valid_def
proof (intro allI impI)
  fix d d' :: db
  let ?rows = "set_where P (\<lambda>r. r\<lparr>node_bonus_score := s\<rparr>) (node d)"
  assume d: "valid_db d" and run: "await (update_rows name pool_address (node_fk d) P
     (\<lambda>r. r\<lparr>node_bonus_score := s\<rparr>) (node d)) (\<lambda>rows. Inr (d\<lparr>node := rows\<rparr>)) = Inr d'"
  have up: "update_rows name pool_address (node_fk d) P (\<lambda>r. r\<lparr>node_bonus_score := s\<rparr>) (node d) = Inr ?rows"
    "d' = d\<lparr>node := ?rows\<rparr>"
    using run by (auto simp: result_simps table_simps simp del: map_map)
  have keys: "map pool_address ?rows = map pool_address (node d)" by (rule map_key_set_where) simp
  show "valid_db d'"
    unfolding up(2) using keys valid_tables(3) [OF d] update_rows_ok(2) [OF up(1) valid_tables(4) [OF d]]
    by (intro valid_node [OF d]) (simp_all only: order_refl)
qed

lemma valid_insert_staker [valid_statements]:
  "keeps_valid (\<lambda>d. await (insert_row name id (\<lambda>_. True) a (delegate_staker d))
     (\<lambda>rows. Inr (d\<lparr>delegate_staker := rows\<rparr>)))"
  by (auto simp: keeps_valid_def result_simps table_simps valid_tables intro!: valid_delegate_staker)

lemma valid_insertDelegateStaker [valid_statements]:
  "keeps_valid (\<lambda>d. await (forM as (\<lambda>a rows. insert_or_ignore name id (\<lambda>_. True) a rows)
     (delegate_staker d)) (\<lambda>rows. Inr (d\<lparr>delegate_staker := rows\<rparr>)))"
  unfolding keeps_valid_def
proof (intro allI impI)
  fix d d' :: db
  assume d: "valid_db d" and run: "await (forM as (\<lambda>a rows. insert_or_ignore name id (\<lambda>_. True) a rows)
     (delegate_staker d)) (\<lambda>rows. Inr (d\<lparr>delegate_staker := rows\<rparr>)) = Inr d'"
  then obtain rows where rows: "forM as (\<lambda>a rows. insert_or_ignore name id (\<lambda>_. True) a rows)
      (delegate_staker d) = Inr rows" "d' = d\<lparr>delegate_staker := rows\<rparr>"
    by (auto simp: result_simps)
  have "distinct rows \<and> set (delegate_staker d) \<subseteq> set rows"
    by (rule forM_invariant [OF rows(1), where I = "\<lambda>rows. distinct rows \<and> set (delegate_staker d) \<subseteq> set rows"])
      (auto simp: valid_tables [OF d] table_simps split: if_splits)
  then show "valid_db d'" unfolding rows(2) by (intro valid_delegate_staker [OF d]) simp_all
qed

lemma valid_insertDelegateRewardsBulk [valid_statements]:
  "keeps_valid (\<lambda>d. await (forM rewards (\<lambda>x rows. insert_row name delegate_reward_key
     (delegate_reward_fk d) (row x) rows) (delegate_reward d))
     (\<lambda>rows. Inr (d\<lparr>delegate_reward := rows\<rparr>)))"
  unfolding keeps_valid_def
proof (intro allI impI)
  fix d d' :: db
  assume d: "valid_db d" and run: "await (forM rewards (\<lambda>x rows. insert_row name delegate_reward_key
     (delegate_reward_fk d) (row x) rows) (delegate_reward d))
     (\<lambda>rows. Inr (d\<lparr>delegate_reward := rows\<rparr>)) = Inr d'"
  then obtain rows where rows: "forM rewards (\<lambda>x rows. insert_row name delegate_reward_key
      (delegate_reward_fk d) (row x) rows) (delegate_reward d) = Inr rows"
    "d' = d\<lparr>delegate_reward := rows\<rparr>"
    by (auto simp: result_simps)
  have "distinct (map delegate_reward_key rows) \<and> list_all (delegate_reward_fk d) rows"
    by (rule forM_invariant [OF rows(1), where I = "\<lambda>rows. distinct (map delegate_reward_key rows) \<and>
        list_all (delegate_reward_fk d) rows"])
      (use valid_child_tables(2) [OF d] in \<open>auto dest: insert_row_ok\<close>)
  then show "valid_db d'" unfolding rows(2) by (intro valid_delegate_reward [OF d]) simp_all
qed

lemma ids_le_seq: "valid_db d \<Longrightarrow> list_all (\<lambda>r. ow_id r \<le> ordered_withdrawal_id_seq d) (ordered_withdrawal d)"
  using valid_tables(11) [of d] by (force simp: list_all_iff)

lemma valid_insertOrderWithdrawal [valid_statements]:
  "keeps_valid (\<lambda>d. await (insert_row name ow_id (ordered_withdrawal_fk d)
       \<lparr>ow_id = ordered_withdrawal_id_seq d, ow_amount = a, ow_block_number = b,
        ow_staking_epoch = e, from_pool_stakingAddress = p, ow_staker = s,
        claimed_on_block = None\<rparr> (ordered_withdrawal d))
     (\<lambda>rows. Inr (d\<lparr>ordered_withdrawal := rows,
        ordered_withdrawal_id_seq := ordered_withdrawal_id_seq d + 1\<rparr>)))"
  by (auto simp: keeps_valid_def result_simps table_simps valid_tables
      intro!: valid_ordered_withdrawal ids_le_seq)

lemma valid_updateOrderWithdrawal:
  assumes "\<And>r. ow_id (f r) = ow_id r"
  shows "keeps_valid (\<lambda>d. await (update_rows name ow_id (ordered_withdrawal_fk d) P f (ordered_withdrawal d))
     (\<lambda>rows. Inr (d\<lparr>ordered_withdrawal := rows\<rparr>)))"
  unfolding keeps_valid_def
proof (intro allI impI)
  fix d d' :: db
  let ?rows = "set_where P f (ordered_withdrawal d)"
  assume d: "valid_db d" and run: "await (update_rows name ow_id (ordered_withdrawal_fk d) P f
     (ordered_withdrawal d)) (\<lambda>rows. Inr (d\<lparr>ordered_withdrawal := rows\<rparr>)) = Inr d'"
  have up: "update_rows name ow_id (ordered_withdrawal_fk d) P f (ordered_withdrawal d) = Inr ?rows"
    "d' = d\<lparr>ordered_withdrawal := ?rows, ordered_withdrawal_id_seq := ordered_withdrawal_id_seq d\<rparr>"
    using run by (auto simp: result_simps table_simps simp del: map_map)
  have "list_all (\<lambda>r. ow_id r < ordered_withdrawal_id_seq d) ?rows"
    using valid_tables(11) [OF d] assms by (auto simp: list_all_iff)
  then show "valid_db d'"
    unfolding up(2) using update_rows_ok [OF up(1) valid_tables(10) [OF d]]
    by (intro valid_ordered_withdrawal [OF d])
qed

lemma valid_upsert_reason [valid_statements]: "keeps_valid (upsert_reason r)"
  unfolding keeps_valid_def
proof (intro allI impI)
  fix d d' :: db
  let ?rows = "set_where (\<lambda>q. reason_key q = reason_key r) (\<lambda>_. r) (bonus_score_change_reasons d)"
  assume d: "valid_db d" and run: "upsert_reason r d = Inr d'"
  note ok = valid_child_tables(8) [OF d]
  show "valid_db d'"
  proof (cases "reason_key r \<in> set (map reason_key (bonus_score_change_reasons d))")
    case True
    then obtain q where q: "q \<in> set (bonus_score_change_reasons d)" "reason_key q = reason_key r" by auto
    have "reason_fk d q" using ok q(1) by (simp add: list_all_iff)
    then have "reason_fk d r" using q(2) by (simp add: reason_fk_def reason_key_def)
    then have "list_all (reason_fk d) ?rows" using ok by (auto simp: list_all_iff)
    moreover have "map reason_key ?rows = map reason_key (bonus_score_change_reasons d)"
      by (rule map_key_set_where) simp
    moreover have "d' = d\<lparr>bonus_score_change_reasons := ?rows\<rparr>"
      using run True by (simp add: upsert_reason_def)
    ultimately show ?thesis using ok by (simp only: valid_bonus_score_change_reasons [OF d])
  next
    case False
    then show ?thesis using run ok
      by (auto simp: upsert_reason_def result_simps simp del: set_map
          intro!: valid_bonus_score_change_reasons [OF d] dest: insert_row_ok)
  qed
qed

section \<open>The methods and the visits\<close>

context statement_invariant
begin

lemma read_keeps: "keeps I (read s)"
  by (rule keeps_read) (rule aborting)

lemma retry_keeps: "keeps I A \<Longrightarrow> keeps I (executeWithRetry A)"
  unfolding executeWithRetry_def by (rule keeps_retry_from) (auto intro: connection)

lemmas method_keeps = keeps_rules execute_keeps read_keeps retry_keeps valid_statements

lemma score_methods:
  "keeps I (writeInitialBonusScore p b s)" "keeps I (updateBonusScore p s b)"
  "keeps I (insertBonusScoreChangeReason p b e c o' n' r)" "keeps I (getEpochByBlock b)"
  unfolding writeInitialBonusScore_def updateBonusScore_def insert_bonus_score_history_def
    update_node_bonus_score_def insertBonusScoreChangeReason_def getEpochByBlock_def
  by (intro method_keeps)+

lemma epoch_methods:
  "keeps I (insertHeader r)" "keeps I (insertStakingEpoch e b)" "keeps I (endStakingEpoch e b)"
  "keeps I (updateValidatorReward p e v a t f o' g s)" "keeps I (insertEpochNode e p)"
  "keeps I (insertNode p ma pk b sc)"
  unfolding insertHeader_def insertStakingEpoch_def endStakingEpoch_def updateValidatorReward_def
    insertEpochNode_def insertNode_def
  by (intro method_keeps)+

lemma delegator_methods:
  "keeps I (insertDelegateStaker as)" "keeps I (insertDelegateRewardsBulk rs)"
  unfolding insertDelegateStaker_def insertDelegateRewardsBulk_def by (intro method_keeps)+

lemma validator_methods:
  "keeps I (processAddedValidators vs b s k)" "keeps I (processRemovedValidators vs b s k)"
  unfolding processAddedValidators_def processRemovedValidators_def findValidator_def
    insertValidator_def updateOrIgnoreValidator_def
  by (intro method_keeps)+

lemma stake_log_keeps: "keeps I (insertStakeTransaction b t a p s q c am e d)"
  by (simp add: keeps_def insertStakeTransaction_def stake_log)

lemma stake_methods:
  "keeps I (insertStakeHistoryRecord r)" "keeps I (updateStakeHistory r b)"
  "keeps I (getLastStakeHistoryRecord p)" "keeps I (getStakeDelegator p a)"
  "keeps I (insertStakeDelegator p a v)" "keeps I (updateStakeDelegator p a v)"
  "keeps I (ensureDelegateStaker a)" "keeps I (insertOrderWithdrawalEvent b pb sb e v)"
  "keeps I (getOrderWithdrawalEvent c)" "keeps I (insertAvailabilityEvent r')"
  unfolding insertStakeHistoryRecord_def updateStakeHistory_def getLastStakeHistoryRecord_def
    getStakeDelegator_def insertStakeDelegator_def updateStakeDelegator_def ensureDelegateStaker_def
    insertOrderWithdrawalEvent_def getOrderWithdrawalEvent_def insertAvailabilityEvent_def
  by (intro method_keeps)+

lemma order_update_keeps:
  "(\<And>r. ow_id (f r) = ow_id r) \<Longrightarrow> keeps I (updateOrderWithdrawalEvent P f)"
  unfolding updateOrderWithdrawalEvent_def by (intro method_keeps valid_updateOrderWithdrawal)

lemma name_keeps: "keeps I (upsertDmdName r)" "keeps I (insertDmdNameEvent e)"
  by (simp_all add: keeps_def upsertDmdName_def insertDmdNameEvent_def name_table name_log)

lemma delegated_keeps: "keeps I (saveDelegatedStake p s v)"
  unfolding saveDelegatedStake_def
  by (intro keeps_rules stake_methods)

lemma replace_keeps: "keeps I (replaceStakeRecord r b nd v)"
  unfolding replaceStakeRecord_def by (intro keeps_rules stake_methods)

lemma accept_keeps: "keeps I (accept e)"
  by (cases e) (auto simp: Let_def visitStakeChangedEvent_def visitMovedStakeEvent_def
      visitOrderedWithdrawalEvent_def visitClaimedOrderedWithdrawalEvent_def
      visitGatherAbandonedStakesEvent_def visitAvailabilityEvents_def visitNameRegisteredEvent_def
      visitNameActivatedEvent_def visitNameDeactivatedEvent_def visitNameRenewedEvent_def
      visitNameBlockedSetEvent_def visitDmdNameTransferEvent_def
      split: option.splits prod.splits intro!: keeps_rules stake_log_keeps stake_methods
      order_update_keeps name_keeps delegated_keeps replace_keeps delegator_methods)

lemma processEvents_keeps: "keeps I (processEvents es)"
  unfolding processEvents_def by (intro keeps_rules accept_keeps)

end

section \<open>The body of a block\<close>

text \<open>The place in the chain where the importer is: nothing inside a block's body moves it.\<close>

definition cursor :: "importer \<Rightarrow> int \<times> int \<times> int \<times> int" where
  "cursor w = (currentBlockNumber w, blockBeforeTimestamp w, lastInsertedPosdaoEpoch w, latest_known_block w)"

definition at_cursor :: "(manager \<Rightarrow> bool) \<Rightarrow> int \<times> int \<times> int \<times> int \<Rightarrow> importer \<Rightarrow> bool" where
  "at_cursor I c w \<longleftrightarrow> I (db_manager w) \<and> cursor w = c"

lemma keeps_on_db: "keeps I A \<Longrightarrow> keeps (at_cursor I c) (on_db A)"
  by (fastforce simp: keeps_def on_db_def at_cursor_def cursor_def split: prod.splits)

lemma keeps_remote: "keeps J (remote r)"
  by (simp add: keeps_def remote_def)

lemma keeps_inspect: "keeps J (inspect f)"
  by (simp add: keeps_def inspect_def)

lemma keeps_modify:
  "(\<And>w. db_manager (f w) = db_manager w) \<Longrightarrow> (\<And>w. cursor (f w) = cursor w) \<Longrightarrow>
   keeps (at_cursor I c) (modify f)"
  by (simp add: keeps_def modify_def at_cursor_def)

context block_methods
begin

lemmas task_keeps = keeps_rules keeps_remote keeps_inspect keeps_on_db keeps_modify
  header node initial_score score reason epoch_of_block start_epoch end_epoch validator_reward
  epoch_node stakers rewards added removed

lemma score_tasks:
  "keeps (at_cursor I c) (registerNewNode n p mi b)"
  "keeps (at_cursor I c) (processBonusScore n b ps)"
proof -
  show "keeps (at_cursor I c) (registerNewNode n p mi b)"
    unfolding registerNewNode_def cacheScore_def
    by (intro task_keeps) (simp_all add: cursor_def)
  have check: "keeps (at_cursor I c) (checkStandByFactorChange n b)"
    by (auto simp: keeps_def checkStandByFactorChange_def at_cursor_def cursor_def split: sum.splits)
  show "keeps (at_cursor I c) (processBonusScore n b ps)"
    unfolding processBonusScore_def processBatch_def processPool_def cacheScore_def
      processReasonDetection_def processReason_def Let_def
    by (intro task_keeps check) (simp_all add: cursor_def)
qed

lemma updateValidators_keeps: "keeps (at_cursor I c) (updateValidators n b e)"
  unfolding updateValidators_def by (intro task_keeps) (simp_all add: cursor_def)

lemma node_tasks:
  "keeps (at_cursor I c) (importHeader n b ts)" "keeps (at_cursor I c) (insertNode_run n p b)"
  "keeps (at_cursor I c) (ensureNode n b p)" "keeps (at_cursor I c) (insertGenesisPools n h b)"
proof -
  show "keeps (at_cursor I c) (importHeader n b ts)"
    unfolding importHeader_def by (intro task_keeps)
  have node: "keeps (at_cursor I c) (insertNode_run n p b)" for p
    unfolding insertNode_run_def by (intro task_keeps score_tasks) (simp_all add: cursor_def)
  then show "keeps (at_cursor I c) (insertNode_run n p b)" .
  have ensure: "keeps (at_cursor I c) (ensureNode n b p)" for p
    unfolding ensureNode_def by (intro task_keeps node)
  then show "keeps (at_cursor I c) (ensureNode n b p)" .
  show "keeps (at_cursor I c) (insertGenesisPools n h b)"
    unfolding insertGenesisPools_def by (intro task_keeps ensure)
qed

lemma epoch_tasks: "keeps (at_cursor I c) (switchEpoch bdiv n e0 e h b)"
proof -
  have percent: "keeps (at_cursor I c) (getValidatorMinRewardPercent n e b)" for e b
    unfolding getValidatorMinRewardPercent_def by (intro task_keeps) (simp_all add: cursor_def)
  have reward: "keeps (at_cursor I c) (rewardPool bdiv n e b1 b2 pct p)" for e b1 b2 pct p
    unfolding rewardPool_def Let_def by (intro task_keeps)
  have "keeps (at_cursor I c) (endEpoch bdiv n e b)" for e b
    unfolding endEpoch_def by (intro task_keeps percent reward)
  moreover have "keeps (at_cursor I c) (insertEpochValidator n e b v)" for v
    unfolding insertEpochValidator_def by (intro task_keeps node_tasks)
  ultimately show ?thesis unfolding switchEpoch_def by (intro task_keeps)
qed

lemma fetchEvents_keeps: "keeps (at_cursor I c) (fetchEvents n b)"
  unfolding fetchEvents_def by (intro task_keeps) (simp_all add: cursor_def)

end

sublocale statement_invariant \<subseteq> block_methods
  by unfold_locales (rule epoch_methods score_methods delegator_methods validator_methods)+

context statement_invariant
begin

lemma importBlock_keeps: "keeps (at_cursor I c) (importBlock bdiv n b e ts)"
  unfolding importBlock_def bookBlock_def followBlock_def
  by (intro task_keeps keeps_on_db [OF processEvents_keeps] node_tasks fetchEvents_keeps epoch_tasks updateValidators_keeps score_tasks)

end

section \<open>The three invariants\<close>

interpretation integrity: statement_invariant sound
  by unfold_locales (auto simp: sound_def sound_execute)

interpretation open_transaction: statement_invariant "\<lambda>m. currentTransaction m \<noteq> None \<and> committed m = d" for d
proof unfold_locales
  fix s
  show "keeps (\<lambda>m. currentTransaction m \<noteq> None \<and> committed m = d) (execute s)"
    using transactional_execute [of s] unfolding transactional_def keeps_def by blast
qed simp_all

interpretation aborted: statement_invariant "\<lambda>m. \<not> usable m"
proof unfold_locales
  fix s
  show "keeps (\<lambda>m. \<not> usable m) (execute s)"
    using stays_aborted_execute [of s] unfolding stays_aborted_def keeps_def by blast
qed (simp_all add: usable_def)

end
