(* ===== verification/ImportLoop.thy ===== *)
theory ImportLoop imports Invariants begin

text \<open>
  The main loop of src/src/db/runFillDb.ts: what a turn does to the committed tables and to the
  place in the chain, when the block's body returns, fails or leaves an aborted transaction, and
  the integrity of the tables in every state the importer reaches.
\<close>

section \<open>The block transaction\<close>

lemma inTransaction_cases:
  assumes "inTransaction body w = (r, w')"
  obtains w1 where "body (w\<lparr>db_manager := begin_transaction (db_manager w)\<rparr>) = (r, w1)"
    "w' = w1\<lparr>db_manager := end_transaction (db_manager w) (db_manager w1) (\<not> isl r)\<rparr>"
  using assms by (auto simp: inTransaction_def split: prod.splits sum.splits)

lemma cursor_db [simp]: "cursor (w\<lparr>db_manager := m\<rparr>) = cursor w"
  by (simp add: cursor_def)

lemma blockTransaction_cases:
  assumes "blockTransaction bdiv n w = (r, w')"
  obtains w1 where
    "importBlock bdiv n (currentBlockNumber w) (lastInsertedPosdaoEpoch w) (blockBeforeTimestamp w)
       (w\<lparr>db_manager := begin_transaction (db_manager w)\<rparr>) = (r, w1)"
    "w' = w1\<lparr>db_manager := end_transaction (db_manager w) (db_manager w1) (\<not> isl r)\<rparr>"
    "currentTransaction (db_manager w1) \<noteq> None" "committed (db_manager w1) = committed (db_manager w)"
    "cursor w' = cursor w"
proof -
  from assms obtain w1 where run: "importBlock bdiv n (currentBlockNumber w) (lastInsertedPosdaoEpoch w)
       (blockBeforeTimestamp w) (w\<lparr>db_manager := begin_transaction (db_manager w)\<rparr>) = (r, w1)"
    and w': "w' = w1\<lparr>db_manager := end_transaction (db_manager w) (db_manager w1) (\<not> isl r)\<rparr>"
    unfolding blockTransaction_def by (rule inTransaction_cases)
  have "at_cursor (\<lambda>m. currentTransaction m \<noteq> None \<and> committed m = committed (db_manager w)) (cursor w) w1"
    by (rule keepsD [OF open_transaction.importBlock_keeps _ run])
      (simp add: at_cursor_def begin_transaction_def)
  then show thesis using that [OF run w'] w' by (simp add: at_cursor_def)
qed

lemma blockTransaction_sound:
  assumes "sound (db_manager w)" "currentTransaction (db_manager w) = None"
    and "blockTransaction bdiv n w = (r, w')"
  shows "sound (db_manager w')" "currentTransaction (db_manager w') = None"
proof -
  from assms(3) obtain w1 where run: "importBlock bdiv n (currentBlockNumber w) (lastInsertedPosdaoEpoch w)
       (blockBeforeTimestamp w) (w\<lparr>db_manager := begin_transaction (db_manager w)\<rparr>) = (r, w1)"
    and w': "w' = w1\<lparr>db_manager := end_transaction (db_manager w) (db_manager w1) (\<not> isl r)\<rparr>"
    and com: "committed (db_manager w1) = committed (db_manager w)"
    by (rule blockTransaction_cases)
  have "sound (begin_transaction (db_manager w))"
    using assms(1) by (simp add: sound_def nullable_def begin_transaction_def)
  then have "at_cursor sound (cursor w) (w\<lparr>db_manager := begin_transaction (db_manager w)\<rparr>)"
    by (simp add: at_cursor_def)
  from keepsD [OF integrity.importBlock_keeps this run] have "sound (db_manager w1)"
    by (simp add: at_cursor_def)
  then show "sound (db_manager w')" "currentTransaction (db_manager w') = None"
    using w' assms(2) sound_context [of "db_manager w1"] by (simp_all add: sound_def nullable_def)
qed

section \<open>Waiting and failing\<close>

lemma sleep_fields [simp]:
  "committed (snd (sleep ms m)) = committed m"
  "currentTransaction (snd (sleep ms m)) = currentTransaction m"
  "clock (snd (sleep ms m)) = clock m + ms"
  by (simp_all add: sleep_def)

lemma afterError_fields [simp]:
  "committed (db_manager (afterError e w)) = committed (db_manager w)"
  "currentTransaction (db_manager (afterError e w)) = currentTransaction (db_manager w)"
  "cursor (afterError e w) = cursor w" "currentBlockNumber (afterError e w) = currentBlockNumber w"
  by (simp_all add: afterError_def)

lemma fetchEvents_db: "fetchEvents n b w = (r, w') \<Longrightarrow> db_manager w' = db_manager w \<and>
    currentBlockNumber w' = currentBlockNumber w"
  by (auto simp: fetchEvents_def andThen_def remote_def modify_def ret_def split: sum.splits)

lemma awaitHead_db:
  "awaitHead n heads w = Done (r, w') \<Longrightarrow>
   committed (db_manager w') = committed (db_manager w) \<and>
   currentTransaction (db_manager w') = currentTransaction (db_manager w) \<and>
   currentBlockNumber w' = currentBlockNumber w"
proof (induction heads arbitrary: w)
  case (Cons answer heads)
  show ?case
  proof (cases "currentBlockNumber w = latest_known_block w")
    case True
    show ?thesis
    proof (cases answer)
      case (Inr h)
      let ?w1 = "w\<lparr>latest_known_block := h\<rparr>"
      obtain r2 w2 where f: "fetchEvents n (currentBlockNumber w) ?w1 = (r2, w2)" by fastforce
      have w2: "db_manager w2 = db_manager w" "currentBlockNumber w2 = currentBlockNumber w"
        using fetchEvents_db [OF f] by simp_all
      show ?thesis
      proof (cases "h > currentBlockNumber w")
        case later: True
        show ?thesis
        proof (cases r2)
          case (Inl e)
          then show ?thesis using Cons.prems True \<open>answer = Inr h\<close> later f w2 by simp
        next
          case (Inr es)
          then have "awaitHead n heads w2 = Done (r, w')"
            using Cons.prems True \<open>answer = Inr h\<close> later f by simp
          from Cons.IH [OF this] show ?thesis using w2 by simp
        qed
      next
        case False
        have "awaitHead n heads (?w1\<lparr>db_manager := snd (sleep 1000 (db_manager ?w1))\<rparr>) = Done (r, w')"
          using Cons.prems True Inr False by simp
        from Cons.IH [OF this] show ?thesis by simp
      qed
    qed (use Cons.prems True in simp)
  qed (use Cons.prems in simp)
qed (auto split: if_splits)

section \<open>A turn of the loop\<close>

lemma blockImported_fields [simp]:
  "db_manager (blockImported i w) = db_manager w"
  "currentBlockNumber (blockImported i w) = currentBlockNumber w"
  by (simp_all add: blockImported_def)

text \<open>A turn either fails and comes back to the same block, or moves on to the next one.\<close>

lemma importer_step_cases:
  assumes "importer_step bdiv n stop heads w = Done w2"
  obtains (failed) e w1 where "blockTransaction bdiv n w = (Inl e, w1)" "w2 = afterError e w1"
  | (head_failed) infos w1 e w3 where "blockTransaction bdiv n w = (Inr infos, w1)"
      "awaitHead n heads (blockImported infos w1) = Done (Inl e, w3)" "w2 = afterError e w3"
  | (imported) infos w1 w3 where "blockTransaction bdiv n w = (Inr infos, w1)"
      "awaitHead n heads (blockImported infos w1) = Done (Inr (), w3)"
      "w2 = w3\<lparr>currentBlockNumber := currentBlockNumber w3 + 1\<rparr>"
  using assms unfolding importer_step_def
  by (auto split: if_splits prod.splits sum.splits progress.splits)

lemma importer_step_sound:
  assumes "sound (db_manager w)" "currentTransaction (db_manager w) = None"
    and "importer_step bdiv n stop heads w = Done w2"
  shows "sound (db_manager w2) \<and> currentTransaction (db_manager w2) = None"
  using assms(3)
proof (cases rule: importer_step_cases)
  case (failed e w1)
  then show ?thesis using blockTransaction_sound [OF assms(1,2) failed(1)] by (simp add: sound_def)
next
  case (head_failed infos w1 e w3)
  then show ?thesis
    using blockTransaction_sound [OF assms(1,2) head_failed(1)] awaitHead_db [OF head_failed(2)]
    by (simp add: sound_def)
next
  case (imported infos w1 w3)
  then show ?thesis
    using blockTransaction_sound [OF assms(1,2) imported(1)] awaitHead_db [OF imported(2)]
    by (simp add: sound_def)
qed

lemma importer_step_block_number:
  assumes "importer_step bdiv n stop heads w = Done w2"
  shows "currentBlockNumber w2 = currentBlockNumber w \<or> currentBlockNumber w2 = currentBlockNumber w + 1"
  using assms
proof (cases rule: importer_step_cases)
  case (failed e w1)
  then show ?thesis using blockTransaction_cases [OF failed(1)] by (metis afterError_fields(4) cursor_def prod.inject)
next
  case (head_failed infos w1 e w3)
  have "currentBlockNumber w1 = currentBlockNumber w"
    using blockTransaction_cases [OF head_failed(1)] by (metis cursor_def prod.inject)
  then show ?thesis using awaitHead_db [OF head_failed(2)] head_failed(3) by simp
next
  case (imported infos w1 w3)
  have "currentBlockNumber w1 = currentBlockNumber w"
    using blockTransaction_cases [OF imported(1)] by (metis cursor_def prod.inject)
  then show ?thesis using awaitHead_db [OF imported(2)] imported(3) by simp
qed

end
