(* ===== verification/BlockLedger.thy ===== *)
theory BlockLedger imports ImportLoop begin

text \<open>
  A block against the abstract ledger: only the processing of the events touches the stake tables,
  so what a block commits is the old ledger with the block's own events booked. And what happens
  when the importer comes back to a block that it has already committed.
\<close>

section \<open>Events of one block\<close>

text \<open>\<open>getPastEvents\<close> returns logs of the blocks that were asked for.\<close>

definition logs_in_range :: "chain \<Rightarrow> bool" where
  "logs_in_range c \<longleftrightarrow> (\<forall>name b logs. pastEvents c name b b = Inr logs \<longrightarrow>
     list_all (\<lambda>l. log_block l = b) logs)"

abbreviation of_block :: "int \<Rightarrow> contract_event \<Rightarrow> bool" where
  "of_block b e \<equiv> blockNumber e = b"

lemma mapM_in:
  "mapM f xs = Inr ys \<Longrightarrow> (\<And>x y. x \<in> set xs \<Longrightarrow> f x = Inr y \<Longrightarrow> P y) \<Longrightarrow> list_all P ys"
  unfolding mapM_Inr list_all2_conv_all_nth list_all_length by (metis nth_mem)

lemma stamped_within:
  assumes "logs_in_range c" "stamped c name b b build = Inr es" "\<And>log t. blockNumber (build log t) = log_block log"
  shows "list_all (of_block b) es"
proof -
  obtain logs where logs: "pastEvents c name b b = Inr logs"
    and es: "mapM (\<lambda>log. await (blockTimestampAt c (log_block log)) (\<lambda>t. Inr (build log t))) logs = Inr es"
    using assms(2) by (auto simp: stamped_def result_simps)
  have "list_all (\<lambda>l. log_block l = b) logs"
    using assms(1) logs unfolding logs_in_range_def by blast
  then show ?thesis
    by (intro mapM_in [OF es]) (auto simp: result_simps list_all_iff assms(3))
qed

lemma fetched_within:
  assumes "logs_in_range c"
  shows "getPlacedStakeEvents c b b = Inr es \<Longrightarrow> list_all (of_block b) es"
    "getWithdrewStakeEvents c b b = Inr es \<Longrightarrow> list_all (of_block b) es"
    "getMovedStakeEvents c b b = Inr es \<Longrightarrow> list_all (of_block b) es"
    "getGatherAbandonedStakesEvents c b b = Inr es \<Longrightarrow> list_all (of_block b) es"
    "getNameRegisteredEvents c b b = Inr es \<Longrightarrow> list_all (of_block b) es"
    "getNameActivatedEvents c b b = Inr es \<Longrightarrow> list_all (of_block b) es"
    "getNameDeactivatedEvents c b b = Inr es \<Longrightarrow> list_all (of_block b) es"
    "getNameRenewedEvents c b b = Inr es \<Longrightarrow> list_all (of_block b) es"
    "getNameBlockedSetEvents c b b = Inr es \<Longrightarrow> list_all (of_block b) es"
    "getDmdNameTransferEvents c b b = Inr es \<Longrightarrow> list_all (of_block b) es"
  unfolding getPlacedStakeEvents_def getWithdrewStakeEvents_def getMovedStakeEvents_def
    getGatherAbandonedStakesEvents_def getNameRegisteredEvents_def getNameActivatedEvents_def
    getNameDeactivatedEvents_def getNameRenewedEvents_def getNameBlockedSetEvents_def
    getDmdNameTransferEvents_def
  by (auto split: if_splits elim!: stamped_within [OF assms])

lemma orders_within:
  assumes "logs_in_range c" "getWithdrawalOrderEvents c b b = Inr es"
  shows "list_all (of_block b) es"
  using assms(2) unfolding getWithdrawalOrderEvents_def
  by (auto simp: result_simps elim!: stamped_within [OF assms(1)])

lemma availability_within:
  assumes "logs_in_range c" "getAvailabilityEvents c b b = Inr es"
  shows "list_all (of_block b) es"
proof -
  have one: "list_all (of_block b) es'"
    if "pastEvents c name b b = Inr logs" "availability c name av logs = Inr es'" for name av logs es'
  proof -
    have "list_all (\<lambda>l. log_block l = b) logs"
      using assms(1) that(1) unfolding logs_in_range_def by blast
    then show ?thesis
      using that(2) unfolding availability_def
      by (intro mapM_in [OF that(2) [unfolded availability_def]]) (auto simp: result_simps list_all_iff)
  qed
  from assms(2) obtain l1 l2 up down where
    "pastEvents c ''ValidatorAvailable'' b b = Inr l1" "availability c ''ValidatorAvailable'' True l1 = Inr up"
    "pastEvents c ''ValidatorUnavailable'' b b = Inr l2" "availability c ''ValidatorUnavailable'' False l2 = Inr down"
    "es = up @ down"
    by (auto simp: getAvailabilityEvents_def result_simps)
  then show ?thesis using one [of "''ValidatorAvailable''"] one [of "''ValidatorUnavailable''"] by auto
qed

lemma events_of_block:
  assumes "logs_in_range c" "fetchBlockEvents c b = Inr es"
  shows "list_all (of_block b) es"
proof -
  note f = fetched_within [OF assms(1), of b]
  obtain av st nm where g: "getAvailabilityEvents c b b = Inr av" "getStakeUpdateEvents c b b = Inr st"
    "getDmdNamingEvents c b b = Inr nm" and es: "set es = set av \<union> (set st \<union> set nm)"
    using assms(2) by (auto simp: fetchBlockEvents_def getAllEvents_def result_simps)
  have "list_all (of_block b) av" by (rule availability_within [OF assms(1) g(1)])
  moreover have "list_all (of_block b) st"
    using g(2) f(1-4) orders_within [OF assms(1), of b]
    by (auto simp: getStakeUpdateEvents_def result_simps list_all_iff ball_Un)
  moreover have "list_all (of_block b) nm"
    using g(3) f(5-10) by (auto simp: getDmdNamingEvents_def result_simps list_all_iff ball_Un)
  ultimately show ?thesis unfolding list_all_iff es by force
qed

section \<open>The tables that only events change\<close>

definition stake_tables :: "db \<Rightarrow> StakeHistory list \<times> StakeDelegators list \<times> OrderedWithdrawal list \<times> int" where
  "stake_tables d = (stake_history d, stake_delegators d, ordered_withdrawal d, ordered_withdrawal_id_seq d)"

lemma stake_tables_ledger:
  "stake_tables d = stake_tables d' \<Longrightarrow> ledger_of d = ledger_of d' \<and> ledger_ok t d = ledger_ok t d'"
  by (simp add: stake_tables_def ledger_of_def ledger_ok_def)

text \<open>A statement that leaves a view of the tables alone keeps it, in a transaction or not.\<close>

lemma view_execute:
  assumes "\<And>d d'. s d = Inr d' \<Longrightarrow> V d' = V d"
  shows "keeps (\<lambda>m. V (getDbContext m) = x) (execute s)"
  using assms by (auto simp: keeps_def execute_def query_def getDbContext_def set_context_def result_simps
      split: sum.splits option.splits)

lemma getDbContext_frame [simp]:
  "getDbContext (m\<lparr>tx_aborted := b\<rparr>) = getDbContext m"
  "getDbContext (m\<lparr>clock := c, reconnects := rs, connectionRetries := n\<rparr>) = getDbContext m"
  by (simp_all add: getDbContext_def split: option.splits)

lemma view_read: "keeps (\<lambda>m. V (getDbContext m) = x) (read s)"
  by (rule keeps_read) simp

lemma view_retry:
  "keeps (\<lambda>m. V (getDbContext m) = x) A \<Longrightarrow> keeps (\<lambda>m. V (getDbContext m) = x) (executeWithRetry A)"
  unfolding executeWithRetry_def by (rule keeps_retry_from) simp_all

lemmas view_rules = keeps_rules view_execute view_read view_retry

interpretation stake_view: block_methods "\<lambda>m. stake_tables (getDbContext m) = x" for x
  by unfold_locales (unfold insertHeader_def insertNode_def writeInitialBonusScore_def updateBonusScore_def
      insert_bonus_score_history_def update_node_bonus_score_def insertBonusScoreChangeReason_def
      getEpochByBlock_def insertStakingEpoch_def endStakingEpoch_def updateValidatorReward_def
      insertEpochNode_def insertDelegateStaker_def insertDelegateRewardsBulk_def
      processAddedValidators_def processRemovedValidators_def findValidator_def insertValidator_def
      updateOrIgnoreValidator_def;
    intro view_rules; auto simp: stake_tables_def result_simps upsert_reason_def split: if_splits)+

lemma processEvents_forEach: "processEvents events = forEach events accept"
  by (cases events) (simp_all add: processEvents_def)

text \<open>From one state to another, every property that the methods keep is kept.\<close>

definition only_methods :: "importer \<Rightarrow> importer \<Rightarrow> bool" where
  "only_methods w w' \<longleftrightarrow> (\<forall>I. block_methods I \<longrightarrow> I (db_manager w) \<longrightarrow> I (db_manager w'))"

lemma bookBlock_run:
  assumes "bookBlock bdiv n b e ts w = (Inr infos, w')"
  obtains events wf where "fetchBlockEvents (events_of n) b = Inr events"
    "forEach events accept (db_manager wf) = (Inr (), db_manager w')" "w' = wf\<lparr>db_manager := db_manager w'\<rparr>"
    "only_methods w wf"
proof -
  from assms obtain header wa wb events wc wd we wf where
    run: "importHeader n b ts w = (Inr (header, infos), wa)"
      "insertGenesisPools n header b wa = (Inr (), wb)" "fetchEvents n b wb = (Inr events, wc)"
      "forEach (getPoolsSet events) (ensureNode n b) wc = (Inr (), wd)"
      "on_db (insertDelegateStaker (getDelegatorsSet events)) wd = (Inr (), we)"
      "switchEpoch bdiv n e (bi_posdaoEpoch infos) header b we = (Inr (), wf)"
      "on_db (processEvents events) wf = (Inr (), w')"
    unfolding bookBlock_def by (auto simp: action_simps split: prod.splits)
  have "fetchBlockEvents (events_of n) b = Inr events"
    using run(3) by (auto simp: fetchEvents_def action_simps)
  moreover have "forEach events accept (db_manager wf) = (Inr (), db_manager w')"
    "w' = wf\<lparr>db_manager := db_manager w'\<rparr>"
    using run(7) by (auto simp: on_db_Inr processEvents_forEach)
  moreover have "only_methods w wf" unfolding only_methods_def
  proof (intro allI impI)
    fix I assume I: "block_methods I" "I (db_manager w)"
    have "at_cursor I (cursor w) w" using I(2) by (simp add: at_cursor_def)
    from keepsD [OF block_methods.node_tasks(1) [OF I(1)] this run(1)] have "at_cursor I (cursor w) wa" .
    from keepsD [OF block_methods.node_tasks(4) [OF I(1)] this run(2)] have "at_cursor I (cursor w) wb" .
    from keepsD [OF block_methods.fetchEvents_keeps [OF I(1)] this run(3)] have "at_cursor I (cursor w) wc" .
    from keepsD [OF keeps_forEach [OF block_methods.node_tasks(3) [OF I(1)]] this run(4)] have "at_cursor I (cursor w) wd" .
    from keepsD [OF keeps_on_db [OF block_methods.stakers [OF I(1)]] this run(5)] have "at_cursor I (cursor w) we" .
    from keepsD [OF block_methods.epoch_tasks [OF I(1)] this run(6)] have "at_cursor I (cursor w) wf" .
    then show "I (db_manager wf)" by (simp add: at_cursor_def)
  qed
  ultimately show thesis using that by blast
qed

lemma importBlock_parts:
  assumes "importBlock bdiv n b e ts w = (Inr infos, w')"
  obtains w1 where "bookBlock bdiv n b e ts w = (Inr infos, w1)"
    "only_methods w1 w'"
proof -
  from assms obtain w1 w2 pools w3 where
    run: "bookBlock bdiv n b e ts w = (Inr infos, w1)"
      "updateValidators n b (bi_posdaoEpoch infos) w1 = (Inr (), w2)"
      "processBonusScore n b pools w2 = (Inr (), w3)" "w' = w3"
    unfolding importBlock_def followBlock_def by (auto simp: action_simps)
  have "only_methods w1 w'" unfolding only_methods_def
  proof (intro allI impI)
    fix I assume I: "block_methods I" "I (db_manager w1)"
    have "at_cursor I (cursor w1) w1" using I(2) by (simp add: at_cursor_def)
    from keepsD [OF block_methods.updateValidators_keeps [OF I(1)] this run(2)]
    have "at_cursor I (cursor w1) w2" .
    from keepsD [OF block_methods.score_tasks(2) [OF I(1)] this run(3)]
    show "I (db_manager w')" using run(4) by (simp add: at_cursor_def)
  qed
  then show thesis using that run(1) by blast
qed

lemma importBlock_ledger:
  assumes "logs_in_range (events_of n)" "ledger_ok t (getDbContext (db_manager w))" "t \<le> b"
    and "importBlock bdiv n b e ts w = (Inr infos, w')"
  obtains events where "fetchBlockEvents (events_of n) b = Inr events"
    "ledger_of (getDbContext (db_manager w')) = fold book events (ledger_of (getDbContext (db_manager w)))"
    "ledger_ok b (getDbContext (db_manager w'))"
proof -
  obtain w1 where w1: "bookBlock bdiv n b e ts w = (Inr infos, w1)"
    and after: "only_methods w1 w'"
    by (rule importBlock_parts [OF assms(4)])
  obtain events wf where es: "fetchBlockEvents (events_of n) b = Inr events"
    and run: "forEach events accept (db_manager wf) = (Inr (), db_manager w1)"
    and before: "only_methods w wf"
    by (rule bookBlock_run [OF w1])
  let ?tabs = "\<lambda>w. stake_tables (getDbContext (db_manager w))"
  have "?tabs wf = ?tabs w" "?tabs w' = ?tabs w1"
    using before after stake_view.block_methods_axioms unfolding only_methods_def by blast+
  note same = stake_tables_ledger [OF this(1)] stake_tables_ledger [OF this(2)]
  have blocks: "sorted (t # map blockNumber events)" "last (t # map blockNumber events) \<le> b"
    using events_of_block [OF assms(1) es] assms(3)
    by (induction events) (auto simp: list_all_iff)
  have ok: "ledger_ok t (getDbContext (db_manager wf))" using same(1) assms(2) by simp
  note r = stake_ledger.run_abstraction [OF ok blocks(1) run] stake_ledger.run_ok [OF ok blocks(1) run]
  show thesis
    using that [OF es] r(1) ledger_ok_mono [OF r(2) blocks(2)] same by simp
qed

end
