(* ===== verification/StakeLog.thy ===== *)
theory StakeLog imports Names begin

text \<open>
  The table \<open>stake_transactions\<close> as a log of the stake events: one row per event, in the order of
  processing, whether the event is booked afterwards or not. The rows are written through the
  connection pool, so no rollback takes them back.
\<close>

fun logged :: "contract_event \<Rightarrow> (int \<Rightarrow> StakeTransaction) option" where
  "logged (StakeChangedEvent n b t p s e a) = Some (\<lambda>i.
     \<lparr>st_id = i, st_block_number = b, st_block_timestamp = t, action_type = n,
      st_pool_address = addressToBuffer p, staker_address = Some (addressToBuffer s),
      to_pool_address = None, caller_address = None, st_amount = a, staking_epoch = Some e,
      is_delegator_stake = (p \<noteq> s)\<rparr>)"
| "logged (MovedStakeEvent n b t p q s e a) = Some (\<lambda>i.
     \<lparr>st_id = i, st_block_number = b, st_block_timestamp = t, action_type = ''MovedStake'',
      st_pool_address = addressToBuffer p, staker_address = Some (addressToBuffer s),
      to_pool_address = Some (addressToBuffer q), caller_address = None, st_amount = a,
      staking_epoch = Some e, is_delegator_stake = (p \<noteq> s)\<rparr>)"
| "logged (OrderedWithdrawalEvent n b t p s e a) = Some (\<lambda>i.
     \<lparr>st_id = i, st_block_number = b, st_block_timestamp = t, action_type = ''OrderedWithdrawal'',
      st_pool_address = addressToBuffer p, staker_address = Some (addressToBuffer s),
      to_pool_address = None, caller_address = None, st_amount = a, staking_epoch = Some e,
      is_delegator_stake = (p \<noteq> s)\<rparr>)"
| "logged (ClaimedOrderedWithdrawalEvent n b t p s e a) = Some (\<lambda>i.
     \<lparr>st_id = i, st_block_number = b, st_block_timestamp = t,
      action_type = ''ClaimedOrderedWithdrawal'', st_pool_address = addressToBuffer p,
      staker_address = Some (addressToBuffer s), to_pool_address = None, caller_address = None,
      st_amount = a, staking_epoch = Some e, is_delegator_stake = (p \<noteq> s)\<rparr>)"
| "logged (GatherAbandonedStakesEvent n b t c p a) = Some (\<lambda>i.
     \<lparr>st_id = i, st_block_number = b, st_block_timestamp = t, action_type = ''GatherAbandonedStakes'',
      st_pool_address = addressToBuffer p, staker_address = None, to_pool_address = None,
      caller_address = Some (addressToBuffer c), st_amount = a, staking_epoch = None,
      is_delegator_stake = False\<rparr>)"
| "logged _ = None"

definition stake_log :: "manager \<Rightarrow> StakeTransaction list \<times> int" where
  "stake_log m = (stake_transactions m, stake_transactions_id_seq m)"

definition append_log :: "contract_event \<Rightarrow> StakeTransaction list \<times> int \<Rightarrow> StakeTransaction list \<times> int" where
  "append_log e l = (case logged e of None \<Rightarrow> l | Some row \<Rightarrow> (fst l @ [row (snd l)], snd l + 1))"

lemma stake_log_outside: "outside_view stake_log"
  by (simp add: outside_view_def stake_log_def set_context_def split: option.splits)

lemma untouched_pool_only:
  "untouched stake_log (upsertDmdName r)" "untouched stake_log (insertDmdNameEvent e)"
  by (simp_all add: untouched_def upsertDmdName_def insertDmdNameEvent_def stake_log_def)

text \<open>After its first statement, a visit does not touch the log.\<close>

lemma log_first:
  assumes "untouched stake_log (B ())"
  shows "stake_log (snd (andThen (insertStakeTransaction b t a p s q c am e d) B m)) =
    (stake_transactions m @ [\<lparr>st_id = stake_transactions_id_seq m, st_block_number = b,
       st_block_timestamp = t, action_type = a, st_pool_address = addressToBuffer p,
       staker_address = map_option addressToBuffer s, to_pool_address = map_option addressToBuffer q,
       caller_address = map_option addressToBuffer c, st_amount = am, staking_epoch = e,
       is_delegator_stake = d\<rparr>], stake_transactions_id_seq m + 1)"
proof -
  have "stake_log (snd (B () (snd (insertStakeTransaction b t a p s q c am e d m)))) =
      stake_log (snd (insertStakeTransaction b t a p s q c am e d m))"
    using assms unfolding untouched_def by blast
  then show ?thesis by (simp add: andThen_def insertStakeTransaction_def stake_log_def)
qed

lemmas log_views = untouched_execute [OF stake_log_outside] untouched_read [OF stake_log_outside]
  untouched_retry [OF stake_log_outside] untouched_pool_only

lemma stake_methods_keep_log:
  "untouched stake_log (getLastStakeHistoryRecord p)" "untouched stake_log (updateStakeHistory r b)"
  "untouched stake_log (insertStakeHistoryRecord r)" "untouched stake_log (getOrderWithdrawalEvent P)"
  "untouched stake_log (insertOrderWithdrawalEvent b pb sb e v)"
  "untouched stake_log (updateOrderWithdrawalEvent P f)" "untouched stake_log (insertAvailabilityEvent av)"
  "untouched stake_log (insertDelegateStaker as)" "untouched stake_log (saveDelegatedStake ps ss v)"
  "untouched stake_log (replaceStakeRecord r b nb v)"
  by (auto simp: getLastStakeHistoryRecord_def updateStakeHistory_def insertStakeHistoryRecord_def
      getOrderWithdrawalEvent_def insertOrderWithdrawalEvent_def updateOrderWithdrawalEvent_def
      insertAvailabilityEvent_def insertDelegateStaker_def saveDelegatedStake_def replaceStakeRecord_def
      ensureDelegateStaker_def getStakeDelegator_def updateStakeDelegator_def insertStakeDelegator_def
      split: option.splits list.splits intro!: untouched_rules log_views stake_log_outside)

lemma accept_log: "stake_log (snd (accept e m)) = append_log e (stake_log m)"
proof (cases "logged e")
  case None
  then have "untouched stake_log (accept e)"
    by (cases e) (auto simp: Let_def visitAvailabilityEvents_def visitNameRegisteredEvent_def
        visitNameActivatedEvent_def visitNameDeactivatedEvent_def visitNameRenewedEvent_def
        visitNameBlockedSetEvent_def visitDmdNameTransferEvent_def
        intro!: untouched_rules log_views stake_methods_keep_log)
  then show ?thesis using None by (simp add: append_log_def untouched_def)
next
  case (Some row)
  then show ?thesis
    by (cases e) (auto simp: append_log_def stake_log_def [of m] visitStakeChangedEvent_def
        visitMovedStakeEvent_def visitOrderedWithdrawalEvent_def visitClaimedOrderedWithdrawalEvent_def
        visitGatherAbandonedStakesEvent_def Let_def isDelegatorStake_def split: option.splits prod.splits
        intro!: trans [OF log_first] untouched_rules stake_methods_keep_log)
qed

interpretation stake_events_log: timed_actions "\<lambda>_. 0" accept "\<lambda>t m. True" stake_log append_log
  by unfold_locales (auto simp: accept_log [symmetric])

text \<open>A successful run of events appends to \<open>stake_transactions\<close> exactly one row per stake event,
  in their order, with consecutive ids; no earlier row changes.\<close>

theorem events_extend_stake_log:
  assumes "forEach events accept m = (Inr (), m')"
  shows "stake_log m' = fold append_log events (stake_log m)"
  using stake_events_log.run_abstraction [OF TrueI _ assms, of 0] by (simp add: map_replicate_const)

end
