(* ===== verification/BlockProperties.thy ===== *)
theory BlockProperties imports BlockLedger StakeLog begin

text \<open>
  Runs of the importer as a whole: which blocks' events the committed ledger holds after any
  number of turns of the main loop, what a failed turn leaves behind, and the integrity of the
  tables in every state.
\<close>

section \<open>A run and its trace\<close>

text \<open>What a turn did: the block, whether the transaction was really committed, and whether the
  loop went on to the next block.\<close>

record turn =
  turn_block :: int
  turn_committed :: bool
  turn_advanced :: bool

definition block_committed :: "division \<Rightarrow> network \<Rightarrow> importer \<Rightarrow> bool" where
  "block_committed bdiv n w =
     (case importBlock bdiv n (currentBlockNumber w) (lastInsertedPosdaoEpoch w) (blockBeforeTimestamp w)
        (w\<lparr>db_manager := begin_transaction (db_manager w)\<rparr>) of (r, w1) \<Rightarrow> \<not> isl r \<and> usable (db_manager w1))"

definition turn_of :: "division \<Rightarrow> network \<Rightarrow> importer \<Rightarrow> importer \<Rightarrow> turn" where
  "turn_of bdiv n w w' = \<lparr>turn_block = currentBlockNumber w, turn_committed = block_committed bdiv n w,
     turn_advanced = (currentBlockNumber w' \<noteq> currentBlockNumber w)\<rparr>"

inductive import_trace :: "division \<Rightarrow> network \<Rightarrow> int option \<Rightarrow> importer \<Rightarrow> turn list \<Rightarrow> importer \<Rightarrow> bool"
  for bdiv n stop w where
  start: "import_trace bdiv n stop w [] w"
| turn: "import_trace bdiv n stop w ts w1 \<Longrightarrow> importer_step bdiv n stop heads w1 = Done w2 \<Longrightarrow>
    import_trace bdiv n stop w (ts @ [turn_of bdiv n w1 w2]) w2"

lemma importing_trace: "importing bdiv n stop w w' \<longleftrightarrow> (\<exists>ts. import_trace bdiv n stop w ts w')"
proof
  show "importing bdiv n stop w w' \<Longrightarrow> \<exists>ts. import_trace bdiv n stop w ts w'"
    by (induction rule: importing.induct) (blast intro: import_trace.intros)+
  assume "\<exists>ts. import_trace bdiv n stop w ts w'"
  then obtain ts where "import_trace bdiv n stop w ts w'" ..
  then show "importing bdiv n stop w w'"
    by (induction rule: import_trace.induct) (blast intro: importing.intros)+
qed

definition block_events :: "network \<Rightarrow> int \<Rightarrow> contract_event list" where
  "block_events n b = (case fetchBlockEvents (events_of n) b of Inr es \<Rightarrow> es | Inl _ \<Rightarrow> [])"

abbreviation events_of_turns :: "network \<Rightarrow> turn list \<Rightarrow> contract_event list" where
  "events_of_turns n ts \<equiv> concat (map (\<lambda>t. block_events n (turn_block t)) (filter turn_committed ts))"

section \<open>One transaction\<close>

text \<open>What is committed after a transaction that commits, and after one that does not.\<close>

lemma blockTransaction_not_committed:
  assumes "blockTransaction bdiv n w = (r, w')" "\<not> block_committed bdiv n w"
  shows "committed (db_manager w') = committed (db_manager w)"
  using assms by (auto simp: block_committed_def elim!: blockTransaction_cases split: if_splits)

lemma blockTransaction_committed:
  assumes "logs_in_range (events_of n)" "ledger_ok t (committed (db_manager w))" "t \<le> currentBlockNumber w"
    and run: "blockTransaction bdiv n w = (r, w')" and "block_committed bdiv n w"
  obtains infos events where "r = Inr infos"
    "fetchBlockEvents (events_of n) (currentBlockNumber w) = Inr events"
    "ledger_of (committed (db_manager w')) = fold book events (ledger_of (committed (db_manager w)))"
    "ledger_ok (currentBlockNumber w) (committed (db_manager w'))"
proof -
  let ?w0 = "w\<lparr>db_manager := begin_transaction (db_manager w)\<rparr>" and ?b = "currentBlockNumber w"
  from run obtain w1 where run1: "importBlock bdiv n ?b (lastInsertedPosdaoEpoch w)
      (blockBeforeTimestamp w) ?w0 = (r, w1)"
    and w': "w' = w1\<lparr>db_manager := end_transaction (db_manager w) (db_manager w1) (\<not> isl r)\<rparr>"
    by (rule blockTransaction_cases)
  then obtain infos where infos: "r = Inr infos" "usable (db_manager w1)"
    using assms(5) by (cases r) (auto simp: block_committed_def)
  have "ledger_ok t (getDbContext (db_manager ?w0))" using assms(2) by simp
  from importBlock_ledger [OF assms(1) this assms(3) run1 [unfolded infos(1)]]
  obtain events where "fetchBlockEvents (events_of n) ?b = Inr events"
    "ledger_of (getDbContext (db_manager w1)) = fold book events (ledger_of (committed (db_manager w)))"
    "ledger_ok ?b (getDbContext (db_manager w1))" by auto
  then show thesis using that [OF infos(1)] w' infos by simp
qed

lemma blockTransaction_cursor: "blockTransaction bdiv n w = (r, w1) \<Longrightarrow> cursor w1 = cursor w"
  by (rule blockTransaction_cases)

text \<open>C3: Whatever happens while a block is imported, the committed ledger of pool stakes, delegated
  stakes and open withdrawal orders either stays as it was or is the old one with the block's own
  contract events booked in the order in which they were fetched, nothing else; in that case the
  body returned. A body that fails changes no committed table and not the place in the chain.\<close>

theorem block_is_booked_or_rolled_back:
  assumes "logs_in_range (events_of n)" and "ledger_ok t (committed (db_manager w))"
    and "t \<le> currentBlockNumber w" and "blockTransaction bdiv n w = (r, w')"
  shows "cursor w' = cursor w \<and> (committed (db_manager w') = committed (db_manager w) \<or>
    (\<exists>infos events. r = Inr infos \<and>
       fetchBlockEvents (events_of n) (currentBlockNumber w) = Inr events \<and>
       ledger_of (committed (db_manager w')) = fold book events (ledger_of (committed (db_manager w))) \<and>
       ledger_ok (currentBlockNumber w) (committed (db_manager w'))))"
proof (cases "block_committed bdiv n w")
  case True
  obtain infos events where "r = Inr infos"
    "fetchBlockEvents (events_of n) (currentBlockNumber w) = Inr events"
    "ledger_of (committed (db_manager w')) = fold book events (ledger_of (committed (db_manager w)))"
    "ledger_ok (currentBlockNumber w) (committed (db_manager w'))"
    by (rule blockTransaction_committed [OF assms True])
  then show ?thesis using blockTransaction_cursor [OF assms(4)] by blast
next
  case False
  then show ?thesis
    using blockTransaction_not_committed [OF assms(4)] blockTransaction_cursor [OF assms(4)] by blast
qed

lemma importer_step_transaction:
  assumes "importer_step bdiv n stop heads w = Done w2"
  obtains r w1 where "blockTransaction bdiv n w = (r, w1)"
    "committed (db_manager w2) = committed (db_manager w1)"
    "isl r \<Longrightarrow> currentBlockNumber w2 = currentBlockNumber w"
  using assms
proof (cases rule: importer_step_cases)
  case (failed e w1)
  have "currentBlockNumber w1 = currentBlockNumber w"
    using blockTransaction_cases [OF failed(1)] by (metis cursor_def prod.inject)
  then show thesis using that [OF failed(1)] failed(2) by simp
next
  case (head_failed infos w1 e w3)
  then show thesis using that [OF head_failed(1)] awaitHead_db [OF head_failed(2)] by simp
next
  case (imported infos w1 w3)
  then show thesis using that [OF imported(1)] awaitHead_db [OF imported(2)] by simp
qed

text \<open>A turn on the ledger.\<close>

lemma importer_step_ledger:
  assumes "logs_in_range (events_of n)" "ledger_ok (currentBlockNumber w) (committed (db_manager w))"
    and "importer_step bdiv n stop heads w = Done w2"
  shows "ledger_of (committed (db_manager w2)) =
      fold book (events_of_turns n [turn_of bdiv n w w2]) (ledger_of (committed (db_manager w)))"
    and "ledger_ok (currentBlockNumber w2) (committed (db_manager w2))"
proof -
  obtain r w1 where run: "blockTransaction bdiv n w = (r, w1)"
    and com: "committed (db_manager w2) = committed (db_manager w1)"
    by (rule importer_step_transaction [OF assms(3)])
  have le: "currentBlockNumber w \<le> currentBlockNumber w2"
    using importer_step_block_number [OF assms(3)] by linarith
  have "ledger_of (committed (db_manager w2)) =
      fold book (events_of_turns n [turn_of bdiv n w w2]) (ledger_of (committed (db_manager w))) \<and>
    ledger_ok (currentBlockNumber w) (committed (db_manager w2))"
  proof (cases "block_committed bdiv n w")
    case True
    obtain infos events where "r = Inr infos"
      "fetchBlockEvents (events_of n) (currentBlockNumber w) = Inr events"
      "ledger_of (committed (db_manager w1)) = fold book events (ledger_of (committed (db_manager w)))"
      "ledger_ok (currentBlockNumber w) (committed (db_manager w1))"
      by (rule blockTransaction_committed [OF assms(1,2) order_refl run True])
    then show ?thesis using com True by (simp add: turn_of_def block_events_def)
  next
    case False
    then show ?thesis using blockTransaction_not_committed [OF run False] com assms(2)
      by (simp add: turn_of_def)
  qed
  then show "ledger_of (committed (db_manager w2)) =
      fold book (events_of_turns n [turn_of bdiv n w w2]) (ledger_of (committed (db_manager w)))"
    "ledger_ok (currentBlockNumber w2) (committed (db_manager w2))"
    using ledger_ok_mono [OF _ le] by blast+
qed

lemma import_trace_ledger:
  assumes "import_trace bdiv n stop w ts w'"
    and "logs_in_range (events_of n)" "ledger_ok (currentBlockNumber w) (committed (db_manager w))"
  shows "ledger_of (committed (db_manager w')) =
      fold book (events_of_turns n ts) (ledger_of (committed (db_manager w))) \<and>
    ledger_ok (currentBlockNumber w') (committed (db_manager w'))"
  using assms
proof (induction rule: import_trace.induct)
  case (turn ts w1 heads w2)
  have ok: "ledger_ok (currentBlockNumber w1) (committed (db_manager w1))" using turn by blast
  note step = importer_step_ledger [OF turn.prems(1) ok turn.hyps(2)]
  show ?case using step turn.IH [OF turn.prems] by simp
qed simp

lemma import_trace_blocks:
  "import_trace bdiv n stop w ts w' \<Longrightarrow> currentBlockNumber w \<le> currentBlockNumber w' \<and>
   map turn_block (filter turn_advanced ts) = [currentBlockNumber w..currentBlockNumber w' - 1]"
proof (induction rule: import_trace.induct)
  case (turn ts w1 heads w2)
  then show ?case using importer_step_block_number [OF turn.hyps(2)]
    by (auto simp: turn_of_def upto_rec2)
qed simp

section \<open>The log of stake events\<close>

lemma log_kept:
  "keeps (\<lambda>m. stake_log m = x) (execute s)" "keeps (\<lambda>m. stake_log m = x) (read s')"
  "keeps (\<lambda>m. stake_log m = x) A \<Longrightarrow> keeps (\<lambda>m. stake_log m = x) (executeWithRetry A)"
proof -
  show "keeps (\<lambda>m. stake_log m = x) (execute s)" "keeps (\<lambda>m. stake_log m = x) (read s')"
    using log_views(1) [of s] log_views(2) [of s'] by (simp_all add: untouched_def keeps_def)
  show "keeps (\<lambda>m. stake_log m = x) (executeWithRetry A)" if "keeps (\<lambda>m. stake_log m = x) A"
    unfolding executeWithRetry_def by (rule keeps_retry_from [OF that]) (simp add: stake_log_def)
qed

interpretation log_view: block_methods "\<lambda>m. stake_log m = x" for x
  by unfold_locales (unfold insertHeader_def insertNode_def writeInitialBonusScore_def updateBonusScore_def
      insert_bonus_score_history_def update_node_bonus_score_def insertBonusScoreChangeReason_def
      getEpochByBlock_def insertStakingEpoch_def endStakingEpoch_def updateValidatorReward_def
      insertEpochNode_def insertDelegateStaker_def insertDelegateRewardsBulk_def
      processAddedValidators_def processRemovedValidators_def findValidator_def insertValidator_def
      updateOrIgnoreValidator_def; intro keeps_rules log_kept)+

lemma only_methods_log: "only_methods w w' \<Longrightarrow> stake_log (db_manager w') = stake_log (db_manager w)"
  using log_view.block_methods_axioms unfolding only_methods_def by blast

lemma booked_block_logs:
  assumes "bookBlock bdiv n b e ts w = (Inr infos, w')"
  shows "stake_log (db_manager w') = fold append_log (block_events n b) (stake_log (db_manager w))"
proof -
  obtain events wf where es: "fetchBlockEvents (events_of n) b = Inr events"
    and run: "forEach events accept (db_manager wf) = (Inr (), db_manager w')"
    and before: "only_methods w wf"
    by (rule bookBlock_run [OF assms])
  have "stake_log (db_manager w') = fold append_log events (stake_log (db_manager wf))"
    using stake_events_log.run_abstraction [OF TrueI _ run, of 0] by (simp add: map_replicate_const)
  then show ?thesis using only_methods_log [OF before] es by (simp add: block_events_def)
qed

lemma followBlock_log:
  assumes "followBlock n b infos w = (r, w')"
  shows "stake_log (db_manager w') = stake_log (db_manager w)"
proof -
  have "keeps (at_cursor (\<lambda>m. stake_log m = stake_log (db_manager w)) (cursor w)) (followBlock n b infos)"
    unfolding followBlock_def
    by (intro log_view.task_keeps log_view.updateValidators_keeps log_view.score_tasks)
  from keepsD [OF this _ assms] show ?thesis by (simp add: at_cursor_def)
qed

section \<open>Every state of a run\<close>

text \<open>C1: In every state that the importer reaches, the committed ledger is the one it started with
  and the contract events of the blocks whose transactions were committed, booked block by block
  in the order of the turns; the blocks that the importer has left behind are exactly those from
  the first to the current one, each left once.\<close>

theorem import_books_committed_blocks:
  assumes "logs_in_range (events_of n)"
    and "ledger_ok (currentBlockNumber w) (committed (db_manager w))"
    and "importing bdiv n stop w w'"
  shows "\<exists>ts. import_trace bdiv n stop w ts w' \<and>
    ledger_of (committed (db_manager w')) =
      fold book (events_of_turns n ts) (ledger_of (committed (db_manager w))) \<and>
    ledger_ok (currentBlockNumber w') (committed (db_manager w')) \<and>
    map turn_block (filter turn_advanced ts) = [currentBlockNumber w..currentBlockNumber w' - 1]"
  using assms importing_trace import_trace_ledger import_trace_blocks by metis


section \<open>Failures of a turn\<close>

text \<open>When the body of a block's transaction throws, the turn ends with the committed tables, the
  block number, the epoch and the timestamp as they were, at least five seconds later, so the next
  turn imports the same block again.\<close>

theorem failed_block_is_retried:
  assumes "blockTransaction bdiv n w = (Inl e, w1)" and "currentBlockNumber w \<le> latest_known_block w"
  shows "\<exists>w2. importer_step bdiv n None heads w = Done w2 \<and>
    committed (db_manager w2) = committed (db_manager w) \<and> cursor w2 = cursor w \<and>
    clock (db_manager w2) \<ge> clock (db_manager w1) + 5000"
proof (intro exI conjI)
  show "importer_step bdiv n None heads w = Done (afterError e w1)"
    using assms by (simp add: importer_step_def)
  have "\<not> block_committed bdiv n w"
    using assms(1) by (auto simp: block_committed_def elim!: blockTransaction_cases)
  from blockTransaction_not_committed [OF assms(1) this]
  show "committed (db_manager (afterError e w1)) = committed (db_manager w)" by simp
  show "cursor (afterError e w1) = cursor w" using blockTransaction_cursor [OF assms(1)] by simp
  show "clock (db_manager (afterError e w1)) \<ge> clock (db_manager w1) + 5000"
    by (simp add: afterError_def)
qed

text \<open>C28: When a statement whose error is swallowed has aborted the transaction, COMMIT rolls back and
  the importer goes on to the next block: the block is missing from the tables.\<close>

theorem aborted_block_is_skipped:
  assumes "blockTransaction bdiv n w = (Inr infos, w1)" and "\<not> block_committed bdiv n w"
    and "currentBlockNumber w < latest_known_block w"
  shows "\<exists>w2. importer_step bdiv n None heads w = Done w2 \<and>
    committed (db_manager w2) = committed (db_manager w) \<and>
    currentBlockNumber w2 = currentBlockNumber w + 1"
proof -
  note same = blockTransaction_not_committed [OF assms(1,2)]
  have cur: "currentBlockNumber w1 = currentBlockNumber w" "latest_known_block w1 = latest_known_block w"
    using blockTransaction_cursor [OF assms(1)] by (simp_all add: cursor_def)
  have await: "awaitHead n heads (blockImported infos w1) = Done (Inr (), blockImported infos w1)"
    using cur assms(3) by (cases heads) (simp_all add: blockImported_def)
  show ?thesis
    using assms(1,3) same cur await by (auto simp: importer_step_def)
qed


text \<open>A block that was booked and then rolled back leaves its stake events in \<open>stake_transactions\<close>:
  the rows are not part of the transaction. Imported again, they appear once more.\<close>

theorem rollback_keeps_stake_log:
  assumes "bookBlock bdiv n (currentBlockNumber w) (lastInsertedPosdaoEpoch w) (blockBeforeTimestamp w)
      (w\<lparr>db_manager := begin_transaction (db_manager w)\<rparr>) = (Inr infos, w1)"
    and "\<not> block_committed bdiv n w"
  shows "committed (db_manager (snd (blockTransaction bdiv n w))) = committed (db_manager w) \<and>
    stake_log (db_manager (snd (blockTransaction bdiv n w))) =
      fold append_log (block_events n (currentBlockNumber w)) (stake_log (db_manager w))"
proof -
  let ?w0 = "w\<lparr>db_manager := begin_transaction (db_manager w)\<rparr>" and ?b = "currentBlockNumber w"
  obtain r w' where run: "blockTransaction bdiv n w = (r, w')" by fastforce
  from run obtain w2 where body: "importBlock bdiv n ?b (lastInsertedPosdaoEpoch w)
      (blockBeforeTimestamp w) ?w0 = (r, w2)"
    and w': "w' = w2\<lparr>db_manager := end_transaction (db_manager w) (db_manager w2) (\<not> isl r)\<rparr>"
    by (rule blockTransaction_cases)
  have "followBlock n ?b infos w1 = (r, w2)"
    using body assms(1) unfolding importBlock_def by (simp add: andThen_def)
  note followBlock_log [OF this]
  moreover have "stake_log (db_manager w') = stake_log (db_manager w2)"
    unfolding w' by (simp add: stake_log_def end_transaction_def Let_def)
  moreover have "stake_log (begin_transaction (db_manager w)) = stake_log (db_manager w)"
    by (simp add: stake_log_def begin_transaction_def)
  ultimately show ?thesis
    using booked_block_logs [OF assms(1)] blockTransaction_not_committed [OF run assms(2)] run by simp
qed

section \<open>The theorems on small networks\<close>

text \<open>A network with one stake placement per block, and one whose pool list holds a pool without a
  node, so that inserting its score violates a foreign key.\<close>

definition quiet_network :: network where
  "quiet_network = sample_network\<lparr>
     events_of := sample_chain\<lparr>pastEvents :=
       (\<lambda>name a b. Inr (if name = ''PlacedStake'' then [sample_log a 2] else []))\<rparr>,
     call_getPools := (\<lambda>_. Inr []), call_getPoolsInactive := (\<lambda>_. Inr []),
     call_getValidators := (\<lambda>_. Inr []), call_getPendingValidators := (\<lambda>_. Inr [])\<rparr>"

definition unknown_pool_network :: network where
  "unknown_pool_network = quiet_network\<lparr>call_getPools := (\<lambda>_. Inr [''0xEE''])\<rparr>"

definition silent_network :: network where
  "silent_network = quiet_network\<lparr>call_getBlock := (\<lambda>_. Inl (CallFailed ''timeout''))\<rparr>"

definition sample_running :: importer where
  "sample_running = snd (loadKnownNodes (node sample_db) sample_importer)"

definition sample_at_head :: importer where
  "sample_at_head = sample_running\<lparr>latest_known_block := 4\<rparr>"

lemma quiet_in_range: "logs_in_range (events_of quiet_network)"
  by (simp add: logs_in_range_def quiet_network_def sample_log_def)

lemma sample_running_db [simp]:
  "db_manager sample_running = sample_manager" "currentBlockNumber sample_running = 4"
  "latest_known_block sample_running = 9"
  "db_manager sample_at_head = sample_manager" "currentBlockNumber sample_at_head = 4"
  "latest_known_block sample_at_head = 4"
  by (simp_all add: sample_at_head_def sample_running_def loadKnownNodes_def modify_def sample_importer_def)

lemma committed_sample [simp]: "committed sample_manager = sample_db"
  by (simp add: sample_manager_def)

lemma sample_ok: "ledger_ok 4 sample_db"
  by (rule ledger_ok_mono [of 0]) (use sample_ledger_ok in \<open>simp_all add: sample_context\<close>)

lemma done_case: "(case p of Done w \<Rightarrow> P w | _ \<Rightarrow> False) \<Longrightarrow> \<exists>w. p = Done w \<and> P w"
  by (cases p) simp_all

text \<open>Two turns on the quiet network: the head of the chain is not known after the first.\<close>

lemma quiet_turns:
  obtains w1 w2 where
    "importer_step div18 quiet_network None [Inl (CallFailed ''timeout'')] sample_at_head = Done w1"
    "block_committed div18 quiet_network sample_at_head" "block_committed div18 quiet_network w1"
    "importer_step div18 quiet_network None [Inr 5] w1 = Done w2" "currentBlockNumber w2 = 5"
proof -
  have "case importer_step div18 quiet_network None [Inl (CallFailed ''timeout'')] sample_at_head of
      Done w1 \<Rightarrow> block_committed div18 quiet_network w1 \<and>
        (case importer_step div18 quiet_network None [Inr 5] w1 of
           Done w2 \<Rightarrow> currentBlockNumber w2 = 5 | _ \<Rightarrow> False)
    | _ \<Rightarrow> False" by code_simp
  moreover have "block_committed div18 quiet_network sample_at_head" by code_simp
  ultimately show thesis using that by (blast dest: done_case)
qed

lemma quiet_importing:
  obtains w2 where "importing div18 quiet_network None sample_at_head w2" "currentBlockNumber w2 = 5"
  using quiet_turns importing.intros by metis

lemma block_is_booked_or_rolled_back_witness:
  "\<exists>events. fetchBlockEvents (events_of quiet_network) 4 = Inr events \<and>
     ledger_of (committed (db_manager (snd (blockTransaction div18 quiet_network sample_running)))) =
       fold book events (ledger_of sample_db)"
proof -
  obtain r w' where run: "blockTransaction div18 quiet_network sample_running = (r, w')" by fastforce
  have "stake_history (committed (db_manager (snd (blockTransaction div18 quiet_network sample_running)))) \<noteq>
      stake_history sample_db" by code_simp
  then have "committed (db_manager w') \<noteq> committed (db_manager sample_running)" using run by auto
  then show ?thesis
    using block_is_booked_or_rolled_back [OF quiet_in_range _ _ run, of 4] sample_ok run by auto
qed

lemma import_books_committed_blocks_witness:
  "\<exists>ts w2. import_trace div18 quiet_network None sample_at_head ts w2 \<and>
     ledger_of (committed (db_manager w2)) =
       fold book (events_of_turns quiet_network ts) (ledger_of sample_db) \<and>
     map turn_block (filter turn_advanced ts) = [4]"
proof -
  obtain w2 where run: "importing div18 quiet_network None sample_at_head w2" "currentBlockNumber w2 = 5"
    by (rule quiet_importing)
  have "ledger_ok (currentBlockNumber sample_at_head) (committed (db_manager sample_at_head))"
    using sample_ok by simp
  from import_books_committed_blocks [OF quiet_in_range this run(1)] show ?thesis
    unfolding sample_running_db run(2) committed_sample by fastforce
qed


lemma failed_block_is_retried_witness:
  "\<exists>w2. importer_step div18 silent_network None [] sample_running = Done w2 \<and>
     committed (db_manager w2) = sample_db \<and> currentBlockNumber w2 = 4"
proof -
  have "isl (fst (blockTransaction div18 silent_network sample_running))" by code_simp
  then obtain e w1 where "blockTransaction div18 silent_network sample_running = (Inl e, w1)"
    by (metis isl_def prod.collapse)
  from failed_block_is_retried [OF this, of "[]"] show ?thesis by (auto simp: cursor_def)
qed

lemma unknown_pool_aborts: "\<not> block_committed div18 unknown_pool_network sample_running"
  by code_simp

lemma aborted_block_is_skipped_witness:
  "\<exists>w2. importer_step div18 unknown_pool_network None [] sample_running = Done w2 \<and>
     committed (db_manager w2) = sample_db \<and> currentBlockNumber w2 = 5"
proof -
  have "\<not> isl (fst (blockTransaction div18 unknown_pool_network sample_running))" by code_simp
  then obtain infos w1 where "blockTransaction div18 unknown_pool_network sample_running = (Inr infos, w1)"
    by (metis isl_def prod.collapse sum.exhaust)
  from aborted_block_is_skipped [OF this unknown_pool_aborts, of "[]"] show ?thesis by auto
qed


lemma rollback_keeps_stake_log_witness:
  "committed (db_manager (snd (blockTransaction div18 unknown_pool_network sample_running))) = sample_db \<and>
   stake_log (db_manager (snd (blockTransaction div18 unknown_pool_network sample_running))) =
     fold append_log (block_events unknown_pool_network 4) (stake_log sample_manager)"
proof -
  let ?w0 = "sample_running\<lparr>db_manager := begin_transaction (db_manager sample_running)\<rparr>"
  have "\<not> isl (fst (bookBlock div18 unknown_pool_network (currentBlockNumber sample_running)
      (lastInsertedPosdaoEpoch sample_running) (blockBeforeTimestamp sample_running) ?w0))" by code_simp
  then obtain infos w1 where "bookBlock div18 unknown_pool_network (currentBlockNumber sample_running)
      (lastInsertedPosdaoEpoch sample_running) (blockBeforeTimestamp sample_running) ?w0 = (Inr infos, w1)"
    by (metis isl_def prod.collapse sum.exhaust)
  from rollback_keeps_stake_log [OF this unknown_pool_aborts] show ?thesis by simp
qed

lemma events_extend_stake_log_witness:
  "stake_log after_events = fold append_log sample_events (stake_log sample_manager) \<and>
   length (stake_transactions after_events) = 4"
proof -
  have "length (stake_transactions after_events) = 4" by code_simp
  then show ?thesis using events_extend_stake_log [OF sample_run] by simp
qed

end
