(* ===== verification/JavaScript.thy ===== *)
theory JavaScript imports Ether begin

text \<open>
  The functions of the JavaScript standard library that the REST API and its tools use on strings:
  \<open>parseInt\<close> with and without a radix, \<open>String.prototype.split\<close> at a character, \<open>trim\<close>,
  \<open>startsWith\<close> and the operator \<open>||\<close> on values that may be missing. Numbers are exact, as they are in
  JavaScript up to 2^53.
\<close>

section \<open>Numbers in strings\<close>

definition is_space :: "char \<Rightarrow> bool" where
  "is_space c \<longleftrightarrow> of_char c \<in> {9, 10, 11, 12, 13, 32, 160 :: nat}"

text \<open>The value of a digit in a radix of at most 16\<close>

definition digit_in :: "nat \<Rightarrow> char \<Rightarrow> nat option" where
  "digit_in radix c = (case hex_val c of Some n \<Rightarrow> if n < radix then Some n else None | None \<Rightarrow> None)"

definition leading_digits :: "nat \<Rightarrow> string \<Rightarrow> nat list" where
  "leading_digits radix s = map the (takeWhile (\<lambda>d. d \<noteq> None) (map (digit_in radix) s))"

definition number_of_digits :: "nat \<Rightarrow> nat list \<Rightarrow> nat" where
  "number_of_digits radix ds = foldl (\<lambda>v d. radix * v + d) 0 ds"

text \<open>The sign of a number and what follows it\<close>

definition signed :: "string \<Rightarrow> int \<times> string" where
  "signed s = (let t = dropWhile is_space s in case t of [] \<Rightarrow> (1, [])
     | c # cs \<Rightarrow> if c = CHR ''-'' then (-1, cs) else if c = CHR ''+'' then (1, cs) else (1, t))"

text \<open>\<open>parseInt(s, radix)\<close> for a radix below 16: the longest prefix that is a number; \<open>NaN\<close> is
  \<open>None\<close>.\<close>

definition parseInt_radix :: "nat \<Rightarrow> string \<Rightarrow> int option" where
  "parseInt_radix radix s = (let (sign, u) = signed s; ds = leading_digits radix u
     in if ds = [] then None else Some (sign * int (number_of_digits radix ds)))"

abbreviation parseInt10 :: "string \<Rightarrow> int option" where
  "parseInt10 \<equiv> parseInt_radix 10"

text \<open>\<open>parseInt(s)\<close> and \<open>parseInt(s, 16)\<close> read hexadecimal digits after \<open>0x\<close>.\<close>

definition parseInt_hex :: "nat \<Rightarrow> string \<Rightarrow> int option" where
  "parseInt_hex radix s = (let (sign, u) = signed s;
       prefixed = take 2 u \<in> {''0x'', ''0X''};
       ds = leading_digits (if prefixed then 16 else radix) (if prefixed then drop 2 u else u)
     in if ds = [] then None else Some (sign * int (number_of_digits (if prefixed then 16 else radix) ds)))"

abbreviation parseInt :: "string \<Rightarrow> int option" where
  "parseInt \<equiv> parseInt_hex 10"

abbreviation parseInt16 :: "string \<Rightarrow> int option" where
  "parseInt16 \<equiv> parseInt_hex 16"

fun decimal :: "nat \<Rightarrow> string" where
  "decimal n = (if n < 10 then [char_of (48 + n)] else decimal (n div 10) @ [char_of (48 + n mod 10)])"

declare decimal.simps [simp del]

text \<open>Printing a number and parsing it again.\<close>

lemma digit_char [simp]: "n < 10 \<Longrightarrow> digit_in 10 (char_of (48 + n :: nat)) = Some n"
  by (simp add: digit_in_def hex_val_def Let_def)

lemma leading_all:
  assumes "list_all (\<lambda>c. digit_in radix c \<noteq> None) s"
  shows "leading_digits radix s = map (\<lambda>c. the (digit_in radix c)) s"
  using assms by (induction s) (auto simp: leading_digits_def)

lemma decimal_digits:
  "list_all (\<lambda>c. digit_in 10 c \<noteq> None) (decimal n) \<and> decimal n \<noteq> [] \<and>
   number_of_digits 10 (map (\<lambda>c. the (digit_in 10 c)) (decimal n)) = n"
proof (induction n rule: decimal.induct)
  case (1 n)
  show ?case
  proof (cases "n < 10")
    case False
    then have "decimal n = decimal (n div 10) @ [char_of (48 + n mod 10)]" by (simp add: decimal.simps [of n])
    then show ?thesis using 1 [OF False] by (simp add: number_of_digits_def del: One_nat_def)
  qed (simp add: decimal.simps [of n] number_of_digits_def)
qed

lemma digit_range: "digit_in 10 c \<noteq> None \<Longrightarrow> 48 \<le> (of_char c :: nat) \<and> of_char c \<le> (57 :: nat)"
  by (simp add: digit_in_def hex_val_def Let_def split: if_splits)

lemma digit_not_special:
  assumes "digit_in 10 c \<noteq> None"
  shows "\<not> is_space c" "c \<noteq> CHR ''-''" "c \<noteq> CHR ''+''" "c \<noteq> CHR ''x''" "c \<noteq> CHR ''X''"
  using digit_range [OF assms] by (auto simp: is_space_def)

lemma signed_digits:
  assumes "list_all (\<lambda>c. digit_in 10 c \<noteq> None) ds"
  shows "signed ds = (1, ds)" "take 2 ds \<noteq> ''0x''" "take 2 ds \<noteq> ''0X''"
proof -
  have digits: "c \<in> set ds \<Longrightarrow> digit_in 10 c \<noteq> None" for c using assms by (simp add: list_all_iff)
  show "signed ds = (1, ds)"
    using digits [THEN digit_not_special(1)] digits [THEN digit_not_special(2)] digits [THEN digit_not_special(3)]
    by (cases ds) (auto simp: signed_def)
  show "take 2 ds \<noteq> ''0x''" "take 2 ds \<noteq> ''0X''"
    using digits [THEN digit_not_special(4)] digits [THEN digit_not_special(5)]
    by (metis in_set_takeD list.set_intros(1,2))+
qed

lemma parseInt_decimal [simp]: "parseInt (decimal n) = Some (int n)" "parseInt10 (decimal n) = Some (int n)"
  using decimal_digits [of n] signed_digits [of "decimal n"]
  by (auto simp: parseInt_hex_def parseInt_radix_def leading_all)

lemma decimal_inj: "decimal m = decimal n \<Longrightarrow> m = n"
  by (metis parseInt_decimal(1) option.inject of_nat_eq_iff)

section \<open>Pieces of strings\<close>

fun split_at :: "char \<Rightarrow> string \<Rightarrow> string list" where
  "split_at d [] = [[]]"
| "split_at d (c # s) =
     (if c = d then [] # split_at d s
      else case split_at d s of [] \<Rightarrow> [[c]] | w # ws \<Rightarrow> (c # w) # ws)"

definition trim :: "string \<Rightarrow> string" where
  "trim s = rev (dropWhile is_space (rev (dropWhile is_space s)))"

definition startsWith :: "string \<Rightarrow> string \<Rightarrow> bool" where
  "startsWith s t \<longleftrightarrow> prefix t s"

text \<open>A missing or empty string, a missing number and zero are falsy.\<close>

definition truthy :: "string option \<Rightarrow> string option" where
  "truthy s = (case s of Some (c # cs) \<Rightarrow> Some (c # cs) | _ \<Rightarrow> None)"

definition or_number :: "int option \<Rightarrow> int \<Rightarrow> int" where
  "or_number v d = (case v of None \<Rightarrow> d | Some n \<Rightarrow> if n = 0 then d else n)"

end
