(* ===== verification/RateLimiter.thy ===== *)
theory RateLimiter imports JavaScript begin

text \<open>
  The rate limits of the REST API: src/db/express/src/middleware/rateLimiter.ts.

  Every limit rests on a counter of recent requests per key. The counter is Redis when the client
  is connected, else the class InMemoryRateLimiter. Redis is a parameter: \<open>exec key seconds now r\<close>
  is the reply of MULTI, INCR, EXPIRE, TTL, EXEC (the new value and the time to live; \<open>None\<close> for a
  null reply) and the server's next state. \<open>Date.now()\<close> is an argument, in milliseconds.
\<close>

section \<open>The in-memory limiter\<close>

record entry =
  e_count :: int
  resetAt :: int

type_synonym store = "string \<rightharpoonup> entry list"

definition entries_of :: "store \<Rightarrow> string \<Rightarrow> entry list" where
  "entries_of st key = (case st key of None \<Rightarrow> [] | Some es \<Rightarrow> es)"

definition live :: "int \<Rightarrow> entry list \<Rightarrow> entry list" where
  "live now es = filter (\<lambda>e. resetAt e > now) es"

definition increment :: "string \<Rightarrow> int \<Rightarrow> int \<Rightarrow> store \<Rightarrow> int \<times> store" where
  "increment key windowSeconds now st =
     (let entries = live now (entries_of st key) @ [\<lparr>e_count = 1, resetAt = now + windowSeconds * 1000\<rparr>]
      in (int (length entries), st(key \<mapsto> entries)))"

text \<open>\<open>Math.ceil\<close> of a quotient\<close>

definition ceil_div :: "int \<Rightarrow> int \<Rightarrow> int" where
  "ceil_div a b = - ((- a) div b)"

definition ttl :: "string \<Rightarrow> int \<Rightarrow> store \<Rightarrow> int" where
  "ttl key now st =
     (let validEntries = live now (entries_of st key) in
      if validEntries = [] then -1
      else ceil_div (Min (set (map resetAt validEntries)) - now) 1000)"

definition cleanup :: "int \<Rightarrow> store \<Rightarrow> store" where
  "cleanup now st = (\<lambda>key. case st key of None \<Rightarrow> None
     | Some es \<Rightarrow> if live now es = [] then None else Some (live now es))"

section \<open>The counter of a request\<close>

type_synonym 'r redis_exec = "string \<Rightarrow> int \<Rightarrow> int \<Rightarrow> 'r \<Rightarrow> (int \<times> int) option result \<times> 'r"

record 'r limiter =
  redisClient :: "'r option"
  redisConnected :: bool
  memoryLimiter :: store

definition memory_hit :: "string \<Rightarrow> int \<Rightarrow> int \<Rightarrow> 'r limiter \<Rightarrow> (int \<times> int) \<times> 'r limiter" where
  "memory_hit key windowSeconds now s =
     (case increment key windowSeconds now (memoryLimiter s) of
        (c, st) \<Rightarrow> ((c, ttl key now st), s\<lparr>memoryLimiter := st\<rparr>))"

text \<open>A reply is used when its first element is truthy; \<open>|| windowSeconds\<close> replaces a zero.\<close>

definition reply_count :: "int \<Rightarrow> (int \<times> int) option \<Rightarrow> int \<times> int" where
  "reply_count windowSeconds reply =
     (case reply of None \<Rightarrow> (0, windowSeconds)
      | Some (c, t) \<Rightarrow> if c \<noteq> 0 then (c, if t = 0 then windowSeconds else t) else (0, windowSeconds))"

definition redis_hit ::
  "'r redis_exec \<Rightarrow> string \<Rightarrow> int \<Rightarrow> int \<Rightarrow> 'r limiter \<Rightarrow> (int \<times> int) result \<times> 'r limiter" where
  "redis_hit exec key windowSeconds now s =
     (case redisClient s of None \<Rightarrow> (Inl (CallFailed ''no client''), s)
      | Some r \<Rightarrow> (case exec key windowSeconds now r of
          (reply, r') \<Rightarrow> (await reply (\<lambda>x. Inr (reply_count windowSeconds x)), s\<lparr>redisClient := Some r'\<rparr>)))"

definition redis_ready :: "'r limiter \<Rightarrow> bool" where
  "redis_ready s \<longleftrightarrow> redisConnected s \<and> redisClient s \<noteq> None"

text \<open>One key per request: Redis first, the memory when Redis is down or throws.\<close>

definition ip_hit :: "'r redis_exec \<Rightarrow> string \<Rightarrow> int \<Rightarrow> 'r limiter \<Rightarrow> (int \<times> int) \<times> 'r limiter" where
  "ip_hit exec key now s =
     (if redis_ready s then
        (case redis_hit exec key 60 now s of
           (Inr x, s') \<Rightarrow> (x, s')
         | (Inl _, s') \<Rightarrow> memory_hit key 60 now s')
      else memory_hit key 60 now s)"

section \<open>The middlewares\<close>

datatype body = PerMinuteExceeded int | DailyExceeded int

datatype response =
    Next "(string \<times> int) list"
  | TooManyRequests "(string \<times> int) list" body int

definition publicRateLimiter ::
  "'r redis_exec \<Rightarrow> int \<Rightarrow> string \<Rightarrow> int \<Rightarrow> 'r limiter \<Rightarrow> response \<times> 'r limiter" where
  "publicRateLimiter exec limit ip now s =
     (case ip_hit exec (''ratelimit:public:'' @ ip @ '':minute'') now s of
        ((minuteCount, minuteTTL), s') \<Rightarrow>
          (if minuteCount > limit
           then TooManyRequests [(''Retry-After'', minuteTTL)] (PerMinuteExceeded limit) minuteTTL
           else Next [(''X-RateLimit-Limit-Minute'', limit),
                      (''X-RateLimit-Remaining-Minute'', max 0 (limit - minuteCount))], s'))"

definition authIpThrottle ::
  "'r redis_exec \<Rightarrow> int \<Rightarrow> string \<Rightarrow> int \<Rightarrow> 'r limiter \<Rightarrow> response \<times> 'r limiter" where
  "authIpThrottle exec limit ip now s =
     (case ip_hit exec (''ratelimit:authip:'' @ ip @ '':minute'') now s of
        ((minuteCount, minuteTTL), s') \<Rightarrow>
          (if minuteCount > limit
           then TooManyRequests [(''Retry-After'', minuteTTL)] (PerMinuteExceeded limit) minuteTTL
           else Next [], s'))"

record api_key =
  ak_id :: nat
  ak_internal :: bool
  rateLimitPerMinute :: int
  rateLimitPerDay :: int

definition minuteKey :: "nat \<Rightarrow> string" where
  "minuteKey i = ''ratelimit:'' @ decimal i @ '':minute''"

definition dayKey :: "nat \<Rightarrow> string" where
  "dayKey i = ''ratelimit:'' @ decimal i @ '':day''"

text \<open>The two counters of an API key: both in Redis, or both in memory when either call throws.\<close>

definition key_hits ::
  "'r redis_exec \<Rightarrow> nat \<Rightarrow> int \<Rightarrow> 'r limiter \<Rightarrow> ((int \<times> int) \<times> (int \<times> int)) \<times> 'r limiter" where
  "key_hits exec i now s =
     (let in_memory = (\<lambda>s. case memory_hit (minuteKey i) 60 now s of
            (m, s1) \<Rightarrow> (case memory_hit (dayKey i) 86400 now s1 of (d, s2) \<Rightarrow> ((m, d), s2)))
      in if redis_ready s then
           (case redis_hit exec (minuteKey i) 60 now s of
              (Inl _, s1) \<Rightarrow> in_memory s1
            | (Inr m, s1) \<Rightarrow> (case redis_hit exec (dayKey i) 86400 now s1 of
                (Inl _, s2) \<Rightarrow> in_memory s2
              | (Inr d, s2) \<Rightarrow> ((m, d), s2)))
         else in_memory s)"

definition rateLimiter ::
  "'r redis_exec \<Rightarrow> api_key option \<Rightarrow> int \<Rightarrow> 'r limiter \<Rightarrow> response \<times> 'r limiter" where
  "rateLimiter exec apiKey now s =
     (case apiKey of None \<Rightarrow> (Next [], s)
      | Some k \<Rightarrow>
          if ak_internal k \<and> rateLimitPerMinute k \<ge> 999999 then (Next [], s)
          else (case key_hits exec (ak_id k) now s of
            (((minuteCount, minuteTTL), (dayCount, dayTTL)), s') \<Rightarrow>
              (if minuteCount > rateLimitPerMinute k then
                 TooManyRequests [(''X-RateLimit-Limit'', rateLimitPerMinute k), (''X-RateLimit-Remaining'', 0),
                     (''X-RateLimit-Reset'', now + minuteTTL * 1000), (''Retry-After'', minuteTTL)]
                   (PerMinuteExceeded (rateLimitPerMinute k)) minuteTTL
               else if dayCount > rateLimitPerDay k then
                 TooManyRequests [(''X-RateLimit-Limit'', rateLimitPerDay k), (''X-RateLimit-Remaining'', 0),
                     (''X-RateLimit-Reset'', now + dayTTL * 1000), (''Retry-After'', dayTTL)]
                   (DailyExceeded (rateLimitPerDay k)) dayTTL
               else Next [(''X-RateLimit-Limit-Minute'', rateLimitPerMinute k),
                     (''X-RateLimit-Remaining-Minute'', rateLimitPerMinute k - minuteCount),
                     (''X-RateLimit-Limit-Day'', rateLimitPerDay k),
                     (''X-RateLimit-Remaining-Day'', rateLimitPerDay k - dayCount)], s')))"

section \<open>Counters of the requests of a window\<close>

text \<open>
  The interface: the times of the requests per key are \<open>h\<close> (the latest first); a hit returns at
  least the number of requests of the key that are not older than its window, this one included.
\<close>

type_synonym history = "string \<Rightarrow> int list"

abbreviation recent :: "(string \<Rightarrow> int) \<Rightarrow> string \<Rightarrow> int \<Rightarrow> history \<Rightarrow> int list" where
  "recent win key now h \<equiv> filter (\<lambda>t. t + win key * 1000 > now) (h key)"

locale window_counter =
  fixes win :: "string \<Rightarrow> int"
    and hit :: "string \<Rightarrow> int \<Rightarrow> 's \<Rightarrow> int result \<times> 's"
    and rep :: "history \<Rightarrow> int \<Rightarrow> 's \<Rightarrow> bool"
  assumes counts: "rep h t s \<Longrightarrow> t \<le> now \<Longrightarrow> hit key now s = (Inr c, s') \<Longrightarrow>
      int (length (recent win key now h)) + 1 \<le> c \<and> rep (h(key := now # h key)) now s'"
    and fails: "rep h t s \<Longrightarrow> t \<le> now \<Longrightarrow> hit key now s = (Inl e, s') \<Longrightarrow> rep h now s'"
    and later: "rep h t s \<Longrightarrow> t \<le> now \<Longrightarrow> rep h now s"

text \<open>The memory is one, for windows of any length, and even counts exactly.\<close>

definition in_store :: "(string \<Rightarrow> int) \<Rightarrow> history \<Rightarrow> int \<Rightarrow> store \<Rightarrow> bool" where
  "in_store win h t st \<longleftrightarrow> (\<forall>key. (\<forall>u\<in>set (h key). u \<le> t) \<and>
     (\<forall>now\<ge>t. map resetAt (live now (entries_of st key)) =
        map (\<lambda>u. u + win key * 1000) (rev (recent win key now h))))"

lemma live_live: "t \<le> now \<Longrightarrow> live now (live t es) = live now es"
  by (induction es) (auto simp: live_def)

lemma entries_of_upd [simp]:
  "entries_of (st(key \<mapsto> es)) k = (if k = key then es else entries_of st k)"
  by (simp add: entries_of_def)

lemma length_recent: "in_store win h t st \<Longrightarrow> t \<le> now \<Longrightarrow>
    length (live now (entries_of st key)) = length (recent win key now h)"
proof -
  assume "in_store win h t st" "t \<le> now"
  then have "length (map resetAt (live now (entries_of st key))) =
      length (map (\<lambda>u. u + win key * 1000) (rev (recent win key now h)))"
    unfolding in_store_def by metis
  then show ?thesis by simp
qed

lemma increment_counts:
  assumes "in_store win h t st" "t \<le> now" "0 < win key" "increment key (win key) now st = (c, st')"
  shows "c = int (length (recent win key now h)) + 1 \<and> in_store win (h(key := now # h key)) now st'"
proof
  show "c = int (length (recent win key now h)) + 1"
    using assms(4) length_recent [OF assms(1,2), of key] by (auto simp: increment_def Let_def)
  have st': "st' = st(key \<mapsto> live now (entries_of st key) @ [\<lparr>e_count = 1, resetAt = now + win key * 1000\<rparr>])"
    using assms(4) by (simp add: increment_def Let_def)
  show "in_store win (h(key := now # h key)) now st'"
    unfolding in_store_def
  proof (intro allI conjI impI)
    fix k v
    have "\<forall>u\<in>set (h k). u \<le> t" using assms(1) by (simp add: in_store_def)
    then show "\<forall>u\<in>set ((h(key := now # h key)) k). u \<le> now"
      using assms(2) by (auto intro: order_trans)
    assume v: "now \<le> v"
    with assms(1,2) have "map resetAt (live v (entries_of st k)) =
        map (\<lambda>u. u + win k * 1000) (rev (recent win k v h))"
      by (simp add: in_store_def)
    then show "map resetAt (live v (entries_of st' k)) =
        map (\<lambda>u. u + win k * 1000) (rev (recent win k v (h(key := now # h key))))"
      using live_live [OF v, of "entries_of st key"] by (auto simp: st' live_def)
  qed
qed

lemma in_store_later: "in_store win h t st \<Longrightarrow> t \<le> now \<Longrightarrow> in_store win h now st"
  unfolding in_store_def by (meson order_trans)

lemma in_store_empty: "in_store win (\<lambda>_. []) t Map.empty"
  by (simp add: in_store_def entries_of_def live_def)

lemma entries_of_cleanup: "entries_of (cleanup t st) key = live t (entries_of st key)"
  by (auto simp: entries_of_def cleanup_def live_def split: option.splits)

lemma in_store_cleanup: "in_store win h t st \<Longrightarrow> t \<le> now \<Longrightarrow> in_store win h now (cleanup now st)"
  by (auto simp: in_store_def entries_of_cleanup live_live intro: order_trans)

end
