(* ===== verification/RateLimits.thy ===== *)
theory RateLimits imports RateLimiter begin

text \<open>
  What the rate limits promise: the Redis server as a counter, the two counters behind one
  interface, and how many requests of a client get through in any minute.
\<close>

section \<open>The counters\<close>

lemma length_filter_mono: "(\<And>x. P x \<Longrightarrow> Q x) \<Longrightarrow> length (filter P xs) \<le> length (filter Q xs)"
  by (induction xs) auto

text \<open>Every key is used with one window: a day for the keys that end in \<open>:day\<close>, else a minute.\<close>

definition window :: "string \<Rightarrow> int" where
  "window key = (if suffix '':day'' key then 86400 else 60)"

lemma window_pos [simp]: "0 < window key"
  by (simp add: window_def)

lemma window_minute [simp]: "window (xs @ '':minute'') = 60"
proof -
  have "\<not> suffix '':day'' (xs @ '':minute'')"
    using suffix_same_cases [of "'':day''" "xs @ '':minute''" "'':minute''"]
    by (auto simp: suffix_def append_eq_append_conv2 Cons_eq_append_conv)
  then show ?thesis by (simp add: window_def)
qed

lemma window_day [simp]: "window (xs @ '':day'') = 86400"
  by (simp add: window_def suffixI)

definition memory_count :: "string \<Rightarrow> int \<Rightarrow> store \<Rightarrow> int result \<times> store" where
  "memory_count key now st = (case increment key (window key) now st of (c, st') \<Rightarrow> (Inr c, st'))"

interpretation memory_counter: window_counter window memory_count "in_store window"
proof unfold_locales
  fix h t now st key c st'
  assume "in_store window h t st" "t \<le> now" "memory_count key now st = (Inr c, st')"
  then show "int (length (recent window key now h)) + 1 \<le> c \<and> in_store window (h(key := now # h key)) now st'"
    using increment_counts [of window h t st now key c st'] by (auto simp: memory_count_def split: prod.splits)
next
  show "in_store window h t st \<Longrightarrow> t \<le> now \<Longrightarrow> in_store window h now st" for h t st now
    by (rule in_store_later)
qed (auto simp: memory_count_def split: prod.splits)

text \<open>What the code relies on of Redis: INCR starts at one for a key that is missing or expired,
  EXPIRE sets the time to live anew, and a call that fails may or may not have been carried out.\<close>

definition next_count :: "(int \<times> int) option \<Rightarrow> int \<Rightarrow> int" where
  "next_count v now = (case v of Some (c, e) \<Rightarrow> if now < e then c + 1 else 1 | None \<Rightarrow> 1)"

locale redis_server =
  fixes exec :: "'r redis_exec" and stored :: "'r \<Rightarrow> string \<Rightarrow> (int \<times> int) option"
  assumes replies: "exec key (window key) now r = (Inr x, r') \<Longrightarrow>
      x = Some (next_count (stored r key) now, window key) \<and>
      stored r' = (stored r)(key \<mapsto> (next_count (stored r key) now, now + window key * 1000))"
    and rejects: "exec key (window key) now r = (Inl e, r') \<Longrightarrow> stored r' = stored r \<or>
      stored r' = (stored r)(key \<mapsto> (next_count (stored r key) now, now + window key * 1000))"

definition redis_count :: "'r redis_exec \<Rightarrow> string \<Rightarrow> int \<Rightarrow> 'r \<Rightarrow> int result \<times> 'r" where
  "redis_count exec key now r = (case exec key (window key) now r of
     (reply, r') \<Rightarrow> (await reply (\<lambda>x. Inr (fst (reply_count (window key) x))), r'))"

definition in_redis :: "('r \<Rightarrow> string \<Rightarrow> (int \<times> int) option) \<Rightarrow> history \<Rightarrow> int \<Rightarrow> 'r \<Rightarrow> bool" where
  "in_redis stored h t r \<longleftrightarrow> (\<forall>key. (\<forall>u\<in>set (h key). u \<le> t) \<and>
     (\<forall>c e. stored r key = Some (c, e) \<longrightarrow> 1 \<le> c) \<and>
     (\<forall>now\<ge>t. recent window key now h \<noteq> [] \<longrightarrow>
        (\<exists>c e. stored r key = Some (c, e) \<and> now < e \<and> int (length (recent window key now h)) \<le> c)))"

lemma in_redis_later: "in_redis stored h t r \<Longrightarrow> t \<le> now \<Longrightarrow> in_redis stored h now r"
  unfolding in_redis_def by (meson order_trans)

lemma in_redis_next:
  assumes "in_redis stored h t r" "t \<le> now"
  shows "int (length (recent window key now h)) + 1 \<le> next_count (stored r key) now"
proof (cases "recent window key now h = []")
  case True
  have "1 \<le> c" if "stored r key = Some (c, e)" for c e
    using assms(1) that unfolding in_redis_def by blast
  then show ?thesis using True by (auto simp: next_count_def split: option.splits)
next
  case False
  then obtain c e where "stored r key = Some (c, e)" "now < e" "int (length (recent window key now h)) \<le> c"
    using assms unfolding in_redis_def by meson
  then show ?thesis by (simp add: next_count_def)
qed

lemma in_redis_hit:
  assumes "in_redis stored h t r" "t \<le> now"
    and r': "stored r' = (stored r)(key \<mapsto> (next_count (stored r key) now, now + window key * 1000))"
  shows "in_redis stored (h(key := now # h key)) now r'"
  unfolding in_redis_def
proof (intro allI conjI impI)
  fix k
  have "\<forall>u\<in>set (h k). u \<le> t" using assms(1) by (simp add: in_redis_def)
  then show "\<forall>u\<in>set ((h(key := now # h key)) k). u \<le> now" using assms(2) by (auto intro: order_trans)
next
  fix k c e assume c: "stored r' k = Some (c, e)"
  have "1 \<le> c" if "stored r k = Some (c, e)" using assms(1) that unfolding in_redis_def by blast
  then show "1 \<le> c" using c in_redis_next [OF assms(1,2), of key] by (auto simp: r' split: if_splits)
next
  fix k v assume v: "now \<le> v" and some: "recent window k v (h(key := now # h key)) \<noteq> []"
  show "\<exists>c e. stored r' k = Some (c, e) \<and> v < e \<and> int (length (recent window k v (h(key := now # h key)))) \<le> c"
  proof (cases "k = key")
    case True
    have old: "\<forall>u\<in>set (h key). u \<le> t" using assms(1) by (simp add: in_redis_def)
    have "v < now + window key * 1000" using some True v old assms(2)
      by (fastforce simp: filter_empty_conv split: if_splits)
    moreover have "length (recent window key v h) \<le> length (recent window key now h)"
      using v by (intro length_filter_mono) linarith
    ultimately show ?thesis using True in_redis_next [OF assms(1,2), of key] by (simp add: r')
  next
    case False
    then show ?thesis using assms(1,2) v some unfolding in_redis_def r' by simp
  qed
qed

sublocale redis_server \<subseteq> window_counter window "redis_count exec" "in_redis stored"
proof unfold_locales
  fix h t now r key c r'
  assume rep: "in_redis stored h t r" "t \<le> now" and run: "redis_count exec key now r = (Inr c, r')"
  from run obtain x where x: "exec key (window key) now r = (Inr x, r')" "c = fst (reply_count (window key) x)"
    by (auto simp: redis_count_def result_simps split: prod.splits)
  note d = replies [OF x(1)]
  note n = in_redis_next [OF rep, of key]
  then show "int (length (recent window key now h)) + 1 \<le> c \<and> in_redis stored (h(key := now # h key)) now r'"
    using in_redis_hit [OF rep] d x(2) by (auto simp: reply_count_def)
next
  fix h t now r key e r'
  assume rep: "in_redis stored h t r" "t \<le> now" and run: "redis_count exec key now r = (Inl e, r')"
  from run have "exec key (window key) now r = (Inl e, r')"
    by (auto simp: redis_count_def result_simps split: prod.splits)
  from rejects [OF this] show "in_redis stored h now r'"
  proof
    assume "stored r' = stored r"
    then show ?thesis using in_redis_later [OF rep] by (simp add: in_redis_def)
  next
    assume "stored r' = (stored r)(key \<mapsto> (next_count (stored r key) now, now + window key * 1000))"
    note hit = in_redis_hit [OF rep this]
    show ?thesis unfolding in_redis_def
    proof (intro allI conjI impI)
      fix k
      show "\<forall>u\<in>set (h k). u \<le> now" using in_redis_later [OF rep] by (simp add: in_redis_def)
      show "1 \<le> c" if "stored r' k = Some (c, e)" for c e using hit that unfolding in_redis_def by blast
      fix v assume v: "now \<le> v" "recent window k v h \<noteq> []"
      let ?h = "h(key := now # h key)"
      have le: "length (recent window k v h) \<le> length (recent window k v ?h)" by simp
      then have "recent window k v ?h \<noteq> []" using v(2) by auto
      then obtain c e where "stored r' k = Some (c, e)" "v < e" "int (length (recent window k v ?h)) \<le> c"
        using hit v(1) unfolding in_redis_def by meson
      then show "\<exists>c e. stored r' k = Some (c, e) \<and> v < e \<and> int (length (recent window k v h)) \<le> c"
        using le by fastforce
    qed
  qed
next
  show "in_redis stored h t r \<Longrightarrow> t \<le> now \<Longrightarrow> in_redis stored h now r" for h t r now
    by (rule in_redis_later)
qed

context redis_server
begin

lemma counter: "window_counter window (redis_count exec) (in_redis stored)"
  by unfold_locales

end

text \<open>A server that does what Redis documents, to apply the theorems to.\<close>

type_synonym redis_keys = "string \<Rightarrow> (int \<times> int) option"

definition redis_exec :: "redis_keys redis_exec" where
  "redis_exec key seconds now r = (let c = next_count (r key) now in
     (Inr (Some (c, seconds)), r(key \<mapsto> (c, now + seconds * 1000))))"

interpretation documented_redis: redis_server redis_exec "\<lambda>r. r"
  by unfold_locales (auto simp: redis_exec_def Let_def)

section \<open>How many requests a counter lets through\<close>

text \<open>The hits of a key, the latest first, each with the count it got.\<close>

fun counted :: "int \<Rightarrow> (int \<times> int) list \<Rightarrow> bool" where
  "counted w [] = True"
| "counted w ((t, c) # hits) = (int (length (filter (\<lambda>(u, _). u + w > t) hits)) + 1 \<le> c \<and> counted w hits)"

definition admitted :: "int \<Rightarrow> int \<Rightarrow> int \<Rightarrow> (int \<times> int) list \<Rightarrow> int" where
  "admitted w limit T hits = int (length (filter (\<lambda>(t, c). T - w < t \<and> t \<le> T \<and> c \<le> limit) hits))"

lemma admitted_limit: "counted w hits \<Longrightarrow> 0 \<le> limit \<Longrightarrow> admitted w limit T hits \<le> limit"
proof (induction hits)
  case (Cons hit hits)
  obtain t c where hit: "hit = (t, c)" by fastforce
  show ?case
  proof (cases "T - w < t \<and> t \<le> T \<and> c \<le> limit")
    case True
    have "length (filter (\<lambda>(u, c). T - w < u \<and> u \<le> T \<and> c \<le> limit) hits) \<le>
        length (filter (\<lambda>(u, _). u + w > t) hits)"
      using True by (intro length_filter_mono) auto
    moreover have "int (length (filter (\<lambda>(u, _). u + w > t) hits)) + 1 \<le> limit"
      using Cons.prems(1) True hit by simp
    ultimately show ?thesis using True hit by (simp add: admitted_def)
  qed (use Cons hit in \<open>auto simp: admitted_def\<close>)
qed (simp add: admitted_def)

type_synonym hit_log = "string \<Rightarrow> (int \<times> int) list"

definition logged :: "(history \<Rightarrow> int \<Rightarrow> 's \<Rightarrow> bool) \<Rightarrow> hit_log \<Rightarrow> int \<Rightarrow> 's \<Rightarrow> bool" where
  "logged rep hl t s \<longleftrightarrow> rep (\<lambda>k. map fst (hl k)) t s \<and> (\<forall>k. counted (window k * 1000) (hl k))"

lemma logged_admits:
  "logged rep hl t s \<Longrightarrow> 0 \<le> limit \<Longrightarrow> window key * 1000 = w \<Longrightarrow> admitted w limit T (hl key) \<le> limit"
  using admitted_limit by (auto simp: logged_def)

lemma logged_hit:
  assumes "window_counter window hit rep" "logged rep hl t s" "t \<le> now" "hit key now s = (Inr c, s')"
  shows "logged rep (hl(key := (now, c) # hl key)) now s'"
proof -
  let ?h = "\<lambda>k. map fst (hl k)"
  have rep: "rep ?h t s" using assms(2) by (simp add: logged_def)
  note c = window_counter.counts [OF assms(1) rep assms(3,4)]
  have h: "(\<lambda>k. map fst ((hl(key := (now, c) # hl key)) k)) = ?h(key := now # ?h key)" by auto
  have "length (recent window key now ?h) = length (filter (\<lambda>(u, _). u + window key * 1000 > now) (hl key))"
    by (simp add: filter_map comp_def case_prod_unfold)
  moreover have "rep (\<lambda>k. map fst ((hl(key := (now, c) # hl key)) k)) now s'" unfolding h using c by blast
  ultimately show ?thesis using assms(2) c by (simp add: logged_def)
qed

lemma logged_failed:
  "window_counter window hit rep \<Longrightarrow> logged rep hl t s \<Longrightarrow> t \<le> now \<Longrightarrow> hit key now s = (Inl e, s') \<Longrightarrow>
   logged rep hl now s'"
  using window_counter.fails by (fastforce simp: logged_def)

lemma logged_later:
  "window_counter window hit rep \<Longrightarrow> logged rep hl t s \<Longrightarrow> t \<le> now \<Longrightarrow> logged rep hl now s"
  using window_counter.later by (fastforce simp: logged_def)

section \<open>The limits per client address\<close>

type_synonym 'r middleware = "string \<Rightarrow> int \<Rightarrow> 'r limiter \<Rightarrow> response \<times> 'r limiter"

fun passed :: "response \<Rightarrow> bool" where
  "passed (Next _) = True"
| "passed (TooManyRequests _ _ _) = False"

text \<open>Requests of any addresses, changes of the connection to Redis and the periodic cleanup, in any
  order; the log holds the answers, the latest first.\<close>

inductive serving :: "'r middleware \<Rightarrow> 'r limiter \<Rightarrow> (string \<times> int \<times> response) list \<Rightarrow> int \<Rightarrow> 'r limiter \<Rightarrow> bool"
  for handler s0 where
  up: "serving handler s0 [] t s0"
| request: "serving handler s0 as t s \<Longrightarrow> t \<le> now \<Longrightarrow> handler ip now s = (a, s') \<Longrightarrow>
    serving handler s0 ((ip, now, a) # as) now s'"
| connection: "serving handler s0 as t s \<Longrightarrow> serving handler s0 as t (s\<lparr>redisConnected := b\<rparr>)"
| cleaning: "serving handler s0 as t s \<Longrightarrow> t \<le> now \<Longrightarrow>
    serving handler s0 as now (s\<lparr>memoryLimiter := cleanup now (memoryLimiter s)\<rparr>)"

text \<open>A middleware that lets a request through when the count of its key is within the limit.\<close>

definition limits_by :: "'r redis_exec \<Rightarrow> int \<Rightarrow> (string \<Rightarrow> string) \<Rightarrow> 'r middleware \<Rightarrow> bool" where
  "limits_by exec limit key handler \<longleftrightarrow> (\<forall>ip now s a s'. handler ip now s = (a, s') \<longrightarrow>
     window (key ip) = 60 \<and>
     (\<exists>c x. ip_hit exec (key ip) now s = ((c, x), s') \<and> (passed a \<longleftrightarrow> c \<le> limit)))"

lemma ip_middlewares:
  "limits_by exec limit (\<lambda>ip. ''ratelimit:public:'' @ ip @ '':minute'') (publicRateLimiter exec limit)"
  "limits_by exec limit (\<lambda>ip. ''ratelimit:authip:'' @ ip @ '':minute'') (authIpThrottle exec limit)"
  unfolding limits_by_def publicRateLimiter_def authIpThrottle_def
  using window_minute [of "''ratelimit:public:'' @ ip" for ip]
    window_minute [of "''ratelimit:authip:'' @ ip" for ip]
  by (auto split: prod.splits)

lemma ip_hit_cases:
  assumes "ip_hit exec key now s = ((c, x), s')" "window key = 60"
  obtains (redis) r r' where "redisClient s = Some r" "redis_count exec key now r = (Inr c, r')"
      "s' = s\<lparr>redisClient := Some r'\<rparr>"
  | (fallback) r r' e st where "redisClient s = Some r" "redis_count exec key now r = (Inl e, r')"
      "memory_count key now (memoryLimiter s) = (Inr c, st)"
      "s' = s\<lparr>redisClient := Some r', memoryLimiter := st\<rparr>"
  | (memory) st where "memory_count key now (memoryLimiter s) = (Inr c, st)" "s' = s\<lparr>memoryLimiter := st\<rparr>"
proof (cases "redis_ready s")
  case False
  then show thesis using assms memory
    by (auto simp: ip_hit_def memory_hit_def memory_count_def split: prod.splits)
next
  case True
  then obtain r where r: "redisClient s = Some r" by (auto simp: redis_ready_def)
  obtain reply r' where x: "exec key 60 now r = (reply, r')" by fastforce
  show thesis
  proof (cases reply)
    case (Inl e)
    then show thesis using assms fallback [OF r] r x True
      by (auto simp: ip_hit_def redis_hit_def memory_hit_def memory_count_def redis_count_def split: prod.splits)
  next
    case (Inr y)
    then show thesis using assms redis [OF r] r x True
      by (auto simp: ip_hit_def redis_hit_def redis_count_def split: prod.splits)
  qed
qed

definition let_through :: "string \<Rightarrow> int \<Rightarrow> (string \<times> int \<times> response) list \<Rightarrow> int" where
  "let_through ip T as = int (length (filter (\<lambda>(who, u, a). who = ip \<and> passed a \<and>
     T - 60 * 1000 < u \<and> u \<le> T) as))"

text \<open>Every answer that let a request through is one of the admitted hits of a counter.\<close>

definition accounted :: "('r \<Rightarrow> string \<Rightarrow> (int \<times> int) option) \<Rightarrow> int \<Rightarrow> (string \<Rightarrow> string) \<Rightarrow>
    (string \<times> int \<times> response) list \<Rightarrow> int \<Rightarrow> 'r limiter \<Rightarrow> hit_log \<Rightarrow> hit_log \<Rightarrow> bool" where
  "accounted stored limit key as t s ml rl \<longleftrightarrow> logged (in_store window) ml t (memoryLimiter s) \<and>
     (case redisClient s of None \<Rightarrow> \<forall>k. rl k = [] | Some r \<Rightarrow> logged (in_redis stored) rl t r) \<and>
     (\<forall>ip T. let_through ip T as \<le> admitted (60 * 1000) limit T (ml (key ip)) + admitted (60 * 1000) limit T (rl (key ip)))"

lemma admitted_Cons:
  "admitted w limit T ((t, c) # hits) =
     (if T - w < t \<and> t \<le> T \<and> c \<le> limit then 1 else 0) + admitted w limit T hits"
  by (simp add: admitted_def)

lemma let_through_Cons:
  "let_through ip' T ((ip, now, a) # as) =
     (if ip = ip' \<and> passed a \<and> T - 60 * 1000 < now \<and> now \<le> T then 1 else 0) + let_through ip' T as"
  by (simp add: let_through_def)

lemma let_through_hit:
  assumes "let_through ip' T as \<le> admitted (60 * 1000) limit T (l (key ip')) + x" "passed a \<longleftrightarrow> c \<le> limit"
  shows "let_through ip' T ((ip, now, a) # as) \<le>
    admitted (60 * 1000) limit T ((l(key ip := (now, c) # l (key ip))) (key ip')) + x"
  using assms by (auto simp: let_through_Cons admitted_Cons)

lemma request_accounted:
  assumes redis: "redis_server exec stored" and h: "limits_by exec limit key handler"
    and acc: "accounted stored limit key as t s ml rl" and "t \<le> now"
    and run: "handler ip now s = (a, s')"
  shows "\<exists>ml' rl'. accounted stored limit key ((ip, now, a) # as) now s' ml' rl'"
proof -
  note R = redis_server.counter [OF redis] and M = memory_counter.window_counter_axioms
  from acc have m: "logged (in_store window) ml t (memoryLimiter s)"
    and r: "case redisClient s of None \<Rightarrow> \<forall>k. rl k = [] | Some r \<Rightarrow> logged (in_redis stored) rl t r"
    and n: "\<And>ip T. let_through ip T as \<le>
      admitted (60 * 1000) limit T (ml (key ip)) + admitted (60 * 1000) limit T (rl (key ip))"
    by (simp_all add: accounted_def)
  have n': "let_through ip T as \<le>
      admitted (60 * 1000) limit T (rl (key ip)) + admitted (60 * 1000) limit T (ml (key ip))" for ip T
    using n by (simp add: add.commute)
  obtain c x where hit: "ip_hit exec (key ip) now s = ((c, x), s')" "window (key ip) = 60"
    and pass: "passed a \<longleftrightarrow> c \<le> limit"
    using h run unfolding limits_by_def by blast
  let ?push = "\<lambda>l. l(key ip := (now, c) # l (key ip))"
  from hit show ?thesis
  proof (cases rule: ip_hit_cases)
    case (redis r0 r')
    have "logged (in_redis stored) rl t r0" using r redis(1) by simp
    from logged_hit [OF R this \<open>t \<le> now\<close> redis(2)] have "logged (in_redis stored) (?push rl) now r'" .
    then have "accounted stored limit key ((ip, now, a) # as) now s' ml (?push rl)"
      using logged_later [OF M m \<open>t \<le> now\<close>] let_through_hit [where key = key and l = rl, OF n' pass] redis(3)
      by (simp add: accounted_def add.commute)
    then show ?thesis by blast
  next
    case (fallback r0 r' e st)
    have "logged (in_redis stored) rl t r0" using r fallback(1) by simp
    from logged_failed [OF R this \<open>t \<le> now\<close> fallback(2)] have "logged (in_redis stored) rl now r'" .
    moreover from logged_hit [OF M m \<open>t \<le> now\<close> fallback(3)] have "logged (in_store window) (?push ml) now st" .
    ultimately have "accounted stored limit key ((ip, now, a) # as) now s' (?push ml) rl"
      using let_through_hit [where key = key and l = ml, OF n pass] fallback(4) by (simp add: accounted_def)
    then show ?thesis by blast
  next
    case (memory st)
    from logged_hit [OF M m \<open>t \<le> now\<close> memory(1)] have "logged (in_store window) (?push ml) now st" .
    moreover have "case redisClient s of None \<Rightarrow> \<forall>k. rl k = [] | Some r \<Rightarrow> logged (in_redis stored) rl now r"
      using r logged_later [OF R _ \<open>t \<le> now\<close>] by (auto split: option.splits)
    ultimately have "accounted stored limit key ((ip, now, a) # as) now s' (?push ml) rl"
      using let_through_hit [where key = key and l = ml, OF n pass] memory(2) by (simp add: accounted_def)
    then show ?thesis by blast
  qed
qed

lemma serving_accounted:
  assumes "serving handler s0 as t s" and redis: "redis_server exec stored"
    and h: "limits_by exec limit key handler"
    and start: "memoryLimiter s0 = Map.empty" "\<And>r. redisClient s0 = Some r \<Longrightarrow> stored r = Map.empty"
  shows "\<exists>ml rl. accounted stored limit key as t s ml rl"
  using assms(1)
proof (induction rule: serving.induct)
  case (up t)
  have "in_redis stored (\<lambda>_. []) t r" if "redisClient s0 = Some r" for r
    using start(2) [OF that] by (simp add: in_redis_def)
  then have "accounted stored limit key [] t s0 (\<lambda>_. []) (\<lambda>_. [])"
    using start(1) in_store_empty by (auto simp: accounted_def logged_def let_through_def admitted_def split: option.splits)
  then show ?case by blast
next
  case (request as t s now ip a s')
  then show ?case using request_accounted [OF redis h] by blast
next
  case (connection as t s b)
  then show ?case by (auto simp: accounted_def)
next
  case (cleaning as t s now)
  then obtain ml rl where acc: "accounted stored limit key as t s ml rl" by blast
  note M = memory_counter.window_counter_axioms and R = redis_server.counter [OF redis]
  have "logged (in_store window) ml now (cleanup now (memoryLimiter s))"
    using acc in_store_cleanup \<open>t \<le> now\<close> by (auto simp: accounted_def logged_def)
  moreover have "case redisClient s of None \<Rightarrow> \<forall>k. rl k = [] | Some r \<Rightarrow> logged (in_redis stored) rl now r"
    using acc logged_later [OF R _ \<open>t \<le> now\<close>] by (auto simp: accounted_def split: option.splits)
  ultimately have "accounted stored limit key as now (s\<lparr>memoryLimiter := cleanup now (memoryLimiter s)\<rparr>) ml rl"
    using acc by (simp add: accounted_def)
  then show ?case by blast
qed

lemma serving_limited:
  assumes run: "serving handler s0 as t s" and redis: "redis_server exec stored"
    and h: "limits_by exec limit key handler" and "0 \<le> limit"
    and start: "memoryLimiter s0 = Map.empty" "\<And>r. redisClient s0 = Some r \<Longrightarrow> stored r = Map.empty"
  shows "let_through ip T as \<le> (if redisClient s = None then limit else 2 * limit)"
proof -
  obtain ml rl where acc: "accounted stored limit key as t s ml rl"
    using serving_accounted [OF run redis h start] by blast
  have key: "window (key ip) * 1000 = 60 * 1000"
    using h unfolding limits_by_def by (metis prod.collapse)
  have m: "admitted (60 * 1000) limit T (ml (key ip)) \<le> limit"
    using acc logged_admits [OF _ \<open>0 \<le> limit\<close> key] by (auto simp: accounted_def)
  have le: "let_through ip T as \<le>
      admitted (60 * 1000) limit T (ml (key ip)) + admitted (60 * 1000) limit T (rl (key ip))"
    using acc by (simp add: accounted_def)
  show ?thesis
  proof (cases "redisClient s")
    case None
    then have "admitted (60 * 1000) limit T (rl (key ip)) = 0" using acc by (simp add: accounted_def admitted_def)
    then show ?thesis using le m None by simp
  next
    case (Some r)
    then have "admitted (60 * 1000) limit T (rl (key ip)) \<le> limit"
      using acc logged_admits [OF _ \<open>0 \<le> limit\<close> key] by (auto simp: accounted_def)
    then show ?thesis using le m Some by simp
  qed
qed

text \<open>C30: In any run of requests of any addresses, losses and returns of the connection to Redis and
  cleanups, the public endpoints and the guard before the authentication let through at most
  \<open>limit\<close> requests of an address in any minute when there is no Redis client, and at most twice as
  many when the counting can change between Redis and the memory.\<close>

theorem ip_requests_limited:
  assumes "redis_server exec stored" and "0 \<le> limit"
    and "handler = publicRateLimiter exec limit \<or> handler = authIpThrottle exec limit"
    and "memoryLimiter s0 = Map.empty" and "\<And>r. redisClient s0 = Some r \<Longrightarrow> stored r = Map.empty"
    and "serving handler s0 as t s"
  shows "let_through ip T as \<le> (if redisClient s = None then limit else 2 * limit)"
proof -
  obtain key where "limits_by exec limit key handler" using assms(3) ip_middlewares by metis
  from serving_limited [OF assms(6,1) this assms(2,4,5)] show ?thesis .
qed

section \<open>The limits of an API key\<close>

lemma key_windows [simp]: "window (minuteKey i) = 60" "window (dayKey i) = 86400"
  using window_minute [of "''ratelimit:'' @ decimal i"] window_day [of "''ratelimit:'' @ decimal i"]
  by (simp_all add: minuteKey_def dayKey_def)

lemma keys_differ: "minuteKey i \<noteq> dayKey i"
proof
  assume "minuteKey i = dayKey i"
  then have "window (minuteKey i) = window (dayKey i)" by simp
  then show False by simp
qed

lemma memory_hit_counts:
  assumes "in_store window h t (memoryLimiter s)" "t \<le> now" "memory_hit key (window key) now s = ((c, x), s')"
  shows "c = int (length (recent window key now h)) + 1"
    and "in_store window (h(key := now # h key)) now (memoryLimiter s')"
  using increment_counts [OF assms(1,2) window_pos] assms(3)
  by (auto simp: memory_hit_def split: prod.splits)

text \<open>Without Redis an API key's request is let through exactly when, this request included, at
  most \<open>rateLimitPerMinute\<close> requests of the key came in the last minute and at most
  \<open>rateLimitPerDay\<close> in the last day; the headers then tell what is left of both, and the request is
  counted in both windows whether it is let through or not.\<close>

theorem key_limits_exact:
  assumes "in_store window h t (memoryLimiter s)" and "t \<le> now" and "\<not> redis_ready s"
    and "\<not> (ak_internal k \<and> rateLimitPerMinute k \<ge> 999999)"
    and "m = int (length (recent window (minuteKey (ak_id k)) now h)) + 1"
    and "d = int (length (recent window (dayKey (ak_id k)) now h)) + 1"
    and "rateLimiter exec (Some k) now s = (a, s')"
  shows "(passed a \<longleftrightarrow> m \<le> rateLimitPerMinute k \<and> d \<le> rateLimitPerDay k) \<and>
    (passed a \<longrightarrow> a = Next [(''X-RateLimit-Limit-Minute'', rateLimitPerMinute k),
       (''X-RateLimit-Remaining-Minute'', rateLimitPerMinute k - m),
       (''X-RateLimit-Limit-Day'', rateLimitPerDay k), (''X-RateLimit-Remaining-Day'', rateLimitPerDay k - d)]) \<and>
    in_store window (h(minuteKey (ak_id k) := now # h (minuteKey (ak_id k)),
       dayKey (ak_id k) := now # h (dayKey (ak_id k)))) now (memoryLimiter s')"
proof -
  let ?m = "minuteKey (ak_id k)" and ?d = "dayKey (ak_id k)"
  obtain m' x s1 where m': "memory_hit ?m (window ?m) now s = ((m', x), s1)" by (metis prod.collapse)
  obtain d' y s2 where d': "memory_hit ?d (window ?d) now s1 = ((d', y), s2)" by (metis prod.collapse)
  note one = memory_hit_counts [OF assms(1,2) m']
  note two = memory_hit_counts [OF one(2) order_refl d']
  have "key_hits exec (ak_id k) now s = (((m', x), (d', y)), s2)"
    using m' d' assms(3) by (simp add: key_hits_def)
  moreover have "m' = m" "d' = d" using one(1) two(1) assms(5,6) keys_differ [of "ak_id k"] by simp_all
  moreover have "in_store window (h(?m := now # h ?m, ?d := now # h ?d)) now (memoryLimiter s2)"
    using two(2) keys_differ [of "ak_id k"] by simp
  ultimately show ?thesis using assms(4,7) by (auto simp: rateLimiter_def split: if_splits)
qed

section \<open>Retry-After\<close>

lemma ttl_bounds:
  assumes "0 < w" "increment key w now st = (c, st')"
  shows "1 \<le> ttl key now st' \<and> ttl key now st' \<le> w"
proof -
  let ?es = "live now (entries_of st' key)"
  have es: "?es = live now (entries_of st key) @ [\<lparr>e_count = 1, resetAt = now + w * 1000\<rparr>]"
    using assms by (auto simp: increment_def Let_def live_def)
  define e where "e = Min (set (map resetAt ?es))"
  have "e \<in> set (map resetAt ?es)" unfolding e_def by (rule Min_in) (use es in auto)
  then have "now < e" by (auto simp: live_def)
  moreover have "e \<le> now + w * 1000" unfolding e_def by (rule Min_le) (use es in auto)
  moreover have "ttl key now st' = ceil_div (e - now) 1000" using es by (simp add: ttl_def e_def)
  ultimately show ?thesis unfolding ceil_div_def by linarith
qed

text \<open>A request that the memory's count rejects is told to come back after at least one second and
  at most the length of the window: a minute, or a day when the daily limit is exceeded.\<close>

theorem retry_after_bounded:
  assumes "\<not> redis_ready s" and "rateLimiter exec (Some k) now s = (TooManyRequests headers b x, s')"
  shows "1 \<le> x \<and> x \<le> (case b of PerMinuteExceeded _ \<Rightarrow> 60 | DailyExceeded _ \<Rightarrow> 86400) \<and>
    (''Retry-After'', x) \<in> set headers"
proof -
  have bounds: "1 \<le> x' \<and> x' \<le> w" if "memory_hit key w now s1 = ((c, x'), s2)" "0 < w" for key w s1 c x' s2
    using that ttl_bounds [OF that(2), of key now "memoryLimiter s1"]
    by (auto simp: memory_hit_def split: prod.splits)
  obtain m x1 s1 where m: "memory_hit (minuteKey (ak_id k)) 60 now s = ((m, x1), s1)" by (metis prod.collapse)
  obtain d x2 s2 where d: "memory_hit (dayKey (ak_id k)) 86400 now s1 = ((d, x2), s2)" by (metis prod.collapse)
  have "key_hits exec (ak_id k) now s = (((m, x1), (d, x2)), s2)"
    using m d assms(1) by (simp add: key_hits_def)
  then show ?thesis using assms(2) bounds [OF m] bounds [OF d]
    by (auto simp: rateLimiter_def split: if_splits)
qed

section \<open>A steady client\<close>

fun steady :: "int list \<Rightarrow> bool" where
  "steady (t # u # ts) \<longleftrightarrow> u - t < 60 * 1000 \<and> steady (u # ts)"
| "steady _ \<longleftrightarrow> True"

primrec answers :: "'r middleware \<Rightarrow> string \<Rightarrow> int list \<Rightarrow> 'r limiter \<Rightarrow> response list" where
  "answers handler ip [] s = []"
| "answers handler ip (t # ts) s = (case handler ip t s of (a, s') \<Rightarrow> a # answers handler ip ts s')"

lemma steady_counts:
  assumes redis: "redis_server exec stored"
    and answers: "\<And>key seconds now r. \<exists>x r'. exec key seconds now r = (Inr x, r')"
    and "steady ts" "redisConnected s" "redisClient s = Some r" "0 \<le> c"
    and "ts \<noteq> [] \<Longrightarrow> next_count (stored r (''ratelimit:public:'' @ ip @ '':minute'')) (hd ts) = c + 1"
  shows "map passed (answers (publicRateLimiter exec limit) ip ts s) =
    map (\<lambda>i. c + int i + 1 \<le> limit) [0..<length ts]"
  using assms(3-7)
proof (induction ts arbitrary: s r c)
  case (Cons t ts)
  let ?key = "''ratelimit:public:'' @ ip @ '':minute''"
  have w: "window ?key = 60" using window_minute [of "''ratelimit:public:'' @ ip"] by simp
  obtain x r' where x: "exec ?key 60 t r = (Inr x, r')" using answers by blast
  have d: "x = Some (c + 1, 60)" "stored r' ?key = Some (c + 1, t + 60 * 1000)"
    using redis_server.replies [OF redis, of ?key t r x r'] x w Cons.prems(5) by simp_all
  define s1 where "s1 = s\<lparr>redisClient := Some r'\<rparr>"
  have hit: "ip_hit exec ?key t s = ((c + 1, 60), s1)"
    using x d(1) Cons.prems(2-4) by (simp add: ip_hit_def redis_ready_def redis_hit_def reply_count_def s1_def)
  then obtain a where a: "publicRateLimiter exec limit ip t s = (a, s1)" "passed a \<longleftrightarrow> c + 1 \<le> limit"
    by (auto simp: publicRateLimiter_def)
  have rest: "map passed (answers (publicRateLimiter exec limit) ip ts s1) =
      map (\<lambda>i. (c + 1) + int i + 1 \<le> limit) [0..<length ts]"
  proof (rule Cons.IH)
    show "steady ts" using Cons.prems(1) by (cases ts) auto
    show "next_count (stored r' ?key) (hd ts) = (c + 1) + 1" if "ts \<noteq> []"
      using that Cons.prems(1) d(2) by (cases ts) (auto simp: next_count_def)
  qed (use Cons.prems in \<open>simp_all add: s1_def\<close>)
  have "[0..<length (t # ts)] = 0 # map Suc [0..<length ts]"
    by (simp add: map_Suc_upt upt_conv_Cons del: upt_Suc)
  then show ?case using a rest by (simp add: comp_def algebra_simps del: upt_Suc)
qed simp

text \<open>C36: With Redis the window does not slide: every request sets the time to live anew. A client
  that leaves less than a minute between its requests is let through exactly \<open>limit\<close> times and
  then never again, however few requests it sends per minute.\<close>

theorem redis_blocks_steady_client:
  assumes "redis_server exec stored"
    and "\<And>key seconds now r. \<exists>x r'. exec key seconds now r = (Inr x, r')"
    and "redisConnected s" and "redisClient s = Some r" and "stored r = Map.empty" and "steady ts"
  shows "map passed (answers (publicRateLimiter exec limit) ip ts s) =
    map (\<lambda>i. int i < limit) [0..<length ts]"
proof -
  have "map passed (answers (publicRateLimiter exec limit) ip ts s) =
      map (\<lambda>i. 0 + int i + 1 \<le> limit) [0..<length ts]"
    by (rule steady_counts [OF assms(1,2,6,3,4)]) (simp_all add: assms(5) next_count_def)
  also have "\<dots> = map (\<lambda>i. int i < limit) [0..<length ts]" by (rule map_cong) auto
  finally show ?thesis .
qed

section \<open>The theorems on small runs\<close>

definition fresh :: "redis_keys limiter" where
  "fresh = \<lparr>redisClient = Some Map.empty, redisConnected = True, memoryLimiter = Map.empty\<rparr>"

definition offline :: "redis_keys limiter" where
  "offline = \<lparr>redisClient = None, redisConnected = False, memoryLimiter = Map.empty\<rparr>"

definition sample_key :: api_key where
  "sample_key = \<lparr>ak_id = 17, ak_internal = False, rateLimitPerMinute = 2, rateLimitPerDay = 10\<rparr>"

lemmas documented = documented_redis.redis_server_axioms

lemma ip_requests_limited_witness:
  "\<exists>a s1 b s2 c s3. publicRateLimiter redis_exec 1 ''10.0.0.1'' 0 fresh = (a, s1) \<and>
     publicRateLimiter redis_exec 1 ''10.0.0.1'' 5 (s1\<lparr>redisConnected := False\<rparr>) = (b, s2) \<and>
     publicRateLimiter redis_exec 1 ''10.0.0.1'' 9 s2 = (c, s3) \<and>
     let_through ''10.0.0.1'' 9 [(''10.0.0.1'', 9, c), (''10.0.0.1'', 5, b), (''10.0.0.1'', 0, a)] \<le> 2"
proof -
  let ?h = "publicRateLimiter redis_exec 1" and ?ip = "''10.0.0.1''"
  obtain a s1 where 1: "?h ?ip 0 fresh = (a, s1)" by fastforce
  obtain b s2 where 2: "?h ?ip 5 (s1\<lparr>redisConnected := False\<rparr>) = (b, s2)" by fastforce
  obtain c s3 where 3: "?h ?ip 9 s2 = (c, s3)" by fastforce
  have "serving ?h fresh [(?ip, 0, a)] 0 s1" by (rule serving.request [where handler = ?h, OF serving.up order_refl 1])
  from serving.connection [OF this, of False]
  have "serving ?h fresh [(?ip, 5, b), (?ip, 0, a)] 5 s2" by (rule serving.request [where handler = ?h, OF _ _ 2]) simp
  then have run: "serving ?h fresh [(?ip, 9, c), (?ip, 5, b), (?ip, 0, a)] 9 s3"
    by (rule serving.request [where handler = ?h, OF _ _ 3]) simp
  have "let_through ?ip 9 [(?ip, 9, c), (?ip, 5, b), (?ip, 0, a)] \<le>
      (if redisClient s3 = None then 1 else 2 * 1)"
    by (rule ip_requests_limited [OF documented _ _ _ _ run]) (simp_all add: fresh_def)
  also have "\<dots> \<le> 2" by simp
  finally have "let_through ?ip 9 [(?ip, 9, c), (?ip, 5, b), (?ip, 0, a)] \<le> 2" .
  with 1 2 3 show ?thesis by blast
qed

lemma key_limits_exact_witness:
  "fst (rateLimiter redis_exec (Some sample_key) 5 offline) =
     Next [(''X-RateLimit-Limit-Minute'', 2), (''X-RateLimit-Remaining-Minute'', 1),
       (''X-RateLimit-Limit-Day'', 10), (''X-RateLimit-Remaining-Day'', 9)]"
proof -
  obtain a s' where run: "rateLimiter redis_exec (Some sample_key) 5 offline = (a, s')" by fastforce
  have "in_store window (\<lambda>_. []) 0 (memoryLimiter offline)" by (simp add: offline_def in_store_empty)
  from key_limits_exact [OF this _ _ _ refl refl run] show ?thesis
    using run by (simp add: offline_def sample_key_def redis_ready_def)
qed

lemma retry_after_bounded_witness:
  "\<exists>headers b x. fst (rateLimiter redis_exec (Some (sample_key\<lparr>rateLimitPerDay := 0\<rparr>)) 5 offline) =
     TooManyRequests headers b x \<and> 1 \<le> x \<and> x \<le> 86400 \<and> (''Retry-After'', x) \<in> set headers"
proof -
  obtain a s' where run: "rateLimiter redis_exec (Some (sample_key\<lparr>rateLimitPerDay := 0\<rparr>)) 5 offline = (a, s')"
    by fastforce
  have "\<not> passed (fst (rateLimiter redis_exec (Some (sample_key\<lparr>rateLimitPerDay := 0\<rparr>)) 5 offline))"
    by code_simp
  then obtain headers b x where a: "a = TooManyRequests headers b x" using run by (cases a) auto
  have "\<not> redis_ready offline" by (simp add: offline_def redis_ready_def)
  from retry_after_bounded [OF this run [unfolded a]] show ?thesis
    using run a by (cases b) auto
qed

lemma redis_blocks_steady_client_witness:
  "map passed (answers (publicRateLimiter redis_exec 2) ''10.0.0.1'' [0, 50000, 100000, 150000] fresh) =
     [True, True, False, False]"
proof -
  have "steady [0, 50000, 100000, 150000]" by simp
  moreover have "\<exists>x r'. redis_exec key seconds now r = (Inr x, r')" for key seconds now r
    by (simp add: redis_exec_def Let_def)
  ultimately show ?thesis
    using redis_blocks_steady_client [OF documented, of fresh Map.empty "[0, 50000, 100000, 150000]" 2 "''10.0.0.1''"]
    by (simp add: fresh_def upt_rec)
qed

end
