(* ===== verification/ApiKeys.thy ===== *)
theory ApiKeys imports RateLimiter begin

text \<open>
  The keys of the REST API: src/db/express/src/middleware/authenticate.ts checks the key of a
  request, src/db/express/src/utils/keygen.ts is the tool that manages the table \<open>api_keys\<close>.

  bcrypt, the parsers \<open>JSON.parse\<close> and \<open>JSON.stringify\<close> of a list of strings, and \<open>new URL\<close>
  (of which the code uses the protocol and the host) are parameters: the record \<open>platform\<close>. The
  table is a list of rows in the order in which \<open>findAll\<close> gives them, with its id sequence. The two
  random UUIDs of a new key and bcrypt's salt are arguments. keygen is run while the database
  answers, and a salted hash is new, so the insertion of a key does not fail.
\<close>

section \<open>The table\<close>

datatype KeyType = Internal | External

record api_keys =
  key_id :: nat
  key_hash :: string
  key_label :: string
  key_type :: KeyType
  allowed_origins :: "string option"
  rate_limit_per_minute :: "int option"
  rate_limit_per_day :: "int option"
  enabled :: bool
  last_used_at :: "int option"

record key_table =
  key_rows :: "api_keys list"
  next_key_id :: nat

record platform =
  bcrypt_hash :: "string \<Rightarrow> string \<Rightarrow> string"
  bcrypt_compare :: "string \<Rightarrow> string \<Rightarrow> bool result"
  json_parse :: "string \<Rightarrow> string list option"
  json_stringify :: "string list \<Rightarrow> string"
  parse_url :: "string \<Rightarrow> (string \<times> string) option"

section \<open>authenticate\<close>

record request_headers =
  authorization :: "string option"
  x_api_key :: "string option"
  origin_header :: "string option"
  referer_header :: "string option"

datatype auth_response = Authenticated api_key | Denied int string

definition extractKey :: "request_headers \<Rightarrow> string option" where
  "extractKey req =
     (case truthy (authorization req) of
        Some h \<Rightarrow> if startsWith h ''Bearer '' then truthy (Some (drop 7 h)) else truthy (x_api_key req)
      | None \<Rightarrow> truthy (x_api_key req))"

fun findKey :: "platform \<Rightarrow> string \<Rightarrow> api_keys list \<Rightarrow> api_keys option result" where
  "findKey p apiKey [] = Inr None"
| "findKey p apiKey (key # keys) =
     await (bcrypt_compare p apiKey (key_hash key))
       (\<lambda>isMatch. if isMatch then Inr (Some key) else findKey p apiKey keys)"

definition sameOrigin :: "platform \<Rightarrow> string \<Rightarrow> string \<Rightarrow> bool" where
  "sameOrigin p origin allowed =
     (case parse_url p origin of None \<Rightarrow> False
      | Some u \<Rightarrow> (case parse_url p allowed of None \<Rightarrow> False | Some v \<Rightarrow> u = v))"

text \<open>What an internal key demands of the request: \<open>None\<close> when it is met.\<close>

definition checkOrigin :: "platform \<Rightarrow> request_headers \<Rightarrow> api_keys \<Rightarrow> auth_response option" where
  "checkOrigin p req key =
     (if key_type key \<noteq> Internal then None
      else case (case truthy (origin_header req) of Some origin \<Rightarrow> Some origin
          | None \<Rightarrow> truthy (referer_header req)) of
        None \<Rightarrow> Some (Denied 403 ''Internal API keys require an Origin or Referer header'')
      | Some origin \<Rightarrow>
          (case (case truthy (allowed_origins key) of None \<Rightarrow> Some [] | Some s \<Rightarrow> json_parse p s) of
             None \<Rightarrow> Some (Denied 500 ''Configuration error with API key'')
           | Some allowedOrigins \<Rightarrow>
               if list_ex (sameOrigin p origin) allowedOrigins then None
               else Some (Denied 403 ''Origin not allowed for this API key'')))"

definition touch :: "nat \<Rightarrow> int \<Rightarrow> api_keys list \<Rightarrow> api_keys list" where
  "touch i now rows = map (\<lambda>r. if key_id r = i then r\<lparr>last_used_at := Some now\<rparr> else r) rows"

definition request_key :: "api_keys \<Rightarrow> api_key" where
  "request_key key = \<lparr>ak_id = key_id key, ak_internal = (key_type key = Internal),
     rateLimitPerMinute = or_number (rate_limit_per_minute key) 60,
     rateLimitPerDay = or_number (rate_limit_per_day key) 10000\<rparr>"

text \<open>\<open>online\<close> tells whether the query and the update of the table succeed; a failed update is only
  logged.\<close>

definition authenticate ::
  "platform \<Rightarrow> bool \<Rightarrow> int \<Rightarrow> request_headers \<Rightarrow> key_table \<Rightarrow> auth_response \<times> key_table" where
  "authenticate p online now req t =
     (case extractKey req of
        None \<Rightarrow> (Denied 401 ''API key is required'', t)
      | Some apiKey \<Rightarrow>
          if \<not> online then (Denied 500 ''Authentication failed'', t)
          else (case findKey p apiKey (filter enabled (key_rows t)) of
              Inl e \<Rightarrow> (Denied 500 ''Authentication failed'', t)
            | Inr None \<Rightarrow> (Denied 401 ''Invalid API key'', t)
            | Inr (Some key) \<Rightarrow> (case checkOrigin p req key of
                Some r \<Rightarrow> (r, t)
              | None \<Rightarrow> (Authenticated (request_key key),
                  t\<lparr>key_rows := touch (key_id key) now (key_rows t)\<rparr>))))"

section \<open>keygen\<close>

record GenerateKeyOptions =
  opt_label :: string
  opt_type :: KeyType
  opt_origins :: "string list option"
  opt_rateLimitPerMinute :: "int option"
  opt_rateLimitPerDay :: "int option"

definition newApiKey :: "string \<Rightarrow> string \<Rightarrow> string" where
  "newApiKey uuid1 uuid2 = filter (\<lambda>c. c \<noteq> CHR ''-'') uuid1 @ filter (\<lambda>c. c \<noteq> CHR ''-'') uuid2"

definition generateKey ::
  "platform \<Rightarrow> string \<Rightarrow> string \<Rightarrow> GenerateKeyOptions \<Rightarrow> key_table \<Rightarrow> key_table" where
  "generateKey p salt apiKey options t =
     (let keyHash = bcrypt_hash p salt apiKey;
          allowedOrigins = (case opt_origins options of
             Some (x # xs) \<Rightarrow> if opt_type options = Internal then Some (json_stringify p (x # xs)) else None
           | _ \<Rightarrow> None);
          perMinute = or_number (opt_rateLimitPerMinute options) (if opt_type options = Internal then 999999 else 60);
          perDay = or_number (opt_rateLimitPerDay options) (if opt_type options = Internal then 999999 else 10000)
      in t\<lparr>key_rows := key_rows t @ [\<lparr>key_id = next_key_id t, key_hash = keyHash, key_label = opt_label options,
             key_type = opt_type options, allowed_origins = allowedOrigins,
             rate_limit_per_minute = Some perMinute, rate_limit_per_day = Some perDay, enabled = True,
             last_used_at = None\<rparr>],
           next_key_id := next_key_id t + 1\<rparr>)"

definition set_enabled :: "bool \<Rightarrow> nat \<Rightarrow> api_keys list \<Rightarrow> api_keys list" where
  "set_enabled b i rows = map (\<lambda>r. if key_id r = i then r\<lparr>enabled := b\<rparr> else r) rows"

text \<open>The result tells whether a row was found; otherwise the tool reports that the key is missing.\<close>

definition enableKey :: "nat \<Rightarrow> key_table \<Rightarrow> bool \<times> key_table" where
  "enableKey i t = (list_ex (\<lambda>r. key_id r = i) (key_rows t), t\<lparr>key_rows := set_enabled True i (key_rows t)\<rparr>)"

definition disableKey :: "nat \<Rightarrow> key_table \<Rightarrow> bool \<times> key_table" where
  "disableKey i t = (list_ex (\<lambda>r. key_id r = i) (key_rows t), t\<lparr>key_rows := set_enabled False i (key_rows t)\<rparr>)"

definition deleteKey :: "nat \<Rightarrow> key_table \<Rightarrow> bool \<times> key_table" where
  "deleteKey i t = (list_ex (\<lambda>r. key_id r = i) (key_rows t), t\<lparr>key_rows := filter (\<lambda>r. key_id r \<noteq> i) (key_rows t)\<rparr>)"

text \<open>The arguments after label and type. An option without a value, or with an empty one, is skipped.\<close>

fun parseOptions :: "string list \<Rightarrow> GenerateKeyOptions \<Rightarrow> GenerateKeyOptions" where
  "parseOptions (arg # v # args) options =
     (if arg = ''--origins'' \<and> v \<noteq> [] then
        parseOptions args (options\<lparr>opt_origins := Some (map trim (split_at (CHR '','') v))\<rparr>)
      else if arg = ''--rate-minute'' \<and> v \<noteq> [] then
        parseOptions args (options\<lparr>opt_rateLimitPerMinute := parseInt10 v\<rparr>)
      else if arg = ''--rate-day'' \<and> v \<noteq> [] then
        parseOptions args (options\<lparr>opt_rateLimitPerDay := parseInt10 v\<rparr>)
      else parseOptions (v # args) options)"
| "parseOptions _ options = options"

datatype command_result = Usage | TypeMissing | IdMissing | NotFound int | Changed | Generated

definition key_command :: "(nat \<Rightarrow> key_table \<Rightarrow> bool \<times> key_table) \<Rightarrow> string option \<Rightarrow> key_table \<Rightarrow> command_result \<times> key_table" where
  "key_command operation arg t =
     (case (case arg of None \<Rightarrow> None | Some s \<Rightarrow> parseInt10 s) of
        None \<Rightarrow> (IdMissing, t)
      | Some i \<Rightarrow> if i < 0 then (NotFound i, t)
          else (case operation (nat i) t of (found, t') \<Rightarrow> (if found then Changed else NotFound i, t')))"

definition nth_arg :: "nat \<Rightarrow> string list \<Rightarrow> string option" where
  "nth_arg i args = (if i < length args then Some (args ! i) else None)"

definition keygen :: "platform \<Rightarrow> string \<Rightarrow> string \<Rightarrow> string list \<Rightarrow> key_table \<Rightarrow> command_result \<times> key_table" where
  "keygen p salt apiKey args t =
     (case args of
        [] \<Rightarrow> (Usage, t)
      | command # rest \<Rightarrow>
          if command = ''generate'' then
            (case (truthy (nth_arg 1 args), truthy (nth_arg 2 args)) of
               (Some label, Some type) \<Rightarrow>
                 (if type \<noteq> ''internal'' \<and> type \<noteq> ''external'' then (TypeMissing, t)
                  else (Generated, generateKey p salt apiKey (parseOptions (drop 3 args)
                    \<lparr>opt_label = label, opt_type = (if type = ''internal'' then Internal else External),
                     opt_origins = None, opt_rateLimitPerMinute = None, opt_rateLimitPerDay = None\<rparr>) t))
             | _ \<Rightarrow> (Usage, t))
          else if command = ''enable'' then key_command enableKey (nth_arg 1 args) t
          else if command = ''disable'' then key_command disableKey (nth_arg 1 args) t
          else if command = ''delete'' then key_command deleteKey (nth_arg 1 args) t
          else (Usage, t))"

section \<open>Which requests are authenticated\<close>

lemma findKey_Some:
  "findKey p k rows = Inr (Some key) \<Longrightarrow> key \<in> set rows \<and> bcrypt_compare p k (key_hash key) = Inr True"
  by (induction rows) (auto simp: result_simps split: if_splits)

lemma findKey_skip:
  "(\<And>r. r \<in> set rows \<Longrightarrow> bcrypt_compare p k (key_hash r) = Inr False) \<Longrightarrow>
   findKey p k (rows @ rest) = findKey p k rest"
  by (induction rows) auto

lemma findKey_none:
  "(\<And>r. r \<in> set rows \<Longrightarrow> bcrypt_compare p k (key_hash r) = Inr False) \<Longrightarrow> findKey p k rows = Inr None"
  using findKey_skip [of rows p k "[]"] by simp

text \<open>The origin that an internal key is checked against.\<close>

definition claimed_origin :: "request_headers \<Rightarrow> string option" where
  "claimed_origin req = (case truthy (origin_header req) of Some origin \<Rightarrow> Some origin
     | None \<Rightarrow> truthy (referer_header req))"

lemma truthy_Some: "truthy v = Some s \<longleftrightarrow> v = Some s \<and> s \<noteq> []"
  by (auto simp: truthy_def split: option.splits list.splits)

lemma checkOrigin_denies: "checkOrigin p req key = Some r \<Longrightarrow> \<exists>code message. r = Denied code message"
  by (auto simp: checkOrigin_def split: option.splits if_splits)

lemma sameOrigin_iff:
  "sameOrigin p origin allowed \<longleftrightarrow> (\<exists>u. parse_url p origin = Some u \<and> parse_url p allowed = Some u)"
  by (auto simp: sameOrigin_def split: option.splits)

lemma checkOrigin_None:
  assumes "checkOrigin p req key = None" "key_type key = Internal"
  shows "\<exists>origin urls list allowed u. claimed_origin req = Some origin \<and>
       allowed_origins key = Some urls \<and> json_parse p urls = Some list \<and> allowed \<in> set list \<and>
       parse_url p origin = Some u \<and> parse_url p allowed = Some u"
proof -
  obtain origin where origin: "claimed_origin req = Some origin"
    using assms by (cases "claimed_origin req") (simp_all add: checkOrigin_def claimed_origin_def)
  then have check: "(case (case truthy (allowed_origins key) of None \<Rightarrow> Some [] | Some s \<Rightarrow> json_parse p s) of
      None \<Rightarrow> False | Some list \<Rightarrow> list_ex (sameOrigin p origin) list)"
    using assms by (simp add: checkOrigin_def claimed_origin_def split: option.splits if_splits)
  then obtain urls where urls: "truthy (allowed_origins key) = Some urls"
    by (cases "truthy (allowed_origins key)") simp_all
  then obtain list where list: "json_parse p urls = Some list" "list_ex (sameOrigin p origin) list"
    using check by (cases "json_parse p urls") simp_all
  then obtain allowed u where "allowed \<in> set list" "parse_url p origin = Some u" "parse_url p allowed = Some u"
    by (auto simp: list_ex_iff sameOrigin_iff)
  then show ?thesis using origin urls list(1) unfolding truthy_Some by blast
qed

text \<open>C31: A request is authenticated only with a key that it presents itself and that an enabled row's
  hash matches; an internal key moreover only when the request's origin has the scheme and host of
  one of the row's allowed origins, so never when the row has none. The limits handed on are those
  of the row, and never zero.\<close>

theorem authenticated_key_is_valid:
  assumes "fst (authenticate p online now req t) = Authenticated r"
  shows "\<exists>k key. extractKey req = Some k \<and> k \<noteq> [] \<and> key \<in> set (key_rows t) \<and> enabled key \<and>
    bcrypt_compare p k (key_hash key) = Inr True \<and> r = request_key key \<and>
    (key_type key = Internal \<longrightarrow> (\<exists>origin urls list allowed u. claimed_origin req = Some origin \<and>
       allowed_origins key = Some urls \<and> json_parse p urls = Some list \<and> allowed \<in> set list \<and>
       parse_url p origin = Some u \<and> parse_url p allowed = Some u)) \<and>
    rateLimitPerMinute r \<noteq> 0 \<and> rateLimitPerDay r \<noteq> 0"
proof -
  from assms obtain k key where k: "extractKey req = Some k"
    and key: "findKey p k (filter enabled (key_rows t)) = Inr (Some key)"
    and origin: "checkOrigin p req key = None" and r: "r = request_key key"
    unfolding authenticate_def by (auto split: option.splits sum.splits if_splits dest: checkOrigin_denies)
  have "k \<noteq> []" using k by (auto simp: extractKey_def truthy_Some split: option.splits if_splits)
  moreover have "key \<in> set (key_rows t)" "enabled key" "bcrypt_compare p k (key_hash key) = Inr True"
    using findKey_Some [OF key] by simp_all
  moreover have "\<exists>origin urls list allowed u. claimed_origin req = Some origin \<and>
       allowed_origins key = Some urls \<and> json_parse p urls = Some list \<and> allowed \<in> set list \<and>
       parse_url p origin = Some u \<and> parse_url p allowed = Some u" if "key_type key = Internal"
    by (rule checkOrigin_None [OF origin that])
  moreover have "rateLimitPerMinute r \<noteq> 0 \<and> rateLimitPerDay r \<noteq> 0"
    by (auto simp: r request_key_def or_number_def split: option.splits)
  ultimately show ?thesis using k r by blast
qed

section \<open>The life of a key\<close>

definition bearer :: "string \<Rightarrow> request_headers" where
  "bearer k = \<lparr>authorization = Some (''Bearer '' @ k), x_api_key = None, origin_header = None,
     referer_header = None\<rparr>"

lemma extract_bearer: "k \<noteq> [] \<Longrightarrow> extractKey (bearer k) = Some k"
  by (simp add: extractKey_def bearer_def truthy_def startsWith_def split: list.splits)

lemma authenticate_new_row:
  assumes others: "\<And>r. r \<in> set rows \<Longrightarrow> bcrypt_compare p k (key_hash r) = Inr False" and "k \<noteq> []"
    and row: "bcrypt_compare p k (key_hash row) = Inr True" "key_type row = External"
  shows "fst (authenticate p True now (bearer k) (t\<lparr>key_rows := rows @ [row]\<rparr>)) =
    (if enabled row then Authenticated (request_key row) else Denied 401 ''Invalid API key'')"
proof -
  have "findKey p k (filter enabled rows @ [row]) = findKey p k [row]"
    by (rule findKey_skip) (use others in simp)
  moreover have "findKey p k (filter enabled rows) = Inr None"
    by (rule findKey_none) (use others in simp)
  ultimately show ?thesis
    using row \<open>k \<noteq> []\<close> by (simp add: authenticate_def extract_bearer checkOrigin_def)
qed

lemma set_enabled_append:
  "(\<And>r. r \<in> set rows \<Longrightarrow> key_id r \<noteq> key_id row) \<Longrightarrow>
   set_enabled b (key_id row) (rows @ [row]) = rows @ [row\<lparr>enabled := b\<rparr>]"
  by (simp add: set_enabled_def map_idI)

text \<open>C32: A key that keygen generates for an external client authenticates the client, with the limits
  asked for or 60 and 10000; once disabled it is refused, enabled again it is accepted again, and
  deleted it is refused and the table is as before its generation.\<close>

theorem key_lifecycle:
  assumes "bcrypt_compare p k (bcrypt_hash p salt k) = Inr True" and "k \<noteq> []"
    and "\<And>r. r \<in> set (key_rows t) \<Longrightarrow> bcrypt_compare p k (key_hash r) = Inr False"
    and "\<And>r. r \<in> set (key_rows t) \<Longrightarrow> key_id r < next_key_id t"
    and "opt_type options = External"
    and "t1 = generateKey p salt k options t" and "i = next_key_id t"
  shows "(let ok = Authenticated \<lparr>ak_id = i, ak_internal = False,
        rateLimitPerMinute = or_number (opt_rateLimitPerMinute options) 60,
        rateLimitPerDay = or_number (opt_rateLimitPerDay options) 10000\<rparr>;
      refused = Denied 401 ''Invalid API key''; client = (\<lambda>t. fst (authenticate p True now (bearer k) t));
      t2 = snd (disableKey i t1); t3 = snd (enableKey i t2)
    in client t1 = ok \<and> client t2 = refused \<and> client t3 = ok \<and>
       client (snd (deleteKey i t1)) = refused \<and> key_rows (snd (deleteKey i t1)) = key_rows t)"
proof -
  define row where "row = \<lparr>key_id = i, key_hash = bcrypt_hash p salt k, key_label = opt_label options,
    key_type = External, allowed_origins = None,
    rate_limit_per_minute = Some (or_number (opt_rateLimitPerMinute options) 60),
    rate_limit_per_day = Some (or_number (opt_rateLimitPerDay options) 10000), enabled = True,
    last_used_at = None\<rparr>"
  let ?u = "t\<lparr>next_key_id := i + 1\<rparr>"
  have t1: "t1 = ?u\<lparr>key_rows := key_rows t @ [row]\<rparr>"
    by (simp add: assms(5-7) generateKey_def Let_def row_def split: option.splits list.splits)
  have row: "bcrypt_compare p k (key_hash row) = Inr True" "key_type row = External" "key_id row = i"
    using assms(1) by (simp_all add: row_def)
  have fresh: "\<And>r. r \<in> set (key_rows t) \<Longrightarrow> key_id r \<noteq> key_id row" using assms(4,7) row(3) by fastforce
  note client = authenticate_new_row [OF assms(3) \<open>k \<noteq> []\<close>, where t = ?u and now = now]
  have t2: "snd (disableKey i t1) = ?u\<lparr>key_rows := key_rows t @ [row\<lparr>enabled := False\<rparr>]\<rparr>"
    using set_enabled_append [OF fresh, where b = False] row(3) by (simp add: t1 disableKey_def)
  have t3: "snd (enableKey i (snd (disableKey i t1))) = ?u\<lparr>key_rows := key_rows t @ [row]\<rparr>"
    using set_enabled_append [where b = True and rows = "key_rows t" and row = "row\<lparr>enabled := False\<rparr>"] fresh row(3)
    by (simp add: t2 enableKey_def) (simp add: row_def)
  have t4: "snd (deleteKey i t1) = ?u\<lparr>key_rows := key_rows t\<rparr>"
    using fresh row(3) by (simp add: t1 deleteKey_def filter_id_conv)
  have "findKey p k (filter enabled (key_rows t)) = Inr None" using assms(3) by (intro findKey_none) simp
  then have "fst (authenticate p True now (bearer k) (snd (deleteKey i t1))) = Denied 401 ''Invalid API key''"
    by (simp add: t4 authenticate_def extract_bearer [OF \<open>k \<noteq> []\<close>])
  moreover have "request_key row = \<lparr>ak_id = i, ak_internal = False,
      rateLimitPerMinute = or_number (opt_rateLimitPerMinute options) 60,
      rateLimitPerDay = or_number (opt_rateLimitPerDay options) 10000\<rparr>"
    by (auto simp: request_key_def row_def or_number_def split: option.splits)
  moreover have "enabled row" by (simp add: row_def)
  ultimately show ?thesis
    using client [where row = row] client [where row = "row\<lparr>enabled := False\<rparr>"] row t1 t2 t3 t4 by (simp add: Let_def)
qed

section \<open>The theorems on a small table\<close>

definition sample_platform :: platform where
  "sample_platform = \<lparr>bcrypt_hash = (\<lambda>salt k. salt @ k), bcrypt_compare = (\<lambda>k h. Inr (drop 1 h = k)),
     json_parse = (\<lambda>s. Some (split_at (CHR '' '') s)), json_stringify = (\<lambda>xs. hd xs),
     parse_url = (\<lambda>s. Some (takeWhile (\<lambda>c. c \<noteq> CHR '':'') s, dropWhile (\<lambda>c. c \<noteq> CHR '':'') s))\<rparr>"

definition no_options :: GenerateKeyOptions where
  "no_options = \<lparr>opt_label = ''partner'', opt_type = External, opt_origins = None,
     opt_rateLimitPerMinute = Some 100, opt_rateLimitPerDay = None\<rparr>"

definition sample_keys :: key_table where
  "sample_keys = generateKey sample_platform ''s'' ''aa11''
     (no_options\<lparr>opt_type := Internal, opt_origins := Some [''https://ui.bit.diamonds'']\<rparr>)
     \<lparr>key_rows = [], next_key_id = 1\<rparr>"

definition sample_request :: request_headers where
  "sample_request = (bearer ''aa11'')\<lparr>origin_header := Some ''https://ui.bit.diamonds''\<rparr>"

lemma authenticated_key_is_valid_witness:
  "\<exists>r key. fst (authenticate sample_platform True 7 sample_request sample_keys) = Authenticated r \<and>
     key \<in> set (key_rows sample_keys) \<and> enabled key \<and> r = request_key key"
proof -
  have "case fst (authenticate sample_platform True 7 sample_request sample_keys) of
      Authenticated r \<Rightarrow> True | Denied _ _ \<Rightarrow> False" by code_simp
  then obtain r where r: "fst (authenticate sample_platform True 7 sample_request sample_keys) = Authenticated r"
    by (auto split: auth_response.splits)
  from authenticated_key_is_valid [OF r] r show ?thesis by blast
qed

lemma key_lifecycle_witness:
  "let t1 = generateKey sample_platform ''s'' ''bb22'' no_options sample_keys;
       client = (\<lambda>t. fst (authenticate sample_platform True 7 (bearer ''bb22'') t))
   in client t1 = Authenticated \<lparr>ak_id = 2, ak_internal = False, rateLimitPerMinute = 100, rateLimitPerDay = 10000\<rparr> \<and>
      client (snd (disableKey 2 t1)) = Denied 401 ''Invalid API key''"
proof -
  have next_id: "next_key_id sample_keys = 2" by code_simp
  have "list_all (\<lambda>r. bcrypt_compare sample_platform ''bb22'' (key_hash r) = Inr False \<and> key_id r < 2)
      (key_rows sample_keys)" by code_simp
  then have rows: "bcrypt_compare sample_platform ''bb22'' (key_hash r) = Inr False" "key_id r < next_key_id sample_keys"
    if "r \<in> set (key_rows sample_keys)" for r
    using that next_id by (auto simp: list_all_iff)
  have match: "bcrypt_compare sample_platform ''bb22'' (bcrypt_hash sample_platform ''s'' ''bb22'') = Inr True"
    by (simp add: sample_platform_def)
  have "opt_type no_options = External" by (simp add: no_options_def)
  from key_lifecycle [OF match _ rows this refl refl, of 7]
  show ?thesis by (simp add: Let_def next_id) (simp add: no_options_def or_number_def)
qed

end
