(* ===== verification/RewardStats.thy ===== *)
theory RewardStats imports Samples begin

text \<open>
  The 30-day statistics of the REST API: src/db/express/src/controllers/rewards.ts, for one
  validator or delegator and for a batch of them, over the tables that the importer fills.

  JavaScript numbers are doubles: \<open>rnd\<close> rounds a number to one and is applied after every
  operation, \<open>sql_div\<close> is the division of PostgreSQL's AVG. Both are parameters (\<open>arith\<close>). An
  answer is given when the queries succeed.
\<close>

section \<open>SQL\<close>

record arith =
  rnd :: "rat \<Rightarrow> rat"
  sql_div :: "rat \<Rightarrow> rat \<Rightarrow> rat"

text \<open>SUM and AVG of no row are NULL.\<close>

definition sql_sum :: "rat list \<Rightarrow> rat option" where
  "sql_sum xs = (if xs = [] then None else Some (sum_list xs))"

definition sql_avg :: "arith \<Rightarrow> rat list \<Rightarrow> rat option" where
  "sql_avg ar xs = (if xs = [] then None else Some (sql_div ar (sum_list xs) (of_nat (length xs))))"

definition coalesce0 :: "rat option \<Rightarrow> rat" where
  "coalesce0 v = (case v of None \<Rightarrow> 0 | Some x \<Rightarrow> x)"

text \<open>\<open>parseFloat(x) || 0\<close>\<close>

definition parseFloat0 :: "arith \<Rightarrow> rat option \<Rightarrow> rat" where
  "parseFloat0 ar v = (case v of None \<Rightarrow> 0 | Some x \<Rightarrow> rnd ar x)"

text \<open>\<open>JOIN headers h ON h.block_number = pe.block_end\<close>\<close>

definition ended_epochs :: "db \<Rightarrow> (PosdaoEpoch \<times> Headers) list" where
  "ended_epochs d = [(pe, h). pe \<leftarrow> posdao_epoch d, h \<leftarrow> headers d, block_end pe = Some (block_number h)]"

definition epoch_node_rows :: "db \<Rightarrow> (PosdaoEpochNode \<times> Headers) list" where
  "epoch_node_rows d = [(pen, h). pen \<leftarrow> posdao_epoch_node d, (pe, h) \<leftarrow> ended_epochs d,
     epoch_id pe = id_posdao_epoch pen]"

definition delegate_reward_rows :: "db \<Rightarrow> (DelegateReward \<times> Headers) list" where
  "delegate_reward_rows d = [(dr, h). dr \<leftarrow> delegate_reward d, (pe, h) \<leftarrow> ended_epochs d,
     epoch_id pe = dr_id_posdao_epoch dr]"

definition windowDays :: int where
  "windowDays = 30 * 24 * 60 * 60"

section \<open>One validator\<close>

record active_row =
  a_vos30 :: "rat option"
  a_vos30_net :: "rat option"
  a_delegators :: "rat option"
  a_avg_stake :: "rat option"
  a_count :: nat

definition active_aggregate :: "arith \<Rightarrow> PosdaoEpochNode list \<Rightarrow> active_row" where
  "active_aggregate ar rows = \<lparr>a_vos30 = sql_sum (map (\<lambda>r. coalesce0 (owner_reward r)) rows),
     a_vos30_net = sql_sum (map (\<lambda>r. coalesce0 (owner_reward r) - node_operator_reward r) rows),
     a_delegators = sql_sum (map delegators_total_reward rows),
     a_avg_stake = sql_avg ar (map total_staked_snapshot rows), a_count = length rows\<rparr>"

record prev_row =
  p_delegators :: "rat option"
  p_avg_stake :: "rat option"
  p_count :: nat

definition prev_aggregate :: "arith \<Rightarrow> PosdaoEpochNode list \<Rightarrow> prev_row" where
  "prev_aggregate ar rows = \<lparr>p_delegators = sql_sum (map delegators_total_reward rows),
     p_avg_stake = sql_avg ar (map total_staked_snapshot rows), p_count = length rows\<rparr>"

definition active_in :: "db \<Rightarrow> int \<Rightarrow> PosdaoEpochNode list" where
  "active_in d windowStart = map fst (filter (\<lambda>(_, h). block_time h \<ge> windowStart) (epoch_node_rows d))"

definition prev_in :: "db \<Rightarrow> int \<Rightarrow> PosdaoEpochNode list" where
  "prev_in d windowStart = map fst (filter (\<lambda>(_, h). block_time h \<ge> windowStart - windowDays \<and>
     block_time h < windowStart) (epoch_node_rows d))"

definition of_validator :: "string \<Rightarrow> PosdaoEpochNode list \<Rightarrow> PosdaoEpochNode list" where
  "of_validator address rows = filter (\<lambda>r. bufferToAddress (id_node r) = to_lower address) rows"

definition total_epochs :: "db \<Rightarrow> int \<Rightarrow> nat" where
  "total_epochs d windowStart = length (filter (\<lambda>(_, h). block_time h \<ge> windowStart) (ended_epochs d))"

record validator_stats =
  vos30 :: rat
  vos30_net :: rat
  rpt30 :: rat
  rpt30_prev30 :: "rat option"
  rpt30_delta :: "rat option"
  aep30 :: rat
  estimated_apy :: rat
  uptime :: rat
  active_epoch_count :: nat
  total_epochs_in_window :: nat

text \<open>Reward per thousand coins of stake.\<close>

definition rpt :: "arith \<Rightarrow> rat \<Rightarrow> rat \<Rightarrow> rat" where
  "rpt ar delegators stake = (if stake > 0 then rnd ar (rnd ar (delegators / stake) * 1000) else 0)"

definition stats_of :: "arith \<Rightarrow> nat \<Rightarrow> active_row \<Rightarrow> prev_row option \<Rightarrow> validator_stats" where
  "stats_of ar totalEpochs row prev =
     (let rpt30 = rpt ar (parseFloat0 ar (a_delegators row)) (parseFloat0 ar (a_avg_stake row));
          aep30 = (if totalEpochs > 0 then rnd ar (of_nat (a_count row) / of_nat totalEpochs) else 0);
          rpt30Prev30 = (case prev of None \<Rightarrow> None | Some p \<Rightarrow>
            if p_count p > 0
            then Some (rpt ar (parseFloat0 ar (p_delegators p)) (parseFloat0 ar (p_avg_stake p))) else None)
      in \<lparr>vos30 = parseFloat0 ar (a_vos30 row), vos30_net = parseFloat0 ar (a_vos30_net row),
          rpt30 = rpt30, rpt30_prev30 = rpt30Prev30,
          rpt30_delta = map_option (\<lambda>p. rnd ar (rpt30 - p)) rpt30Prev30, aep30 = aep30,
          estimated_apy = rnd ar (rnd ar (rnd ar (rpt30 / 1000) * 12) * 100),
          uptime = rnd ar (aep30 * 100), active_epoch_count = a_count row,
          total_epochs_in_window = totalEpochs\<rparr>)"

text \<open>\<open>now\<close> is \<open>Math.floor(Date.now() / 1000)\<close>.\<close>

definition getValidatorRewardStats :: "arith \<Rightarrow> int \<Rightarrow> db \<Rightarrow> string \<Rightarrow> validator_stats" where
  "getValidatorRewardStats ar now d address =
     (let windowStart = now - windowDays
      in stats_of ar (total_epochs d windowStart)
           (active_aggregate ar (of_validator address (active_in d windowStart)))
           (Some (prev_aggregate ar (of_validator address (prev_in d windowStart)))))"

section \<open>Many validators\<close>

text \<open>\<open>GROUP BY\<close> a key: one row per value, with the rows of the group.\<close>

definition group_by :: "('r \<Rightarrow> 'k) \<Rightarrow> 'r list \<Rightarrow> ('k \<times> 'r list) list" where
  "group_by key rows = map (\<lambda>k. (k, filter (\<lambda>r. key r = k) rows)) (remdups (map key rows))"

definition no_stats :: "nat \<Rightarrow> validator_stats" where
  "no_stats totalEpochs = \<lparr>vos30 = 0, vos30_net = 0, rpt30 = 0, rpt30_prev30 = None, rpt30_delta = None,
     aep30 = 0, estimated_apy = 0, uptime = 0, active_epoch_count = 0, total_epochs_in_window = totalEpochs\<rparr>"

text \<open>\<open>any_of\<close> is the condition \<open>lower('0x' || encode(id_node, 'hex')) = ANY($1)\<close>; a JavaScript object is a map.\<close>

definition any_of :: "string list \<Rightarrow> buffer \<Rightarrow> bool" where
  "any_of addresses b \<longleftrightarrow> to_lower (bufferToAddress b) \<in> set addresses"

definition batchValidatorRewardStats :: "arith \<Rightarrow> int \<Rightarrow> db \<Rightarrow> string list \<Rightarrow> string \<rightharpoonup> validator_stats" where
  "batchValidatorRewardStats ar now d requested =
     (let addresses = map to_lower requested; windowStart = now - windowDays;
          totalEpochs = total_epochs d windowStart;
          activeRows = group_by id_node (filter (\<lambda>r. any_of addresses (id_node r)) (active_in d windowStart));
          prevRows = group_by id_node (filter (\<lambda>r. any_of addresses (id_node r)) (prev_in d windowStart));
          prevByAddress = fold (\<lambda>(b, rows) m. m(to_lower (bufferToAddress b) \<mapsto> prev_aggregate ar rows))
            prevRows Map.empty;
          result = fold (\<lambda>addr m. m(addr \<mapsto> no_stats totalEpochs)) addresses Map.empty
      in fold (\<lambda>(b, rows) m. let addr = to_lower (bufferToAddress b) in
           m(addr \<mapsto> stats_of ar totalEpochs (active_aggregate ar rows) (prevByAddress addr)))
         activeRows result)"

section \<open>Delegators\<close>

record delegator_stats =
  total_rewards_30d :: rat
  active_pool_count :: nat

definition rewards_in :: "db \<Rightarrow> int \<Rightarrow> DelegateReward list" where
  "rewards_in d windowStart = map fst (filter (\<lambda>(_, h). block_time h \<ge> windowStart) (delegate_reward_rows d))"

definition delegator_row :: "arith \<Rightarrow> DelegateReward list \<Rightarrow> delegator_stats" where
  "delegator_row ar rows = \<lparr>total_rewards_30d = parseFloat0 ar (sql_sum (map reward_amount rows)),
     active_pool_count = length (remdups (map dr_id_node rows))\<rparr>"

definition getDelegatorRewardStats :: "arith \<Rightarrow> int \<Rightarrow> db \<Rightarrow> string \<Rightarrow> delegator_stats" where
  "getDelegatorRewardStats ar now d address = delegator_row ar
     (filter (\<lambda>r. bufferToAddress (dr_id_delegator r) = to_lower address) (rewards_in d (now - windowDays)))"

definition batchDelegatorRewardStats :: "arith \<Rightarrow> int \<Rightarrow> db \<Rightarrow> string list \<Rightarrow> string \<rightharpoonup> delegator_stats" where
  "batchDelegatorRewardStats ar now d requested =
     (let addresses = map to_lower requested;
          rows = group_by dr_id_delegator (filter (\<lambda>r. any_of addresses (dr_id_delegator r))
            (rewards_in d (now - windowDays)));
          result = fold (\<lambda>addr m. m(addr \<mapsto> \<lparr>total_rewards_30d = 0, active_pool_count = 0\<rparr>)) addresses Map.empty
      in fold (\<lambda>(b, rows) m. m(to_lower (bufferToAddress b) \<mapsto> delegator_row ar rows)) rows result)"

section \<open>Groups and maps\<close>

text \<open>Writing one entry per group into an object: the entry of a key is that of its group.\<close>

lemma fold_entries:
  assumes "inj key" "distinct (map fst gs)"
  shows "fold (\<lambda>(b, rows) m. m(key b \<mapsto> f (key b) rows)) gs m (key k) =
    (case map_of gs k of Some rows \<Rightarrow> Some (f (key k) rows) | None \<Rightarrow> m (key k))"
  using assms
proof (induction gs arbitrary: m)
  case (Cons g gs)
  obtain b rows where g: "g = (b, rows)" by fastforce
  have "b \<notin> fst ` set gs" using Cons.prems(2) g by simp
  then have "map_of gs b = None" by (simp add: map_of_eq_None_iff)
  then show ?case using Cons g injD [OF assms(1)] by (auto split: option.splits)
qed simp

lemma group_by_lookup:
  "map_of (group_by key rows) k =
     (let own = filter (\<lambda>r. key r = k) rows in if own = [] then None else Some own)"
proof -
  have "map_of (map (\<lambda>k. (k, F k)) ks) k = (if k \<in> set ks then Some (F k) else None)" for F :: "'b \<Rightarrow> 'a list" and ks
    by (induction ks) auto
  moreover have "k \<in> set (remdups (map key rows)) \<longleftrightarrow> filter (\<lambda>r. key r = k) rows \<noteq> []"
    by (auto simp: filter_empty_conv)
  ultimately show ?thesis by (simp add: group_by_def Let_def)
qed

lemma group_by_keys: "distinct (map fst (group_by key rows))"
  by (simp add: group_by_def comp_def)

lemma fold_default_kept: "m a = Some v \<Longrightarrow> fold (\<lambda>a m. m(a \<mapsto> v)) as m a = Some v"
  by (induction as arbitrary: m) auto

lemma fold_defaults: "a \<in> set as \<Longrightarrow> fold (\<lambda>a m. m(a \<mapsto> v)) as m a = Some v"
  by (induction as arbitrary: m) (auto simp: fold_default_kept)

section \<open>The batch and the single answer\<close>

lemma lower_bufferToAddress [simp]: "to_lower (bufferToAddress b) = bufferToAddress b"
  by (simp add: bufferToAddress_def)

lemma bufferToAddress_inj: "inj bufferToAddress"
  by (metis addressToBuffer_bufferToAddress injI)

lemma bufferToAddress_iff: "is_address a \<Longrightarrow> bufferToAddress b = to_lower a \<longleftrightarrow> b = addressToBuffer a"
  by (metis addressToBuffer_bufferToAddress bufferToAddress_addressToBuffer)

text \<open>The group of a requested address: its rows, when it has any.\<close>

lemma group_of_address:
  assumes "a \<in> set requested" "is_address a"
  shows "map_of (group_by key (filter (\<lambda>r. any_of (map to_lower requested) (key r)) rows)) (addressToBuffer a) =
    (let own = filter (\<lambda>r. bufferToAddress (key r) = to_lower a) rows in if own = [] then None else Some own)"
proof -
  have any: "any_of (map to_lower requested) (addressToBuffer a)"
    using assms bufferToAddress_addressToBuffer [OF assms(2)] by (simp add: any_of_def)
  have "filter (\<lambda>r. key r = addressToBuffer a) (filter (\<lambda>r. any_of (map to_lower requested) (key r)) rows) =
      filter (\<lambda>r. bufferToAddress (key r) = to_lower a) rows"
    using any bufferToAddress_iff [OF assms(2)] by (auto intro: filter_cong)
  then show ?thesis by (simp only: group_by_lookup)
qed

lemma stats_of_prev_none:
  "stats_of ar tot row (Some (prev_aggregate ar [])) = stats_of ar tot row None"
  by (simp add: stats_of_def prev_aggregate_def)

text \<open>C34: The answer of the batch for a requested validator is the answer of the single request, except
  when the validator has no epoch in the window: then the batch leaves out the figures of the
  previous window, \<open>rpt30_prev30\<close> and \<open>rpt30_delta\<close>, that the single request gives.\<close>

theorem batch_validator_stats_agree:
  assumes "a \<in> set requested" and "is_address a" and "rnd ar 0 = 0"
  shows "batchValidatorRewardStats ar now d requested (to_lower a) =
    (let one = getValidatorRewardStats ar now d a
     in Some (if active_epoch_count one = 0 then one\<lparr>rpt30_prev30 := None, rpt30_delta := None\<rparr> else one))"
proof -
  let ?b = "addressToBuffer a" and ?ws = "now - windowDays"
  have key: "to_lower a = bufferToAddress ?b" by (simp add: bufferToAddress_addressToBuffer [OF assms(2)])
  note entry = fold_entries [OF bufferToAddress_inj group_by_keys, of _ _ _ _ ?b, folded key]
  note group = group_of_address [OF assms(1,2), of "id_node :: PosdaoEpochNode \<Rightarrow> buffer"]
  let ?total = "total_epochs d ?ws" and ?own = "of_validator a (active_in d ?ws)" and ?prev = "of_validator a (prev_in d ?ws)"
  define prevs where "prevs = fold (\<lambda>(b, rows) m. m(bufferToAddress b \<mapsto> prev_aggregate ar rows))
    (group_by id_node (filter (\<lambda>r. any_of (map to_lower requested) (id_node r)) (prev_in d ?ws))) Map.empty"
  have prevs: "prevs (to_lower a) = (if ?prev = [] then None else Some (prev_aggregate ar ?prev))"
    unfolding prevs_def using entry [where f = "\<lambda>_. prev_aggregate ar"] group
    by (simp add: of_validator_def Let_def)
  have default: "fold (\<lambda>addr m. m(addr \<mapsto> no_stats ?total)) (map to_lower requested) Map.empty (to_lower a) =
      Some (no_stats ?total)"
    using assms(1) by (intro fold_defaults) simp
  have "batchValidatorRewardStats ar now d requested (to_lower a) =
      (if ?own = [] then Some (no_stats ?total)
       else Some (stats_of ar ?total (active_aggregate ar ?own) (prevs (to_lower a))))"
    unfolding batchValidatorRewardStats_def Let_def lower_bufferToAddress prevs_def [symmetric]
    using entry [where f = "\<lambda>k rows. stats_of ar ?total (active_aggregate ar rows) (prevs k)"] group default
    by (simp add: of_validator_def Let_def)
  also have "\<dots> = (let one = getValidatorRewardStats ar now d a
     in Some (if active_epoch_count one = 0 then one\<lparr>rpt30_prev30 := None, rpt30_delta := None\<rparr> else one))"
  proof (cases "?own = []")
    case True
    then show ?thesis
      by (simp add: getValidatorRewardStats_def stats_of_def active_aggregate_def no_stats_def
          sql_sum_def sql_avg_def parseFloat0_def rpt_def Let_def assms(3))
  next
    case False
    have "stats_of ar ?total (active_aggregate ar ?own) (prevs (to_lower a)) = getValidatorRewardStats ar now d a"
      using prevs stats_of_prev_none by (simp add: getValidatorRewardStats_def Let_def)
    moreover have "active_epoch_count (getValidatorRewardStats ar now d a) \<noteq> 0"
      using False by (simp add: getValidatorRewardStats_def stats_of_def active_aggregate_def Let_def)
    ultimately show ?thesis using False by (simp add: Let_def)
  qed
  finally show ?thesis .
qed

lemma delegator_row_nothing: "delegator_row ar [] = \<lparr>total_rewards_30d = 0, active_pool_count = 0\<rparr>"
  by (simp add: delegator_row_def sql_sum_def parseFloat0_def)

text \<open>The answer of the batch for a requested delegator is the answer of the single request.\<close>

theorem batch_delegator_stats_agree:
  assumes "a \<in> set requested" and "is_address a"
  shows "batchDelegatorRewardStats ar now d requested (to_lower a) = Some (getDelegatorRewardStats ar now d a)"
proof -
  let ?b = "addressToBuffer a"
  have key: "to_lower a = bufferToAddress ?b" by (simp add: bufferToAddress_addressToBuffer [OF assms(2)])
  note entry = fold_entries [OF bufferToAddress_inj group_by_keys, of _ _ _ _ ?b, folded key]
  have default: "fold (\<lambda>addr m. m(addr \<mapsto> \<lparr>total_rewards_30d = 0, active_pool_count = 0\<rparr>))
      (map to_lower requested) Map.empty (to_lower a) = Some \<lparr>total_rewards_30d = 0, active_pool_count = 0\<rparr>"
    using assms(1) by (intro fold_defaults) simp
  show ?thesis
    unfolding batchDelegatorRewardStats_def getDelegatorRewardStats_def Let_def lower_bufferToAddress
    using entry [where f = "\<lambda>_. delegator_row ar"] group_of_address [OF assms, of "dr_id_delegator :: DelegateReward \<Rightarrow> buffer"] default
    by (simp add: Let_def delegator_row_nothing)
qed

section \<open>The theorems on a small database\<close>

definition exact :: arith where
  "exact = \<lparr>rnd = (\<lambda>x. x), sql_div = (\<lambda>x y. x / y)\<rparr>"

definition rewarded_db :: db where
  "rewarded_db = sample_db\<lparr>posdao_epoch := [\<lparr>epoch_id = 0, block_start = 0, block_end = Some 5\<rparr>],
     posdao_epoch_node := [\<lparr>id_node = addressToBuffer ''0xaa'', id_posdao_epoch = 0, owner_reward = Some 3,
       is_claimed = None, epoch_apy = 0, total_pool_reward = 10, validator_fixed_reward = 2,
       node_operator_reward = 1, delegators_total_reward = 7, total_staked_snapshot = 1000, reward_computed = True\<rparr>],
     delegate_reward := [\<lparr>dr_id_node = addressToBuffer ''0xaa'', dr_id_posdao_epoch = 0,
       dr_id_delegator = addressToBuffer ''0xcc'', dr_is_claimed = False, reward_amount = 7\<rparr>]\<rparr>"

lemma batch_validator_stats_agree_witness:
  "batchValidatorRewardStats exact (windowDays + 3) rewarded_db [''0xBB'', ''0xAA''] (to_lower ''0xAA'') =
     Some (getValidatorRewardStats exact (windowDays + 3) rewarded_db ''0xAA'') \<and>
   rpt30 (getValidatorRewardStats exact (windowDays + 3) rewarded_db ''0xAA'') = 7"
proof -
  have one: "active_epoch_count (getValidatorRewardStats exact (windowDays + 3) rewarded_db ''0xAA'') = 1"
    "rpt30 (getValidatorRewardStats exact (windowDays + 3) rewarded_db ''0xAA'') = 7" by code_simp+
  have "is_address ''0xAA''" by code_simp
  from batch_validator_stats_agree [OF _ this, of "[''0xBB'', ''0xAA'']" exact "windowDays + 3" rewarded_db] one
  show ?thesis by (simp add: exact_def Let_def)
qed

lemma batch_delegator_stats_agree_witness:
  "batchDelegatorRewardStats exact (windowDays + 3) rewarded_db [''0xCC''] (to_lower ''0xCC'') =
     Some (getDelegatorRewardStats exact (windowDays + 3) rewarded_db ''0xCC'') \<and>
   getDelegatorRewardStats exact (windowDays + 3) rewarded_db ''0xCC'' =
     \<lparr>total_rewards_30d = 7, active_pool_count = 1\<rparr>"
proof -
  have "is_address ''0xCC''" by code_simp
  moreover have "getDelegatorRewardStats exact (windowDays + 3) rewarded_db ''0xCC'' =
     \<lparr>total_rewards_30d = 7, active_pool_count = 1\<rparr>" by code_simp
  ultimately show ?thesis using batch_delegator_stats_agree [of "''0xCC''" "[''0xCC'']"] by simp
qed

end
