(* ===== verification/StakeApi.thy ===== *)
theory StakeApi imports StakeLog JavaScript begin

text \<open>
  Reading the stake events back: the REST endpoints of
  src/db/express/src/controllers/stakeTransactions.ts, which list the rows of a pool or a staker
  page by page, and src/src/stakeTransactionService.ts, which wraps the queries of the DbManager.

  A query parameter is a string that may be missing. The number that \<open>parseInt\<close> gives is bound into
  the statement; PostgreSQL rejects NaN and a negative LIMIT or OFFSET, which is the answer 500.
\<close>

section \<open>The endpoints\<close>

record list_query =
  q_action_type :: "string option"
  q_limit :: "string option"
  q_offset :: "string option"
  q_from_block :: "string option"
  q_to_block :: "string option"
  q_epoch :: "string option"

record formatted =
  f_id :: int
  f_block_number :: int
  f_block_timestamp :: int
  f_action_type :: string
  f_pool_address :: "string option"
  f_staker_address :: "string option"
  f_to_pool_address :: "string option"
  f_caller_address :: "string option"
  f_amount :: wei
  f_staking_epoch :: "int option"
  f_is_delegator_stake :: bool

definition bufToAddress :: "buffer option \<Rightarrow> string option" where
  "bufToAddress buf = map_option (\<lambda>b. ''0x'' @ buffer_to_hex b) buf"

definition formatRow :: "StakeTransaction \<Rightarrow> formatted" where
  "formatRow r = \<lparr>f_id = st_id r, f_block_number = st_block_number r,
     f_block_timestamp = st_block_timestamp r, f_action_type = action_type r,
     f_pool_address = bufToAddress (Some (st_pool_address r)),
     f_staker_address = bufToAddress (staker_address r),
     f_to_pool_address = bufToAddress (to_pool_address r),
     f_caller_address = bufToAddress (caller_address r), f_amount = st_amount r,
     f_staking_epoch = staking_epoch r, f_is_delegator_stake = is_delegator_stake r\<rparr>"

record 'a listing =
  list_data :: "'a list"
  list_count :: nat
  list_limit :: int
  list_offset :: int

text \<open>\<open>Math.min(parseInt(limit) || 200, 1000)\<close> and \<open>parseInt(offset) || 0\<close>\<close>

definition limitNum :: "list_query \<Rightarrow> int" where
  "limitNum q = min (or_number (case q_limit q of None \<Rightarrow> Some 200 | Some s \<Rightarrow> parseInt s) 200) 1000"

definition offsetNum :: "list_query \<Rightarrow> int" where
  "offsetNum q = or_number (case q_offset q of None \<Rightarrow> Some 0 | Some s \<Rightarrow> parseInt s) 0"

text \<open>A bound that is given must be a number.\<close>

definition bound :: "string option \<Rightarrow> int option result" where
  "bound v = (case truthy v of None \<Rightarrow> Inr None
     | Some s \<Rightarrow> (case parseInt s of None \<Rightarrow> Inl (Thrown ''invalid input syntax'') | Some n \<Rightarrow> Inr (Some n)))"

definition conditions :: "list_query \<Rightarrow> (StakeTransaction \<Rightarrow> bool) result" where
  "conditions q =
     await (bound (q_from_block q)) (\<lambda>from_block.
     await (bound (q_to_block q)) (\<lambda>to_block.
     await (bound (q_epoch q)) (\<lambda>epoch.
     Inr (\<lambda>t. nullable (\<lambda>a. action_type t = a) (truthy (q_action_type q)) \<and>
       nullable (\<lambda>b. st_block_number t \<ge> b) from_block \<and> nullable (\<lambda>b. st_block_number t \<le> b) to_block \<and>
       nullable (\<lambda>e. staking_epoch t = Some e) epoch))))"

definition listRows ::
  "(StakeTransaction \<Rightarrow> bool) \<Rightarrow> list_query \<Rightarrow> manager \<Rightarrow> formatted listing result" where
  "listRows who q m =
     await (conditions q) (\<lambda>cond.
     if limitNum q < 0 \<or> offsetNum q < 0 then Inl (Thrown ''LIMIT must not be negative'')
     else let rows = sort_key (\<lambda>t. (st_block_number t, st_id t))
            (filter (\<lambda>t. who t \<and> cond t) (stake_transactions m))
       in Inr \<lparr>list_data = map formatRow (take (nat (limitNum q)) (drop (nat (offsetNum q)) rows)),
            list_count = length rows, list_limit = limitNum q, list_offset = offsetNum q\<rparr>)"

definition listValidatorStakeTransactions :: "string \<Rightarrow> list_query \<Rightarrow> manager \<Rightarrow> formatted listing result" where
  "listValidatorStakeTransactions address =
     listRows (\<lambda>t. ''0x'' @ buffer_to_hex (st_pool_address t) = to_lower address)"

definition listStakerTransactions :: "string \<Rightarrow> list_query \<Rightarrow> manager \<Rightarrow> formatted listing result" where
  "listStakerTransactions address =
     listRows (\<lambda>t. map_option (\<lambda>b. ''0x'' @ buffer_to_hex b) (staker_address t) = Some (to_lower address))"

section \<open>StakeTransactionService\<close>

text \<open>The options are \<open>actionType\<close>, \<open>limit\<close> and \<open>offset\<close>; the DbManager's defaults are 100 and 0.\<close>

definition formatRow_service :: "StakeTransaction \<Rightarrow> formatted" where
  "formatRow_service r = \<lparr>f_id = st_id r, f_block_number = st_block_number r,
     f_block_timestamp = st_block_timestamp r, f_action_type = action_type r,
     f_pool_address = Some (bufferToAddress (st_pool_address r)),
     f_staker_address = map_option bufferToAddress (staker_address r),
     f_to_pool_address = map_option bufferToAddress (to_pool_address r),
     f_caller_address = map_option bufferToAddress (caller_address r), f_amount = st_amount r,
     f_staking_epoch = staking_epoch r, f_is_delegator_stake = is_delegator_stake r\<rparr>"

definition or_default :: "nat option \<Rightarrow> nat \<Rightarrow> nat" where
  "or_default v d = (case v of None \<Rightarrow> d | Some n \<Rightarrow> n)"

definition getByStaker ::
  "string \<Rightarrow> string option \<Rightarrow> nat option \<Rightarrow> nat option \<Rightarrow> formatted list action" where
  "getByStaker staker actionType limit offset =
     andThen (getStakeTransactionsByStaker staker actionType (or_default limit 100) (or_default offset 0))
       (\<lambda>rows. ret (map formatRow_service rows))"

definition getStakesByAddress :: "string \<Rightarrow> nat \<Rightarrow> nat \<Rightarrow> formatted list action" where
  "getStakesByAddress address limit offset = getByStaker address (Some ''PlacedStake'') (Some limit) (Some offset)"

definition getUnstakesByAddress :: "string \<Rightarrow> nat \<Rightarrow> nat \<Rightarrow> formatted list action" where
  "getUnstakesByAddress address limit offset = getByStaker address (Some ''WithdrewStake'') (Some limit) (Some offset)"

definition getByPool ::
  "string \<Rightarrow> string option \<Rightarrow> nat option \<Rightarrow> nat option \<Rightarrow> formatted list action" where
  "getByPool pool actionType limit offset =
     andThen (getStakeTransactionsByPool pool actionType (or_default limit 100) (or_default offset 0))
       (\<lambda>rows. ret (map formatRow_service rows))"

definition getValidatorActivity :: "string \<Rightarrow> int option \<Rightarrow> int option \<Rightarrow> formatted list action" where
  "getValidatorActivity pool startTimestamp endTimestamp =
     andThen (getStakeTransactionsByPool pool None 10000 0) (\<lambda>rows.
     ret (map formatRow_service (filter (\<lambda>r. nullable (\<lambda>b. \<not> st_block_timestamp r < b) startTimestamp \<and>
       nullable (\<lambda>b. \<not> st_block_timestamp r > b) endTimestamp) rows)))"

definition getByTimeRange :: "int \<Rightarrow> int \<Rightarrow> string option \<Rightarrow> nat option \<Rightarrow> formatted list action" where
  "getByTimeRange startTimestamp endTimestamp actionType limit =
     andThen (getStakeTransactionsByTimeRange startTimestamp endTimestamp actionType (or_default limit 1000))
       (\<lambda>rows. ret (map formatRow_service rows))"

definition getByBlockRange :: "int \<Rightarrow> int \<Rightarrow> formatted list action" where
  "getByBlockRange startBlock endBlock =
     andThen (getStakeTransactionsByBlockRange startBlock endBlock) (\<lambda>rows. ret (map formatRow_service rows))"

definition getRecent :: "nat \<Rightarrow> string option \<Rightarrow> formatted list action" where
  "getRecent limit actionType =
     andThen (getRecentStakeTransactions limit actionType) (\<lambda>rows. ret (map formatRow_service rows))"

definition getVolume :: "int option \<Rightarrow> int option \<Rightarrow> (string \<times> nat \<times> wei) list action" where
  "getVolume = getStakeTransactionVolume"

section \<open>Pages\<close>

definition selected :: "(StakeTransaction \<Rightarrow> bool) \<Rightarrow> manager \<Rightarrow> StakeTransaction list" where
  "selected P m = sort_key (\<lambda>t. (st_block_number t, st_id t)) (filter P (stake_transactions m))"

definition page :: "list_query \<Rightarrow> nat \<Rightarrow> nat \<Rightarrow> list_query" where
  "page q per k = q\<lparr>q_limit := Some (decimal per), q_offset := Some (decimal (k * per))\<rparr>"

lemma listRows_page:
  assumes "conditions q = Inr cond" "1 \<le> per" "per \<le> 1000"
  shows "listRows who (page q per k) m = Inr \<lparr>list_data = map formatRow (take per
      (drop (k * per) (selected (\<lambda>t. who t \<and> cond t) m))),
    list_count = length (selected (\<lambda>t. who t \<and> cond t) m), list_limit = int per, list_offset = int (k * per)\<rparr>"
proof -
  have "conditions (page q per k) = Inr cond" using assms(1) by (simp add: conditions_def page_def)
  moreover have "limitNum (page q per k) = int per" "offsetNum (page q per k) = int (k * per)"
    using assms(2,3) by (auto simp: limitNum_def offsetNum_def page_def or_number_def)
  ultimately show ?thesis unfolding listRows_def selected_def by (simp add: Let_def del: of_nat_mult)
qed

lemma concat_slices: "concat (map (\<lambda>k. take per (drop (k * per) xs)) [0..<n]) = take (n * per) xs"
proof (induction n)
  case (Suc n)
  have "Suc n * per = n * per + per" by simp
  then show ?case using Suc by (simp only: take_add) simp
qed simp

definition page_data :: "formatted listing result \<Rightarrow> formatted list" where
  "page_data r = (case r of Inr l \<Rightarrow> list_data l | Inl _ \<Rightarrow> [])"

lemma pages_concat:
  assumes "conditions q = Inr cond" "1 \<le> per" "per \<le> 1000"
  shows "concat (map (\<lambda>k. page_data (listRows who (page q per k) m)) [0..<n]) =
    map formatRow (take (n * per) (selected (\<lambda>t. who t \<and> cond t) m))"
proof -
  let ?xs = "selected (\<lambda>t. who t \<and> cond t) m"
  have "concat (map (\<lambda>k. page_data (listRows who (page q per k) m)) [0..<n]) =
      concat (map (map formatRow) (map (\<lambda>k. take per (drop (k * per) ?xs)) [0..<n]))"
    using listRows_page [OF assms] by (simp add: page_data_def comp_def)
  then show ?thesis by (simp only: map_concat [symmetric] concat_slices)
qed

text \<open>The pages of a listing, of any size from 1 to 1000, put one after the other, are the selected
  rows in the order of blocks and ids, each once and none missing; every page tells the total.\<close>

theorem pages_cover_listing:
  assumes "conditions q = Inr cond" and "1 \<le> per" and "per \<le> 1000"
    and "rows = selected (\<lambda>t. ''0x'' @ buffer_to_hex (st_pool_address t) = to_lower address \<and> cond t) m"
    and "length rows \<le> n * per"
  shows "concat (map (\<lambda>k. page_data (listValidatorStakeTransactions address (page q per k) m)) [0..<n]) =
      map formatRow rows \<and>
    (\<forall>k. \<exists>l. listValidatorStakeTransactions address (page q per k) m = Inr l \<and> list_count l = length rows)"
  using pages_concat [OF assms(1-3)] listRows_page [OF assms(1-3)] assms(5)
  unfolding assms(4) listValidatorStakeTransactions_def by simp

section \<open>What an import shows\<close>

text \<open>The rows of a run of events, from the id \<open>i\<close> on.\<close>

fun rows_of :: "contract_event list \<Rightarrow> int \<Rightarrow> StakeTransaction list" where
  "rows_of [] i = []"
| "rows_of (e # es) i = (case logged e of None \<Rightarrow> rows_of es i | Some row \<Rightarrow> row i # rows_of es (i + 1))"

lemma fold_append_log:
  "fst (fold append_log events (rows, i)) = rows @ rows_of events i"
  by (induction events arbitrary: rows i) (auto simp: append_log_def split: option.splits)

lemma logged_fields: "logged e = Some row \<Longrightarrow> st_id (row i) = i \<and> st_block_number (row i) = blockNumber e"
  by (cases e) auto

lemma rows_of_blocks: "r \<in> set (rows_of events i) \<Longrightarrow> i \<le> st_id r \<and> st_block_number r \<in> blockNumber ` set events"
proof (induction events arbitrary: i)
  case (Cons e es)
  show ?case
  proof (cases "logged e")
    case (Some row)
    then show ?thesis using Cons.IH [of "i + 1"] Cons.prems logged_fields [OF Some, of i] by auto
  qed (use Cons in simp)
qed simp

lemma rows_of_sorted:
  "sorted (map blockNumber events) \<Longrightarrow> sorted (map (\<lambda>t. (st_block_number t, st_id t)) (rows_of events i))"
proof (induction events arbitrary: i)
  case (Cons e es)
  then show ?case
    using logged_fields [of e] rows_of_blocks [of _ es "i + 1"]
    by (fastforce split: option.splits)
qed simp

lemma sorted_filter_key: "sorted (map f xs) \<Longrightarrow> sort_key f (filter P xs) = filter P xs"
  by (intro sort_key_id_if_sorted sorted_filter)

text \<open>C33: After the import of any events in block order into an empty table, the pages of a pool are one
  entry per stake event of the pool, in the order of the events.\<close>

theorem imported_events_are_listed:
  assumes "stake_log m = ([], i)" and "sorted (map blockNumber events)"
    and "forEach events accept m = (Inr (), m')" and "conditions q = Inr (\<lambda>_. True)"
    and "1 \<le> per" and "per \<le> 1000" and "length (rows_of events i) \<le> n * per"
  shows "concat (map (\<lambda>k. page_data (listValidatorStakeTransactions address (page q per k) m')) [0..<n]) =
    map formatRow (filter (\<lambda>t. ''0x'' @ buffer_to_hex (st_pool_address t) = to_lower address) (rows_of events i))"
proof -
  let ?who = "\<lambda>t. ''0x'' @ buffer_to_hex (st_pool_address t) = to_lower address"
  have "stake_log m' = fold append_log events (stake_log m)"
    using stake_events_log.run_abstraction [OF TrueI _ assms(3), of 0] by (simp add: map_replicate_const)
  then have "stake_transactions m' = rows_of events i"
    using fold_append_log [of events "[]" i] assms(1) by (metis append_Nil fst_conv stake_log_def)
  then have sel: "selected (\<lambda>t. ?who t \<and> True) m' = filter ?who (rows_of events i)"
    using sorted_filter_key [OF rows_of_sorted [OF assms(2)]] by (simp add: selected_def)
  moreover have "length (filter ?who (rows_of events i)) \<le> n * per"
    using assms(7) by (rule order_trans [OF length_filter_le])
  ultimately show ?thesis
    using pages_concat [OF assms(4-6), of ?who m' n] by (simp add: listValidatorStakeTransactions_def)
qed

text \<open>A moved stake is not among the rows of the pool that receives it.\<close>

lemma moved_stake_not_listed_for_target:
  assumes "logged (MovedStakeEvent n b t p q s e a) = Some row" "is_address p" "is_address q"
    and "to_lower p \<noteq> to_lower q"
  shows "''0x'' @ buffer_to_hex (st_pool_address (row i)) \<noteq> to_lower q"
proof -
  have "bufferToAddress (st_pool_address (row i)) = to_lower p"
    using assms(1) bufferToAddress_addressToBuffer [OF assms(2)] by auto
  moreover have "bufferToAddress b = ''0x'' @ buffer_to_hex b" for b
    by (simp add: bufferToAddress_def buffer_to_hex_def)
  ultimately show ?thesis using assms(4) by metis
qed

section \<open>The service\<close>

lemma query_stake_filter:
  "filter Q (query_stake_transactions P m) = query_stake_transactions (\<lambda>t. P t \<and> Q t) m"
  by (simp add: query_stake_transactions_def rev_filter [symmetric] filter_sort conj_commute)

text \<open>The activity of a validator in a time range is all of its rows in that range, the latest
  first, as long as the validator has at most 10000 rows in all; later rows push older ones out.\<close>

theorem validator_activity_complete:
  assumes "length (filter (\<lambda>t. st_pool_address t = addressToBuffer pool) (stake_transactions m)) \<le> 10000"
  shows "getValidatorActivity pool (Some from) (Some to) m =
    (Inr (map formatRow_service (query_stake_transactions
       (\<lambda>t. st_pool_address t = addressToBuffer pool \<and> from \<le> st_block_timestamp t \<and> st_block_timestamp t \<le> to) m)), m)"
proof -
  let ?all = "query_stake_transactions (\<lambda>t. st_pool_address t = addressToBuffer pool) m"
  have "length ?all \<le> 10000" using assms by (simp add: query_stake_transactions_def)
  then have "take 10000 ?all = ?all" by simp
  then show ?thesis
    by (simp add: getValidatorActivity_def getStakeTransactionsByPool_def andThen_def ret_def nullable_def
        query_stake_filter not_less)
qed

section \<open>The theorems on a small import\<close>

definition plain_query :: list_query where
  "plain_query = \<lparr>q_action_type = None, q_limit = None, q_offset = None, q_from_block = None,
     q_to_block = None, q_epoch = None\<rparr>"

lemma plain_conditions: "conditions plain_query = Inr (\<lambda>_. True)"
  by (simp add: conditions_def plain_query_def bound_def truthy_def nullable_def)

lemma pages_cover_listing_witness:
  "length (selected (\<lambda>t. ''0x'' @ buffer_to_hex (st_pool_address t) = to_lower ''0xAA'' \<and> True) after_events) = 4 \<and>
   concat (map (\<lambda>k. page_data (listValidatorStakeTransactions ''0xAA'' (page plain_query 3 k) after_events)) [0..<2]) =
     map formatRow (selected (\<lambda>t. ''0x'' @ buffer_to_hex (st_pool_address t) = to_lower ''0xAA'' \<and> True) after_events)"
proof -
  have "length (selected (\<lambda>t. ''0x'' @ buffer_to_hex (st_pool_address t) = to_lower ''0xAA'' \<and> True) after_events) = 4"
    by code_simp
  then show ?thesis
    using pages_cover_listing [OF plain_conditions _ _ refl, of 3 "''0xAA''" after_events 2] by simp
qed

lemma imported_events_are_listed_witness:
  "length (concat (map (\<lambda>k. page_data (listValidatorStakeTransactions ''0xAA'' (page plain_query 3 k) after_events)) [0..<2])) = 4"
proof -
  have "stake_log sample_manager = ([], 1)" by code_simp
  moreover have "sorted (map blockNumber sample_events)" by (simp add: sample_events_def placed_def)
  moreover have "length (rows_of sample_events 1) = 4" by code_simp
  moreover have "length (filter (\<lambda>t. ''0x'' @ buffer_to_hex (st_pool_address t) = to_lower ''0xAA'') (rows_of sample_events 1)) = 4"
    by code_simp
  ultimately show ?thesis
    using imported_events_are_listed [OF _ _ sample_run plain_conditions, of 1 3 2 "''0xAA''"] by simp
qed

lemma validator_activity_complete_witness:
  "getValidatorActivity ''0xaa'' (Some 0) (Some 5) after_events =
    (Inr (map formatRow_service (query_stake_transactions
       (\<lambda>t. st_pool_address t = addressToBuffer ''0xaa'' \<and> 0 \<le> st_block_timestamp t \<and> st_block_timestamp t \<le> 5)
       after_events)), after_events)"
proof -
  have "length (filter (\<lambda>t. st_pool_address t = addressToBuffer ''0xaa'') (stake_transactions after_events)) = 4"
    by code_simp
  then show ?thesis by (intro validator_activity_complete) simp
qed

end
