(* ===== verification/NamesApi.thy ===== *)
theory NamesApi imports StakeApi "HOL-Library.Multiset" begin

text \<open>
  The directory of names in the REST API: src/db/express/src/controllers/names.ts reads the tables
  \<open>dmd_names\<close> and \<open>dmd_name_events\<close> that the import fills.

  \<^item> The order of rows that an ORDER BY leaves open is PostgreSQL's choice, and may differ from one
    statement to the next: \<open>order_by n le rows\<close> is the answer of the \<open>n\<close>-th statement (\<open>postgres_order\<close>
    says what is documented of it). \<open>collate\<close> is the order of texts in the database.
  \<^item> \<open>date_parse\<close> is \<open>Date.parse\<close> (milliseconds, \<open>None\<close> for NaN); \<open>now\<close> is the clock of PostgreSQL in
    whole seconds.
\<close>

section \<open>PostgreSQL\<close>

record postgres =
  collate :: "string \<Rightarrow> string \<Rightarrow> bool"
  order_by :: "nat \<Rightarrow> (DmdName \<Rightarrow> DmdName \<Rightarrow> bool) \<Rightarrow> DmdName list \<Rightarrow> DmdName list"

definition total_preorder :: "('a \<Rightarrow> 'a \<Rightarrow> bool) \<Rightarrow> bool" where
  "total_preorder le \<longleftrightarrow> (\<forall>x y. le x y \<or> le y x) \<and> (\<forall>x y z. le x y \<longrightarrow> le y z \<longrightarrow> le x z)"

locale postgres_order =
  fixes pg :: postgres
  assumes same_rows: "mset (order_by pg n le rows) = mset rows"
    and in_order: "total_preorder le \<Longrightarrow> sorted_wrt le (order_by pg n le rows)"
    and texts: "total_preorder (collate pg)"

text \<open>\<open>NULLS LAST\<close>, and \<open>DESC\<close>\<close>

fun nulls_last :: "('a \<Rightarrow> 'a \<Rightarrow> bool) \<Rightarrow> 'a option \<Rightarrow> 'a option \<Rightarrow> bool" where
  "nulls_last le a None \<longleftrightarrow> True"
| "nulls_last le None (Some y) \<longleftrightarrow> False"
| "nulls_last le (Some x) (Some y) \<longleftrightarrow> le x y"

definition directed :: "bool \<Rightarrow> ('a \<Rightarrow> 'a \<Rightarrow> bool) \<Rightarrow> 'a \<Rightarrow> 'a \<Rightarrow> bool" where
  "directed asc le x y = (if asc then le x y else le y x)"

text \<open>\<open>text LIKE pattern\<close>: a backslash takes the next character as it is.\<close>

function like :: "string \<Rightarrow> string \<Rightarrow> bool" where
  "like [] s \<longleftrightarrow> s = []"
| "like (c # p) s \<longleftrightarrow>
     (if c = CHR ''%'' then list_ex (like p) (suffixes s)
      else if c = CHR ''_'' then s \<noteq> [] \<and> like p (tl s)
      else if c = CHR 92 \<and> p \<noteq> [] then s \<noteq> [] \<and> hd s = hd p \<and> like (tl p) (tl s)
      else s \<noteq> [] \<and> hd s = c \<and> like p (tl s))"
  by pat_completeness auto
termination by (relation "measure (length \<circ> fst)") auto

definition ilike :: "string \<Rightarrow> string \<Rightarrow> bool" where
  "ilike s pattern = like (to_lower pattern) (to_lower s)"

section \<open>A name\<close>

definition bufToHex :: "buffer option \<Rightarrow> string option" where
  "bufToHex buf = map_option (\<lambda>b. ''0x'' @ buffer_to_hex b) buf"

definition STATUS_SQL :: "int \<Rightarrow> DmdName \<Rightarrow> string" where
  "STATUS_SQL now r =
     (if coalesce (blocked r) (Some False) = Some True then ''blocked''
      else if (case expiration r of None \<Rightarrow> False | Some e \<Rightarrow> e \<le> now) then ''expired''
      else if coalesce (active r) (Some False) = Some True then ''active'' else ''inactive'')"

record shown_event =
  se_type :: string
  se_actor :: "string option"
  se_from :: "string option"
  se_to :: "string option"
  se_expiration :: "int option"
  se_blocked :: "bool option"
  se_block_number :: int
  se_timestamp :: int
  se_tx_hash :: "string option"

record shown_transfer =
  tr_timestamp :: int
  tr_from :: "string option"
  tr_to :: "string option"
  tr_tx_hash :: "string option"

record name_history =
  nh_name :: "string option"
  nh_label_hash :: "string option"
  nh_creator :: "string option"
  nh_created_at :: "int option"
  nh_created_block :: "int option"
  nh_owner :: "string option"
  nh_status :: string
  nh_expiration :: "int option"
  nh_blocked :: bool
  nh_events :: "shown_event list"
  nh_transfers :: "shown_transfer list"

definition show_event :: "DmdNameEvent \<Rightarrow> shown_event" where
  "show_event row = \<lparr>se_type = event_type row, se_actor = bufToHex (actor_address row),
     se_from = bufToHex (from_address row), se_to = bufToHex (to_address row),
     se_expiration = ne_expiration row, se_blocked = ne_blocked row,
     se_block_number = ne_block_number row, se_timestamp = ne_block_timestamp row,
     se_tx_hash = bufToHex (tx_hash row)\<rparr>"

definition show_transfer :: "DmdNameEvent \<Rightarrow> shown_transfer" where
  "show_transfer row = \<lparr>tr_timestamp = ne_block_timestamp row, tr_from = bufToHex (from_address row),
     tr_to = bufToHex (to_address row), tr_tx_hash = bufToHex (tx_hash row)\<rparr>"

text \<open>The ids of \<open>dmd_name_events\<close> grow with the rows. \<open>None\<close> is the answer 404.\<close>

definition getNameHistory :: "postgres \<Rightarrow> nat \<Rightarrow> int \<Rightarrow> string \<Rightarrow> manager \<Rightarrow> name_history option" where
  "getNameHistory pg n now label_param m =
     (let nameRows = take 1 (order_by pg n (\<lambda>_ _. True)
            (filter (\<lambda>r. map_option to_lower (label r) = Some (to_lower label_param)) (dmd_names m)))
      in case nameRows of [] \<Rightarrow> None
       | nameRow # _ \<Rightarrow>
           (let eventRows = sort_key ne_block_number
                  (filter (\<lambda>e. ne_label_hash e = label_hash nameRow) (dmd_name_events m))
            in Some \<lparr>nh_name = label nameRow, nh_label_hash = bufToHex (Some (label_hash nameRow)),
                 nh_creator = bufToHex (name_creator nameRow), nh_created_at = created_timestamp nameRow,
                 nh_created_block = created_block nameRow, nh_owner = bufToHex (name_owner nameRow),
                 nh_status = STATUS_SQL now nameRow, nh_expiration = expiration nameRow,
                 nh_blocked = (case blocked nameRow of None \<Rightarrow> False | Some b \<Rightarrow> b),
                 nh_events = map show_event eventRows,
                 nh_transfers = map show_transfer (filter (\<lambda>e. event_type e = ''Transfer'') eventRows)\<rparr>))"

section \<open>Listings\<close>

definition page_limit :: "int \<Rightarrow> int \<Rightarrow> string option \<Rightarrow> int" where
  "page_limit normal cap v = min (or_number (case v of None \<Rightarrow> Some normal | Some s \<Rightarrow> parseInt s) normal) cap"

definition page_offset :: "string option \<Rightarrow> int" where
  "page_offset v = or_number (case v of None \<Rightarrow> Some 0 | Some s \<Rightarrow> parseInt s) 0"

definition answer_page ::
  "postgres \<Rightarrow> nat \<Rightarrow> (DmdName \<Rightarrow> DmdName \<Rightarrow> bool) \<Rightarrow> (DmdName \<Rightarrow> 'a) \<Rightarrow> int \<Rightarrow> int \<Rightarrow> DmdName list \<Rightarrow> 'a listing result" where
  "answer_page pg n le answer limit offset rows =
     (if limit < 0 \<or> offset < 0 then Inl (Thrown ''LIMIT must not be negative'')
      else Inr \<lparr>list_data = map answer (take (nat limit) (drop (nat offset) (order_by pg n le rows))),
             list_count = length rows, list_limit = limit, list_offset = offset\<rparr>)"

record owned_name =
  on_name :: "string option"
  on_status :: string
  on_expiration :: "int option"
  on_last_action :: "string \<times> int \<times> int"

definition show_owned :: "int \<Rightarrow> DmdName \<Rightarrow> owned_name" where
  "show_owned now r = \<lparr>on_name = label r, on_status = STATUS_SQL now r, on_expiration = expiration r,
     on_last_action = (last_action_type r, last_action_block r, last_action_timestamp r)\<rparr>"

definition owned_by :: "string \<Rightarrow> DmdName \<Rightarrow> bool" where
  "owned_by address r \<longleftrightarrow> map_option (\<lambda>b. ''0x'' @ buffer_to_hex b) (name_owner r) = Some (to_lower address)"

definition listOwnedNames ::
  "postgres \<Rightarrow> nat \<Rightarrow> int \<Rightarrow> string \<Rightarrow> string option \<Rightarrow> string option \<Rightarrow> manager \<Rightarrow> owned_name listing result" where
  "listOwnedNames pg n now address limit offset m =
     answer_page pg n (\<lambda>r s. nulls_last (collate pg) (label r) (label s)) (show_owned now)
       (page_limit 200 1000 limit) (page_offset offset) (filter (owned_by address) (dmd_names m))"

record names_query =
  nq_search :: "string option"
  nq_status :: "string option"
  nq_created_from :: "string option"
  nq_created_to :: "string option"
  nq_expires_from :: "string option"
  nq_expires_to :: "string option"
  nq_sort :: "string option"
  nq_order :: "string option"
  nq_limit :: "string option"
  nq_offset :: "string option"

datatype sort_column = LabelColumn | OwnerColumn | CreatedColumn | ExpirationColumn

definition ALLOWED_SORT_COLUMNS :: "string \<rightharpoonup> sort_column" where
  "ALLOWED_SORT_COLUMNS = map_of [(''name'', LabelColumn), (''owner'', OwnerColumn),
     (''created_at'', CreatedColumn), (''expires_at'', ExpirationColumn)]"

text \<open>The properties that every object inherits; as a column they are a syntax error.\<close>

definition inherited :: "string list" where
  "inherited = [''constructor'', ''toString'', ''toLocaleString'', ''valueOf'', ''hasOwnProperty'',
     ''isPrototypeOf'', ''propertyIsEnumerable'', ''__proto__'', ''__defineGetter__'',
     ''__defineSetter__'', ''__lookupGetter__'', ''__lookupSetter__'']"

definition sortColumn :: "string option \<Rightarrow> sort_column result" where
  "sortColumn v = (case (case v of None \<Rightarrow> ''created_at'' | Some s \<Rightarrow> s) of s \<Rightarrow>
     (case ALLOWED_SORT_COLUMNS s of Some c \<Rightarrow> Inr c
      | None \<Rightarrow> if s \<in> set inherited then Inl (Thrown ''syntax error'') else Inr CreatedColumn))"

definition sort_order :: "postgres \<Rightarrow> sort_column \<Rightarrow> bool \<Rightarrow> DmdName \<Rightarrow> DmdName \<Rightarrow> bool" where
  "sort_order pg c asc r s = (case c of
     LabelColumn \<Rightarrow> nulls_last (directed asc (collate pg)) (label r) (label s)
   | OwnerColumn \<Rightarrow> nulls_last (directed asc (\<le>)) (name_owner r) (name_owner s)
   | CreatedColumn \<Rightarrow> nulls_last (directed asc (\<le>)) (created_timestamp r) (created_timestamp s)
   | ExpirationColumn \<Rightarrow> nulls_last (directed asc (\<le>)) (expiration r) (expiration s))"

text \<open>Either a number of seconds or a date; \<open>None\<close> is bound as NULL, which no row meets.\<close>

definition parseTimestamp :: "(string \<Rightarrow> int option) \<Rightarrow> string \<Rightarrow> int option" where
  "parseTimestamp date_parse v =
     (if v \<noteq> [] \<and> list_all (\<lambda>c. digit_in 10 c \<noteq> None) v then parseInt10 v
      else map_option (\<lambda>ms. ms div 1000) (date_parse v))"

definition within_bound ::
  "(string \<Rightarrow> int option) \<Rightarrow> (int \<Rightarrow> int \<Rightarrow> bool) \<Rightarrow> string option \<Rightarrow> int option \<Rightarrow> bool" where
  "within_bound date_parse cmp v column = (case truthy v of None \<Rightarrow> True
     | Some s \<Rightarrow> (case (parseTimestamp date_parse s, column) of
         (Some t, Some x) \<Rightarrow> cmp x t | _ \<Rightarrow> False))"

definition names_conditions :: "(string \<Rightarrow> int option) \<Rightarrow> int \<Rightarrow> names_query \<Rightarrow> DmdName \<Rightarrow> bool" where
  "names_conditions date_parse now q r \<longleftrightarrow>
     nullable (\<lambda>s. (case label r of None \<Rightarrow> False | Some l \<Rightarrow> ilike l (''%'' @ s @ ''%'')) \<or> owned_by s r)
       (truthy (nq_search q)) \<and>
     within_bound date_parse (\<ge>) (nq_created_from q) (created_timestamp r) \<and>
     within_bound date_parse (\<le>) (nq_created_to q) (created_timestamp r) \<and>
     within_bound date_parse (\<ge>) (nq_expires_from q) (expiration r) \<and>
     within_bound date_parse (\<le>) (nq_expires_to q) (expiration r) \<and>
     nullable (\<lambda>s. STATUS_SQL now r = s) (truthy (nq_status q))"

record listed_name =
  ln_name :: "string option"
  ln_owner :: "string option"
  ln_status :: string
  ln_created_at :: "int option"
  ln_expiration :: "int option"
  ln_blocked :: bool

definition show_name :: "int \<Rightarrow> DmdName \<Rightarrow> listed_name" where
  "show_name now r = \<lparr>ln_name = label r, ln_owner = bufToHex (name_owner r), ln_status = STATUS_SQL now r,
     ln_created_at = created_timestamp r, ln_expiration = expiration r,
     ln_blocked = (case blocked r of None \<Rightarrow> False | Some b \<Rightarrow> b)\<rparr>"

definition listNames ::
  "postgres \<Rightarrow> (string \<Rightarrow> int option) \<Rightarrow> nat \<Rightarrow> int \<Rightarrow> names_query \<Rightarrow> manager \<Rightarrow> listed_name listing result" where
  "listNames pg date_parse n now q m =
     await (sortColumn (nq_sort q)) (\<lambda>c.
       answer_page pg n (sort_order pg c (nq_order q = Some ''asc'')) (show_name now)
         (page_limit 50 500 (nq_limit q)) (page_offset (nq_offset q))
         (filter (names_conditions date_parse now q) (dmd_names m)))"

record blacklisted_name =
  bn_name :: "string option"
  bn_owner :: "string option"
  bn_created_at :: "int option"
  bn_expiration :: "int option"
  bn_blocked_at :: int

definition show_blacklisted :: "DmdName \<Rightarrow> blacklisted_name" where
  "show_blacklisted r = \<lparr>bn_name = label r, bn_owner = bufToHex (name_owner r),
     bn_created_at = created_timestamp r, bn_expiration = expiration r,
     bn_blocked_at = last_action_timestamp r\<rparr>"

definition listBlacklistedNames ::
  "postgres \<Rightarrow> nat \<Rightarrow> string option \<Rightarrow> string option \<Rightarrow> manager \<Rightarrow> blacklisted_name listing result" where
  "listBlacklistedNames pg n limit offset m =
     answer_page pg n (directed False (\<lambda>r s. last_action_timestamp r \<le> last_action_timestamp s)) show_blacklisted
       (page_limit 50 500 limit) (page_offset offset) (filter (\<lambda>r. blocked r = Some True) (dmd_names m))"

end
