(* ===== verification/RewardListings.thy ===== *)
theory RewardListings imports RewardStats NamesApi begin

text \<open>
  The listings of rewards in the REST API: src/db/express/src/controllers/rewards.ts, the rewards of a
  delegator and of a validator per epoch, page by page, and the daily series of a validator.

  \<^item> The order of rows that ORDER BY leaves open is PostgreSQL's choice: \<open>pick n rows\<close> is the order in
    which the \<open>n\<close>-th statement meets them, before they are sorted.
  \<^item> A bound on a time is bound into the statement as a number in digits and compared with a column of
    type timestamp: \<open>timestamp_in\<close> is the moment that PostgreSQL reads from these digits, if it takes
    them for a date at all. \<open>epoch_day\<close> is the day of a moment.
\<close>

section \<open>Rewards by epoch\<close>

record reward_query =
  rq_from_epoch :: "string option"
  rq_to_epoch :: "string option"
  rq_from_time :: "string option"
  rq_to_time :: "string option"
  rq_limit :: "string option"
  rq_offset :: "string option"

text \<open>\<open>LEFT JOIN headers h ON h.block_number = pe.block_end\<close>\<close>

definition end_header :: "db \<Rightarrow> PosdaoEpoch \<Rightarrow> Headers option list" where
  "end_header d pe = (case filter (\<lambda>h. block_end pe = Some (block_number h)) (headers d) of
     [] \<Rightarrow> [None] | hs \<Rightarrow> map Some hs)"

definition time_bound :: "(int \<Rightarrow> int option) \<Rightarrow> string option \<Rightarrow> int option result" where
  "time_bound timestamp_in v = await (bound v) (\<lambda>n. case n of None \<Rightarrow> Inr None
     | Some t \<Rightarrow> (case timestamp_in t of None \<Rightarrow> Inl (Thrown ''date/time field value out of range'') | Some m \<Rightarrow> Inr (Some m)))"

definition reward_conditions :: "(int \<Rightarrow> int option) \<Rightarrow> reward_query \<Rightarrow> (PosdaoEpoch \<Rightarrow> Headers option \<Rightarrow> bool) result" where
  "reward_conditions timestamp_in q =
     await (bound (rq_from_epoch q)) (\<lambda>from_epoch. await (bound (rq_to_epoch q)) (\<lambda>to_epoch.
     await (time_bound timestamp_in (rq_from_time q)) (\<lambda>from_time. await (time_bound timestamp_in (rq_to_time q)) (\<lambda>to_time.
     Inr (\<lambda>pe h. nullable (\<lambda>e. epoch_id pe \<ge> e) from_epoch \<and> nullable (\<lambda>e. epoch_id pe \<le> e) to_epoch \<and>
       nullable (\<lambda>t. case h of None \<Rightarrow> False | Some h \<Rightarrow> block_time h \<ge> t) from_time \<and>
       nullable (\<lambda>t. case h of None \<Rightarrow> False | Some h \<Rightarrow> block_time h \<le> t) to_time)))))"

text \<open>\<open>ORDER BY pe.id DESC LIMIT ... OFFSET ...\<close> of the rows that meet the conditions, and their number\<close>

definition reward_page ::
  "('r list \<Rightarrow> 'r list) \<Rightarrow> ('r \<Rightarrow> int) \<Rightarrow> ('r \<Rightarrow> 'a) \<Rightarrow> reward_query \<Rightarrow> 'r list \<Rightarrow> 'a listing result" where
  "reward_page pick epochOf answer q rows =
     (let limitNum = page_limit 200 1000 (rq_limit q); offsetNum = page_offset (rq_offset q)
      in if limitNum < 0 \<or> offsetNum < 0 then Inl (Thrown ''LIMIT must not be negative'')
         else Inr \<lparr>list_data = map answer (take (nat limitNum) (drop (nat offsetNum) (sort_key (\<lambda>r. - epochOf r) (pick rows)))),
           list_count = length rows, list_limit = limitNum, list_offset = offsetNum\<rparr>)"

record delegator_reward =
  w_pool_address :: string
  w_epoch :: int
  w_reward_amount :: BigNumber
  w_is_claimed :: bool
  w_block_start :: int
  w_block_end :: "int option"
  w_epoch_end_time :: "int option"

definition show_delegator_reward :: "DelegateReward \<times> PosdaoEpoch \<times> Headers option \<Rightarrow> delegator_reward" where
  "show_delegator_reward = (\<lambda>(dr, pe, h). \<lparr>w_pool_address = bufferToAddress (dr_id_node dr),
     w_epoch = dr_id_posdao_epoch dr, w_reward_amount = reward_amount dr, w_is_claimed = dr_is_claimed dr,
     w_block_start = block_start pe, w_block_end = block_end pe, w_epoch_end_time = map_option block_time h\<rparr>)"

definition listDelegatorRewards ::
  "(int \<Rightarrow> int option) \<Rightarrow> (nat \<Rightarrow> (DelegateReward \<times> PosdaoEpoch \<times> Headers option) list \<Rightarrow> (DelegateReward \<times> PosdaoEpoch \<times> Headers option) list) \<Rightarrow>
   nat \<Rightarrow> reward_query \<Rightarrow> db \<Rightarrow> string \<Rightarrow> delegator_reward listing result" where
  "listDelegatorRewards timestamp_in pick n q d address =
     await (reward_conditions timestamp_in q) (\<lambda>cond.
       reward_page (pick n) (\<lambda>(dr, pe, h). epoch_id pe) show_delegator_reward q
         [(dr, pe, h). dr \<leftarrow> delegate_reward d, pe \<leftarrow> posdao_epoch d, epoch_id pe = dr_id_posdao_epoch dr,
           h \<leftarrow> end_header d pe, bufferToAddress (dr_id_delegator dr) = to_lower address \<and> cond pe h])"

record epoch_reward =
  e_epoch :: int
  e_owner_reward :: "BigNumber option"
  e_validator_fixed_reward :: BigNumber
  e_node_operator_reward :: BigNumber
  e_delegators_total_reward :: BigNumber
  e_total_pool_reward :: BigNumber
  e_total_staked_snapshot :: BigNumber
  e_epoch_apy :: BigNumber
  e_is_claimed :: "bool option"
  e_reward_computed :: bool
  e_block_start :: int
  e_block_end :: "int option"
  e_epoch_end_time :: "int option"
  e_is_finalized :: bool

definition show_epoch_reward :: "PosdaoEpochNode \<times> PosdaoEpoch \<times> Headers option \<Rightarrow> epoch_reward" where
  "show_epoch_reward = (\<lambda>(pen, pe, h). \<lparr>e_epoch = id_posdao_epoch pen, e_owner_reward = owner_reward pen,
     e_validator_fixed_reward = validator_fixed_reward pen, e_node_operator_reward = node_operator_reward pen,
     e_delegators_total_reward = delegators_total_reward pen, e_total_pool_reward = total_pool_reward pen,
     e_total_staked_snapshot = total_staked_snapshot pen, e_epoch_apy = epoch_apy pen, e_is_claimed = is_claimed pen,
     e_reward_computed = reward_computed pen, e_block_start = block_start pe, e_block_end = block_end pe,
     e_epoch_end_time = map_option block_time h, e_is_finalized = (block_end pe \<noteq> None)\<rparr>)"

definition epoch_reward_rows ::
  "(PosdaoEpoch \<Rightarrow> Headers option \<Rightarrow> bool) \<Rightarrow> db \<Rightarrow> string \<Rightarrow> (PosdaoEpochNode \<times> PosdaoEpoch \<times> Headers option) list" where
  "epoch_reward_rows cond d address =
     [(pen, pe, h). pen \<leftarrow> posdao_epoch_node d, pe \<leftarrow> posdao_epoch d, epoch_id pe = id_posdao_epoch pen,
       h \<leftarrow> end_header d pe, bufferToAddress (id_node pen) = to_lower address \<and> cond pe h]"

definition listValidatorEpochRewards ::
  "(int \<Rightarrow> int option) \<Rightarrow> (nat \<Rightarrow> (PosdaoEpochNode \<times> PosdaoEpoch \<times> Headers option) list \<Rightarrow> (PosdaoEpochNode \<times> PosdaoEpoch \<times> Headers option) list) \<Rightarrow>
   nat \<Rightarrow> reward_query \<Rightarrow> db \<Rightarrow> string \<Rightarrow> epoch_reward listing result" where
  "listValidatorEpochRewards timestamp_in pick n q d address =
     await (reward_conditions timestamp_in q) (\<lambda>cond.
       reward_page (pick n) (\<lambda>(pen, pe, h). epoch_id pe) show_epoch_reward q (epoch_reward_rows cond d address))"

section \<open>The daily series\<close>

definition epoch_day :: "int \<Rightarrow> int" where
  "epoch_day t = t div 86400"

text \<open>\<open>WITH epochs\<close>: the epochs of the validator that have ended, with the day of their last block\<close>

definition day_epochs :: "db \<Rightarrow> string \<Rightarrow> (PosdaoEpochNode \<times> int) list" where
  "day_epochs d address = map (\<lambda>(pen, h). (pen, epoch_day (block_time h)))
     (filter (\<lambda>(pen, h). bufferToAddress (id_node pen) = to_lower address) (epoch_node_rows d))"

record daily =
  d_day :: int
  d_pool_sum :: rat
  d_owner_sum :: rat
  d_delegators_sum :: rat
  d_snapshot :: "rat option"
  d_count :: nat

text \<open>\<open>(ARRAY_AGG(total_staked_snapshot ORDER BY epoch DESC) FILTER (WHERE ... > 0))[1]\<close>\<close>

definition last_nonzero :: "PosdaoEpochNode list \<Rightarrow> rat option" where
  "last_nonzero rows = (case sort_key (\<lambda>r. - id_posdao_epoch r) (filter (\<lambda>r. total_staked_snapshot r > 0) rows) of
     [] \<Rightarrow> None | r # _ \<Rightarrow> Some (total_staked_snapshot r))"

definition day_group :: "PosdaoEpochNode list \<Rightarrow> int \<Rightarrow> daily" where
  "day_group rows day = \<lparr>d_day = day, d_pool_sum = sum_list (map total_pool_reward rows),
     d_owner_sum = sum_list (map (\<lambda>r. coalesce0 (owner_reward r)) rows),
     d_delegators_sum = sum_list (map delegators_total_reward rows),
     d_snapshot = last_nonzero rows, d_count = length rows\<rparr>"

definition on_day :: "(PosdaoEpochNode \<times> int) list \<Rightarrow> int \<Rightarrow> PosdaoEpochNode list" where
  "on_day rows day = map fst (filter (\<lambda>(_, t). t = day) rows)"

definition daily_groups :: "(PosdaoEpochNode \<times> int) list \<Rightarrow> daily list" where
  "daily_groups rows = map (\<lambda>day. day_group (on_day rows day) day) (sorted_list_of_set (set (map snd rows)))"

text \<open>\<open>RANGE BETWEEN 29 PRECEDING AND CURRENT ROW\<close> in the order of the days\<close>

definition frame :: "daily list \<Rightarrow> int \<Rightarrow> daily list" where
  "frame days day = filter (\<lambda>g. day - 29 \<le> d_day g \<and> d_day g \<le> day) days"

definition rolling_rpt30 :: "arith \<Rightarrow> daily list \<Rightarrow> rat" where
  "rolling_rpt30 ar window = (case List.map_filter d_snapshot window of
     [] \<Rightarrow> 0
   | snapshots \<Rightarrow> if last snapshots > 0
       then sql_div ar (sum_list (map d_delegators_sum window)) (last snapshots) * 1000 else 0)"

record daily_reward =
  r_day :: int
  r_rpt30 :: rat
  r_pool_sum :: rat
  r_owner_sum :: rat
  r_count :: nat

definition show_daily :: "arith \<Rightarrow> daily list \<Rightarrow> daily \<Rightarrow> daily_reward" where
  "show_daily ar days g = \<lparr>r_day = d_day g, r_rpt30 = rnd ar (rolling_rpt30 ar (frame days (d_day g))),
     r_pool_sum = d_pool_sum g, r_owner_sum = d_owner_sum g, r_count = d_count g\<rparr>"

text \<open>The range of days; an inherited property is a function, which the driver does not bind.\<close>

definition DAILY_RANGE_DAYS :: "string \<rightharpoonup> int option" where
  "DAILY_RANGE_DAYS = map_of [(''30d'', Some 30), (''1y'', Some 365), (''all'', None)]"

definition rangeDays :: "string option \<Rightarrow> int option result" where
  "rangeDays given = (let r = (case truthy given of Some s \<Rightarrow> s | None \<Rightarrow> ''30d'') in
     case DAILY_RANGE_DAYS r of Some days \<Rightarrow> Inr days
     | None \<Rightarrow> if r \<in> set inherited then Inl (Thrown ''invalid parameter'') else Inr None)"

text \<open>\<open>today\<close> is CURRENT_DATE.\<close>

definition listValidatorDailyEpochRewards ::
  "arith \<Rightarrow> int \<Rightarrow> string option \<Rightarrow> db \<Rightarrow> string \<Rightarrow> daily_reward list result" where
  "listValidatorDailyEpochRewards ar today given d address =
     await (rangeDays given) (\<lambda>days.
       let groups = daily_groups (day_epochs d address)
       in Inr (map (show_daily ar groups) (filter (\<lambda>g. nullable (\<lambda>k. d_day g \<ge> today - (k - 1)) days) groups)))"


section \<open>The pages of the rewards by epoch\<close>

text \<open>Rows with different keys have one sorted order, however they are met.\<close>

lemma sort_key_mset_cong:
  assumes "distinct (map f xs)" "mset ys = mset xs"
  shows "sort_key f ys = sort_key f xs"
proof (rule properties_for_sort_key)
  show "mset (sort_key f xs) = mset ys" using assms(2) by simp
  show "sorted (map f (sort_key f xs))" by simp
  fix k assume "k \<in> set (sort_key f xs)"
  have one: "filter (\<lambda>x. f k = f x) zs = [k]" if "mset zs = mset xs" for zs
  proof -
    have "distinct (map f zs)" using assms(1) that by (metis distinct_map mset_eq_imp_distinct_iff mset_eq_setD)
    moreover have "k \<in> set zs" using \<open>k \<in> set (sort_key f xs)\<close> that by (metis set_mset_mset set_sort)
    ultimately show ?thesis
    proof (induction zs)
      case (Cons z zs)
      have "filter (\<lambda>x. f k = f x) zs = []" if "k = z" using that Cons.prems(1) by (auto simp: filter_empty_conv)
      moreover have "f k \<noteq> f z" if "k \<in> set zs" using that Cons.prems(1) by (auto simp: image_iff)
      ultimately show ?case using Cons by auto
    qed simp
  qed
  show "filter (\<lambda>x. f k = f x) (sort_key f xs) = filter (\<lambda>x. f k = f x) ys"
    using one [of "sort_key f xs"] one [OF assms(2)] by simp
qed

text \<open>Lists of at most one element that carry the key of what they were made from\<close>

lemma distinct_concat_map:
  assumes "distinct (map key xs)" "\<And>x. x \<in> set xs \<Longrightarrow> length (f x) \<le> 1 \<and> (\<forall>y \<in> set (f x). g y = key x)"
  shows "distinct (map g (concat (map f xs)))"
  using assms
proof (induction xs)
  case (Cons x xs)
  have "distinct (map g (f x))" using Cons.prems(2) [of x] by (cases "f x") auto
  moreover have "g y \<noteq> g z" if "y \<in> set (f x)" "x' \<in> set xs" "z \<in> set (f x')" for y z x'
  proof -
    have "g y = key x" "g z = key x'" using that Cons.prems(2) by auto
    then show ?thesis using that(2) Cons.prems(1) by auto
  qed
  moreover have "distinct (map g (concat (map f xs)))" using Cons by auto
  ultimately show ?case by auto
qed simp

lemma distinct_key_filter: "distinct (map f xs) \<Longrightarrow> (\<And>x. P x \<Longrightarrow> f x = c) \<Longrightarrow> length (filter P xs) \<le> 1"
proof (induction xs)
  case (Cons x xs)
  have "filter P xs = []" if "P x"
  proof -
    have "\<not> P y" if "y \<in> set xs" for y
      using that \<open>P x\<close> Cons.prems by (metis distinct.simps(2) image_eqI list.set_map list.simps(9))
    then show ?thesis by (simp add: filter_empty_conv)
  qed
  then show ?case using Cons by auto
qed simp

definition reward_row ::
  "(PosdaoEpoch \<Rightarrow> Headers option \<Rightarrow> bool) \<Rightarrow> db \<Rightarrow> PosdaoEpochNode \<Rightarrow> (PosdaoEpochNode \<times> PosdaoEpoch \<times> Headers option) list" where
  "reward_row cond d pen = concat (map (\<lambda>pe. map (\<lambda>h. (pen, pe, h)) (filter (cond pe) (end_header d pe)))
     (filter (\<lambda>pe. epoch_id pe = id_posdao_epoch pen) (posdao_epoch d)))"

lemma concat_map_if: "concat (map (\<lambda>x. if P x then f x else []) xs) = concat (map f (filter P xs))"
  by (induction xs) auto

lemma concat_map_if_single: "concat (map (\<lambda>x. if P x then [f x] else []) xs) = map f (filter P xs)"
  by (induction xs) auto

lemma epoch_reward_rows_eq:
  "epoch_reward_rows cond d address =
   concat (map (reward_row cond d) (filter (\<lambda>pen. bufferToAddress (id_node pen) = to_lower address) (posdao_epoch_node d)))"
proof -
  have "concat (map (\<lambda>pe. if epoch_id pe = id_posdao_epoch pen
        then concat (map (\<lambda>h. if bufferToAddress (id_node pen) = to_lower address \<and> cond pe h then [(pen, pe, h)] else [])
          (end_header d pe)) else []) (posdao_epoch d)) =
      (if bufferToAddress (id_node pen) = to_lower address then reward_row cond d pen else [])" for pen
    by (simp add: reward_row_def concat_map_if concat_map_if_single)
  then show ?thesis by (simp add: epoch_reward_rows_def concat_map_if [symmetric])
qed

lemma end_header_one:
  assumes "valid_db d"
  shows "length (end_header d pe) = 1"
proof -
  have "distinct (map block_number (headers d))" using assms by (simp add: valid_db_def keys_ok_def)
  then have "length (filter (\<lambda>h. block_end pe = Some (block_number h)) (headers d)) \<le> 1"
    by (rule distinct_key_filter [where c = "the (block_end pe)"]) auto
  then show ?thesis by (auto simp: end_header_def split: list.splits)
qed

lemma reward_row_one:
  assumes "valid_db d"
  shows "length (reward_row cond d pen) \<le> 1 \<and> (\<forall>r \<in> set (reward_row cond d pen). - epoch_id (fst (snd r)) = - id_posdao_epoch pen)"
proof -
  have "distinct (map epoch_id (posdao_epoch d))" using assms by (simp add: valid_db_def keys_ok_def)
  then have "length (filter (\<lambda>pe. epoch_id pe = id_posdao_epoch pen) (posdao_epoch d)) \<le> 1"
    by (rule distinct_key_filter) auto
  then obtain pes where pes: "filter (\<lambda>pe. epoch_id pe = id_posdao_epoch pen) (posdao_epoch d) = pes" "length pes \<le> 1" by blast
  have "length (filter (cond pe) (end_header d pe)) \<le> 1" for pe
    using length_filter_le [of "cond pe" "end_header d pe"] end_header_one [OF assms, of pe] by simp
  then have "length (reward_row cond d pen) \<le> 1"
    using pes(2) unfolding reward_row_def pes(1) by (cases pes) auto
  then show ?thesis by (auto simp: reward_row_def)
qed

lemma epoch_reward_rows_distinct:
  assumes "valid_db d"
  shows "distinct (map (\<lambda>r. - epoch_id (fst (snd r))) (epoch_reward_rows cond d address))"
  unfolding epoch_reward_rows_eq
proof (rule distinct_concat_map)
  show "length (reward_row cond d pen) \<le> 1 \<and> (\<forall>r \<in> set (reward_row cond d pen). - epoch_id (fst (snd r)) = - id_posdao_epoch pen)" for pen
    using reward_row_one [OF assms] .
  let ?own = "filter (\<lambda>pen. bufferToAddress (id_node pen) = to_lower address) (posdao_epoch_node d)"
  have "distinct (map epoch_node_key ?own)"
    using assms by (simp add: valid_db_def keys_ok_def distinct_map_filter)
  moreover have "inj_on (\<lambda>pen. - id_posdao_epoch pen) (set ?own)" if "inj_on epoch_node_key (set ?own)"
    using that bufferToAddress_inj by (auto simp: inj_on_def epoch_node_key_def) 
  ultimately show "distinct (map (\<lambda>pen. - id_posdao_epoch pen) ?own)" by (auto simp: distinct_map)
qed

definition reward_query_page :: "reward_query \<Rightarrow> nat \<Rightarrow> nat \<Rightarrow> reward_query" where
  "reward_query_page q per k = q\<lparr>rq_limit := Some (decimal per), rq_offset := Some (decimal (k * per))\<rparr>"

definition listed :: "'a listing result \<Rightarrow> 'a list" where
  "listed r = (case r of Inr l \<Rightarrow> list_data l | Inl _ \<Rightarrow> [])"

text \<open>Whatever order PostgreSQL meets the rows in, the pages of a validator's rewards, of any size from 1
  to 1000, put one after the other, are its epochs within the bounds from the latest to the earliest, each
  once; every page tells their number.\<close>

theorem epoch_reward_pages:
  assumes "valid_db d" and "\<And>n rows. mset (pick n rows) = mset rows" and "reward_conditions ts q = Inr cond"
    and "1 \<le> per" and "per \<le> 1000" and "rows = epoch_reward_rows cond d address" and "length rows \<le> N * per"
  shows "concat (map (\<lambda>k. listed (listValidatorEpochRewards ts pick (stmt k) (reward_query_page q per k) d address)) [0..<N]) =
      map show_epoch_reward (sort_key (\<lambda>(pen, pe, h). - epoch_id pe) rows) \<and>
    sorted_wrt (>) (map (\<lambda>(pen, pe, h). epoch_id pe) (sort_key (\<lambda>(pen, pe, h). - epoch_id pe) rows)) \<and>
    (\<forall>k. \<exists>l. listValidatorEpochRewards ts pick (stmt k) (reward_query_page q per k) d address = Inr l \<and> list_count l = length rows)"
proof -
  let ?key = "\<lambda>r :: PosdaoEpochNode \<times> PosdaoEpoch \<times> Headers option. - epoch_id (fst (snd r))"
  let ?sorted = "sort_key ?key rows"
  have key: "(\<lambda>(pen, pe, h). - epoch_id pe) = ?key" by auto
  have dist: "distinct (map ?key rows)" unfolding assms(6) by (rule epoch_reward_rows_distinct [OF assms(1)])
  have same: "sort_key ?key (pick n rows) = ?sorted" for n
    by (rule sort_key_mset_cong [OF dist assms(2)])
  have cond: "reward_conditions ts (reward_query_page q per k) = Inr cond" for k
    using assms(3) by (simp add: reward_conditions_def reward_query_page_def)
  have "page_limit 200 1000 (rq_limit (reward_query_page q per k)) = int per"
    "page_offset (rq_offset (reward_query_page q per k)) = int (k * per)" for k
    using assms(4,5) by (auto simp: page_limit_def page_offset_def reward_query_page_def or_number_def)
  then have page: "listValidatorEpochRewards ts pick (stmt k) (reward_query_page q per k) d address = Inr
      \<lparr>list_data = map show_epoch_reward (take per (drop (k * per) ?sorted)), list_count = length rows,
       list_limit = int per, list_offset = int (k * per)\<rparr>" for k
    using same [of "stmt k"] assms(6)
    by (simp add: listValidatorEpochRewards_def cond reward_page_def Let_def case_prod_beta' del: of_nat_mult)
  have "concat (map (\<lambda>k. map show_epoch_reward (take per (drop (k * per) ?sorted))) [0..<N]) = map show_epoch_reward (take (N * per) ?sorted)"
    using arg_cong [OF concat_slices [of per ?sorted N], of "map show_epoch_reward"] by (simp add: map_concat comp_def)
  moreover have "sorted_wrt (>) (map (\<lambda>(pen, pe, h). epoch_id pe) ?sorted)"
  proof -
    have "distinct (map ?key ?sorted)" using dist by (simp add: distinct_map)
    then have "sorted_wrt (<) (map ?key ?sorted)" by (intro strict_sorted_iff [THEN iffD2]) simp
    then show ?thesis by (simp add: sorted_wrt_map case_prod_beta')
  qed
  ultimately show ?thesis using assms(7) by (simp add: page listed_def key)
qed

section \<open>The days\<close>

lemma last_nonzero_None: "last_nonzero rows = None \<longleftrightarrow> (\<forall>r \<in> set rows. \<not> total_staked_snapshot r > 0)"
proof -
  have "sort_key (\<lambda>r. - id_posdao_epoch r) (filter (\<lambda>r. total_staked_snapshot r > 0) rows) = [] \<longleftrightarrow>
      filter (\<lambda>r. total_staked_snapshot r > 0) rows = []"
    by (metis length_0_conv length_sort)
  moreover have "(case xs of [] \<Rightarrow> None | r # _ \<Rightarrow> Some (total_staked_snapshot r)) = None \<longleftrightarrow> xs = []" for xs :: "PosdaoEpochNode list"
    by (cases xs) auto
  ultimately show ?thesis by (simp add: last_nonzero_def filter_empty_conv)
qed

lemma last_nonzero_Some:
  assumes "last_nonzero rows = Some s"
  shows "\<exists>pen \<in> set rows. s = total_staked_snapshot pen \<and> s > 0 \<and>
    (\<forall>r \<in> set rows. total_staked_snapshot r > 0 \<longrightarrow> id_posdao_epoch r \<le> id_posdao_epoch pen)"
proof -
  let ?xs = "filter (\<lambda>r. total_staked_snapshot r > 0) rows"
  obtain pen ps where h: "sort_key (\<lambda>r. - id_posdao_epoch r) ?xs = pen # ps" "s = total_staked_snapshot pen"
    using assms by (auto simp: last_nonzero_def split: list.splits)
  have set: "set (pen # ps) = set ?xs" using h(1) by (metis set_sort)
  have "sorted (map (\<lambda>r. - id_posdao_epoch r) (pen # ps))" using h(1) by (metis sorted_sort_key)
  then have "id_posdao_epoch r \<le> id_posdao_epoch pen" if "r \<in> set (pen # ps)" for r using that by auto
  moreover have "pen \<in> set ?xs" using set by auto
  ultimately show ?thesis using set h(2) by (intro bexI [of _ pen]) auto
qed

text \<open>The last value that a list of ascending keys has\<close>

lemma last_map_filter:
  fixes ds :: "int list"
  assumes "sorted_wrt (<) ds" "List.map_filter f ds \<noteq> []"
  shows "\<exists>x \<in> set ds. f x = Some (last (List.map_filter f ds)) \<and> (\<forall>y \<in> set ds. x < y \<longrightarrow> f y = None)"
  using assms
proof (induction ds rule: rev_induct)
  case (snoc d ds)
  have less: "y < d" if "y \<in> set ds" for y using snoc.prems(1) that by (auto simp: sorted_wrt_append)
  show ?case
  proof (cases "f d")
    case None
    then obtain x where x: "x \<in> set ds" "f x = Some (last (List.map_filter f ds))" "\<forall>y \<in> set ds. x < y \<longrightarrow> f y = None"
      using snoc by (auto simp: sorted_wrt_append List.map_filter_def)
    then show ?thesis using None by (intro bexI [of _ x]) (auto simp: List.map_filter_def)
  next
    case (Some v)
    have "last (List.map_filter f (ds @ [d])) = v" using Some by (simp add: List.map_filter_def)
    then show ?thesis using Some less by (intro bexI [of _ d]) (auto dest: less)
  qed
qed (simp add: List.map_filter_def)

lemma sum_by_day:
  fixes f :: "PosdaoEpochNode \<Rightarrow> rat"
  assumes "distinct days"
  shows "sum_list (map (\<lambda>d. sum_list (map f (on_day rows d))) days) = sum_list (map (f \<circ> fst) (filter (\<lambda>(_, t). t \<in> set days) rows))"
  using assms
proof (induction days)
  case (Cons d days)
  have "sum_list (map (f \<circ> fst) (filter (\<lambda>(_, t). t \<in> set (d # days)) rows)) =
      sum_list (map (f \<circ> fst) (filter (\<lambda>(_, t). t = d) rows)) + sum_list (map (f \<circ> fst) (filter (\<lambda>(_, t). t \<in> set days) rows))"
    using Cons.prems by (induction rows) auto
  then show ?case using Cons by (simp add: on_day_def comp_def)
qed simp

definition days_of :: "(PosdaoEpochNode \<times> int) list \<Rightarrow> int list" where
  "days_of rows = sorted_list_of_set (set (map snd rows))"

text \<open>The rows of the thirty days that end with a day\<close>

definition month_to :: "int \<Rightarrow> (PosdaoEpochNode \<times> int) list \<Rightarrow> (PosdaoEpochNode \<times> int) list" where
  "month_to day rows = filter (\<lambda>(_, t). day - 29 \<le> t \<and> t \<le> day) rows"

lemma frame_groups:
  "frame (daily_groups rows) day =
   map (\<lambda>d. day_group (on_day rows d) d) (filter (\<lambda>d. day - 29 \<le> d \<and> d \<le> day) (days_of rows))"
  by (simp add: frame_def daily_groups_def days_of_def filter_map comp_def day_group_def)

lemma rolling_sum:
  "sum_list (map d_delegators_sum (frame (daily_groups rows) day)) =
   sum_list (map (\<lambda>(pen, _). delegators_total_reward pen) (month_to day rows))"
proof -
  let ?ds = "filter (\<lambda>d. day - 29 \<le> d \<and> d \<le> day) (days_of rows)"
  have "distinct ?ds" by (simp add: days_of_def)
  from sum_by_day [OF this, of delegators_total_reward rows]
  have "sum_list (map d_delegators_sum (frame (daily_groups rows) day)) =
      sum_list (map (delegators_total_reward \<circ> fst) (filter (\<lambda>(_, t). t \<in> set ?ds) rows))"
    by (simp add: frame_groups comp_def day_group_def)
  also have "filter (\<lambda>(_, t). t \<in> set ?ds) rows = month_to day rows"
    unfolding month_to_def by (rule filter_cong) (auto simp: days_of_def image_iff intro: rev_bexI)
  finally show ?thesis by (simp add: comp_def case_prod_beta')
qed

text \<open>The snapshot that the rewards of a month are divided by: that of the last epoch of its last day
  with a positive one.\<close>

definition latest_snapshot :: "(PosdaoEpochNode \<times> int) list \<Rightarrow> rat \<Rightarrow> bool" where
  "latest_snapshot rows s \<longleftrightarrow> (\<exists>(pen, t) \<in> set rows. s = total_staked_snapshot pen \<and> s > 0 \<and>
     (\<forall>(r, u) \<in> set rows. total_staked_snapshot r > 0 \<longrightarrow> u < t \<or> u = t \<and> id_posdao_epoch r \<le> id_posdao_epoch pen))"

lemma snapshots_eq:
  "List.map_filter d_snapshot (frame (daily_groups rows) day) =
   List.map_filter (\<lambda>d. last_nonzero (on_day rows d)) (filter (\<lambda>d. day - 29 \<le> d \<and> d \<le> day) (days_of rows))"
  by (simp add: frame_groups List.map_filter_def filter_map comp_def day_group_def)

lemma month_rows:
  "(r, u) \<in> set (month_to day rows) \<longleftrightarrow>
   u \<in> set (filter (\<lambda>d. day - 29 \<le> d \<and> d \<le> day) (days_of rows)) \<and> r \<in> set (on_day rows u)"
  by (force simp: month_to_def days_of_def on_day_def)

lemma no_snapshots:
  assumes "List.map_filter d_snapshot (frame (daily_groups rows) day) = []"
  shows "\<forall>(r, u) \<in> set (month_to day rows). \<not> total_staked_snapshot r > 0"
proof clarify
  fix r u assume r: "(r, u) \<in> set (month_to day rows)" "total_staked_snapshot r > 0"
  have "\<forall>d \<in> set (filter (\<lambda>d. day - 29 \<le> d \<and> d \<le> day) (days_of rows)). last_nonzero (on_day rows d) = None"
    using assms [unfolded snapshots_eq] by (auto simp: List.map_filter_def filter_empty_conv)
  then show False using r month_rows last_nonzero_None by blast
qed

lemma rolling_snapshot:
  assumes "List.map_filter d_snapshot (frame (daily_groups rows) day) \<noteq> []" (is "?snapshots \<noteq> []")
  shows "latest_snapshot (month_to day rows) (last ?snapshots) \<and> last ?snapshots > 0"
proof -
  let ?ds = "filter (\<lambda>d. day - 29 \<le> d \<and> d \<le> day) (days_of rows)" and ?f = "\<lambda>d. last_nonzero (on_day rows d)"
  have "sorted_wrt (<) ?ds" by (intro sorted_wrt_filter) (simp add: days_of_def)
  from last_map_filter [OF this, of ?f] assms obtain t where t: "t \<in> set ?ds" "?f t = Some (last ?snapshots)"
    "\<forall>u \<in> set ?ds. t < u \<longrightarrow> ?f u = None" unfolding snapshots_eq by blast
  from last_nonzero_Some [OF t(2)] obtain pen where pen: "pen \<in> set (on_day rows t)" "last ?snapshots = total_staked_snapshot pen"
    "last ?snapshots > 0" "\<forall>r \<in> set (on_day rows t). total_staked_snapshot r > 0 \<longrightarrow> id_posdao_epoch r \<le> id_posdao_epoch pen" by blast
  have "u < t \<or> u = t \<and> id_posdao_epoch r \<le> id_posdao_epoch pen"
    if "(r, u) \<in> set (month_to day rows)" "total_staked_snapshot r > 0" for r u
  proof -
    have r: "u \<in> set ?ds" "r \<in> set (on_day rows u)" using that(1) month_rows by blast+
    then have "?f u \<noteq> None" using that(2) last_nonzero_None by blast
    then have "\<not> t < u" using bspec [OF t(3) r(1)] by auto
    then show ?thesis using that(2) pen(4) r(2) by (cases "u = t") auto
  qed
  moreover have "(pen, t) \<in> set (month_to day rows)" using month_rows t(1) pen(1) by blast
  ultimately have "case (pen, t) of (pen, t) \<Rightarrow> last ?snapshots = total_staked_snapshot pen \<and> last ?snapshots > 0 \<and>
      (\<forall>(r, u) \<in> set (month_to day rows). total_staked_snapshot r > 0 \<longrightarrow> u < t \<or> u = t \<and> id_posdao_epoch r \<le> id_posdao_epoch pen)"
    "(pen, t) \<in> set (month_to day rows)" using pen(2,3) by blast+
  then show ?thesis using pen(3) unfolding latest_snapshot_def by blast
qed

text \<open>C25: The daily series of a validator has one entry for each day, within the range, on which one of its
  epochs ended, in order, with the number of these epochs; the rate of a day is a thousand times the rewards
  of the delegators over the epochs of its last thirty days by the latest positive stake among them, and 0
  if there is none.\<close>

theorem daily_series_follows_epochs:
  assumes "listValidatorDailyEpochRewards ar today given d address = Inr series" and "rangeDays given = Inr days"
    and "rows = day_epochs d address"
  shows "map r_day series = filter (\<lambda>t. nullable (\<lambda>k. t \<ge> today - (k - 1)) days) (sorted_list_of_set (snd ` set rows)) \<and>
    (\<forall>e \<in> set series. r_count e = length (filter (\<lambda>(_, t). t = r_day e) rows) \<and>
      (let month = month_to (r_day e) rows; total = sum_list (map (\<lambda>(pen, _). delegators_total_reward pen) month)
       in (\<forall>(pen, _) \<in> set month. \<not> total_staked_snapshot pen > 0) \<and> r_rpt30 e = rnd ar 0 \<or>
          (\<exists>s. latest_snapshot month s \<and> r_rpt30 e = rnd ar (sql_div ar total s * 1000))))"
proof (intro conjI)
  let ?groups = "daily_groups rows" and ?in = "\<lambda>g. nullable (\<lambda>k. d_day g \<ge> today - (k - 1)) days"
  have series: "series = map (show_daily ar ?groups) (filter ?in ?groups)"
    using assms(1) by (simp add: listValidatorDailyEpochRewards_def assms(2) assms(3) [symmetric] Let_def)
  show "map r_day series = filter (\<lambda>t. nullable (\<lambda>k. t \<ge> today - (k - 1)) days) (sorted_list_of_set (snd ` set rows))"
    by (simp add: series daily_groups_def filter_map comp_def show_daily_def day_group_def)
  show "\<forall>e \<in> set series. r_count e = length (filter (\<lambda>(_, t). t = r_day e) rows) \<and>
      (let month = month_to (r_day e) rows; total = sum_list (map (\<lambda>(pen, _). delegators_total_reward pen) month)
       in (\<forall>(pen, _) \<in> set month. \<not> total_staked_snapshot pen > 0) \<and> r_rpt30 e = rnd ar 0 \<or>
          (\<exists>s. latest_snapshot month s \<and> r_rpt30 e = rnd ar (sql_div ar total s * 1000)))"
  proof
    fix e assume "e \<in> set series"
    then obtain t where e: "e = show_daily ar ?groups (day_group (on_day rows t) t)"
      by (auto simp: series daily_groups_def)
    have "r_count e = length (filter (\<lambda>(_, u). u = r_day e) rows)" by (simp add: e show_daily_def day_group_def on_day_def)
    moreover have "r_rpt30 e = rnd ar (rolling_rpt30 ar (frame ?groups (r_day e)))" by (simp add: e show_daily_def)
    moreover have "rolling_rpt30 ar (frame ?groups (r_day e)) = (let snapshots = List.map_filter d_snapshot (frame ?groups (r_day e))
       in if snapshots \<noteq> [] \<and> last snapshots > 0 then sql_div ar (sum_list (map d_delegators_sum (frame ?groups (r_day e)))) (last snapshots) * 1000 else 0)"
      by (simp add: rolling_rpt30_def split: list.split)
    ultimately show "r_count e = length (filter (\<lambda>(_, t). t = r_day e) rows) \<and>
      (let month = month_to (r_day e) rows; total = sum_list (map (\<lambda>(pen, _). delegators_total_reward pen) month)
       in (\<forall>(pen, _) \<in> set month. \<not> total_staked_snapshot pen > 0) \<and> r_rpt30 e = rnd ar 0 \<or>
          (\<exists>s. latest_snapshot month s \<and> r_rpt30 e = rnd ar (sql_div ar total s * 1000)))"
      using no_snapshots [of rows "r_day e"] rolling_snapshot [of rows "r_day e"] rolling_sum [of rows "r_day e"]
      by (cases "List.map_filter d_snapshot (frame ?groups (r_day e)) = []") (auto simp: Let_def)
  qed
qed

section \<open>The theorems on a small database\<close>

text \<open>Two epochs of the sample validator that ended, on the first day\<close>

definition two_epochs_db :: db where
  "two_epochs_db = rewarded_db\<lparr>
     delegate_reward := [],
     posdao_epoch := [\<lparr>epoch_id = 0, block_start = 0, block_end = Some 5\<rparr>, \<lparr>epoch_id = 1, block_start = 6, block_end = Some 9\<rparr>],
     posdao_epoch_node := posdao_epoch_node rewarded_db @
       map (\<lambda>r. r\<lparr>id_posdao_epoch := 1, delegators_total_reward := 5\<rparr>) (posdao_epoch_node rewarded_db)\<rparr>"

definition plain_rewards :: reward_query where
  "plain_rewards = \<lparr>rq_from_epoch = None, rq_to_epoch = None, rq_from_time = None, rq_to_time = None,
     rq_limit = None, rq_offset = None\<rparr>"

lemma two_epochs_valid: "valid_db two_epochs_db"
  by code_simp

lemma epoch_reward_pages_witness:
  "map e_epoch (concat (map (\<lambda>k. listed (listValidatorEpochRewards Some (\<lambda>n. if even n then rev else id) k
     (reward_query_page plain_rewards 1 k) two_epochs_db ''0xAA'')) [0..<2])) = [1, 0]"
proof -
  let ?rows = "epoch_reward_rows (\<lambda>pe h. True) two_epochs_db ''0xAA''"
  have cond: "reward_conditions Some plain_rewards = Inr (\<lambda>pe h. True)"
    by (simp add: reward_conditions_def plain_rewards_def time_bound_def bound_def truthy_def nullable_def)
  have "length ?rows \<le> 2 * 1" "map e_epoch (map show_epoch_reward (sort_key (\<lambda>(pen, pe, h). - epoch_id pe) ?rows)) = [1, 0]"
    by code_simp+
  then show ?thesis
    using epoch_reward_pages [OF two_epochs_valid _ cond _ _ refl, of "\<lambda>n. if even n then rev else id" 1 "''0xAA''" 2 id]
    by (simp add: id_def)
qed

lemma daily_series_follows_epochs_witness:
  "\<exists>e :: daily_reward. listValidatorDailyEpochRewards exact 3 (Some ''1y'') two_epochs_db ''0xAA'' = Inr [e] \<and>
     r_count e = 2 \<and> r_rpt30 e = 12"
proof -
  have s: "listValidatorDailyEpochRewards exact 3 (Some ''1y'') two_epochs_db ''0xAA'' =
      Inr [\<lparr>r_day = 0, r_rpt30 = 12, r_pool_sum = 20, r_owner_sum = 6, r_count = 2\<rparr>]" by code_simp
  have "rangeDays (Some ''1y'') = Inr (Some 365)" by code_simp
  from daily_series_follows_epochs [OF s this refl] s show ?thesis by auto
qed


end
