(* ===== verification/NameHistory.thy ===== *)
theory NameHistory imports NamesApi begin

text \<open>
  What the API tells about a name after an import: each column of its row is the value that the last
  event of the name gave (for the creation: the first one), and its history is its events.
\<close>

section \<open>What an event tells about its name\<close>

fun name_of :: "contract_event \<Rightarrow> buffer option" where
  "name_of (NameRegisteredEvent n b t l p h d x i) = Some (hexToBuffer h)"
| "name_of (NameActivatedEvent n b t l p h d i) = Some (hexToBuffer h)"
| "name_of (NameDeactivatedEvent n b t l p h d i) = Some (hexToBuffer h)"
| "name_of (NameRenewedEvent n b t l p h d x i) = Some (hexToBuffer h)"
| "name_of (NameBlockedSetEvent n b t l h d k i) = Some (hexToBuffer h)"
| "name_of (DmdNameTransferEvent n b t l f p k i) = Some (hexToBuffer (tokenIdToLabelHash k))"
| "name_of _ = None"

fun label_told :: "contract_event \<Rightarrow> string option" where
  "label_told (NameRegisteredEvent n b t l p h d x i) = Some d"
| "label_told (NameActivatedEvent n b t l p h d i) = Some d"
| "label_told (NameDeactivatedEvent n b t l p h d i) = Some d"
| "label_told (NameRenewedEvent n b t l p h d x i) = Some d"
| "label_told (NameBlockedSetEvent n b t l h d k i) = Some d"
| "label_told _ = None"

fun receiver :: "contract_event \<Rightarrow> buffer option" where
  "receiver (DmdNameTransferEvent n b t l f p k i) = Some (addressToBuffer p)"
| "receiver _ = None"

fun minter :: "contract_event \<Rightarrow> buffer option" where
  "minter (DmdNameTransferEvent n b t l f p k i) =
     (if isMint (DmdNameTransferEvent n b t l f p k i) then Some (addressToBuffer p) else None)"
| "minter _ = None"

fun creation_told :: "contract_event \<Rightarrow> int option" where
  "creation_told (NameRegisteredEvent n b t l p h d x i) = Some t"
| "creation_told (DmdNameTransferEvent n b t l f p k i) =
     (if isMint (DmdNameTransferEvent n b t l f p k i) then Some t else None)"
| "creation_told _ = None"

fun expiry_told :: "contract_event \<Rightarrow> int option" where
  "expiry_told (NameRegisteredEvent n b t l p h d x i) = Some x"
| "expiry_told (NameRenewedEvent n b t l p h d x i) = Some x"
| "expiry_told _ = None"

fun activity_told :: "contract_event \<Rightarrow> bool option" where
  "activity_told (NameActivatedEvent n b t l p h d i) = Some True"
| "activity_told (NameDeactivatedEvent n b t l p h d i) = Some False"
| "activity_told (DmdNameTransferEvent n b t l f p k i) =
     (if isMint (DmdNameTransferEvent n b t l f p k i) then Some False else None)"
| "activity_told _ = None"

fun blocking_told :: "contract_event \<Rightarrow> bool option" where
  "blocking_told (NameBlockedSetEvent n b t l h d k i) = Some k"
| "blocking_told _ = None"

text \<open>The line that an event gets in the history\<close>

fun entry_of :: "contract_event \<Rightarrow> DmdNameEvent option" where
  "entry_of (NameRegisteredEvent n b t l p h d x i) = Some
     \<lparr>ne_label_hash = hexToBuffer h, ne_label = Some d, event_type = ''Registered'',
      actor_address = Some (addressToBuffer p), from_address = None, to_address = None,
      ne_expiration = Some x, ne_blocked = None, ne_block_number = b, ne_block_timestamp = t,
      tx_hash = Some (hexToBuffer i)\<rparr>"
| "entry_of (NameActivatedEvent n b t l p h d i) = Some
     \<lparr>ne_label_hash = hexToBuffer h, ne_label = Some d, event_type = ''Activated'',
      actor_address = Some (addressToBuffer p), from_address = None, to_address = None,
      ne_expiration = None, ne_blocked = None, ne_block_number = b, ne_block_timestamp = t,
      tx_hash = Some (hexToBuffer i)\<rparr>"
| "entry_of (NameDeactivatedEvent n b t l p h d i) = Some
     \<lparr>ne_label_hash = hexToBuffer h, ne_label = Some d, event_type = ''Deactivated'',
      actor_address = Some (addressToBuffer p), from_address = None, to_address = None,
      ne_expiration = None, ne_blocked = None, ne_block_number = b, ne_block_timestamp = t,
      tx_hash = Some (hexToBuffer i)\<rparr>"
| "entry_of (NameRenewedEvent n b t l p h d x i) = Some
     \<lparr>ne_label_hash = hexToBuffer h, ne_label = Some d, event_type = ''Renewed'',
      actor_address = Some (addressToBuffer p), from_address = None, to_address = None,
      ne_expiration = Some x, ne_blocked = None, ne_block_number = b, ne_block_timestamp = t,
      tx_hash = Some (hexToBuffer i)\<rparr>"
| "entry_of (NameBlockedSetEvent n b t l h d k i) = Some
     \<lparr>ne_label_hash = hexToBuffer h, ne_label = Some d, event_type = ''BlockedSet'',
      actor_address = None, from_address = None, to_address = None, ne_expiration = None,
      ne_blocked = Some k, ne_block_number = b, ne_block_timestamp = t, tx_hash = Some (hexToBuffer i)\<rparr>"
| "entry_of (DmdNameTransferEvent n b t l f p k i) = Some
     \<lparr>ne_label_hash = hexToBuffer (tokenIdToLabelHash k), ne_label = None, event_type = ''Transfer'',
      actor_address = Some (addressToBuffer p), from_address = Some (addressToBuffer f),
      to_address = Some (addressToBuffer p), ne_expiration = None, ne_blocked = None,
      ne_block_number = b, ne_block_timestamp = t, tx_hash = Some (hexToBuffer i)\<rparr>"
| "entry_of _ = None"

fun transfer_of :: "contract_event \<Rightarrow> shown_transfer option" where
  "transfer_of (DmdNameTransferEvent n b t l f p k i) = Some
     \<lparr>tr_timestamp = t, tr_from = bufToHex (Some (addressToBuffer f)),
      tr_to = bufToHex (Some (addressToBuffer p)), tr_tx_hash = bufToHex (Some (hexToBuffer i))\<rparr>"
| "transfer_of _ = None"

text \<open>The last and the first value that a run of events gives\<close>

definition latest :: "('e \<Rightarrow> 'a option) \<Rightarrow> 'e list \<Rightarrow> 'a option" where
  "latest f es = fold (\<lambda>e v. coalesce (f e) v) es None"

definition earliest :: "('e \<Rightarrow> 'a option) \<Rightarrow> 'e list \<Rightarrow> 'a option" where
  "earliest f es = fold (\<lambda>e v. coalesce v (f e)) es None"

lemma latest_snoc [simp]: "latest f [] = None" "latest f (es @ [e]) = coalesce (f e) (latest f es)"
  by (simp_all add: latest_def)

lemma earliest_snoc [simp]: "earliest f [] = None" "earliest f (es @ [e]) = coalesce (earliest f es) (f e)"
  by (simp_all add: earliest_def)

definition own_events :: "buffer \<Rightarrow> contract_event list \<Rightarrow> contract_event list" where
  "own_events h events = filter (\<lambda>e. name_of e = Some h) events"

section \<open>The row of a name\<close>

definition row_tells :: "buffer \<Rightarrow> contract_event list \<Rightarrow> DmdName option \<Rightarrow> bool" where
  "row_tells h own row \<longleftrightarrow> (case row of None \<Rightarrow> own = []
     | Some r \<Rightarrow> own \<noteq> [] \<and> label_hash r = h \<and> label r = latest label_told own \<and>
         name_owner r = latest receiver own \<and> name_creator r = earliest minter own \<and>
         created_timestamp r = earliest creation_told own \<and> expiration r = latest expiry_told own \<and>
         active r = latest activity_told own \<and> blocked r = latest blocking_told own)"

lemma coalesce_None [simp]: "coalesce v None = v" "coalesce None v = v"
  by (simp_all add: coalesce_def split: option.splits)

lemma upserted_tells:
  assumes "upserted e = Some r"
  shows "name_of e = Some (label_hash r) \<and> label r = label_told e \<and> name_owner r = receiver e \<and>
    name_creator r = minter e \<and> created_timestamp r = creation_told e \<and> expiration r = expiry_told e \<and>
    active r = activity_told e \<and> blocked r = blocking_told e"
  using assms by (cases e) (auto simp: Let_def)

lemma unnamed_events: "upserted e = None \<longleftrightarrow> name_of e = None"
  by (cases e) (auto simp: Let_def)

lemma register_tells:
  assumes "row_tells h (own_events h es) (names h)"
  shows "row_tells h (own_events h (es @ [e])) (register e names h)"
proof (cases "name_of e = Some h")
  case True
  then obtain r where r: "upserted e = Some r" using unnamed_events [of e] by (cases "upserted e") auto
  note tells = upserted_tells [OF r]
  then have "label_hash r = h" using True by simp
  then show ?thesis
    using assms r tells True
    by (auto simp: register_def row_tells_def own_events_def merge_name_def split: option.splits)
next
  case False
  then have "register e names h = names h"
    using upserted_tells [of e] by (auto simp: register_def split: option.splits)
  then show ?thesis using assms False by (simp add: own_events_def)
qed

lemma directory_tells: "row_tells h (own_events h events) (fold register events Map.empty h)"
proof (induction events rule: rev_induct)
  case (snoc e es)
  then show ?case using register_tells by simp
qed (simp add: row_tells_def own_events_def)

section \<open>The history of a name\<close>

lemma accept_entry:
  assumes "accept e m = (Inr (), m')"
  shows "dmd_name_events m' = dmd_name_events m @ List.map_filter entry_of [e]"
proof (cases "upserted e")
  case None
  then have "name_tables m' = name_tables m" "entry_of e = None"
    using other_events_keep_names [OF None] assms
    by (auto simp: untouched_def dest: spec [of _ m]) (cases e; auto simp: Let_def)
  then show ?thesis by (simp add: map_filter_def)
next
  case (Some row)
  obtain ev where ev: "entry_of e = Some ev" using Some by (cases e) auto
  have "accept e = andThen (upsertDmdName row) (\<lambda>_. insertDmdNameEvent ev)"
    using Some ev
    by (cases "isMint e"; cases e) (auto simp: Let_def visitNameRegisteredEvent_def visitNameActivatedEvent_def
        visitNameDeactivatedEvent_def visitNameRenewedEvent_def visitNameBlockedSetEvent_def
        visitDmdNameTransferEvent_def name_row_def name_event_row_def)
  then have "andThen (upsertDmdName row) (\<lambda>_. insertDmdNameEvent ev) m = (Inr (), m')" using assms by simp
  then show ?thesis using ev
    by (auto simp: andThen_Inr upsertDmdName_def insertDmdNameEvent_def map_filter_def split: if_splits)
qed

interpretation name_log: timed_actions "\<lambda>_. 0" accept "\<lambda>t m. True" dmd_name_events
    "\<lambda>e l. l @ List.map_filter entry_of [e]"
  by unfold_locales (auto dest: accept_entry)

lemma fold_entries_append: "fold (\<lambda>e l. l @ List.map_filter entry_of [e]) events l = l @ List.map_filter entry_of events"
  by (induction events arbitrary: l) (simp_all add: map_filter_def)

lemma entry_fields:
  "entry_of e = Some ev \<Longrightarrow> name_of e = Some (ne_label_hash ev) \<and> ne_block_number ev = blockNumber e \<and>
     (transfer_of e = (if event_type ev = ''Transfer'' then Some (show_transfer ev) else None))"
  "entry_of e = None \<longleftrightarrow> name_of e = None"
  by (cases e; auto simp: show_transfer_def)+

lemma entries_of_name:
  "filter (\<lambda>ev. ne_label_hash ev = h) (List.map_filter entry_of events) =
     List.map_filter entry_of (own_events h events)"
proof (induction events)
  case (Cons e es)
  then show ?case using entry_fields [of e]
    by (cases "entry_of e") (auto simp: map_filter_def own_events_def)
qed (simp add: map_filter_def own_events_def)

lemma transfers_of_entries:
  "map show_transfer (filter (\<lambda>ev. event_type ev = ''Transfer'') (List.map_filter entry_of events)) =
     List.map_filter transfer_of events"
proof (induction events)
  case (Cons e es)
  have "entry_of e = None \<Longrightarrow> transfer_of e = None" by (cases e) auto
  then show ?case using Cons entry_fields(1) [of e] by (cases "entry_of e") (auto simp: map_filter_def)
qed (simp add: map_filter_def)

lemma entries_sorted:
  assumes "sorted (map blockNumber events)"
  shows "sorted (map ne_block_number (List.map_filter entry_of events))"
proof -
  have blocks: "map ne_block_number (List.map_filter entry_of es) =
      map blockNumber (filter (\<lambda>e. entry_of e \<noteq> None) es)" for es
    by (induction es) (auto simp: map_filter_def dest: entry_fields(1))
  show ?thesis unfolding blocks by (rule sorted_filter [OF assms])
qed

lemma sort_by_block: "sorted (map blockNumber events) \<Longrightarrow>
    sort_key ne_block_number (List.map_filter entry_of events) = List.map_filter entry_of events"
  by (intro sort_key_id_if_sorted entries_sorted)

text \<open>The tables after an import into empty ones\<close>

lemma imported_names:
  assumes "dmd_names m = []" "dmd_name_events m = []" "forEach events accept m = (Inr (), m')"
  shows "distinct (map label_hash (dmd_names m'))"
    and "row_tells h (own_events h events) (directory m' h)"
    and "dmd_name_events m' = List.map_filter entry_of events"
proof -
  have ok: "names_ok m" using assms(1,2) by (simp add: names_ok_def)
  note run = name_directory.run_ok [OF ok _ assms(3), of 0]
    name_directory.run_abstraction [OF ok _ assms(3), of 0]
  show "distinct (map label_hash (dmd_names m'))" using run(1) by (simp add: names_ok_def map_replicate_const)
  have "directory m = Map.empty" using assms(1) by (simp add: directory_def fun_eq_iff lookup_None)
  then have dir: "directory m' = fold register events Map.empty" using run(2) by (simp add: map_replicate_const)
  show "row_tells h (own_events h events) (directory m' h)" unfolding dir by (rule directory_tells)
  show "dmd_name_events m' = List.map_filter entry_of events"
    by (rule trans [OF name_log.run_abstraction [OF TrueI _ assms(3), of 0]])
      (simp_all only: fold_entries_append assms(2) map_replicate_const, simp_all)
qed

lemma status_of_row:
  assumes "row_tells h own (Some r)"
  shows "STATUS_SQL now r = (if latest blocking_told own = Some True then ''blocked''
      else if \<exists>x. latest expiry_told own = Some x \<and> x \<le> now then ''expired''
      else if latest activity_told own = Some True then ''active'' else ''inactive'')"
  using assms by (auto simp: STATUS_SQL_def row_tells_def coalesce_def split: option.splits)

context postgres_order begin

lemma take_one:
  assumes "take 1 (order_by pg n le rows) = []"
  shows "rows = []"
  using assms same_rows [of n le rows] by (cases "order_by pg n le rows") auto

lemma take_one_in:
  assumes "take 1 (order_by pg n le rows) = r # rs"
  shows "r \<in> set rows"
proof -
  have "r \<in> set (take 1 (order_by pg n le rows))" using assms by simp
  then have "r \<in> set (order_by pg n le rows)" by (rule in_set_takeD)
  then show ?thesis using same_rows [of n le rows] mset_eq_setD by blast
qed

end

text \<open>C9: After the import of any events in block order into empty tables, the history of a name is found
  exactly when it is the last label told of some name; it tells the receiver of the name's last
  transfer as owner, the receiver of its first mint as creator, the last expiration, blocking and
  activity as status, all events of the name in order and its transfers.\<close>

theorem imported_name_history:
  assumes "postgres_order pg" and "dmd_names m = []" and "dmd_name_events m = []"
    and "sorted (map blockNumber events)" and "forEach events accept m = (Inr (), m')"
  shows "case getNameHistory pg n now lab m' of
      None \<Rightarrow> \<forall>h. map_option to_lower (latest label_told (own_events h events)) \<noteq> Some (to_lower lab)
    | Some nh \<Rightarrow> \<exists>h own. own = own_events h events \<and> own \<noteq> [] \<and> nh_label_hash nh = bufToHex (Some h) \<and>
        nh_name nh = latest label_told own \<and> map_option to_lower (nh_name nh) = Some (to_lower lab) \<and>
        nh_owner nh = bufToHex (latest receiver own) \<and> nh_creator nh = bufToHex (earliest minter own) \<and>
        nh_created_at nh = earliest creation_told own \<and> nh_expiration nh = latest expiry_told own \<and>
        nh_blocked nh = (latest blocking_told own = Some True) \<and>
        nh_status nh = (if latest blocking_told own = Some True then ''blocked''
          else if \<exists>x. latest expiry_told own = Some x \<and> x \<le> now then ''expired''
          else if latest activity_told own = Some True then ''active'' else ''inactive'') \<and>
        nh_events nh = map show_event (List.map_filter entry_of own) \<and>
        nh_transfers nh = List.map_filter transfer_of own"
proof -
  note keys = imported_names(1) [OF assms(2,3,5)] and told = imported_names(2) [OF assms(2,3,5)]
    and log = imported_names(3) [OF assms(2,3,5)]
  let ?named = "filter (\<lambda>r. map_option to_lower (label r) = Some (to_lower lab)) (dmd_names m')"
  let ?picked = "take 1 (order_by pg n (\<lambda>_ _. True) ?named)"
  show ?thesis
  proof (cases ?picked)
    case Nil
    then have none: "?named = []" by (rule postgres_order.take_one [OF assms(1)])
    have "map_option to_lower (latest label_told (own_events h events)) \<noteq> Some (to_lower lab)" for h
    proof (cases "directory m' h")
      case None
      then show ?thesis using told [of h] by (simp add: row_tells_def)
    next
      case (Some r)
      then have "r \<in> set (dmd_names m')" using lookup_SomeD by (metis directory_def)
      then show ?thesis using told [of h] Some none by (auto simp: row_tells_def filter_empty_conv)
    qed
    then show ?thesis using Nil by (simp add: getNameHistory_def)
  next
    case (Cons r rs)
    then have r: "r \<in> set (dmd_names m')" "map_option to_lower (label r) = Some (to_lower lab)"
      using postgres_order.take_one_in [OF assms(1) Cons] by auto
    have "directory m' (label_hash r) = Some r"
      unfolding directory_def by (rule lookup_unique [OF keys r(1)])
    then have tells: "row_tells (label_hash r) (own_events (label_hash r) events) (Some r)" using told by metis
    let ?own = "own_events (label_hash r) events"
    have "sorted (map blockNumber ?own)" unfolding own_events_def by (rule sorted_filter [OF assms(4)])
    then have rows: "sort_key ne_block_number (filter (\<lambda>e. ne_label_hash e = label_hash r) (dmd_name_events m')) =
        List.map_filter entry_of ?own"
      unfolding log entries_of_name by (rule sort_by_block)
    note status = status_of_row [OF tells, of now]
    note tells = tells [unfolded row_tells_def option.case]
    have answer: "getNameHistory pg n now lab m' = Some \<lparr>nh_name = label r,
        nh_label_hash = bufToHex (Some (label_hash r)), nh_creator = bufToHex (name_creator r),
        nh_created_at = created_timestamp r, nh_created_block = created_block r,
        nh_owner = bufToHex (name_owner r), nh_status = STATUS_SQL now r, nh_expiration = expiration r,
        nh_blocked = (case blocked r of None \<Rightarrow> False | Some b \<Rightarrow> b),
        nh_events = map show_event (List.map_filter entry_of ?own),
        nh_transfers = List.map_filter transfer_of ?own\<rparr>"
      by (simp only: getNameHistory_def Cons rows transfers_of_entries Let_def list.case)
    show ?thesis
      unfolding answer option.case using tells r(2)
      by (intro exI [of _ "label_hash r"] exI [of _ ?own]) (simp add: status split: option.split)
  qed
qed

end
