(* ===== verification/NamePages.thy ===== *)
theory NamePages imports NameHistory "HOL-Library.Char_ord" begin

text \<open>
  Paging through the directory of names: what its pages show together when the rows can be told
  apart by the column they are sorted by, and when they cannot.
\<close>

section \<open>Orders\<close>

lemma total_preorder_nulls_last: "total_preorder le \<Longrightarrow> total_preorder (nulls_last le)"
proof -
  assume le: "total_preorder le"
  have "nulls_last le a b \<or> nulls_last le b a" for a b
    using le by (cases a; cases b) (auto simp: total_preorder_def)
  moreover have "nulls_last le a b \<Longrightarrow> nulls_last le b c \<Longrightarrow> nulls_last le a c" for a b c
    using le by (cases a; cases b; cases c) (auto simp: total_preorder_def)
  ultimately show ?thesis unfolding total_preorder_def by blast
qed

lemma total_preorder_directed:
  assumes "total_preorder le"
  shows "total_preorder (directed asc le)"
proof -
  have total: "le x y \<or> le y x" and trans: "le x y \<Longrightarrow> le y z \<Longrightarrow> le x z" for x y z
    using assms unfolding total_preorder_def by blast+
  have "directed asc le = (if asc then le else (\<lambda>x y. le y x))" by (simp add: directed_def fun_eq_iff)
  moreover have "total_preorder (\<lambda>x y. le y x)" unfolding total_preorder_def using total trans by blast
  ultimately show ?thesis using assms by simp
qed

lemma total_preorder_by: "total_preorder le \<Longrightarrow> total_preorder (\<lambda>r s. le (f r) (f s))"
  unfolding total_preorder_def by blast

lemma total_preorder_linorder [simp]: "total_preorder ((\<le>) :: 'a :: linorder \<Rightarrow> 'a \<Rightarrow> bool)"
  by (auto simp: total_preorder_def)

lemma total_preorder_column:
  "total_preorder le \<Longrightarrow> total_preorder (\<lambda>r s. nulls_last (directed asc le) (f r) (f s))"
  by (rule total_preorder_by [OF total_preorder_nulls_last [OF total_preorder_directed]])

lemma sort_order_preorder:
  assumes "total_preorder (collate pg)"
  shows "total_preorder (sort_order pg c asc)"
proof -
  have "sort_order pg c asc = (case c of
       LabelColumn \<Rightarrow> \<lambda>r s. nulls_last (directed asc (collate pg)) (label r) (label s)
     | OwnerColumn \<Rightarrow> \<lambda>r s. nulls_last (directed asc (\<le>)) (name_owner r) (name_owner s)
     | CreatedColumn \<Rightarrow> \<lambda>r s. nulls_last (directed asc (\<le>)) (created_timestamp r) (created_timestamp s)
     | ExpirationColumn \<Rightarrow> \<lambda>r s. nulls_last (directed asc (\<le>)) (expiration r) (expiration s))"
    by (auto simp: sort_order_def fun_eq_iff split: sort_column.splits)
  then show ?thesis using assms by (cases c) (simp_all add: total_preorder_column)
qed

text \<open>Sorted lists of the same rows are the same list when no two rows are tied.\<close>

lemma sorted_rows_unique:
  assumes "sorted_wrt le xs" "sorted_wrt le ys" "mset xs = mset ys" "total_preorder le"
    and "\<And>x y. x \<in> set xs \<Longrightarrow> y \<in> set xs \<Longrightarrow> le x y \<Longrightarrow> le y x \<Longrightarrow> x = y"
  shows "xs = ys"
  using assms(1-3,5)
proof (induction xs arbitrary: ys)
  case (Cons x xs)
  then obtain y ys' where ys: "ys = y # ys'" by (cases ys) auto
  have sets: "set (x # xs) = set ys" using Cons.prems(3) by (rule mset_eq_setD)
  have refl: "le z z" for z using assms(4) by (auto simp: total_preorder_def)
  have "le x y" "le y x"
    using sets Cons.prems(1,2) ys refl by (auto, metis list.set_intros(1) set_ConsD, metis list.set_intros(1) set_ConsD)
  then have "x = y" using Cons.prems(4) sets ys by auto
  moreover have "xs = ys'"
    using Cons.IH [of ys'] Cons.prems ys \<open>x = y\<close> by simp
  ultimately show ?case using ys by simp
qed simp

section \<open>Pages of the directory\<close>

definition names_page :: "names_query \<Rightarrow> nat \<Rightarrow> nat \<Rightarrow> names_query" where
  "names_page q per k = q\<lparr>nq_limit := Some (decimal per), nq_offset := Some (decimal (k * per))\<rparr>"

lemma names_page_fields [simp]:
  "nq_sort (names_page q per k) = nq_sort q" "nq_order (names_page q per k) = nq_order q"
  "names_conditions dp now (names_page q per k) = names_conditions dp now q"
  by (simp_all add: names_page_def names_conditions_def fun_eq_iff)

lemma names_page_bounds:
  assumes "1 \<le> per" "per \<le> 500"
  shows "page_limit 50 500 (nq_limit (names_page q per k)) = int per"
    and "page_offset (nq_offset (names_page q per k)) = int (k * per)"
  using assms by (auto simp: page_limit_def page_offset_def names_page_def or_number_def)

definition answered :: "'a listing result \<Rightarrow> 'a list" where
  "answered r = (case r of Inr l \<Rightarrow> list_data l | Inl _ \<Rightarrow> [])"

text \<open>The pages of the directory of names, each read by a statement of its own, are together the
  directory as one statement gives it, each name once and none missing, provided that no two of the
  listed names are equal in the column they are sorted by; every page tells the total.\<close>

theorem name_pages_cover_directory:
  assumes "postgres_order pg" and "sortColumn (nq_sort q) = Inr c" and "1 \<le> per" and "per \<le> 500"
    and "le = sort_order pg c (nq_order q = Some ''asc'')"
    and "rows = filter (names_conditions dp now q) (dmd_names m)" and "length rows \<le> N * per"
    and "\<And>r s. r \<in> set rows \<Longrightarrow> s \<in> set rows \<Longrightarrow> le r s \<Longrightarrow> le s r \<Longrightarrow> r = s"
  shows "concat (map (\<lambda>k. answered (listNames pg dp (stmt k) now (names_page q per k) m)) [0..<N]) =
      map (show_name now) (order_by pg n le rows) \<and>
    (\<forall>k. \<exists>l. listNames pg dp (stmt k) now (names_page q per k) m = Inr l \<and> list_count l = length rows)"
proof -
  let ?sorted = "order_by pg n le rows"
  have le: "total_preorder le"
    unfolding assms(5) by (rule sort_order_preorder [OF postgres_order.texts [OF assms(1)]])
  have same: "order_by pg i le rows = ?sorted" for i
  proof (rule sorted_rows_unique [OF _ _ _ le])
    show "sorted_wrt le (order_by pg i le rows)" "sorted_wrt le ?sorted"
      by (rule postgres_order.in_order [OF assms(1) le])+
    show "mset (order_by pg i le rows) = mset ?sorted" by (simp add: postgres_order.same_rows [OF assms(1)])
    show "x = y" if "x \<in> set (order_by pg i le rows)" "y \<in> set (order_by pg i le rows)" "le x y" "le y x" for x y
      using that assms(8) mset_eq_setD [OF postgres_order.same_rows [OF assms(1), of i le rows]] by metis
  qed
  have page: "listNames pg dp (stmt k) now (names_page q per k) m = Inr
      \<lparr>list_data = map (show_name now) (take per (drop (k * per) ?sorted)), list_count = length rows,
       list_limit = int per, list_offset = int (k * per)\<rparr>" for k
    using names_page_bounds [OF assms(3,4), of q k] same [of "stmt k"]
    by (simp add: listNames_def assms(2) answer_page_def flip: assms(5,6) del: of_nat_mult)
  have "length ?sorted = length rows"
    using postgres_order.same_rows [OF assms(1)] by (metis size_mset)
  moreover have "concat (map (\<lambda>k. map f (take per (drop (k * per) xs))) [0..<N]) = map f (take (N * per) xs)"
    for f :: "DmdName \<Rightarrow> listed_name" and xs
    using arg_cong [OF concat_slices [of per xs N], of "map f"] by (simp add: map_concat comp_def)
  ultimately show ?thesis using assms(7) by (simp add: page answered_def)
qed

section \<open>A server\<close>

fun insert_by :: "('a \<Rightarrow> 'a \<Rightarrow> bool) \<Rightarrow> 'a \<Rightarrow> 'a list \<Rightarrow> 'a list" where
  "insert_by le x [] = [x]"
| "insert_by le x (y # ys) = (if le x y then x # y # ys else y # insert_by le x ys)"

definition sort_by :: "('a \<Rightarrow> 'a \<Rightarrow> bool) \<Rightarrow> 'a list \<Rightarrow> 'a list" where
  "sort_by le xs = foldr (insert_by le) xs []"

lemma mset_insert_by [simp]: "mset (insert_by le x xs) = add_mset x (mset xs)"
  by (induction xs) auto

lemma mset_sort_by [simp]: "mset (sort_by le xs) = mset xs"
  by (induction xs) (simp_all add: sort_by_def)

lemma set_insert_by [simp]: "set (insert_by le x xs) = insert x (set xs)"
  by (induction xs) auto

lemma sorted_insert_by:
  assumes "total_preorder le" "sorted_wrt le xs"
  shows "sorted_wrt le (insert_by le x xs)"
  using assms(2)
proof (induction xs)
  case (Cons y ys)
  have "le x y \<Longrightarrow> z \<in> set ys \<Longrightarrow> le x z" for z
    using Cons.prems assms(1) unfolding total_preorder_def by (metis sorted_wrt.simps(2))
  moreover have "\<not> le x y \<Longrightarrow> le y x" using assms(1) by (auto simp: total_preorder_def)
  ultimately show ?case using Cons by auto
qed simp

lemma sorted_sort_by: "total_preorder le \<Longrightarrow> sorted_wrt le (sort_by le xs)"
  by (induction xs) (simp_all add: sort_by_def sorted_insert_by)

text \<open>It returns rows that are tied in the order of the table or in the opposite one, in turn, as a
  server may whose plan changes between two statements.\<close>

definition alternating :: postgres where
  "alternating = \<lparr>collate = (\<le>),
     order_by = (\<lambda>n le rows. sort_by le (if even n then rows else rev rows))\<rparr>"

interpretation alternating: postgres_order alternating
  by unfold_locales (simp_all add: alternating_def sorted_sort_by)

section \<open>Names of one block\<close>

definition twins :: "contract_event list" where
  "twins =
     [NameRegisteredEvent ''NameRegistered'' 5 50 1 ''0xaa''
        ''0x0000000000000000000000000000000000000000000000000000000000000007'' ''alice'' 900 ''0x01'',
      NameRegisteredEvent ''NameRegistered'' 5 50 2 ''0xbb''
        ''0x0000000000000000000000000000000000000000000000000000000000000008'' ''bob'' 900 ''0x02'']"

definition newest_first :: names_query where
  "newest_first = \<lparr>nq_search = None, nq_status = None, nq_created_from = None, nq_created_to = None,
     nq_expires_from = None, nq_expires_to = None, nq_sort = None, nq_order = None, nq_limit = None,
     nq_offset = None\<rparr>"

lemma two_pages:
  "fst (forEach twins accept new_manager) = Inr () \<and>
   map ln_name (concat (map (\<lambda>k. answered (listNames alternating (\<lambda>_. None) k 100 (names_page newest_first 1 k)
      (snd (forEach twins accept new_manager)))) [0, 1])) = [Some ''alice'', Some ''alice'']"
  by code_simp

text \<open>Names of one block have one creation time, and the directory is sorted by nothing else: after the
  import of two names of one block, a server that behaves as documented can answer the two pages of
  size 1 with the same name both times, so that the other name is on no page.\<close>

theorem name_pages_may_repeat:
  "\<exists>pg m. postgres_order pg \<and> forEach twins accept new_manager = (Inr (), m) \<and>
     map ln_name (concat (map (\<lambda>k. answered (listNames pg (\<lambda>_. None) k 100 (names_page newest_first 1 k) m))
       [0, 1])) = [Some ''alice'', Some ''alice'']"
  using two_pages alternating.postgres_order_axioms by (metis prod.collapse)

lemma name_pages_cover_directory_witness:
  "let m = snd (forEach twins accept new_manager); q = newest_first\<lparr>nq_sort := Some ''name''\<rparr> in
   map ln_name (concat (map (\<lambda>k. answered (listNames alternating (\<lambda>_. None) k 100 (names_page q 1 k) m)) [0..<2])) =
     [Some ''bob'', Some ''alice'']"
proof -
  let ?m = "snd (forEach twins accept new_manager)" and ?q = "newest_first\<lparr>nq_sort := Some ''name''\<rparr>"
  let ?rows = "filter (names_conditions (\<lambda>_. None) 100 ?q) (dmd_names ?m)"
  let ?le = "sort_order alternating LabelColumn (nq_order ?q = Some ''asc'')"
  have facts: "sortColumn (nq_sort ?q) = Inr LabelColumn" "length ?rows \<le> 2 * 1"
    "list_all (\<lambda>r. list_all (\<lambda>s. ?le r s \<and> ?le s r \<longrightarrow> r = s) ?rows) ?rows"
    "map ln_name (map (show_name 100) (order_by alternating 0 ?le ?rows)) = [Some ''bob'', Some ''alice'']"
    by code_simp+
  then have "r \<in> set ?rows \<Longrightarrow> s \<in> set ?rows \<Longrightarrow> ?le r s \<Longrightarrow> ?le s r \<Longrightarrow> r = s" for r s
    unfolding list_all_iff by blast
  from name_pages_cover_directory [where N = 2 and n = 0 and stmt = "\<lambda>k. k",
      OF alternating.postgres_order_axioms facts(1) _ _ refl refl facts(2) this]
  show ?thesis using facts(4) by (simp add: Let_def)
qed

lemma imported_name_history_witness:
  "case getNameHistory alternating 0 100 ''ALICE'' after_names of
     None \<Rightarrow> False | Some nh \<Rightarrow> \<exists>h own. own = own_events h sample_names \<and>
       nh_owner nh = bufToHex (latest receiver own) \<and> nh_owner nh = Some ''0xbb''"
proof -
  have none: "dmd_names new_manager = []" "dmd_name_events new_manager = []" by code_simp+
  have s: "sorted (map blockNumber sample_names)" by code_simp
  have found: "map_option nh_owner (getNameHistory alternating 0 100 ''ALICE'' after_names) = Some (Some ''0xbb'')"
    by code_simp
  from imported_name_history [OF alternating.postgres_order_axioms none s sample_names_run, where n = 0 and now = 100 and lab = "''ALICE''"]
  show ?thesis using found by (auto split: option.splits)
qed

end
