(* ===== verification/NodeApi.thy ===== *)
theory NodeApi imports RewardStats NamesApi begin

text \<open>
  The endpoints of the REST API on a node's history (src/db/express/src/controllers/node.ts) with the checks
  of their routes (routes/node.ts, middleware/params.ts), and those on the supply of coins
  (controllers/supply.ts).

  \<^item> Two endpoints write the address into the text of the statement. PostgreSQL reads it back as a string
    literal, with a doubled quote for a quote; what it answers when the text is another statement is the
    parameter \<open>other\<close>.
  \<^item> \<open>pick\<close> is the order in which PostgreSQL meets rows before it sorts them.
  \<^item> \<open>isHexadecimal\<close> is that of the validator library.
  \<^item> The balances come from the chain; \<open>fl\<close> rounds to a double.
\<close>

section \<open>Checked requests\<close>

definition checked :: "bool \<Rightarrow> 'a result \<Rightarrow> 'a result" where
  "checked valid answer = (if valid then answer else Inl (Thrown ''wrong-parameters''))"

definition validAddress :: "(string \<Rightarrow> bool) \<Rightarrow> string \<Rightarrow> bool" where
  "validAddress isHexadecimal address \<longleftrightarrow> isHexadecimal address \<and> length address = 42"

section \<open>The history of a node\<close>

abbreviation quote :: char where
  "quote \<equiv> CHR 39"

text \<open>The text that follows \<open>lower(\<close> in the statement\<close>

definition lower_argument :: "string \<Rightarrow> string" where
  "lower_argument address = quote # address @ [quote, CHR '')'']"

text \<open>A literal, after its opening quote, and the text after it\<close>

fun literal :: "string \<Rightarrow> (string \<times> string) option" where
  "literal [] = None"
| "literal [c] = (if c = quote then Some ([], []) else None)"
| "literal (c # d # s) =
     (if c = quote then (if d = quote then map_option (\<lambda>(l, r). (quote # l, r)) (literal s) else Some ([], d # s))
      else map_option (\<lambda>(l, r). (c # l, r)) (literal (d # s)))"

text \<open>The rows of a node, when the text is the one that is meant\<close>

definition rows_of_node :: "(string \<Rightarrow> 'a list result) \<Rightarrow> ('r list \<Rightarrow> 'r list) \<Rightarrow> ('r \<Rightarrow> buffer) \<Rightarrow> ('r \<Rightarrow> int) \<Rightarrow> ('r \<Rightarrow> 'a) \<Rightarrow> 'r list \<Rightarrow> string \<Rightarrow> 'a list result" where
  "rows_of_node other pick nodeOf blockOf answer rows address =
     (case literal (tl (lower_argument address)) of
        Some (l, r) \<Rightarrow> if r = '')'' then Inr (map answer (sort_key blockOf (pick (filter (\<lambda>x. bufferToAddress (nodeOf x) = to_lower l) rows))))
          else other (lower_argument address)
      | None \<Rightarrow> other (lower_argument address))"

record 'a counted =
  c_data :: "'a list"
  c_count :: nat

definition countAll :: "'a list \<Rightarrow> 'a counted" where
  "countAll rows = \<lparr>c_data = rows, c_count = length rows\<rparr>"

record score_view =
  sv_from_block :: int
  sv_to_block :: "int option"
  sv_bonus_score :: int
  sv_reason :: "(string \<times> int \<times> int) option"

text \<open>The subqueries for the reason, the change and the epoch read the same row, which its key makes
  unique; it is shown when the query parameter is the string true.\<close>

definition reason_of :: "db \<Rightarrow> BonusScoreHistory \<Rightarrow> (string \<times> int \<times> int) option" where
  "reason_of d r = map_option (\<lambda>x. (br_reason x, score_change x, br_epoch x))
     (find (\<lambda>x. node_pool_address x = bs_node r \<and> br_block_number x = bs_from_block r) (bonus_score_change_reasons d))"

definition show_score :: "bool \<Rightarrow> db \<Rightarrow> BonusScoreHistory \<Rightarrow> score_view" where
  "show_score includeReasons d r = \<lparr>sv_from_block = bs_from_block r, sv_to_block = bs_to_block r,
     sv_bonus_score = bs_score r, sv_reason = (if includeReasons then reason_of d r else None)\<rparr>"

definition listBonusScore ::
  "(string \<Rightarrow> score_view list result) \<Rightarrow> (BonusScoreHistory list \<Rightarrow> BonusScoreHistory list) \<Rightarrow> db \<Rightarrow> string option \<Rightarrow> string \<Rightarrow> score_view counted result" where
  "listBonusScore other pick d includeReasons address =
     await (rows_of_node other pick bs_node bs_from_block (show_score (includeReasons = Some ''true'') d) (bonus_score_history d) address)
       (\<lambda>rows. Inr (countAll rows))"

record stake_view =
  kv_from_block :: int
  kv_to_block :: int
  kv_stake_amount :: BigNumber

definition show_stake :: "StakeHistory \<Rightarrow> stake_view" where
  "show_stake r = \<lparr>kv_from_block = from_block r, kv_to_block = to_block r, kv_stake_amount = stake_amount r\<rparr>"

definition listStakeHistory :: "(string \<Rightarrow> stake_view list result) \<Rightarrow> (StakeHistory list \<Rightarrow> StakeHistory list) \<Rightarrow> db \<Rightarrow> string \<Rightarrow> stake_view counted result" where
  "listStakeHistory other pick d address =
     await (rows_of_node other pick sh_node from_block show_stake (stake_history d) address) (\<lambda>rows. Inr (countAll rows))"

text \<open>The reasons are asked for with a bound parameter.\<close>

record reason_view =
  yv_block_number :: int
  yv_epoch :: int
  yv_score_change :: int
  yv_previous_score :: int
  yv_new_score :: int
  yv_reason :: string

definition show_reason :: "BonusScoreChangeReason \<Rightarrow> reason_view" where
  "show_reason r = \<lparr>yv_block_number = br_block_number r, yv_epoch = br_epoch r, yv_score_change = score_change r,
     yv_previous_score = previous_score r, yv_new_score = new_score r, yv_reason = br_reason r\<rparr>"

definition listBonusScoreReasons :: "db \<Rightarrow> string \<Rightarrow> reason_view counted" where
  "listBonusScoreReasons d address = countAll (map show_reason (sort_key br_block_number
     (filter (\<lambda>r. bufferToAddress (node_pool_address r) = to_lower address) (bonus_score_change_reasons d))))"

text \<open>The routes\<close>

definition bonus_score_history_route ::
  "(string \<Rightarrow> bool) \<Rightarrow> (string \<Rightarrow> score_view list result) \<Rightarrow> (BonusScoreHistory list \<Rightarrow> BonusScoreHistory list) \<Rightarrow> db \<Rightarrow> string option \<Rightarrow> string \<Rightarrow> score_view counted result" where
  "bonus_score_history_route isHexadecimal other pick d includeReasons address =
     checked (validAddress isHexadecimal address) (listBonusScore other pick d includeReasons address)"

definition bonus_score_reasons_route :: "(string \<Rightarrow> bool) \<Rightarrow> db \<Rightarrow> string \<Rightarrow> reason_view counted result" where
  "bonus_score_reasons_route isHexadecimal d address =
     checked (validAddress isHexadecimal address) (Inr (listBonusScoreReasons d address))"

definition stake_history_route ::
  "(string \<Rightarrow> bool) \<Rightarrow> (string \<Rightarrow> stake_view list result) \<Rightarrow> (StakeHistory list \<Rightarrow> StakeHistory list) \<Rightarrow> db \<Rightarrow> string \<Rightarrow> stake_view counted result" where
  "stake_history_route isHexadecimal other pick d address =
     checked (validAddress isHexadecimal address) (listStakeHistory other pick d address)"

section \<open>What a validated address can ask for\<close>

lemma literal_plain: "quote \<notin> set s \<Longrightarrow> literal (s @ quote # CHR '')'' # r) = Some (s, CHR '')'' # r)"
proof (induction s rule: induct_list012)
  case (3 c d s)
  then show ?case by auto
qed auto

lemma literal_ends_at_quote:
  "quote \<notin> set s \<Longrightarrow> c \<noteq> quote \<Longrightarrow> literal (s @ quote # c # r) = Some (s, c # r)"
proof (induction s rule: induct_list012)
  case (3 x y s)
  then show ?case by auto
qed auto

lemma rows_of_node_plain:
  assumes "quote \<notin> set address"
  shows "rows_of_node other pick nodeOf blockOf answer rows address =
    Inr (map answer (sort_key blockOf (pick (filter (\<lambda>x. bufferToAddress (nodeOf x) = to_lower address) rows))))"
  using literal_plain [OF assms, of "[]"] by (simp add: rows_of_node_def lower_argument_def)

text \<open>An address that the route lets through is one string literal in the statement, so both endpoints
  answer with exactly the rows of that node by block, whatever PostgreSQL would answer to other statements;
  without the check a quote in the address would make the rest of it a part of the statement.\<close>

theorem validated_address_stays_a_literal:
  assumes "\<And>s c. isHexadecimal s \<Longrightarrow> c \<in> set s \<Longrightarrow> c \<noteq> quote" and "validAddress isHexadecimal address"
    and "quote \<notin> set s" and "c \<noteq> quote" and "c # r \<noteq> '')''"
  shows "bonus_score_history_route isHexadecimal other pick d reasons address = Inr (countAll (map (show_score (reasons = Some ''true'') d)
      (sort_key bs_from_block (pick (filter (\<lambda>r. bufferToAddress (bs_node r) = to_lower address) (bonus_score_history d)))))) \<and>
    stake_history_route isHexadecimal other' pick' d address = Inr (countAll (map show_stake
      (sort_key from_block (pick' (filter (\<lambda>r. bufferToAddress (sh_node r) = to_lower address) (stake_history d)))))) \<and>
    (tl (lower_argument attack) = s @ quote # c # r \<longrightarrow>
      listStakeHistory other' pick' d attack = await (other' (lower_argument attack)) (\<lambda>rows. Inr (countAll rows)))"
proof (intro conjI impI)
  have "quote \<notin> set address" using assms(1,2) by (auto simp: validAddress_def)
  note plain = rows_of_node_plain [OF this]
  show "bonus_score_history_route isHexadecimal other pick d reasons address = Inr (countAll (map (show_score (reasons = Some ''true'') d)
      (sort_key bs_from_block (pick (filter (\<lambda>r. bufferToAddress (bs_node r) = to_lower address) (bonus_score_history d))))))"
    by (simp add: bonus_score_history_route_def checked_def assms(2) listBonusScore_def plain)
  show "stake_history_route isHexadecimal other' pick' d address = Inr (countAll (map show_stake
      (sort_key from_block (pick' (filter (\<lambda>r. bufferToAddress (sh_node r) = to_lower address) (stake_history d))))))"
    by (simp add: stake_history_route_def checked_def assms(2) listStakeHistory_def plain)
  assume a: "tl (lower_argument attack) = s @ quote # c # r"
  show "listStakeHistory other' pick' d attack = await (other' (lower_argument attack)) (\<lambda>rows. Inr (countAll rows))"
    using assms(5) by (auto simp: listStakeHistory_def rows_of_node_def a literal_ends_at_quote [OF assms(3,4)])
qed

definition hex_only :: "string \<Rightarrow> bool" where
  "hex_only s \<longleftrightarrow> list_all (\<lambda>c. hex_val c \<noteq> None) (if take 2 s = ''0x'' then drop 2 s else s)"

lemma hex_only_quote: "hex_only s \<Longrightarrow> c \<in> set s \<Longrightarrow> c \<noteq> quote"
proof -
  assume s: "hex_only s" "c \<in> set s"
  have "hex_val quote = None" by code_simp
  moreover have "c \<in> set (take 2 s) \<or> c \<in> set (drop 2 s)" using s(2) by (metis append_take_drop_id Un_iff set_append)
  ultimately show "c \<noteq> quote" using s by (auto simp: hex_only_def list_all_iff split: if_splits)
qed

text \<open>The attack closes the literal and adds a condition that every row meets.\<close>

definition attack :: string where
  "attack = [quote] @ '') or (''  @ [quote] @ ''1'' @ [quote] @ ''='' @ [quote] @ ''1''"

lemma validated_address_stays_a_literal_witness:
  "\<exists>rows. stake_history_route hex_only (\<lambda>_. Inl (Thrown ''other'')) rev sample_db (''0x'' @ replicate 40 CHR ''a'') = Inr rows \<and>
     listStakeHistory (\<lambda>_. Inl (Thrown ''other'')) rev sample_db attack = Inl (Thrown ''other'')"
proof -
  have "validAddress hex_only (''0x'' @ replicate 40 CHR ''a'')" by code_simp
  moreover have "tl (lower_argument attack) = [] @ quote # CHR '')'' # tl (tl (tl (lower_argument attack)))"
    "CHR '')'' # tl (tl (tl (lower_argument attack))) \<noteq> '')''" by code_simp+
  ultimately show ?thesis
    using validated_address_stays_a_literal [where isHexadecimal = hex_only and address = "''0x'' @ replicate 40 CHR ''a''"
        and s = "[]" and c = "CHR '')''" and r = "tl (tl (tl (lower_argument attack)))" and attack = attack
        and other' = "\<lambda>_. Inl (Thrown ''other'')" and pick' = rev and d = sample_db, OF hex_only_quote]
    by auto
qed

section \<open>The supply of coins\<close>

record supply_chain =
  s_deltaPot :: "wei result"
  s_reinsertPot :: "wei result"
  s_governancePot :: "wei result"
  s_balance :: "string \<Rightarrow> wei result"

definition STAKING_ADDRESS :: string where "STAKING_ADDRESS = ''0x1100000000000000000000000000000000000001''"
definition CLAIMING_POT_ADDRESS :: string where "CLAIMING_POT_ADDRESS = ''0xf3bf614C0EA1D14D998BcDb49Ad1F8f57332Bb42''"
definition DAO_LOWMAJORITY_ADDRESS :: string where "DAO_LOWMAJORITY_ADDRESS = ''0xDA0DA0DA0da0dA0Da0DA00da0DA0DA00000DeCaF''"

definition maxCoins :: rat where "maxCoins = 4380000"

text \<open>\<open>parseFloat(web3.utils.fromWei(wei, 'ether'))\<close>\<close>

definition fromWei :: "(rat \<Rightarrow> rat) \<Rightarrow> wei \<Rightarrow> rat" where
  "fromWei fl w = fl (parseEther w)"

definition getMaxCoins :: "rat result" where
  "getMaxCoins = Inr maxCoins"

definition getCirculating :: "(rat \<Rightarrow> rat) \<Rightarrow> supply_chain \<Rightarrow> rat result" where
  "getCirculating fl c = await (s_deltaPot c) (\<lambda>delta. await (s_reinsertPot c) (\<lambda>reinsert.
     Inr (fl (fl (maxCoins - fromWei fl delta) - fromWei fl reinsert))))"

definition getDeltaPot :: "(rat \<Rightarrow> rat) \<Rightarrow> supply_chain \<Rightarrow> rat result" where
  "getDeltaPot fl c = await (s_deltaPot c) (\<lambda>w. Inr (fromWei fl w))"

definition getReinsertPot :: "(rat \<Rightarrow> rat) \<Rightarrow> supply_chain \<Rightarrow> rat result" where
  "getReinsertPot fl c = await (s_reinsertPot c) (\<lambda>w. Inr (fromWei fl w))"

definition getClaimingPot :: "(rat \<Rightarrow> rat) \<Rightarrow> supply_chain \<Rightarrow> rat result" where
  "getClaimingPot fl c = await (s_balance c CLAIMING_POT_ADDRESS) (\<lambda>w. Inr (fromWei fl w))"

definition getDaoPot :: "(rat \<Rightarrow> rat) \<Rightarrow> supply_chain \<Rightarrow> rat result" where
  "getDaoPot fl c = await (s_governancePot c) (\<lambda>high. await (s_balance c DAO_LOWMAJORITY_ADDRESS) (\<lambda>low.
     Inr (fl (fromWei fl high + fromWei fl low))))"

definition getStakingPot :: "(rat \<Rightarrow> rat) \<Rightarrow> supply_chain \<Rightarrow> rat result" where
  "getStakingPot fl c = await (s_balance c STAKING_ADDRESS) (\<lambda>w. Inr (fromWei fl w))"

definition getRewardsPot :: "(rat \<Rightarrow> rat) \<Rightarrow> supply_chain \<Rightarrow> rat result" where
  "getRewardsPot fl c = await (s_deltaPot c) (\<lambda>delta. await (s_reinsertPot c) (\<lambda>reinsert.
     Inr (fl (fromWei fl delta + fromWei fl reinsert))))"

text \<open>Rounding to the nearest double is off by at most one part in 2^53.\<close>

definition rounds_double :: "(rat \<Rightarrow> rat) \<Rightarrow> bool" where
  "rounds_double fl \<longleftrightarrow> (\<forall>x. \<bar>fl x - x\<bar> \<le> \<bar>x\<bar> / 2 ^ 53)"

lemma rounded_le:
  assumes "rounds_double fl" "\<bar>x\<bar> \<le> b"
  shows "\<bar>fl x - x\<bar> \<le> b / 2 ^ 53"
  using assms by (meson divide_right_mono order_trans rounds_double_def zero_le_numeral zero_le_power)

text \<open>The circulating supply and the rewards pot add up to the maximum of coins up to a few billionths of a
  coin, as long as the two pots hold no more than it: the rounding of the pots themselves cancels out.\<close>

theorem supply_adds_up:
  assumes "rounds_double fl" and "s_deltaPot c = Inr delta" and "s_reinsertPot c = Inr reinsert"
    and "0 \<le> delta" and "0 \<le> reinsert" and "delta + reinsert \<le> 4380000 * 10 ^ 18"
  shows "\<exists>circulating rewards. getCirculating fl c = Inr circulating \<and> getRewardsPot fl c = Inr rewards \<and>
    \<bar>circulating + rewards - maxCoins\<bar> \<le> 4 / 10 ^ 9"
proof -
  define d e where "d = parseEther delta" and "e = parseEther reinsert"
  have de: "0 \<le> d" "0 \<le> e" using assms(4,5) by (simp_all add: d_def e_def)
  have "parseEther (delta + reinsert) \<le> 4380000"
    using assms(6) by (simp add: parseEther_def divide_le_eq)
  then have sum: "d + e \<le> 4380000" by (simp add: d_def e_def parseEther_add)
  let ?d = "fl d" and ?e = "fl e"
  have r: "\<bar>?d - d\<bar> \<le> 1" "\<bar>?e - e\<bar> \<le> 1"
    using rounded_le [OF assms(1), of d 4380000] rounded_le [OF assms(1), of e 4380000] de sum by auto
  let ?a = "fl (4380000 - ?d)"
  have a: "\<bar>?a - (4380000 - ?d)\<bar> \<le> 4380002 / 2 ^ 53"
    using rounded_le [OF assms(1), of "4380000 - ?d" 4380002] r de sum by auto
  then have "\<bar>?a - (4380000 - ?d)\<bar> \<le> 1" by (rule order_trans) simp
  then have "\<bar>?a - ?e\<bar> \<le> 4380004" using r de sum unfolding abs_le_iff by linarith
  from rounded_le [OF assms(1) this]
  have c: "\<bar>fl (?a - ?e) - (?a - ?e)\<bar> \<le> 4380004 / 2 ^ 53" .
  have p: "\<bar>fl (?d + ?e) - (?d + ?e)\<bar> \<le> 4380002 / 2 ^ 53"
    using rounded_le [OF assms(1), of "?d + ?e" 4380002] r de sum by auto
  have "\<bar>fl (?a - ?e) + fl (?d + ?e) - 4380000\<bar> \<le> (4380002 + 4380004 + 4380002) / 2 ^ 53"
    using a c p unfolding abs_le_iff add_divide_distrib by linarith
  also have "\<dots> \<le> 4 / 10 ^ 9" by simp
  finally show ?thesis
    by (simp add: getCirculating_def getRewardsPot_def assms(2,3) fromWei_def maxCoins_def d_def e_def)
qed

lemma supply_adds_up_witness:
  "\<exists>circulating rewards. getCirculating (\<lambda>x. x) \<lparr>s_deltaPot = Inr (5 * 10 ^ 18), s_reinsertPot = Inr 7, s_governancePot = Inr 0,
     s_balance = (\<lambda>_. Inr 0)\<rparr> = Inr circulating \<and> getRewardsPot (\<lambda>x. x) \<lparr>s_deltaPot = Inr (5 * 10 ^ 18), s_reinsertPot = Inr 7,
     s_governancePot = Inr 0, s_balance = (\<lambda>_. Inr 0)\<rparr> = Inr rewards \<and> \<bar>circulating + rewards - maxCoins\<bar> \<le> 4 / 10 ^ 9"
proof -
  have "rounds_double (\<lambda>x. x)" by (simp add: rounds_double_def)
  from supply_adds_up [OF this] show ?thesis by simp
qed

end
