(* ===== verification/Cleaning.thy ===== *)
theory Cleaning imports Samples begin

text \<open>
  Deleting what was imported: \<open>deleteCurrentData\<close> empties every table, in the order of
  \<open>DB_TABLES\<close>, and \<open>deleteDataFromBlock\<close> is to remove what was written from a block on.
\<close>

section \<open>All data\<close>

text \<open>The tables that the list \<open>DB_TABLES\<close> empties one after the other; the ids go on.\<close>

definition emptied :: "manager \<Rightarrow> manager" where
  "emptied m = m\<lparr>committed := empty_db\<lparr>ordered_withdrawal_id_seq := ordered_withdrawal_id_seq (committed m)\<rparr>,
     stake_transactions := [], dmd_names := [], dmd_name_events := []\<rparr>"

lemma pool_delete_step:
  "refs_ok (f (committed m)) \<Longrightarrow>
   andThen (pool_delete f) B m = B () (m\<lparr>committed := f (committed m)\<rparr>)"
  by (simp add: andThen_def pool_delete_def)

lemma forEach_delete: "forEach (t # ts) delete_table m = andThen (delete_table t) (\<lambda>_. forEach ts delete_table) m"
  by simp

text \<open>On tables with their integrity, deleting all data always succeeds: no table is emptied before
  the tables that refer to it, and in the end all are empty.\<close>

theorem deleteCurrentData_empties:
  assumes "valid_db (committed m)"
  shows "deleteCurrentData m = (Inr (), emptied m)"
proof -
  have refs: "refs_ok (committed m)" using assms by (simp add: valid_db_def)
  show ?thesis
    unfolding deleteCurrentData_def DB_TABLES_def emptied_def
    using refs
    by (simp add: forEach_delete delete_table_def pool_delete_def andThen_def ret_def refs_ok_def fk_defs
        empty_db_def list_all_iff)
qed

section \<open>Data from a block on\<close>

text \<open>When an epoch started at or after the block, deleting from the block on fails, because the table
  \<open>stake_delegators\<close> has no column \<open>epoch\<close>; and the epoch's nodes and rewards are gone by then,
  while all headers and stake rows are still there.\<close>

theorem delete_from_block_fails_on_epoch:
  assumes "filter (\<lambda>r. block_start r \<ge> b) (posdao_epoch (committed m)) = e # es" and "valid_db (committed m)"
  shows "\<exists>m'. deleteDataFromBlock b m = (Inl (UndefinedColumn ''stake_delegators.epoch''), m') \<and>
    headers (committed m') = headers (committed m) \<and> stake_history (committed m') = stake_history (committed m) \<and>
    posdao_epoch_node (committed m') = filter (\<lambda>r. id_posdao_epoch r \<noteq> epoch_id e) (posdao_epoch_node (committed m)) \<and>
    delegate_reward (committed m') = filter (\<lambda>r. dr_id_posdao_epoch r \<noteq> epoch_id e) (delegate_reward (committed m))"
proof -
  let ?d = "committed m"
  let ?d1 = "?d\<lparr>posdao_epoch_node := delete_where (\<lambda>r. id_posdao_epoch r = epoch_id e) (posdao_epoch_node ?d)\<rparr>"
  let ?d2 = "?d1\<lparr>delegate_reward := delete_where (\<lambda>r. dr_id_posdao_epoch r = epoch_id e) (delegate_reward ?d)\<rparr>"
  have refs: "refs_ok ?d" using assms(2) by (simp add: valid_db_def)
  then have r1: "refs_ok ?d1" "refs_ok ?d2"
    by (simp_all add: refs_ok_def fk_defs delete_where_def list_all_iff)
  have "deleteDataFromBlock b m = (Inl (UndefinedColumn ''stake_delegators.epoch''), m\<lparr>committed := ?d2\<rparr>)"
    unfolding deleteDataFromBlock_def using assms(1) r1
    by (simp add: andThen_def pool_read_def pool_delete_def throw_def)
  then show ?thesis by (intro exI [of _ "m\<lparr>committed := ?d2\<rparr>"]) (simp add: delete_where_def)
qed

lemma deleteCurrentData_empties_witness:
  "deleteCurrentData sample_manager = (Inr (), emptied sample_manager)"
proof -
  have "valid_db (committed sample_manager)" by code_simp
  then show ?thesis by (rule deleteCurrentData_empties)
qed

lemma delete_from_block_fails_on_epoch_witness:
  "\<exists>m'. deleteDataFromBlock 0 sample_manager = (Inl (UndefinedColumn ''stake_delegators.epoch''), m') \<and>
     length (headers (committed m')) = 10"
proof -
  have "valid_db (committed sample_manager)" by code_simp
  moreover have "filter (\<lambda>r. block_start r \<ge> 0) (posdao_epoch (committed sample_manager)) =
      [\<lparr>epoch_id = 0, block_start = 0, block_end = None\<rparr>]" by code_simp
  moreover have "length (headers (committed sample_manager)) = 10" by code_simp
  ultimately show ?thesis using delete_from_block_fails_on_epoch [of 0 sample_manager] by fastforce
qed

end
