(* ===== verification/RetryProperties.thy ===== *)
theory RetryProperties imports Retry begin

text \<open>
  How often and how long \<open>executeWithRetry\<close> of src/src/db/database-persistent.ts tries: three runs,
  with a wait of at most 30.5 seconds between two of them.
\<close>

lemma handled_true:
  assumes "try_catch (handleConnectionError e) (\<lambda>_. ret False) m = (Inr True, m')"
  shows "isConnectionError e"
  using assms handle_other_error [of e m] by auto

lemma handle_time: "clock (snd (try_catch (handleConnectionError e) (\<lambda>_. ret False) m)) \<le> clock m + 30500"
proof (cases "isConnectionError e \<and> connectionRetries m < maxConnectionRetries")
  case True
  then show ?thesis using handle_connection_error [of e m] by (simp add: backoffMs_def)
next
  case False
  then show ?thesis using handle_other_error [of e m] handle_exhausted [of m e] by (auto simp: not_less)
qed

text \<open>The states in which the operation runs\<close>

definition runs_of :: "'a action \<Rightarrow> manager \<Rightarrow> manager list \<Rightarrow> bool" where
  "runs_of A m ms \<longleftrightarrow> ms \<noteq> [] \<and> hd ms = m \<and>
     list_all (\<lambda>m1. case fst (A m1) of Inl e \<Rightarrow> isConnectionError e | Inr _ \<Rightarrow> False) (butlast ms)"

lemma runs_of_single: "runs_of A m [m]"
  by (simp add: runs_of_def)

lemma runs_of_Cons:
  "runs_of A m2 ms \<Longrightarrow> fst (A m) = Inl e \<Longrightarrow> isConnectionError e \<Longrightarrow> runs_of A m (m # ms)"
  by (simp add: runs_of_def)

lemma retry_from_runs:
  "n < maxAttempts \<Longrightarrow> \<exists>ms. runs_of A m ms \<and> length ms \<le> maxAttempts - n \<and>
     fst (executeWithRetry_from n A m) = fst (A (last ms))"
proof (induction n A m rule: executeWithRetry_from.induct)
  case (1 n A m)
  obtain r m1 where A: "A m = (r, m1)" by fastforce
  have one: "\<exists>ms. runs_of A m ms \<and> length ms \<le> maxAttempts - n \<and>
      fst (executeWithRetry_from n A m) = fst (A (last ms))"
    if "fst (executeWithRetry_from n A m) = r"
    using that A runs_of_single [of A m] "1.prems" by (intro exI [of _ "[m]"]) auto
  show ?case
  proof (cases r)
    case (Inr x)
    then show ?thesis using A "1.prems" by (intro one) (simp add: executeWithRetry_from.simps [of n])
  next
    case (Inl e)
    obtain r2 m2 where h: "try_catch (handleConnectionError e) (\<lambda>_. ret False) m1 = (r2, m2)" by fastforce
    show ?thesis
    proof (cases "n + 1 < maxAttempts \<and> r2 = Inr True")
      case True
      then have rec: "executeWithRetry_from n A m = executeWithRetry_from (n + 1) A m2"
        using A Inl h "1.prems" by (simp add: executeWithRetry_from.simps [of n])
      obtain ms where ms: "runs_of A m2 ms" "length ms \<le> maxAttempts - (n + 1)"
        "fst (executeWithRetry_from (n + 1) A m2) = fst (A (last ms))"
        using "1.IH" [OF "1.prems" A [symmetric] Inl _ h [symmetric]] True by auto
      have "runs_of A m (m # ms)"
        by (rule runs_of_Cons [OF ms(1), of _ e]) (use A Inl h True handled_true in auto)
      moreover have "ms \<noteq> []" using ms(1) by (simp add: runs_of_def)
      moreover have "Suc (length ms) \<le> maxAttempts - n" using ms(2) True by linarith
      ultimately show ?thesis using ms(3) by (intro exI [of _ "m # ms"]) (simp add: rec)
    next
      case False
      then show ?thesis using A Inl h "1.prems"
        by (intro one) (auto simp: executeWithRetry_from.simps [of n] split: sum.splits bool.splits)
    qed
  qed
qed


definition lost :: "unit action" where
  "lost m = (Inl (ConnectionLost ''Connection terminated unexpectedly''), m\<lparr>clock := clock m + 100\<rparr>)"


end
