(* ===== verification/Codecs.thy ===== *)
theory Codecs imports JavaScript begin

text \<open>
  Encodings: addresses as the bit strings of src/src/db/database-persistent.ts
  (\<open>convertEthAddressToPostgresBits\<close> and back), addresses as buffers (src/src/utils/ether.ts), and
  the label hash of a token id (src/src/utils/hex.ts).
\<close>

section \<open>Numbers in a radix\<close>

text \<open>\<open>Number.prototype.toString(radix)\<close> of an integer, for a radix of at most 16\<close>

function digits_in :: "nat \<Rightarrow> nat \<Rightarrow> string" where
  "digits_in radix n =
     (if n < radix \<or> radix < 2 then [hex_digit n] else digits_in radix (n div radix) @ [hex_digit (n mod radix)])"
  by pat_completeness auto
termination by (relation "measure snd") (auto intro: div_less_dividend)

declare digits_in.simps [simp del]

definition show_number :: "nat \<Rightarrow> int option \<Rightarrow> string" where
  "show_number radix v = (case v of None \<Rightarrow> ''NaN''
     | Some n \<Rightarrow> if n < 0 then CHR ''-'' # digits_in radix (nat (- n)) else digits_in radix (nat n))"

section \<open>Bit strings\<close>

text \<open>\<open>String.prototype.replace\<close> of the first occurrence, with the empty string\<close>

fun remove_first :: "string \<Rightarrow> string \<Rightarrow> string" where
  "remove_first pat [] = []"
| "remove_first pat (c # s) = (if prefix pat (c # s) then drop (length pat) (c # s) else c # remove_first pat s)"

definition convertEthAddressToPostgresBits :: "string \<Rightarrow> string" where
  "convertEthAddressToPostgresBits ethAddress =
     (let hexString = remove_first ''0x'' (to_lower ethAddress)
      in concat (map (\<lambda>hexChar. padStart 4 (CHR ''0'') (show_number 2 (parseInt16 [hexChar]))) hexString))"

text \<open>The substrings of length 4; the last one may be shorter.\<close>

fun quads :: "string \<Rightarrow> string list" where
  "quads (a # b # c # d # s) = [a, b, c, d] # quads s"
| "quads [] = []"
| "quads s = [s]"

definition convertPostgresBitsToEthAddress :: "string \<Rightarrow> string" where
  "convertPostgresBitsToEthAddress bits =
     ''0x'' @ to_lower (concat (map (\<lambda>bitString. show_number 16 (parseInt_radix 2 bitString)) (quads bits)))"

definition nibble :: "char \<Rightarrow> string" where
  "nibble c = padStart 4 (CHR ''0'') (show_number 2 (parseInt16 [c]))"

text \<open>Sixteen digits, sixteen groups of bits\<close>

lemma nibble_table:
  "list_all (\<lambda>c. length (nibble c) = 4 \<and> show_number 16 (parseInt_radix 2 (nibble c)) = [c]) ''0123456789abcdef''"
  by code_simp

lemma hex_digit_listed: "n < 16 \<Longrightarrow> hex_digit n \<in> set ''0123456789abcdef''"
proof -
  assume "n < 16"
  then have "n \<in> set [0, 1, 2, 3, 4, 5, 6, 7, 8, 9, 10, 11, 12, 13, 14, 15]"
    unfolding list.set insert_iff empty_iff by presburger
  moreover have "list_all (\<lambda>n. hex_digit n \<in> set ''0123456789abcdef'')
      [0, 1, 2, 3, 4, 5, 6, 7, 8, 9, 10, 11, 12, 13, 14, 15]" by code_simp
  ultimately show ?thesis unfolding list_all_iff by blast
qed

lemma nibble_hex:
  assumes "hex_val c = Some n"
  shows "length (nibble (lower_char c)) = 4"
    and "show_number 16 (parseInt_radix 2 (nibble (lower_char c))) = [lower_char c]"
proof -
  have "lower_char c \<in> set ''0123456789abcdef''"
    using hex_digit_hex_val [OF assms] hex_digit_listed [OF hex_val_less [OF assms]] by metis
  then show "length (nibble (lower_char c)) = 4"
    "show_number 16 (parseInt_radix 2 (nibble (lower_char c))) = [lower_char c]"
    using nibble_table unfolding list_all_iff by blast+
qed

lemma quads_append: "length q = 4 \<Longrightarrow> quads (q @ s) = q # quads s"
proof -
  assume "length q = 4"
  then obtain a b c d where "q = [a, b, c, d]" by (auto simp: numeral_eq_Suc length_Suc_conv)
  then show ?thesis by simp
qed

lemma quads_concat: "list_all (\<lambda>q. length q = 4) qs \<Longrightarrow> quads (concat qs) = qs"
  by (induction qs) (simp_all add: quads_append)

lemma bits_of_digits:
  assumes "list_all (\<lambda>c. hex_val c \<noteq> None) s"
  shows "concat (map (\<lambda>q. show_number 16 (parseInt_radix 2 q)) (quads (concat (map nibble (to_lower s))))) = to_lower s"
    and "length (concat (map nibble (to_lower s))) = 4 * length s"
proof -
  have c: "length (nibble (lower_char c)) = 4 \<and> show_number 16 (parseInt_radix 2 (nibble (lower_char c))) = [lower_char c]"
    if "c \<in> set s" for c
    using that assms nibble_hex [of c] by (cases "hex_val c") (auto simp: list_all_iff)
  then have "list_all (\<lambda>q. length q = 4) (map nibble (to_lower s))" by (simp add: list_all_iff to_lower_def)
  then have "quads (concat (map nibble (to_lower s))) = map nibble (to_lower s)" by (rule quads_concat)
  moreover have "concat (map (\<lambda>q. show_number 16 (parseInt_radix 2 q)) (map nibble (to_lower s))) = to_lower s"
    using c unfolding to_lower_def by (induction s) auto
  ultimately show "concat (map (\<lambda>q. show_number 16 (parseInt_radix 2 q)) (quads (concat (map nibble (to_lower s))))) = to_lower s"
    by simp
  show "length (concat (map nibble (to_lower s))) = 4 * length s"
    using c unfolding to_lower_def by (induction s) auto
qed

lemma remove_0x [simp]: "remove_first ''0x'' (CHR ''0'' # CHR ''x'' # s) = s"
  by simp

text \<open>An address comes back in lower case from its bit string, which has four bits per digit, and from
  its buffer; so two addresses have the same bits, or the same buffer, only when they differ in letter
  case at most.\<close>

theorem address_encodings_round_trip:
  assumes "is_address a"
  shows "convertPostgresBitsToEthAddress (convertEthAddressToPostgresBits a) = to_lower a \<and>
    length (convertEthAddressToPostgresBits a) = 4 * (length a - 2) \<and>
    bufferToAddress (addressToBuffer a) = to_lower a"
proof -
  obtain s where a: "a = CHR ''0'' # CHR ''x'' # s" and s: "is_hex s"
    using assms by (cases a rule: quads.cases) (auto simp: is_address_def numeral_2_eq_2)
  have digits: "list_all (\<lambda>c. hex_val c \<noteq> None) s" using s by (simp add: is_hex_def)
  have "convertEthAddressToPostgresBits a = concat (map nibble (to_lower s))"
    unfolding convertEthAddressToPostgresBits_def a nibble_def by (simp add: Let_def del: remove_first.simps)
  then show ?thesis
    using bits_of_digits [OF digits] bufferToAddress_addressToBuffer [OF assms]
    by (simp add: convertPostgresBitsToEthAddress_def a)
qed

lemma address_encodings_round_trip_witness:
  "convertEthAddressToPostgresBits ''0xA7'' = ''10100111'' \<and>
   convertPostgresBitsToEthAddress (convertEthAddressToPostgresBits ''0xA7'') = ''0xa7'' \<and>
   bufferToAddress (addressToBuffer ''0xA7'') = ''0xa7''"
proof -
  have "is_address ''0xA7''" "to_lower ''0xA7'' = ''0xa7''"
    "convertEthAddressToPostgresBits ''0xA7'' = ''10100111''" by code_simp+
  then show ?thesis using address_encodings_round_trip [of "''0xA7''"] by simp
qed

end
