(* ===== verification/StakingDiff.thy ===== *)
theory StakingDiff imports Network begin

text \<open>
  The watchdog's check of the stakes at an epoch switch: src/src/watchdogPluginStakingDiff.ts. The
  calls of the staking contract are parameters: those that the importer makes too are fields of
  \<open>network\<close>, the others fields of \<open>staking_queries\<close>; \<open>b\<close> is the latest block, which stays the latest one
  while the check runs. The result is the list of the warnings that the check prints; the texts
  with the details of a pool are left out, the calls behind them are not.
\<close>

record staking_queries =
  call_poolNodeOperator :: "string \<Rightarrow> int \<Rightarrow> string result"
  call_orderedWithdrawAmount :: "string \<Rightarrow> string \<Rightarrow> int \<Rightarrow> wei result"
  call_totalStakedAmount :: "int \<Rightarrow> wei result"

datatype warning =
    StakingDiffDetected string wei wei wei
  | GrantTotalDiffDetected wei wei wei

text \<open>The loop over the delegators adds to the pool's sum and, each time, the sum so far to the grand
  total.\<close>

definition checkDelegator ::
  "staking_queries \<Rightarrow> network \<Rightarrow> int \<Rightarrow> string \<Rightarrow> string \<Rightarrow> wei \<times> wei \<Rightarrow> (wei \<times> wei) result" where
  "checkDelegator q n b pool dele acc =
     await (call_stakeAmount n pool dele b) (\<lambda>stake.
     await (call_orderedWithdrawAmount q pool dele b) (\<lambda>orderedWithdrawAmount.
     let totalStakeCalced = fst acc + stake in Inr (totalStakeCalced, snd acc + totalStakeCalced)))"

definition checkPool ::
  "staking_queries \<Rightarrow> network \<Rightarrow> int \<Rightarrow> string \<Rightarrow> wei \<times> warning list \<Rightarrow> (wei \<times> warning list) result" where
  "checkPool q n b pool s =
     await (call_stakeAmountTotal n pool b) (\<lambda>totalStake.
     await (call_poolNodeOperator q pool b) (\<lambda>nodeOperator.
     await (call_poolDelegators n pool b) (\<lambda>poolDelegators.
     await (forM poolDelegators (checkDelegator q n b pool) (0, fst s)) (\<lambda>acc.
     await (call_stakeAmount n pool pool b) (\<lambda>stakeAmountSelf.
     let totalStakeCalced = fst acc + stakeAmountSelf; diff = totalStakeCalced - totalStake
     in Inr (snd acc, snd s @
          (if diff \<noteq> 0 then [StakingDiffDetected pool totalStakeCalced totalStake diff] else [])))))))"

definition processEpochStart :: "staking_queries \<Rightarrow> network \<Rightarrow> int \<Rightarrow> warning list result" where
  "processEpochStart q n b =
     await (getAllPools n b) (\<lambda>allPools.
     await (forM allPools (checkPool q n b) (0, [])) (\<lambda>s.
     await (call_totalStakedAmount q b) (\<lambda>totalStakedAmount.
     let diffGrantTotal = fst s - totalStakedAmount
     in Inr (snd s @ (if diffGrantTotal = 0
          then [GrantTotalDiffDetected (fst s) totalStakedAmount diffGrantTotal] else [])))))"

section \<open>What the contract holds of a pool\<close>

record pool_book =
  pb_pool :: string
  pb_total :: wei
  pb_own :: wei
  pb_stakes :: "wei list"

definition read_pool :: "network \<Rightarrow> int \<Rightarrow> pool_book \<Rightarrow> bool" where
  "read_pool n b r \<longleftrightarrow> call_stakeAmountTotal n (pb_pool r) b = Inr (pb_total r) \<and>
     call_stakeAmount n (pb_pool r) (pb_pool r) b = Inr (pb_own r) \<and>
     (\<exists>ds. call_poolDelegators n (pb_pool r) b = Inr ds \<and>
        mapM (\<lambda>d. call_stakeAmount n (pb_pool r) d b) ds = Inr (pb_stakes r))"

definition pool_warnings :: "pool_book \<Rightarrow> warning list" where
  "pool_warnings r = (let calced = sum_list (pb_stakes r) + pb_own r in
     if calced = pb_total r then [] else [StakingDiffDetected (pb_pool r) calced (pb_total r) (calced - pb_total r)])"

text \<open>A delegator counts once for itself and for every delegator after it.\<close>

fun counted_again :: "wei list \<Rightarrow> wei" where
  "counted_again [] = 0"
| "counted_again (x # xs) = x * int (Suc (length xs)) + counted_again xs"

lemma checkDelegator_Inr:
  "checkDelegator q n b pool d s = Inr t \<longleftrightarrow>
   (\<exists>x w. call_stakeAmount n pool d b = Inr x \<and> call_orderedWithdrawAmount q pool d b = Inr w \<and>
      t = (fst s + x, snd s + (fst s + x)))"
  by (auto simp: checkDelegator_def result_simps Let_def)

lemma delegators_loop:
  assumes "forM ds (checkDelegator q n b pool) (c, g) = Inr (c', g')"
  shows "\<exists>stakes. mapM (\<lambda>d. call_stakeAmount n pool d b) ds = Inr stakes \<and> c' = c + sum_list stakes \<and>
    g' = g + int (length ds) * c + counted_again stakes"
  using assms
proof (induction ds arbitrary: c g)
  case (Cons d ds)
  then obtain x where x: "call_stakeAmount n pool d b = Inr x"
    "forM ds (checkDelegator q n b pool) (c + x, g + (c + x)) = Inr (c', g')"
    by (auto simp: checkDelegator_Inr result_simps)
  from Cons.IH [OF x(2)] obtain stakes where s: "mapM (\<lambda>d. call_stakeAmount n pool d b) ds = Inr stakes"
    "c' = c + x + sum_list stakes" "g' = g + (c + x) + int (length ds) * (c + x) + counted_again stakes" by blast
  have "length stakes = length ds" using s(1) by (simp add: mapM_Inr list_all2_lengthD)
  then show ?case using x(1) s by (intro exI [of _ "x # stakes"]) (simp add: algebra_simps)
qed simp

lemma checkPool_book:
  assumes "checkPool q n b pool (g, ws) = Inr (g', ws')"
  shows "\<exists>r. pb_pool r = pool \<and> read_pool n b r \<and> g' = g + counted_again (pb_stakes r) \<and> ws' = ws @ pool_warnings r"
proof -
  obtain staked ds c own where calls: "call_stakeAmountTotal n pool b = Inr staked"
    "call_poolDelegators n pool b = Inr ds" "forM ds (checkDelegator q n b pool) (0, g) = Inr (c, g')"
    "call_stakeAmount n pool pool b = Inr own"
    and ws: "ws' = ws @ (if c + own - staked \<noteq> 0 then [StakingDiffDetected pool (c + own) staked (c + own - staked)] else [])"
    using assms by (auto simp: checkPool_def result_simps Let_def)
  from delegators_loop [OF calls(3)] obtain stakes where s:
    "mapM (\<lambda>d. call_stakeAmount n pool d b) ds = Inr stakes" "c = sum_list stakes" "g' = g + counted_again stakes"
    by auto
  show ?thesis
    by (rule exI [of _ "\<lparr>pb_pool = pool, pb_total = staked, pb_own = own, pb_stakes = stakes\<rparr>"])
      (use calls s ws in \<open>auto simp: read_pool_def pool_warnings_def Let_def\<close>)
qed

lemma pools_loop:
  assumes "forM pools (checkPool q n b) (g, ws) = Inr (g', ws')"
  shows "\<exists>books. map pb_pool books = pools \<and> list_all (read_pool n b) books \<and>
    g' = g + sum_list (map (\<lambda>r. counted_again (pb_stakes r)) books) \<and> ws' = ws @ concat (map pool_warnings books)"
  using assms
proof (induction pools arbitrary: g ws)
  case (Cons pool pools)
  then obtain g1 ws1 where 1: "checkPool q n b pool (g, ws) = Inr (g1, ws1)"
    "forM pools (checkPool q n b) (g1, ws1) = Inr (g', ws')" by (auto simp: result_simps)
  from checkPool_book [OF 1(1)] Cons.IH [OF 1(2)] obtain r books where
    "pb_pool r = pool" "read_pool n b r" "g1 = g + counted_again (pb_stakes r)" "ws1 = ws @ pool_warnings r"
    "map pb_pool books = pools" "list_all (read_pool n b) books"
    "g' = g1 + sum_list (map (\<lambda>r. counted_again (pb_stakes r)) books)" "ws' = ws1 @ concat (map pool_warnings books)"
    by blast
  then show ?case by (intro exI [of _ "r # books"]) simp
qed simp

text \<open>A check that completes warns of exactly the pools whose total differs from the stakes of its
  delegators and its own, with both amounts. Its grand total counts a delegator again for every later
  delegator of the pool and leaves out the pools' own stakes, and the warning that it differs from the
  contract's is printed exactly when it does not.\<close>

theorem staking_check_reports:
  assumes "processEpochStart q n b = Inr ws"
  shows "\<exists>books staked. getAllPools n b = Inr (map pb_pool books) \<and> list_all (read_pool n b) books \<and>
    call_totalStakedAmount q b = Inr staked \<and>
    (let grand = sum_list (map (\<lambda>r. counted_again (pb_stakes r)) books) in
     ws = concat (map pool_warnings books) @ (if grand = staked then [GrantTotalDiffDetected grand staked 0] else []))"
proof -
  obtain pools g ws1 staked where calls: "getAllPools n b = Inr pools"
    "forM pools (checkPool q n b) (0, []) = Inr (g, ws1)" "call_totalStakedAmount q b = Inr staked"
    and ws: "ws = ws1 @ (if g - staked = 0 then [GrantTotalDiffDetected g staked (g - staked)] else [])"
    using assms by (auto simp: processEpochStart_def result_simps Let_def)
  from pools_loop [OF calls(2)] obtain books where "map pb_pool books = pools" "list_all (read_pool n b) books"
    "g = sum_list (map (\<lambda>r. counted_again (pb_stakes r)) books)" "ws1 = concat (map pool_warnings books)" by auto
  then show ?thesis using calls ws by (intro exI [of _ books] exI [of _ staked]) (simp add: Let_def)
qed

definition two_delegators :: network where
  "two_delegators = sample_network\<lparr>call_getPools := \<lambda>b. Inr [''0xaa''], call_getPoolsInactive := \<lambda>b. Inr [],
     call_poolDelegators := \<lambda>p b. Inr [''0xdd'', ''0xee''],
     call_stakeAmount := \<lambda>p d b. Inr (if d = ''0xaa'' then 100 else if d = ''0xdd'' then 20 else 3),
     call_stakeAmountTotal := \<lambda>p b. Inr 123\<rparr>"

definition two_queries :: "wei \<Rightarrow> staking_queries" where
  "two_queries staked = \<lparr>call_poolNodeOperator = \<lambda>p b. Inr p, call_orderedWithdrawAmount = \<lambda>p d b. Inr 0,
     call_totalStakedAmount = \<lambda>b. Inr staked\<rparr>"

text \<open>On correct books the check is silent, and so it is on a wrong grand total.\<close>

lemma staking_check_reports_witness:
  "processEpochStart (two_queries 123) two_delegators 9 = Inr [] \<and>
   (\<exists>(books :: pool_book list) staked. getAllPools two_delegators 9 = Inr (map pb_pool books) \<and>
      call_totalStakedAmount (two_queries 123) 9 = Inr staked \<and> staked = 123 \<and>
      sum_list (map (\<lambda>r. counted_again (pb_stakes r)) books) \<noteq> staked)"
proof -
  have run: "processEpochStart (two_queries 123) two_delegators 9 = Inr []" by code_simp
  from staking_check_reports [OF run] obtain books staked where w:
    "getAllPools two_delegators 9 = Inr (map pb_pool books)" "call_totalStakedAmount (two_queries 123) 9 = Inr staked"
    "[] = concat (map pool_warnings books) @ (if sum_list (map (\<lambda>r. counted_again (pb_stakes r)) books) = staked
      then [GrantTotalDiffDetected (sum_list (map (\<lambda>r. counted_again (pb_stakes r)) books)) staked 0] else [])"
    unfolding Let_def by blast
  from w(3) have "sum_list (map (\<lambda>r. counted_again (pb_stakes r)) books) \<noteq> staked" by (simp split: if_splits)
  moreover have "staked = 123" using w(2) by (simp add: two_queries_def)
  ultimately show ?thesis using run w(1,2) by (intro conjI exI [of _ books] exI [of _ staked]) simp_all
qed

end
