(* ===== verification/FastTxSender.thy ===== *)
theory FastTxSender imports JavaScript begin

text \<open>
  The batched sending of transactions: \<open>FastTxSender\<close> (src/src/tools/FastTxSender.ts) and
  \<open>awaitTransactions\<close> (src/src/tools/awaitTransactions.ts).

  The wallet, the signing of a transaction, the number of transactions of an account and the
  blocks of the chain come from web3 and are parameters. An \<open>async\<close> method is split where it
  awaits: each piece runs without interruption and is a definition, and a method is their
  composition when nothing else runs in between. \<open>NaN\<close> and a missing value are \<open>None\<close>.
\<close>

section \<open>Transactions and accounts\<close>

datatype sender_address = Address string | Index int

record tx_config =
  cfg_from :: "sender_address option"
  cfg_nonce :: "nat option"
  cfg_rest :: string

record account =
  account_address :: string
  privateKey :: string

record signed_transaction =
  signed_raw :: "string option"
  signed_hash :: "string option"

type_synonym signer = "account \<Rightarrow> tx_config \<Rightarrow> signed_transaction result"

record sender =
  rawTransactions :: "string list"
  transactionHashes :: "string option list"
  transactionSentState :: "bool list"
  nonces :: "string \<rightharpoonup> nat"
  accounts_is_initialized :: bool
  accounts :: "string \<rightharpoonup> account"
  blockBeforeSent :: "nat option"
  currentDispatchedTransactions :: int

definition new_sender :: sender where
  "new_sender = \<lparr>rawTransactions = [], transactionHashes = [], transactionSentState = [],
     nonces = Map.empty, accounts_is_initialized = False, accounts = Map.empty,
     blockBeforeSent = None, currentDispatchedTransactions = 0\<rparr>"

section \<open>Signing\<close>

text \<open>A later account of the wallet with the same address replaces an earlier one.\<close>

definition wallet_accounts :: "account list \<Rightarrow> string \<rightharpoonup> account" where
  "wallet_accounts wallet = map_of (rev (map (\<lambda>a. (account_address a, a)) wallet))"

definition ensureAccountsIsInitialized :: "account list \<Rightarrow> sender \<Rightarrow> sender" where
  "ensureAccountsIsInitialized wallet s =
     (if accounts_is_initialized s then s
      else s\<lparr>accounts := wallet_accounts wallet, accounts_is_initialized := True\<rparr>)"

text \<open>The key under which JavaScript looks a value up in an object; 0 and the empty string are
  falsy.\<close>

fun property_key :: "sender_address \<Rightarrow> string" where
  "property_key (Address a) = a"
| "property_key (Index n) = (if n < 0 then CHR ''-'' # decimal (nat (- n)) else decimal (nat n))"

fun present :: "sender_address option \<Rightarrow> bool" where
  "present None = False"
| "present (Some (Address a)) = (a \<noteq> [])"
| "present (Some (Index n)) = (n \<noteq> 0)"

text \<open>\<open>signTransaction\<close> up to its first await: the account that signs and its address.\<close>

definition findAccount :: "account list \<Rightarrow> tx_config \<Rightarrow> sender \<Rightarrow> (string \<times> account) result \<times> sender" where
  "findAccount wallet cfg s =
     (if \<not> present (cfg_from cfg) then (Inl (Thrown ''txConfig.from is not set''), s)
      else let k = property_key (the (cfg_from cfg));
               s1 = ensureAccountsIsInitialized wallet s;
               s2 = (if accounts s1 k = None
                     then ensureAccountsIsInitialized wallet (s1\<lparr>accounts_is_initialized := False\<rparr>)
                     else s1)
           in case accounts s2 k of
                None \<Rightarrow> (Inl (Thrown ''txConfig.from is not in the wallet''), s2)
              | Some a \<Rightarrow> (case the (cfg_from cfg) of
                    Index n \<Rightarrow> (Inl (Thrown ''number as from address not supported.''), s2)
                  | Address _ \<Rightarrow> (Inr (k, a), s2)))"

text \<open>The nonce that follows the last one used; it is unknown before the first transaction.\<close>

definition nextNonce :: "string \<Rightarrow> sender \<Rightarrow> nat option" where
  "nextNonce k s = map_option Suc (nonces s k)"

text \<open>The piece between the nonce and the signature: the nonce is stored before the wallet signs.\<close>

definition useNonce :: "string \<Rightarrow> nat \<Rightarrow> sender \<Rightarrow> sender" where
  "useNonce k n s = s\<lparr>nonces := (nonces s)(k \<mapsto> n)\<rparr>"

definition checkSigned :: "signed_transaction result \<Rightarrow> (string \<times> string) result" where
  "checkSigned r = await r (\<lambda>t.
     case truthy (signed_raw t) of
       None \<Rightarrow> Inl (Thrown ''rawTransaction not received.'')
     | Some rawTx \<Rightarrow> (case truthy (signed_hash t) of
           None \<Rightarrow> Inl (Thrown ''No transaction hash.'')
         | Some txHash \<Rightarrow> Inr (rawTx, txHash)))"

definition signTransaction ::
    "signer \<Rightarrow> (string \<Rightarrow> nat result) \<Rightarrow> account list \<Rightarrow> tx_config \<Rightarrow> sender \<Rightarrow> (string \<times> string) result \<times> sender" where
  "signTransaction sign getTransactionCount wallet cfg s =
     (case findAccount wallet cfg s of
        (Inl e, s1) \<Rightarrow> (Inl e, s1)
      | (Inr (k, a), s1) \<Rightarrow>
          (case (case nextNonce k s1 of Some n \<Rightarrow> Inr n | None \<Rightarrow> getTransactionCount k) of
             Inl e \<Rightarrow> (Inl e, s1)
           | Inr n \<Rightarrow> (checkSigned (sign a (cfg\<lparr>cfg_nonce := Some n\<rparr>)), useNonce k n s1)))"

section \<open>Adding\<close>

definition pushTransaction :: "string \<Rightarrow> string \<Rightarrow> sender \<Rightarrow> sender" where
  "pushTransaction rawTx txHash s =
     s\<lparr>rawTransactions := rawTransactions s @ [rawTx],
       transactionSentState := transactionSentState s @ [False],
       transactionHashes := transactionHashes s @ [Some txHash]\<rparr>"

definition addTransaction ::
    "signer \<Rightarrow> (string \<Rightarrow> nat result) \<Rightarrow> account list \<Rightarrow> tx_config \<Rightarrow> sender \<Rightarrow> string result \<times> sender" where
  "addTransaction sign getTransactionCount wallet cfg s =
     (case signTransaction sign getTransactionCount wallet cfg s of
        (Inl e, s1) \<Rightarrow> (Inl e, s1)
      | (Inr (rawTx, txHash), s1) \<Rightarrow> (Inr txHash, pushTransaction rawTx txHash s1))"

section \<open>Sending\<close>

text \<open>Writing to an array at an index: JavaScript extends the array with holes, which read as
  undefined.\<close>

definition array_set :: "'a \<Rightarrow> 'a list \<Rightarrow> nat \<Rightarrow> 'a \<Rightarrow> 'a list" where
  "array_set hole xs i v = (xs @ replicate (Suc i - length xs) hole)[i := v]"

definition array_get :: "'a list \<Rightarrow> nat \<Rightarrow> 'a option" where
  "array_get xs i = (if i < length xs then Some (xs ! i) else None)"

definition alreadySent :: "sender \<Rightarrow> nat \<Rightarrow> bool" where
  "alreadySent s i \<longleftrightarrow> array_get (transactionSentState s) i = Some True"

text \<open>What is posted to the node: the index of the transaction and its raw form, if there is one.\<close>

type_synonym request = "nat \<times> string option"

definition sendSingleTxRaw :: "nat \<Rightarrow> sender \<Rightarrow> request option \<times> sender" where
  "sendSingleTxRaw i s =
     (if alreadySent s i then (None, s)
      else (Some (i, array_get (rawTransactions s) i),
            s\<lparr>currentDispatchedTransactions := currentDispatchedTransactions s + 1\<rparr>))"

datatype rpc_body = RpcError int | RpcResult "string option"
datatype reply = Response nat rpc_body | Rejected

datatype after_reply = Settled | RetryLater

definition tooManyTransactions :: int where "tooManyTransactions = -32010"

text \<open>The handlers of the response; a rejected request does not count down.\<close>

fun onReply :: "nat \<Rightarrow> reply \<Rightarrow> sender \<Rightarrow> after_reply \<times> sender" where
  "onReply i Rejected s = (Settled, s)"
| "onReply i (Response status body) s =
     (let s1 = s\<lparr>currentDispatchedTransactions := currentDispatchedTransactions s - 1\<rparr>
      in if status \<noteq> 200 then (Settled, s1)
         else case body of
           RpcError code \<Rightarrow> (if code = tooManyTransactions then RetryLater else Settled, s1)
         | RpcResult hash \<Rightarrow> (Settled, s1\<lparr>
             transactionHashes := array_set None (transactionHashes s1) i hash,
             transactionSentState := array_set False (transactionSentState s1) i True\<rparr>))"

definition awaitAllX :: nat where "awaitAllX = 100"

text \<open>The loop of \<open>sendTxs\<close> from index \<open>i\<close> to its next await: what it posts, and the index at which it
  awaits one of the promises (\<open>None\<close> at the end).\<close>

function postFrom :: "nat \<Rightarrow> sender \<Rightarrow> request list \<times> nat option \<times> sender" where
  "postFrom i s =
     (if i < length (rawTransactions s) then
        (case sendSingleTxRaw i s of
           (None, _) \<Rightarrow> postFrom (i + 1) s
         | (Some r, s1) \<Rightarrow>
             if i mod awaitAllX = 0 then ([r], Some i, s1)
             else (case postFrom (i + 1) s1 of (rs, c, s2) \<Rightarrow> (r # rs, c, s2)))
      else ([], None, s))"
  by pat_completeness auto
termination
  by (relation "measure (\<lambda>(i, s). length (rawTransactions s) - i)")
    (auto simp: sendSingleTxRaw_def split: if_splits)

declare postFrom.simps [simp del]

text \<open>\<open>sendTxs\<close> up to its first promise: the block before the first transaction.\<close>

definition prepareSending :: "nat result \<Rightarrow> sender \<Rightarrow> unit result \<times> sender" where
  "prepareSending getBlockNumber s =
     (if rawTransactions s = [] then (Inl (Thrown ''addTransaction must be called and awaited''), s)
      else case blockBeforeSent s of
        Some _ \<Rightarrow> (Inr (), s)
      | None \<Rightarrow> (case getBlockNumber of
            Inl e \<Rightarrow> (Inl e, s)
          | Inr b \<Rightarrow> (Inr (), s\<lparr>blockBeforeSent := Some b\<rparr>)))"

definition sendSingleTx ::
    "signer \<Rightarrow> (string \<Rightarrow> nat result) \<Rightarrow> account list \<Rightarrow> nat result \<Rightarrow> tx_config \<Rightarrow> sender \<Rightarrow>
     request option result \<times> sender" where
  "sendSingleTx sign getTransactionCount wallet getBlockNumber cfg s =
     (case addTransaction sign getTransactionCount wallet cfg s of
        (Inl e, s1) \<Rightarrow> (Inl e, s1)
      | (Inr _, s1) \<Rightarrow>
          (let i = length (transactionHashes s1) - 1 in
           case (case blockBeforeSent s1 of Some b \<Rightarrow> Inr b | None \<Rightarrow> getBlockNumber) of
             Inl e \<Rightarrow> (Inl e, s1)
           | Inr b \<Rightarrow> (case sendSingleTxRaw i (s1\<lparr>blockBeforeSent := Some b\<rparr>) of (r, s2) \<Rightarrow> (Inr r, s2))))"

section \<open>Waiting\<close>

text \<open>One sweep of \<open>awaitTransactions\<close> over the new blocks: the hashes that are still missing.\<close>

fun sweep :: "(nat \<Rightarrow> string list result) \<Rightarrow> nat list \<Rightarrow> string option list \<Rightarrow> string option list result" where
  "sweep getBlock [] hashes = Inr hashes"
| "sweep getBlock (b # bs) hashes = await (getBlock b) (\<lambda>txs.
     let left = filter (\<lambda>h. h \<notin> Some ` set txs) hashes
     in if left = [] then Inr [] else sweep getBlock bs left)"

text \<open>The polling loop, which may run forever: \<open>heads n\<close> is the answer to the \<open>n\<close>-th question for
  the head of the chain.\<close>

partial_function (option) poll ::
    "(nat \<Rightarrow> string list result) \<Rightarrow> (nat \<Rightarrow> nat result) \<Rightarrow> nat \<Rightarrow> nat \<Rightarrow> string option list \<Rightarrow> nat result option" where
  "poll getBlock heads n analysed hashes =
     (if hashes = [] then Some (Inr analysed)
      else case heads n of
        Inl e \<Rightarrow> Some (Inl e)
      | Inr head \<Rightarrow> (case sweep getBlock [analysed + 1..<head + 1] hashes of
            Inl e \<Rightarrow> Some (Inl e)
          | Inr left \<Rightarrow> poll getBlock heads (n + 1) head left))"

definition awaitTransactions ::
    "(nat \<Rightarrow> string list result) \<Rightarrow> (nat \<Rightarrow> nat result) \<Rightarrow> nat \<Rightarrow> string option list \<Rightarrow> nat result option" where
  "awaitTransactions getBlock heads before hashes = poll getBlock heads 0 before hashes"

definition reset :: "bool \<Rightarrow> sender \<Rightarrow> sender" where
  "reset reset_accounts s =
     (let s1 = s\<lparr>rawTransactions := [], transactionHashes := [], transactionSentState := [],
                 blockBeforeSent := None, nonces := Map.empty\<rparr>
      in if reset_accounts then s1\<lparr>accounts := Map.empty, accounts_is_initialized := False\<rparr> else s1)"

definition awaitTxs ::
    "(nat \<Rightarrow> string list result) \<Rightarrow> (nat \<Rightarrow> nat result) \<Rightarrow> sender \<Rightarrow> (unit result \<times> sender) option" where
  "awaitTxs getBlock heads s =
     (case blockBeforeSent s of
        None \<Rightarrow> Some (Inl (Thrown ''sendTxs() must be called before awaitTxs() can be called.''), s)
      | Some b \<Rightarrow> (case awaitTransactions getBlock heads b (transactionHashes s) of
            None \<Rightarrow> None
          | Some (Inl e) \<Rightarrow> Some (Inl e, s)
          | Some (Inr _) \<Rightarrow> Some (Inr (), reset False s)))"

end
