(* ===== verification/FastTxAdding.thy ===== *)
theory FastTxAdding imports FastTxSender begin

text \<open>
  Which nonces the \<open>FastTxSender\<close> hands to the wallet: calls of \<open>addTransaction\<close> that are awaited one
  by one, and calls that overlap, as interleavings of the pieces between their awaits.
\<close>

named_theorems sender_simps \<open>what a piece of the sender changes\<close>

section \<open>Single pieces\<close>

lemma findAccount_frame [sender_simps]:
  "nonces (snd (findAccount wallet cfg s)) = nonces s"
  "rawTransactions (snd (findAccount wallet cfg s)) = rawTransactions s"
  "transactionHashes (snd (findAccount wallet cfg s)) = transactionHashes s"
  "transactionSentState (snd (findAccount wallet cfg s)) = transactionSentState s"
  by (auto simp: findAccount_def ensureAccountsIsInitialized_def Let_def
      split: option.splits sender_address.splits)

definition accounts_keyed :: "sender \<Rightarrow> bool" where
  "accounts_keyed s \<longleftrightarrow> (\<forall>k a. accounts s k = Some a \<longrightarrow> account_address a = k)"

lemma wallet_accounts_keyed: "wallet_accounts wallet k = Some a \<Longrightarrow> account_address a = k"
  by (auto simp: wallet_accounts_def dest!: map_of_SomeD)

lemma findAccount_keyed:
  assumes "findAccount wallet cfg s = (r, s1)" "accounts_keyed s"
  shows "accounts_keyed s1 \<and>
    (\<forall>k a. r = Inr (k, a) \<longrightarrow> cfg_from cfg = Some (Address k) \<and> account_address a = k)"
  using assms
  by (cases "cfg_from cfg") (auto simp: findAccount_def ensureAccountsIsInitialized_def Let_def accounts_keyed_def
      wallet_accounts_keyed split: option.splits sender_address.splits if_splits)

lemma useNonce_simps [sender_simps]:
  "nonces (useNonce k n s) = (nonces s)(k \<mapsto> n)"
  "rawTransactions (useNonce k n s) = rawTransactions s"
  "transactionHashes (useNonce k n s) = transactionHashes s"
  "accounts (useNonce k n s) = accounts s"
  by (simp_all add: useNonce_def)

lemma pushTransaction_simps [sender_simps]:
  "nonces (pushTransaction r h s) = nonces s"
  "accounts (pushTransaction r h s) = accounts s"
  "rawTransactions (pushTransaction r h s) = rawTransactions s @ [r]"
  "transactionHashes (pushTransaction r h s) = transactionHashes s @ [Some h]"
  by (simp_all add: pushTransaction_def)

section \<open>Calls awaited one by one\<close>

text \<open>A caller's loop that awaits each call.\<close>

fun addInTurn ::
    "signer \<Rightarrow> (string \<Rightarrow> nat result) \<Rightarrow> account list \<Rightarrow> tx_config list \<Rightarrow> sender \<Rightarrow>
     string list result \<times> sender" where
  "addInTurn sign cnt wallet [] s = (Inr [], s)"
| "addInTurn sign cnt wallet (cfg # cfgs) s =
     (case addTransaction sign cnt wallet cfg s of
        (Inl e, s1) \<Rightarrow> (Inl e, s1)
      | (Inr h, s1) \<Rightarrow> (case addInTurn sign cnt wallet cfgs s1 of
            (Inl e, s2) \<Rightarrow> (Inl e, s2)
          | (Inr hs, s2) \<Rightarrow> (Inr (h # hs), s2)))"

text \<open>The nonces that the network expects: per account one after the other.\<close>

fun expectedNonces :: "(string \<Rightarrow> nat) \<Rightarrow> string list \<Rightarrow> nat list" where
  "expectedNonces base [] = []"
| "expectedNonces base (k # ks) = base k # expectedNonces (base(k := base k + 1)) ks"

definition from_of :: "tx_config \<Rightarrow> string" where
  "from_of cfg = (case cfg_from cfg of Some (Address k) \<Rightarrow> k | _ \<Rightarrow> [])"

definition nonceBase :: "(string \<Rightarrow> nat result) \<Rightarrow> sender \<Rightarrow> string \<Rightarrow> nat" where
  "nonceBase cnt s k = (case nonces s k of Some n \<Rightarrow> n + 1 | None \<Rightarrow> (case cnt k of Inr n \<Rightarrow> n | Inl _ \<Rightarrow> 0))"

text \<open>A signature of the account that the transaction names, under the given nonce\<close>

definition signed_with :: "signer \<Rightarrow> tx_config \<Rightarrow> nat \<Rightarrow> string \<times> string \<Rightarrow> bool" where
  "signed_with sign cfg n t \<longleftrightarrow>
     (\<exists>key. checkSigned (sign \<lparr>account_address = from_of cfg, privateKey = key\<rparr> (cfg\<lparr>cfg_nonce := Some n\<rparr>)) = Inr t)"

lemma addTransaction_Inr:
  assumes "addTransaction sign cnt wallet cfg s = (Inr h, s')" "accounts_keyed s"
  obtains rawTx where
    "signed_with sign cfg (nonceBase cnt s (from_of cfg)) (rawTx, h)"
    "rawTransactions s' = rawTransactions s @ [rawTx]"
    "transactionHashes s' = transactionHashes s @ [Some h]"
    "nonceBase cnt s' = (nonceBase cnt s)(from_of cfg := nonceBase cnt s (from_of cfg) + 1)"
    "accounts_keyed s'"
proof -
  obtain r s1 where f: "findAccount wallet cfg s = (r, s1)" by fastforce
  then obtain k a where r: "r = Inr (k, a)"
    using assms(1) by (cases r) (auto simp: addTransaction_def signTransaction_def)
  note frame = findAccount_frame [of wallet cfg s, unfolded f snd_conv]
  have k: "cfg_from cfg = Some (Address k)" "account_address a = k" "accounts_keyed s1"
    using findAccount_keyed [OF f assms(2)] r by auto
  then have from_k: "from_of cfg = k" by (simp add: from_of_def)
  have a: "a = \<lparr>account_address = k, privateKey = privateKey a\<rparr>" using k(2) by simp
  obtain n where n: "(case nextNonce k s1 of Some n \<Rightarrow> Inr n | None \<Rightarrow> cnt k) = Inr n"
    using assms(1) f r
    by (auto simp: addTransaction_def signTransaction_def split: sum.splits)
  then have base: "nonceBase cnt s k = n"
    by (auto simp: nonceBase_def nextNonce_def frame split: option.splits)
  obtain rawTx where t: "checkSigned (sign a (cfg\<lparr>cfg_nonce := Some n\<rparr>)) = Inr (rawTx, h)"
      "s' = pushTransaction rawTx h (useNonce k n s1)"
    using assms(1) f r n
    by (auto simp: addTransaction_def signTransaction_def split: sum.splits prod.splits)
  show thesis
  proof
    show "signed_with sign cfg (nonceBase cnt s (from_of cfg)) (rawTx, h)"
      unfolding signed_with_def from_k base using t(1) a by metis
    show "nonceBase cnt s' = (nonceBase cnt s)(from_of cfg := nonceBase cnt s (from_of cfg) + 1)"
      unfolding from_k using base by (auto simp: fun_eq_iff nonceBase_def t(2) sender_simps frame)
  qed (use t k in \<open>auto simp: sender_simps frame accounts_keyed_def\<close>)
qed

lemma addInTurn_Inr:
  assumes "addInTurn sign cnt wallet cfgs s = (Inr hs, s')" "accounts_keyed s"
  shows "\<exists>raws. rawTransactions s' = rawTransactions s @ raws \<and>
    transactionHashes s' = transactionHashes s @ map Some hs \<and> length raws = length cfgs \<and> length hs = length cfgs \<and>
    list_all2 (\<lambda>(cfg, n) t. signed_with sign cfg n t)
      (zip cfgs (expectedNonces (nonceBase cnt s) (map from_of cfgs))) (zip raws hs)"
  using assms
proof (induction cfgs arbitrary: s hs)
  case (Cons cfg cfgs)
  then obtain h s1 hs1 where a: "addTransaction sign cnt wallet cfg s = (Inr h, s1)"
      and b: "addInTurn sign cnt wallet cfgs s1 = (Inr hs1, s')" and hs: "hs = h # hs1"
    by (auto split: prod.splits sum.splits)
  from a Cons.prems(2) obtain rawTx where t:
      "signed_with sign cfg (nonceBase cnt s (from_of cfg)) (rawTx, h)"
      "rawTransactions s1 = rawTransactions s @ [rawTx]"
      "transactionHashes s1 = transactionHashes s @ [Some h]"
      "nonceBase cnt s1 = (nonceBase cnt s)(from_of cfg := nonceBase cnt s (from_of cfg) + 1)"
      "accounts_keyed s1"
    by (rule addTransaction_Inr)
  obtain raws where raws:
      "rawTransactions s' = rawTransactions s1 @ raws"
      "transactionHashes s' = transactionHashes s1 @ map Some hs1" "length raws = length cfgs" "length hs1 = length cfgs"
      "list_all2 (\<lambda>(cfg, n) t. signed_with sign cfg n t)
        (zip cfgs (expectedNonces ((nonceBase cnt s)(from_of cfg := nonceBase cnt s (from_of cfg) + 1)) (map from_of cfgs)))
        (zip raws hs1)"
    using Cons.IH [OF b t(5)] unfolding t(4) by blast
  show ?case
    by (rule exI [of _ "rawTx # raws"]) (use raws t(1-3) hs in simp)
qed simp

section \<open>Calls that overlap\<close>

datatype task =
    AskingCount tx_config string account
  | AwaitingSignature tx_config account

text \<open>The sender, the calls that are waiting, and the nonces handed out so far, in order\<close>

record adding =
  adder :: sender
  tasks :: "task list"
  assigned :: "(string \<times> nat) list"

definition assign :: "string \<Rightarrow> nat \<Rightarrow> task list \<Rightarrow> sender \<Rightarrow> adding \<Rightarrow> adding" where
  "assign k n ts s w = \<lparr>adder = useNonce k n s, tasks = ts, assigned = assigned w @ [(k, n)]\<rparr>"

inductive add_step :: "signer \<Rightarrow> account list \<Rightarrow> adding \<Rightarrow> adding \<Rightarrow> bool"
  for sign :: signer and wallet :: "account list" where
  call_known: "findAccount wallet cfg (adder w) = (Inr (k, a), s1) \<Longrightarrow> nextNonce k s1 = Some n \<Longrightarrow>
    add_step sign wallet w
      (assign k n (tasks w @ [AwaitingSignature (cfg\<lparr>cfg_nonce := Some n\<rparr>) a]) s1 w)"
| call_unknown: "findAccount wallet cfg (adder w) = (Inr (k, a), s1) \<Longrightarrow> nextNonce k s1 = None \<Longrightarrow>
    add_step sign wallet w (w\<lparr>adder := s1, tasks := tasks w @ [AskingCount cfg k a]\<rparr>)"
| call_rejected: "findAccount wallet cfg (adder w) = (Inl e, s1) \<Longrightarrow>
    add_step sign wallet w (w\<lparr>adder := s1\<rparr>)"
| count_arrives: "tasks w = ts1 @ AskingCount cfg k a # ts2 \<Longrightarrow>
    add_step sign wallet w
      (assign k n (ts1 @ AwaitingSignature (cfg\<lparr>cfg_nonce := Some n\<rparr>) a # ts2) (adder w) w)"
| count_fails: "tasks w = ts1 @ AskingCount cfg k a # ts2 \<Longrightarrow>
    add_step sign wallet w (w\<lparr>tasks := ts1 @ ts2\<rparr>)"
| signature_arrives: "tasks w = ts1 @ AwaitingSignature cfg a # ts2 \<Longrightarrow>
    checkSigned (sign a cfg) = Inr (rawTx, txHash) \<Longrightarrow>
    add_step sign wallet w (w\<lparr>adder := pushTransaction rawTx txHash (adder w), tasks := ts1 @ ts2\<rparr>)"
| signature_fails: "tasks w = ts1 @ AwaitingSignature cfg a # ts2 \<Longrightarrow>
    add_step sign wallet w (w\<lparr>tasks := ts1 @ ts2\<rparr>)"

definition overlapping :: "signer \<Rightarrow> account list \<Rightarrow> adding \<Rightarrow> adding \<Rightarrow> bool" where
  "overlapping sign wallet = (add_step sign wallet)\<^sup>*\<^sup>*"

definition begin_adding :: "sender \<Rightarrow> adding" where
  "begin_adding s = \<lparr>adder = s, tasks = [], assigned = []\<rparr>"

fun asks_for :: "string \<Rightarrow> task \<Rightarrow> bool" where
  "asks_for k (AskingCount cfg k' a) = (k' = k)"
| "asks_for k (AwaitingSignature cfg a) = False"

definition noncesOf :: "string \<Rightarrow> adding \<Rightarrow> nat list" where
  "noncesOf k w = map snd (filter (\<lambda>(k', _). k' = k) (assigned w))"

text \<open>Once a nonce of the account is stored and no call asks for its count, the nonces follow.\<close>

definition in_sequence :: "string \<Rightarrow> nat \<Rightarrow> adding \<Rightarrow> bool" where
  "in_sequence k n w \<longleftrightarrow>
     nonces (adder w) k = Some (n + length (noncesOf k w)) \<and>
     noncesOf k w = [n + 1..<n + 1 + length (noncesOf k w)] \<and>
     (\<forall>t \<in> set (tasks w). \<not> asks_for k t)"

lemma noncesOf_assign:
  "noncesOf k (assign k' n ts s w) = noncesOf k w @ (if k' = k then [n] else [])"
  by (simp add: noncesOf_def assign_def)

lemma in_sequence_assign:
  assumes "in_sequence k n w" "nonces s = nonces (adder w)"
    "k' = k \<Longrightarrow> n' = Suc (n + length (noncesOf k w))" "\<forall>t \<in> set ts. \<not> asks_for k t"
  shows "in_sequence k n (assign k' n' ts s w)"
  using assms unfolding in_sequence_def noncesOf_assign
  by (auto simp: assign_def sender_simps upt_rec [of "n + 1"])

lemma in_sequence_other:
  assumes "in_sequence k n w" "assigned w' = assigned w" "nonces (adder w') = nonces (adder w)"
    "\<forall>t \<in> set (tasks w'). \<not> asks_for k t"
  shows "in_sequence k n w'"
proof -
  have same: "noncesOf k w' = noncesOf k w" by (simp add: noncesOf_def assms(2))
  show ?thesis using assms(1,3,4) unfolding in_sequence_def same by simp
qed

lemma add_step_in_sequence:
  "add_step sign wallet w w' \<Longrightarrow> in_sequence k n w \<Longrightarrow> in_sequence k n w'"
proof (induction rule: add_step.induct)
  case (call_known cfg w k' a s1 n')
  have f: "nonces s1 = nonces (adder w)" using findAccount_frame(1) [of wallet cfg "adder w"] call_known.hyps(1) by simp
  show ?case
    by (rule in_sequence_assign)
      (use call_known f in \<open>auto simp: in_sequence_def nextNonce_def\<close>)
next
  case (call_unknown cfg w k' a s1)
  have f: "nonces s1 = nonces (adder w)" using findAccount_frame(1) [of wallet cfg "adder w"] call_unknown.hyps(1) by simp
  show ?case
    by (rule in_sequence_other) (use call_unknown f in \<open>auto simp: in_sequence_def nextNonce_def\<close>)
next
  case (call_rejected cfg w e s1)
  have f: "nonces s1 = nonces (adder w)" using findAccount_frame(1) [of wallet cfg "adder w"] call_rejected.hyps(1) by simp
  show ?case
    by (rule in_sequence_other) (use call_rejected f in \<open>auto simp: in_sequence_def\<close>)
next
  case (count_arrives w ts1 cfg k' a ts2 n')
  show ?case
    by (rule in_sequence_assign) (use count_arrives in \<open>auto simp: in_sequence_def\<close>)
qed (rule in_sequence_other; force simp: in_sequence_def sender_simps)+

lemma overlapping_in_sequence:
  "overlapping sign wallet w w' \<Longrightarrow> in_sequence k n w \<Longrightarrow> in_sequence k n w'"
  unfolding overlapping_def by (induction rule: rtranclp_induct) (auto intro: add_step_in_sequence)

section \<open>What the nonces promise\<close>

text \<open>C15: Transactions that are added one after the other are signed by the account they name, each with
  the next nonce of its account: the first one takes the number that the network answers.\<close>

theorem awaited_calls_take_expected_nonces:
  assumes "addInTurn sign getTransactionCount wallet cfgs s = (Inr hashes, s')" "accounts_keyed s"
  shows "\<exists>raws. rawTransactions s' = rawTransactions s @ raws \<and>
    transactionHashes s' = transactionHashes s @ map Some hashes \<and>
    length raws = length cfgs \<and> length hashes = length cfgs \<and>
    list_all2 (\<lambda>(cfg, n) t. signed_with sign cfg n t)
      (zip cfgs (expectedNonces (nonceBase getTransactionCount s) (map from_of cfgs))) (zip raws hashes)"
  by (rule addInTurn_Inr [OF assms])

definition exampleWallet :: "account list" where
  "exampleWallet = [\<lparr>account_address = ''0xA'', privateKey = ''1''\<rparr>, \<lparr>account_address = ''0xB'', privateKey = ''2''\<rparr>]"

definition exampleTx :: "string \<Rightarrow> tx_config" where
  "exampleTx k = \<lparr>cfg_from = Some (Address k), cfg_nonce = None, cfg_rest = []\<rparr>"

definition exampleSign :: signer where
  "exampleSign a cfg = Inr \<lparr>signed_raw = Some (privateKey a @ decimal (the (cfg_nonce cfg))),
     signed_hash = Some (decimal (the (cfg_nonce cfg)) @ privateKey a)\<rparr>"

lemma awaited_calls_take_expected_nonces_witness:
  "\<exists>hashes s' raws.
     addInTurn exampleSign (\<lambda>_. Inr 7) exampleWallet [exampleTx ''0xA'', exampleTx ''0xB'', exampleTx ''0xA'']
       new_sender = (Inr hashes, s') \<and> rawTransactions s' = rawTransactions new_sender @ raws \<and>
     expectedNonces (nonceBase (\<lambda>_. Inr 7) new_sender) [''0xA'', ''0xB'', ''0xA''] = [7, 7, 8]"
proof -
  have e: "expectedNonces (nonceBase (\<lambda>_. Inr 7) new_sender) [''0xA'', ''0xB'', ''0xA''] = [7, 7, 8]"
    by code_simp
  have i: "\<not> isl (fst (addInTurn exampleSign (\<lambda>_. Inr 7) exampleWallet
      [exampleTx ''0xA'', exampleTx ''0xB'', exampleTx ''0xA''] new_sender))"
    by code_simp
  obtain hashes s' where r: "addInTurn exampleSign (\<lambda>_. Inr 7) exampleWallet
      [exampleTx ''0xA'', exampleTx ''0xB'', exampleTx ''0xA''] new_sender = (Inr hashes, s')"
    using i by (metis isl_def prod.collapse sum.collapse(2))
  have "accounts_keyed new_sender" by (simp add: accounts_keyed_def new_sender_def)
  from awaited_calls_take_expected_nonces [OF r this] r e show ?thesis by blast
qed

text \<open>C11: Once a nonce of an account is known and no call waits for its count, calls of
  \<open>addTransaction\<close> may overlap in any way, fail or be answered in any order: the nonces handed to the
  wallet for the account are the next ones, in the order of the calls, without a repetition.\<close>

theorem known_nonces_never_shared:
  assumes "overlapping sign wallet (begin_adding s) w" "nonces s k = Some n"
  shows "noncesOf k w = [n + 1..<n + 1 + length (noncesOf k w)] \<and>
         distinct (noncesOf k w) \<and> nonces (adder w) k = Some (n + length (noncesOf k w))"
proof -
  have "in_sequence k n (begin_adding s)"
    using assms(2) by (simp add: in_sequence_def begin_adding_def noncesOf_def)
  from overlapping_in_sequence [OF assms(1) this] show ?thesis
    by (metis distinct_upt in_sequence_def)
qed

lemma call_step:
  assumes "findAccount wallet cfg s = (Inr (k, a), s1)" "nextNonce k s1 = Some n"
  shows "add_step sign wallet \<lparr>adder = s, tasks = ts, assigned = as\<rparr>
    \<lparr>adder = useNonce k n s1, tasks = ts @ [AwaitingSignature (cfg\<lparr>cfg_nonce := Some n\<rparr>) a], assigned = as @ [(k, n)]\<rparr>"
  using add_step.call_known [of wallet cfg "\<lparr>adder = s, tasks = ts, assigned = as\<rparr>" k a s1 n sign] assms
  by (simp add: assign_def)

lemma known_nonces_never_shared_witness:
  "\<exists>w s. overlapping exampleSign exampleWallet (begin_adding s) w \<and> nonces s ''0xA'' = Some 4 \<and>
     noncesOf ''0xA'' w = [5, 6]"
proof -
  define s where "s = useNonce ''0xA'' 4 (new_sender\<lparr>accounts := wallet_accounts exampleWallet, accounts_is_initialized := True\<rparr>)"
  define a where "a = \<lparr>account_address = ''0xA'', privateKey = ''1''\<rparr>"
  have f: "findAccount exampleWallet (exampleTx ''0xA'') (useNonce ''0xA'' n s) = (Inr (''0xA'', a), useNonce ''0xA'' n s)" for n
    by (simp add: findAccount_def exampleTx_def ensureAccountsIsInitialized_def s_def useNonce_def a_def
        wallet_accounts_def exampleWallet_def Let_def)
  have s: "useNonce ''0xA'' 4 s = s" "useNonce ''0xA'' 6 (useNonce ''0xA'' 5 s) = useNonce ''0xA'' 6 s"
    by (simp_all add: s_def useNonce_def new_sender_def)
  note c = call_step [where sign = exampleSign, OF f]
  let ?t = "\<lambda>n. AwaitingSignature (exampleTx ''0xA''\<lparr>cfg_nonce := Some n\<rparr>) a"
  let ?w1 = "\<lparr>adder = useNonce ''0xA'' 5 s, tasks = [?t 5], assigned = [(''0xA'', 5)]\<rparr>"
  let ?w2 = "\<lparr>adder = useNonce ''0xA'' 6 s, tasks = [?t 5, ?t 6], assigned = [(''0xA'', 5), (''0xA'', 6)]\<rparr>"
  have "add_step exampleSign exampleWallet (begin_adding s) ?w1"
    using c [of 4 5 "[]" "[]"] s by (simp add: nextNonce_def useNonce_def begin_adding_def)
  moreover have "add_step exampleSign exampleWallet ?w1 ?w2"
    using c [of 5 6 "[?t 5]" "[(''0xA'', 5)]"] s by (simp add: nextNonce_def useNonce_def)
  ultimately have run: "overlapping exampleSign exampleWallet (begin_adding s) ?w2"
    unfolding overlapping_def by (meson converse_rtranclp_into_rtranclp r_into_rtranclp)
  have n: "nonces s ''0xA'' = Some 4" by (simp add: s_def useNonce_def)
  have len: "length (noncesOf ''0xA'' ?w2) = 2" by (simp add: noncesOf_def)
  have "noncesOf ''0xA'' ?w2 = [4 + 1..<4 + 1 + 2]"
    using known_nonces_never_shared [OF run n] unfolding len by blast
  also have "\<dots> = [5, 6]" by code_simp
  finally show ?thesis using run n by blast
qed

text \<open>C38: The count of a new account is awaited between the test and the storing of its nonce: two first
  calls that overlap get one and the same nonce, so that the same transaction is put into the batch twice.\<close>

theorem first_calls_share_a_nonce:
  assumes "findAccount wallet cfg s = (Inr (k, a), s1)" "nonces s k = None"
    "checkSigned (sign a (cfg\<lparr>cfg_nonce := Some n\<rparr>)) = Inr (rawTx, txHash)"
  shows "\<exists>w. overlapping sign wallet (begin_adding s) w \<and> noncesOf k w = [n, n] \<and> tasks w = [] \<and>
    rawTransactions (adder w) = rawTransactions s @ [rawTx, rawTx]"
proof -
  have s1: "nextNonce k s1 = None" "rawTransactions s1 = rawTransactions s"
    using findAccount_frame(1,2) [of wallet cfg s] assms(1,2) by (simp_all add: nextNonce_def)
  have again: "findAccount wallet cfg s1 = (Inr (k, a), s1)"
    using assms(1)
    by (auto simp: findAccount_def ensureAccountsIsInitialized_def Let_def
        split: if_splits option.splits sender_address.splits)
  let ?cfg = "cfg\<lparr>cfg_nonce := Some n\<rparr>"
  let ?ask = "AskingCount cfg k a" and ?sign = "AwaitingSignature ?cfg a"
  let ?w1 = "\<lparr>adder = s1, tasks = [?ask], assigned = []\<rparr>"
  let ?w2 = "\<lparr>adder = s1, tasks = [?ask, ?ask], assigned = []\<rparr>"
  let ?w3 = "assign k n [?sign, ?ask] s1 ?w2"
  let ?w4 = "assign k n [?sign, ?sign] (adder ?w3) ?w3"
  let ?w5 = "?w4\<lparr>adder := pushTransaction rawTx txHash (adder ?w4), tasks := [?sign]\<rparr>"
  let ?w6 = "?w5\<lparr>adder := pushTransaction rawTx txHash (adder ?w5), tasks := []\<rparr>"
  have "add_step sign wallet (begin_adding s) ?w1"
    using add_step.call_unknown [of wallet cfg "begin_adding s" k a s1 sign] assms(1) s1(1)
    by (simp add: begin_adding_def)
  moreover have "add_step sign wallet ?w1 ?w2"
    using add_step.call_unknown [of wallet cfg ?w1 k a s1 sign] again s1(1) by simp
  moreover have "add_step sign wallet ?w2 ?w3"
    using add_step.count_arrives [of ?w2 "[]" cfg k a "[?ask]" sign wallet n] by simp
  moreover have "add_step sign wallet ?w3 ?w4"
    using add_step.count_arrives [of ?w3 "[?sign]" cfg k a "[]" sign wallet n] by (simp add: assign_def)
  moreover have "add_step sign wallet ?w4 ?w5"
    using add_step.signature_arrives [of ?w4 "[]" ?cfg a "[?sign]" sign rawTx txHash wallet] assms(3)
    by (simp add: assign_def)
  moreover have "add_step sign wallet ?w5 ?w6"
    using add_step.signature_arrives [of ?w5 "[]" ?cfg a "[]" sign rawTx txHash wallet] assms(3)
    by (simp add: assign_def)
  ultimately have "overlapping sign wallet (begin_adding s) ?w6"
    unfolding overlapping_def by (meson converse_rtranclp_into_rtranclp r_into_rtranclp)
  then show ?thesis
    using s1(2) by (intro exI [of _ ?w6]) (simp add: noncesOf_def assign_def sender_simps)
qed

lemma first_calls_share_a_nonce_witness:
  "\<exists>w. overlapping exampleSign exampleWallet (begin_adding new_sender) w \<and> noncesOf ''0xA'' w = [3, 3] \<and>
     tasks w = [] \<and> rawTransactions (adder w) = rawTransactions new_sender @ [''13'', ''13'']"
proof (rule first_calls_share_a_nonce)
  show "findAccount exampleWallet (exampleTx ''0xA'') new_sender =
      (Inr (''0xA'', \<lparr>account_address = ''0xA'', privateKey = ''1''\<rparr>),
       new_sender\<lparr>accounts := wallet_accounts exampleWallet, accounts_is_initialized := True\<rparr>)"
    by (simp add: findAccount_def exampleTx_def ensureAccountsIsInitialized_def new_sender_def
        wallet_accounts_def exampleWallet_def Let_def)
  show "checkSigned (exampleSign \<lparr>account_address = ''0xA'', privateKey = ''1''\<rparr>
      (exampleTx ''0xA''\<lparr>cfg_nonce := Some 3\<rparr>)) = Inr (''13'', ''31'')"
    by code_simp
qed (simp add: new_sender_def)

text \<open>The nonce of a transaction is used up before the wallet signs it. When the signing fails, the next
  transaction of the account takes the nonce after it, and the batch has a gap that the network waits for.\<close>

theorem failed_signature_leaves_gap:
  assumes "findAccount wallet cfg s = (Inr (k, a), s1)" "nonces s k = None" "getTransactionCount k = Inr n"
    "sign a (cfg\<lparr>cfg_nonce := Some n\<rparr>) = Inl e"
    "checkSigned (sign a (cfg2\<lparr>cfg_nonce := Some (n + 1)\<rparr>)) = Inr (rawTx, txHash)"
    "cfg_from cfg2 = cfg_from cfg"
  shows "\<exists>s2 s3. addTransaction sign getTransactionCount wallet cfg s = (Inl e, s2) \<and>
    addTransaction sign getTransactionCount wallet cfg2 s2 = (Inr txHash, s3) \<and>
    rawTransactions s3 = rawTransactions s @ [rawTx] \<and> nonces s3 k = Some (n + 1)"
proof -
  have s1: "nonces s1 = nonces s" "rawTransactions s1 = rawTransactions s"
    using findAccount_frame(1,2) [of wallet cfg s] assms(1) by simp_all
  have again: "findAccount wallet cfg2 (useNonce k n s1) = (Inr (k, a), useNonce k n s1)"
    using assms(1,6)
    by (auto simp: findAccount_def ensureAccountsIsInitialized_def useNonce_def Let_def
        split: if_splits option.splits sender_address.splits)
  have "addTransaction sign getTransactionCount wallet cfg s = (Inl e, useNonce k n s1)"
    using assms(1-4) s1 by (simp add: addTransaction_def signTransaction_def nextNonce_def checkSigned_def)
  moreover have "addTransaction sign getTransactionCount wallet cfg2 (useNonce k n s1) =
      (Inr txHash, pushTransaction rawTx txHash (useNonce k (n + 1) (useNonce k n s1)))"
    using again assms(5) by (simp add: addTransaction_def signTransaction_def nextNonce_def sender_simps)
  ultimately show ?thesis using s1 by (auto simp: sender_simps)
qed

definition pickySign :: signer where
  "pickySign a cfg = (if cfg_rest cfg = ''bad'' then Inl (CallFailed ''invalid transaction'') else exampleSign a cfg)"

lemma failed_signature_leaves_gap_witness:
  "\<exists>s2 s3. addTransaction pickySign (\<lambda>_. Inr 3) exampleWallet (exampleTx ''0xA''\<lparr>cfg_rest := ''bad''\<rparr>) new_sender =
       (Inl (CallFailed ''invalid transaction''), s2) \<and>
    addTransaction pickySign (\<lambda>_. Inr 3) exampleWallet (exampleTx ''0xA'') s2 = (Inr ''41'', s3) \<and>
    rawTransactions s3 = rawTransactions new_sender @ [''14''] \<and> nonces s3 ''0xA'' = Some (3 + 1)"
proof (rule failed_signature_leaves_gap)
  show "findAccount exampleWallet (exampleTx ''0xA''\<lparr>cfg_rest := ''bad''\<rparr>) new_sender =
      (Inr (''0xA'', \<lparr>account_address = ''0xA'', privateKey = ''1''\<rparr>),
       new_sender\<lparr>accounts := wallet_accounts exampleWallet, accounts_is_initialized := True\<rparr>)"
    by (simp add: findAccount_def exampleTx_def ensureAccountsIsInitialized_def new_sender_def
        wallet_accounts_def exampleWallet_def Let_def)
  show "checkSigned (pickySign \<lparr>account_address = ''0xA'', privateKey = ''1''\<rparr>
      (exampleTx ''0xA''\<lparr>cfg_nonce := Some (3 + 1)\<rparr>)) = Inr (''14'', ''41'')"
    by code_simp
qed (simp_all add: new_sender_def pickySign_def exampleTx_def)

end
