(* ===== verification/FastTxSending.thy ===== *)
theory FastTxSending imports FastTxSender begin

text \<open>
  What \<open>sendTxs\<close> has done when it returns: the posting loop, the replies of the node and the retries
  of refused transactions run interleaved, one piece at a time. And when \<open>awaitTransactions\<close> returns.
\<close>

section \<open>The posting loop\<close>

lemma array_get_set_other: "j \<noteq> i \<Longrightarrow> i < length xs \<Longrightarrow> array_get (array_set d xs i v) j = array_get xs j"
  by (simp add: array_get_def array_set_def nth_append)

lemma array_get_set_same: "array_get (array_set d xs i v) i = Some v"
  by (simp add: array_get_def array_set_def)

lemma length_array_set: "i < length xs \<Longrightarrow> length (array_set d xs i v) = length xs"
  by (simp add: array_set_def)

lemma alreadySent_dispatched [simp]: "alreadySent (s\<lparr>currentDispatchedTransactions := c\<rparr>) i = alreadySent s i"
  by (simp add: alreadySent_def)

text \<open>The indices up to which the loop has come\<close>

definition loop_end :: "nat \<Rightarrow> nat option \<Rightarrow> nat" where
  "loop_end n c = (case c of Some j \<Rightarrow> j + 1 | None \<Rightarrow> n)"

lemma postFrom_spec:
  assumes "postFrom i s = (rs, c, s')" "i \<le> length (rawTransactions s)"
  shows "map fst rs = filter (\<lambda>j. \<not> alreadySent s j) [i..<loop_end (length (rawTransactions s)) c] \<and>
    i \<le> loop_end (length (rawTransactions s)) c \<and>
    loop_end (length (rawTransactions s)) c \<le> length (rawTransactions s) \<and>
    (\<exists>d. s' = s\<lparr>currentDispatchedTransactions := d\<rparr>)"
  using assms
proof (induction i s arbitrary: rs c s' rule: postFrom.induct)
  case (1 i s)
  let ?n = "length (rawTransactions s)"
  show ?case
  proof (cases "i < ?n")
    case False
    then have "rs = []" "c = None" "s' = s" using 1(3) by (simp_all add: postFrom.simps [of i s])
    then show ?thesis using 1(4) False by (auto simp: loop_end_def intro: exI [of _ "currentDispatchedTransactions s"])
  next
    case i: True
    show ?thesis
    proof (cases "alreadySent s i")
      case True
      then have "postFrom (i + 1) s = (rs, c, s')" using 1(3) i
        by (simp add: postFrom.simps [of i] sendSingleTxRaw_def)
      from 1(1) [OF i _ _ this] True i show ?thesis
        by (auto simp: sendSingleTxRaw_def upt_rec [of i] loop_end_def split: option.splits)
    next
      case False
      let ?s1 = "s\<lparr>currentDispatchedTransactions := currentDispatchedTransactions s + 1\<rparr>"
      let ?r = "(i, array_get (rawTransactions s) i)"
      show ?thesis
      proof (cases "i mod awaitAllX = 0")
        case True
        then have "rs = [?r]" "c = Some i" "s' = ?s1" using 1(3) i False
          by (auto simp: postFrom.simps [of i] sendSingleTxRaw_def)
        then show ?thesis using False i by (auto simp: loop_end_def upt_rec [of i])
      next
        case more: False
        then obtain rs1 where rs: "postFrom (i + 1) ?s1 = (rs1, c, s')" "rs = ?r # rs1"
          using 1(3) i False
          by (auto simp: postFrom.simps [of i] sendSingleTxRaw_def split: prod.splits)
        have "map fst rs1 = filter (\<lambda>j. \<not> alreadySent ?s1 j) [i + 1..<loop_end ?n c]" "i + 1 \<le> loop_end ?n c"
          "loop_end ?n c \<le> ?n" "\<exists>d. s' = ?s1\<lparr>currentDispatchedTransactions := d\<rparr>"
          using 1(2) [OF i _ _ more rs(1)] False i by (auto simp: sendSingleTxRaw_def)
        then show ?thesis using rs(2) False i by (auto simp: upt_rec [of i])
      qed
    qed
  qed
qed

section \<open>Sending as interleaved pieces\<close>

datatype origin = FromLoop | FromRetry

record post =
  post_index :: nat
  post_origin :: origin
  answer :: "reply option"

text \<open>Where \<open>sendTxs\<close> stands: it awaits one of its promises, awaits them all, or is done. The promises
  are the numbers of the posts.\<close>

datatype control = Awaiting nat "nat list" | Gathering "nat list" | Returned nat | Failed

record sending =
  sending_sender :: sender
  posts :: "post list"
  sleeping :: "nat list"
  ctrl :: control

definition newPost :: "origin \<Rightarrow> request \<Rightarrow> post" where
  "newPost origin r = \<lparr>post_index = fst r, post_origin = origin, answer = None\<rparr>"

definition continueLoop :: "nat \<Rightarrow> nat list \<Rightarrow> sending \<Rightarrow> sending" where
  "continueLoop i promisses w = (case postFrom i (sending_sender w) of (rs, c, s') \<Rightarrow>
     let ps = promisses @ [length (posts w)..<length (posts w) + length rs]
     in w\<lparr>sending_sender := s', posts := posts w @ map (newPost FromLoop) rs,
          ctrl := (case c of Some j \<Rightarrow> Awaiting j ps | None \<Rightarrow> Gathering ps)\<rparr>)"

definition beginSending :: "sender \<Rightarrow> sending" where
  "beginSending s = continueLoop 0 [] \<lparr>sending_sender = s, posts = [], sleeping = [], ctrl = Gathering []\<rparr>"

fun fulfilled :: "post \<Rightarrow> bool" where
  "fulfilled x = (case answer x of Some (Response _ _) \<Rightarrow> True | _ \<Rightarrow> False)"

definition answered :: "nat \<Rightarrow> reply \<Rightarrow> sending \<Rightarrow> sending" where
  "answered p r w =
     (let x = posts w ! p in case onReply (post_index x) r (sending_sender w) of (act, s') \<Rightarrow>
        w\<lparr>sending_sender := s', posts := (posts w)[p := x\<lparr>answer := Some r\<rparr>],
          sleeping := sleeping w @ (if act = RetryLater then [post_index x] else [])\<rparr>)"

inductive send_step :: "sending \<Rightarrow> sending \<Rightarrow> bool" where
  reply_arrives: "p < length (posts w) \<Longrightarrow> answer (posts w ! p) = None \<Longrightarrow> send_step w (answered p r w)"
| retry_skipped: "sleeping w = xs @ i # ys \<Longrightarrow> sendSingleTxRaw i (sending_sender w) = (None, s') \<Longrightarrow>
    send_step w (w\<lparr>sleeping := xs @ ys\<rparr>)"
| retry_posted: "sleeping w = xs @ i # ys \<Longrightarrow> sendSingleTxRaw i (sending_sender w) = (Some r, s') \<Longrightarrow>
    send_step w (w\<lparr>sending_sender := s', posts := posts w @ [newPost FromRetry r], sleeping := xs @ ys\<rparr>)"
| resume: "ctrl w = Awaiting i ps \<Longrightarrow>
    (case array_get ps i of None \<Rightarrow> True | Some p \<Rightarrow> fulfilled (posts w ! p)) \<Longrightarrow>
    send_step w (continueLoop (i + 1) ps w)"
| gathered: "ctrl w = Gathering ps \<Longrightarrow> (\<forall>p \<in> set ps. fulfilled (posts w ! p)) \<Longrightarrow>
    send_step w (w\<lparr>ctrl := Returned (length ps)\<rparr>)"
| rejected: "ctrl w = Awaiting i ps \<Longrightarrow> array_get ps i = Some p \<Longrightarrow> answer (posts w ! p) = Some Rejected \<Longrightarrow>
    send_step w (w\<lparr>ctrl := Failed\<rparr>)"
| gather_rejected: "ctrl w = Gathering ps \<Longrightarrow> p \<in> set ps \<Longrightarrow> answer (posts w ! p) = Some Rejected \<Longrightarrow>
    send_step w (w\<lparr>ctrl := Failed\<rparr>)"

definition sendTxs_run :: "sender \<Rightarrow> sending \<Rightarrow> bool" where
  "sendTxs_run s w \<longleftrightarrow> send_step\<^sup>*\<^sup>* (beginSending s) w"

section \<open>What every run keeps\<close>

text \<open>The arrays of the sender have one entry per transaction.\<close>

definition aligned :: "sender \<Rightarrow> bool" where
  "aligned s \<longleftrightarrow> length (transactionSentState s) = length (rawTransactions s) \<and>
     length (transactionHashes s) = length (rawTransactions s)"

definition unsent :: "sender \<Rightarrow> nat \<Rightarrow> nat list" where
  "unsent s n = filter (\<lambda>j. \<not> alreadySent s j) [0..<n]"

fun position :: "nat \<Rightarrow> control \<Rightarrow> nat" where
  "position n (Awaiting i ps) = i + 1"
| "position n c = n"

fun promises :: "control \<Rightarrow> nat list option" where
  "promises (Awaiting i ps) = Some ps"
| "promises (Gathering ps) = Some ps"
| "promises c = None"

definition refused :: "reply \<Rightarrow> bool" where
  "refused r \<longleftrightarrow> (case r of Rejected \<Rightarrow> True
     | Response st (RpcError e) \<Rightarrow> st \<noteq> 200 \<or> e \<noteq> tooManyTransactions
     | Response st (RpcResult h) \<Rightarrow> st \<noteq> 200)"

text \<open>A posted transaction is marked as sent, waits to be posted again, or has an unanswered or a
  refused post.\<close>

definition accounted :: "sending \<Rightarrow> nat \<Rightarrow> bool" where
  "accounted w i \<longleftrightarrow> alreadySent (sending_sender w) i \<or> i \<in> set (sleeping w) \<or>
     (\<exists>x \<in> set (posts w). post_index x = i \<and> (case answer x of None \<Rightarrow> True | Some r \<Rightarrow> refused r))"

definition loopPosts :: "sending \<Rightarrow> post list" where
  "loopPosts w = filter (\<lambda>x. post_origin x = FromLoop) (posts w)"

definition same_batch :: "sender \<Rightarrow> sending \<Rightarrow> bool" where
  "same_batch s w \<longleftrightarrow> aligned (sending_sender w) \<and> rawTransactions (sending_sender w) = rawTransactions s \<and>
     post_index ` set (posts w) \<subseteq> {..<length (rawTransactions s)} \<and>
     set (sleeping w) \<subseteq> post_index ` set (posts w)"

definition posted_once :: "sender \<Rightarrow> nat \<Rightarrow> sending \<Rightarrow> bool" where
  "posted_once s p w \<longleftrightarrow> map post_index (loopPosts w) = unsent s p \<and>
     (\<forall>x \<in> set (posts w). post_index x \<in> set (unsent s p)) \<and>
     (\<forall>i. i \<notin> post_index ` set (posts w) \<longrightarrow> alreadySent (sending_sender w) i = alreadySent s i) \<and>
     (\<forall>i \<in> set (unsent s p). accounted w i)"

definition promised :: "sending \<Rightarrow> bool" where
  "promised w \<longleftrightarrow> (\<forall>ps. promises (ctrl w) = Some ps \<longrightarrow> length ps = length (loopPosts w) \<and>
       set ps = {q. q < length (posts w) \<and> post_origin (posts w ! q) = FromLoop}) \<and>
     (\<forall>k. ctrl w = Returned k \<longrightarrow> k = length (loopPosts w) \<and> (\<forall>x \<in> set (loopPosts w). fulfilled x))"

definition sound :: "sender \<Rightarrow> sending \<Rightarrow> bool" where
  "sound s w \<longleftrightarrow> same_batch s w \<and> promised w \<and>
     (ctrl w \<noteq> Failed \<longrightarrow> posted_once s (position (length (rawTransactions s)) (ctrl w)) w \<and>
        position (length (rawTransactions s)) (ctrl w) \<le> length (rawTransactions s))"

lemma onReply_spec:
  assumes "onReply i r s = (act, s')" "i < length (rawTransactions s)" "aligned s"
  shows "aligned s' \<and> rawTransactions s' = rawTransactions s \<and>
    (\<forall>j. j \<noteq> i \<longrightarrow> alreadySent s' j = alreadySent s j) \<and> (alreadySent s i \<longrightarrow> alreadySent s' i) \<and>
    (act = RetryLater \<or> alreadySent s' i \<or> refused r)"
proof (cases r)
  case (Response st body)
  then show ?thesis using assms
    by (auto simp: Let_def aligned_def alreadySent_def array_get_set_other array_get_set_same
        length_array_set refused_def split: rpc_body.splits if_splits)
qed (use assms in \<open>auto simp: refused_def\<close>)

lemma loopPosts_update:
  assumes "p < length xs" "post_origin y = post_origin (xs ! p)" "post_index y = post_index (xs ! p)"
  shows "map post_index (filter (\<lambda>x. post_origin x = FromLoop) (xs[p := y])) =
         map post_index (filter (\<lambda>x. post_origin x = FromLoop) xs)"
  using assms
proof (induction xs arbitrary: p)
  case (Cons x xs)
  then show ?case by (cases p) auto
qed simp

lemma fulfilled_update:
  assumes "p < length xs" "answer (xs ! p) = None" "post_origin y = post_origin (xs ! p)"
    "\<forall>x \<in> set (filter (\<lambda>x. post_origin x = FromLoop) xs). fulfilled x"
  shows "\<forall>x \<in> set (filter (\<lambda>x. post_origin x = FromLoop) (xs[p := y])). fulfilled x"
proof -
  have "xs ! p \<in> set xs" "\<not> fulfilled (xs ! p)" using assms(1,2) by auto
  then have "post_origin y \<noteq> FromLoop" using assms(3,4) by auto
  then show ?thesis using assms(4) set_update_subset_insert [of xs p y] by auto
qed

lemma sound_answered:
  assumes "p < length (posts w)" "answer (posts w ! p) = None" "sound s w"
  shows "sound s (answered p r w)"
proof -
  let ?x = "posts w ! p"
  let ?y = "?x\<lparr>answer := Some r\<rparr>"
  let ?i = "post_index ?x"
  obtain act s' where o: "onReply ?i r (sending_sender w) = (act, s')" by fastforce
  let ?w = "w\<lparr>sending_sender := s', posts := (posts w)[p := ?y],
      sleeping := sleeping w @ (if act = RetryLater then [?i] else [])\<rparr>"
  have w': "answered p r w = ?w" by (simp add: answered_def o Let_def)
  have b: "same_batch s w" using assms(3) by (simp add: sound_def)
  have x: "?x \<in> set (posts w)" using assms(1) by simp
  then have i: "?i < length (rawTransactions (sending_sender w))" using b by (auto simp: same_batch_def)
  note spec = onReply_spec [OF o i] b [unfolded same_batch_def]
  have image: "post_index ` set ((posts w)[p := ?y]) = post_index ` set (posts w)"
  proof -
    have "map post_index ((posts w)[p := ?y]) = map post_index (posts w)"
      by (simp add: map_update assms(1) list_update_same_conv)
    then show ?thesis by (metis list.set_map)
  qed
  have lp: "map post_index (loopPosts ?w) = map post_index (loopPosts w)"
    unfolding loopPosts_def using loopPosts_update [OF assms(1), of ?y] by simp
  have "same_batch s ?w"
  proof -
    have "set (sleeping ?w) \<subseteq> post_index ` set (posts w)" using spec x by auto
    then show ?thesis using spec unfolding same_batch_def by (simp add: image)
  qed
  moreover have "promised ?w"
  proof -
    have "length (loopPosts ?w) = length (loopPosts w)" using arg_cong [OF lp, of length] by simp
    moreover have "q < length (posts w) \<Longrightarrow>
        post_origin ((posts w)[p := ?y] ! q) = post_origin (posts w ! q)" for q
      by (cases "q = p") simp_all
    moreover have "ctrl w = Returned k \<Longrightarrow> \<forall>x \<in> set (loopPosts ?w). fulfilled x" for k
      using fulfilled_update [OF assms(1,2), of ?y] assms(3)
      by (auto simp: sound_def promised_def loopPosts_def)
    ultimately show ?thesis using assms(3) by (auto simp: sound_def promised_def)
  qed
  moreover have "posted_once s q ?w" if "posted_once s q w" for q
  proof -
    have acc: "accounted ?w j" if j: "accounted w j" for j
    proof -
      have "accounted ?w j" if "z \<in> set (posts w)" "post_index z = j" "z \<noteq> ?x"
          "case answer z of None \<Rightarrow> True | Some r \<Rightarrow> refused r" for z
      proof -
        obtain q where q: "q < length (posts w)" "posts w ! q = z" using \<open>z \<in> set (posts w)\<close> by (metis in_set_conv_nth)
        with \<open>z \<noteq> ?x\<close> have "q \<noteq> p" by auto
        then have "(posts w)[p := ?y] ! q = z" using q by simp
        then have "z \<in> set ((posts w)[p := ?y])" using q(1) by (metis length_list_update nth_mem)
        then show ?thesis using that by (auto simp: accounted_def)
      qed
      moreover have "accounted ?w ?i"
      proof -
        have "?y \<in> set ((posts w)[p := ?y])" using assms(1) by (rule set_update_memI)
        moreover have "post_index ?y = ?i" "answer ?y = Some r" by simp_all
        ultimately show ?thesis using spec unfolding accounted_def by fastforce
      qed
      moreover have "alreadySent s' j" if "alreadySent (sending_sender w) j"
        using that spec by (cases "j = ?i") auto
      ultimately show ?thesis using j unfolding accounted_def by auto
    qed
    show ?thesis unfolding posted_once_def
    proof (intro conjI ballI allI impI)
      show "map post_index (loopPosts ?w) = unsent s q" using lp that by (simp add: posted_once_def)
      show "post_index z \<in> set (unsent s q)" if "z \<in> set (posts ?w)" for z
      proof -
        have "post_index z \<in> post_index ` set (posts w)" using that image by auto
        then show ?thesis using \<open>posted_once s q w\<close> by (auto simp: posted_once_def)
      qed
      show "alreadySent (sending_sender ?w) j = alreadySent s j" if "j \<notin> post_index ` set (posts ?w)" for j
      proof -
        have "j \<notin> post_index ` set (posts w)" using that image by simp
        then show ?thesis using \<open>posted_once s q w\<close> spec x by (auto simp: posted_once_def)
      qed
      show "accounted ?w j" if "j \<in> set (unsent s q)" for j
        using that \<open>posted_once s q w\<close> acc by (auto simp: posted_once_def)
    qed
  qed
  ultimately show ?thesis using assms(3) unfolding w' by (simp add: sound_def)
qed

lemma sendSingleTxRaw_Some:
  "sendSingleTxRaw i s = (Some r, s') \<Longrightarrow>
     \<not> alreadySent s i \<and> fst r = i \<and> s' = s\<lparr>currentDispatchedTransactions := currentDispatchedTransactions s + 1\<rparr>"
  by (auto simp: sendSingleTxRaw_def split: if_splits)

lemma sendSingleTxRaw_None: "sendSingleTxRaw i s = (None, s') \<Longrightarrow> alreadySent s i"
  by (auto simp: sendSingleTxRaw_def split: if_splits)

lemma aligned_dispatched [simp]: "aligned (s\<lparr>currentDispatchedTransactions := c\<rparr>) = aligned s"
  by (simp add: aligned_def)

lemma sound_skipped:
  assumes "sleeping w = xs @ i # ys" "sendSingleTxRaw i (sending_sender w) = (None, s')" "sound s w"
  shows "sound s (w\<lparr>sleeping := xs @ ys\<rparr>)"
proof -
  have "accounted (w\<lparr>sleeping := xs @ ys\<rparr>) j" if "accounted w j" for j
    using that assms(1) sendSingleTxRaw_None [OF assms(2)] by (auto simp: accounted_def)
  then show ?thesis
    using assms(1,3) by (auto simp: sound_def same_batch_def promised_def posted_once_def loopPosts_def)
qed

lemma sound_retried:
  assumes "sleeping w = xs @ i # ys" "sendSingleTxRaw i (sending_sender w) = (Some r, s')" "sound s w"
  shows "sound s (w\<lparr>sending_sender := s', posts := posts w @ [newPost FromRetry r], sleeping := xs @ ys\<rparr>)"
    (is "sound s ?w")
proof -
  note s' = sendSingleTxRaw_Some [OF assms(2)]
  have post: "newPost FromRetry r = \<lparr>post_index = i, post_origin = FromRetry, answer = None\<rparr>"
    using s' by (simp add: newPost_def)
  have i: "i \<in> post_index ` set (posts w)" using assms(1,3) by (auto simp: sound_def same_batch_def)
  have acc: "accounted ?w j" if "accounted w j" for j
    using that assms(1) s' by (auto simp: accounted_def post)
  have lp: "loopPosts ?w = loopPosts w" by (simp add: loopPosts_def post)
  have once: "posted_once s p ?w" if "posted_once s p w" for p
    using that i s' acc unfolding posted_once_def lp by (auto simp: post)
  have "same_batch s ?w"
    using assms(1,3) i s' by (auto simp: sound_def same_batch_def post)
  moreover have "promised ?w"
    using assms(3) unfolding sound_def promised_def lp by (auto simp: post nth_append less_Suc_eq)
  ultimately show ?thesis using assms(3) once by (simp add: sound_def)
qed

lemma filter_upt_split: "i \<le> p \<Longrightarrow> filter P [0..<p] = filter P [0..<i] @ filter P [i..<p]"
  using upt_add_eq_append [of 0 i "p - i"] by simp

lemma indices_append:
  assumes "\<forall>y \<in> set ys. P y"
  shows "{q. q < length (xs @ ys) \<and> P ((xs @ ys) ! q)} =
         {q. q < length xs \<and> P (xs ! q)} \<union> {length xs..<length xs + length ys}"
  using assms by (auto simp: nth_append)

lemma sound_continued:
  assumes "same_batch s w" "posted_once s i w" "i \<le> length (rawTransactions s)"
    "length ps = length (loopPosts w)" "set ps = {q. q < length (posts w) \<and> post_origin (posts w ! q) = FromLoop}"
  shows "sound s (continueLoop i ps w)"
proof -
  let ?n = "length (rawTransactions s)"
  obtain rs c s' where f: "postFrom i (sending_sender w) = (rs, c, s')" by (metis prod_cases3)
  have n: "rawTransactions (sending_sender w) = rawTransactions s" using assms(1) by (simp add: same_batch_def)
  let ?p = "loop_end ?n c"
  have spec: "map fst rs = filter (\<lambda>j. \<not> alreadySent (sending_sender w) j) [i..<?p]" "i \<le> ?p" "?p \<le> ?n"
    and s': "\<exists>d. s' = (sending_sender w)\<lparr>currentDispatchedTransactions := d\<rparr>"
    using postFrom_spec [OF f] assms(3) by (auto simp: n)
  have posted: "j \<in> post_index ` set (posts w) \<Longrightarrow> j < i" for j
    using assms(2) by (auto simp: posted_once_def unsent_def)
  have same: "alreadySent (sending_sender w) j = alreadySent s j" if "i \<le> j" for j
    using that assms(2) posted [of j] by (auto simp: posted_once_def)
  have rs: "map fst rs = filter (\<lambda>j. \<not> alreadySent s j) [i..<?p]"
    unfolding spec(1) by (rule filter_cong) (use same in auto)
  have un: "unsent s ?p = unsent s i @ map fst rs"
    unfolding rs unsent_def by (rule filter_upt_split [OF spec(2)])
  let ?ps = "ps @ [length (posts w)..<length (posts w) + length rs]"
  let ?w = "w\<lparr>sending_sender := s', posts := posts w @ map (newPost FromLoop) rs,
          ctrl := (case c of Some j \<Rightarrow> Awaiting j ?ps | None \<Rightarrow> Gathering ?ps)\<rparr>"
  have w': "continueLoop i ps w = ?w" by (simp add: continueLoop_def f Let_def)
  have lp: "loopPosts ?w = loopPosts w @ map (newPost FromLoop) rs"
    by (simp add: loopPosts_def newPost_def filter_map o_def)
  have idx: "map post_index (map (newPost FromLoop) rs) = map fst rs"
    by (simp add: newPost_def)
  have idx_set: "post_index ` newPost FromLoop ` set rs = fst ` set rs"
    by (simp add: newPost_def image_image)
  have fst_rs: "fst ` set rs \<subseteq> {..<?n}"
    using spec(3) arg_cong [OF rs, of set] by auto
  have pos: "position ?n (ctrl ?w) = ?p" by (simp add: loop_end_def split: option.splits)
  have acc: "accounted ?w j" if "accounted w j" for j
    using that s' by (auto simp: accounted_def)
  have accn: "accounted ?w j" if "j \<in> fst ` set rs" for j
    using that by (force simp: accounted_def newPost_def)
  have "same_batch s ?w"
    using assms(1) s' fst_rs unfolding same_batch_def by (auto simp: newPost_def)
  moreover have "promised ?w"
  proof -
    have "length ?ps = length (loopPosts ?w)" unfolding lp using assms(4) by simp
    moreover have "set ?ps = {q. q < length (posts ?w) \<and> post_origin (posts ?w ! q) = FromLoop}"
      using indices_append [of "map (newPost FromLoop) rs" "\<lambda>x. post_origin x = FromLoop" "posts w"]
      by (simp add: assms(5) newPost_def)
    moreover have "promises (ctrl ?w) = Some ?ps" "ctrl ?w \<noteq> Returned k" for k
      by (cases c; simp)+
    ultimately show ?thesis unfolding promised_def by (metis option.inject)
  qed
  moreover have "posted_once s ?p ?w"
    unfolding posted_once_def un lp
  proof (intro conjI ballI allI impI)
    show "map post_index (loopPosts w @ map (newPost FromLoop) rs) = unsent s i @ map fst rs"
      using assms(2) idx unfolding posted_once_def by simp
    show "post_index x \<in> set (unsent s i @ map fst rs)" if "x \<in> set (posts ?w)" for x
    proof -
      have "post_index x \<in> post_index ` set (posts w) \<union> post_index ` newPost FromLoop ` set rs" using that by auto
      then show ?thesis using assms(2) unfolding idx_set by (auto simp: posted_once_def)
    qed
    show "alreadySent (sending_sender ?w) j = alreadySent s j" if "j \<notin> post_index ` set (posts ?w)" for j
    proof -
      have "j \<notin> post_index ` set (posts w)" using that by auto
      then show ?thesis using assms(2) s' by (auto simp: posted_once_def)
    qed
    show "accounted ?w j" if "j \<in> set (unsent s i @ map fst rs)" for j
      using that assms(2) acc accn by (auto simp: posted_once_def)
  qed
  ultimately show ?thesis
    unfolding w' sound_def using pos spec(3) by (auto split: option.splits)
qed

lemma send_step_sound: "send_step w w' \<Longrightarrow> sound s w \<Longrightarrow> sound s w'"
proof (induction rule: send_step.induct)
  case (reply_arrives p w r)
  then show ?case by (rule sound_answered)
next
  case (retry_skipped w xs i ys s')
  then show ?case by (rule sound_skipped)
next
  case (retry_posted w xs i ys r s')
  then show ?case by (rule sound_retried)
next
  case (resume w i ps)
  then show ?case by (intro sound_continued) (auto simp: sound_def promised_def)
next
  case (gathered w ps)
  have "x \<in> set (loopPosts w) \<Longrightarrow> \<exists>p \<in> set ps. x = posts w ! p" for x
    using gathered by (auto simp: sound_def promised_def loopPosts_def in_set_conv_nth)
  with gathered have "\<forall>x \<in> set (loopPosts w). fulfilled x" by blast
  with gathered show ?case
    by (simp add: sound_def promised_def same_batch_def posted_once_def loopPosts_def accounted_def)
qed (auto simp: sound_def promised_def same_batch_def loopPosts_def)

lemma sound_begin: "aligned s \<Longrightarrow> sound s (beginSending s)"
  unfolding beginSending_def
  by (rule sound_continued) (auto simp: same_batch_def posted_once_def loopPosts_def unsent_def)

lemma sendTxs_run_sound: "sendTxs_run s w \<Longrightarrow> aligned s \<Longrightarrow> sound s w"
  unfolding sendTxs_run_def
  by (induction rule: rtranclp_induct) (auto intro: send_step_sound sound_begin)

section \<open>What sendTxs promises\<close>

text \<open>C12: However replies and retries interleave with the loop: when \<open>sendTxs\<close> returns, it has posted
  exactly the transactions not marked as sent, each once and in order, returns their number, every one of
  these posts has been answered, and every transaction is marked as sent, waits to be posted again, or has
  an unanswered or refused post.\<close>

theorem sendTxs_posts_each_once:
  assumes "sendTxs_run s w" "ctrl w = Returned k" "aligned s"
  shows "map post_index (loopPosts w) = unsent s (length (rawTransactions s)) \<and>
    k = length (unsent s (length (rawTransactions s))) \<and>
    (\<forall>x \<in> set (loopPosts w). fulfilled x) \<and>
    (\<forall>i < length (rawTransactions s). alreadySent s i \<or> accounted w i)"
proof -
  have "sound s w" using sendTxs_run_sound assms(1,3) by blast
  then have once: "posted_once s (length (rawTransactions s)) w"
    and k: "k = length (loopPosts w)" "\<forall>x \<in> set (loopPosts w). fulfilled x"
    using assms(2) by (auto simp: sound_def promised_def)
  have "length (loopPosts w) = length (unsent s (length (rawTransactions s)))"
    using once by (metis length_map posted_once_def)
  with once k show ?thesis by (auto simp: posted_once_def unsent_def)
qed

definition oneTransaction :: sender where
  "oneTransaction = pushTransaction ''raw'' ''hash'' (new_sender\<lparr>blockBeforeSent := Some 5\<rparr>)"

definition refusedOnce :: sending where
  "refusedOnce = \<lparr>sending_sender = oneTransaction,
     posts = [\<lparr>post_index = 0, post_origin = FromLoop, answer = Some (Response 200 (RpcError tooManyTransactions))\<rparr>],
     sleeping = [0], ctrl = Returned 1\<rparr>"

lemma refusedOnce_run: "sendTxs_run oneTransaction refusedOnce"
proof -
  let ?s = "oneTransaction\<lparr>currentDispatchedTransactions := 1\<rparr>"
  let ?p = "\<lparr>post_index = 0, post_origin = FromLoop, answer = None\<rparr>"
  let ?r = "Response 200 (RpcError tooManyTransactions)"
  let ?q = "\<lparr>post_index = 0, post_origin = FromLoop, answer = Some ?r\<rparr>"
  have post: "postFrom 0 oneTransaction = ([(0, Some ''raw'')], Some 0, ?s)"
    by (simp add: postFrom.simps [of 0] oneTransaction_def pushTransaction_def new_sender_def sendSingleTxRaw_def
        alreadySent_def array_get_def)
  have rest: "postFrom (Suc 0) oneTransaction = ([], None, oneTransaction)"
    by (simp add: postFrom.simps [of "Suc 0"] oneTransaction_def pushTransaction_def new_sender_def)
  let ?w0 = "\<lparr>sending_sender = ?s, posts = [?p], sleeping = [], ctrl = Awaiting 0 [0]\<rparr>"
  let ?w1 = "\<lparr>sending_sender = oneTransaction, posts = [?q], sleeping = [0], ctrl = Awaiting 0 [0]\<rparr>"
  let ?w2 = "\<lparr>sending_sender = oneTransaction, posts = [?q], sleeping = [0], ctrl = Gathering [0]\<rparr>"
  have a0: "beginSending oneTransaction = ?w0"
    by (simp add: beginSending_def continueLoop_def post newPost_def)
  have "answered 0 ?r ?w0 = ?w1"
    by (simp add: answered_def oneTransaction_def pushTransaction_def new_sender_def)
  then have a1: "send_step ?w0 ?w1" using reply_arrives [of 0 ?w0 ?r] by simp
  have "continueLoop (0 + 1) [0] ?w1 = ?w2"
    by (simp add: continueLoop_def rest Let_def)
  then have a2: "send_step ?w1 ?w2" using resume [of ?w1 0 "[0]"] by (simp add: array_get_def)
  have a3: "send_step ?w2 refusedOnce"
    using gathered [of ?w2 "[0]"] by (simp add: refusedOnce_def)
  show ?thesis unfolding sendTxs_run_def a0
    using a1 a2 a3 by (meson converse_rtranclp_into_rtranclp r_into_rtranclp)
qed

lemma sendTxs_posts_each_once_witness:
  "map post_index (loopPosts refusedOnce) = [0] \<and> unsent oneTransaction 1 = [0] \<and> accounted refusedOnce 0"
proof -
  have s: "unsent oneTransaction 1 = [0]" "length (rawTransactions oneTransaction) = 1" "\<not> alreadySent oneTransaction 0"
    by code_simp+
  have "aligned oneTransaction" by code_simp
  moreover have "ctrl refusedOnce = Returned 1" by code_simp
  ultimately show ?thesis
    using sendTxs_posts_each_once [OF refusedOnce_run, of 1] s by auto
qed

section \<open>When awaitTransactions returns\<close>

text \<open>The last block looked at before the \<open>n\<close>-th poll, and the hashes found in the polls before it\<close>

fun lastAnalysed :: "(nat \<Rightarrow> nat) \<Rightarrow> nat \<Rightarrow> nat \<Rightarrow> nat" where
  "lastAnalysed heads before 0 = before"
| "lastAnalysed heads before (Suc n) = heads n"

definition confirmed :: "(nat \<Rightarrow> string list) \<Rightarrow> (nat \<Rightarrow> nat) \<Rightarrow> nat \<Rightarrow> nat \<Rightarrow> string option \<Rightarrow> bool" where
  "confirmed txs heads before n h \<longleftrightarrow>
     (\<exists>m < n. \<exists>b. lastAnalysed heads before m < b \<and> b \<le> heads m \<and> h \<in> Some ` set (txs b))"

definition missing :: "(nat \<Rightarrow> string list) \<Rightarrow> (nat \<Rightarrow> nat) \<Rightarrow> nat \<Rightarrow> nat \<Rightarrow> string option list \<Rightarrow> string option list" where
  "missing txs heads before n hashes = filter (\<lambda>h. \<not> confirmed txs heads before n h) hashes"

lemma sweep_blocks:
  "sweep (\<lambda>b. Inr (txs b)) bs hashes = Inr (filter (\<lambda>h. \<forall>b \<in> set bs. h \<notin> Some ` set (txs b)) hashes)"
proof (induction bs arbitrary: hashes)
  case (Cons b bs)
  show ?case
  proof (cases "filter (\<lambda>h. h \<notin> Some ` set (txs b)) hashes = []")
    case True
    then show ?thesis by (auto simp: Let_def filter_empty_conv)
  next
    case False
    then show ?thesis using Cons by (simp add: Let_def filter_empty_conv)
  qed
qed simp

lemma confirmed_Suc:
  "confirmed txs heads before (Suc n) h \<longleftrightarrow> confirmed txs heads before n h \<or>
     (\<exists>b \<in> set [lastAnalysed heads before n + 1..<heads n + 1]. h \<in> Some ` set (txs b))"
proof -
  have "b \<in> set [lastAnalysed heads before n + 1..<heads n + 1] \<longleftrightarrow> lastAnalysed heads before n < b \<and> b \<le> heads n" for b
    by (simp only: set_upt) auto
  then show ?thesis unfolding confirmed_def less_Suc_eq by blast
qed

lemma missing_Suc:
  "missing txs heads before (Suc n) hashes =
   filter (\<lambda>h. \<forall>b \<in> set [lastAnalysed heads before n + 1..<heads n + 1]. h \<notin> Some ` set (txs b))
     (missing txs heads before n hashes)"
  unfolding missing_def filter_filter confirmed_Suc by (rule filter_cong) blast+

abbreviation polled where
  "polled txs heads before n hashes \<equiv>
     poll (\<lambda>b. Inr (txs b)) (\<lambda>n. Inr (heads n)) n (lastAnalysed heads before n) (missing txs heads before n hashes)"

lemma polled_step:
  "polled txs heads before n hashes =
     (if missing txs heads before n hashes = [] then Some (Inr (lastAnalysed heads before n))
      else polled txs heads before (Suc n) hashes)"
  by (subst poll.simps) (simp add: sweep_blocks missing_Suc)

lemma polled_until:
  assumes "\<forall>m < n. missing txs heads before m hashes \<noteq> []"
  shows "polled txs heads before 0 hashes = polled txs heads before n hashes"
  using assms
proof (induction n)
  case (Suc n)
  then show ?case using polled_step [where n = n] by simp
qed simp

definition ends :: "(nat \<Rightarrow> string list) \<Rightarrow> (nat \<Rightarrow> nat) \<Rightarrow> nat \<Rightarrow> string option list \<Rightarrow>
    (nat \<Rightarrow> string list result) \<Rightarrow> (nat \<Rightarrow> nat result) \<Rightarrow> nat \<Rightarrow> nat \<Rightarrow> string option list \<Rightarrow> nat result \<Rightarrow> bool" where
  "ends txs heads before hashes f g k a hs r \<longleftrightarrow>
     (f = (\<lambda>b. Inr (txs b)) \<longrightarrow> g = (\<lambda>n. Inr (heads n)) \<longrightarrow> a = lastAnalysed heads before k \<longrightarrow>
      hs = missing txs heads before k hashes \<longrightarrow> (\<exists>m \<ge> k. missing txs heads before m hashes = []))"

lemma poll_ends: "poll f g k a hs = Some r \<Longrightarrow> ends txs heads before hashes f g k a hs r"
proof (rule poll.raw_induct [where P = "ends txs heads before hashes"])
  fix poll' :: "(nat \<Rightarrow> string list result) \<Rightarrow> (nat \<Rightarrow> nat result) \<Rightarrow> nat \<Rightarrow> nat \<Rightarrow> string option list \<Rightarrow> nat result option"
    and f g k a hs r
  assume IH: "\<And>f g k a hs r. poll' f g k a hs = Some r \<Longrightarrow> ends txs heads before hashes f g k a hs r"
    and step: "(if hs = [] then Some (Inr a) else case g k of Inl e \<Rightarrow> Some (Inl e)
      | Inr head \<Rightarrow> (case sweep f [a + 1..<head + 1] hs of Inl e \<Rightarrow> Some (Inl e)
          | Inr left \<Rightarrow> poll' f g (k + 1) head left)) = Some r"
  show "ends txs heads before hashes f g k a hs r" unfolding ends_def
  proof (intro impI)
    assume eqs: "f = (\<lambda>b. Inr (txs b))" "g = (\<lambda>n. Inr (heads n))"
      "a = lastAnalysed heads before k" "hs = missing txs heads before k hashes"
    show "\<exists>m \<ge> k. missing txs heads before m hashes = []"
    proof (cases "hs = []")
      case False
      then have "poll' f g (Suc k) (lastAnalysed heads before (Suc k)) (missing txs heads before (Suc k) hashes) = Some r"
        using step eqs by (simp add: sweep_blocks missing_Suc)
      from IH [OF this] eqs(1,2) show ?thesis unfolding ends_def by (metis Suc_leD)
    qed (use eqs in auto)
  qed
qed

lemma polled_Some:
  "polled txs heads before n hashes = Some r \<Longrightarrow> \<exists>m. missing txs heads before m hashes = []"
  using poll_ends [of "\<lambda>b. Inr (txs b)" "\<lambda>n. Inr (heads n)" n "lastAnalysed heads before n"
      "missing txs heads before n hashes" r txs heads before hashes]
  unfolding ends_def by blast

text \<open>C40: \<open>awaitTransactions\<close> returns exactly when some poll has found all hashes in the blocks it has
  looked at since the block before the sending, and then returns the head of the chain at that poll.
  A hash that no block contains, or that the node never returned, makes it wait forever.\<close>

theorem awaitTransactions_returns:
  "awaitTransactions (\<lambda>b. Inr (txs b)) (\<lambda>n. Inr (heads n)) before hashes =
     (if \<exists>n. \<forall>h \<in> set hashes. confirmed txs heads before n h
      then Some (Inr (lastAnalysed heads before (LEAST n. \<forall>h \<in> set hashes. confirmed txs heads before n h)))
      else None)"
proof -
  have m: "missing txs heads before n hashes = [] \<longleftrightarrow> (\<forall>h \<in> set hashes. confirmed txs heads before n h)" for n
    by (simp add: missing_def filter_empty_conv)
  have 0: "awaitTransactions (\<lambda>b. Inr (txs b)) (\<lambda>n. Inr (heads n)) before hashes = polled txs heads before 0 hashes"
    by (simp add: awaitTransactions_def missing_def confirmed_def)
  show ?thesis
  proof (cases "\<exists>n. missing txs heads before n hashes = []")
    case True
    let ?n = "LEAST n. missing txs heads before n hashes = []"
    have "polled txs heads before 0 hashes = polled txs heads before ?n hashes"
      by (rule polled_until) (blast dest: not_less_Least)
    also have "\<dots> = Some (Inr (lastAnalysed heads before ?n))"
      unfolding polled_step [where n = ?n] using LeastI_ex [OF True] by (rule if_P)
    finally show ?thesis using True unfolding 0 m by simp
  next
    case False
    then have "polled txs heads before 0 hashes = None"
      using polled_Some [where n = 0] by (cases "polled txs heads before 0 hashes") blast+
    then show ?thesis using False unfolding 0 m by simp
  qed
qed

lemma awaitTransactions_returns_witness:
  "awaitTransactions (\<lambda>b. Inr (if b = 6 then [''0x1''] else [])) (\<lambda>n. Inr (5 + n)) 4 [Some ''0x1''] = Some (Inr 6) \<and>
   awaitTransactions (\<lambda>b. Inr (if b = 6 then [''0x1''] else [])) (\<lambda>n. Inr (5 + n)) 4 [None] = None"
proof -
  let ?txs = "\<lambda>b. if b = 6 then [''0x1''] else []"
  have last: "lastAnalysed ((+) 5) 4 m = 4 + m" for m by (cases m) simp_all
  have found: "confirmed ?txs ((+) 5) 4 n (Some ''0x1'') \<longleftrightarrow> 2 \<le> n" for n
  proof
    assume "2 \<le> n"
    then show "confirmed ?txs ((+) 5) 4 n (Some ''0x1'')"
      unfolding confirmed_def last by (intro exI [of _ 1] conjI exI [of _ 6]) auto
  qed (auto simp: confirmed_def last split: if_splits)
  have none: "\<not> confirmed ?txs ((+) 5) 4 n None" for n by (auto simp: confirmed_def)
  have "(LEAST n. 2 \<le> n) = (2 :: nat)" by (rule Least_equality) simp_all
  moreover have "\<exists>n :: nat. 2 \<le> n" by blast
  ultimately have "awaitTransactions (\<lambda>b. Inr (?txs b)) (\<lambda>n. Inr (5 + n)) 4 [Some ''0x1''] = Some (Inr 6)"
    using awaitTransactions_returns [of ?txs "(+) 5" 4 "[Some ''0x1'']"] by (simp add: found last)
  moreover have "awaitTransactions (\<lambda>b. Inr (?txs b)) (\<lambda>n. Inr (5 + n)) 4 [None] = None"
    using awaitTransactions_returns [of ?txs "(+) 5" 4 "[None]"] by (simp add: none)
  ultimately show ?thesis by blast
qed


end
