(* ===== verification/ContinuousSender.thy ===== *)
theory ContinuousSender imports JavaScript begin

text \<open>
  The sender of a steady stream of transactions: src/src/continuousTransactionsSender.ts. A timer calls
  \<open>executeFunction\<close>; a call of \<open>sendTx\<close> runs up to its next await, and the answers of the node arrive in any
  order, also while other calls wait. A call of \<open>sendTx\<close> is a position in the list \<open>sends\<close>.
\<close>

section \<open>State\<close>

record sender_config =
  maximumPoolSize :: "int option"
  calcNonceEveryTurn :: bool
  trackPerformance :: bool
  logging :: bool

datatype phase = AwaitsNonce | Signing int | Posted int string | Received int string | Failed int string | Rejected

record performance_track =
  internalID :: nat
  timeSent :: int
  timeReceipt :: "int option"
  timeConfirmed :: "int option"
  track_blockNumber :: "int option"

record tx_stream =
  currentNonce :: int
  currentInternalID :: nat
  isRunning :: bool
  currentPoolSize :: int
  currentPerformanceTracks :: "string \<rightharpoonup> performance_track"
  sends :: "phase list"

definition new_stream :: "tx_stream" where
  "new_stream = \<lparr>currentNonce = 0, currentInternalID = 0, isRunning = False, currentPoolSize = 0,
     currentPerformanceTracks = Map.empty, sends = []\<rparr>"

text \<open>The constructor refuses a schedule whose minimum is greater than its maximum.\<close>

definition checkSchedule :: "int \<Rightarrow> int \<Rightarrow> tx_stream result" where
  "checkSchedule minimum maximum =
     (if minimum > maximum then Inl (Thrown ''sheduleInMsMinimum must be equal or less than this.sheduleInMsMaximum'')
      else Inr new_stream)"

text \<open>\<open>startSending\<close> up to its first timer\<close>

definition startSending :: "int result \<Rightarrow> tx_stream \<Rightarrow> unit result \<times> tx_stream" where
  "startSending getTransactionCount s = (case getTransactionCount of Inl e \<Rightarrow> (Inl e, s)
     | Inr n \<Rightarrow> (Inr (), s\<lparr>currentNonce := n, isRunning := True\<rparr>))"

definition stopSending :: "tx_stream \<Rightarrow> tx_stream" where
  "stopSending s = s\<lparr>isRunning := False\<rparr>"

section \<open>Sending\<close>

text \<open>The piece of \<open>sendTx\<close> that takes the nonce, up to the signature\<close>

definition takeNonce :: "tx_stream \<Rightarrow> int \<times> tx_stream" where
  "takeNonce s = (currentNonce s, s\<lparr>currentInternalID := currentInternalID s + 1, currentNonce := currentNonce s + 1\<rparr>)"

definition sendTx :: "sender_config \<Rightarrow> tx_stream \<Rightarrow> tx_stream" where
  "sendTx cfg s =
     (if (case maximumPoolSize cfg of Some m \<Rightarrow> currentPoolSize s > m | None \<Rightarrow> False) then s
      else if calcNonceEveryTurn cfg then s\<lparr>sends := sends s @ [AwaitsNonce]\<rparr>
      else case takeNonce s of (n, s1) \<Rightarrow> s1\<lparr>sends := sends s1 @ [Signing n]\<rparr>)"

definition executeFunction :: "sender_config \<Rightarrow> tx_stream \<Rightarrow> tx_stream" where
  "executeFunction cfg s =
     (if isRunning s \<and> (case maximumPoolSize cfg of Some m \<Rightarrow> currentPoolSize s < m | None \<Rightarrow> True) then sendTx cfg s else s)"

definition set_phase :: "nat \<Rightarrow> phase \<Rightarrow> tx_stream \<Rightarrow> tx_stream" where
  "set_phase i p s = s\<lparr>sends := (sends s)[i := p]\<rparr>"

text \<open>The number of transactions arrives.\<close>

definition nonceArrives :: "nat \<Rightarrow> int result \<Rightarrow> tx_stream \<Rightarrow> tx_stream" where
  "nonceArrives i r s = (case r of Inl e \<Rightarrow> set_phase i Rejected s
     | Inr n \<Rightarrow> (case takeNonce (s\<lparr>currentNonce := n\<rparr>) of (k, s1) \<Rightarrow> set_phase i (Signing k) s1))"

text \<open>The signature arrives: the track takes the number that the counter has by then.\<close>

definition signatureArrives :: "sender_config \<Rightarrow> int \<Rightarrow> nat \<Rightarrow> int \<Rightarrow> string result \<Rightarrow> tx_stream \<Rightarrow> tx_stream" where
  "signatureArrives cfg now i n r s = (case r of Inl e \<Rightarrow> set_phase i Rejected s
     | Inr hash \<Rightarrow>
        let s1 = (if trackPerformance cfg
              then s\<lparr>currentPerformanceTracks := (currentPerformanceTracks s)(hash \<mapsto>
                \<lparr>internalID = currentInternalID s, timeSent = now, timeReceipt = None, timeConfirmed = None, track_blockNumber = None\<rparr>)\<rparr>
              else s);
            s2 = (if maximumPoolSize cfg \<noteq> None then s1\<lparr>currentPoolSize := currentPoolSize s1 + 1\<rparr> else s1)
        in set_phase i (Posted n hash) s2)"

definition needToReadResult :: "sender_config \<Rightarrow> bool" where
  "needToReadResult cfg \<longleftrightarrow> maximumPoolSize cfg \<noteq> None \<or> logging cfg"

text \<open>The handlers of a transaction: a receipt leaves the pool, an error is only logged.\<close>

definition onReceipt :: "sender_config \<Rightarrow> int \<Rightarrow> int \<Rightarrow> nat \<Rightarrow> int \<Rightarrow> string \<Rightarrow> tx_stream \<Rightarrow> tx_stream" where
  "onReceipt cfg now block i n hash s =
     (let s1 = (if needToReadResult cfg then s\<lparr>currentPoolSize := currentPoolSize s - 1,
           currentPerformanceTracks := (if trackPerformance cfg
             then (currentPerformanceTracks s)(hash := map_option (\<lambda>t. t\<lparr>timeReceipt := Some now, track_blockNumber := Some block\<rparr>)
               (currentPerformanceTracks s hash)) else currentPerformanceTracks s)\<rparr> else s)
      in set_phase i (Received n hash) s1)"

definition onConfirmation :: "sender_config \<Rightarrow> int \<Rightarrow> int \<Rightarrow> string \<Rightarrow> tx_stream \<Rightarrow> tx_stream" where
  "onConfirmation cfg now block hash s = (if needToReadResult cfg \<and> trackPerformance cfg
     then s\<lparr>currentPerformanceTracks := (currentPerformanceTracks s)(hash :=
       map_option (\<lambda>t. t\<lparr>timeConfirmed := Some now, track_blockNumber := Some block\<rparr>) (currentPerformanceTracks s hash))\<rparr>
     else s)"

definition onError :: "nat \<Rightarrow> int \<Rightarrow> string \<Rightarrow> tx_stream \<Rightarrow> tx_stream" where
  "onError i n hash s = set_phase i (Failed n hash) s"

text \<open>What can happen next\<close>

inductive stream_step :: "sender_config \<Rightarrow> tx_stream \<Rightarrow> tx_stream \<Rightarrow> bool" for cfg where
  Timer: "stream_step cfg s (executeFunction cfg s)"
| Nonce: "i < length (sends s) \<Longrightarrow> sends s ! i = AwaitsNonce \<Longrightarrow> stream_step cfg s (nonceArrives i r s)"
| Signature: "i < length (sends s) \<Longrightarrow> sends s ! i = Signing n \<Longrightarrow> stream_step cfg s (signatureArrives cfg now i n r s)"
| Receipt: "i < length (sends s) \<Longrightarrow> sends s ! i = Posted n hash \<Longrightarrow> stream_step cfg s (onReceipt cfg now block i n hash s)"
| Confirmation: "Received n hash \<in> set (sends s) \<Longrightarrow> stream_step cfg s (onConfirmation cfg now block hash s)"
| Error: "i < length (sends s) \<Longrightarrow> sends s ! i = Posted n hash \<Longrightarrow> stream_step cfg s (onError i n hash s)"
| Stop: "stream_step cfg s (stopSending s)"

abbreviation stream_run :: "sender_config \<Rightarrow> tx_stream \<Rightarrow> tx_stream \<Rightarrow> bool" where
  "stream_run cfg \<equiv> (stream_step cfg)\<^sup>*\<^sup>*"

section \<open>Nonces\<close>

fun nonce_of :: "phase \<Rightarrow> int option" where
  "nonce_of AwaitsNonce = None" | "nonce_of Rejected = None"
| "nonce_of (Signing n) = Some n" | "nonce_of (Posted n h) = Some n"
| "nonce_of (Received n h) = Some n" | "nonce_of (Failed n h) = Some n"

text \<open>Without a question for every transaction the calls take the nonces in a row; a call whose signature
  fails leaves its nonce unused.\<close>

definition nonces_in_row :: "int \<Rightarrow> tx_stream \<Rightarrow> bool" where
  "nonces_in_row n0 s \<longleftrightarrow> currentNonce s = n0 + int (length (sends s)) \<and>
     (\<forall>i < length (sends s). sends s ! i \<noteq> AwaitsNonce \<and> (sends s ! i = Rejected \<or> nonce_of (sends s ! i) = Some (n0 + int i)))"

lemma sends_simps [simp]:
  "sends (set_phase i p s) = (sends s)[i := p]" "currentNonce (set_phase i p s) = currentNonce s"
  "isRunning (set_phase i p s) = isRunning s" "currentPoolSize (set_phase i p s) = currentPoolSize s"
  by (simp_all add: set_phase_def)

lemma nonces_in_row_step:
  assumes "stream_step cfg s s'" "\<not> calcNonceEveryTurn cfg" "nonces_in_row n0 s"
  shows "nonces_in_row n0 s'"
  using assms
proof (cases rule: stream_step.cases)
  case Timer
  then show ?thesis using assms(2,3)
    by (auto simp: executeFunction_def sendTx_def takeNonce_def nonces_in_row_def nth_append less_Suc_eq)
next
  case (Nonce i r)
  then show ?thesis using assms(3) by (auto simp: nonces_in_row_def)
next
  case (Signature i n now r)
  then have "n = n0 + int i" using assms(3) by (auto simp: nonces_in_row_def)
  then show ?thesis using Signature assms(3)
    by (auto simp: signatureArrives_def Let_def nonces_in_row_def nth_list_update split: sum.splits)
next
  case (Receipt i n hash now block)
  then have "n = n0 + int i" using assms(3) by (auto simp: nonces_in_row_def)
  then show ?thesis using Receipt assms(3) by (auto simp: onReceipt_def Let_def nonces_in_row_def nth_list_update)
next
  case (Error i n hash)
  then have "n = n0 + int i" using assms(3) by (auto simp: nonces_in_row_def)
  then show ?thesis using Error assms(3) by (auto simp: onError_def nonces_in_row_def nth_list_update)
qed (auto simp: nonces_in_row_def onConfirmation_def stopSending_def)

lemma nonces_in_row_run: "stream_run cfg s s' \<Longrightarrow> \<not> calcNonceEveryTurn cfg \<Longrightarrow> nonces_in_row n0 s \<Longrightarrow> nonces_in_row n0 s'"
  by (induction rule: rtranclp_induct) (use nonces_in_row_step in blast)+

text \<open>C24: Without a question for every transaction, no two transactions of a stream are sent with one nonce,
  whatever order the answers arrive in: the one that was begun as the \<open>i\<close>-th has the first nonce plus \<open>i\<close>.\<close>

theorem stream_nonces_in_row:
  assumes "startSending count new_stream = (Inr (), s)" and "stream_run cfg s s'" and "\<not> calcNonceEveryTurn cfg"
    and "i < length (sends s')" and "nonce_of (sends s' ! i) = Some n"
  shows "count = Inr (n - int i) \<and> (\<forall>j < length (sends s'). nonce_of (sends s' ! j) = Some n \<longrightarrow> j = i)"
proof -
  obtain n0 where n0: "count = Inr n0" "s = new_stream\<lparr>currentNonce := n0, isRunning := True\<rparr>"
    using assms(1) by (auto simp: startSending_def split: sum.splits)
  have "nonces_in_row n0 s" by (simp add: n0 nonces_in_row_def new_stream_def)
  from nonces_in_row_run [OF assms(2,3) this] have "nonces_in_row n0 s'" .
  have row: "k = n0 + int j" if "nonce_of (sends s' ! j) = Some k" "j < length (sends s')" for j k
    using that \<open>nonces_in_row n0 s'\<close> by (force simp: nonces_in_row_def)
  have n: "n = n0 + int i" by (rule row [OF assms(5,4)])
  have "j = i" if "j < length (sends s')" "nonce_of (sends s' ! j) = Some n" for j
    using row [OF that(2,1)] n by simp
  with n show ?thesis by (simp add: n0)
qed

definition plain_config :: "int \<Rightarrow> sender_config" where
  "plain_config m = \<lparr>maximumPoolSize = Some m, calcNonceEveryTurn = False, trackPerformance = False, logging = False\<rparr>"

lemma posted_and_failed:
  "stream_step (plain_config 1) (new_stream\<lparr>isRunning := True, currentNonce := n\<rparr>)
     (new_stream\<lparr>isRunning := True, currentNonce := n + 1, currentInternalID := 1, sends := [Signing n]\<rparr>)"
  "stream_step (plain_config 1) (new_stream\<lparr>isRunning := True, currentNonce := n + 1, currentInternalID := 1, sends := [Signing n]\<rparr>)
     (new_stream\<lparr>isRunning := True, currentNonce := n + 1, currentInternalID := 1, currentPoolSize := 1, sends := [Posted n ''0x1'']\<rparr>)"
  "stream_step (plain_config 1) (new_stream\<lparr>isRunning := True, currentNonce := n + 1, currentInternalID := 1, currentPoolSize := 1, sends := [Posted n ''0x1'']\<rparr>)
     (new_stream\<lparr>isRunning := True, currentNonce := n + 1, currentInternalID := 1, currentPoolSize := 1, sends := [Failed n ''0x1'']\<rparr>)"
  using stream_step.Timer [of "plain_config 1" "new_stream\<lparr>isRunning := True, currentNonce := n\<rparr>"]
    stream_step.Signature [of 0 "new_stream\<lparr>isRunning := True, currentNonce := n + 1, currentInternalID := 1, sends := [Signing n]\<rparr>" n
      "plain_config 1" 0 "Inr ''0x1''"]
    stream_step.Error [of 0 "new_stream\<lparr>isRunning := True, currentNonce := n + 1, currentInternalID := 1, currentPoolSize := 1,
      sends := [Posted n ''0x1'']\<rparr>" n "''0x1''" "plain_config 1"]
  by (simp_all add: plain_config_def executeFunction_def sendTx_def takeNonce_def new_stream_def signatureArrives_def onError_def
    set_phase_def Let_def)

theorem stream_nonces_in_row_witness:
  "\<exists>s s'. stream_run (plain_config 1) s s' \<and> nonce_of (sends s' ! 0) = Some 7 \<and>
     (\<forall>j < length (sends s'). nonce_of (sends s' ! j) = Some 7 \<longrightarrow> j = 0)"
proof -
  let ?s = "new_stream\<lparr>isRunning := True, currentNonce := 7\<rparr>"
  let ?t = "new_stream\<lparr>isRunning := True, currentNonce := 7 + 1, currentInternalID := 1, sends := [Signing 7]\<rparr>"
  have "stream_run (plain_config 1) ?s ?t" by (rule r_into_rtranclp, rule posted_and_failed)
  moreover have "startSending (Inr 7) new_stream = (Inr (), ?s)" by (simp add: startSending_def new_stream_def)
  ultimately show ?thesis
    using stream_nonces_in_row [of "Inr 7" ?s "plain_config 1" ?t 0 7] by (intro exI [of _ ?s] exI [of _ ?t]) (simp add: plain_config_def)
qed

section \<open>The pool\<close>

definition in_pool :: "phase \<Rightarrow> bool" where
  "in_pool p \<longleftrightarrow> (case p of Posted n h \<Rightarrow> True | Failed n h \<Rightarrow> True | _ \<Rightarrow> False)"

definition failed :: "phase \<Rightarrow> bool" where
  "failed p \<longleftrightarrow> (case p of Failed n h \<Rightarrow> True | _ \<Rightarrow> False)"

definition pool_counts :: "tx_stream \<Rightarrow> bool" where
  "pool_counts s \<longleftrightarrow> currentPoolSize s = int (length (filter in_pool (sends s)))"

lemma count_update:
  assumes "i < length xs"
  shows "int (length (filter P (xs[i := x]))) = int (length (filter P xs)) + of_bool (P x) - of_bool (P (xs ! i))"
  using assms
proof (induction xs arbitrary: i)
  case (Cons y ys)
  then show ?case by (cases i) auto
qed simp

lemma pool_counts_step:
  assumes "stream_step cfg s s'" "maximumPoolSize cfg \<noteq> None" "pool_counts s"
  shows "pool_counts s'"
  using assms
proof (cases rule: stream_step.cases)
  case Timer
  then show ?thesis using assms(3)
    by (auto simp: executeFunction_def sendTx_def takeNonce_def pool_counts_def in_pool_def)
next
  case (Nonce i r)
  then show ?thesis using assms(3)
    by (auto simp: nonceArrives_def takeNonce_def pool_counts_def count_update in_pool_def split: sum.splits)
next
  case (Signature i n now r)
  then show ?thesis using assms(2,3)
    by (auto simp: signatureArrives_def Let_def pool_counts_def count_update in_pool_def split: sum.splits)
next
  case (Receipt i n hash now block)
  then show ?thesis using assms(2,3)
    by (auto simp: onReceipt_def needToReadResult_def Let_def pool_counts_def count_update in_pool_def)
next
  case (Error i n hash)
  then show ?thesis using assms(3) by (auto simp: onError_def pool_counts_def count_update in_pool_def)
qed (auto simp: pool_counts_def onConfirmation_def stopSending_def)

lemma failed_simps [simp]:
  "failed (Failed n h)" "\<not> failed AwaitsNonce" "\<not> failed (Signing n)" "\<not> failed (Posted n h)" "\<not> failed (Received n h)"
  "\<not> failed Rejected"
  by (simp_all add: failed_def)

lemma failed_update:
  assumes "i < length xs" "\<not> failed (xs ! i)"
  shows "length (filter failed xs) \<le> length (filter failed (xs[i := x]))"
  using count_update [OF assms(1), of failed x] assms(2) by (cases "failed x") simp_all

lemma failed_stay:
  assumes "stream_step cfg s s'"
  shows "length (filter failed (sends s)) \<le> length (filter failed (sends s'))"
  using assms
  by (cases rule: stream_step.cases)
    (auto simp: signatureArrives_def nonceArrives_def takeNonce_def onReceipt_def onError_def onConfirmation_def stopSending_def
      executeFunction_def sendTx_def Let_def intro: failed_update split: sum.splits)

lemma failed_in_pool: "length (filter failed xs) \<le> length (filter in_pool xs)"
  by (induction xs) (auto simp: failed_def in_pool_def split: phase.splits)

lemma full_pool_step:
  assumes "stream_step cfg s s'" "maximumPoolSize cfg = Some m" "pool_counts s" "m \<le> int (length (filter failed (sends s)))"
  shows "length (sends s') = length (sends s)"
proof -
  have "m \<le> currentPoolSize s" using assms(3,4) failed_in_pool [of "sends s"] by (simp add: pool_counts_def)
  then have "executeFunction cfg s = s" using assms(2) by (simp add: executeFunction_def)
  with assms(1) show ?thesis
    by (cases rule: stream_step.cases)
      (auto simp: nonceArrives_def takeNonce_def signatureArrives_def onReceipt_def onConfirmation_def onError_def stopSending_def Let_def
        split: sum.splits)
qed

text \<open>With a maximum for the pool, the pool is the transactions that were posted and have no receipt; one
  that failed never leaves it, so once as many have failed as the pool may hold, the stream never sends
  another one, although its timer goes on.\<close>

theorem failures_end_the_stream:
  assumes "startSending count new_stream = (Inr (), s0)" and "stream_run cfg s0 s" and "maximumPoolSize cfg = Some m"
    and "m \<le> int (length (filter failed (sends s)))" and "stream_run cfg s s'"
  shows "currentPoolSize s = int (length (filter in_pool (sends s))) \<and> length (sends s') = length (sends s)"
proof -
  have some: "maximumPoolSize cfg \<noteq> None" by (simp add: assms(3))
  have "pool_counts s0" using assms(1) by (auto simp: startSending_def pool_counts_def new_stream_def split: sum.splits)
  with assms(2) have counts: "pool_counts s"
    by (induction rule: rtranclp_induct) (use pool_counts_step [OF _ some] in blast)+
  from assms(5) have "pool_counts s' \<and> m \<le> int (length (filter failed (sends s'))) \<and> length (sends s') = length (sends s)"
  proof (induction rule: rtranclp_induct)
    case base
    show ?case using counts assms(4) by simp
  next
    case (step t u)
    then have "pool_counts t" "m \<le> int (length (filter failed (sends t)))" "length (sends t) = length (sends s)" by simp_all
    moreover have "pool_counts u" by (rule pool_counts_step [OF step.hyps(2) some \<open>pool_counts t\<close>])
    moreover have "length (sends u) = length (sends t)" by (rule full_pool_step [OF step.hyps(2) assms(3)]) fact+
    ultimately show ?case using failed_stay [OF step.hyps(2)] by simp
  qed
  then show ?thesis using counts by (simp add: pool_counts_def)
qed

theorem failures_end_the_stream_witness:
  "\<exists>s :: tx_stream. isRunning s \<and> length (filter failed (sends s)) = 1 \<and> currentPoolSize s = 1 \<and>
     (\<forall>s'. stream_run (plain_config 1) s s' \<longrightarrow> length (sends s') = 1)"
proof -
  let ?s = "new_stream\<lparr>isRunning := True, currentNonce := 7 + 1, currentInternalID := 1, currentPoolSize := 1, sends := [Failed 7 ''0x1'']\<rparr>"
  have start: "startSending (Inr 7) new_stream = (Inr (), new_stream\<lparr>isRunning := True, currentNonce := 7\<rparr>)"
    by (simp add: startSending_def new_stream_def)
  have run: "stream_run (plain_config 1) (new_stream\<lparr>isRunning := True, currentNonce := 7\<rparr>) ?s"
    by (rule converse_rtranclp_into_rtranclp, rule posted_and_failed(1), rule converse_rtranclp_into_rtranclp, rule posted_and_failed(2),
      rule r_into_rtranclp, rule posted_and_failed(3))
  have "currentPoolSize ?s = int (length (filter in_pool (sends ?s))) \<and> length (sends s') = length (sends ?s)"
    if "stream_run (plain_config 1) ?s s'" for s' :: tx_stream
    by (rule failures_end_the_stream [OF start run _ _ that, of 1]) (simp_all add: plain_config_def)
  then show ?thesis by (intro exI [of _ ?s]) simp
qed

end
