(* ===== verification/NodeManager.thy ===== *)
theory NodeManager imports JavaScript begin

text \<open>
  The local nodes: \<open>NodeState\<close> and \<open>NodeManager\<close> (src/src/net/nodeManager.ts). A node owns the child
  processes it has spawned; a process is a position in that list. The listeners that \<open>start\<close> and
  \<open>stop\<close> put on the "close" event of a process run, in the order they were added, when the operating
  system reports that the process has ended. A method that awaits the end of a process is split there:
  \<open>stop_begin\<close> is the part of \<open>stop\<close> before its waiting loop, and the call returns once its listener
  has run.
\<close>

section \<open>Processes and nodes\<close>

datatype listener =
    RestartOnClose bool
  | MarkStopped nat

record process =
  process_alive :: bool
  process_signalled :: bool
  process_flags :: "string list"
  listeners :: "listener list"

record node_state =
  nodeID :: nat
  publicKey :: "string option"
  node_address :: "string option"
  childProcess :: "nat option"
  isStarted :: bool
  isDeactivated :: bool
  isShuttingDown :: bool
  restartAfterShutdown :: bool
  processes :: "process list"
  stopCalls :: nat
  exited :: "nat list"

text \<open>\<open>stopCalls\<close> numbers the calls of \<open>stop\<close> that wait, \<open>exited\<close> lists those whose listener has run.\<close>

definition new_NodeState :: "nat \<Rightarrow> string option \<Rightarrow> string option \<Rightarrow> node_state" where
  "new_NodeState n key addr = \<lparr>nodeID = n, publicKey = key, node_address = addr, childProcess = None,
     isStarted = False, isDeactivated = False, isShuttingDown = False, restartAfterShutdown = True,
     processes = [], stopCalls = 0, exited = []\<rparr>"

definition getNodeDirRelative :: "nat \<Rightarrow> string" where
  "getNodeDirRelative n = (if n > 0 then ''node'' @ decimal n else ''rpc_node'')"

text \<open>The template of the source has one closing brace too many.\<close>

definition getNodeDirAbsolute :: "string \<Rightarrow> nat \<Rightarrow> string" where
  "getNodeDirAbsolute nodesDir n = nodesDir @ ''/'' @ getNodeDirRelative n @ ''}''"

definition sshNodeName :: "node_state \<Rightarrow> string" where
  "sshNodeName n = ''hbbft'' @ decimal (nodeID n)"

section \<open>Starting\<close>

definition startNodeBase :: "nat \<Rightarrow> string list \<Rightarrow> process" where
  "startNodeBase n extraFlags = \<lparr>process_alive = True, process_signalled = False,
     process_flags = (''--config='' @ (if n = 0 then ''node.toml'' else ''validator_node.toml'')) # extraFlags,
     listeners = []\<rparr>"

definition extraFlags :: "string list" where
  "extraFlags = [''--tx-queue-mem-limit=1000'', ''--no-persistent-txqueue'', ''--tx-queue-size=100000'']"

definition spawn :: "bool \<Rightarrow> node_state \<Rightarrow> node_state" where
  "spawn force n =
     n\<lparr>processes := processes n @ [(startNodeBase (nodeID n) extraFlags)\<lparr>listeners := [RestartOnClose force]\<rparr>],
       childProcess := Some (length (processes n)), isStarted := True\<rparr>"

definition start :: "bool \<Rightarrow> node_state \<Rightarrow> node_state result" where
  "start force n =
     (if isDeactivated n then Inr n
      else if isStarted n \<and> \<not> force then Inl (Thrown ''Node is already started.'')
      else Inr (spawn force n))"

section \<open>Stopping\<close>

definition update_process :: "nat \<Rightarrow> (process \<Rightarrow> process) \<Rightarrow> node_state \<Rightarrow> node_state" where
  "update_process p f n = n\<lparr>processes := (processes n)[p := f (processes n ! p)]\<rparr>"

text \<open>The number of the call that waits, and the node with the listener and the signal\<close>

definition stop_begin :: "bool \<Rightarrow> node_state \<Rightarrow> (nat \<times> node_state) result" where
  "stop_begin force n =
     (if \<not> isStarted n \<and> \<not> force then Inl (Thrown ''Can't stop node that has not been started yet.'')
      else case childProcess n of
        None \<Rightarrow> Inl (Thrown ''Can't stop node without having a child process.'')
      | Some p \<Rightarrow> Inr (stopCalls n,
          update_process p
            (\<lambda>pr. pr\<lparr>listeners := listeners pr @ [MarkStopped (stopCalls n)], process_signalled := True\<rparr>)
            (n\<lparr>isShuttingDown := True, stopCalls := stopCalls n + 1\<rparr>)))"

definition stop_returns :: "nat \<Rightarrow> node_state \<Rightarrow> bool" where
  "stop_returns call n \<longleftrightarrow> call \<in> set (exited n)"

text \<open>The promise of \<open>this.stop()\<close> is not awaited: its rejection does not keep the flag from being set.\<close>

definition deactivate :: "node_state \<Rightarrow> node_state" where
  "deactivate n = (case stop_begin False n of Inl _ \<Rightarrow> n | Inr (_, n') \<Rightarrow> n')\<lparr>isDeactivated := True\<rparr>"

section \<open>The end of a process\<close>

fun run_listener :: "listener \<Rightarrow> node_state \<Rightarrow> node_state" where
  "run_listener (RestartOnClose force) n =
     (if restartAfterShutdown n \<and> \<not> isShuttingDown n
      then (case start force (n\<lparr>isStarted := False\<rparr>) of Inr n' \<Rightarrow> n' | Inl _ \<Rightarrow> n\<lparr>isStarted := False\<rparr>)
      else n)"
| "run_listener (MarkStopped call) n = n\<lparr>isStarted := False, exited := exited n @ [call]\<rparr>"

definition close :: "nat \<Rightarrow> node_state \<Rightarrow> node_state" where
  "close p n = foldl (\<lambda>n l. run_listener l n) (update_process p (\<lambda>pr. pr\<lparr>process_alive := False\<rparr>) n)
     (listeners (processes n ! p))"

section \<open>Files\<close>

text \<open>\<open>rmdirSync\<close> with \<open>recursive\<close>: since version 16 of Node.js it throws when the directory does not exist.\<close>

definition rmdirSync :: "string \<Rightarrow> string set \<Rightarrow> string set result" where
  "rmdirSync d fs = (if d \<in> fs then Inr {f \<in> fs. f \<noteq> d \<and> \<not> prefix (d @ ''/'') f} else Inl (Thrown ''ENOENT''))"

definition clearDBLocal :: "string \<Rightarrow> node_state \<Rightarrow> string set \<Rightarrow> string set result" where
  "clearDBLocal nodesDir n fs =
     (let baseDir = getNodeDirAbsolute nodesDir (nodeID n) in
      await (rmdirSync (baseDir @ ''/data/cache'') fs) (\<lambda>fs. rmdirSync (baseDir @ ''/data/chains'') fs))"

section \<open>The manager\<close>

record node_manager =
  nodeStates :: "node_state list"
  rpcNode :: "node_state option"

record node_infos =
  info_validators :: "string list"
  info_public_keys :: "string list"

definition entry :: "string list \<Rightarrow> nat \<Rightarrow> string option" where
  "entry xs i = (if i < length xs then Some (xs ! i) else None)"

definition newState :: "node_infos option \<Rightarrow> nat \<Rightarrow> node_state" where
  "newState infos i = new_NodeState (i + 1)
     (Option.bind infos (\<lambda>x. entry (info_public_keys x) i)) (Option.bind infos (\<lambda>x. entry (info_validators x) i))"

definition ensureNodeStates :: "node_infos option \<Rightarrow> nat \<Rightarrow> node_manager \<Rightarrow> node_manager" where
  "ensureNodeStates infos k m =
     m\<lparr>nodeStates := nodeStates m @ map (newState infos) [length (nodeStates m)..<k]\<rparr>"

definition initFromTestnetManifest :: "node_infos option \<Rightarrow> node_manager \<Rightarrow> node_manager" where
  "initFromTestnetManifest infos m = (case infos of None \<Rightarrow> m
     | Some x \<Rightarrow> (ensureNodeStates infos (length (info_public_keys x)) m)\<lparr>rpcNode := Some (new_NodeState 0 None None)\<rparr>)"

text \<open>The singleton\<close>

definition get :: "node_infos option \<Rightarrow> node_manager \<Rightarrow> node_manager" where
  "get infos m = (if nodeStates m = [] then initFromTestnetManifest infos m else m)"

definition getNode :: "node_infos option \<Rightarrow> nat \<Rightarrow> node_manager \<Rightarrow> (node_state \<times> node_manager) result" where
  "getNode infos nid m =
     (if nid = 0 then Inl (Thrown ''nodeIDs are index-1 based'')
      else let m1 = ensureNodeStates infos nid m in Inr (nodeStates m1 ! (nid - 1), m1))"

definition set_node :: "nat \<Rightarrow> node_state \<Rightarrow> node_manager \<Rightarrow> node_manager" where
  "set_node nid n m = m\<lparr>nodeStates := (nodeStates m)[nid - 1 := n]\<rparr>"

definition startNode :: "node_infos option \<Rightarrow> nat \<Rightarrow> bool \<Rightarrow> node_manager \<Rightarrow> node_manager result" where
  "startNode infos nid force m = await (getNode infos nid m) (\<lambda>(n, m1).
     await (start force n) (\<lambda>n1. Inr (set_node nid n1 m1)))"

definition startNodes :: "node_infos option \<Rightarrow> nat list \<Rightarrow> node_manager \<Rightarrow> node_manager result" where
  "startNodes infos nodes m = forM nodes (\<lambda>nid. startNode infos nid False) m"

definition stopNode :: "node_infos option \<Rightarrow> nat \<Rightarrow> bool \<Rightarrow> node_manager \<Rightarrow> node_manager result" where
  "stopNode infos nid force m = await (getNode infos nid m) (\<lambda>(n, m1).
     await (stop_begin force n) (\<lambda>(call, n1). Inr (set_node nid n1 m1)))"

text \<open>The calls of \<open>stop\<close> that \<open>stopNodes\<close> makes before it awaits them; a call that rejects leaves the
  node as it is.\<close>

definition stopNodes :: "node_infos option \<Rightarrow> nat list \<Rightarrow> node_manager \<Rightarrow> node_manager" where
  "stopNodes infos nodes m = foldl (\<lambda>m nid. case getNode infos nid m of Inl _ \<Rightarrow> m
     | Inr (n, m1) \<Rightarrow> (case stop_begin False n of Inl _ \<Rightarrow> m1 | Inr (call, n1) \<Rightarrow> set_node nid n1 m1)) m nodes"

text \<open>A loop over all nodes that goes on with the nodes as they are after an exception: what had been
  done before it stays done.\<close>

fun until_error :: "('a \<Rightarrow> 'a result) \<Rightarrow> 'a list \<Rightarrow> unit result \<times> 'a list" where
  "until_error f [] = (Inr (), [])"
| "until_error f (x # xs) = (case f x of Inl e \<Rightarrow> (Inl e, x # xs)
     | Inr y \<Rightarrow> (case until_error f xs of (r, ys) \<Rightarrow> (r, y # ys)))"

definition startAllNodes :: "bool \<Rightarrow> node_manager \<Rightarrow> unit result \<times> node_manager" where
  "startAllNodes force m = (case until_error (start force) (nodeStates m) of (r, ns) \<Rightarrow> (r, m\<lparr>nodeStates := ns\<rparr>))"

text \<open>Every call of \<open>stop\<close> runs; the promises are awaited together. The callback of the filter has a
  block body without a \<open>return\<close>, so it keeps no node.\<close>

definition try_stop :: "bool \<Rightarrow> node_state \<Rightarrow> node_state" where
  "try_stop force n = (case stop_begin force n of Inl _ \<Rightarrow> n | Inr (_, n') \<Rightarrow> n')"

definition filter_started :: "node_state \<Rightarrow> bool" where
  "filter_started n = False"

definition stopAllNodes :: "bool \<Rightarrow> node_manager \<Rightarrow> node_manager" where
  "stopAllNodes force m = (if force then m\<lparr>nodeStates := map (try_stop True) (nodeStates m)\<rparr>
     else m\<lparr>nodeStates := map (\<lambda>n. if filter_started n then try_stop False n else n) (nodeStates m)\<rparr>)"

text \<open>The error with which the awaited promises are rejected, if one of them is\<close>

definition stopAllNodes_rejects :: "bool \<Rightarrow> node_manager \<Rightarrow> bool" where
  "stopAllNodes_rejects force m \<longleftrightarrow>
     (\<exists>n \<in> set (if force then nodeStates m else filter filter_started (nodeStates m)). isl (stop_begin force n))"

definition startRpcNode :: "bool \<Rightarrow> node_manager \<Rightarrow> node_manager result" where
  "startRpcNode force m = await (start force (new_NodeState 0 None None)) (\<lambda>n. Inr (m\<lparr>rpcNode := Some n\<rparr>))"

definition stopRpcNode :: "bool \<Rightarrow> node_manager \<Rightarrow> node_manager result" where
  "stopRpcNode force m = (case rpcNode m of None \<Rightarrow> Inr m
     | Some n \<Rightarrow> if isStarted n then await (stop_begin force n) (\<lambda>(call, n1). Inr (m\<lparr>rpcNode := Some n1\<rparr>)) else Inr m)"

text \<open>Lookups: more than one match is an error.\<close>

definition theOnly :: "string \<Rightarrow> node_state list \<Rightarrow> node_state option result" where
  "theOnly message nodes = (case nodes of [] \<Rightarrow> Inr None | [n] \<Rightarrow> Inr (Some n) | _ \<Rightarrow> Inl (Thrown message))"

definition getNodeByPublicKey :: "string \<Rightarrow> node_manager \<Rightarrow> node_state option result" where
  "getNodeByPublicKey proposer m =
     theOnly ''More than one Node with Public Key found'' (filter (\<lambda>x. publicKey x = Some proposer) (nodeStates m))"

definition getNodeByValidatorAddress :: "string \<Rightarrow> node_manager \<Rightarrow> node_state option result" where
  "getNodeByValidatorAddress a m = theOnly ''More than one Node with Validator Address found''
     (filter (\<lambda>x. map_option to_lower (node_address x) = Some (to_lower a)) (nodeStates m))"

text \<open>The mining address of the pool is asked for, but the answer is not used.\<close>

definition getNodeByStakingAddress ::
    "(string \<Rightarrow> string result) \<Rightarrow> string \<Rightarrow> node_manager \<Rightarrow> node_state option result" where
  "getNodeByStakingAddress getAddressMiningByStaking pool m = await (getAddressMiningByStaking pool) (\<lambda>_.
     theOnly ''More than one Node with Pool Address found'' (filter (\<lambda>x. node_address x = Some pool) (nodeStates m)))"

definition formatNodeName :: "(string \<Rightarrow> string result) \<Rightarrow> string \<Rightarrow> node_manager \<Rightarrow> string result" where
  "formatNodeName getAddressMiningByStaking a m = await (getNodeByValidatorAddress a m) (\<lambda>found.
     await (case found of Some n \<Rightarrow> Inr (Some n) | None \<Rightarrow> getNodeByStakingAddress getAddressMiningByStaking a m) (\<lambda>node.
       Inr (case node of Some n \<Rightarrow> a @ ''('' @ sshNodeName n @ '')'' | None \<Rightarrow> a)))"

section \<open>Waiting for the RPC node\<close>

datatype rpc_answer = Status nat | Refused | Unexpected

text \<open>The loop ends at the first answer 200 or unexpected error among the answers given; \<open>None\<close> while
  there are none.\<close>

fun awaitRpcReady :: "rpc_answer list \<Rightarrow> nat option" where
  "awaitRpcReady [] = None"
| "awaitRpcReady (Status s # as) = (if s = 200 then Some 0 else map_option ((+) 100) (awaitRpcReady as))"
| "awaitRpcReady (Refused # as) = map_option ((+) 100) (awaitRpcReady as)"
| "awaitRpcReady (Unexpected # as) = Some 0"

end
