(* ===== verification/NodeLifecycle.thy ===== *)
theory NodeLifecycle imports NodeManager begin

text \<open>
  The life of a local node: which sequences of starts, stops, deactivations and ends of processes are
  possible, how many processes of a node run, and when a node comes back after a crash.
\<close>

section \<open>Steps\<close>

text \<open>Steps of a node; with \<open>forced\<close> a start may be forced.\<close>

inductive node_step :: "bool \<Rightarrow> node_state \<Rightarrow> node_state \<Rightarrow> bool" for forced :: bool where
  starts: "start force n = Inr n' \<Longrightarrow> (force \<longrightarrow> forced) \<Longrightarrow> node_step forced n n'"
| stops: "stop_begin force n = Inr (call, n') \<Longrightarrow> node_step forced n n'"
| deactivates: "node_step forced n (deactivate n)"
| closes: "p < length (processes n) \<Longrightarrow> process_alive (processes n ! p) \<Longrightarrow> node_step forced n (close p n)"

definition node_run :: "bool \<Rightarrow> node_state \<Rightarrow> node_state \<Rightarrow> bool" where
  "node_run forced = (node_step forced)\<^sup>*\<^sup>*"

definition running :: "node_state \<Rightarrow> nat set" where
  "running n = {p. p < length (processes n) \<and> process_alive (processes n ! p)}"

lemma deactivate_cases:
  "deactivate n = n\<lparr>isDeactivated := True\<rparr> \<or>
   (\<exists>call n'. stop_begin False n = Inr (call, n') \<and> deactivate n = n'\<lparr>isDeactivated := True\<rparr>)"
  by (auto simp: deactivate_def split: sum.splits)

section \<open>What every run without forced starts keeps\<close>

definition is_mark :: "listener \<Rightarrow> bool" where
  "is_mark l \<longleftrightarrow> (case l of MarkStopped _ \<Rightarrow> True | _ \<Rightarrow> False)"

text \<open>The last process is the child; only it can be alive, and then the node counts as started. A
  process is restarted at most by the first of its listeners, and has another one only after a stop.\<close>

definition orderly :: "node_state \<Rightarrow> bool" where
  "orderly n \<longleftrightarrow>
     childProcess n = (if processes n = [] then None else Some (length (processes n) - 1)) \<and>
     (\<forall>p \<in> running n. p = length (processes n) - 1 \<and> isStarted n) \<and>
     (\<forall>pr \<in> set (processes n). \<exists>ls. listeners pr = RestartOnClose False # ls \<and> (\<forall>l \<in> set ls. is_mark l) \<and>
        (ls \<noteq> [] \<longrightarrow> isShuttingDown n)) \<and>
     restartAfterShutdown n \<and>
     (isStarted n \<and> \<not> isShuttingDown n \<and> \<not> isDeactivated n \<longrightarrow> running n \<noteq> {}) \<and>
     (isStarted n \<longrightarrow> processes n \<noteq> [])"

lemma orderly_new: "orderly (new_NodeState i key addr)"
  by (simp add: orderly_def new_NodeState_def running_def)

lemma running_spawn: "running (spawn force n) = insert (length (processes n)) (running n)"
  by (auto simp: running_def spawn_def nth_append startNodeBase_def less_Suc_eq)

lemma orderly_spawn:
  assumes "orderly n" "running n = {}"
  shows "orderly (spawn False n)"
proof -
  have "running (spawn False n) = {length (processes n)}" using assms(2) by (simp add: running_spawn)
  then show ?thesis using assms(1) unfolding orderly_def by (auto simp: spawn_def)
qed

lemma orderly_started:
  assumes "orderly n" "\<not> isStarted n"
  shows "running n = {}"
  using assms by (auto simp: orderly_def)

lemma running_only:
  assumes "orderly n" "p \<in> running n"
  shows "running n = {p}" "isStarted n" "childProcess n = Some p"
proof -
  have last: "\<forall>q \<in> running n. q = length (processes n) - 1 \<and> isStarted n"
    and child: "childProcess n = (if processes n = [] then None else Some (length (processes n) - 1))"
    using assms(1) unfolding orderly_def by blast+
  have "q = p" if "q \<in> running n" for q using last that assms(2) by metis
  then show "running n = {p}" using assms(2) by blast
  show "isStarted n" using last assms(2) by blast
  have "processes n \<noteq> []" using assms(2) by (auto simp: running_def)
  then show "childProcess n = Some p" using child last assms(2) by simp
qed

lemma update_process_simps [simp]:
  "length (processes (update_process p f n)) = length (processes n)"
  "processes (update_process p f n) = (processes n)[p := f (processes n ! p)]"
  "childProcess (update_process p f n) = childProcess n" "isStarted (update_process p f n) = isStarted n"
  "isDeactivated (update_process p f n) = isDeactivated n"
  "isShuttingDown (update_process p f n) = isShuttingDown n"
  "restartAfterShutdown (update_process p f n) = restartAfterShutdown n"
  "nodeID (update_process p f n) = nodeID n" "exited (update_process p f n) = exited n"
  "stopCalls (update_process p f n) = stopCalls n"
  by (simp_all add: update_process_def)

lemma running_listen:
  assumes "\<And>pr. process_alive (f pr) = process_alive pr"
  shows "running (update_process p f n) = running n"
proof -
  have "process_alive ((processes n)[p := f (processes n ! p)] ! q) = process_alive (processes n ! q)"
    if "q < length (processes n)" for q
    using that assms by (cases "q = p") simp_all
  then show ?thesis unfolding running_def by auto
qed

lemma running_kill: "running (update_process p (\<lambda>pr. pr\<lparr>process_alive := False\<rparr>) n) = running n - {p}"
proof -
  have "process_alive ((processes n)[p := (processes n ! p)\<lparr>process_alive := False\<rparr>] ! q) \<longleftrightarrow>
      process_alive (processes n ! q) \<and> q \<noteq> p" if "q < length (processes n)" for q
    using that by (cases "q = p") simp_all
  then show ?thesis unfolding running_def by auto
qed

lemma orderly_stop:
  assumes "stop_begin force n = Inr (call, n')" "orderly n"
  shows "orderly n' \<and> isShuttingDown n' \<and> running n' = running n"
proof -
  obtain p where p: "childProcess n = Some p"
    and n': "n' = update_process p (\<lambda>pr. pr\<lparr>listeners := listeners pr @ [MarkStopped (stopCalls n)], process_signalled := True\<rparr>)
        (n\<lparr>isShuttingDown := True, stopCalls := stopCalls n + 1\<rparr>)"
    using assms(1) by (auto simp: stop_begin_def split: if_splits option.splits)
  have r: "running n' = running n"
    unfolding n' using running_listen [of "\<lambda>pr. pr\<lparr>listeners := listeners pr @ [MarkStopped (stopCalls n)], process_signalled := True\<rparr>"]
    by (simp add: running_def)
  have "p < length (processes n)" using p assms(2) by (auto simp: orderly_def split: if_splits)
  then have "processes n ! p \<in> set (processes n)" by simp
  then have "orderly n'" using assms(2) unfolding orderly_def r
    by (auto simp: n' is_mark_def dest!: set_update_subset_insert [THEN subsetD] split: if_splits)
  then show ?thesis using r by (simp add: n')
qed

lemma run_marks:
  assumes "\<forall>l \<in> set ls. is_mark l"
  shows "\<exists>st ex. foldl (\<lambda>n l. run_listener l n) n ls = n\<lparr>isStarted := st, exited := exited n @ ex\<rparr> \<and>
    st = (if ls = [] then isStarted n else False) \<and> (\<forall>c. c \<in> set ex \<longleftrightarrow> MarkStopped c \<in> set ls)"
  using assms
proof (induction ls arbitrary: n)
  case Nil
  have "n = n\<lparr>isStarted := isStarted n, exited := exited n @ []\<rparr>" by simp
  then show ?case by fastforce
next
  case (Cons l ls)
  then obtain c where l: "l = MarkStopped c" by (auto simp: is_mark_def split: listener.splits)
  from Cons.IH [of "run_listener l n"] Cons.prems obtain st ex where
      "foldl (\<lambda>n l. run_listener l n) (run_listener l n) ls = (run_listener l n)\<lparr>isStarted := st, exited := exited (run_listener l n) @ ex\<rparr>"
      "st = (if ls = [] then isStarted (run_listener l n) else False)" "\<forall>c. c \<in> set ex \<longleftrightarrow> MarkStopped c \<in> set ls"
    by auto
  then show ?case using l by (intro exI [of _ False] exI [of _ "c # ex"]) (auto split: if_splits)
qed

lemma close_cases:
  assumes "orderly n" "p \<in> running n"
  obtains (restart) "\<not> isShuttingDown n" "\<not> isDeactivated n"
      "close p n = spawn False (update_process p (\<lambda>pr. pr\<lparr>process_alive := False\<rparr>) n\<lparr>isStarted := False\<rparr>)"
    | (rest) "\<not> isShuttingDown n" "isDeactivated n"
      "close p n = update_process p (\<lambda>pr. pr\<lparr>process_alive := False\<rparr>) n\<lparr>isStarted := False\<rparr>"
    | (down) ls ex where "isShuttingDown n" "listeners (processes n ! p) = RestartOnClose False # ls" "\<forall>l \<in> set ls. is_mark l"
      "close p n = update_process p (\<lambda>pr. pr\<lparr>process_alive := False\<rparr>) n
         \<lparr>isStarted := (ls = []), exited := exited n @ ex\<rparr>" "\<forall>c. c \<in> set ex \<longleftrightarrow> MarkStopped c \<in> set ls"
proof -
  have "processes n ! p \<in> set (processes n)" using assms(2) by (simp add: running_def)
  then obtain ls where ls: "listeners (processes n ! p) = RestartOnClose False # ls" "\<forall>l \<in> set ls. is_mark l"
      "ls \<noteq> [] \<longrightarrow> isShuttingDown n"
    using assms(1) by (auto simp: orderly_def)
  have st: "isStarted n" "restartAfterShutdown n" using assms by (auto simp: orderly_def)
  let ?n = "update_process p (\<lambda>pr. pr\<lparr>process_alive := False\<rparr>) n"
  have u: "?n\<lparr>isStarted := True\<rparr> = ?n" using st(1) by (simp add: update_process_def)
  show thesis
  proof (cases "isShuttingDown n")
    case True
    obtain st' ex where m: "foldl (\<lambda>n l. run_listener l n) ?n ls = ?n\<lparr>isStarted := st', exited := exited ?n @ ex\<rparr>"
        "st' = (if ls = [] then isStarted ?n else False)" "\<forall>c. c \<in> set ex \<longleftrightarrow> MarkStopped c \<in> set ls"
      using run_marks [OF ls(2)] by blast
    have "close p n = ?n\<lparr>isStarted := (ls = []), exited := exited n @ ex\<rparr>"
      using m(1,2) True st(1) by (simp add: close_def ls(1))
    then show thesis using down [OF True ls(1,2)] m(3) by blast
  next
    case False
    then have "ls = []" using ls(3) by blast
    then have c: "close p n = (case start False (?n\<lparr>isStarted := False\<rparr>) of Inr n' \<Rightarrow> n' | Inl _ \<Rightarrow> ?n\<lparr>isStarted := False\<rparr>)"
      using ls(1) False st(2) by (simp add: close_def)
    show thesis
    proof (cases "isDeactivated n")
      case True
      then show thesis using c by (intro rest [OF False True]) (simp add: start_def)
    next
      case active: False
      then show thesis using c by (intro restart [OF False active]) (simp add: start_def)
    qed
  qed
qed

lemma orderly_close:
  assumes "orderly n" "p \<in> running n"
  shows "orderly (close p n)"
proof -
  let ?k = "\<lambda>pr. pr\<lparr>process_alive := False\<rparr>"
  have p: "p = length (processes n) - 1" "processes n \<noteq> []" "running n = {p}"
    using assms by (auto simp: orderly_def running_def)
  have dead: "running (update_process p ?k n) = {}" using p(3) by (simp add: running_kill)
  have pr: "pr \<in> set ((processes n)[p := ?k (processes n ! p)]) \<Longrightarrow> \<exists>q \<in> set (processes n). listeners pr = listeners q" for pr
    using assms(2) by (auto simp: running_def dest!: set_update_subset_insert [THEN subsetD])
  have base: "orderly (update_process p ?k n\<lparr>isStarted := False, exited := ex\<rparr>)" for ex
  proof -
    have r: "running (update_process p ?k n\<lparr>isStarted := False, exited := ex\<rparr>) = {}"
      using dead by (simp add: running_def)
    show ?thesis using assms(1) pr unfolding orderly_def r by (simp) (metis (no_types, lifting))
  qed
  show ?thesis using assms
  proof (cases rule: close_cases)
    case restart
    have "running (update_process p ?k n\<lparr>isStarted := False\<rparr>) = {}" using dead by (simp add: running_def)
    then show ?thesis unfolding restart(3) using orderly_spawn base [of "exited n"]
      by (metis (no_types, lifting) node_state.surjective node_state.update_convs(5) node_state.update_convs(11) update_process_simps(9))
  next
    case rest
    have "update_process p ?k n\<lparr>isStarted := False\<rparr> = update_process p ?k n\<lparr>isStarted := False, exited := exited n\<rparr>"
      by (simp add: update_process_def)
    then show ?thesis unfolding rest(3) using base by metis
  next
    case (down ls ex)
    have r: "running (update_process p ?k n\<lparr>isStarted := (ls = []), exited := exited n @ ex\<rparr>) = {}"
      using dead by (simp add: running_def)
    show ?thesis using assms(1) pr down(1) p(2) unfolding down(4) orderly_def r by (simp) (metis (no_types, lifting))
  qed
qed

lemma orderly_deactivated: "orderly n \<Longrightarrow> orderly (n\<lparr>isDeactivated := True\<rparr>)"
  by (auto simp: orderly_def running_def)

lemma node_step_orderly: "node_step False n n' \<Longrightarrow> orderly n \<Longrightarrow> orderly n'"
proof (induction rule: node_step.induct)
  case (starts force n n')
  then show ?case
    using orderly_spawn orderly_started by (auto simp: start_def split: if_splits)
next
  case (stops force n call n')
  then show ?case using orderly_stop by blast
next
  case (deactivates n)
  then show ?case using deactivate_cases [of n] orderly_stop orderly_deactivated by metis
next
  case (closes p n)
  then show ?case by (intro orderly_close) (auto simp: running_def)
qed

lemma node_run_orderly: "node_run False n n' \<Longrightarrow> orderly n \<Longrightarrow> orderly n'"
  unfolding node_run_def by (induction rule: rtranclp_induct) (auto intro: node_step_orderly)

section \<open>What the life of a node promises\<close>

abbreviation freshNode :: node_state where
  "freshNode \<equiv> new_NodeState 1 None (Some ''0xA'')"

text \<open>C13: As long as no start is forced, a node never has more than one running process, and a node with a
  running process counts as started and has it as its child. A started node that was never stopped nor
  deactivated has a running process: every crash is answered by a restart.\<close>

theorem one_process_per_node:
  assumes "node_run False (new_NodeState i key addr) n"
  shows "card (running n) \<le> 1 \<and> (\<forall>p \<in> running n. isStarted n \<and> childProcess n = Some p) \<and>
    (isStarted n \<and> \<not> isShuttingDown n \<and> \<not> isDeactivated n \<longrightarrow> card (running n) = 1)"
proof -
  have o: "orderly n" using node_run_orderly [OF assms orderly_new] .
  have one: "card (running n) = 1" if "running n \<noteq> {}"
    using that running_only(1) [OF o] by fastforce
  then have "card (running n) \<le> 1" by (cases "running n = {}") simp_all
  moreover have "isStarted n \<and> \<not> isShuttingDown n \<and> \<not> isDeactivated n \<longrightarrow> running n \<noteq> {}"
    using o unfolding orderly_def by blast
  ultimately show ?thesis using one running_only(2,3) [OF o] by blast
qed

definition startedNode :: node_state where "startedNode = spawn False freshNode"
definition crashedNode :: node_state where "crashedNode = close 0 startedNode"

lemma startedNode_run: "node_run False freshNode startedNode"
  unfolding node_run_def startedNode_def
  by (rule r_into_rtranclp, rule node_step.starts [of False]) (simp_all add: start_def new_NodeState_def)

lemma one_process_per_node_witness: "card (running crashedNode) = 1 \<and> childProcess crashedNode = Some 1"
proof -
  have "node_step False startedNode crashedNode"
    unfolding crashedNode_def by (rule node_step.closes) (simp_all add: startedNode_def spawn_def new_NodeState_def startNodeBase_def)
  then have "node_run False freshNode crashedNode"
    using startedNode_run unfolding node_run_def by (rule rtranclp.rtrancl_into_rtrancl [rotated])
  note run = one_process_per_node [OF this]
  have "isStarted crashedNode \<and> \<not> isShuttingDown crashedNode \<and> \<not> isDeactivated crashedNode"
    and child: "childProcess crashedNode = Some 1"
    by code_simp+
  with run show ?thesis by blast
qed

text \<open>C21: A stop of a running node returns once the process has ended; then the node has no process and
  can be started again, unless it is deactivated.\<close>

theorem stop_ends_the_node:
  assumes "node_run False (new_NodeState i key addr) n" "stop_begin force n = Inr (call, n1)"
    "childProcess n = Some p" "p \<in> running n"
  shows "stop_returns call (close p n1) \<and> \<not> isStarted (close p n1) \<and> running (close p n1) = {} \<and>
    (\<not> isDeactivated n \<longrightarrow> (\<exists>n2. start False (close p n1) = Inr n2 \<and> card (running n2) = 1))"
proof -
  have o: "orderly n" using node_run_orderly [OF assms(1) orderly_new] .
  note s = orderly_stop [OF assms(2) o]
  have n1: "n1 = update_process p (\<lambda>pr. pr\<lparr>listeners := listeners pr @ [MarkStopped call], process_signalled := True\<rparr>)
        (n\<lparr>isShuttingDown := True, stopCalls := stopCalls n + 1\<rparr>)"
    using assms(2,3) by (auto simp: stop_begin_def split: if_splits)
  have p: "p < length (processes n)" "running n = {p}" using running_only(1) [OF o assms(4)] assms(4) by (auto simp: running_def)
  then have "p \<in> running n1" using s by simp
  with s have "orderly n1" "p \<in> running n1" by simp_all
  then show ?thesis
  proof (cases rule: close_cases)
    case (down ls ex)
    have "MarkStopped call \<in> set ls" using down(2) p(1) by (cases ls rule: rev_cases) (auto simp: n1)
    moreover have "running (close p n1) = {}"
      using running_kill [of p n1] s p(2) by (simp add: down(4) running_def)
    moreover have d: "isDeactivated (close p n1) = isDeactivated n" by (simp only: down(4)) (simp add: n1)
    ultimately show ?thesis using down(5)
      by (cases ls) (auto simp: down(4) stop_returns_def start_def running_spawn)
  qed (use s in simp_all)
qed

lemma stop_ends_the_node_witness:
  "\<exists>call n1. stop_begin False startedNode = Inr (call, n1) \<and> stop_returns call (close 0 n1) \<and> running (close 0 n1) = {}"
proof -
  have p: "childProcess startedNode = Some 0" "0 \<in> running startedNode" "isStarted startedNode"
    by (simp_all add: startedNode_def spawn_def new_NodeState_def startNodeBase_def running_def)
  then obtain call n1 where s: "stop_begin False startedNode = Inr (call, n1)" by (auto simp: stop_begin_def)
  from stop_ends_the_node [OF startedNode_run s p(1,2)] s show ?thesis by blast
qed

text \<open>A node that counts as started but has no running process stays so.\<close>

definition stuck :: "node_state \<Rightarrow> bool" where
  "stuck n \<longleftrightarrow> isStarted n \<and> running n = {}"

lemma stuck_step:
  assumes "node_step False n n'" "stuck n"
  shows "stuck n' \<and> exited n' = exited n \<and> start False n' \<in> {Inl (Thrown ''Node is already started.''), Inr n'}"
proof -
  have stop: "stuck n1 \<and> exited n1 = exited n" if s: "stop_begin force n = Inr (call, n1)" for force call n1
  proof -
    obtain p where "n1 = update_process p
            (\<lambda>pr. pr\<lparr>listeners := listeners pr @ [MarkStopped (stopCalls n)], process_signalled := True\<rparr>)
            (n\<lparr>isShuttingDown := True, stopCalls := stopCalls n + 1\<rparr>)"
      using s by (auto simp: stop_begin_def split: if_splits option.splits)
    then show ?thesis using assms(2)
        running_listen [of "\<lambda>pr. pr\<lparr>listeners := listeners pr @ [MarkStopped (stopCalls n)], process_signalled := True\<rparr>" p
          "n\<lparr>isShuttingDown := True, stopCalls := stopCalls n + 1\<rparr>"]
      by (simp add: stuck_def running_def)
  qed
  have "stuck n' \<and> exited n' = exited n"
    using assms(1)
  proof cases
    case (starts force)
    then show ?thesis using assms(2) by (auto simp: start_def stuck_def split: if_splits)
  next
    case (stops force call)
    then show ?thesis using stop by blast
  next
    case deactivates
    have flag: "stuck (m\<lparr>isDeactivated := True\<rparr>) = stuck m" for m by (simp add: stuck_def running_def)
    show ?thesis using deactivate_cases [of n] stop assms(2) unfolding deactivates
      by (metis flag node_state.select_convs(11) node_state.surjective node_state.update_convs(6))
  next
    case (closes p)
    then show ?thesis using assms(2) by (auto simp: stuck_def running_def)
  qed
  then show ?thesis by (auto simp: start_def stuck_def)
qed

lemma stuck_run: "node_run False n n' \<Longrightarrow> stuck n \<Longrightarrow> stuck n' \<and> exited n' = exited n"
  unfolding node_run_def by (induction rule: rtranclp_induct) (auto dest: stuck_step)

text \<open>The flag that a stop sets is never reset. When a node that was stopped once and started again
  crashes, it is not restarted and still counts as started: from then on no start that is not forced brings
  it back, and no stop of it ever returns.\<close>

theorem crash_after_stop_is_final:
  assumes "node_run False (new_NodeState i key addr) n" "p \<in> running n" "isShuttingDown n"
    "listeners (processes n ! p) = [RestartOnClose False]" "node_run False (close p n) n'"
  shows "isStarted n' \<and> running n' = {} \<and>
    start False n' \<in> {Inl (Thrown ''Node is already started.''), Inr n'} \<and>
    (\<forall>call. stop_returns call n' \<longrightarrow> stop_returns call n)"
proof -
  have o: "orderly n" using node_run_orderly [OF assms(1) orderly_new] .
  note p = running_only(1) [OF o assms(2)] and st = running_only(2) [OF o assms(2)]
  have c: "close p n = update_process p (\<lambda>pr. pr\<lparr>process_alive := False\<rparr>) n"
    using assms(3) by (simp add: close_def assms(4))
  have "stuck (close p n)" unfolding c stuck_def running_kill by (simp add: st p)
  moreover have "exited (close p n) = exited n" by (simp add: c)
  ultimately have n': "stuck n'" "exited n' = exited n" using stuck_run [OF assms(5)] by auto
  then show ?thesis by (auto simp: stuck_def start_def stop_returns_def)
qed

definition stoppedNode :: node_state where
  "stoppedNode = close 0 (snd (projr (stop_begin False startedNode)))"

definition againNode :: node_state where "againNode = spawn False stoppedNode"

lemma againNode_run: "node_run False freshNode againNode"
proof -
  have s: "stop_begin False startedNode = Inr (0, snd (projr (stop_begin False startedNode)))" by code_simp
  have "node_step False startedNode (snd (projr (stop_begin False startedNode)))"
    using node_step.stops [OF s] .
  moreover have "node_step False (snd (projr (stop_begin False startedNode))) stoppedNode"
    unfolding stoppedNode_def by (rule node_step.closes) code_simp+
  moreover have "node_step False stoppedNode againNode"
    by (rule node_step.starts [of False]) (code_simp, simp)
  ultimately show ?thesis
    using startedNode_run unfolding node_run_def by (meson rtranclp.rtrancl_into_rtrancl)
qed

lemma crash_after_stop_is_final_witness:
  "isStarted (close 1 againNode) \<and> running (close 1 againNode) = {} \<and> isShuttingDown againNode"
proof -
  have a: "1 \<in> running againNode" "isShuttingDown againNode" "listeners (processes againNode ! 1) = [RestartOnClose False]"
    unfolding running_def mem_Collect_eq by code_simp+
  have "node_run False (close 1 againNode) (close 1 againNode)" by (simp add: node_run_def)
  from crash_after_stop_is_final [OF againNode_run a this] a(2) show ?thesis by blast
qed

end
