(* ===== verification/Watchdog.thy ===== *)
theory Watchdog imports ValidatorObserver NodeLifecycle begin

text \<open>
  The watchdog (src/src/watchdog.ts, watchdog-plugin.ts, watchdog-connectivity-tracker.ts): the round of
  \<open>startWatching\<close> that looks at a new block, the check of a validator that may restart its node, and
  the handling of the first node. What the node and the contracts answer in a round is the record
  \<open>chain_view\<close>; each answer may be a rejection. What a round prints or calls back is the list of its
  reports, of which the texts are left out.
\<close>

section \<open>State\<close>

datatype report =
    EarlyEndSwitched bool
  | StrangeIncrease int int
  | EpochSwitched int int
  | PendingSwitched "string list" "string list"
  | CurrentSwitched "string list" "string list"
  | FlaggedSwitched "string list"
  | MissingConnectivity nat
  | Reconnects nat
  | ScoreOf string int
  | PartsChanged int "string list" "string list"
  | AcksChanged int "string list" "string list"
  | ScoreEvents nat
  | MocDeactivated

record watchdog =
  wd_currentValidators :: "string list"
  wd_pendingValidators :: "string list"
  flaggedValidators :: "string list"
  numberOfAcksWritten :: int
  numberOfPartsWritten :: int
  latestKnownBlock :: int
  latestKnownEpochNumber :: int
  latestEarlyEpochEndFlag :: bool
  lastEpochSwitchTime :: int
  epochLengthSetting :: int
  mocNode :: "string option"
  stopSignal :: bool
  latestpoolRestarts :: "string \<rightharpoonup> int"
  latestpoolRestartBlockNumber :: "string \<rightharpoonup> int"
  reports :: "report list"

type_synonym 'a watch = "(watchdog, 'a) prog"

text \<open>The constructor; the first node is not known yet.\<close>

definition new_watchdog :: "int \<Rightarrow> watchdog" where
  "new_watchdog now = \<lparr>wd_currentValidators = [], wd_pendingValidators = [], flaggedValidators = [],
     numberOfAcksWritten = 0, numberOfPartsWritten = 0, latestKnownBlock = 0, latestKnownEpochNumber = 0,
     latestEarlyEpochEndFlag = False, lastEpochSwitchTime = now div 1000, epochLengthSetting = 0,
     mocNode = None, stopSignal = False, latestpoolRestarts = Map.empty,
     latestpoolRestartBlockNumber = Map.empty, reports = []\<rparr>"

record chain_view =
  v_blockNumber :: "int result"
  v_extraTimeWindow :: "int result"
  v_earlyEpochEnd :: "int \<Rightarrow> bool result"
  v_block :: "int \<Rightarrow> unit result"
  v_epochStartTime :: "int result"
  v_epochDuration :: "int result"
  v_epoch :: "int result"
  v_pending :: "string list result"
  v_current :: "string list result"
  v_flagged :: "string list result"
  v_epochEnd :: "unit result"
  v_keyGenRound :: "int result"
  v_missing :: "nat result"
  v_reconnects :: "nat result"
  v_score :: "int \<Rightarrow> string \<Rightarrow> int result"
  v_fragments :: "(int \<times> int) result"
  v_part :: "string \<Rightarrow> string option result"
  v_acksOf :: "string \<Rightarrow> int result"
  v_stakingDiff :: "unit result"
  v_scoreEvents :: "int \<Rightarrow> nat result"

definition call :: "'a result \<Rightarrow> 'a watch" where
  "call r w = (r, w)"

definition change :: "(watchdog \<Rightarrow> watchdog) \<Rightarrow> unit watch" where
  "change f w = (Inr (), f w)"

definition look :: "(watchdog \<Rightarrow> 'a) \<Rightarrow> 'a watch" where
  "look f w = (Inr (f w), w)"

definition say :: "report \<Rightarrow> unit watch" where
  "say r = change (\<lambda>w. w\<lparr>reports := reports w @ [r]\<rparr>)"

section \<open>The first node\<close>

text \<open>\<open>firstNode\<close> is the address of node 1 of the manager.\<close>

definition notifyNodeChanged :: "string option \<Rightarrow> int \<Rightarrow> string list \<Rightarrow> unit watch" where
  "notifyNodeChanged firstNode block currentNodes =
     (if block = 0 \<and> length currentNodes = 1 then change (\<lambda>w. w\<lparr>mocNode := firstNode\<rparr>)
      else andThen (look mocNode) (\<lambda>moc. case moc of None \<Rightarrow> ret ()
        | Some a \<Rightarrow> if length currentNodes = 1 \<and> currentNodes ! 0 \<noteq> a then say MocDeactivated else ret ()))"

section \<open>A round\<close>

text \<open>The plugins: \<open>Promise.all\<close> over them rejects when one of them does.\<close>

definition plugins_processEpochStart :: "chain_view \<Rightarrow> unit watch" where
  "plugins_processEpochStart v = call (v_stakingDiff v)"

definition plugins_processBlock :: "chain_view \<Rightarrow> int \<Rightarrow> unit watch" where
  "plugins_processBlock v b = andThen (call (v_scoreEvents v b)) (\<lambda>n. if n > 0 then say (ScoreEvents n) else ret ())"

definition watchEpoch :: "chain_view \<Rightarrow> int watch" where
  "watchEpoch v =
     andThen (call (v_epochStartTime v)) (\<lambda>t. andThen (change (\<lambda>w. w\<lparr>lastEpochSwitchTime := t\<rparr>)) (\<lambda>_.
     andThen (call (v_epochDuration v)) (\<lambda>d. andThen (change (\<lambda>w. w\<lparr>epochLengthSetting := d\<rparr>)) (\<lambda>_.
     andThen (call (v_epoch v)) (\<lambda>newEpoch.
     andThen (change (\<lambda>w. w\<lparr>latestKnownEpochNumber := newEpoch\<rparr>)) (\<lambda>_. ret newEpoch))))))"

definition watchEpochSwitch :: "chain_view \<Rightarrow> int \<Rightarrow> int \<Rightarrow> int \<Rightarrow> unit watch" where
  "watchEpochSwitch v b oldEpoch newEpoch =
     (if newEpoch > oldEpoch
      then andThen (if oldEpoch \<noteq> 0 \<and> newEpoch \<noteq> oldEpoch + 1 then say (StrangeIncrease oldEpoch newEpoch) else ret ()) (\<lambda>_.
        andThen (plugins_processEpochStart v) (\<lambda>_. say (EpochSwitched newEpoch b)))
      else ret ())"

definition watchPending :: "bool \<Rightarrow> chain_view \<Rightarrow> string list \<Rightarrow> unit watch" where
  "watchPending logChanges v pending =
     andThen (look wd_pendingValidators) (\<lambda>old.
     if deepEquals pending old then ret ()
     else andThen (if logChanges
         then andThen (call (v_epochEnd v)) (\<lambda>_. andThen (call (v_keyGenRound v)) (\<lambda>_.
           say (case createDiffgram old pending of (added, removed) \<Rightarrow> PendingSwitched added removed)))
         else ret ())
       (\<lambda>_. change (\<lambda>w. w\<lparr>wd_pendingValidators := pending\<rparr>)))"

definition watchCurrent :: "bool \<Rightarrow> string option \<Rightarrow> chain_view \<Rightarrow> int \<Rightarrow> unit watch" where
  "watchCurrent logChanges firstNode v b =
     andThen (call (v_current v)) (\<lambda>current.
     andThen (look wd_currentValidators) (\<lambda>old.
     if deepEquals current old then ret ()
     else andThen (if logChanges
         then andThen (call (v_keyGenRound v)) (\<lambda>_. andThen (call (v_epochEnd v)) (\<lambda>_.
           say (case createDiffgram old current of (added, removed) \<Rightarrow> CurrentSwitched added removed)))
         else ret ())
       (\<lambda>_. andThen (change (\<lambda>w. w\<lparr>wd_currentValidators := current\<rparr>))
         (\<lambda>_. notifyNodeChanged firstNode b current))))"

text \<open>The only block of the round in which rejections are caught\<close>

definition watchConnectivity :: "chain_view \<Rightarrow> unit watch" where
  "watchConnectivity v = try_catch
     (andThen (call (v_missing v)) (\<lambda>m. andThen (call (v_reconnects v)) (\<lambda>r.
      andThen (if m > 0 then say (MissingConnectivity m) else ret ()) (\<lambda>_.
      andThen (if r > 0 then say (Reconnects r) else ret ()) (\<lambda>_.
      if m > 0 \<or> r > 0
      then andThen (look flaggedValidators) (\<lambda>flagged. andThen (look latestKnownEpochNumber) (\<lambda>e.
        forEach flagged (\<lambda>x. andThen (call (v_score v e x)) (\<lambda>s. say (ScoreOf x s)))))
      else ret ())))))
     (\<lambda>_. ret ())"

text \<open>The validators with and without what \<open>ok\<close> asks for\<close>

fun splitValidators :: "(string \<Rightarrow> bool result) \<Rightarrow> string list \<Rightarrow> (string list \<times> string list) result" where
  "splitValidators ok [] = Inr ([], [])"
| "splitValidators ok (x # xs) = await (ok x) (\<lambda>b. await (splitValidators ok xs) (\<lambda>(yes, no).
     Inr (if b then (x # yes, no) else (yes, x # no))))"

definition hasPart :: "chain_view \<Rightarrow> string \<Rightarrow> bool result" where
  "hasPart v x = await (v_part v x) (\<lambda>key. Inr (case key of None \<Rightarrow> False | Some k \<Rightarrow> length k > 3))"

definition hasAcks :: "chain_view \<Rightarrow> string \<Rightarrow> bool result" where
  "hasAcks v x = await (v_acksOf v x) (\<lambda>n. Inr (n > 0))"

definition watchKeyGen :: "chain_view \<Rightarrow> unit watch" where
  "watchKeyGen v =
     andThen (call (v_fragments v)) (\<lambda>(parts, acks).
     andThen (look numberOfPartsWritten) (\<lambda>oldParts.
     andThen (if oldParts \<noteq> parts
       then andThen (look wd_pendingValidators) (\<lambda>pending.
         andThen (call (splitValidators (hasPart v) pending)) (\<lambda>(yes, no).
         andThen (say (PartsChanged parts yes no)) (\<lambda>_. change (\<lambda>w. w\<lparr>numberOfPartsWritten := parts\<rparr>))))
       else ret ()) (\<lambda>_.
     andThen (look numberOfAcksWritten) (\<lambda>oldAcks.
     if oldAcks \<noteq> acks
     then andThen (look wd_pendingValidators) (\<lambda>pending.
       andThen (call (splitValidators (hasAcks v) pending)) (\<lambda>(yes, no).
       andThen (say (AcksChanged acks yes no)) (\<lambda>_. change (\<lambda>w. w\<lparr>numberOfAcksWritten := acks\<rparr>))))
     else ret ()))))"

definition watchFlagged :: "chain_view \<Rightarrow> unit watch" where
  "watchFlagged v =
     andThen (call (v_flagged v)) (\<lambda>flagged. andThen (look flaggedValidators) (\<lambda>old.
     if old = flagged then ret ()
     else andThen (say (FlaggedSwitched flagged)) (\<lambda>_. change (\<lambda>w. w\<lparr>flaggedValidators := flagged\<rparr>))))"

datatype next_round = ScheduledAgain | Stopped

text \<open>The part of \<open>functionCall\<close> from the new block on\<close>

definition watchBlock :: "bool \<Rightarrow> string option \<Rightarrow> chain_view \<Rightarrow> int \<Rightarrow> unit watch" where
  "watchBlock logChanges firstNode v currentBlock =
     andThen (change (\<lambda>w. w\<lparr>latestKnownBlock := currentBlock\<rparr>)) (\<lambda>_.
     andThen (call (v_earlyEpochEnd v currentBlock)) (\<lambda>early. andThen (look latestEarlyEpochEndFlag) (\<lambda>oldEarly.
     andThen (if early \<noteq> oldEarly
       then andThen (say (EarlyEndSwitched early)) (\<lambda>_. change (\<lambda>w. w\<lparr>latestEarlyEpochEndFlag := early\<rparr>))
       else ret ()) (\<lambda>_.
     andThen (call (v_block v currentBlock)) (\<lambda>_.
     andThen (look latestKnownEpochNumber) (\<lambda>oldEpoch.
     andThen (watchEpoch v) (\<lambda>newEpoch.
     andThen (call (v_pending v)) (\<lambda>pending.
     andThen (watchEpochSwitch v currentBlock oldEpoch newEpoch) (\<lambda>_.
     andThen (watchPending logChanges v pending) (\<lambda>_.
     andThen (watchCurrent logChanges firstNode v currentBlock) (\<lambda>_.
     andThen (watchConnectivity v) (\<lambda>_.
     andThen (watchKeyGen v) (\<lambda>_.
     andThen (plugins_processBlock v currentBlock) (\<lambda>_.
     watchFlagged v))))))))))))))"

text \<open>\<open>functionCall\<close>: the next round is scheduled at the end; after a rejection there is none.\<close>

definition functionCall :: "bool \<Rightarrow> string option \<Rightarrow> chain_view \<Rightarrow> next_round watch" where
  "functionCall logChanges firstNode v =
     andThen (look stopSignal) (\<lambda>stop.
     if stop then ret Stopped
     else andThen (call (v_blockNumber v)) (\<lambda>currentBlock. andThen (look latestKnownBlock) (\<lambda>known.
     if currentBlock = known then ret ScheduledAgain
     else andThen (call (v_extraTimeWindow v)) (\<lambda>_.
     andThen (watchBlock logChanges firstNode v currentBlock) (\<lambda>_. ret ScheduledAgain)))))"

definition stopWatching :: "watchdog \<Rightarrow> watchdog" where
  "stopWatching w = w\<lparr>stopSignal := True\<rparr>"

text \<open>The rounds of \<open>startWatching\<close>: they go on as long as they are scheduled.\<close>

fun watching :: "bool \<Rightarrow> string option \<Rightarrow> chain_view list \<Rightarrow> watchdog \<Rightarrow> next_round result \<times> watchdog" where
  "watching logChanges firstNode [] w = (Inr ScheduledAgain, w)"
| "watching logChanges firstNode (v # vs) w = (case functionCall logChanges firstNode v w of
     (Inr ScheduledAgain, w1) \<Rightarrow> watching logChanges firstNode vs w1 | r \<Rightarrow> r)"

definition startWatching :: "bool \<Rightarrow> string option \<Rightarrow> chain_view list \<Rightarrow> watchdog \<Rightarrow> next_round result \<times> watchdog" where
  "startWatching logChanges firstNode vs w = watching logChanges firstNode vs (w\<lparr>stopSignal := False\<rparr>)"

section \<open>The check of a validator\<close>

record pool_view =
  p_poolAddress :: "string option result"
  p_active :: "bool result"
  p_stake :: "wei result"
  p_stakeOnMining :: "wei result"
  p_minStake :: "wei result"
  p_availableSince :: "int result"

definition recently_restarted :: "int \<Rightarrow> string \<Rightarrow> watchdog \<Rightarrow> bool" where
  "recently_restarted now pool w \<longleftrightarrow> (case latestpoolRestarts w pool of
     None \<Rightarrow> False
   | Some t \<Rightarrow> t \<noteq> 0 \<and> (now - t < 60000 \<or> latestpoolRestartBlockNumber w pool = Some (latestKnownBlock w)))"

text \<open>The pool whose node is to be restarted. An address of zero is \<open>None\<close>.\<close>

definition restartWanted :: "bool \<Rightarrow> int \<Rightarrow> pool_view \<Rightarrow> string option watch" where
  "restartWanted orderManageNodes now v =
     andThen (call (p_poolAddress v)) (\<lambda>pool. case pool of None \<Rightarrow> ret None | Some pool \<Rightarrow>
     andThen (look (recently_restarted now pool)) (\<lambda>recent. if recent then ret None else
     andThen (call (p_active v)) (\<lambda>active. if active then ret None else
     andThen (call (p_stake v)) (\<lambda>stake. andThen (call (p_stakeOnMining v)) (\<lambda>_.
     andThen (call (p_minStake v)) (\<lambda>minStake. if stake < minStake then ret None else
     andThen (call (p_availableSince v)) (\<lambda>since.
     ret (if since = 0 \<and> orderManageNodes then Some pool else None))))))))"

text \<open>The check up to the first await of the restart, which notes its time and block.\<close>

definition checkValidaterState :: "bool \<Rightarrow> int \<Rightarrow> pool_view \<Rightarrow> string option watch" where
  "checkValidaterState orderManageNodes now v =
     andThen (restartWanted orderManageNodes now v) (\<lambda>wanted. case wanted of None \<Rightarrow> ret None
     | Some pool \<Rightarrow> andThen (change (\<lambda>w. w\<lparr>latestpoolRestarts := (latestpoolRestarts w)(pool \<mapsto> now),
         latestpoolRestartBlockNumber := (latestpoolRestartBlockNumber w)(pool \<mapsto> latestKnownBlock w)\<rparr>))
       (\<lambda>_. ret (Some pool)))"

text \<open>\<open>asyncRestart\<close> after the node has stopped\<close>

definition restartStopped :: "bool \<Rightarrow> string \<Rightarrow> string set \<Rightarrow> node_state \<Rightarrow> (string set \<times> node_state) result" where
  "restartStopped clearDataOnRestart nodesDir fs n =
     await (if clearDataOnRestart then clearDBLocal nodesDir n fs else Inr fs) (\<lambda>fs1.
     await (start False n) (\<lambda>n1. Inr (fs1, n1)))"

end
