(* ===== verification/WatchdogRuns.thy ===== *)
theory WatchdogRuns imports Watchdog begin

text \<open>
  What the rounds of the watchdog do: the state after a round, the epoch switches that are reported, the
  first node that is never shut down, the time between the restarts of a node, and what a restart does to
  the node.
\<close>

section \<open>Invariants of actions\<close>

definition keeping :: "('s \<Rightarrow> bool) \<Rightarrow> ('s, 'a) prog \<Rightarrow> bool" where
  "keeping I A \<longleftrightarrow> (\<forall>w. I w \<longrightarrow> I (snd (A w)))"

named_theorems keeping_rules \<open>actions that keep an invariant\<close>

lemma keepingD: "keeping I A \<Longrightarrow> I w \<Longrightarrow> A w = (r, w') \<Longrightarrow> I w'"
  by (auto simp: keeping_def dest: spec [of _ w])

lemma keeping_call [keeping_rules]: "keeping I (call r)" by (simp add: keeping_def call_def)
lemma keeping_look [keeping_rules]: "keeping I (look f)" by (simp add: keeping_def look_def)
lemma keeping_ret [keeping_rules]: "keeping I (ret x)" by (simp add: keeping_def ret_def)

lemma keeping_andThen [keeping_rules]:
  assumes "keeping I A" "\<And>x. keeping I (f x)"
  shows "keeping I (andThen A f)"
  unfolding keeping_def andThen_def
  using keepingD [OF assms(1)] assms(2) by (auto simp: keeping_def split: prod.splits sum.splits)

lemma keeping_try [keeping_rules]:
  assumes "keeping I A" "\<And>e. keeping I (h e)"
  shows "keeping I (try_catch A h)"
  unfolding keeping_def try_catch_def
  using keepingD [OF assms(1)] assms(2) by (auto simp: keeping_def split: prod.splits sum.splits)

lemma keeping_forEach [keeping_rules]: "(\<And>x. keeping I (f x)) \<Longrightarrow> keeping I (forEach xs f)"
  by (induction xs) (auto intro: keeping_rules)

lemma keeping_if [keeping_rules]: "(b \<Longrightarrow> keeping I A) \<Longrightarrow> (\<not> b \<Longrightarrow> keeping I B) \<Longrightarrow> keeping I (if b then A else B)"
  by simp

lemma keeping_prod [keeping_rules]: "(\<And>x y. keeping I (f x y)) \<Longrightarrow> keeping I (case p of (x, y) \<Rightarrow> f x y)"
  by (cases p) simp

section \<open>The pieces of a round\<close>

fun notified :: "report list \<Rightarrow> int list" where
  "notified [] = []"
| "notified (EpochSwitched e b # rs) = e # notified rs"
| "notified (r # rs) = notified rs"

lemma notified_append [simp]: "notified (xs @ ys) = notified xs @ notified ys"
  by (induction xs rule: notified.induct) simp_all

text \<open>An invariant that looks at the first node, the block, the epoch and some of the reports only\<close>

definition indifferent :: "(watchdog \<Rightarrow> bool) \<Rightarrow> bool" where
  "indifferent I \<longleftrightarrow> (\<forall>w w' rs. I w \<longrightarrow> mocNode w' = mocNode w \<longrightarrow>
     latestKnownEpochNumber w' = latestKnownEpochNumber w \<longrightarrow> reports w' = reports w @ rs \<longrightarrow>
     notified rs = [] \<longrightarrow> MocDeactivated \<notin> set rs \<longrightarrow> I w')"

lemma keeping_change:
  "indifferent I \<Longrightarrow> (\<And>w. mocNode (f w) = mocNode w \<and>
     latestKnownEpochNumber (f w) = latestKnownEpochNumber w \<and> reports (f w) = reports w) \<Longrightarrow> keeping I (change f)"
  unfolding keeping_def change_def indifferent_def by (metis append_Nil2 empty_iff empty_set notified.simps(1) snd_conv)

lemma keeping_say:
  "indifferent I \<Longrightarrow> notified [r] = [] \<Longrightarrow> r \<noteq> MocDeactivated \<Longrightarrow> keeping I (say r)"
  unfolding keeping_def say_def change_def indifferent_def
  by (auto dest: spec [of _ "_ :: watchdog"])

lemma keeping_parts:
  assumes "indifferent I"
  shows "keeping I (watchPending l v p)" "keeping I (watchConnectivity v)" "keeping I (watchKeyGen v)"
    "keeping I (plugins_processBlock v b)" "keeping I (watchFlagged v)" "keeping I (plugins_processEpochStart v)"
proof -
  note rules = keeping_rules keeping_change [OF assms] keeping_say [OF assms]
  show "keeping I (watchPending l v p)" unfolding watchPending_def
    by (intro rules) (auto split: prod.splits)
  show "keeping I (watchConnectivity v)" unfolding watchConnectivity_def by (intro rules) auto
  show "keeping I (watchKeyGen v)" unfolding watchKeyGen_def by (intro rules) auto
  show "keeping I (plugins_processBlock v b)" unfolding plugins_processBlock_def by (intro rules) auto
  show "keeping I (watchFlagged v)" unfolding watchFlagged_def by (intro rules) auto
  show "keeping I (plugins_processEpochStart v)" unfolding plugins_processEpochStart_def by (intro rules)
qed

section \<open>A round that succeeds\<close>

lemma watch_Inr [action_simps]:
  "call r w = (Inr x, w') \<longleftrightarrow> r = Inr x \<and> w' = w"
  "look f w = (Inr y, w') \<longleftrightarrow> y = f w \<and> w' = w"
  "change g w = (Inr u, w') \<longleftrightarrow> w' = g w"
  "say p w = (Inr u, w') \<longleftrightarrow> w' = w\<lparr>reports := reports w @ [p]\<rparr>"
  by (auto simp: call_def look_def change_def say_def)

definition says :: "watchdog \<Rightarrow> report list \<Rightarrow> watchdog" where
  "says w rs = w\<lparr>reports := reports w @ rs\<rparr>"

lemma says_simps [simp]:
  "reports (says w rs) = reports w @ rs" "latestKnownBlock (says w rs) = latestKnownBlock w"
  "latestKnownEpochNumber (says w rs) = latestKnownEpochNumber w" "wd_pendingValidators (says w rs) = wd_pendingValidators w"
  "wd_currentValidators (says w rs) = wd_currentValidators w" "flaggedValidators (says w rs) = flaggedValidators w"
  "numberOfPartsWritten (says w rs) = numberOfPartsWritten w" "numberOfAcksWritten (says w rs) = numberOfAcksWritten w"
  "latestEarlyEpochEndFlag (says w rs) = latestEarlyEpochEndFlag w" "mocNode (says w rs) = mocNode w"
  "lastEpochSwitchTime (says w rs) = lastEpochSwitchTime w" "epochLengthSetting (says w rs) = epochLengthSetting w"
  "says w [] = w" "says (says w rs) ss = says w (rs @ ss)"
  by (simp_all add: says_def)

lemma says_commute [simp]:
  "(says w rs)\<lparr>numberOfPartsWritten := p\<rparr> = says (w\<lparr>numberOfPartsWritten := p\<rparr>) rs"
  "(says w rs)\<lparr>numberOfAcksWritten := a\<rparr> = says (w\<lparr>numberOfAcksWritten := a\<rparr>) rs"
  "(says w rs)\<lparr>flaggedValidators := f\<rparr> = says (w\<lparr>flaggedValidators := f\<rparr>) rs"
  "(says w rs)\<lparr>wd_pendingValidators := v\<rparr> = says (w\<lparr>wd_pendingValidators := v\<rparr>) rs"
  "(says w rs)\<lparr>wd_currentValidators := v\<rparr> = says (w\<lparr>wd_currentValidators := v\<rparr>) rs"
  "(says w rs)\<lparr>mocNode := m\<rparr> = says (w\<lparr>mocNode := m\<rparr>) rs"
  by (simp_all add: says_def)

lemma says_Inr: "say p w = (Inr u, w') \<longleftrightarrow> w' = says w [p]"
  by (simp add: watch_Inr says_def)

definition pendingReport :: "string list \<Rightarrow> string list \<Rightarrow> report" where
  "pendingReport old new = (case createDiffgram old new of (added, removed) \<Rightarrow> PendingSwitched added removed)"

lemmas round_Inr = andThen_Inr watch_Inr(1-3) says_Inr ret_Inr

lemma watchPending_Inr:
  assumes "watchPending l v p w = (Inr u, w')"
  shows "w' = says (w\<lparr>wd_pendingValidators := p\<rparr>)
    (if l \<and> p \<noteq> wd_pendingValidators w then [pendingReport (wd_pendingValidators w) p] else [])"
  using assms
  by (auto simp: watchPending_def round_Inr deepEquals_def pendingReport_def split: if_splits)

definition harmless :: "report list \<Rightarrow> bool" where
  "harmless rs \<longleftrightarrow> notified rs = [] \<and> (\<forall>a r. PendingSwitched a r \<notin> set rs)"

lemma harmless_simps [simp]: "harmless []" "harmless [MocDeactivated]" "harmless [CurrentSwitched a r]"
  "harmless [PartsChanged i a r]" "harmless [AcksChanged i a r]" "harmless [FlaggedSwitched f]"
  "harmless (xs @ ys) = (harmless xs \<and> harmless ys)"
  by (auto simp: harmless_def)

lemma notifyNodeChanged_Inr:
  assumes "notifyNodeChanged first b c w = (Inr u, w')"
  shows "\<exists>rs moc. w' = says (w\<lparr>mocNode := moc\<rparr>) rs \<and> harmless rs"
proof (cases "b = 0 \<and> length c = 1")
  case True
  then have "w' = says (w\<lparr>mocNode := first\<rparr>) []" using assms by (simp add: notifyNodeChanged_def round_Inr)
  then show ?thesis using harmless_simps(1) by blast
next
  case False
  then have "w' = says (w\<lparr>mocNode := mocNode w\<rparr>) [] \<or> w' = says (w\<lparr>mocNode := mocNode w\<rparr>) [MocDeactivated]"
    using assms unfolding notifyNodeChanged_def if_not_P [OF False]
    by (auto simp: round_Inr split: if_splits option.splits)
  then show ?thesis using harmless_simps(1,2) by blast
qed

lemma watchCurrent_Inr:
  assumes "watchCurrent l first v b w = (Inr u, w')"
  shows "\<exists>c rs moc. v_current v = Inr c \<and> w' = says (w\<lparr>wd_currentValidators := c, mocNode := moc\<rparr>) rs \<and> harmless rs"
proof -
  obtain c where c: "v_current v = Inr c" using assms by (auto simp: watchCurrent_def round_Inr)
  show ?thesis
  proof (cases "deepEquals c (wd_currentValidators w)")
    case True
    then have "w' = says (w\<lparr>wd_currentValidators := c, mocNode := mocNode w\<rparr>) []" using assms c
      by (auto simp: watchCurrent_def round_Inr deepEquals_def)
    then show ?thesis using c harmless_simps(1) by blast
  next
    case False
    obtain rs0 where "notifyNodeChanged first b c (says (w\<lparr>wd_currentValidators := c\<rparr>) rs0) = (Inr u, w')" "harmless rs0"
    proof (cases l)
      case True
      obtain x y where "createDiffgram (wd_currentValidators w) c = (x, y)" by fastforce
      then have "notifyNodeChanged first b c (says (w\<lparr>wd_currentValidators := c\<rparr>) [CurrentSwitched x y]) = (Inr u, w')"
        using assms c False True by (auto simp: watchCurrent_def round_Inr)
      then show thesis using that harmless_simps(3) by blast
    next
      case quiet: False
      then have "notifyNodeChanged first b c (says (w\<lparr>wd_currentValidators := c\<rparr>) []) = (Inr u, w')"
        using assms c False by (auto simp: watchCurrent_def round_Inr)
      then show thesis using that harmless_simps(1) by blast
    qed
    with notifyNodeChanged_Inr [OF this(1)] obtain rs moc where
      "w' = says ((says (w\<lparr>wd_currentValidators := c\<rparr>) rs0)\<lparr>mocNode := moc\<rparr>) rs" "harmless rs" "harmless rs0"
      by blast
    then have "w' = says (w\<lparr>wd_currentValidators := c, mocNode := moc\<rparr>) (rs0 @ rs)" "harmless (rs0 @ rs)" by simp_all
    then show ?thesis using c by blast
  qed
qed

text \<open>An action that only says things, none of which is an epoch switch or a change of the pending
  validators\<close>

definition only_says :: "watchdog \<Rightarrow> watchdog \<Rightarrow> bool" where
  "only_says w w' \<longleftrightarrow> (\<exists>rs. w' = says w rs \<and> harmless rs)"

lemma only_says_refl [simp]: "only_says w w"
  unfolding only_says_def by (rule exI [of _ "[]"]) simp

lemma keeping_says: "harmless [r] \<Longrightarrow> keeping (only_says w) (say r)"
  unfolding keeping_def
proof (intro allI impI)
  fix w1 assume r: "harmless [r]" and "only_says w w1"
  then obtain rs where rs: "w1 = says w rs" "harmless rs" by (auto simp: only_says_def)
  have "snd (say r w1) = says w (rs @ [r])" by (simp add: say_def change_def rs(1) says_def)
  then show "only_says w (snd (say r w1))"
    unfolding only_says_def using rs(2) r harmless_simps(7) by blast
qed

lemma says_only:
  "watchConnectivity v w = (r, w') \<Longrightarrow> only_says w w'"
  "plugins_processBlock v b w = (r2, w') \<Longrightarrow> only_says w w'"
proof -
  have c: "keeping (only_says w) (watchConnectivity v)"
    unfolding watchConnectivity_def by (intro keeping_rules keeping_says) (simp_all add: harmless_def)
  show "watchConnectivity v w = (r, w') \<Longrightarrow> only_says w w'" by (rule keepingD [OF c only_says_refl])
  have p: "keeping (only_says w) (plugins_processBlock v b)"
    unfolding plugins_processBlock_def by (intro keeping_rules keeping_says) (simp_all add: harmless_def)
  show "plugins_processBlock v b w = (r2, w') \<Longrightarrow> only_says w w'" by (rule keepingD [OF p only_says_refl])
qed

definition watchAcks :: "chain_view \<Rightarrow> int \<Rightarrow> unit watch" where
  "watchAcks v acks = andThen (look numberOfAcksWritten) (\<lambda>oldAcks.
     if oldAcks \<noteq> acks
     then andThen (look wd_pendingValidators) (\<lambda>pending.
       andThen (call (splitValidators (hasAcks v) pending)) (\<lambda>(yes, no).
       andThen (say (AcksChanged acks yes no)) (\<lambda>_. change (\<lambda>w. w\<lparr>numberOfAcksWritten := acks\<rparr>))))
     else ret ())"

lemma watchAcks_Inr:
  assumes "watchAcks v a w = (Inr u, w')"
  shows "\<exists>rs. w' = says (w\<lparr>numberOfAcksWritten := a\<rparr>) rs \<and> harmless rs"
proof (cases "numberOfAcksWritten w = a")
  case True
  then have "w' = says (w\<lparr>numberOfAcksWritten := a\<rparr>) []" using assms by (auto simp: watchAcks_def round_Inr)
  then show ?thesis using harmless_simps(1) by blast
next
  case False
  then obtain yes no where "w' = says (w\<lparr>numberOfAcksWritten := a\<rparr>) [AcksChanged a yes no]"
    using assms by (auto simp: watchAcks_def round_Inr)
  then show ?thesis using harmless_simps(5) by blast
qed

lemma watchKeyGen_Inr:
  assumes "watchKeyGen v w = (Inr u, w')"
  shows "\<exists>rs p a. v_fragments v = Inr (p, a) \<and>
    w' = says (w\<lparr>numberOfPartsWritten := p, numberOfAcksWritten := a\<rparr>) rs \<and> harmless rs"
proof -
  obtain p a where f: "v_fragments v = Inr (p, a)" using assms by (auto simp: watchKeyGen_def round_Inr)
  obtain rs where rs: "watchAcks v a (says (w\<lparr>numberOfPartsWritten := p\<rparr>) rs) = (Inr u, w')" "harmless rs"
  proof (cases "numberOfPartsWritten w = p")
    case True
    then have "watchAcks v a (says (w\<lparr>numberOfPartsWritten := p\<rparr>) []) = (Inr u, w')"
      using assms f by (auto simp: watchKeyGen_def watchAcks_def round_Inr)
    then show thesis using that harmless_simps(1) by blast
  next
    case False
    then obtain yes no where "watchAcks v a (says (w\<lparr>numberOfPartsWritten := p\<rparr>) [PartsChanged p yes no]) = (Inr u, w')"
      using assms f unfolding watchAcks_def by (auto simp: watchKeyGen_def round_Inr)
    then show thesis using that harmless_simps(4) by blast
  qed
  obtain rs' where "w' = says (w\<lparr>numberOfPartsWritten := p, numberOfAcksWritten := a\<rparr>) (rs @ rs')" "harmless rs'"
    using watchAcks_Inr [OF rs(1)] by auto
  then show ?thesis using f rs(2) harmless_simps(7) by blast
qed

lemma watchFlagged_Inr:
  assumes "watchFlagged v w = (Inr u, w')"
  shows "\<exists>rs f. v_flagged v = Inr f \<and> w' = says (w\<lparr>flaggedValidators := f\<rparr>) rs \<and> harmless rs"
proof -
  obtain f where f: "v_flagged v = Inr f" using assms by (auto simp: watchFlagged_def round_Inr)
  then have "w' = says (w\<lparr>flaggedValidators := f\<rparr>) [] \<or> w' = says (w\<lparr>flaggedValidators := f\<rparr>) [FlaggedSwitched f]"
    using assms by (cases "flaggedValidators w = f") (auto simp: watchFlagged_def round_Inr)
  then show ?thesis using f harmless_simps(1,6) by blast
qed

lemma watchEpoch_Inr:
  "watchEpoch v w = (Inr e, w') \<longleftrightarrow> (\<exists>t d. v_epochStartTime v = Inr t \<and> v_epochDuration v = Inr d \<and> v_epoch v = Inr e \<and>
     w' = w\<lparr>lastEpochSwitchTime := t, epochLengthSetting := d, latestKnownEpochNumber := e\<rparr>)"
  by (auto simp: watchEpoch_def andThen_Inr watch_Inr ret_Inr)

lemma watchEpochSwitch_Inr:
  assumes "watchEpochSwitch v b old new w = (Inr u, w')"
  shows "\<exists>rs. w' = says w rs \<and> notified rs = (if new > old then [new] else []) \<and> (\<forall>x y. PendingSwitched x y \<notin> set rs) \<and>
    (new > old \<longrightarrow> EpochSwitched new b \<in> set rs)"
proof (cases "new > old")
  case True
  then have "w' = says w ((if old \<noteq> 0 \<and> new \<noteq> old + 1 then [StrangeIncrease old new] else []) @ [EpochSwitched new b])"
    using assms
    by (auto simp: watchEpochSwitch_def plugins_processEpochStart_def round_Inr split: if_splits)
  then show ?thesis using True
    by (intro exI [of _ "(if old \<noteq> 0 \<and> new \<noteq> old + 1 then [StrangeIncrease old new] else []) @ [EpochSwitched new b]"]) auto
next
  case False
  then have "w' = says w []" using assms by (simp add: watchEpochSwitch_def ret_Inr)
  then show ?thesis using False by (intro exI [of _ "[]"]) auto
qed

text \<open>What a whole round says about epochs and pending validators, and the state it leaves\<close>

lemma watchBlock_Inr:
  assumes "watchBlock l first v b w = (Inr u, w')"
  shows "latestKnownBlock w' = b \<and> v_epoch v = Inr (latestKnownEpochNumber w') \<and>
    v_epochStartTime v = Inr (lastEpochSwitchTime w') \<and> v_epochDuration v = Inr (epochLengthSetting w') \<and>
    v_earlyEpochEnd v b = Inr (latestEarlyEpochEndFlag w') \<and> v_pending v = Inr (wd_pendingValidators w') \<and>
    v_current v = Inr (wd_currentValidators w') \<and> v_flagged v = Inr (flaggedValidators w') \<and>
    v_fragments v = Inr (numberOfPartsWritten w', numberOfAcksWritten w') \<and>
    (\<exists>rs. reports w' = reports w @ rs \<and>
      notified rs = (if latestKnownEpochNumber w' > latestKnownEpochNumber w then [latestKnownEpochNumber w'] else []) \<and>
      (\<forall>x y. PendingSwitched x y \<in> set rs \<longleftrightarrow> l \<and> wd_pendingValidators w' \<noteq> wd_pendingValidators w \<and>
         (x, y) = createDiffgram (wd_pendingValidators w) (wd_pendingValidators w')))"
proof -
  obtain early w1 e w2 p w3 w4 w5 w6 w7 w8 where
      early: "v_earlyEpochEnd v b = Inr early"
    and 1: "(if early \<noteq> latestEarlyEpochEndFlag w then andThen (say (EarlyEndSwitched early))
         (\<lambda>_. change (\<lambda>w. w\<lparr>latestEarlyEpochEndFlag := early\<rparr>)) else ret ()) (w\<lparr>latestKnownBlock := b\<rparr>) = (Inr (), w1)"
    and 2: "watchEpoch v w1 = (Inr e, w2)" and p: "v_pending v = Inr p"
    and 3: "watchEpochSwitch v b (latestKnownEpochNumber w1) e w2 = (Inr (), w3)"
    and 4: "watchPending l v p w3 = (Inr (), w4)" and 5: "watchCurrent l first v b w4 = (Inr (), w5)"
    and 6: "watchConnectivity v w5 = (Inr (), w6)" and 7: "watchKeyGen v w6 = (Inr (), w7)"
    and 8: "plugins_processBlock v b w7 = (Inr (), w8)" and 9: "watchFlagged v w8 = (Inr u, w')"
    using assms by (auto simp: watchBlock_def andThen_Inr watch_Inr(1-3))
  obtain rs1 where w1: "w1 = says (w\<lparr>latestKnownBlock := b, latestEarlyEpochEndFlag := early\<rparr>) rs1" "harmless rs1"
  proof (cases "early = latestEarlyEpochEndFlag w")
    case True
    then have "w1 = says (w\<lparr>latestKnownBlock := b, latestEarlyEpochEndFlag := early\<rparr>) []" using 1 by (simp add: ret_Inr)
    then show thesis using that harmless_simps(1) by blast
  next
    case False
    then have "w1 = says (w\<lparr>latestKnownBlock := b, latestEarlyEpochEndFlag := early\<rparr>) [EarlyEndSwitched early]"
      using 1 by (simp add: andThen_Inr watch_Inr says_def)
    then show thesis using that by (auto simp: harmless_def)
  qed
  obtain t d where w2: "v_epochStartTime v = Inr t" "v_epochDuration v = Inr d" "v_epoch v = Inr e"
      "w2 = w1\<lparr>lastEpochSwitchTime := t, epochLengthSetting := d, latestKnownEpochNumber := e\<rparr>"
    using 2 by (auto simp: watchEpoch_Inr)
  obtain rs3 where w3: "w3 = says w2 rs3" "notified rs3 = (if e > latestKnownEpochNumber w1 then [e] else [])"
      "\<forall>x y. PendingSwitched x y \<notin> set rs3"
    using watchEpochSwitch_Inr [OF 3] by blast
  note w4 = watchPending_Inr [OF 4]
  obtain c rs5 moc where w5: "v_current v = Inr c" "w5 = says (w4\<lparr>wd_currentValidators := c, mocNode := moc\<rparr>) rs5" "harmless rs5"
    using watchCurrent_Inr [OF 5] by blast
  obtain rs6 where w6: "w6 = says w5 rs6" "harmless rs6" using says_only(1) [OF 6] by (auto simp: only_says_def)
  obtain rs7 pt a where w7: "v_fragments v = Inr (pt, a)"
      "w7 = says (w6\<lparr>numberOfPartsWritten := pt, numberOfAcksWritten := a\<rparr>) rs7" "harmless rs7"
    using watchKeyGen_Inr [OF 7] by blast
  obtain rs8 where w8: "w8 = says w7 rs8" "harmless rs8" using says_only(2) [OF 8] by (auto simp: only_says_def)
  obtain rs9 f where w9: "v_flagged v = Inr f" "w' = says (w8\<lparr>flaggedValidators := f\<rparr>) rs9" "harmless rs9"
    using watchFlagged_Inr [OF 9] by blast
  have e1: "latestKnownEpochNumber w1 = latestKnownEpochNumber w" by (simp add: w1)
  have pend: "wd_pendingValidators w3 = wd_pendingValidators w" by (simp add: w3 w2 w1)
  let ?rs4 = "if l \<and> p \<noteq> wd_pendingValidators w then [pendingReport (wd_pendingValidators w) p] else []"
  let ?rs = "rs1 @ rs3 @ ?rs4 @ rs5 @ rs6 @ rs7 @ rs8 @ rs9"
  have r: "reports w' = reports w @ ?rs"
    by (simp add: w9 w8 w7 w6 w5 w4 w3(1) w2(4) w1(1) says_def)
  have n: "notified ?rs = (if e > latestKnownEpochNumber w then [e] else [])"
    using w1(2) w3(2) w5(3) w6(2) w7(3) w8(2) w9(3) e1
    by (auto simp: harmless_def pendingReport_def split: prod.splits)
  have s: "PendingSwitched x y \<in> set ?rs \<longleftrightarrow> l \<and> p \<noteq> wd_pendingValidators w \<and> (x, y) = createDiffgram (wd_pendingValidators w) p" for x y
    using w1(2) w3(3) w5(3) w6(2) w7(3) w8(2) w9(3)
    by (auto simp: harmless_def pendingReport_def split: prod.splits)
  have fields: "latestKnownBlock w' = b" "latestKnownEpochNumber w' = e" "lastEpochSwitchTime w' = t" "epochLengthSetting w' = d"
    "latestEarlyEpochEndFlag w' = early" "wd_pendingValidators w' = p" "wd_currentValidators w' = c"
    "flaggedValidators w' = f" "numberOfPartsWritten w' = pt" "numberOfAcksWritten w' = a"
    by (simp_all add: w9 w8 w7 w6 w5 w4 w3(1) w2(4) w1(1))
  have ex: "\<exists>rs. reports w' = reports w @ rs \<and> notified rs = (if e > latestKnownEpochNumber w then [e] else []) \<and>
      (\<forall>x y. PendingSwitched x y \<in> set rs \<longleftrightarrow> l \<and> p \<noteq> wd_pendingValidators w \<and>
         (x, y) = createDiffgram (wd_pendingValidators w) p)"
    using r n s by (intro exI [of _ ?rs] conjI allI)
  show ?thesis unfolding fields using early w2(1-3) p w5(1) w7(1) w9(1) ex by blast
qed

section \<open>What the watchdog promises\<close>

text \<open>C10: A round that sees a new block and ends by scheduling the next one has brought everything the
  watchdog knows up to date with the chain; it has called back exactly when the epoch has grown, and has
  reported a change of the pending validators exactly when there was one, with its difference.\<close>

theorem round_brings_watchdog_up_to_date:
  assumes "functionCall logChanges firstNode v w = (Inr ScheduledAgain, w')" "v_blockNumber v = Inr b"
    "b \<noteq> latestKnownBlock w"
  shows "latestKnownBlock w' = b \<and> v_epoch v = Inr (latestKnownEpochNumber w') \<and>
    v_epochStartTime v = Inr (lastEpochSwitchTime w') \<and> v_epochDuration v = Inr (epochLengthSetting w') \<and>
    v_earlyEpochEnd v b = Inr (latestEarlyEpochEndFlag w') \<and> v_pending v = Inr (wd_pendingValidators w') \<and>
    v_current v = Inr (wd_currentValidators w') \<and> v_flagged v = Inr (flaggedValidators w') \<and>
    v_fragments v = Inr (numberOfPartsWritten w', numberOfAcksWritten w') \<and>
    (\<exists>rs. reports w' = reports w @ rs \<and>
      notified rs = (if latestKnownEpochNumber w' > latestKnownEpochNumber w then [latestKnownEpochNumber w'] else []) \<and>
      (\<forall>x y. PendingSwitched x y \<in> set rs \<longleftrightarrow> logChanges \<and> wd_pendingValidators w' \<noteq> wd_pendingValidators w \<and>
         (x, y) = createDiffgram (wd_pendingValidators w) (wd_pendingValidators w')))"
proof -
  have "watchBlock logChanges firstNode v b w = (Inr (), w')"
    using assms by (auto simp: functionCall_def andThen_Inr watch_Inr ret_Inr split: if_splits)
  then show ?thesis by (rule watchBlock_Inr)
qed

definition viewAt :: "int \<Rightarrow> int \<Rightarrow> string list \<Rightarrow> chain_view" where
  "viewAt b e pending = \<lparr>v_blockNumber = Inr b, v_extraTimeWindow = Inr 0, v_earlyEpochEnd = (\<lambda>_. Inr False),
     v_block = (\<lambda>_. Inr ()), v_epochStartTime = Inr 100, v_epochDuration = Inr 43200, v_epoch = Inr e,
     v_pending = Inr pending, v_current = Inr [''0xA''], v_flagged = Inr [], v_epochEnd = Inr (),
     v_keyGenRound = Inr 1, v_missing = Inl (CallFailed ''no events''), v_reconnects = Inr 0,
     v_score = (\<lambda>_ _. Inr 0), v_fragments = Inr (0, 0), v_part = (\<lambda>_. Inr None), v_acksOf = (\<lambda>_. Inr 0),
     v_stakingDiff = Inr (), v_scoreEvents = (\<lambda>_. Inr 0)\<rparr>"

lemma round_brings_watchdog_up_to_date_witness:
  "\<exists>w'. functionCall True (Some ''0xA'') (viewAt 7 3 [''0xB'']) (new_watchdog 0) = (Inr ScheduledAgain, w') \<and>
     latestKnownBlock w' = 7 \<and> latestKnownEpochNumber w' = 3 \<and> wd_pendingValidators w' = [''0xB'']"
proof -
  obtain r w' where f: "functionCall True (Some ''0xA'') (viewAt 7 3 [''0xB'']) (new_watchdog 0) = (r, w')" by fastforce
  have "fst (functionCall True (Some ''0xA'') (viewAt 7 3 [''0xB'']) (new_watchdog 0)) = Inr ScheduledAgain" by code_simp
  then have r: "r = Inr ScheduledAgain" using f by simp
  have "v_blockNumber (viewAt 7 3 [''0xB'']) = Inr 7" "(7 :: int) \<noteq> latestKnownBlock (new_watchdog 0)"
    by (simp_all add: viewAt_def new_watchdog_def)
  from round_brings_watchdog_up_to_date [OF f [unfolded r] this] f r show ?thesis
    by (auto simp: viewAt_def)
qed

text \<open>The epochs that the node answers\<close>

definition epochs_answered :: "chain_view list \<Rightarrow> int list" where
  "epochs_answered vs = [e. v \<leftarrow> vs, e \<leftarrow> (case v_epoch v of Inr e \<Rightarrow> [e] | Inl _ \<Rightarrow> [])]"

text \<open>The epochs called back are in order and none is ahead of what the watchdog knows, which is
  at most \<open>e\<close>.\<close>

definition called_back :: "int \<Rightarrow> watchdog \<Rightarrow> bool" where
  "called_back e w \<longleftrightarrow> sorted_wrt (<) (notified (reports w)) \<and>
     (\<forall>x \<in> set (notified (reports w)). x \<le> latestKnownEpochNumber w) \<and> latestKnownEpochNumber w \<le> e"

lemma indifferent_called_back: "indifferent (called_back e)"
  unfolding indifferent_def called_back_def by auto

lemma keeping_called_back:
  assumes "\<And>w. reports (f w) = reports w \<and> latestKnownEpochNumber (f w) = latestKnownEpochNumber w"
  shows "keeping (called_back e) (change f)"
  using assms by (simp add: keeping_def change_def called_back_def)

lemma called_back_say:
  "notified [r] = [] \<Longrightarrow> keeping (called_back e) (say r)"
  by (simp add: keeping_def say_def change_def called_back_def)

lemma keeping_look_then:
  assumes "\<And>w. I w \<Longrightarrow> I (snd (f (g w) w))"
  shows "keeping I (andThen (look g) f)"
  using assms by (simp add: keeping_def andThen_def look_def)

lemma called_back_epoch:
  assumes "called_back e w" "\<And>x. v_epoch v = Inr x \<Longrightarrow> x = e" "\<And>x. keeping (called_back e) (rest x)"
  shows "called_back e (snd (andThen (watchEpoch v) (\<lambda>newEpoch. andThen (call (v_pending v)) (\<lambda>pending.
     andThen (watchEpochSwitch v b (latestKnownEpochNumber w) newEpoch) (\<lambda>_. rest pending))) w))"
proof -
  obtain r w1 where r: "watchEpoch v w = (r, w1)" by fastforce
  show ?thesis
  proof (cases r)
    case (Inl x)
    have "called_back e w1"
      using r Inl assms(1) by (auto simp: watchEpoch_def andThen_def call_def change_def ret_def called_back_def split: sum.splits)
    then show ?thesis using r Inl by (simp add: andThen_def)
  next
    case (Inr x)
    then obtain t d where w1: "v_epoch v = Inr x" "w1 = w\<lparr>lastEpochSwitchTime := t, epochLengthSetting := d, latestKnownEpochNumber := x\<rparr>"
      using r by (auto simp: watchEpoch_Inr)
    then have x: "x = e" using assms(2) by blast
    have c: "called_back e w1" using assms(1) w1 x by (auto simp: called_back_def)
    show ?thesis
    proof (cases "v_pending v")
      case (Inl y)
      then show ?thesis using r Inr c by (simp add: andThen_def call_def)
    next
      case p: (Inr p)
      obtain s w2 where s: "watchEpochSwitch v b (latestKnownEpochNumber w) x w1 = (s, w2)" by fastforce
      have n: "sorted_wrt (<) (notified (reports w))" "\<forall>y \<in> set (notified (reports w)). y \<le> e"
          "latestKnownEpochNumber w < e \<Longrightarrow> \<forall>y \<in> set (notified (reports w)). y < e"
        using assms(1) unfolding called_back_def by fastforce+
      have "called_back e w2"
        using s n w1 x
        by (auto simp: watchEpochSwitch_def plugins_processEpochStart_def andThen_def call_def say_def change_def ret_def called_back_def
            sorted_wrt_append split: sum.splits prod.splits if_splits)
      then show ?thesis using r Inr p s assms(3) [of p]
        by (cases s) (auto simp: andThen_def call_def keeping_def)
    qed
  qed
qed

lemma keeping_watchCurrent:
  assumes "indifferent I" "keeping I (notifyNodeChanged first b c)" "v_current v = Inr c"
  shows "keeping I (watchCurrent l first v b)"
proof -
  note rules = keeping_rules keeping_change [OF assms(1)] keeping_say [OF assms(1)] assms(2)
  have "keeping I (andThen (look wd_currentValidators) (\<lambda>old.
     if deepEquals c old then ret ()
     else andThen (if l
         then andThen (call (v_keyGenRound v)) (\<lambda>_. andThen (call (v_epochEnd v)) (\<lambda>_.
           say (case createDiffgram old c of (added, removed) \<Rightarrow> CurrentSwitched added removed)))
         else ret ())
       (\<lambda>_. andThen (change (\<lambda>w. w\<lparr>wd_currentValidators := c\<rparr>))
         (\<lambda>_. notifyNodeChanged first b c))))"
    by (intro rules) (auto split: prod.splits)
  then show ?thesis using assms(3) by (simp add: watchCurrent_def keeping_def andThen_def call_def)
qed

lemma keeping_watchCurrent_any:
  assumes "indifferent I" "\<And>c. keeping I (notifyNodeChanged first b c)"
  shows "keeping I (watchCurrent l first v b)"
proof (cases "v_current v")
  case (Inl e)
  then show ?thesis by (simp add: watchCurrent_def keeping_def andThen_def call_def)
qed (use keeping_watchCurrent assms in blast)

lemma called_back_notify: "keeping (called_back e) (notifyNodeChanged first b c)"
  unfolding notifyNodeChanged_def
  by (auto intro!: keeping_rules keeping_called_back called_back_say split: option.split)

lemma functionCall_called_back:
  assumes "called_back e w" "\<And>x. v_epoch v = Inr x \<Longrightarrow> x = e"
  shows "called_back e (snd (functionCall l first v w))"
proof -
  note ind = indifferent_called_back [of e]
  note parts = keeping_parts [OF ind] keeping_watchCurrent_any [OF ind called_back_notify]
  have block: "keeping (called_back e) (watchBlock l first v b)" for b
    unfolding watchBlock_def
    by (intro keeping_rules keeping_called_back keeping_look_then called_back_say called_back_epoch parts)
      (auto simp: assms(2))
  have "keeping (called_back e) (functionCall l first v)"
    unfolding functionCall_def by (intro keeping_rules block)
  then show ?thesis using assms(1) by (simp add: keeping_def)
qed

definition at_latest :: "watchdog \<Rightarrow> bool" where
  "at_latest w \<longleftrightarrow> latestKnownEpochNumber w > 0 \<longrightarrow>
     notified (reports w) \<noteq> [] \<and> last (notified (reports w)) = latestKnownEpochNumber w"

lemma functionCall_at_latest:
  assumes "functionCall l first v w = (Inr x, w')" "at_latest w" "\<And>y. v_epoch v = Inr y \<Longrightarrow> latestKnownEpochNumber w \<le> y"
  shows "at_latest w'"
proof (cases "w' = w")
  case False
  then obtain b where "watchBlock l first v b w = (Inr (), w')"
    using assms(1) by (auto simp: functionCall_def andThen_Inr watch_Inr ret_Inr split: if_splits)
  from watchBlock_Inr [OF this] obtain rs where
    "v_epoch v = Inr (latestKnownEpochNumber w')" "reports w' = reports w @ rs"
    "notified rs = (if latestKnownEpochNumber w' > latestKnownEpochNumber w then [latestKnownEpochNumber w'] else [])"
    by blast
  then show ?thesis using assms(2) assms(3) [of "latestKnownEpochNumber w'"] by (auto simp: at_latest_def)
qed (use assms(2) in simp)

lemma watching_epochs:
  assumes "watching l first vs w = (r, w')" "called_back x w" "at_latest w"
    "sorted (epochs_answered vs)" "\<forall>e \<in> set (epochs_answered vs). x \<le> e"
  shows "sorted_wrt (<) (notified (reports w')) \<and> (\<not> isl r \<longrightarrow> at_latest w')"
  using assms
proof (induction vs arbitrary: w x)
  case Nil
  then show ?case by (auto simp: called_back_def)
next
  case (Cons v vs)
  let ?e = "case v_epoch v of Inr e \<Rightarrow> e | Inl _ \<Rightarrow> x"
  have e: "x \<le> ?e" "\<forall>y \<in> set (epochs_answered vs). ?e \<le> y" "sorted (epochs_answered vs)"
    using Cons.prems(4,5) by (auto simp: epochs_answered_def split: sum.splits)
  have b: "called_back ?e w" using Cons.prems(2) e(1) by (auto simp: called_back_def)
  obtain r1 w1 where f: "functionCall l first v w = (r1, w1)" by fastforce
  have c1: "called_back ?e w1" using functionCall_called_back [OF b, of v l first] f by simp
  have l1: "at_latest w1" if "r1 = Inr y" for y
    by (rule functionCall_at_latest [OF f [unfolded that] Cons.prems(3)])
      (use Cons.prems(2) e(1) in \<open>auto simp: called_back_def\<close>)
  show ?case
  proof (cases r1)
    case (Inl err)
    then show ?thesis using Cons.prems(1) f c1 by (auto simp: called_back_def)
  next
    case (Inr y)
    then show ?thesis using Cons.prems(1) f c1 l1 Cons.IH [OF _ c1 _ e(3,2)]
      by (cases y) (auto simp: called_back_def)
  qed
qed

text \<open>C16: While the epoch of the chain never goes back, each epoch is called back at most once, in order,
  even if a round fails; and as long as no round has failed the last one called back is the current one.\<close>

theorem epoch_switches_called_back_once:
  assumes "startWatching logChanges firstNode vs (new_watchdog now) = (r, w)"
    "sorted (epochs_answered vs)" "\<forall>e \<in> set (epochs_answered vs). 0 \<le> e"
  shows "sorted_wrt (<) (notified (reports w)) \<and>
    (\<not> isl r \<longrightarrow> latestKnownEpochNumber w > 0 \<longrightarrow>
       notified (reports w) \<noteq> [] \<and> last (notified (reports w)) = latestKnownEpochNumber w)"
proof -
  have "called_back 0 (new_watchdog now\<lparr>stopSignal := False\<rparr>)" "at_latest (new_watchdog now\<lparr>stopSignal := False\<rparr>)"
    by (simp_all add: called_back_def at_latest_def new_watchdog_def)
  from watching_epochs [OF assms(1) [unfolded startWatching_def] this assms(2,3)] show ?thesis
    by (simp add: at_latest_def)
qed

lemma epoch_switches_called_back_once_witness:
  "\<exists>r w. startWatching False None [viewAt 7 3 [], viewAt 8 3 [], viewAt 9 4 []] (new_watchdog 0) = (r, w) \<and>
     sorted_wrt (<) (notified (reports w)) \<and> notified (reports w) = [3, 4]"
proof -
  let ?vs = "[viewAt 7 3 [], viewAt 8 3 [], viewAt 9 4 []]"
  obtain r w where run: "startWatching False None ?vs (new_watchdog 0) = (r, w)" by fastforce
  have "epochs_answered ?vs = [3, 3, 4]" by code_simp
  then have "sorted (epochs_answered ?vs)" "\<forall>e \<in> set (epochs_answered ?vs). 0 \<le> e" by simp_all
  from epoch_switches_called_back_once [OF run this] have "sorted_wrt (<) (notified (reports w))" by blast
  moreover have "notified (reports (snd (startWatching False None ?vs (new_watchdog 0)))) = [3, 4]" by code_simp
  ultimately show ?thesis using run by auto
qed

text \<open>The heads that the node answers\<close>

definition heads_answered :: "chain_view list \<Rightarrow> int list" where
  "heads_answered vs = [b. v \<leftarrow> vs, b \<leftarrow> (case v_blockNumber v of Inr b \<Rightarrow> [b] | Inl _ \<Rightarrow> [])]"

definition no_moc :: "watchdog \<Rightarrow> bool" where
  "no_moc w \<longleftrightarrow> mocNode w = None \<and> MocDeactivated \<notin> set (reports w)"

lemma indifferent_no_moc: "indifferent no_moc"
  by (auto simp: indifferent_def no_moc_def)

lemma no_moc_block:
  assumes "b \<noteq> 0"
  shows "keeping no_moc (watchBlock l first v b)"
proof -
  note ind = indifferent_no_moc
  have n: "keeping no_moc (notifyNodeChanged first b c)" for c
    using assms by (simp add: keeping_def notifyNodeChanged_def andThen_def look_def ret_def no_moc_def)
  have c: "(\<And>w. mocNode (f w) = mocNode w \<and> reports (f w) = reports w) \<Longrightarrow> keeping no_moc (change f)" for f
    by (simp add: keeping_def change_def no_moc_def)
  have s: "r \<noteq> MocDeactivated \<Longrightarrow> keeping no_moc (say r)" for r
    by (auto simp: keeping_def say_def change_def no_moc_def)
  show ?thesis
    unfolding watchBlock_def watchEpoch_def watchEpochSwitch_def
    by (intro keeping_rules c s keeping_parts [OF ind] keeping_watchCurrent_any [OF ind n]) simp_all
qed

lemma watching_no_moc:
  assumes "watching l first vs w = (r, w')" "no_moc w" "sorted (heads_answered vs)" "\<forall>b \<in> set (heads_answered vs). 0 \<le> b"
    "latestKnownBlock w = 0 \<or> (\<forall>b \<in> set (heads_answered vs). b \<noteq> 0)"
  shows "no_moc w'"
  using assms
proof (induction vs arbitrary: w)
  case (Cons v vs)
  obtain r1 w1 where f: "functionCall l first v w = (r1, w1)" by fastforce
  show ?case
  proof (cases "v_blockNumber v")
    case (Inl e)
    then have "w1 = w \<and> (r1 = Inl e \<or> r1 = Inr Stopped)"
      using f by (auto simp: functionCall_def andThen_def look_def call_def ret_def split: if_splits)
    then show ?thesis using Cons.prems f by auto
  next
    case (Inr b)
    have h: "heads_answered (v # vs) = b # heads_answered vs" by (simp add: heads_answered_def Inr)
    have quiet: "no_moc w1 \<and> (w1 = w \<or> b \<noteq> 0)"
    proof (cases "w1 = w")
      case False
      then have b: "b \<noteq> latestKnownBlock w"
        using f Inr by (auto simp: functionCall_def andThen_def look_def call_def ret_def split: if_splits)
      then have "b \<noteq> 0" using Cons.prems(5) h by auto
      moreover have "keeping no_moc (andThen (watchBlock l first v b) (\<lambda>_. ret ScheduledAgain))"
        by (intro keeping_rules no_moc_block calculation)
      then have "no_moc w1" using f Inr Cons.prems(2)
        by (auto simp: functionCall_def andThen_def look_def call_def ret_def keeping_def split: if_splits sum.splits prod.splits)
      ultimately show ?thesis by blast
    qed (use Cons.prems(2) in simp)
    have next1: "latestKnownBlock w1 = 0 \<or> (\<forall>b \<in> set (heads_answered vs). b \<noteq> 0)"
    proof (cases "w1 = w")
      case True
      then show ?thesis using Cons.prems(5) h by auto
    next
      case False
      then have "b \<noteq> 0" using quiet by blast
      then have "\<forall>x \<in> set (heads_answered vs). 0 < x" using Cons.prems(3,4) h by fastforce
      then show ?thesis by fastforce
    qed
    have "no_moc w1" using quiet by blast
    then show ?thesis using Cons.prems(1,3,4) f h next1 Cons.IH [of w1]
      by (cases r1) (auto split: next_round.splits)
  qed
qed simp

text \<open>The first node is remembered only in a round at block 0, but a watchdog starts with block 0 as the
  latest known one, so that such a round ends before: the node that is to be shut down once others took over
  is never known and never deactivated, as long as the head of the chain does not go back.\<close>

theorem first_node_is_never_deactivated:
  assumes "startWatching logChanges firstNode vs (new_watchdog now) = (r, w)"
    "sorted (heads_answered vs)" "\<forall>b \<in> set (heads_answered vs). 0 \<le> b"
  shows "mocNode w = None \<and> MocDeactivated \<notin> set (reports w)"
  using watching_no_moc [OF assms(1) [unfolded startWatching_def] _ assms(2,3)]
  by (simp add: no_moc_def new_watchdog_def)

lemma first_node_is_never_deactivated_witness:
  "\<exists>r w. startWatching True (Some ''0xC'') [viewAt 0 0 [], viewAt 1 0 [], viewAt 2 1 [''0xB'']] (new_watchdog 0) = (r, w) \<and>
     mocNode w = None"
proof -
  let ?vs = "[viewAt 0 0 [], viewAt 1 0 [], viewAt 2 1 [''0xB'']]"
  obtain r w where run: "startWatching True (Some ''0xC'') ?vs (new_watchdog 0) = (r, w)" by fastforce
  have "heads_answered ?vs = [0, 1, 2]" by code_simp
  then have "sorted (heads_answered ?vs)" "\<forall>b \<in> set (heads_answered ?vs). 0 \<le> b" by simp_all
  from first_node_is_never_deactivated [OF run this] run show ?thesis by blast
qed

section \<open>Restarts of a node\<close>

text \<open>Checks one after the other: the time, what the contracts answer, and the latest known block at it. The
  result lists the restarts that are ordered.\<close>

fun checks :: "bool \<Rightarrow> (int \<times> int \<times> pool_view) list \<Rightarrow> watchdog \<Rightarrow> (string \<times> int \<times> int) list" where
  "checks order [] w = []"
| "checks order ((now, block, v) # cs) w =
     (case checkValidaterState order now v (w\<lparr>latestKnownBlock := block\<rparr>) of
        (Inr (Some pool), w1) \<Rightarrow> (pool, now, block) # checks order cs w1
      | (_, w1) \<Rightarrow> checks order cs w1)"

lemma checkValidaterState_cases:
  assumes "checkValidaterState order now v w = (r, w')"
  shows "(\<exists>pool. r = Inr (Some pool) \<and> \<not> recently_restarted now pool w \<and>
      w' = w\<lparr>latestpoolRestarts := (latestpoolRestarts w)(pool \<mapsto> now),
         latestpoolRestartBlockNumber := (latestpoolRestartBlockNumber w)(pool \<mapsto> latestKnownBlock w)\<rparr>) \<or>
    (\<forall>pool. r \<noteq> Inr (Some pool)) \<and> w' = w"
proof -
  have k: "keeping (\<lambda>x. x = w) (restartWanted order now v)"
    unfolding restartWanted_def
    by (intro keeping_rules) (auto intro!: keeping_rules split: option.split)
  obtain q w1 where q: "restartWanted order now v w = (q, w1)" by fastforce
  have w1: "w1 = w" using keepingD [OF k _ q] by simp
  show ?thesis
  proof (cases "\<exists>pool. q = Inr (Some pool)")
    case True
    then obtain pool where "restartWanted order now v w = (Inr (Some pool), w)" using q w1 by auto
    then have "\<not> recently_restarted now pool w"
      by (auto simp: restartWanted_def andThen_Inr watch_Inr ret_Inr split: option.splits if_splits)
    moreover have "r = Inr (Some pool) \<and> w' = w\<lparr>latestpoolRestarts := (latestpoolRestarts w)(pool \<mapsto> now),
         latestpoolRestartBlockNumber := (latestpoolRestartBlockNumber w)(pool \<mapsto> latestKnownBlock w)\<rparr>"
      using assms \<open>restartWanted order now v w = (Inr (Some pool), w)\<close>
      by (simp add: checkValidaterState_def andThen_def change_def ret_def)
    ultimately show ?thesis by blast
  next
    case False
    then have "(\<forall>pool. r \<noteq> Inr (Some pool)) \<and> w' = w" using assms q w1
      by (cases q) (auto simp: checkValidaterState_def andThen_def ret_def split: option.splits)
    then show ?thesis by blast
  qed
qed

definition remembers :: "watchdog \<Rightarrow> string \<Rightarrow> (int \<times> int) option \<Rightarrow> bool" where
  "remembers w pool x \<longleftrightarrow> (case x of None \<Rightarrow> True | Some (t, b) \<Rightarrow>
     latestpoolRestarts w pool = Some t \<and> latestpoolRestartBlockNumber w pool = Some b \<and> t \<noteq> 0)"

text \<open>Consecutive restarts of a pool, the first one after \<open>x\<close>\<close>

fun spaced :: "(int \<times> int) option \<Rightarrow> (int \<times> int) list \<Rightarrow> bool" where
  "spaced x [] = True"
| "spaced x ((t, b) # rs) = ((case x of None \<Rightarrow> True | Some (t0, b0) \<Rightarrow> t - t0 \<ge> 60000 \<and> b \<noteq> b0) \<and> spaced (Some (t, b)) rs)"

definition restartsOf :: "string \<Rightarrow> (string \<times> int \<times> int) list \<Rightarrow> (int \<times> int) list" where
  "restartsOf pool rs = map snd (filter (\<lambda>r. fst r = pool) rs)"

lemma checks_spaced:
  assumes "remembers w pool x" "\<forall>c \<in> set cs. fst c > 0"
  shows "spaced x (restartsOf pool (checks order cs w))"
  using assms
proof (induction cs arbitrary: w x)
  case (Cons c cs)
  obtain now block v where c: "c = (now, block, v)" by (cases c) auto
  let ?w = "w\<lparr>latestKnownBlock := block\<rparr>"
  obtain r w1 where ch: "checkValidaterState order now v ?w = (r, w1)" by fastforce
  from checkValidaterState_cases [OF ch] consider
      (restart) p where "r = Inr (Some p)" "\<not> recently_restarted now p ?w"
        "w1 = ?w\<lparr>latestpoolRestarts := (latestpoolRestarts ?w)(p \<mapsto> now),
           latestpoolRestartBlockNumber := (latestpoolRestartBlockNumber ?w)(p \<mapsto> latestKnownBlock ?w)\<rparr>"
    | (none) "\<forall>p. r \<noteq> Inr (Some p)" "w1 = ?w"
    by blast
  then show ?case
  proof cases
    case (restart p)
    show ?thesis
    proof (cases "p = pool")
      case True
      have "remembers w1 pool (Some (now, block))" using Cons.prems(2) restart(3) True c by (simp add: remembers_def)
      moreover have "case x of None \<Rightarrow> True | Some (t0, b0) \<Rightarrow> now - t0 \<ge> 60000 \<and> block \<noteq> b0"
        using restart(2) Cons.prems(1) True by (auto simp: recently_restarted_def remembers_def split: option.splits)
      ultimately show ?thesis using ch restart(1) True c Cons.IH [of w1 "Some (now, block)"] Cons.prems(2)
        by (simp add: restartsOf_def)
    next
      case False
      have "remembers w1 pool x" using Cons.prems(1) restart(3) False by (simp add: remembers_def split: option.splits prod.splits)
      then show ?thesis using ch restart(1) False c Cons.IH [of w1 x] Cons.prems(2) by (simp add: restartsOf_def)
    qed
  next
    case none
    have "remembers w1 pool x" using Cons.prems(1) none(2) by (simp add: remembers_def split: option.splits prod.splits)
    then have "spaced x (restartsOf pool (checks order cs w1))" using Cons.IH Cons.prems(2) by simp
    moreover have "checks order (c # cs) w = checks order cs w1"
      using ch none(1) c by (auto split: sum.splits option.splits)
    ultimately show ?thesis by simp
  qed
qed (simp add: restartsOf_def)

text \<open>Checks that run one after the other order a restart of a pool's node only if its last one is at
  least a minute ago and a block has been seen since.\<close>

theorem pool_restarts_are_spaced:
  assumes "\<forall>c \<in> set cs. fst c > 0"
  shows "spaced None (restartsOf pool (checks orderManageNodes cs (new_watchdog began)))"
  by (rule checks_spaced [OF _ assms]) (simp add: remembers_def)

definition deadPool :: pool_view where
  "deadPool = \<lparr>p_poolAddress = Inr (Some ''0xP''), p_active = Inr False, p_stake = Inr 5, p_stakeOnMining = Inr 0,
     p_minStake = Inr 1, p_availableSince = Inr 0\<rparr>"

lemma pool_restarts_are_spaced_witness:
  "spaced None (restartsOf ''0xP'' (checks True [(1, 1, deadPool), (9, 2, deadPool), (60001, 2, deadPool)] (new_watchdog 0))) \<and>
   restartsOf ''0xP'' (checks True [(1, 1, deadPool), (9, 2, deadPool), (60001, 2, deadPool)] (new_watchdog 0)) = [(1, 1), (60001, 2)]"
proof
  show "restartsOf ''0xP'' (checks True [(1, 1, deadPool), (9, 2, deadPool), (60001, 2, deadPool)] (new_watchdog 0)) =
      [(1, 1), (60001, 2)]"
    by code_simp
  show "spaced None (restartsOf ''0xP'' (checks True [(1, 1, deadPool), (9, 2, deadPool), (60001, 2, deadPool)] (new_watchdog 0)))"
    by (rule pool_restarts_are_spaced) simp
qed

text \<open>A restart that clears the data looks for directories whose path ends the name of the node with a
  closing brace. As no such directory exists, it fails after the node was stopped: the node stays down.\<close>

theorem clearing_restart_leaves_node_down:
  assumes "node_run False (new_NodeState i key addr) n" "stop_begin False n = Inr (c, n1)"
    "childProcess n = Some p" "p \<in> running n" "\<forall>f \<in> fs. CHR ''}'' \<notin> set f"
  shows "restartStopped True nodesDir fs (close p n1) = Inl (Thrown ''ENOENT'') \<and> running (close p n1) = {}"
proof -
  have o: "orderly n" using node_run_orderly [OF assms(1) orderly_new] .
  have "orderly n1" "running n1 = {p}" using orderly_stop [OF assms(2) o] running_only(1) [OF o assms(4)] by simp_all
  then have "p \<in> running n1" by simp
  have down: "isShuttingDown n1" using orderly_stop [OF assms(2) o] by blast
  have "running (close p n1) = {}"
    using \<open>orderly n1\<close> \<open>p \<in> running n1\<close>
  proof (cases rule: close_cases)
    case (down ls ex)
    then show ?thesis using running_kill [of p n1] \<open>running n1 = {p}\<close> by (simp add: running_def)
  qed (use down in simp_all)
  moreover have "getNodeDirAbsolute nodesDir k @ d \<notin> fs" for k d
    using assms(5) by (auto simp: getNodeDirAbsolute_def)
  ultimately show ?thesis by (simp add: restartStopped_def clearDBLocal_def rmdirSync_def Let_def)
qed

lemma clearing_restart_leaves_node_down_witness:
  "\<exists>c n1. stop_begin False startedNode = Inr (c, n1) \<and>
     restartStopped True ''nodes'' {''nodes/node1/data/cache''} (close 0 n1) = Inl (Thrown ''ENOENT'')"
proof -
  have p: "childProcess startedNode = Some 0" "0 \<in> running startedNode" "isStarted startedNode"
    by (simp_all add: startedNode_def spawn_def new_NodeState_def startNodeBase_def running_def)
  then obtain c n1 where s: "stop_begin False startedNode = Inr (c, n1)" by (auto simp: stop_begin_def)
  have "\<forall>f \<in> {''nodes/node1/data/cache''}. CHR ''}'' \<notin> set f" by simp
  from clearing_restart_leaves_node_down [OF startedNode_run s p(1,2) this] s show ?thesis by blast
qed

end
