(* ===== verification/KeyGenStates.thy ===== *)
theory KeyGenStates imports JavaScript "HOL-Library.Multiset" begin

text \<open>
  The analysis of past key generations: src/src/analysis/getKeyGenStates.ts. It walks the blocks of an
  epoch backwards from its last one until no validator is pending, and makes a result for each key
  generation round, in which every pending validator is classified by the mode the contract reports. The
  answers of the node are the record \<open>keygen_chain\<close>; the walk may not end, so it is a partial function.
\<close>

section \<open>Data\<close>

datatype KeyGenMode =
    NotAPendingValidator | WritePart | WaitForOtherParts | WriteAck | WaitForOtherAcks | AllKeysDone
  | UnknownMode nat

record transaction =
  tx_hash :: string
  tx_from :: string
  tx_input :: string

record KeyGenRoundResult =
  Epoch :: int
  KeyGenRound :: int
  RoundStartBlock :: int
  RoundEndBlock :: int
  RoundStartTime :: int
  RoundEndTime :: int
  AcksWritten :: "string list"
  AcksMissedOut :: "string list"
  PartsWritten :: "string list"
  PartsMissedOut :: "string list"
  FoundACKTXInFinalBlock :: "transaction list"
  FoundACKTXInFinalBlockValidators :: "string list"

record KeyGenEpochResult =
  EpochStartBlock :: int
  EpochEndBlock :: int
  KeyGenRounds :: "KeyGenRoundResult list"

definition new_round :: KeyGenRoundResult where
  "new_round = \<lparr>Epoch = 0, KeyGenRound = 0, RoundStartBlock = 0, RoundEndBlock = 0, RoundStartTime = 0,
     RoundEndTime = 0, AcksWritten = [], AcksMissedOut = [], PartsWritten = [], PartsMissedOut = [],
     FoundACKTXInFinalBlock = [], FoundACKTXInFinalBlockValidators = []\<rparr>"

definition Success :: "KeyGenRoundResult \<Rightarrow> bool" where
  "Success r \<longleftrightarrow> AcksMissedOut r = [] \<and> PartsMissedOut r = []"

record keygen_chain =
  kg_epochStart :: "int \<Rightarrow> int result"
  kg_epoch :: "int \<Rightarrow> int result"
  kg_round :: "int \<Rightarrow> int result"
  kg_pending :: "int \<Rightarrow> string list result"
  kg_mode :: "string \<Rightarrow> int \<Rightarrow> KeyGenMode result"
  kg_timestamp :: "int \<Rightarrow> int result"
  kg_transactions :: "int \<Rightarrow> transaction list result"

section \<open>Classifying the validators of a round\<close>

text \<open>The first transaction of the validator that writes acknowledgements\<close>

definition ackTransaction :: "string \<Rightarrow> transaction list \<Rightarrow> transaction option" where
  "ackTransaction validator txs = find (\<lambda>tx. tx_from tx = validator \<and> startsWith (tx_input tx) ''0x5623208e'') txs"

text \<open>The cases of the switch; its second case \<open>WaitForOtherAcks\<close> is never reached.\<close>

fun classify :: "transaction list \<Rightarrow> string \<Rightarrow> KeyGenMode \<Rightarrow> KeyGenRoundResult \<Rightarrow> KeyGenRoundResult result" where
  "classify txs v NotAPendingValidator r = Inr r"
| "classify txs v AllKeysDone r = Inr (r\<lparr>PartsWritten := PartsWritten r @ [v], AcksWritten := AcksWritten r @ [v]\<rparr>)"
| "classify txs v WaitForOtherAcks r = Inr (r\<lparr>PartsWritten := PartsWritten r @ [v], AcksWritten := AcksWritten r @ [v]\<rparr>)"
| "classify txs v WaitForOtherParts r = Inr (r\<lparr>PartsWritten := PartsWritten r @ [v]\<rparr>)"
| "classify txs v WritePart r =
     Inr (r\<lparr>PartsMissedOut := PartsMissedOut r @ [v], AcksMissedOut := AcksMissedOut r @ [v]\<rparr>)"
| "classify txs v WriteAck r =
     Inr (case ackTransaction v txs of
         Some tx \<Rightarrow> r\<lparr>PartsWritten := PartsWritten r @ [v], AcksWritten := AcksWritten r @ [v],
           FoundACKTXInFinalBlockValidators := FoundACKTXInFinalBlockValidators r @ [v],
           FoundACKTXInFinalBlock := FoundACKTXInFinalBlock r @ [tx]\<rparr>
       | None \<Rightarrow> r\<lparr>PartsWritten := PartsWritten r @ [v], AcksMissedOut := AcksMissedOut r @ [v]\<rparr>)"
| "classify txs v (UnknownMode n) r = Inl (Thrown ''unexpected state'')"

definition classifyAll ::
    "keygen_chain \<Rightarrow> int \<Rightarrow> transaction list \<Rightarrow> string list \<Rightarrow> KeyGenRoundResult \<Rightarrow> KeyGenRoundResult result" where
  "classifyAll c b txs validators r = forM validators (\<lambda>v r. await (kg_mode c v b) (\<lambda>m. classify txs v m r)) r"

section \<open>The walk\<close>

definition MAX_SAFE_INTEGER :: int where "MAX_SAFE_INTEGER = 9007199254740991"

text \<open>The state of the walk: the rounds before the current one, the current one, and whether it is in
  the list of the epoch's rounds. It is changed after it was put there.\<close>

record walk =
  finished :: "KeyGenRoundResult list"
  current :: KeyGenRoundResult
  listed :: bool
  pendingNow :: "string list"

definition rounds :: "walk \<Rightarrow> KeyGenRoundResult list" where
  "rounds s = finished s @ (if listed s then [current s] else [])"

definition startOfRound :: "int \<Rightarrow> int \<Rightarrow> int \<Rightarrow> KeyGenRoundResult \<Rightarrow> KeyGenRoundResult" where
  "startOfRound keyGenRound b t r = r\<lparr>KeyGenRound := (if KeyGenRound r = MAX_SAFE_INTEGER then keyGenRound else KeyGenRound r),
     RoundStartBlock := b, RoundStartTime := t * 1000\<rparr>"

text \<open>The body of the loop for block \<open>b\<close>\<close>

definition walkBlock :: "keygen_chain \<Rightarrow> int \<Rightarrow> int \<Rightarrow> walk \<Rightarrow> walk result" where
  "walkBlock c epoch b s =
     await (kg_round c b) (\<lambda>keyGenRound.
     await (kg_pending c b) (\<lambda>pending.
     if keyGenRound < KeyGenRound (current s) then
       await (kg_timestamp c b) (\<lambda>t.
       await (kg_transactions c b) (\<lambda>txs.
       let old = startOfRound keyGenRound b t (current s)
       in await (classifyAll c b txs pending
           (new_round\<lparr>KeyGenRound := keyGenRound, RoundEndBlock := b, RoundEndTime := t * 1000, Epoch := epoch\<rparr>)) (\<lambda>r.
         Inr \<lparr>finished = finished s @ (if listed s then [old] else []), current = r, listed = True, pendingNow = pending\<rparr>)))
     else if pending = [] then
       await (kg_timestamp c b) (\<lambda>t.
       Inr (s\<lparr>current := (current s)\<lparr>RoundStartBlock := b + 1, RoundStartTime := t * 1000\<rparr>, pendingNow := pending\<rparr>))
     else Inr (s\<lparr>pendingNow := pending\<rparr>)))"

partial_function (option) walkBack :: "keygen_chain \<Rightarrow> int \<Rightarrow> int \<Rightarrow> walk \<Rightarrow> walk result option" where
  "walkBack c epoch b s = (case walkBlock c epoch b s of
     Inl e \<Rightarrow> Some (Inl e)
   | Inr s1 \<Rightarrow> if pendingNow s1 \<noteq> [] then walkBack c epoch (b - 1) s1 else Some (Inr s1))"

definition firstWalk :: "int \<Rightarrow> int \<Rightarrow> string list \<Rightarrow> walk" where
  "firstWalk epoch b pending = \<lparr>finished = [],
     current = new_round\<lparr>Epoch := epoch, KeyGenRound := MAX_SAFE_INTEGER, RoundEndBlock := b\<rparr>,
     listed = False, pendingNow = pending\<rparr>"

definition processEpoch :: "keygen_chain \<Rightarrow> int \<Rightarrow> int \<Rightarrow> KeyGenEpochResult result option" where
  "processEpoch c epoch endBlock =
     (case await (kg_epochStart c endBlock) (\<lambda>st. await (kg_pending c endBlock) (\<lambda>p. Inr (st, p))) of
        Inl e \<Rightarrow> Some (Inl e)
      | Inr (st, p) \<Rightarrow> (case walkBack c epoch endBlock (firstWalk epoch endBlock p) of
          None \<Rightarrow> None
        | Some (Inl e) \<Rightarrow> Some (Inl e)
        | Some (Inr s) \<Rightarrow> Some (Inr \<lparr>EpochStartBlock = st, EpochEndBlock = endBlock, KeyGenRounds = rounds s\<rparr>)))"

text \<open>The epochs before the current one: the loop body runs at least once.\<close>

function processEpochs ::
    "keygen_chain \<Rightarrow> int \<Rightarrow> int \<Rightarrow> int \<Rightarrow> KeyGenEpochResult list result option" where
  "processEpochs c epoch b stopAtEpoch =
     (case processEpoch c epoch b of
        None \<Rightarrow> None
      | Some (Inl e) \<Rightarrow> Some (Inl e)
      | Some (Inr r) \<Rightarrow>
          if epoch - 1 > stopAtEpoch
          then (case processEpochs c (epoch - 1) (EpochStartBlock r - 1) stopAtEpoch of
              None \<Rightarrow> None | Some (Inl e) \<Rightarrow> Some (Inl e) | Some (Inr rs) \<Rightarrow> Some (Inr (r # rs)))
          else Some (Inr [r]))"
  by pat_completeness auto
termination
  by (relation "measure (\<lambda>(c, epoch, b, stopAt). nat (epoch - stopAt))") auto

declare processEpochs.simps [simp del]

definition getKeyGenStates ::
    "keygen_chain \<Rightarrow> int \<Rightarrow> int \<Rightarrow> (KeyGenEpochResult list \<times> KeyGenRoundResult list) result option" where
  "getKeyGenStates c countOfEpochs block =
     (case await (kg_epoch c block) (\<lambda>e. await (kg_epochStart c block) (\<lambda>st. Inr (e, st))) of
        Inl e \<Rightarrow> Some (Inl e)
      | Inr (epoch, thisStart) \<Rightarrow>
          (case processEpochs c (epoch - 1) (thisStart - 1) (epoch - 1 - countOfEpochs) of
             None \<Rightarrow> None
           | Some (Inl e) \<Rightarrow> Some (Inl e)
           | Some (Inr rs) \<Rightarrow> Some (Inr (rs, concat (map KeyGenRounds rs)))))"

section \<open>Every validator is classified once\<close>

definition has_part :: "KeyGenMode \<Rightarrow> bool" where
  "has_part m \<longleftrightarrow> m \<in> {AllKeysDone, WaitForOtherAcks, WaitForOtherParts, WriteAck}"

definition has_ack :: "transaction list \<Rightarrow> string \<Rightarrow> KeyGenMode \<Rightarrow> bool" where
  "has_ack txs v m \<longleftrightarrow> m \<in> {AllKeysDone, WaitForOtherAcks} \<or> m = WriteAck \<and> ackTransaction v txs \<noteq> None"

definition misses_ack :: "transaction list \<Rightarrow> string \<Rightarrow> KeyGenMode \<Rightarrow> bool" where
  "misses_ack txs v m \<longleftrightarrow> m = WritePart \<or> m = WriteAck \<and> ackTransaction v txs = None"

lemma classify_lists:
  assumes "classify txs v m r = Inr r'"
  shows "PartsWritten r' = PartsWritten r @ (if has_part m then [v] else []) \<and>
    PartsMissedOut r' = PartsMissedOut r @ (if m = WritePart then [v] else []) \<and>
    AcksWritten r' = AcksWritten r @ (if has_ack txs v m then [v] else []) \<and>
    AcksMissedOut r' = AcksMissedOut r @ (if misses_ack txs v m then [v] else []) \<and>
    KeyGenRound r' = KeyGenRound r \<and> RoundEndBlock r' = RoundEndBlock r \<and> Epoch r' = Epoch r \<and>
    RoundStartBlock r' = RoundStartBlock r"
  using assms
  by (cases m) (auto simp: has_part_def has_ack_def misses_ack_def split: option.splits)

lemma classifyAll_lists:
  assumes "classifyAll c b txs vs r = Inr r'" "\<forall>v \<in> set vs. kg_mode c v b = Inr (mode v)"
  shows "PartsWritten r' = PartsWritten r @ filter (\<lambda>v. has_part (mode v)) vs \<and>
    PartsMissedOut r' = PartsMissedOut r @ filter (\<lambda>v. mode v = WritePart) vs \<and>
    AcksWritten r' = AcksWritten r @ filter (\<lambda>v. has_ack txs v (mode v)) vs \<and>
    AcksMissedOut r' = AcksMissedOut r @ filter (\<lambda>v. misses_ack txs v (mode v)) vs \<and>
    KeyGenRound r' = KeyGenRound r \<and> RoundEndBlock r' = RoundEndBlock r \<and> Epoch r' = Epoch r \<and>
    RoundStartBlock r' = RoundStartBlock r"
  using assms unfolding classifyAll_def
proof (induction vs arbitrary: r)
  case (Cons v vs)
  then obtain r1 where r1: "classify txs v (mode v) r = Inr r1"
      "forM vs (\<lambda>v r. await (kg_mode c v b) (\<lambda>m. classify txs v m r)) r1 = Inr r'"
    by (auto simp: result_simps)
  from Cons.IH [OF r1(2)] Cons.prems(2) classify_lists [OF r1(1)] show ?case by simp
qed simp

section \<open>The rounds that the walk finds\<close>

text \<open>A block that many before the last one ends a round when all blocks after it belong to later rounds.\<close>

definition low :: "(int \<Rightarrow> int) \<Rightarrow> int \<Rightarrow> nat \<Rightarrow> bool" where
  "low rd e k \<longleftrightarrow> (\<forall>j < k. rd (e - int k) < rd (e - int j))"

definition roundEnds :: "(int \<Rightarrow> int) \<Rightarrow> int \<Rightarrow> nat \<Rightarrow> int list" where
  "roundEnds rd e n = map (\<lambda>k. e - int k) (filter (low rd e) [0..<n])"

lemma roundEnds_Suc: "roundEnds rd e (Suc n) = roundEnds rd e n @ (if low rd e n then [e - int n] else [])"
  by (simp add: roundEnds_def)

text \<open>What the node answers when it never fails\<close>

definition answers :: "keygen_chain \<Rightarrow> (int \<Rightarrow> int) \<Rightarrow> (int \<Rightarrow> string list) \<Rightarrow> (string \<Rightarrow> int \<Rightarrow> KeyGenMode) \<Rightarrow>
    (int \<Rightarrow> transaction list) \<Rightarrow> bool" where
  "answers c rd pend mode txs \<longleftrightarrow> (\<forall>b. kg_round c b = Inr (rd b) \<and> kg_pending c b = Inr (pend b) \<and>
     kg_transactions c b = Inr (txs b) \<and> (\<exists>t. kg_timestamp c b = Inr t) \<and> rd b < MAX_SAFE_INTEGER) \<and>
     (\<forall>v b. kg_mode c v b = Inr (mode v b) \<and> \<not> (\<exists>n. mode v b = UnknownMode n))"

text \<open>The classification of the validators pending at the end of a round\<close>

definition classified :: "(int \<Rightarrow> string list) \<Rightarrow> (string \<Rightarrow> int \<Rightarrow> KeyGenMode) \<Rightarrow> (int \<Rightarrow> transaction list) \<Rightarrow>
    KeyGenRoundResult \<Rightarrow> bool" where
  "classified pend mode txs r \<longleftrightarrow> (let b = RoundEndBlock r in
     PartsWritten r = filter (\<lambda>v. has_part (mode v b)) (pend b) \<and>
     PartsMissedOut r = filter (\<lambda>v. mode v b = WritePart) (pend b) \<and>
     AcksWritten r = filter (\<lambda>v. has_ack (txs b) v (mode v b)) (pend b) \<and>
     AcksMissedOut r = filter (\<lambda>v. misses_ack (txs b) v (mode v b)) (pend b))"

text \<open>Each round is said to start at the block at which the round before it ended.\<close>

fun chained :: "KeyGenRoundResult list \<Rightarrow> bool" where
  "chained (r # q # rs) = (RoundStartBlock r = RoundEndBlock q \<and> chained (q # rs))"
| "chained rs = True"

lemma chained_snoc: "chained (rs @ [r]) \<Longrightarrow> RoundStartBlock r = RoundEndBlock q \<Longrightarrow> chained ((rs @ [r]) @ [q])"
  by (induction rs rule: chained.induct) auto

lemma chained_last:
  "chained (rs @ [r]) \<Longrightarrow> RoundEndBlock r' = RoundEndBlock r \<Longrightarrow> chained (rs @ [r'])"
  by (induction rs rule: chained.induct) auto

definition walked where
  "walked rd pend mode txs e k s \<longleftrightarrow>
     map (\<lambda>r. (KeyGenRound r, RoundEndBlock r)) (rounds s) = map (\<lambda>b. (rd b, b)) (roundEnds rd e k) \<and>
     (\<forall>j < k. KeyGenRound (current s) \<le> rd (e - int j)) \<and>
     (if k = 0 then KeyGenRound (current s) = MAX_SAFE_INTEGER \<and> finished s = []
      else KeyGenRound (current s) \<in> (\<lambda>j. rd (e - int j)) ` {..<k}) \<and>
     (listed s \<longleftrightarrow> k > 0) \<and> (\<forall>r \<in> set (rounds s). classified pend mode txs r) \<and> chained (rounds s)"

lemma classifyAll_total:
  assumes "answers c rd pend mode txs"
  shows "\<exists>r'. classifyAll c b ts vs r = Inr r'"
proof -
  have "\<exists>r'. classify ts v (mode v b) r = Inr r'" for v r
    using assms by (cases "mode v b") (auto simp: answers_def)
  then have "\<exists>r'. classifyAll c b ts vs r = Inr r' \<and> True"
    unfolding classifyAll_def using assms by (intro forM_total) (auto simp: answers_def)
  then show ?thesis by blast
qed

lemma walked_rounds:
  "listed s \<Longrightarrow> rounds s = finished s @ [current s]" "\<not> listed s \<Longrightarrow> rounds s = finished s"
  by (simp_all add: rounds_def)

lemma walkBlock_walked:
  assumes a: "answers c rd pend mode txs" and w: "walked rd pend mode txs e k s"
  shows "\<exists>s'. walkBlock c epoch (e - int k) s = Inr s' \<and> walked rd pend mode txs e (Suc k) s' \<and>
    pendingNow s' = pend (e - int k)"
proof -
  let ?b = "e - int k"
  obtain t where t: "kg_timestamp c ?b = Inr t" using a unfolding answers_def by blast
  have ans: "kg_round c ?b = Inr (rd ?b)" "kg_pending c ?b = Inr (pend ?b)" "kg_transactions c ?b = Inr (txs ?b)"
    "rd ?b < MAX_SAFE_INTEGER" using a by (auto simp: answers_def)
  have lowk: "low rd e k \<longleftrightarrow> rd ?b < KeyGenRound (current s)"
    using w ans(4) by (cases "k = 0") (auto simp: low_def walked_def)
  show ?thesis
  proof (cases "rd ?b < KeyGenRound (current s)")
    case True
    let ?old = "startOfRound (rd ?b) ?b t (current s)"
    let ?new = "new_round\<lparr>KeyGenRound := rd ?b, RoundEndBlock := ?b, RoundEndTime := t * 1000, Epoch := epoch\<rparr>"
    obtain r where r: "classifyAll c ?b (txs ?b) (pend ?b) ?new = Inr r" using classifyAll_total [OF a] by blast
    have lists: "KeyGenRound r = rd ?b" "RoundEndBlock r = ?b" "classified pend mode txs r"
      using classifyAll_lists [OF r, of "\<lambda>v. mode v ?b"] a by (simp_all add: answers_def classified_def Let_def new_round_def)
    let ?s = "\<lparr>finished = finished s @ (if listed s then [?old] else []), current = r, listed = True, pendingNow = pend ?b\<rparr>"
    have wb: "walkBlock c epoch ?b s = Inr ?s" using ans t r True by (simp add: walkBlock_def Let_def)
    have old: "KeyGenRound ?old = KeyGenRound (current s)" if l: "listed s"
    proof -
      have "k \<noteq> 0" using w l by (simp add: walked_def)
      then obtain j where "KeyGenRound (current s) = rd (e - int j)" using w by (auto simp: walked_def)
      moreover have "rd (e - int j) < MAX_SAFE_INTEGER" using a by (auto simp: answers_def)
      ultimately show ?thesis by (simp add: startOfRound_def)
    qed
    have "chained (rounds ?s)"
    proof (cases "listed s")
      case True
      have "chained (rounds s)" using w unfolding walked_def by blast
      then have "chained (finished s @ [current s])" by (simp add: walked_rounds True)
      then have "chained (finished s @ [?old])" by (rule chained_last) (simp add: startOfRound_def)
      then show ?thesis using True chained_snoc [of "finished s" ?old r] lists(2)
        by (simp add: walked_rounds startOfRound_def)
    next
      case False
      then have "finished s = []" using w by (auto simp: walked_def split: if_splits)
      then show ?thesis using False by (simp add: walked_rounds)
    qed
    moreover have "map (\<lambda>r. (KeyGenRound r, RoundEndBlock r)) (rounds ?s) = map (\<lambda>b. (rd b, b)) (roundEnds rd e (Suc k))"
      using w True lists old lowk by (cases "listed s") (auto simp: walked_def walked_rounds roundEnds_Suc startOfRound_def)
    moreover have "\<forall>x \<in> set (rounds ?s). classified pend mode txs x"
      using w lists(3) by (cases "listed s") (auto simp: walked_def walked_rounds classified_def startOfRound_def Let_def)
    moreover have "\<forall>j < Suc k. rd ?b \<le> rd (e - int j)"
      using lowk True by (auto simp: low_def less_Suc_eq less_imp_le)
    moreover have "rd ?b \<in> (\<lambda>j. rd (e - int j)) ` {..<Suc k}" by (rule image_eqI [of _ _ k]) simp_all
    ultimately have "walked rd pend mode txs e (Suc k) ?s" using lists(1) by (simp add: walked_def)
    then show ?thesis using wb by auto
  next
    case False
    then have k: "k > 0" "listed s" using w ans(4) by (auto simp: walked_def split: if_splits)
    obtain cur where cur: "walkBlock c epoch ?b s = Inr (s\<lparr>current := cur, pendingNow := pend ?b\<rparr>)"
      "KeyGenRound cur = KeyGenRound (current s)" "RoundEndBlock cur = RoundEndBlock (current s)"
      "classified pend mode txs cur = classified pend mode txs (current s)"
    proof (cases "pend ?b = []")
      case True
      then show thesis using that [of "(current s)\<lparr>RoundStartBlock := ?b + 1, RoundStartTime := t * 1000\<rparr>"] ans t False
        by (simp add: walkBlock_def classified_def)
    next
      case more: False
      then show thesis using that [of "current s"] ans False by (simp add: walkBlock_def)
    qed
    let ?s = "s\<lparr>current := cur, pendingNow := pend ?b\<rparr>"
    have "chained (rounds ?s)"
      using w k cur(3) by (auto simp: walked_def walked_rounds intro: chained_last)
    moreover have "map (\<lambda>r. (KeyGenRound r, RoundEndBlock r)) (rounds ?s) = map (\<lambda>b. (rd b, b)) (roundEnds rd e (Suc k))"
      using w k lowk False cur(2,3) by (simp add: walked_def walked_rounds roundEnds_Suc)
    moreover have "\<forall>x \<in> set (rounds ?s). classified pend mode txs x"
      using w k cur(4) by (auto simp: walked_def walked_rounds)
    moreover have "\<forall>j < Suc k. KeyGenRound cur \<le> rd (e - int j)"
      using w False cur(2) by (auto simp: walked_def less_Suc_eq)
    moreover have "KeyGenRound cur \<in> (\<lambda>j. rd (e - int j)) ` {..<Suc k}"
      using w k cur(2) by (auto simp: walked_def lessThan_Suc)
    ultimately have "walked rd pend mode txs e (Suc k) ?s" using k by (simp add: walked_def)
    then show ?thesis using cur(1) by auto
  qed
qed

lemma walkBack_walked:
  assumes "answers c rd pend mode txs" "walked rd pend mode txs e k s" "k \<le> n"
    "pend (e - int n) = []" "\<forall>j < n. pend (e - int j) \<noteq> []"
  shows "\<exists>s'. walkBack c epoch (e - int k) s = Some (Inr s') \<and> walked rd pend mode txs e (Suc n) s'"
  using assms(2,3)
proof (induction "n - k" arbitrary: k s)
  case 0
  then have "k = n" by simp
  then show ?case using walkBlock_walked [OF assms(1) 0(2), of epoch] assms(4) by (auto simp: walkBack.simps)
next
  case (Suc m)
  then have k: "k < n" by simp
  obtain s1 where s1: "walkBlock c epoch (e - int k) s = Inr s1" "walked rd pend mode txs e (Suc k) s1"
      "pendingNow s1 = pend (e - int k)"
    using walkBlock_walked [OF assms(1) Suc.prems(1)] by blast
  have "walkBack c epoch (e - int k) s = walkBack c epoch (e - int (Suc k)) s1"
    using s1(1,3) assms(5) k by (subst walkBack.simps) (simp add: algebra_simps)
  then show ?case using Suc.hyps(1) [of "Suc k" s1] Suc.hyps(2) s1(2) k by simp
qed

text \<open>C14: When some block at or before the last one of the epoch has no pending validators, the analysis
  ends and finds one round for each block after which all blocks belong to later rounds, in order, with the
  round of that block; each pending validator of the block is classified by its mode, and each round is said
  to start at the block at which the one before it ended, so that neighbouring rounds share a block.\<close>

theorem processEpoch_finds_rounds:
  assumes "answers c rd pend mode txs" "kg_epochStart c e = Inr st" "pend (e - int n) = []"
    "\<forall>j < n. pend (e - int j) \<noteq> []"
  shows "\<exists>r. processEpoch c epoch e = Some (Inr r) \<and> EpochStartBlock r = st \<and> EpochEndBlock r = e \<and>
    map (\<lambda>x. (KeyGenRound x, RoundEndBlock x)) (KeyGenRounds r) = map (\<lambda>b. (rd b, b)) (roundEnds rd e (Suc n)) \<and>
    (\<forall>x \<in> set (KeyGenRounds r). classified pend mode txs x) \<and> chained (KeyGenRounds r)"
proof -
  have "walked rd pend mode txs e 0 (firstWalk epoch e (pend e))"
    by (simp add: walked_def firstWalk_def rounds_def roundEnds_def new_round_def)
  from walkBack_walked [OF assms(1) this, of n epoch] assms(3,4) obtain s where
    s: "walkBack c epoch e (firstWalk epoch e (pend e)) = Some (Inr s)" "walked rd pend mode txs e (Suc n) s"
    by auto
  have "kg_pending c e = Inr (pend e)" using assms(1) by (simp add: answers_def)
  then have "processEpoch c epoch e = Some (Inr \<lparr>EpochStartBlock = st, EpochEndBlock = e, KeyGenRounds = rounds s\<rparr>)"
    using s(1) assms(2) by (simp add: processEpoch_def)
  then show ?thesis using s(2) by (simp add: walked_def)
qed

text \<open>An epoch with two rounds at the blocks 7 and 8; the first one failed because B did not write its part.\<close>

definition twoRounds :: keygen_chain where
  "twoRounds = \<lparr>kg_epochStart = (\<lambda>_. Inr 1), kg_epoch = (\<lambda>_. Inr 2), kg_round = (\<lambda>b. Inr (if b \<ge> 8 then 2 else 1)),
     kg_pending = (\<lambda>b. Inr (if b \<ge> 8 then [''A''] else if b = 7 then [''A'', ''B''] else [])),
     kg_mode = (\<lambda>v b. Inr (if v = ''B'' then WritePart else AllKeysDone)), kg_timestamp = (\<lambda>b. Inr (5 * b)),
     kg_transactions = (\<lambda>_. Inr [])\<rparr>"

lemma processEpoch_finds_rounds_witness:
  "\<exists>r. processEpoch twoRounds 1 8 = Some (Inr r) \<and> map (\<lambda>x. (KeyGenRound x, RoundEndBlock x)) (KeyGenRounds r) = [(2, 8), (1, 7)]"
proof -
  let ?rd = "\<lambda>b :: int. if b \<ge> 8 then 2 else 1 :: int"
  let ?pend = "\<lambda>b :: int. if b \<ge> 8 then [''A''] else if b = 7 then [''A'', ''B''] else []"
  let ?mode = "\<lambda>v (b :: int). if v = ''B'' then WritePart else AllKeysDone"
  have a: "answers twoRounds ?rd ?pend ?mode (\<lambda>_. [])"
    by (simp add: answers_def twoRounds_def MAX_SAFE_INTEGER_def)
  have st: "kg_epochStart twoRounds 8 = Inr 1" by (simp add: twoRounds_def)
  have p: "?pend (8 - int 2) = []" "\<forall>j < 2. ?pend (8 - int j) \<noteq> []" by auto
  have lo: "roundEnds ?rd 8 (Suc 2) = [8, 7]"
    by (simp add: roundEnds_def low_def upt_rec numeral_2_eq_2 less_Suc_eq)
  from processEpoch_finds_rounds [OF a st p, of 1] show ?thesis unfolding lo by auto
qed

text \<open>In the result of a round every pending validator whose mode is known is once among those that
  wrote their part or once among those that did not, and likewise for the acknowledgements unless it waits
  for the parts of others.\<close>

theorem validators_classified_once:
  assumes "classifyAll c b txs vs new_round = Inr r" "\<forall>v \<in> set vs. kg_mode c v b = Inr (mode v)"
  shows "mset (PartsWritten r) + mset (PartsMissedOut r) = {#v \<in># mset vs. mode v \<noteq> NotAPendingValidator#} \<and>
    mset (AcksWritten r) + mset (AcksMissedOut r) =
      {#v \<in># mset vs. mode v \<notin> {NotAPendingValidator, WaitForOtherParts}#} \<and>
    (Success r \<longleftrightarrow> (\<forall>v \<in> set vs. \<not> misses_ack txs v (mode v)))"
proof -
  note l = classifyAll_lists [OF assms]
  have known: "mode v \<noteq> UnknownMode k" if "v \<in> set vs" for v k
  proof
    assume "mode v = UnknownMode k"
    obtain xs ys where "vs = xs @ v # ys" using split_list [OF \<open>v \<in> set vs\<close>] by blast
    then show False using assms \<open>mode v = UnknownMode k\<close> by (auto simp: classifyAll_def forM_append result_simps)
  qed
  have split: "mset (filter P vs) + mset (filter Q vs) = {#v \<in># mset vs. R v#}"
    if "\<And>v. v \<in> set vs \<Longrightarrow> \<not> (P v \<and> Q v)" "\<And>v. v \<in> set vs \<Longrightarrow> P v \<or> Q v \<longleftrightarrow> R v" for P Q R
  proof -
    have "mset (filter P vs) + mset (filter Q vs) = {#v \<in># mset vs. P v \<or> Q v#}"
      using that(1) by (induction vs) auto
    also have "\<dots> = {#v \<in># mset vs. R v#}" using that(2) by (intro filter_mset_cong) auto
    finally show ?thesis .
  qed
  have m: "mode v \<in> {NotAPendingValidator, WritePart, WaitForOtherParts, WriteAck, WaitForOtherAcks, AllKeysDone}"
    if "v \<in> set vs" for v using known [OF that] by (cases "mode v") auto
  have lists: "PartsWritten r = filter (\<lambda>v. has_part (mode v)) vs" "PartsMissedOut r = filter (\<lambda>v. mode v = WritePart) vs"
      "AcksWritten r = filter (\<lambda>v. has_ack txs v (mode v)) vs" "AcksMissedOut r = filter (\<lambda>v. misses_ack txs v (mode v)) vs"
    using l by (simp_all add: new_round_def)
  have "mset (PartsWritten r) + mset (PartsMissedOut r) = {#v \<in># mset vs. mode v \<noteq> NotAPendingValidator#}"
    unfolding lists by (rule split; drule m; force simp: has_part_def)
  moreover have "mset (AcksWritten r) + mset (AcksMissedOut r) =
      {#v \<in># mset vs. mode v \<notin> {NotAPendingValidator, WaitForOtherParts}#}"
    unfolding lists by (rule split; drule m; force simp: has_ack_def misses_ack_def)
  moreover have "Success r \<longleftrightarrow> (\<forall>v \<in> set vs. \<not> misses_ack txs v (mode v))"
    unfolding Success_def lists filter_empty_conv by (auto simp: misses_ack_def)
  ultimately show ?thesis by blast
qed

lemma validators_classified_once_witness:
  "\<exists>r. classifyAll twoRounds 7 [] [''A'', ''B''] new_round = Inr r \<and> \<not> Success r"
proof -
  obtain r where r: "classifyAll twoRounds 7 [] [''A'', ''B''] new_round = Inr r"
    by (simp add: classifyAll_def twoRounds_def)
  have m: "\<forall>v \<in> set [''A'', ''B'']. kg_mode twoRounds v 7 = Inr (if v = ''B'' then WritePart else AllKeysDone)"
    by (simp add: twoRounds_def)
  from validators_classified_once [OF r m] r show ?thesis by (auto simp: misses_ack_def)
qed

end
