(* ===== verification/Config.thy ===== *)
theory Config imports NodeManager begin

text \<open>
  The configuration: src/src/configManager.ts, the checks of src/src/utils/shellSafe.ts, and the commands
  for remote nodes that are built from it (src/src/remotenet/startRemoteNode.ts, stopRemoteNode.ts,
  src/src/remoteCommand.ts). The state is what the module keeps: the configuration object, which the code
  changes in place, and the two static fields of \<open>ConfigManager\<close>. The command line, the environment and
  the mnemonic file are parameters.
\<close>

section \<open>Checks of values for a shell\<close>

definition code :: "char \<Rightarrow> nat" where
  "code c = of_char c"

definition is_alnum :: "char \<Rightarrow> bool" where
  "is_alnum c \<longleftrightarrow> 65 \<le> code c \<and> code c \<le> 90 \<or> 97 \<le> code c \<and> code c \<le> 122 \<or> 48 \<le> code c \<and> code c \<le> 57"

definition SSH_HOST_RE :: "string \<Rightarrow> bool" where
  "SSH_HOST_RE s \<longleftrightarrow> (case s of [] \<Rightarrow> False
     | c # cs \<Rightarrow> is_alnum c \<and> (\<forall>x \<in> set cs. is_alnum x \<or> x \<in> set ''._@-''))"

definition SAFE_ARG_RE :: "string \<Rightarrow> bool" where
  "SAFE_ARG_RE s \<longleftrightarrow> (case s of [] \<Rightarrow> False
     | c # cs \<Rightarrow> is_alnum c \<and> (\<forall>x \<in> set cs. is_alnum x \<or> x \<in> set ''._:/@=+-''))"

definition assertValidSshHost :: "string \<Rightarrow> string result" where
  "assertValidSshHost host = (if SSH_HOST_RE host then Inr host else Inl (Thrown ''Invalid ssh host''))"

text \<open>A value that is missing is not a string.\<close>

definition assertShellSafe :: "string option \<Rightarrow> string result" where
  "assertShellSafe v = (case v of Some s \<Rightarrow> if SAFE_ARG_RE s then Inr s else Inl (Thrown ''Refusing to build remote command'')
     | None \<Rightarrow> Inl (Thrown ''Refusing to build remote command''))"

section \<open>The configuration\<close>

record network_builder =
  nodeArgs :: "string list option"

record network_config =
  nc_name :: string
  rpc :: string
  nc_db :: string
  nodesDir :: string
  installDir :: "string option"
  rpcSSH :: string
  rpcLocalInstallDir :: string
  nc_claimingPotAddress :: string
  nodeRepoAlias :: "string option"
  nc_nodeRepoUrl :: "string option"
  nc_nodeBranch :: "string option"
  nc_nodeBuildScript :: "string option"
  rustVersion :: "string option"
  diamondNodedDeadlockDetection :: bool
  builder :: "network_builder option"

record test_config =
  tc_network :: string
  networkGitRepo :: string
  networkGitRepoBranch :: string
  nodeRepoUrl :: "string option"
  nodeProfile :: string
  nodeBranch :: "string option"
  nodeBuildScript :: "string option"
  mnemonic :: "string option"
  mnemonicAccountIndex :: nat
  defaultNodeArgs :: "string list option"
  networks :: "network_config list"

record config_state =
  config :: test_config
  cm_network :: string
  configInitialized :: bool
  mnemonicFile :: "(string \<times> nat) option"

text \<open>\<open>mnemonicFile\<close> is the content and the permissions of the file \<open>.mnemonic\<close>.\<close>

record environment =
  cliNetwork :: "string option"
  RPC_URL :: "string option"
  POSTGRES_INSTANCE :: "string option"
  processCwd :: string

definition setNetwork :: "string \<Rightarrow> config_state \<Rightarrow> config_state" where
  "setNetwork n s = s\<lparr>cm_network := n\<rparr>"

text \<open>Permissions of the group and of others: the last six bits.\<close>

definition restrict_mode :: "nat \<Rightarrow> nat" where
  "restrict_mode m = (if m mod 64 \<noteq> 0 then 384 else m)"

definition cliOverride :: "environment \<Rightarrow> config_state \<Rightarrow> config_state" where
  "cliOverride env s = (case truthy (cliNetwork env) of
     Some n \<Rightarrow> if configInitialized s then s
       else s\<lparr>configInitialized := True, cm_network := n, config := (config s)\<lparr>tc_network := n\<rparr>\<rparr>
   | None \<Rightarrow> s)"

definition networkOverride :: "config_state \<Rightarrow> config_state" where
  "networkOverride s = (if cm_network s \<noteq> [] then s\<lparr>config := (config s)\<lparr>tc_network := cm_network s\<rparr>\<rparr> else s)"

definition getConfig :: "environment \<Rightarrow> config_state \<Rightarrow> test_config \<times> config_state" where
  "getConfig env s0 =
     (let s = cliOverride env s0 in
      case truthy (mnemonic (config s)) of
        Some _ \<Rightarrow> (let s1 = networkOverride s in (config s1, s1))
      | None \<Rightarrow> (case mnemonicFile s of
            None \<Rightarrow> (config s, s)
          | Some (content, mode) \<Rightarrow>
              (let s1 = networkOverride (s\<lparr>mnemonicFile := Some (content, restrict_mode mode),
                   config := (config s)\<lparr>mnemonic := Some content\<rparr>\<rparr>) in (config s1, s1))))"

definition override_network :: "environment \<Rightarrow> test_config \<Rightarrow> network_config \<Rightarrow> network_config" where
  "override_network env c n =
     (let n1 = (case truthy (RPC_URL env) of Some u \<Rightarrow> n\<lparr>rpc := u\<rparr> | None \<Rightarrow> n);
          n2 = (case truthy (POSTGRES_INSTANCE env) of Some d \<Rightarrow> n1\<lparr>nc_db := d\<rparr> | None \<Rightarrow> n1)
      in case builder n2 of
           Some b \<Rightarrow> if nodeArgs b = None then n2\<lparr>builder := Some (b\<lparr>nodeArgs := defaultNodeArgs c\<rparr>)\<rparr> else n2
         | None \<Rightarrow> n2)"

text \<open>The first network with the name; it is changed in place.\<close>

fun findNetwork :: "(network_config \<Rightarrow> network_config) \<Rightarrow> string \<Rightarrow> network_config list \<Rightarrow>
    (network_config \<times> network_config list) option" where
  "findNetwork f name [] = None"
| "findNetwork f name (n # ns) =
     (if nc_name n = name then Some (f n, f n # ns)
      else map_option (\<lambda>(x, ns'). (x, n # ns')) (findNetwork f name ns))"

definition getNetworkConfig :: "environment \<Rightarrow> string option \<Rightarrow> config_state \<Rightarrow> network_config result \<times> config_state" where
  "getNetworkConfig env networkName s0 =
     (case getConfig env s0 of (c, s) \<Rightarrow>
      case findNetwork (override_network env c) (case networkName of Some n \<Rightarrow> n | None \<Rightarrow> tc_network c) (networks c) of
        None \<Rightarrow> (Inl (Thrown ''Network not found in config file.''), s)
      | Some (n, ns) \<Rightarrow> (Inr n, s\<lparr>config := c\<lparr>networks := ns\<rparr>\<rparr>))"

section \<open>Values read from it\<close>

text \<open>Reading a value of the network's configuration\<close>

definition of_network :: "environment \<Rightarrow> string option \<Rightarrow> (network_config \<Rightarrow> 'a result) \<Rightarrow> config_state \<Rightarrow>
    'a result \<times> config_state" where
  "of_network env name f s = (case getNetworkConfig env name s of (Inl e, s1) \<Rightarrow> (Inl e, s1) | (Inr n, s1) \<Rightarrow> (f n, s1))"

definition getBuildFromSourceScript :: "environment \<Rightarrow> config_state \<Rightarrow> string result \<times> config_state" where
  "getBuildFromSourceScript env s = (case getNetworkConfig env None s of
     (Inl e, s1) \<Rightarrow> (Inl e, s1)
   | (Inr n, s1) \<Rightarrow> (case nc_nodeBuildScript n of
        Some b \<Rightarrow> (Inr b, s1)
      | None \<Rightarrow> (case getConfig env s1 of (c, s2) \<Rightarrow>
          (Inr (case nodeBuildScript c of Some b \<Rightarrow> b | None \<Rightarrow> ''build-from-source.sh''), s2))))"

definition chainName :: "string \<Rightarrow> string" where
  "chainName name = (if startsWith name ''nodes-'' then drop 6 name else name)"

definition getChainName :: "environment \<Rightarrow> string option \<Rightarrow> config_state \<Rightarrow> string result \<times> config_state" where
  "getChainName env name = of_network env name (\<lambda>n. Inr (chainName (nc_name n)))"

definition getRustVersion :: "environment \<Rightarrow> config_state \<Rightarrow> string option result \<times> config_state" where
  "getRustVersion env = of_network env None (\<lambda>n. Inr (rustVersion n))"

definition getDiamondNodeDeadlockDetection :: "environment \<Rightarrow> config_state \<Rightarrow> bool result \<times> config_state" where
  "getDiamondNodeDeadlockDetection env = of_network env None (\<lambda>n. Inr (diamondNodedDeadlockDetection n))"

definition getNetworkRepo :: "environment \<Rightarrow> config_state \<Rightarrow> string \<times> config_state" where
  "getNetworkRepo env s = (case getConfig env s of (c, s1) \<Rightarrow> (networkGitRepo c, s1))"

definition getNetworkBranch :: "environment \<Rightarrow> config_state \<Rightarrow> string \<times> config_state" where
  "getNetworkBranch env s = (case getConfig env s of (c, s1) \<Rightarrow> (networkGitRepoBranch c, s1))"

definition getNodeRepoAlias :: "environment \<Rightarrow> config_state \<Rightarrow> string result \<times> config_state" where
  "getNodeRepoAlias env = of_network env None (\<lambda>n. case truthy (nodeRepoAlias n) of
     Some a \<Rightarrow> assertShellSafe (Some a) | None \<Rightarrow> Inr ''origin'')"

definition getNodeRepoUrl :: "environment \<Rightarrow> config_state \<Rightarrow> string result \<times> config_state" where
  "getNodeRepoUrl env s = (case getNetworkConfig env None s of
     (Inl e, s1) \<Rightarrow> (Inl e, s1)
   | (Inr n, s1) \<Rightarrow> (case truthy (nc_nodeRepoUrl n) of
        Some u \<Rightarrow> (assertShellSafe (Some u), s1)
      | None \<Rightarrow> (case getConfig env s1 of (c, s2) \<Rightarrow> (assertShellSafe (nodeRepoUrl c), s2))))"

text \<open>The branch of the module's configuration object is read directly.\<close>

definition getNodeBranch :: "environment \<Rightarrow> config_state \<Rightarrow> string result \<times> config_state" where
  "getNodeBranch env s = (case getNetworkConfig env None s of
     (Inl e, s1) \<Rightarrow> (Inl e, s1)
   | (Inr n, s1) \<Rightarrow> (case truthy (nc_nodeBranch n) of
        Some b \<Rightarrow> (assertShellSafe (Some b), s1)
      | None \<Rightarrow> (assertShellSafe (nodeBranch (config s1)), s1)))"

definition getRemoteScreenName :: "environment \<Rightarrow> config_state \<Rightarrow> string result \<times> config_state" where
  "getRemoteScreenName env s = (case getChainName env None s of
     (Inl e, s1) \<Rightarrow> (Inl e, s1) | (Inr n, s1) \<Rightarrow> (assertShellSafe (Some n), s1))"

definition getRemoteInstallDir :: "environment \<Rightarrow> config_state \<Rightarrow> string result \<times> config_state" where
  "getRemoteInstallDir env = of_network env None (\<lambda>n. assertShellSafe (installDir n))"

definition getLocalTargetNetworkFSDir :: "environment \<Rightarrow> string option \<Rightarrow> config_state \<Rightarrow> string result \<times> config_state" where
  "getLocalTargetNetworkFSDir env name = of_network env name (\<lambda>n. Inr (''testnet/'' @ nodesDir n))"

definition getTargetNetwork :: "environment \<Rightarrow> config_state \<Rightarrow> string \<times> config_state" where
  "getTargetNetwork env s = (case getConfig env s of (c, s1) \<Rightarrow> (tc_network c, s1))"

definition getNodesDir :: "environment \<Rightarrow> string option \<Rightarrow> config_state \<Rightarrow> string result \<times> config_state" where
  "getNodesDir env name = of_network env name (\<lambda>n. Inr (nodesDir n))"

definition getNodesDirBase :: "environment \<Rightarrow> string" where
  "getNodesDirBase env = processCwd env @ ''/testnet/''"

definition getNodesDirAbsolut :: "environment \<Rightarrow> string option \<Rightarrow> config_state \<Rightarrow> string result \<times> config_state" where
  "getNodesDirAbsolut env name = of_network env name (\<lambda>n. Inr (processCwd env @ ''/testnet/'' @ nodesDir n))"

definition getRpcSSH :: "environment \<Rightarrow> config_state \<Rightarrow> string result \<times> config_state" where
  "getRpcSSH env = of_network env None (\<lambda>n. Inr (rpcSSH n))"

definition getRpcLocalInstallDir :: "environment \<Rightarrow> config_state \<Rightarrow> string result \<times> config_state" where
  "getRpcLocalInstallDir env = of_network env None (\<lambda>n. Inr (rpcLocalInstallDir n))"

text \<open>\<open>insertWallets\<close>: the addresses of the wallet that were there are looked at once, before the loop.\<close>

fun insertPairs :: "string list \<Rightarrow> (string \<times> string) list \<Rightarrow> (string \<times> string) list \<Rightarrow>
    (string \<times> string) list \<times> (string \<times> string) list" where
  "insertPairs known [] wallet = ([], wallet)"
| "insertPairs known (p # ps) wallet =
     (if fst p \<in> set known then insertPairs known ps wallet
      else (case insertPairs known ps (wallet @ [p]) of (added, w) \<Rightarrow> (p # added, w)))"

definition insertWallets :: "(string \<times> string) list \<Rightarrow> (string \<times> string) list \<Rightarrow>
    (string \<times> string) list \<times> (string \<times> string) list" where
  "insertWallets addressPairs wallet = insertPairs (map fst wallet) addressPairs wallet"

section \<open>Commands for remote nodes\<close>

text \<open>\<open>cmdR\<close> runs \<open>ssh\<close> with these arguments; \<open>exec\<close> is what the process answers.\<close>

definition cmdR :: "(string list \<Rightarrow> string result) \<Rightarrow> string \<Rightarrow> string \<Rightarrow> bool \<Rightarrow> string result" where
  "cmdR exec hostSSH command ignoreErrors = await (assertValidSshHost hostSSH) (\<lambda>h.
     case exec [''-t'', ''-o'', ''LogLevel=QUIET'', h, command] of
       Inr txt \<Rightarrow> Inr txt
     | Inl e \<Rightarrow> if ignoreErrors then Inr [] else Inl e)"

definition startCommand :: "string \<Rightarrow> string \<Rightarrow> string" where
  "startCommand dir screen =
     ''cd '' @ dir @ '' && screen -S '' @ screen @ '' -d -m ~/'' @ dir @ ''/start.sh''"

definition stopCommand :: "string \<Rightarrow> string" where
  "stopCommand screen = ''screen -X -S '' @ screen @ '' quit''"

text \<open>The part of a string that is searched for\<close>

definition occursIn :: "string \<Rightarrow> string \<Rightarrow> bool" where
  "occursIn t s \<longleftrightarrow> sublist t s"

text \<open>\<open>startRemoteNode\<close>: an error of the first command, or of the name of the screen in it, is ignored.\<close>

definition startRemoteNode :: "environment \<Rightarrow> (string list \<Rightarrow> string result) \<Rightarrow> node_state \<Rightarrow> config_state \<Rightarrow>
    string result \<times> config_state" where
  "startRemoteNode env exec node s =
     (case getRemoteInstallDir env s of (Inl e, s1) \<Rightarrow> (Inl e, s1) | (Inr dir, s1) \<Rightarrow>
      let screens = cmdR exec (sshNodeName node) ''screen -ls'' True in
      case getRemoteScreenName env s1 of (name, s2) \<Rightarrow>
        if (\<exists>txt n. screens = Inr txt \<and> name = Inr n \<and> occursIn n txt) then (Inr [], s2)
        else (await name (\<lambda>n. cmdR exec (sshNodeName node) (startCommand dir n) False), s2))"

definition stopRemoteNode :: "environment \<Rightarrow> (string list \<Rightarrow> string result) \<Rightarrow> node_state \<Rightarrow> config_state \<Rightarrow>
    unit result \<times> config_state" where
  "stopRemoteNode env exec node s =
     (case getRemoteScreenName env s of
        (Inl e, s1) \<Rightarrow> (Inl e, s1)
      | (Inr n, s1) \<Rightarrow> (Inr (case cmdR exec (sshNodeName node) (stopCommand n) False of _ \<Rightarrow> ()), s1))"

end
