(* ===== verification/ConfigProperties.thy ===== *)
theory ConfigProperties imports Config begin

text \<open>
  What the configuration promises: which network is taken, and that the values put into the commands for
  remote nodes cannot change the words of a command.
\<close>

section \<open>Which network is selected\<close>

text \<open>The name that is searched for when none is given: the one of the command line at its first use, else
  the one that was set, else the one of the file. What was set counts only when a mnemonic is known.\<close>

definition selectedNetwork :: "environment \<Rightarrow> config_state \<Rightarrow> string" where
  "selectedNetwork env s =
     (case truthy (cliNetwork env) of
        Some n \<Rightarrow> if \<not> configInitialized s then n
          else if cm_network s \<noteq> [] \<and> (truthy (mnemonic (config s)) \<noteq> None \<or> mnemonicFile s \<noteq> None) then cm_network s
          else tc_network (config s)
      | None \<Rightarrow>
          if cm_network s \<noteq> [] \<and> (truthy (mnemonic (config s)) \<noteq> None \<or> mnemonicFile s \<noteq> None) then cm_network s
          else tc_network (config s))"

lemma truthy_nonempty: "truthy x = Some y \<Longrightarrow> x = Some y \<and> y \<noteq> []"
  by (auto simp: truthy_def split: option.splits list.splits)

lemma getConfig_networks: "networks (fst (getConfig env s)) = networks (config s)"
  by (auto simp: getConfig_def cliOverride_def networkOverride_def Let_def split: option.splits)

lemma getConfig_network: "tc_network (fst (getConfig env s)) = selectedNetwork env s"
  by (auto simp: getConfig_def cliOverride_def networkOverride_def selectedNetwork_def Let_def
      split: option.splits dest!: truthy_nonempty)

lemma override_simps [simp]:
  "nc_name (override_network env c n) = nc_name n" "installDir (override_network env c n) = installDir n"
  "rpc (override_network env c n) = (case truthy (RPC_URL env) of Some u \<Rightarrow> u | None \<Rightarrow> rpc n)"
  "nc_db (override_network env c n) = (case truthy (POSTGRES_INSTANCE env) of Some d \<Rightarrow> d | None \<Rightarrow> nc_db n)"
  by (auto simp: override_network_def Let_def split: option.splits)

lemma findNetwork_find: "map_option fst (findNetwork f name ns) = map_option f (find (\<lambda>n. nc_name n = name) ns)"
proof (induction ns)
  case (Cons n ns)
  have "map_option fst (map_option (\<lambda>(x, ns'). (x, n # ns')) r) = map_option fst r" for r :: "(network_config \<times> network_config list) option"
    by (cases r) auto
  then show ?case using Cons by simp
qed simp

lemma getNetworkConfig_find:
  "fst (getNetworkConfig env name s) =
     (case find (\<lambda>n. nc_name n = (case name of Some x \<Rightarrow> x | None \<Rightarrow> selectedNetwork env s)) (networks (config s)) of
        None \<Rightarrow> Inl (Thrown ''Network not found in config file.'')
      | Some n \<Rightarrow> Inr (override_network env (fst (getConfig env s)) n))"
proof -
  obtain c s1 where c: "getConfig env s = (c, s1)" by fastforce
  have "networks c = networks (config s)" "tc_network c = selectedNetwork env s"
    using getConfig_networks [of env s] getConfig_network [of env s] c by simp_all
  note c' = c this
  let ?name = "case name of Some x \<Rightarrow> x | None \<Rightarrow> selectedNetwork env s"
  note f = findNetwork_find [of "override_network env c" ?name "networks (config s)"]
  show ?thesis
  proof (cases "find (\<lambda>n. nc_name n = ?name) (networks (config s))")
    case None
    then show ?thesis using f c' by (simp add: getNetworkConfig_def cong: option.case_cong)
  next
    case (Some n)
    then obtain ns where "findNetwork (override_network env c) ?name (networks (config s)) = Some (override_network env c n, ns)"
      using f by auto
    then show ?thesis using Some c' by (simp add: getNetworkConfig_def cong: option.case_cong)
  qed
qed

text \<open>The network is the first one of the file with the name given, else with the name of the command
  line at its first use, else with the name that was set. A name that was set is ignored while no mnemonic
  is known. Addresses of the environment replace those of the network.\<close>

theorem network_is_selected:
  "fst (getNetworkConfig env name s) =
     (case find (\<lambda>n. nc_name n = (case name of Some x \<Rightarrow> x | None \<Rightarrow> selectedNetwork env s)) (networks (config s)) of
        None \<Rightarrow> Inl (Thrown ''Network not found in config file.'')
      | Some n \<Rightarrow> Inr (override_network env (fst (getConfig env s)) n)) \<and>
   tc_network (fst (getConfig env s)) = selectedNetwork env s \<and>
   selectedNetwork env (setNetwork x (s\<lparr>configInitialized := True\<rparr>)) =
     (if x \<noteq> [] \<and> (truthy (mnemonic (config s)) \<noteq> None \<or> mnemonicFile s \<noteq> None) then x else tc_network (config s))"
proof (intro conjI)
  show "selectedNetwork env (setNetwork x (s\<lparr>configInitialized := True\<rparr>)) =
     (if x \<noteq> [] \<and> (truthy (mnemonic (config s)) \<noteq> None \<or> mnemonicFile s \<noteq> None) then x else tc_network (config s))"
    by (cases "truthy (cliNetwork env)"; cases "truthy (mnemonic (config s))"; cases "mnemonicFile s")
      (simp_all add: selectedNetwork_def setNetwork_def)
qed (rule getNetworkConfig_find getConfig_network)+

section \<open>Words of a command\<close>

definition safe_char :: "char \<Rightarrow> bool" where
  "safe_char c \<longleftrightarrow> is_alnum c \<or> c \<in> set ''._:/@=+-''"

lemma SAFE_ARG_RE_chars: "SAFE_ARG_RE s \<Longrightarrow> (\<forall>c \<in> set s. safe_char c) \<and> s \<noteq> [] \<and> is_alnum (hd s)"
  by (cases s) (auto simp: SAFE_ARG_RE_def safe_char_def)

lemma safe_not_space: "safe_char c \<Longrightarrow> c \<noteq> CHR '' ''"
  by (auto simp: safe_char_def is_alnum_def code_def)

text \<open>The characters with a meaning for a shell\<close>

definition shell_special :: "char \<Rightarrow> bool" where
  "shell_special c \<longleftrightarrow> c \<in> set '' ;&|<>$`()*?[]{}#!~'' \<or> code c \<in> {9, 10, 34, 39, 92}"

lemma safe_not_special: "safe_char c \<Longrightarrow> \<not> shell_special c"
  by (auto simp: safe_char_def shell_special_def is_alnum_def code_def)

lemma split_at_word:
  assumes "\<forall>c \<in> set w. c \<noteq> d"
  shows "split_at d (w @ d # s) = w # split_at d s" "split_at d w = [w]"
  using assms by (induction w) auto

lemma split_literals:
  "split_at CHR '' '' (''cd '' @ s) = ''cd'' # split_at CHR '' '' s"
  "split_at CHR '' '' (''&& screen -S '' @ s) = [''&&'', ''screen'', ''-S''] @ split_at CHR '' '' s"
  "split_at CHR '' '' (''screen -X -S '' @ s) = [''screen'', ''-X'', ''-S''] @ split_at CHR '' '' s"
  "split_at CHR '' '' (''-d -m '' @ s) = [''-d'', ''-m''] @ split_at CHR '' '' s"
  by simp_all

lemma startCommand_words:
  assumes "SAFE_ARG_RE dir" "SAFE_ARG_RE screen"
  shows "split_at CHR '' '' (startCommand dir screen) =
    [''cd'', dir, ''&&'', ''screen'', ''-S'', screen, ''-d'', ''-m'', ''~/'' @ dir @ ''/start.sh'']"
proof -
  have d: "\<forall>c \<in> set dir. c \<noteq> CHR '' ''" and n: "\<forall>c \<in> set screen. c \<noteq> CHR '' ''"
    using assms SAFE_ARG_RE_chars safe_not_space by blast+
  have last: "\<forall>c \<in> set (''~/'' @ dir @ ''/start.sh''). c \<noteq> CHR '' ''" using d by auto
  have "startCommand dir screen = ''cd '' @ dir @ CHR '' '' # ''&& screen -S '' @ screen @ CHR '' '' # ''-d -m '' @ (''~/'' @ dir @ ''/start.sh'')"
    by (simp add: startCommand_def)
  then show ?thesis
    by (simp only: split_literals split_at_word(1) [OF d] split_at_word(1) [OF n] split_at_word(2) [OF last]) simp
qed

lemma stopCommand_words:
  assumes "SAFE_ARG_RE screen"
  shows "split_at CHR '' '' (stopCommand screen) = [''screen'', ''-X'', ''-S'', screen, ''quit'']"
proof -
  have n: "\<forall>c \<in> set screen. c \<noteq> CHR '' ''" using assms SAFE_ARG_RE_chars safe_not_space by blast
  have q: "\<forall>c \<in> set ''quit''. c \<noteq> CHR '' ''" by simp
  have "stopCommand screen = ''screen -X -S '' @ screen @ CHR '' '' # ''quit''" by (simp add: stopCommand_def)
  then show ?thesis by (simp only: split_literals split_at_word(1) [OF n] split_at_word(2) [OF q]) simp
qed

lemma assertShellSafe_Inr: "assertShellSafe v = Inr x \<Longrightarrow> SAFE_ARG_RE x"
  by (auto simp: assertShellSafe_def split: option.splits if_splits)

lemma getRemoteInstallDir_safe: "getRemoteInstallDir env s = (Inr dir, s1) \<Longrightarrow> SAFE_ARG_RE dir"
  by (auto simp: getRemoteInstallDir_def of_network_def assertShellSafe_Inr split: prod.splits sum.splits)

lemma getRemoteScreenName_safe: "getRemoteScreenName env s = (Inr n, s1) \<Longrightarrow> SAFE_ARG_RE n"
  by (auto simp: getRemoteScreenName_def assertShellSafe_Inr split: prod.splits sum.splits)

text \<open>C22: Whatever the configuration holds: when the start of a remote node reaches its command, the install
  directory and the name of the screen are each one word of it, in the places meant for them, consist of
  characters without a meaning for a shell, and do not begin with a dash.\<close>

theorem remote_commands_keep_their_words:
  assumes "getRemoteInstallDir env s = (Inr dir, s1)" "getRemoteScreenName env s1 = (Inr screen, s2)"
  shows "split_at CHR '' '' (startCommand dir screen) =
      [''cd'', dir, ''&&'', ''screen'', ''-S'', screen, ''-d'', ''-m'', ''~/'' @ dir @ ''/start.sh''] \<and>
    split_at CHR '' '' (stopCommand screen) = [''screen'', ''-X'', ''-S'', screen, ''quit''] \<and>
    (\<forall>c \<in> set dir \<union> set screen. \<not> shell_special c) \<and> hd dir \<noteq> CHR ''-'' \<and> hd screen \<noteq> CHR ''-''"
proof -
  have safe: "SAFE_ARG_RE dir" "SAFE_ARG_RE screen"
    using getRemoteInstallDir_safe [OF assms(1)] getRemoteScreenName_safe [OF assms(2)] by simp_all
  have "is_alnum c \<Longrightarrow> c \<noteq> CHR ''-''" for c by (auto simp: is_alnum_def code_def)
  then show ?thesis
    using startCommand_words [OF safe] stopCommand_words [OF safe(2)] SAFE_ARG_RE_chars [OF safe(1)]
      SAFE_ARG_RE_chars [OF safe(2)] safe_not_special by blast
qed

definition exampleConfig :: config_state where
  "exampleConfig = \<lparr>config = \<lparr>tc_network = ''local'', networkGitRepo = [], networkGitRepoBranch = [], nodeRepoUrl = None,
       nodeProfile = ''release'', nodeBranch = None, nodeBuildScript = None, mnemonic = None, mnemonicAccountIndex = 0,
       defaultNodeArgs = None, networks = [\<lparr>nc_name = ''nodes-alpha'', rpc = ''http://localhost'', nc_db = [], nodesDir = ''nodes-alpha'',
         installDir = Some ''dmdv4-testnet'', rpcSSH = [], rpcLocalInstallDir = [], nc_claimingPotAddress = [], nodeRepoAlias = None, nc_nodeRepoUrl = None,
         nc_nodeBranch = None, nc_nodeBuildScript = None, rustVersion = None, diamondNodedDeadlockDetection = False,
         builder = None\<rparr>]\<rparr>,
     cm_network = ''nodes-alpha'', configInitialized = False, mnemonicFile = Some (''words'', 420)\<rparr>"

definition exampleEnv :: environment where
  "exampleEnv = \<lparr>cliNetwork = None, RPC_URL = None, POSTGRES_INSTANCE = None, processCwd = ''/home''\<rparr>"

lemma remote_commands_keep_their_words_witness:
  "\<exists>dir s1 screen s2. getRemoteInstallDir exampleEnv exampleConfig = (Inr dir, s1) \<and>
     getRemoteScreenName exampleEnv s1 = (Inr screen, s2) \<and> split_at CHR '' '' (stopCommand screen) = [''screen'', ''-X'', ''-S'', ''alpha'', ''quit'']"
proof -
  have a: "fst (getRemoteInstallDir exampleEnv exampleConfig) = Inr ''dmdv4-testnet''" by code_simp
  have b: "fst (getRemoteScreenName exampleEnv (snd (getRemoteInstallDir exampleEnv exampleConfig))) = Inr ''alpha''" by code_simp
  obtain s1 where s1: "getRemoteInstallDir exampleEnv exampleConfig = (Inr ''dmdv4-testnet'', s1)"
    using a by (metis prod.collapse)
  obtain s2 where s2: "getRemoteScreenName exampleEnv s1 = (Inr ''alpha'', s2)"
    using b s1 by (metis prod.collapse snd_conv)
  from remote_commands_keep_their_words [OF s1 s2] s1 s2 show ?thesis by blast
qed

section \<open>Wallets\<close>

lemma insertPairs_spec:
  "insertPairs known ps wallet = (added, w) \<Longrightarrow>
     added = filter (\<lambda>p. fst p \<notin> set known) ps \<and> w = wallet @ added"
  by (induction known ps wallet arbitrary: added w rule: insertPairs.induct)
    (auto split: if_splits prod.splits)

text \<open>Only accounts whose address was not in the wallet are added; none is lost.\<close>

lemma insertWallets_adds_missing:
  "insertWallets ps wallet = (added, w) \<Longrightarrow>
     w = wallet @ added \<and> added = filter (\<lambda>p. fst p \<notin> fst ` set wallet) ps"
  using insertPairs_spec [of "map fst wallet" ps wallet added w] by (simp add: insertWallets_def)

end
