(* ===== verification/RemoteSelection.thy ===== *)
theory RemoteSelection imports NodeManager begin

text \<open>
  Which nodes a command for the remote network is meant for: \<open>parseRemotenetArgs\<close> and
  \<open>getNodesFromCliArgs\<close> of src/src/remotenet/remotenetArgs.ts. What the contracts and the nodes answer is
  a parameter. The parsed command line is a record; a flag that is not given is false.
\<close>

section \<open>Arguments\<close>

record remotenet_args =
  a_all :: bool
  onlyunavailable :: bool
  onlyavailable :: bool
  skipcurrent :: bool
  a_current :: bool
  sshnode :: "string option"
  nsshnode :: "string option"
  a_miningAddress :: "string option"
  a_version :: "string option"

text \<open>Some target has to be given.\<close>

definition parseRemotenetArgs :: "remotenet_args \<Rightarrow> remotenet_args result" where
  "parseRemotenetArgs a =
     (if \<not> a_all a \<and> \<not> onlyunavailable a \<and> truthy (sshnode a) = None \<and> truthy (a_miningAddress a) = None \<and> \<not> a_current a
      then Inl (Thrown ''no target specified. use --help for infos.'') else Inr a)"

definition inRange :: "int option \<Rightarrow> nat \<Rightarrow> int option \<Rightarrow> bool" where
  "inRange from n to = (case (from, to) of (Some f, Some t) \<Rightarrow> f \<le> int n \<and> int n \<le> t | _ \<Rightarrow> False)"

definition isNodeInTextDefinition :: "node_state \<Rightarrow> string \<Rightarrow> bool" where
  "isNodeInTextDefinition node textdefinition =
     (if textdefinition = sshNodeName node then True
      else let tokens = split_at CHR '' '' textdefinition in
        if length tokens > 1 \<and> sshNodeName node \<in> set tokens then True
        else if length tokens = 3 \<and> tokens ! 1 = ''-''
        then inRange (parseInt (tokens ! 0)) (nodeID node) (parseInt (tokens ! 2))
        else False)"

section \<open>The loop over the nodes\<close>

record remote_view =
  isValidator :: "string \<Rightarrow> bool result"
  isAvailable :: "string \<Rightarrow> bool result"
  versionOf :: "string \<Rightarrow> string result"

text \<open>A test that makes the loop continue with the next node when it answers false.\<close>

definition whenGiven :: "bool \<Rightarrow> bool result \<Rightarrow> bool result" where
  "whenGiven given test = (if given then test else Inr True)"

text \<open>The filters before the target is looked at, in their order\<close>

definition passesFilters :: "remotenet_args \<Rightarrow> remote_view \<Rightarrow> node_state \<Rightarrow> bool result" where
  "passesFilters a v node =
     await (case truthy (nsshnode a) of Some t \<Rightarrow> Inr (\<not> isNodeInTextDefinition node t) | None \<Rightarrow> Inr True) (\<lambda>ok. if \<not> ok then Inr False else
     await (case truthy (node_address node) of
         Some addr \<Rightarrow> whenGiven (skipcurrent a) (await (isValidator v addr) (\<lambda>b. Inr (\<not> b)))
       | None \<Rightarrow> Inr True) (\<lambda>ok. if \<not> ok then Inr False else
     await (case truthy (node_address node) of
         Some addr \<Rightarrow> whenGiven (a_current a) (isValidator v addr)
       | None \<Rightarrow> Inr True) (\<lambda>ok. if \<not> ok then Inr False else
     await (case truthy (a_version a) of
         Some version \<Rightarrow> await (versionOf v (sshNodeName node)) (\<lambda>this. Inr (sublist version this))
       | None \<Rightarrow> Inr True) (\<lambda>ok. if \<not> ok then Inr False else
     await (whenGiven (onlyunavailable a) (case truthy (node_address node) of
         Some addr \<Rightarrow> await (isAvailable v addr) (\<lambda>b. Inr (\<not> b)) | None \<Rightarrow> Inr False)) (\<lambda>ok. if \<not> ok then Inr False else
     whenGiven (onlyavailable a) (case truthy (node_address node) of
         Some addr \<Rightarrow> isAvailable v addr | None \<Rightarrow> Inr False))))))"

text \<open>The target: a node that does not match the mining address falls through to the other targets, of
  which the last branch throws.\<close>

definition matchesTarget :: "remotenet_args \<Rightarrow> node_state \<Rightarrow> bool result" where
  "matchesTarget a node =
     (if (case truthy (a_miningAddress a) of Some m \<Rightarrow> (case truthy (node_address node) of
            Some addr \<Rightarrow> to_lower addr = to_lower m | None \<Rightarrow> False) | None \<Rightarrow> False) then Inr True
      else case sshnode a of
        Some t \<Rightarrow> Inr (isNodeInTextDefinition node t)
      | None \<Rightarrow> if a_all a \<or> a_current a then Inr True else Inl (Thrown ''not implemented for args''))"

definition considerNode :: "remotenet_args \<Rightarrow> remote_view \<Rightarrow> node_state \<Rightarrow> node_state list \<Rightarrow> node_state list result" where
  "considerNode a v node result = await (passesFilters a v node) (\<lambda>ok.
     if \<not> ok then Inr result else await (matchesTarget a node) (\<lambda>m. Inr (if m then result @ [node] else result)))"

definition getNodesFromCliArgs :: "remotenet_args \<Rightarrow> remote_view \<Rightarrow> node_manager \<Rightarrow> node_state list result" where
  "getNodesFromCliArgs args v m = await (parseRemotenetArgs args) (\<lambda>a.
     forM (nodeStates m) (considerNode a v) [])"

section \<open>Which nodes are selected\<close>

lemma selection_filter:
  assumes "\<forall>n \<in> set ns. passesFilters a v n = Inr (pass n)" "\<forall>n \<in> set ns. pass n \<longrightarrow> matchesTarget a n = Inr (match n)"
  shows "forM ns (considerNode a v) result = Inr (result @ filter (\<lambda>n. pass n \<and> match n) ns)"
  using assms by (induction ns arbitrary: result) (auto simp: considerNode_def)

definition hasMiningAddress :: "remotenet_args \<Rightarrow> node_state \<Rightarrow> bool" where
  "hasMiningAddress a n \<longleftrightarrow> (case (truthy (a_miningAddress a), truthy (node_address n)) of
     (Some x, Some addr) \<Rightarrow> to_lower addr = to_lower x | _ \<Rightarrow> False)"

definition isTarget :: "remotenet_args \<Rightarrow> node_state \<Rightarrow> bool" where
  "isTarget a n \<longleftrightarrow> hasMiningAddress a n \<or>
     (case sshnode a of Some t \<Rightarrow> isNodeInTextDefinition n t | None \<Rightarrow> a_all a \<or> a_current a)"

lemma matchesTarget_eq:
  "matchesTarget a n = (if hasMiningAddress a n then Inr True else case sshnode a of
     Some t \<Rightarrow> Inr (isNodeInTextDefinition n t)
   | None \<Rightarrow> if a_all a \<or> a_current a then Inr True else Inl (Thrown ''not implemented for args''))"
  by (simp add: matchesTarget_def hasMiningAddress_def split: option.split)

text \<open>When the filters can be decided and a node name, a range, all or the current validators are asked
  for, exactly the nodes that pass the filters and match the target are selected, each once and in order.\<close>

theorem selected_nodes:
  assumes "\<forall>n \<in> set (nodeStates m). passesFilters a v n = Inr (pass n)"
    "truthy (sshnode a) \<noteq> None \<or> sshnode a = None \<and> (a_all a \<or> a_current a)"
  shows "getNodesFromCliArgs a v m = Inr (filter (\<lambda>n. pass n \<and> isTarget a n) (nodeStates m))"
proof -
  have "matchesTarget a n = Inr (isTarget a n)" for n
    using assms(2) by (auto simp: matchesTarget_eq isTarget_def truthy_def split: option.splits)
  moreover have "parseRemotenetArgs a = Inr a"
    using assms(2) by (auto simp: parseRemotenetArgs_def)
  ultimately show ?thesis
    using selection_filter [of "nodeStates m" a v pass "isTarget a" "[]"] assms(1)
    by (simp add: getNodesFromCliArgs_def)
qed

definition someNodes :: node_manager where
  "someNodes = \<lparr>nodeStates = [new_NodeState 1 None (Some ''0xA''), new_NodeState 2 None (Some ''0xB''),
     new_NodeState 3 None (Some ''0xC'')], rpcNode = None\<rparr>"

definition quietView :: remote_view where
  "quietView = \<lparr>isValidator = (\<lambda>a. Inr (a = ''0xA'')), isAvailable = (\<lambda>a. Inr True), versionOf = (\<lambda>_. Inr ''1'')\<rparr>"

definition noArgs :: remotenet_args where
  "noArgs = \<lparr>a_all = False, onlyunavailable = False, onlyavailable = False, skipcurrent = False, a_current = False,
     sshnode = None, nsshnode = None, a_miningAddress = None, a_version = None\<rparr>"

lemma selected_nodes_witness:
  "getNodesFromCliArgs (noArgs\<lparr>sshnode := Some ''2 - 3'', skipcurrent := True\<rparr>) quietView someNodes = Inr (tl (nodeStates someNodes))"
proof -
  let ?a = "noArgs\<lparr>sshnode := Some ''2 - 3'', skipcurrent := True\<rparr>"
  have p: "\<forall>n \<in> set (nodeStates someNodes). passesFilters ?a quietView n = Inr (nodeID n \<noteq> 1)"
    by (simp add: someNodes_def passesFilters_def noArgs_def quietView_def whenGiven_def truthy_def new_NodeState_def)
  have t: "truthy (sshnode ?a) \<noteq> None \<or> sshnode ?a = None \<and> (a_all ?a \<or> a_current ?a)"
    by (simp add: truthy_def)
  have "filter (\<lambda>n. nodeID n \<noteq> 1 \<and> isTarget ?a n) (nodeStates someNodes) = tl (nodeStates someNodes)" by code_simp
  with selected_nodes [OF p t] show ?thesis by simp
qed

text \<open>The mining address alone cannot select a node: the first node that passes the filters and does not
  have the address makes the selection throw, and so does asking only for the unavailable nodes as soon as
  there is one.\<close>

theorem address_alone_selects_nothing:
  assumes "sshnode a = None" "\<not> a_all a" "\<not> a_current a" "n \<in> set (nodeStates m)"
    "\<forall>n \<in> set (nodeStates m). \<not> isl (passesFilters a v n)" "passesFilters a v n = Inr True"
    "\<not> hasMiningAddress a n"
  shows "\<exists>message. getNodesFromCliArgs a v m = Inl (Thrown message)"
proof (cases "parseRemotenetArgs a")
  case (Inl e)
  then show ?thesis by (auto simp: getNodesFromCliArgs_def parseRemotenetArgs_def split: if_splits)
next
  case (Inr b)
  have t: "matchesTarget a n = Inl (Thrown ''not implemented for args'')"
    using assms(1-3,7) by (simp add: matchesTarget_eq)
  have "\<exists>message. forM ns (considerNode a v) result = Inl (Thrown message)"
    if "n \<in> set ns" "\<forall>n \<in> set ns. \<not> isl (passesFilters a v n)" for ns result
    using that
  proof (induction ns arbitrary: result)
    case (Cons k ns)
    obtain p where p: "passesFilters a v k = Inr p" using Cons.prems(2) by (auto simp: isl_def) (metis sum.exhaust)
    show ?case
    proof (cases "k = n")
      case True
      then show ?thesis using p assms(6) t by (simp add: considerNode_def)
    next
      case False
      have "matchesTarget a k = Inr True \<or> matchesTarget a k = Inl (Thrown ''not implemented for args'')"
        using assms(1-3) by (simp add: matchesTarget_eq)
      then show ?thesis using Cons False p by (cases p) (auto simp: considerNode_def)
    qed
  qed simp
  moreover have "b = a" using Inr by (simp add: parseRemotenetArgs_def split: if_splits)
  ultimately show ?thesis using assms(4,5) Inr by (simp add: getNodesFromCliArgs_def)
qed

lemma address_alone_selects_nothing_witness:
  "\<exists>message. getNodesFromCliArgs (noArgs\<lparr>a_miningAddress := Some ''0xB''\<rparr>) quietView someNodes = Inl (Thrown message)"
proof (rule address_alone_selects_nothing)
  show "new_NodeState 1 None (Some ''0xA'') \<in> set (nodeStates someNodes)" by (simp add: someNodes_def)
  show "\<forall>n \<in> set (nodeStates someNodes). \<not> isl (passesFilters (noArgs\<lparr>a_miningAddress := Some ''0xB''\<rparr>) quietView n)"
    by (simp add: someNodes_def passesFilters_def noArgs_def whenGiven_def truthy_def new_NodeState_def)
  show "passesFilters (noArgs\<lparr>a_miningAddress := Some ''0xB''\<rparr>) quietView (new_NodeState 1 None (Some ''0xA'')) = Inr True"
    by (simp add: passesFilters_def noArgs_def whenGiven_def truthy_def new_NodeState_def)
  show "\<not> hasMiningAddress (noArgs\<lparr>a_miningAddress := Some ''0xB''\<rparr>) (new_NodeState 1 None (Some ''0xA''))"
    by code_simp
qed (simp_all add: noArgs_def)

end
