(* ===== verification/ContractAccess.thy ===== *)
theory ContractAccess imports Config begin

text \<open>
  How the ContractManager (src/src/contractManager.ts) finds the contracts: their fixed addresses, the ones
  that are asked of another contract, and the cache of those that were found; the addresses that depend on
  the chain; and the formats of the addresses of nodes and of durations. A contract is known by its address,
  since the interface that it is made with is fixed. \<open>contract_directory\<close> holds the answers of the chain to
  the questions for addresses.
\<close>

section \<open>Contracts\<close>

record contract_cache =
  cachedValidatorSetHbbft :: "string option"
  cachedStakingHbbft :: "string option"
  cachedKeyGenHistory :: "string option"
  cachedRewardContract :: "string option"
  cachedPermission :: "string option"
  cachedBonusScoreSystem :: "string option"
  cachedConnectivityTrackerHbbft :: "string option"
  cachedDmdRegistrarController :: "string option"
  cachedDmdNames :: "string option"

definition new_cache :: contract_cache where
  "new_cache = \<lparr>cachedValidatorSetHbbft = None, cachedStakingHbbft = None, cachedKeyGenHistory = None,
     cachedRewardContract = None, cachedPermission = None, cachedBonusScoreSystem = None,
     cachedConnectivityTrackerHbbft = None, cachedDmdRegistrarController = None, cachedDmdNames = None\<rparr>"

record contract_directory =
  dir_connectivityTracker :: "string result"
  dir_blockRewardContract :: "string result"
  dir_stakingContract :: "string result"
  dir_keyGenHistoryContract :: "string result"
  dir_randomContract :: "string result"
  dir_getGovernanceAddress :: "string result"
  dir_chainId :: "int result"

record contract_addresses =
  validatorSetAddress :: string
  permissionContractAddress :: string
  bonusScoreSystemAddress :: string

definition getContractAddresses :: contract_addresses where
  "getContractAddresses = \<lparr>validatorSetAddress = ''0x1000000000000000000000000000000000000001'',
     permissionContractAddress = ''0x4000000000000000000000000000000000000001'',
     bonusScoreSystemAddress = ''0x1300000000000000000000000000000000000001''\<rparr>"

text \<open>A contract that is in the cache is returned; otherwise its address is looked up, and kept when there
  is one.\<close>

definition throughCache ::
  "(contract_cache \<Rightarrow> string option) \<Rightarrow> (string \<Rightarrow> contract_cache \<Rightarrow> contract_cache) \<Rightarrow> string option result \<Rightarrow>
   contract_cache \<Rightarrow> string option result \<times> contract_cache" where
  "throughCache cached keep lookup c = (case cached c of
     Some a \<Rightarrow> (Inr (Some a), c)
   | None \<Rightarrow> (case lookup of
       Inl e \<Rightarrow> (Inl e, c) | Inr None \<Rightarrow> (Inr None, c) | Inr (Some a) \<Rightarrow> (Inr (Some a), keep a c)))"

abbreviation addressed :: "string result \<Rightarrow> string option result" where
  "addressed r \<equiv> await r (\<lambda>a. Inr (Some a))"

definition getValidatorSetHbbft :: "contract_cache \<Rightarrow> string option result \<times> contract_cache" where
  "getValidatorSetHbbft = throughCache cachedValidatorSetHbbft (\<lambda>a c. c\<lparr>cachedValidatorSetHbbft := Some a\<rparr>)
     (Inr (Some (validatorSetAddress getContractAddresses)))"

definition getContractPermission :: "contract_cache \<Rightarrow> string option result \<times> contract_cache" where
  "getContractPermission = throughCache cachedPermission (\<lambda>a c. c\<lparr>cachedPermission := Some a\<rparr>)
     (Inr (Some (permissionContractAddress getContractAddresses)))"

definition getBonusScoreSystem :: "contract_cache \<Rightarrow> string option result \<times> contract_cache" where
  "getBonusScoreSystem = throughCache cachedBonusScoreSystem (\<lambda>a c. c\<lparr>cachedBonusScoreSystem := Some a\<rparr>)
     (Inr (Some (bonusScoreSystemAddress getContractAddresses)))"

text \<open>A getter that asks another contract puts that one into the cache first.\<close>

definition getContractConnectivityTrackerHbbft :: "contract_directory \<Rightarrow> contract_cache \<Rightarrow> string option result \<times> contract_cache" where
  "getContractConnectivityTrackerHbbft d c = (case cachedConnectivityTrackerHbbft c of
     Some a \<Rightarrow> (Inr (Some a), c)
   | None \<Rightarrow> throughCache cachedConnectivityTrackerHbbft (\<lambda>a c. c\<lparr>cachedConnectivityTrackerHbbft := Some a\<rparr>)
       (addressed (dir_connectivityTracker d)) (snd (getContractPermission c)))"

definition getRewardContractAddress :: "contract_directory \<Rightarrow> contract_cache \<Rightarrow> string result \<times> contract_cache" where
  "getRewardContractAddress d c = (dir_blockRewardContract d, snd (getValidatorSetHbbft c))"

definition getRewardHbbft :: "contract_directory \<Rightarrow> contract_cache \<Rightarrow> string option result \<times> contract_cache" where
  "getRewardHbbft d c = (case cachedRewardContract c of
     Some a \<Rightarrow> (Inr (Some a), c)
   | None \<Rightarrow> (case getRewardContractAddress d c of (r, c1) \<Rightarrow>
       throughCache cachedRewardContract (\<lambda>a c. c\<lparr>cachedRewardContract := Some a\<rparr>) (addressed r) c1))"

definition getStakingHbbft :: "contract_directory \<Rightarrow> contract_cache \<Rightarrow> string option result \<times> contract_cache" where
  "getStakingHbbft d c = (case cachedStakingHbbft c of
     Some a \<Rightarrow> (Inr (Some a), c)
   | None \<Rightarrow> throughCache cachedStakingHbbft (\<lambda>a c. c\<lparr>cachedStakingHbbft := Some a\<rparr>)
       (addressed (dir_stakingContract d)) (snd (getValidatorSetHbbft c)))"

definition getKeyGenHistory :: "contract_directory \<Rightarrow> contract_cache \<Rightarrow> string option result \<times> contract_cache" where
  "getKeyGenHistory d c = (case cachedKeyGenHistory c of
     Some a \<Rightarrow> (Inr (Some a), c)
   | None \<Rightarrow> throughCache cachedKeyGenHistory (\<lambda>a c. c\<lparr>cachedKeyGenHistory := Some a\<rparr>)
       (addressed (dir_keyGenHistoryContract d)) (snd (getValidatorSetHbbft c)))"

text \<open>The random contract is not kept.\<close>

definition getRandomHbbft :: "contract_directory \<Rightarrow> contract_cache \<Rightarrow> string option result \<times> contract_cache" where
  "getRandomHbbft d c = (addressed (dir_randomContract d), snd (getValidatorSetHbbft c))"

definition getGovernancePotAddress :: "contract_directory \<Rightarrow> contract_cache \<Rightarrow> string result \<times> contract_cache" where
  "getGovernancePotAddress d c = (case getRewardHbbft d c of (r, c1) \<Rightarrow> (await r (\<lambda>_. dir_getGovernanceAddress d), c1))"

section \<open>Addresses that depend on the chain\<close>

definition getClaimingPotAddress :: "environment \<Rightarrow> contract_directory \<Rightarrow> config_state \<Rightarrow> string result \<times> config_state" where
  "getClaimingPotAddress env d s = (case dir_chainId d of Inl e \<Rightarrow> (Inl e, s)
     | Inr chainID \<Rightarrow> if chainID = 17771 then (Inr ''0xf3bf614C0EA1D14D998BcDb49Ad1F8f57332Bb42'', s)
         else if chainID = 37373 then (Inr ''0xCB9605E908679e7596cd67632CaffC980b5Bf895'', s)
         else of_network env None (\<lambda>n. Inr (nc_claimingPotAddress n)) s)"

text \<open>An address given in the environment goes first, then the one of the main net.\<close>

definition nameAddress :: "string option \<Rightarrow> string \<Rightarrow> contract_directory \<Rightarrow> string option result" where
  "nameAddress given mainnet d = (case truthy given of Some a \<Rightarrow> Inr (Some a)
     | None \<Rightarrow> await (dir_chainId d) (\<lambda>chainID. Inr (if chainID = 17771 then Some mainnet else None)))"

definition getDmdRegistrarControllerAddress :: "string option \<Rightarrow> contract_directory \<Rightarrow> string option result" where
  "getDmdRegistrarControllerAddress given = nameAddress given ''0x26EeECc60964C219bFBeA25aBb86aB8b4590467B''"

definition getDmdNamesAddress :: "string option \<Rightarrow> contract_directory \<Rightarrow> string option result" where
  "getDmdNamesAddress given = nameAddress given ''0x857C95B69b5dD7EFE4e5591B2e0C0a79aeBE9899''"

definition getDmdRegistrarController :: "string option \<Rightarrow> contract_directory \<Rightarrow> contract_cache \<Rightarrow> string option result \<times> contract_cache" where
  "getDmdRegistrarController given d = throughCache cachedDmdRegistrarController
     (\<lambda>a c. c\<lparr>cachedDmdRegistrarController := Some a\<rparr>) (getDmdRegistrarControllerAddress given d)"

definition getDmdNames :: "string option \<Rightarrow> contract_directory \<Rightarrow> contract_cache \<Rightarrow> string option result \<times> contract_cache" where
  "getDmdNames given d = throughCache cachedDmdNames (\<lambda>a c. c\<lparr>cachedDmdNames := Some a\<rparr>) (getDmdNamesAddress given d)"

section \<open>Formats\<close>

record network_address =
  ip :: "nat list"
  port :: nat

text \<open>\<open>BN.toArray('le')\<close>: the bytes of a number, the lowest first; zero has one byte.\<close>

fun bytes_le :: "nat \<Rightarrow> nat list" where
  "bytes_le n = (if n < 256 then [n] else n mod 256 # bytes_le (n div 256))"

declare bytes_le.simps [simp del]

definition getIPFragment :: "network_address \<Rightarrow> nat \<Rightarrow> nat" where
  "getIPFragment a i = (if i < length (ip a) then ip a ! i else 0)"

definition asFormatedIP :: "network_address \<Rightarrow> string" where
  "asFormatedIP a = decimal (getIPFragment a 3) @ ''.'' @ decimal (getIPFragment a 2) @ ''.'' @
     decimal (getIPFragment a 1) @ ''.'' @ decimal (getIPFragment a 0)"

definition toEnode :: "network_address \<Rightarrow> string \<Rightarrow> string" where
  "toEnode a key = ''enode://'' @ key @ ''@'' @ asFormatedIP a @ '':'' @ decimal (port a)"

definition address_toString :: "network_address \<Rightarrow> string" where
  "address_toString a = asFormatedIP a @ '':'' @ decimal (port a)"

definition getIPAddress :: "(string \<Rightarrow> (nat \<times> nat) result) \<Rightarrow> string \<Rightarrow> network_address result" where
  "getIPAddress getPoolInternetAddress pool = await (getPoolInternetAddress pool) (\<lambda>(ip_BN, port_BN).
     Inr \<lparr>ip = bytes_le ip_BN, port = port_BN\<rparr>)"

text \<open>\<open>getEpochDurationFormatted\<close>: an hour of zero is left out, a minute of zero is written as one digit
  when there is no hour.\<close>

definition two_digits :: "nat \<Rightarrow> string" where
  "two_digits n = (if n > 9 then decimal n else CHR ''0'' # decimal n)"

definition formatTime :: "nat \<Rightarrow> string" where
  "formatTime seconds =
     (let h = seconds div 3600; m = seconds mod 3600 div 60; s = seconds mod 60
      in (if h > 0 then decimal h @ '':'' @ two_digits m else decimal m) @ '':'' @ two_digits s @
         ''('' @ decimal seconds @ '' seconds)'')"

definition getReward :: "(string \<Rightarrow> string \<Rightarrow> int \<Rightarrow> int result) \<Rightarrow> string \<Rightarrow> string \<Rightarrow> int \<Rightarrow> int result" where
  "getReward stakeAmount pool staker block =
     await (stakeAmount pool staker (block - 1)) (\<lambda>oldStake. await (stakeAmount pool staker block) (\<lambda>newStake.
       Inr (if newStake - oldStake > 0 then newStake - oldStake else 0)))"

definition getKeyPARTBytesLength :: "string option \<Rightarrow> rat" where
  "getKeyPARTBytesLength part = (case truthy part of None \<Rightarrow> 0 | Some p \<Rightarrow> (of_nat (length p) - 2) / 2)"

section \<open>A contract that was found is kept\<close>

text \<open>What the cache holds is never changed.\<close>

definition cached_contracts :: "contract_cache \<Rightarrow> string option list" where
  "cached_contracts c = [cachedValidatorSetHbbft c, cachedStakingHbbft c, cachedKeyGenHistory c, cachedRewardContract c,
     cachedPermission c, cachedBonusScoreSystem c, cachedConnectivityTrackerHbbft c, cachedDmdRegistrarController c,
     cachedDmdNames c]"

definition kept :: "string option \<Rightarrow> string option \<Rightarrow> bool" where
  "kept x y \<longleftrightarrow> x = None \<or> y = x"

definition keeps_cached :: "contract_cache \<Rightarrow> contract_cache \<Rightarrow> bool" where
  "keeps_cached c c' \<longleftrightarrow> list_all2 kept (cached_contracts c) (cached_contracts c')"

named_theorems getters \<open>definitions of the operations on the cache\<close>

declare throughCache_def [getters] getValidatorSetHbbft_def [getters] getContractPermission_def [getters]
  getBonusScoreSystem_def [getters] getContractConnectivityTrackerHbbft_def [getters] getRewardContractAddress_def [getters]
  getRewardHbbft_def [getters] getStakingHbbft_def [getters] getKeyGenHistory_def [getters] getRandomHbbft_def [getters]
  getGovernancePotAddress_def [getters] getDmdRegistrarController_def [getters] getDmdNames_def [getters]

lemma keeps_cached_refl [simp]: "keeps_cached c c"
  by (simp add: keeps_cached_def cached_contracts_def kept_def)

lemma keeps_cached_trans: "keeps_cached c d \<Longrightarrow> keeps_cached d e \<Longrightarrow> keeps_cached c e"
  unfolding keeps_cached_def by (rule list_all2_trans [where ?P1.0 = kept and ?P2.0 = kept]) (auto simp: kept_def)

lemma throughCache_keeps:
  "(\<And>a. cached c = None \<Longrightarrow> keeps_cached c (keep a c)) \<Longrightarrow> keeps_cached c (snd (throughCache cached keep lookup c))"
  by (auto simp: throughCache_def split: option.splits sum.splits)

lemma fixed_keep:
  "keeps_cached c (snd (getValidatorSetHbbft c))" "keeps_cached c (snd (getContractPermission c))"
  "keeps_cached c (snd (getBonusScoreSystem c))" "keeps_cached c (snd (getDmdRegistrarController given d c))"
  "keeps_cached c (snd (getDmdNames given d c))" "keeps_cached c (snd (getRandomHbbft d c))"
  "keeps_cached c (snd (getRewardContractAddress d c))"
  unfolding getValidatorSetHbbft_def getContractPermission_def getBonusScoreSystem_def getDmdRegistrarController_def
    getDmdNames_def getRandomHbbft_def getRewardContractAddress_def snd_conv
  by (rule throughCache_keeps, simp add: keeps_cached_def cached_contracts_def kept_def)+

lemma asked_keep:
  "keeps_cached c (snd (getContractConnectivityTrackerHbbft d c))" "keeps_cached c (snd (getStakingHbbft d c))"
  "keeps_cached c (snd (getKeyGenHistory d c))" "keeps_cached c (snd (getRewardHbbft d c))"
proof -
  have step: "keeps_cached c (snd (throughCache cached keep lookup c1))"
    if "keeps_cached c c1" "\<And>a. cached c1 = None \<Longrightarrow> keeps_cached c1 (keep a c1)" for c c1 cached keep lookup
    using that throughCache_keeps keeps_cached_trans by blast
  have new: "cachedConnectivityTrackerHbbft k = None \<Longrightarrow> keeps_cached k (k\<lparr>cachedConnectivityTrackerHbbft := Some a\<rparr>)"
    "cachedStakingHbbft k = None \<Longrightarrow> keeps_cached k (k\<lparr>cachedStakingHbbft := Some a\<rparr>)"
    "cachedKeyGenHistory k = None \<Longrightarrow> keeps_cached k (k\<lparr>cachedKeyGenHistory := Some a\<rparr>)"
    "cachedRewardContract k = None \<Longrightarrow> keeps_cached k (k\<lparr>cachedRewardContract := Some a\<rparr>)" for k a
    by (simp_all add: keeps_cached_def cached_contracts_def kept_def)
  show "keeps_cached c (snd (getContractConnectivityTrackerHbbft d c))"
    unfolding getContractConnectivityTrackerHbbft_def by (auto intro: step fixed_keep new split: option.split)
  show "keeps_cached c (snd (getStakingHbbft d c))"
    unfolding getStakingHbbft_def by (auto intro: step fixed_keep new split: option.split)
  show "keeps_cached c (snd (getKeyGenHistory d c))"
    unfolding getKeyGenHistory_def by (auto intro: step fixed_keep new split: option.split)
  show "keeps_cached c (snd (getRewardHbbft d c))"
    unfolding getRewardHbbft_def getRewardContractAddress_def by (auto intro: step fixed_keep new split: option.split)
qed

text \<open>A step of a run of the program: a getter is called, at a time when the chain and the environment
  answer in some way.\<close>

inductive cache_step :: "contract_cache \<Rightarrow> contract_cache \<Rightarrow> bool" where
  "cache_step c (snd (getValidatorSetHbbft c))"
| "cache_step c (snd (getContractPermission c))"
| "cache_step c (snd (getBonusScoreSystem c))"
| "cache_step c (snd (getContractConnectivityTrackerHbbft d c))"
| "cache_step c (snd (getRewardContractAddress d c))"
| "cache_step c (snd (getRewardHbbft d c))"
| "cache_step c (snd (getStakingHbbft d c))"
| "cache_step c (snd (getKeyGenHistory d c))"
| "cache_step c (snd (getRandomHbbft d c))"
| "cache_step c (snd (getGovernancePotAddress d c))"
| "cache_step c (snd (getDmdRegistrarController given d c))"
| "cache_step c (snd (getDmdNames given d c))"

lemma cache_step_keeps: "cache_step c c' \<Longrightarrow> keeps_cached c c'"
  by (induction rule: cache_step.induct)
    (simp_all add: fixed_keep asked_keep getGovernancePotAddress_def case_prod_beta)

lemma cache_run_keeps: "cache_step\<^sup>*\<^sup>* c c' \<Longrightarrow> keeps_cached c c'"
proof (induction rule: rtranclp_induct)
  case (step d e)
  then show ?case using keeps_cached_trans cache_step_keeps by blast
qed (rule keeps_cached_refl)

text \<open>A contract that was found once is the one that every later call returns, however the chain would
  answer then; a failed look-up leaves the cache so that the next call asks again.\<close>

theorem found_contracts_are_kept:
  assumes "getStakingHbbft d c = (Inr (Some staking), c1)" and "getRewardHbbft d1 c1 = (Inr (Some reward), c2)"
    and "cache_step\<^sup>*\<^sup>* c2 c'"
  shows "getStakingHbbft d' c' = (Inr (Some staking), c') \<and> getRewardHbbft d' c' = (Inr (Some reward), c') \<and>
    (\<forall>e k. cachedKeyGenHistory k = None \<longrightarrow> dir_keyGenHistoryContract d' = Inl e \<longrightarrow>
      fst (getKeyGenHistory d' k) = Inl e \<and> cachedKeyGenHistory (snd (getKeyGenHistory d' k)) = None)"
proof -
  have "cachedStakingHbbft c1 = Some staking"
    using assms(1) by (auto simp: getters split: option.splits sum.splits prod.splits)
  moreover have "keeps_cached c1 c2" using assms(2) cache_step.intros(6) [of c1 d1] cache_step_keeps by fastforce
  moreover have "cachedRewardContract c2 = Some reward"
    using assms(2) by (auto simp: getters split: option.splits sum.splits prod.splits)
  ultimately have "cachedStakingHbbft c' = Some staking" "cachedRewardContract c' = Some reward"
    using cache_run_keeps [OF assms(3)] by (simp_all add: keeps_cached_def cached_contracts_def kept_def)
  then show ?thesis by (auto simp: getters split: option.splits)
qed

definition main_directory :: contract_directory where
  "main_directory = \<lparr>dir_connectivityTracker = Inr ''0x12'', dir_blockRewardContract = Inr ''0x20'', dir_stakingContract = Inr ''0x11'',
     dir_keyGenHistoryContract = Inr ''0x70'', dir_randomContract = Inr ''0x30'', dir_getGovernanceAddress = Inr ''0xda'',
     dir_chainId = Inr 17771\<rparr>"

definition broken_directory :: contract_directory where
  "broken_directory = main_directory\<lparr>dir_stakingContract := Inl (CallFailed ''timeout''), dir_keyGenHistoryContract := Inl (CallFailed ''timeout'')\<rparr>"

lemma found_contracts_are_kept_witness:
  "let c2 = snd (getRewardHbbft main_directory (snd (getStakingHbbft main_directory new_cache)));
       c3 = snd (getDmdNames None main_directory c2)
   in getStakingHbbft broken_directory c3 = (Inr (Some ''0x11''), c3)"
proof -
  define c1 where "c1 = snd (getStakingHbbft main_directory new_cache)"
  define c2 where "c2 = snd (getRewardHbbft main_directory c1)"
  have f: "getStakingHbbft main_directory new_cache = (Inr (Some ''0x11''), c1)"
    "getRewardHbbft main_directory c1 = (Inr (Some ''0x20''), c2)"
    unfolding c1_def c2_def by code_simp+
  have run: "cache_step\<^sup>*\<^sup>* c2 (snd (getDmdNames None main_directory c2))"
    by (rule r_into_rtranclp, rule cache_step.intros(12))
  from found_contracts_are_kept [OF f run, of broken_directory] show ?thesis
    unfolding c1_def c2_def Let_def by (rule conjunct1)
qed

section \<open>The address of a node\<close>

lemma byte_at: "(if i < length (bytes_le n) then bytes_le n ! i else 0) = n div 256 ^ i mod 256"
proof (induction i arbitrary: n)
  case 0
  then show ?case by (simp add: bytes_le.simps [of n])
next
  case (Suc i)
  show ?case
  proof (cases "n < 256")
    case True
    then have "n < 256 ^ Suc i" by (rule less_le_trans) simp
    then show ?thesis using True by (simp add: bytes_le.simps [of n])
  next
    case False
    then show ?thesis using Suc [of "n div 256"] by (auto simp: bytes_le.simps [of n] div_mult2_eq split: if_splits)
  qed
qed

lemma split_at_digits:
  assumes "list_all (\<lambda>c. digit_in 10 c \<noteq> None) ds" "digit_in 10 d = None"
  shows "split_at d ds = [ds]" "split_at d (ds @ d # s) = ds # split_at d s"
proof -
  have "d \<notin> set ds" using assms by (auto simp: list_all_iff)
  then show "split_at d ds = [ds]" "split_at d (ds @ d # s) = ds # split_at d s"
    by (induction ds) auto
qed

text \<open>The address of a pool's node, which the contract holds as one number, is printed as its four bytes
  in decimal from the highest to the lowest, with zero for those that the number does not reach: reading the
  text back gives the number.\<close>

theorem formatted_ip_round_trip:
  assumes "getIPAddress (\<lambda>_. Inr (n, p)) pool = Inr a" and "n < 2 ^ 32"
  shows "map parseInt10 (split_at CHR ''.'' (asFormatedIP a)) =
      map (\<lambda>i. Some (int (n div 256 ^ i mod 256))) [3, 2, 1, 0] \<and>
    n = (\<Sum>i<4. 256 ^ i * nat (the (parseInt10 (split_at CHR ''.'' (asFormatedIP a) ! (3 - i)))))"
proof -
  have "getIPFragment a i = n div 256 ^ i mod 256" for i
    using assms(1) byte_at [of i n] by (auto simp: getIPAddress_def getIPFragment_def)
  then have "asFormatedIP a = decimal (n div 256 ^ 3 mod 256) @ ''.'' @ decimal (n div 256 ^ 2 mod 256) @ ''.'' @
      decimal (n div 256 ^ 1 mod 256) @ ''.'' @ decimal (n div 256 ^ 0 mod 256)"
    by (simp add: asFormatedIP_def)
  moreover have "digit_in 10 CHR ''.'' = None" by code_simp
  ultimately have s: "split_at CHR ''.'' (asFormatedIP a) = map (\<lambda>i. decimal (n div 256 ^ i mod 256)) [3, 2, 1, 0]"
    using decimal_digits split_at_digits by simp
  define b c d where "b = n div 256" and "c = b div 256" and "d = c div 256"
  have parts: "n div 256 ^ 1 = b" "n div 256 ^ 2 = c" "n div 256 ^ 3 = d"
    by (simp_all add: b_def c_def d_def div_mult2_eq [symmetric])
  have "d < 256" using assms(2) parts(3) by (simp add: less_mult_imp_div_less flip: parts)
  moreover have "n = n mod 256 + 256 * b" "b = b mod 256 + 256 * c" "c = c mod 256 + 256 * d"
    by (simp_all add: b_def c_def d_def)
  ultimately have sum: "n = n mod 256 + 256 * (b mod 256) + 65536 * (c mod 256) + 16777216 * (d mod 256)"
    using mod_less [of d 256] by linarith
  have four: "{..<4 :: nat} = {0, 1, 2, 3}" by auto
  show ?thesis
  proof (intro conjI)
    show "map parseInt10 (split_at CHR ''.'' (asFormatedIP a)) = map (\<lambda>i. Some (int (n div 256 ^ i mod 256))) [3, 2, 1, 0]"
      by (simp add: s)
    have "(\<Sum>i<4. 256 ^ i * nat (the (parseInt10 (split_at CHR ''.'' (asFormatedIP a) ! (3 - i))))) =
        n mod 256 + (256 * (b mod 256) + (65536 * (c mod 256) + 16777216 * (d mod 256)))"
      unfolding s four using parts by simp
    then show "n = (\<Sum>i<4. 256 ^ i * nat (the (parseInt10 (split_at CHR ''.'' (asFormatedIP a) ! (3 - i)))))"
      using sum by linarith
  qed
qed

lemma formatted_ip_round_trip_witness:
  "\<exists>a :: network_address. getIPAddress (\<lambda>_. Inr (256 ^ 3 * 10 + 7, 30303)) ''0xaa'' = Inr a \<and>
     map parseInt10 (split_at CHR ''.'' (asFormatedIP a)) = [Some 10, Some 0, Some 0, Some 7]"
proof -
  have "getIPAddress (\<lambda>_. Inr (256 ^ 3 * 10 + 7, 30303)) ''0xaa'' = Inr \<lparr>ip = bytes_le (256 ^ 3 * 10 + 7), port = 30303\<rparr>"
    by (simp add: getIPAddress_def)
  from formatted_ip_round_trip [OF this] this show ?thesis by simp
qed

end
