(* ===== verification/ColumnTypes.thy ===== *)
theory ColumnTypes imports EventProcessor Integrity Samples begin

text \<open>
  The types of the columns beyond what their SQL types say: address columns hold 20 bytes, hash columns 32,
  and every amount has at most 18 decimals, so that \<open>NUMERIC(36,18)\<close> keeps it exactly. Events of the
  contracts, whose addresses and hashes have their length, preserve these types, whatever fails on the way.
\<close>

section \<open>Typed rows\<close>

definition is20 :: "buffer \<Rightarrow> bool" where
  "is20 b \<longleftrightarrow> length (raw b) = 20"

definition is32 :: "buffer \<Rightarrow> bool" where
  "is32 b \<longleftrightarrow> length (raw b) = 32"

definition scale18 :: "BigNumber \<Rightarrow> bool" where
  "scale18 v \<longleftrightarrow> v * 10 ^ 18 \<in> \<int>"

definition typed_db :: "db \<Rightarrow> bool" where
  "typed_db d \<longleftrightarrow>
     (\<forall>r \<in> set (node d). is20 (pool_address r) \<and> is20 (mining_address r)) \<and>
     (\<forall>a \<in> set (delegate_staker d). is20 a) \<and>
     (\<forall>r \<in> set (ordered_withdrawal d). is20 (from_pool_stakingAddress r) \<and> is20 (ow_staker r) \<and> scale18 (ow_amount r)) \<and>
     (\<forall>r \<in> set (stake_history d). is20 (sh_node r) \<and> scale18 (stake_amount r)) \<and>
     (\<forall>r \<in> set (available_event d). is20 (av_node r)) \<and>
     (\<forall>r \<in> set (stake_delegators d). is20 (sd_pool_address r) \<and> is20 (sd_delegator r) \<and> scale18 (total_delegated r))"

definition typed_stake :: "StakeTransaction \<Rightarrow> bool" where
  "typed_stake t \<longleftrightarrow> is20 (st_pool_address t) \<and> nullable is20 (staker_address t) \<and>
     nullable is20 (to_pool_address t) \<and> nullable is20 (caller_address t)"

definition typed_name :: "DmdName \<Rightarrow> bool" where
  "typed_name n \<longleftrightarrow> is32 (label_hash n) \<and> nullable is20 (name_owner n) \<and> nullable is20 (name_creator n)"

definition typed_name_event :: "DmdNameEvent \<Rightarrow> bool" where
  "typed_name_event e \<longleftrightarrow> is32 (ne_label_hash e) \<and> nullable is20 (actor_address e) \<and>
     nullable is20 (from_address e) \<and> nullable is20 (to_address e) \<and> nullable is32 (tx_hash e)"

definition typed :: "manager \<Rightarrow> bool" where
  "typed m \<longleftrightarrow> typed_db (committed m) \<and> nullable typed_db (currentTransaction m) \<and>
     (\<forall>t \<in> set (stake_transactions m). typed_stake t) \<and> (\<forall>n \<in> set (dmd_names m). typed_name n) \<and>
     (\<forall>e \<in> set (dmd_name_events m). typed_name_event e)"

section \<open>Typed events\<close>

definition address20 :: "string \<Rightarrow> bool" where
  "address20 a \<longleftrightarrow> is_address a \<and> length a = 42"

definition hash32 :: "string \<Rightarrow> bool" where
  "hash32 h \<longleftrightarrow> is_address h \<and> length h = 66"

fun typed_event :: "contract_event \<Rightarrow> bool" where
  "typed_event (StakeChangedEvent n b t p s e a) \<longleftrightarrow> address20 p \<and> address20 s"
| "typed_event (MovedStakeEvent n b t f p s e a) \<longleftrightarrow> address20 f \<and> address20 p \<and> address20 s"
| "typed_event (OrderedWithdrawalEvent n b t p s e a) \<longleftrightarrow> address20 p \<and> address20 s"
| "typed_event (ClaimedOrderedWithdrawalEvent n b t p s e a) \<longleftrightarrow> address20 p \<and> address20 s"
| "typed_event (GatherAbandonedStakesEvent n b t c p a) \<longleftrightarrow> address20 c \<and> address20 p"
| "typed_event (AvailabilityEvent n b t p a) \<longleftrightarrow> address20 p"
| "typed_event (NameRegisteredEvent n b t l p h d x i) \<longleftrightarrow> address20 p \<and> hash32 h \<and> hash32 i"
| "typed_event (NameActivatedEvent n b t l p h d i) \<longleftrightarrow> address20 p \<and> hash32 h \<and> hash32 i"
| "typed_event (NameDeactivatedEvent n b t l p h d i) \<longleftrightarrow> address20 p \<and> hash32 h \<and> hash32 i"
| "typed_event (NameRenewedEvent n b t l p h d x i) \<longleftrightarrow> address20 p \<and> hash32 h \<and> hash32 i"
| "typed_event (NameBlockedSetEvent n b t l h d k i) \<longleftrightarrow> hash32 h \<and> hash32 i"
| "typed_event (DmdNameTransferEvent n b t l f p k i) \<longleftrightarrow> address20 f \<and> address20 p \<and> k < 16 ^ 64 \<and> hash32 i"

section \<open>Typed values\<close>

lemma length_hex_decode: "is_hex s \<Longrightarrow> length (hex_decode s) = length s div 2"
  by (induction s rule: hex_decode.induct) (auto simp: is_hex_def split: option.splits)

lemma is_hex_lower [simp]: "is_hex (to_lower s) = is_hex s"
  by (simp add: is_hex_def to_lower_def list_all_iff)

lemma address20_is20 [simp]: "address20 a \<Longrightarrow> is20 (addressToBuffer a)"
  by (simp add: address20_def is_address_def is20_def addressToBuffer_def buffer_from_hex_def drop_to_lower
      length_hex_decode hex_decode_lower)

lemma hash32_is32 [simp]: "hash32 h \<Longrightarrow> is32 (hexToBuffer h)"
  by (simp add: hash32_def is_address_def is32_def hexToBuffer_def truncate0x_def buffer_from_hex_def
      length_hex_decode hex_decode_lower)

lemma to_hex_digits:
  assumes "n < 16 ^ k" "k > 0"
  shows "length (to_hex n) \<le> k \<and> list_all (\<lambda>c. hex_val c \<noteq> None) (to_hex n)"
  using assms
proof (induction n arbitrary: k rule: to_hex.induct)
  case (1 n)
  show ?case
  proof (cases "n < 16")
    case True
    then show ?thesis using 1(3) by (simp add: to_hex.simps [of n] hex_val_hex_digit Suc_leI del: hex_digit.simps)
  next
    case False
    then obtain j where j: "k = Suc j" "j > 0" using 1(2,3) by (cases k; cases "k - 1") auto
    then have "n div 16 < 16 ^ j" using 1(2) by (simp add: less_mult_imp_div_less mult.commute)
    from 1(1) [OF False this j(2)] show ?thesis
      using False j by (simp add: to_hex.simps [of n] hex_val_hex_digit del: hex_digit.simps)
  qed
qed

lemma token_hash32: "k < 16 ^ 64 \<Longrightarrow> is32 (hexToBuffer (tokenIdToLabelHash k))"
proof -
  assume k: "k < 16 ^ 64"
  have "length (to_hex k) \<le> 64" "list_all (\<lambda>c. hex_val c \<noteq> None) (to_hex k)"
    using to_hex_digits [OF k] by simp_all
  then have "hash32 (tokenIdToLabelHash k)"
    by (auto simp: hash32_def is_address_def is_hex_def tokenIdToLabelHash_def padStart_def list_all_iff hex_val_def)
  then show ?thesis by (rule hash32_is32)
qed

lemma scale18_parseEther [simp]: "scale18 (parseEther w)"
  by (simp add: scale18_def parseEther_def)

lemma scale18_sums [simp]:
  "scale18 0" "scale18 x \<Longrightarrow> scale18 y \<Longrightarrow> scale18 (x + y)" "scale18 x \<Longrightarrow> scale18 y \<Longrightarrow> scale18 (x - y)"
  "scale18 x \<Longrightarrow> scale18 (- x)"
  by (simp_all add: scale18_def distrib_right left_diff_distrib)

lemma scale18_change [simp]: "scale18 (getStakeChangeAmount e)"
  by (simp add: getStakeChangeAmount_def Let_def)

section \<open>Programs that keep a property and deliver a typed result\<close>

definition delivers :: "('s \<Rightarrow> bool) \<Rightarrow> ('a \<Rightarrow> bool) \<Rightarrow> ('s, 'a) prog \<Rightarrow> bool" where
  "delivers I P A \<longleftrightarrow> (\<forall>w. I w \<longrightarrow> I (snd (A w)) \<and> (\<forall>x. fst (A w) = Inr x \<longrightarrow> P x))"

abbreviation anything :: "'a \<Rightarrow> bool" where
  "anything \<equiv> \<lambda>_. True"

lemma delivers_ret: "P x \<Longrightarrow> delivers I P (ret x)"
  by (simp add: delivers_def ret_def)

lemma delivers_andThen: "delivers I P A \<Longrightarrow> (\<And>x. P x \<Longrightarrow> delivers I Q (f x)) \<Longrightarrow> delivers I Q (andThen A f)"
  by (fastforce simp: delivers_def andThen_def split: prod.splits sum.splits)

lemma delivers_if: "(c \<Longrightarrow> delivers I P A) \<Longrightarrow> (\<not> c \<Longrightarrow> delivers I P B) \<Longrightarrow> delivers I P (if c then A else B)"
  by simp

lemma delivers_forEach: "(\<And>x. x \<in> set xs \<Longrightarrow> delivers I anything (f x)) \<Longrightarrow> delivers I anything (forEach xs f)"
  by (induction xs) (auto intro: delivers_ret delivers_andThen [where P = anything])

lemma typed_set_context: "typed m \<Longrightarrow> typed_db d \<Longrightarrow> typed (set_context d m)"
  by (auto simp: typed_def set_context_def nullable_def split: option.splits)

lemma typed_context: "typed m \<Longrightarrow> typed_db (getDbContext m)"
  by (auto simp: typed_def getDbContext_def nullable_def split: option.splits)

lemma typed_aborted [simp]: "typed (m\<lparr>tx_aborted := b\<rparr>) = typed m"
  by (simp add: typed_def)

lemma delivers_query:
  assumes "\<And>d x d'. typed_db d \<Longrightarrow> s d = Inr (x, d') \<Longrightarrow> typed_db d' \<and> P x"
  shows "delivers typed P (query s)"
  unfolding delivers_def
proof (intro allI impI)
  fix m assume m: "typed m"
  show "typed (snd (query s m)) \<and> (\<forall>x. fst (query s m) = Inr x \<longrightarrow> P x)"
  proof (cases "s (getDbContext m)")
    case (Inl e)
    then show ?thesis using m by (simp add: query_def)
  next
    case (Inr y)
    obtain x d where "y = (x, d)" by fastforce
    with Inr have "typed_db d \<and> P x" using assms typed_context [OF m] by blast
    with Inr \<open>y = (x, d)\<close> show ?thesis using m by (simp add: query_def typed_set_context)
  qed
qed

lemma delivers_execute:
  "(\<And>d d'. typed_db d \<Longrightarrow> s d = Inr d' \<Longrightarrow> typed_db d') \<Longrightarrow> delivers typed anything (execute s)"
  unfolding execute_def by (rule delivers_query) (auto simp: result_simps)

lemma delivers_read: "(\<And>d x. typed_db d \<Longrightarrow> s d = Inr x \<Longrightarrow> P x) \<Longrightarrow> delivers typed P (read s)"
  unfolding read_def by (rule delivers_query) (auto simp: result_simps)

lemma delivers_retry:
  assumes "delivers typed anything A"
  shows "delivers typed anything (executeWithRetry A)"
proof -
  have "keeps typed A" using assms by (simp add: keeps_def delivers_def)
  moreover have "typed m \<Longrightarrow> typed (m\<lparr>clock := c, reconnects := rs, connectionRetries := n\<rparr>)" for m c rs n
    by (simp add: typed_def)
  ultimately have "keeps typed (executeWithRetry A)" unfolding executeWithRetry_def by (rule keeps_retry_from)
  then show ?thesis by (simp add: keeps_def delivers_def)
qed

section \<open>The methods\<close>

lemma typed_insert:
  "insert_row name key fk r rows = Inr rows' \<Longrightarrow> (\<forall>x \<in> set rows. P x) \<Longrightarrow> P r \<Longrightarrow> (\<forall>x \<in> set rows'. P x)"
  by (auto simp: table_simps)

lemma typed_update:
  "update_rows name key fk Q f rows = Inr rows' \<Longrightarrow> (\<forall>x \<in> set rows. P x) \<Longrightarrow> (\<And>x. P x \<Longrightarrow> Q x \<Longrightarrow> P (f x)) \<Longrightarrow>
   (\<forall>x \<in> set rows'. P x)"
  by (auto simp: table_simps)

lemma typed_find:
  "find_one name Q rows = Inr r \<Longrightarrow> (\<forall>x \<in> set rows. P x) \<Longrightarrow> nullable P r"
  by (cases r) (auto simp: nullable_def dest: find_one_SomeD)

abbreviation typed_record :: "StakeHistory option \<Rightarrow> bool" where
  "typed_record \<equiv> nullable (\<lambda>r. is20 (sh_node r) \<and> scale18 (stake_amount r))"

lemma stake_history_methods:
  "is20 (sh_node r) \<Longrightarrow> scale18 (stake_amount r) \<Longrightarrow> delivers typed anything (insertStakeHistoryRecord r)"
  "delivers typed anything (updateStakeHistory r b)"
  "delivers typed typed_record (getLastStakeHistoryRecord p)"
proof -
  assume "is20 (sh_node r)" "scale18 (stake_amount r)"
  then show "delivers typed anything (insertStakeHistoryRecord r)"
    unfolding insertStakeHistoryRecord_def
    by (intro delivers_execute) (auto simp: result_simps table_simps typed_db_def)
next
  show "delivers typed anything (updateStakeHistory r b)"
    unfolding updateStakeHistory_def by (intro delivers_execute) (auto simp: result_simps table_simps typed_db_def)
  have find: "delivers typed typed_record (read (\<lambda>d. find_one name Q (stake_history d)))" for name Q
    by (rule delivers_read) (auto simp: typed_db_def elim!: typed_find)
  show "delivers typed typed_record (getLastStakeHistoryRecord p)"
    unfolding getLastStakeHistoryRecord_def
    by (rule delivers_andThen [where P = anything])
      (auto split: list.splits intro: delivers_read find delivers_ret simp: nullable_def)
qed

lemma delegator_methods_typed:
  "is20 (addressToBuffer p) \<Longrightarrow> is20 (addressToBuffer a) \<Longrightarrow> scale18 v \<Longrightarrow> delivers typed anything (insertStakeDelegator p a v)"
  "scale18 v \<Longrightarrow> delivers typed anything (updateStakeDelegator p a v)"
  "delivers typed (nullable (\<lambda>r. scale18 (total_delegated r))) (getStakeDelegator p a)"
  "is20 (addressToBuffer a) \<Longrightarrow> delivers typed anything (ensureDelegateStaker a)"
proof -
  show "delivers typed anything (insertStakeDelegator p a v)"
    if "is20 (addressToBuffer p)" "is20 (addressToBuffer a)" "scale18 v"
    unfolding insertStakeDelegator_def using that
    by (intro delivers_execute) (auto simp: result_simps table_simps typed_db_def)
  show "delivers typed anything (updateStakeDelegator p a v)" if "scale18 v"
    unfolding updateStakeDelegator_def using that
    by (intro delivers_execute) (auto simp: result_simps table_simps typed_db_def)
  show "delivers typed (nullable (\<lambda>r. scale18 (total_delegated r))) (getStakeDelegator p a)"
    unfolding getStakeDelegator_def by (rule delivers_read) (auto simp: typed_db_def elim!: typed_find)
  have insert: "delivers typed anything (execute (\<lambda>d. await (insert_row name id fk b (delegate_staker d))
      (\<lambda>rows. Inr (d\<lparr>delegate_staker := rows\<rparr>))))" if "is20 b" for name fk b
    using that by (intro delivers_execute) (auto simp: result_simps table_simps typed_db_def)
  show "delivers typed anything (ensureDelegateStaker a)" if "is20 (addressToBuffer a)"
    unfolding ensureDelegateStaker_def
    by (rule delivers_andThen [where P = anything]) (auto split: option.splits intro: delivers_read delivers_ret insert [OF that])
qed

lemma saveDelegatedStake_typed:
  assumes "address20 p" "address20 a" "scale18 v"
  shows "delivers typed anything (saveDelegatedStake p a v)"
  unfolding saveDelegatedStake_def
  by (rule delivers_andThen [where P = anything], rule delegator_methods_typed,
      use assms in simp, rule delivers_andThen, rule delegator_methods_typed(3))
    (use assms in \<open>auto split: option.splits simp: nullable_def intro!: delegator_methods_typed\<close>)

lemma replaceStakeRecord_typed:
  "is20 p \<Longrightarrow> scale18 v \<Longrightarrow> delivers typed anything (replaceStakeRecord r b p v)"
  unfolding replaceStakeRecord_def
  by (rule delivers_andThen [where P = anything]) (auto intro: stake_history_methods)

lemma insertDelegateStaker_typed:
  assumes "\<forall>a \<in> set as. address20 a"
  shows "delivers typed anything (insertDelegateStaker as)"
proof -
  have "typed_db d'" if d: "typed_db d" and run: "forM (map addressToBuffer as)
      (\<lambda>a rows. insert_or_ignore name id (\<lambda>_. True) a rows) (delegate_staker d) = Inr rows"
    and d': "d' = d\<lparr>delegate_staker := rows\<rparr>" for d d' :: db and name rows
  proof -
    have "\<forall>a \<in> set rows. is20 a"
      by (rule forM_invariant [OF run, where I = "\<lambda>rows. \<forall>a \<in> set rows. is20 a"])
        (use d assms in \<open>auto simp: typed_db_def table_simps split: if_splits\<close>)
    then show ?thesis using d d' by (simp add: typed_db_def)
  qed
  then show ?thesis
    unfolding insertDelegateStaker_def
    by (intro delivers_retry delivers_execute) (auto simp: result_simps)
qed

lemma order_methods_typed:
  "is20 p \<Longrightarrow> is20 s \<Longrightarrow> scale18 v \<Longrightarrow> delivers typed anything (insertOrderWithdrawalEvent b p s e v)"
  "delivers typed (nullable (\<lambda>r. scale18 (ow_amount r))) (getOrderWithdrawalEvent Q)"
  "(\<And>r. from_pool_stakingAddress (f r) = from_pool_stakingAddress r) \<Longrightarrow> (\<And>r. ow_staker (f r) = ow_staker r) \<Longrightarrow>
   (\<And>r. scale18 (ow_amount r) \<Longrightarrow> scale18 (ow_amount (f r))) \<Longrightarrow> delivers typed anything (updateOrderWithdrawalEvent Q f)"
proof -
  show "delivers typed anything (insertOrderWithdrawalEvent b p s e v)" if "is20 p" "is20 s" "scale18 v"
    unfolding insertOrderWithdrawalEvent_def using that
    by (intro delivers_execute) (auto simp: result_simps table_simps typed_db_def)
  show "delivers typed (nullable (\<lambda>r. scale18 (ow_amount r))) (getOrderWithdrawalEvent Q)"
    unfolding getOrderWithdrawalEvent_def by (rule delivers_read) (auto simp: typed_db_def elim!: typed_find)
  show "delivers typed anything (updateOrderWithdrawalEvent Q f)"
    if "\<And>r. from_pool_stakingAddress (f r) = from_pool_stakingAddress r" "\<And>r. ow_staker (f r) = ow_staker r"
      "\<And>r. scale18 (ow_amount r) \<Longrightarrow> scale18 (ow_amount (f r))"
    unfolding updateOrderWithdrawalEvent_def using that
    by (intro delivers_execute) (auto simp: result_simps table_simps typed_db_def)
qed

lemma insertAvailabilityEvent_typed: "is20 (av_node r) \<Longrightarrow> delivers typed anything (insertAvailabilityEvent r)"
  unfolding insertAvailabilityEvent_def by (intro delivers_execute) (auto simp: result_simps table_simps typed_db_def)

lemma insertStakeTransaction_typed:
  assumes "address20 p" "nullable address20 s" "nullable address20 q" "nullable address20 c"
  shows "delivers typed anything (insertStakeTransaction b t ty p s q c v e dl)"
  using assms
  by (auto simp: delivers_def insertStakeTransaction_def typed_def typed_stake_def nullable_def split: option.splits)

lemma name_methods_typed:
  "typed_name n \<Longrightarrow> delivers typed anything (upsertDmdName n)"
  "typed_name_event e \<Longrightarrow> delivers typed anything (insertDmdNameEvent e)"
proof -
  have merge: "typed_name n \<Longrightarrow> typed_name k \<Longrightarrow> typed_name (merge_name n k)" for n k
    by (auto simp: typed_name_def merge_name_def coalesce_def nullable_def split: option.splits)
  show "typed_name n \<Longrightarrow> delivers typed anything (upsertDmdName n)"
    by (auto simp: delivers_def upsertDmdName_def typed_def merge)
  show "typed_name_event e \<Longrightarrow> delivers typed anything (insertDmdNameEvent e)"
    by (auto simp: delivers_def insertDmdNameEvent_def typed_def)
qed

section \<open>The events\<close>

lemmas method_types = stake_history_methods delegator_methods_typed saveDelegatedStake_typed replaceStakeRecord_typed
  insertDelegateStaker_typed order_methods_typed insertAvailabilityEvent_typed insertStakeTransaction_typed name_methods_typed

lemma typed_name_rows:
  "is32 h \<Longrightarrow> typed_name (name_row e h ty)"
  "is32 h \<Longrightarrow> hash32 (txHash e) \<Longrightarrow> typed_name_event (name_event_row e h ty)"
  by (simp_all add: typed_name_def name_row_def typed_name_event_def name_event_row_def nullable_def)

lemma names_typed:
  assumes "typed_event e"
  shows "e = NameRegisteredEvent n b t l p h d x i \<Longrightarrow> delivers typed anything (accept e)"
    and "e = NameActivatedEvent n b t l p h d i \<Longrightarrow> delivers typed anything (accept e)"
    and "e = NameDeactivatedEvent n b t l p h d i \<Longrightarrow> delivers typed anything (accept e)"
    and "e = NameRenewedEvent n b t l p h d x i \<Longrightarrow> delivers typed anything (accept e)"
    and "e = NameBlockedSetEvent n b t l h d k' i \<Longrightarrow> delivers typed anything (accept e)"
    and "e = DmdNameTransferEvent n b t l f p k i \<Longrightarrow> delivers typed anything (accept e)"
  using assms
  by (auto simp: Let_def visitNameRegisteredEvent_def visitNameActivatedEvent_def visitNameDeactivatedEvent_def
      visitNameRenewedEvent_def visitNameBlockedSetEvent_def visitDmdNameTransferEvent_def typed_name_def name_row_def
      typed_name_event_def name_event_row_def nullable_def token_hash32
      intro!: delivers_andThen [where P = anything] name_methods_typed)

text \<open>The steps of a visit: a step whose result is not used, and the look-ups.\<close>

lemma delivers_step: "delivers I anything A \<Longrightarrow> delivers I Q B \<Longrightarrow> delivers I Q (andThen A (\<lambda>_. B))"
  by (rule delivers_andThen)

lemma delivers_last: "delivers I anything A \<Longrightarrow> delivers I anything (andThen A ret)"
  by (rule delivers_andThen [where P = anything]) (auto intro: delivers_ret)

lemma with_last_record:
  assumes "delivers typed Q (f None)"
    and "\<And>r. is20 (sh_node r) \<Longrightarrow> scale18 (stake_amount r) \<Longrightarrow> delivers typed Q (f (Some r))"
  shows "delivers typed Q (andThen (getLastStakeHistoryRecord p) f)"
proof (rule delivers_andThen, rule stake_history_methods(3))
  fix x assume "typed_record x"
  then show "delivers typed Q (f x)" using assms by (cases x) (auto simp: nullable_def)
qed

lemma with_order:
  assumes "delivers typed Q (f None)" and "\<And>r. scale18 (ow_amount r) \<Longrightarrow> delivers typed Q (f (Some r))"
  shows "delivers typed Q (andThen (getOrderWithdrawalEvent c) f)"
proof (rule delivers_andThen, rule order_methods_typed(2))
  fix x :: "OrderedWithdrawal option" assume "nullable (\<lambda>r. scale18 (ow_amount r)) x"
  then show "delivers typed Q (f x)" using assms by (cases x) (auto simp: nullable_def)
qed

lemmas visit_types = with_last_record with_order delivers_last delivers_step delivers_if delivers_ret
  stake_history_methods(1,2) saveDelegatedStake_typed replaceStakeRecord_typed insertDelegateStaker_typed
  order_methods_typed(1,3) insertAvailabilityEvent_typed insertStakeTransaction_typed

lemma stake_visits_typed:
  "address20 p \<Longrightarrow> address20 s \<Longrightarrow> delivers typed anything (accept (StakeChangedEvent n b t p s e a))"
  "address20 f \<Longrightarrow> address20 p \<Longrightarrow> address20 s \<Longrightarrow> delivers typed anything (accept (MovedStakeEvent n b t f p s e a))"
  "address20 p \<Longrightarrow> address20 s \<Longrightarrow> delivers typed anything (accept (OrderedWithdrawalEvent n b t p s e a))"
  "address20 p \<Longrightarrow> address20 s \<Longrightarrow> delivers typed anything (accept (ClaimedOrderedWithdrawalEvent n b t p s e a))"
  "address20 c \<Longrightarrow> address20 p \<Longrightarrow> delivers typed anything (accept (GatherAbandonedStakesEvent n b t c p a))"
  "address20 p \<Longrightarrow> delivers typed anything (accept (AvailabilityEvent n b t p v))"
  by (auto simp: Let_def visitStakeChangedEvent_def visitMovedStakeEvent_def visitOrderedWithdrawalEvent_def
      visitClaimedOrderedWithdrawalEvent_def visitGatherAbandonedStakesEvent_def visitAvailabilityEvents_def nullable_def
      intro!: visit_types)

text \<open>C17: Whatever events the contracts raise, as long as their addresses have 20 bytes and their hashes 32, and
  whatever statement of a visit fails: address columns go on holding 20 bytes and hash columns 32, and every
  amount has at most 18 decimals, so that its column keeps it exactly.\<close>

theorem events_keep_column_types:
  assumes "typed m" and "\<forall>e \<in> set events. typed_event e" and "processEvents events m = (r, m')"
  shows "typed m'"
proof -
  have "delivers typed anything (accept e)" if "e \<in> set events" for e
    using assms(2) that names_typed [of e] stake_visits_typed by (cases e) auto
  then have "delivers typed anything (processEvents events)"
    unfolding processEvents_def by (intro delivers_if delivers_ret delivers_forEach) simp_all
  then show ?thesis using assms(1,3) by (metis delivers_def snd_conv)
qed

definition full_address :: "char \<Rightarrow> string" where
  "full_address c = ''0x'' @ replicate 40 c"

definition typed_manager :: manager where
  "typed_manager = new_manager\<lparr>committed := empty_db\<lparr>headers := map sample_header [0, 1],
     node := [sample_node (full_address CHR ''a'')]\<rparr>\<rparr>"

lemma events_keep_column_types_witness:
  "let events = [AvailabilityEvent ''AvailabilityChanged'' 1 0 (full_address CHR ''a'') True];
       m' = snd (processEvents events typed_manager)
   in typed m' \<and> map av_block (available_event (committed m')) = [1]"
proof -
  let ?events = "[AvailabilityEvent ''AvailabilityChanged'' 1 0 (full_address CHR ''a'') True]"
  have address: "address20 (full_address CHR ''a'')" by code_simp
  then have "typed typed_manager"
    by (simp add: typed_def typed_manager_def new_manager_def typed_db_def empty_db_def sample_node_def nullable_def)
  moreover have "\<forall>e \<in> set ?events. typed_event e" using address by simp
  ultimately have "typed (snd (processEvents ?events typed_manager))"
    by (rule events_keep_column_types [where r = "fst (processEvents ?events typed_manager)"]) simp
  moreover have "map av_block (available_event (committed (snd (processEvents ?events typed_manager)))) = [1]"
    by code_simp
  ultimately show ?thesis by (simp add: Let_def)
qed

end
