(* ===== verification/OlderManager.thy ===== *)
theory OlderManager imports DbManager begin

text \<open>
  The older DbManager, src/src/db/database.ts, which the API's service and the scripts for the tables still
  use: every statement goes through the connection pool and commits by itself, and nothing is retried. One
  definition for each method that sends its statements otherwise than src/src/db/database-persistent.ts; the
  remaining ones (reading and cleaning through the pool, the logs of stakes and names) are the same code.
\<close>

definition pool_execute :: "(db \<Rightarrow> db result) \<Rightarrow> unit action" where
  "pool_execute statement m =
     (case statement (committed m) of Inl e \<Rightarrow> (Inl e, m) | Inr d \<Rightarrow> (Inr (), m\<lparr>committed := d\<rparr>))"

section \<open>Bonus scores\<close>

definition older_insert_bonus_score_history :: "BonusScoreHistory \<Rightarrow> unit action" where
  "older_insert_bonus_score_history r = pool_execute (\<lambda>d.
     await (insert_row ''bonus_score_history'' bonus_score_history_key (bonus_score_history_fk d) r
         (bonus_score_history d))
       (\<lambda>rows. Inr (d\<lparr>bonus_score_history := rows\<rparr>)))"

definition older_writeInitialBonusScore :: "string \<Rightarrow> int \<Rightarrow> int \<Rightarrow> unit action" where
  "older_writeInitialBonusScore pool blockNumber currentScore =
     older_insert_bonus_score_history
       \<lparr>bs_from_block = blockNumber, bs_to_block = None, bs_node = addressToBuffer pool,
        bs_score = currentScore\<rparr>"

definition older_update_node_bonus_score :: "string \<Rightarrow> int \<Rightarrow> unit action" where
  "older_update_node_bonus_score pool bonusScore = pool_execute (\<lambda>d.
     await (update_rows ''node'' pool_address (node_fk d)
         (\<lambda>r. pool_address r = addressToBuffer pool) (\<lambda>r. r\<lparr>node_bonus_score := bonusScore\<rparr>) (node d))
       (\<lambda>rows. Inr (d\<lparr>node := rows\<rparr>)))"

definition older_updateBonusScore :: "string \<Rightarrow> int \<Rightarrow> int \<Rightarrow> unit action" where
  "older_updateBonusScore pool bonusScore changeBlock =
     andThen (pool_execute (\<lambda>d.
       await (update_rows ''bonus_score_history'' bonus_score_history_key (bonus_score_history_fk d)
           (\<lambda>r. bs_node r = addressToBuffer pool \<and> bs_to_block r = None)
           (\<lambda>r. r\<lparr>bs_to_block := Some (changeBlock - 1)\<rparr>) (bonus_score_history d))
         (\<lambda>rows. Inr (d\<lparr>bonus_score_history := rows\<rparr>))))
     (\<lambda>_. andThen (older_insert_bonus_score_history
       \<lparr>bs_from_block = changeBlock, bs_to_block = None, bs_node = addressToBuffer pool,
        bs_score = bonusScore\<rparr>)
     (\<lambda>_. older_update_node_bonus_score pool bonusScore))"

section \<open>Blocks and epochs\<close>

definition older_insertHeader :: "Headers \<Rightarrow> unit action" where
  "older_insertHeader r =
     andThen (pool_read (\<lambda>d. find_one ''headers'' (\<lambda>h. block_number h = block_number r) (headers d)))
     (\<lambda>existing. case existing of
        Some _ \<Rightarrow> ret ()
      | None \<Rightarrow> pool_execute (\<lambda>d.
          await (insert_row ''headers'' block_number (\<lambda>_. True) r (headers d))
            (\<lambda>rows. Inr (d\<lparr>headers := rows\<rparr>))))"

definition older_getLastProcessedEpoch :: "PosdaoEpoch option action" where
  "older_getLastProcessedEpoch = pool_read (\<lambda>d.
     case max_of (map epoch_id (posdao_epoch d)) of
       None \<Rightarrow> Inr None
     | Some i \<Rightarrow> find_one ''posdao_epoch'' (\<lambda>r. epoch_id r = i) (posdao_epoch d))"

definition older_getLastProcessedBlock :: "Headers option action" where
  "older_getLastProcessedBlock = pool_read (\<lambda>d.
     case max_of (map block_number (headers d)) of
       None \<Rightarrow> Inr None
     | Some b \<Rightarrow> find_one ''headers'' (\<lambda>r. block_number r = b) (headers d))"

definition older_insertStakingEpoch :: "int \<Rightarrow> int \<Rightarrow> unit action" where
  "older_insertStakingEpoch epochNumber blockStartNumber = pool_execute (\<lambda>d.
     if blockStartNumber \<in> set (map block_start (posdao_epoch d))
     then Inl (UniqueViolation ''posdao_epoch'')
     else await (insert_row ''posdao_epoch'' epoch_id (epoch_fk d)
         \<lparr>epoch_id = epochNumber, block_start = blockStartNumber, block_end = None\<rparr> (posdao_epoch d))
       (\<lambda>rows. Inr (d\<lparr>posdao_epoch := rows\<rparr>)))"

definition older_updateValidatorReward ::
  "string \<Rightarrow> int \<Rightarrow> BigNumber \<Rightarrow> BigNumber \<Rightarrow> BigNumber \<Rightarrow> BigNumber \<Rightarrow> BigNumber \<Rightarrow> BigNumber \<Rightarrow>
   BigNumber \<Rightarrow> unit action" where
  "older_updateValidatorReward rewardedValidator epoch reward apy totalPoolReward validatorFixed
     nodeOperatorReward delegatorsTotal totalStake = pool_execute (\<lambda>d.
     await (update_rows ''posdao_epoch_node'' epoch_node_key (epoch_node_fk d)
         (\<lambda>r. id_posdao_epoch r = epoch \<and> id_node r = addressToBuffer rewardedValidator)
         (\<lambda>r. r\<lparr>owner_reward := Some reward, epoch_apy := apy, total_pool_reward := totalPoolReward,
                validator_fixed_reward := validatorFixed, node_operator_reward := nodeOperatorReward,
                delegators_total_reward := delegatorsTotal, total_staked_snapshot := totalStake\<rparr>)
         (posdao_epoch_node d))
       (\<lambda>rows. Inr (d\<lparr>posdao_epoch_node := rows\<rparr>)))"

definition older_endStakingEpoch :: "int \<Rightarrow> int \<Rightarrow> unit action" where
  "older_endStakingEpoch epochToEnd epochsLastBlockNumber = pool_execute (\<lambda>d.
     if \<not> distinct (present (map block_end (set_where (\<lambda>r. epoch_id r = epochToEnd)
          (\<lambda>r. r\<lparr>block_end := Some epochsLastBlockNumber\<rparr>) (posdao_epoch d))))
     then Inl (UniqueViolation ''posdao_epoch'')
     else await (update_rows ''posdao_epoch'' epoch_id (epoch_fk d) (\<lambda>r. epoch_id r = epochToEnd)
         (\<lambda>r. r\<lparr>block_end := Some epochsLastBlockNumber\<rparr>) (posdao_epoch d))
       (\<lambda>rows. Inr (d\<lparr>posdao_epoch := rows\<rparr>)))"

section \<open>Nodes\<close>

definition older_insertNode :: "string \<Rightarrow> string \<Rightarrow> string \<Rightarrow> int \<Rightarrow> int \<Rightarrow> unit action" where
  "older_insertNode poolAddress miningAddress miningPublicKey addedBlock bonusScore =
     pool_execute (\<lambda>d.
       await (insert_row ''node'' pool_address (node_fk d)
           \<lparr>pool_address = addressToBuffer poolAddress, mining_address = addressToBuffer miningAddress,
            mining_public_key = addressToBuffer miningPublicKey, added_block = addedBlock,
            node_bonus_score = bonusScore\<rparr> (node d))
         (\<lambda>rows. Inr (d\<lparr>node := rows\<rparr>)))"

text \<open>\<open>reward_computed\<close> is not set: its column is FALSE by default.\<close>

definition older_insertEpochNode :: "int \<Rightarrow> string \<Rightarrow> unit action" where
  "older_insertEpochNode posdaoEpoch validator = pool_execute (\<lambda>d.
     await (insert_row ''posdao_epoch_node'' epoch_node_key (epoch_node_fk d)
         \<lparr>id_node = addressToBuffer validator, id_posdao_epoch = posdaoEpoch, owner_reward = None,
          is_claimed = None, epoch_apy = 0, total_pool_reward = 0, validator_fixed_reward = 0,
          node_operator_reward = 0, delegators_total_reward = 0, total_staked_snapshot = 0,
          reward_computed = False\<rparr> (posdao_epoch_node d))
       (\<lambda>rows. Inr (d\<lparr>posdao_epoch_node := rows\<rparr>)))"

definition older_getNodes :: "Node list action" where
  "older_getNodes = pool_read (\<lambda>d. Inr (sort_key pool_address (node d)))"

definition older_updateValidatorBonusScore :: "string \<Rightarrow> int \<Rightarrow> unit action" where
  "older_updateValidatorBonusScore poolAddress newScore = older_update_node_bonus_score poolAddress newScore"

definition older_insertAvailabilityEvent :: "AvailableEvent \<Rightarrow> unit action" where
  "older_insertAvailabilityEvent params = pool_execute (\<lambda>d.
     await (insert_row ''available_event'' available_event_key (available_event_fk d) params
         (available_event d))
       (\<lambda>rows. Inr (d\<lparr>available_event := rows\<rparr>)))"

section \<open>Withdrawals, stakes and delegators\<close>

definition older_insertOrderWithdrawalEvent ::
  "int \<Rightarrow> buffer \<Rightarrow> buffer \<Rightarrow> int \<Rightarrow> BigNumber \<Rightarrow> unit action" where
  "older_insertOrderWithdrawalEvent blockNumber pool staker stakingEpoch amount = pool_execute (\<lambda>d.
     await (insert_row ''ordered_withdrawal'' ow_id (ordered_withdrawal_fk d)
         \<lparr>ow_id = ordered_withdrawal_id_seq d, ow_amount = amount, ow_block_number = blockNumber,
          ow_staking_epoch = stakingEpoch, from_pool_stakingAddress = pool, ow_staker = staker,
          claimed_on_block = None\<rparr> (ordered_withdrawal d))
       (\<lambda>rows. Inr (d\<lparr>ordered_withdrawal := rows,
                       ordered_withdrawal_id_seq := ordered_withdrawal_id_seq d + 1\<rparr>)))"

definition older_getOrderWithdrawalEvent ::
  "(OrderedWithdrawal \<Rightarrow> bool) \<Rightarrow> OrderedWithdrawal option action" where
  "older_getOrderWithdrawalEvent cond = pool_read (\<lambda>d.
     find_one ''ordered_withdrawal'' cond (ordered_withdrawal d))"

definition older_updateOrderWithdrawalEvent ::
  "(OrderedWithdrawal \<Rightarrow> bool) \<Rightarrow> (OrderedWithdrawal \<Rightarrow> OrderedWithdrawal) \<Rightarrow> unit action" where
  "older_updateOrderWithdrawalEvent cond update = pool_execute (\<lambda>d.
     await (update_rows ''ordered_withdrawal'' ow_id (ordered_withdrawal_fk d) cond update
         (ordered_withdrawal d))
       (\<lambda>rows. Inr (d\<lparr>ordered_withdrawal := rows\<rparr>)))"

definition older_insertStakeHistoryRecord :: "StakeHistory \<Rightarrow> unit action" where
  "older_insertStakeHistoryRecord params = pool_execute (\<lambda>d.
     await (insert_row ''stake_history'' stake_history_key (stake_history_fk d) params
         (stake_history d))
       (\<lambda>rows. Inr (d\<lparr>stake_history := rows\<rparr>)))"

definition older_insertStakeDelegator :: "string \<Rightarrow> string \<Rightarrow> BigNumber \<Rightarrow> unit action" where
  "older_insertStakeDelegator poolAddress delegator value = pool_execute (\<lambda>d.
     await (insert_row ''stake_delegators'' stake_delegators_key (stake_delegators_fk d)
         \<lparr>sd_pool_address = addressToBuffer poolAddress, sd_delegator = addressToBuffer delegator,
          total_delegated = value\<rparr> (stake_delegators d))
       (\<lambda>rows. Inr (d\<lparr>stake_delegators := rows\<rparr>)))"

definition older_ensureDelegateStaker :: "string \<Rightarrow> unit action" where
  "older_ensureDelegateStaker delegator =
     andThen (pool_read (\<lambda>d. find_one ''delegate_staker'' (\<lambda>a. a = addressToBuffer delegator)
       (delegate_staker d)))
     (\<lambda>found. case found of
        Some _ \<Rightarrow> ret ()
      | None \<Rightarrow> pool_execute (\<lambda>d.
          await (insert_row ''delegate_staker'' id (\<lambda>_. True) (addressToBuffer delegator)
              (delegate_staker d))
            (\<lambda>rows. Inr (d\<lparr>delegate_staker := rows\<rparr>))))"

definition older_updateStakeDelegator :: "string \<Rightarrow> string \<Rightarrow> BigNumber \<Rightarrow> unit action" where
  "older_updateStakeDelegator poolAddress delegator value = pool_execute (\<lambda>d.
     await (update_rows ''stake_delegators'' stake_delegators_key (stake_delegators_fk d)
         (\<lambda>r. sd_pool_address r = addressToBuffer poolAddress \<and>
              sd_delegator r = addressToBuffer delegator)
         (\<lambda>r. r\<lparr>total_delegated := value\<rparr>) (stake_delegators d))
       (\<lambda>rows. Inr (d\<lparr>stake_delegators := rows\<rparr>)))"

definition older_getStakeDelegator :: "string \<Rightarrow> string \<Rightarrow> StakeDelegators option action" where
  "older_getStakeDelegator poolAddress delegator = pool_read (\<lambda>d.
     find_one ''stake_delegators''
       (\<lambda>r. sd_pool_address r = addressToBuffer poolAddress \<and>
            sd_delegator r = addressToBuffer delegator)
       (stake_delegators d))"

definition older_getLastStakeHistoryRecord :: "string \<Rightarrow> StakeHistory option action" where
  "older_getLastStakeHistoryRecord poolAddress =
     andThen (pool_read (\<lambda>d. Inr (last_stake_rows (addressToBuffer poolAddress) (stake_history d))))
     (\<lambda>result. case result of
        [resultLine] \<Rightarrow> pool_read (\<lambda>d.
          find_one ''stake_history''
            (\<lambda>r. from_block r = from_block resultLine \<and> to_block r = to_block resultLine \<and>
                 stake_amount r = stake_amount resultLine \<and>
                 sh_node r = addressToBuffer poolAddress)
            (stake_history d))
      | _ \<Rightarrow> ret None)"

definition older_updateStakeHistory :: "StakeHistory \<Rightarrow> int \<Rightarrow> unit action" where
  "older_updateStakeHistory record toBlock = pool_execute (\<lambda>d.
     await (update_rows ''stake_history'' stake_history_key (stake_history_fk d)
         (\<lambda>r. from_block r = from_block record \<and> to_block r = to_block record \<and>
              sh_node r = sh_node record)
         (\<lambda>r. r\<lparr>to_block := toBlock\<rparr>) (stake_history d))
       (\<lambda>rows. Inr (d\<lparr>stake_history := rows\<rparr>)))"

section \<open>Rewards\<close>

definition older_getDelegatorRewardRecord :: "string \<Rightarrow> int \<Rightarrow> string \<Rightarrow> DelegateReward option action" where
  "older_getDelegatorRewardRecord pool epoch delegator = pool_read (\<lambda>d.
     find_one ''delegate_reward''
       (\<lambda>r. dr_id_delegator r = addressToBuffer delegator \<and> dr_id_node r = addressToBuffer pool \<and>
            dr_id_posdao_epoch r = epoch)
       (delegate_reward d))"

definition older_updateDelegatorRewardRecord :: "string \<Rightarrow> int \<Rightarrow> string \<Rightarrow> unit action" where
  "older_updateDelegatorRewardRecord pool epoch delegator = pool_execute (\<lambda>d.
     await (update_rows ''delegate_reward'' delegate_reward_key (delegate_reward_fk d)
         (\<lambda>r. dr_id_delegator r = addressToBuffer delegator \<and> dr_id_node r = addressToBuffer pool \<and>
              dr_id_posdao_epoch r = epoch)
         (\<lambda>r. r\<lparr>dr_is_claimed := True\<rparr>) (delegate_reward d))
       (\<lambda>rows. Inr (d\<lparr>delegate_reward := rows\<rparr>)))"

definition older_insertDelegateStaker :: "string list \<Rightarrow> unit action" where
  "older_insertDelegateStaker delegators = pool_execute (\<lambda>d.
     await (forM (map addressToBuffer delegators)
         (\<lambda>a rows. insert_or_ignore ''delegate_staker'' id (\<lambda>_. True) a rows) (delegate_staker d))
       (\<lambda>rows. Inr (d\<lparr>delegate_staker := rows\<rparr>)))"

definition older_insertDelegateRewardsBulk :: "DelegateRewardData list \<Rightarrow> unit action" where
  "older_insertDelegateRewardsBulk rewards = pool_execute (\<lambda>d.
     await (forM rewards
         (\<lambda>reward rows. insert_row ''delegate_reward'' delegate_reward_key (delegate_reward_fk d)
            \<lparr>dr_id_node = addressToBuffer (rd_poolAddress reward),
             dr_id_posdao_epoch = rd_epoch reward,
             dr_id_delegator = addressToBuffer (rd_delegatorAddress reward),
             dr_is_claimed = rd_isClaimed reward, reward_amount = rd_amount reward\<rparr> rows)
         (delegate_reward d))
       (\<lambda>rows. Inr (d\<lparr>delegate_reward := rows\<rparr>)))"

section \<open>Validator states\<close>

definition older_getValidators :: "PendingValidatorStateEvent list action" where
  "older_getValidators = pool_read (\<lambda>d.
     Inr (filter (\<lambda>r. on_exit_block_number r = None) (pending_validator_state_event d)))"

definition older_findValidator :: "string \<Rightarrow> string \<Rightarrow> PendingValidatorStateEvent option action" where
  "older_findValidator validator state = pool_read (\<lambda>d.
     find_one ''pending_validator_state_event''
       (\<lambda>r. pv_node r = addressToBuffer validator \<and> on_exit_block_number r = None \<and>
            pv_state r = state)
       (pending_validator_state_event d))"

definition older_insertValidator :: "PendingValidatorStateEvent \<Rightarrow> unit action" where
  "older_insertValidator validator = pool_execute (\<lambda>d.
     await (insert_row ''pending_validator_state_event'' pending_validator_key
         (pending_validator_fk d) validator (pending_validator_state_event d))
       (\<lambda>rows. Inr (d\<lparr>pending_validator_state_event := rows\<rparr>)))"

definition older_updateOrIgnoreValidator :: "string \<Rightarrow> string \<Rightarrow> int \<Rightarrow> int \<Rightarrow> unit action" where
  "older_updateOrIgnoreValidator validator state exitBlockNumber keygenRound =
     andThen (pool_read (\<lambda>d. find_one ''pending_validator_state_event''
       (\<lambda>r. pv_node r = addressToBuffer validator \<and> on_enter_block_number r \<noteq> exitBlockNumber \<and>
            on_exit_block_number r = None \<and> pv_state r = state) (pending_validator_state_event d)))
     (\<lambda>existingRecord. case existingRecord of
        None \<Rightarrow> ret ()
      | Some existing \<Rightarrow> pool_execute (\<lambda>d.
          await (update_rows ''pending_validator_state_event'' pending_validator_key
              (pending_validator_fk d)
              (\<lambda>r. pv_node r = addressToBuffer validator \<and> pv_state r = state \<and>
                   on_enter_block_number r = on_enter_block_number existing)
              (\<lambda>r. r\<lparr>on_exit_block_number := Some exitBlockNumber\<rparr>)
              (pending_validator_state_event d))
            (\<lambda>rows. Inr (d\<lparr>pending_validator_state_event := rows\<rparr>))))"

definition older_insertBonusScoreChangeReason ::
  "string \<Rightarrow> int \<Rightarrow> int \<Rightarrow> int \<Rightarrow> int \<Rightarrow> int \<Rightarrow> string \<Rightarrow> unit action" where
  "older_insertBonusScoreChangeReason poolAddress blockNumber epoch scoreChange previousScore newScore
     reason = try_catch (pool_execute (upsert_reason
       \<lparr>node_pool_address = addressToBuffer poolAddress, br_block_number = blockNumber,
        br_epoch = epoch, score_change = scoreChange, previous_score = previousScore,
        new_score = newScore, br_reason = reason\<rparr>))
     (\<lambda>_. ret ())"

end
