(* ===== verification/ManagerAgreement.thy ===== *)
theory ManagerAgreement imports OlderManager Samples begin

text \<open>
  The older DbManager against the persistent one: method by method they do the same to the tables as long as no
  transaction is open, with the two exceptions that the theorem at the end names. \<open>agree\<close> is an equivalence up
  to that condition, with one rule for each way in which actions are put together.
\<close>

section \<open>Agreement with the persistent manager\<close>

text \<open>Two actions agree when no transaction is open: same result, same manager.\<close>

definition agree :: "'a action \<Rightarrow> 'a action \<Rightarrow> bool" where
  "agree A B \<longleftrightarrow> (\<forall>m. currentTransaction m = None \<longrightarrow> A m = B m \<and> currentTransaction (snd (A m)) = None)"

named_theorems agree_rules \<open>actions that agree\<close>

lemma agree_ret [agree_rules]: "agree (ret x) (ret x)"
  by (simp add: agree_def ret_def)

lemma agree_pool_read [agree_rules]: "agree (pool_read s) (pool_read s)"
  by (simp add: agree_def pool_read_def)

lemma agree_read [agree_rules]: "agree (read s) (pool_read s)"
  by (auto simp: agree_def read_def pool_read_def query_def usable_def getDbContext_def set_context_def result_simps split: sum.splits)

lemma agree_execute [agree_rules]: "agree (execute s) (pool_execute s)"
  by (auto simp: agree_def execute_def pool_execute_def query_def usable_def getDbContext_def set_context_def result_simps split: sum.splits)

lemma agree_andThen [agree_rules]:
  assumes "agree A B" "\<And>x. agree (f x) (g x)"
  shows "agree (andThen A f) (andThen B g)"
  unfolding agree_def
proof (intro allI impI)
  fix m :: manager
  assume m: "currentTransaction m = None"
  obtain r m1 where r: "A m = (r, m1)" by fastforce
  have "A m = B m \<and> currentTransaction (snd (A m)) = None" using assms(1) m unfolding agree_def by blast
  then have AB: "B m = (r, m1)" "currentTransaction m1 = None" using r by simp_all
  then have "f x m1 = g x m1 \<and> currentTransaction (snd (g x m1)) = None" for x
    using assms(2) [of x] unfolding agree_def by metis
  then show "andThen A f m = andThen B g m \<and> currentTransaction (snd (andThen A f m)) = None"
    using r AB by (simp add: andThen_def split: sum.splits)
qed

lemma agree_try_catch [agree_rules]:
  assumes "agree A B" "\<And>e. agree (h e) (k e)"
  shows "agree (try_catch A h) (try_catch B k)"
  unfolding agree_def
proof (intro allI impI)
  fix m :: manager
  assume m: "currentTransaction m = None"
  obtain r m1 where r: "A m = (r, m1)" by fastforce
  have "A m = B m \<and> currentTransaction (snd (A m)) = None" using assms(1) m unfolding agree_def by blast
  then have AB: "B m = (r, m1)" "currentTransaction m1 = None" using r by simp_all
  then have "h e m1 = k e m1 \<and> currentTransaction (snd (k e m1)) = None" for e
    using assms(2) [of e] unfolding agree_def by metis
  then show "try_catch A h m = try_catch B k m \<and> currentTransaction (snd (try_catch A h m)) = None"
    using r AB by (simp add: try_catch_def split: sum.splits)
qed

lemma agree_case_option [agree_rules]:
  "agree A B \<Longrightarrow> (\<And>x. agree (f x) (g x)) \<Longrightarrow> agree (case_option A f v) (case_option B g v)"
  by (cases v) simp_all

lemma agree_case_list [agree_rules]:
  "agree A B \<Longrightarrow> (\<And>x xs. agree (f x xs) (g x xs)) \<Longrightarrow> agree (case_list A f v) (case_list B g v)"
  by (cases v) simp_all

text \<open>Statements fail with errors of the database only, so that nothing is retried.\<close>

definition sql_errors :: "('s \<Rightarrow> 'a result) \<Rightarrow> bool" where
  "sql_errors f \<longleftrightarrow> (\<forall>s e. f s = Inl e \<longrightarrow> \<not> isConnectionError e)"

lemma sql_table_errors:
  "insert_row name key fk r rows = Inl e \<Longrightarrow> \<not> isConnectionError e"
  "insert_or_ignore name key fk r rows = Inl e \<Longrightarrow> \<not> isConnectionError e"
  "update_rows name key fk P f rows = Inl e \<Longrightarrow> \<not> isConnectionError e"
  "find_one name P rows = Inl e \<Longrightarrow> \<not> isConnectionError e"
  by (auto simp: insert_row_def insert_or_ignore_def update_rows_def find_one_def split: if_splits list.splits)

lemma forM_sql_errors:
  "forM xs f s = Inl e \<Longrightarrow> (\<And>x s e. f x s = Inl e \<Longrightarrow> \<not> isConnectionError e) \<Longrightarrow> \<not> isConnectionError e"
  by (induction xs arbitrary: s) (auto simp: result_simps)

lemma execute_sql: "sql_errors s \<Longrightarrow> executeWithRetry (execute s) = execute s"
  by (rule ext, rule executeWithRetry_sql)
    (auto simp: execute_def query_def sql_errors_def result_simps split: if_splits sum.splits)

lemma pool_read_sql: "sql_errors s \<Longrightarrow> executeWithRetry (pool_read s) = pool_read s"
  by (rule ext, rule executeWithRetry_sql) (auto simp: pool_read_def sql_errors_def)

lemma agree_retry: "sql_errors s \<Longrightarrow> agree (executeWithRetry (execute s)) (pool_execute s)"
  by (simp add: execute_sql agree_execute)

lemma agree_retry_read: "sql_errors s \<Longrightarrow> agree (executeWithRetry (pool_read s)) (pool_read s)"
  by (simp add: pool_read_sql agree_pool_read)

lemma find_existing: "find_one name (\<lambda>r. key r = k) rows = Inr (Some r) \<Longrightarrow> k \<in> key ` set rows"
  by (auto dest!: find_one_SomeD)

text \<open>Looking for the header before inserting is what \<open>insertOrIgnore\<close> does, as block numbers are a key.\<close>

lemma insertHeader_agrees:
  assumes "currentTransaction m = None" "distinct (map block_number (headers (committed m)))"
  shows "insertHeader r m = older_insertHeader r m"
proof -
  let ?rows = "headers (committed m)"
  have "insertHeader r m = pool_execute (\<lambda>d. await (insert_or_ignore ''headers'' block_number (\<lambda>_. True) r (headers d))
      (\<lambda>rows. Inr (d\<lparr>headers := rows\<rparr>))) m"
    unfolding insertHeader_def
    using agree_retry [unfolded agree_def, rule_format, OF _ assms(1), THEN conjunct1]
    by (simp add: sql_errors_def result_simps insert_or_ignore_def)
  also have "\<dots> = older_insertHeader r m"
  proof (cases "block_number r \<in> set (map block_number ?rows)")
    case True
    then obtain h where h: "h \<in> set ?rows" "block_number h = block_number r" by auto
    have "find_one ''headers'' (\<lambda>h. block_number h = block_number r) ?rows = Inr (Some h)"
      by (rule find_one_by_key [where key = block_number]) (use assms(2) h in simp_all)
    then show ?thesis using True
      by (simp add: older_insertHeader_def pool_execute_def insert_or_ignore_def andThen_def pool_read_def ret_def)
  next
    case False
    then have none: "find_one ''headers'' (\<lambda>h. block_number h = block_number r) ?rows = Inr None"
      by (simp add: image_iff) metis
    show ?thesis using False
      by (simp add: none older_insertHeader_def pool_execute_def insert_or_ignore_def insert_row_def andThen_def pool_read_def)
  qed
  finally show ?thesis .
qed

lemmas score_agreement =
  writeInitialBonusScore_def older_writeInitialBonusScore_def insert_bonus_score_history_def older_insert_bonus_score_history_def
  updateBonusScore_def older_updateBonusScore_def update_node_bonus_score_def older_update_node_bonus_score_def
  updateValidatorBonusScore_def older_updateValidatorBonusScore_def insertBonusScoreChangeReason_def older_insertBonusScoreChangeReason_def

lemma scores_agree:
  "agree (writeInitialBonusScore p b s) (older_writeInitialBonusScore p b s)"
  "agree (updateBonusScore p s b) (older_updateBonusScore p s b)"
  "agree (updateValidatorBonusScore p s) (older_updateValidatorBonusScore p s)"
  "agree (insertBonusScoreChangeReason p b ep ch o' n' re) (older_insertBonusScoreChangeReason p b ep ch o' n' re)"
  unfolding score_agreement by (intro agree_rules)+

lemma epochs_agree:
  "agree getLastProcessedEpoch older_getLastProcessedEpoch" "agree getLastProcessedBlock older_getLastProcessedBlock"
  "agree (insertStakingEpoch ep b) (older_insertStakingEpoch ep b)" "agree (endStakingEpoch ep b) (older_endStakingEpoch ep b)"
  "agree (insertNode p ma pk b s) (older_insertNode p ma pk b s)" "agree (insertEpochNode ep p) (older_insertEpochNode ep p)"
  "agree getNodes older_getNodes" "agree (insertDelegateStaker as) (older_insertDelegateStaker as)"
  "agree (insertDelegateRewardsBulk rs) (older_insertDelegateRewardsBulk rs)"
  unfolding getLastProcessedEpoch_def older_getLastProcessedEpoch_def getLastProcessedBlock_def older_getLastProcessedBlock_def
    insertStakingEpoch_def older_insertStakingEpoch_def endStakingEpoch_def older_endStakingEpoch_def insertNode_def older_insertNode_def
    insertEpochNode_def older_insertEpochNode_def getNodes_def older_getNodes_def insertDelegateStaker_def older_insertDelegateStaker_def
    insertDelegateRewardsBulk_def older_insertDelegateRewardsBulk_def
  by (rule agree_retry agree_retry_read;
      auto simp: sql_errors_def result_simps split: if_splits option.splits dest: sql_table_errors forM_sql_errors)+

lemma stakes_agree:
  "agree (insertAvailabilityEvent a) (older_insertAvailabilityEvent a)"
  "agree (insertOrderWithdrawalEvent b p' s' ep v) (older_insertOrderWithdrawalEvent b p' s' ep v)"
  "agree (getOrderWithdrawalEvent c) (older_getOrderWithdrawalEvent c)"
  "agree (updateOrderWithdrawalEvent c f) (older_updateOrderWithdrawalEvent c f)"
  "agree (insertStakeHistoryRecord h) (older_insertStakeHistoryRecord h)"
  "agree (insertStakeDelegator p q v) (older_insertStakeDelegator p q v)"
  "agree (ensureDelegateStaker q) (older_ensureDelegateStaker q)"
  "agree (updateStakeDelegator p q v) (older_updateStakeDelegator p q v)"
  "agree (getStakeDelegator p q) (older_getStakeDelegator p q)"
  "agree (getLastStakeHistoryRecord p) (older_getLastStakeHistoryRecord p)"
  "agree (updateStakeHistory h b) (older_updateStakeHistory h b)"
  "agree (getDelegatorRewardRecord p ep q) (older_getDelegatorRewardRecord p ep q)"
  "agree (updateDelegatorRewardRecord p ep q) (older_updateDelegatorRewardRecord p ep q)"
  "agree getValidators older_getValidators" "agree (findValidator p st) (older_findValidator p st)"
  "agree (insertValidator pv) (older_insertValidator pv)"
  unfolding insertAvailabilityEvent_def older_insertAvailabilityEvent_def insertOrderWithdrawalEvent_def older_insertOrderWithdrawalEvent_def
    getOrderWithdrawalEvent_def older_getOrderWithdrawalEvent_def updateOrderWithdrawalEvent_def older_updateOrderWithdrawalEvent_def
    insertStakeHistoryRecord_def older_insertStakeHistoryRecord_def insertStakeDelegator_def older_insertStakeDelegator_def
    ensureDelegateStaker_def older_ensureDelegateStaker_def updateStakeDelegator_def older_updateStakeDelegator_def
    getStakeDelegator_def older_getStakeDelegator_def getLastStakeHistoryRecord_def older_getLastStakeHistoryRecord_def
    updateStakeHistory_def older_updateStakeHistory_def getDelegatorRewardRecord_def older_getDelegatorRewardRecord_def
    updateDelegatorRewardRecord_def older_updateDelegatorRewardRecord_def getValidators_def older_getValidators_def
    findValidator_def older_findValidator_def insertValidator_def older_insertValidator_def
  by (intro agree_rules)+

text \<open>The reward of a validator is written alike, except that the older code does not mark it as computed.\<close>

definition without_mark :: "db \<Rightarrow> db" where
  "without_mark d = d\<lparr>posdao_epoch_node := map (\<lambda>r. r\<lparr>reward_computed := False\<rparr>) (posdao_epoch_node d)\<rparr>"

lemma epoch_node_mark [simp]:
  "epoch_node_key (r\<lparr>reward_computed := x\<rparr>) = epoch_node_key r" "epoch_node_fk d (r\<lparr>reward_computed := x\<rparr>) = epoch_node_fk d r"
  by (simp_all add: epoch_node_key_def epoch_node_fk_def)

lemma update_rows_mark:
  assumes "\<And>r :: PosdaoEpochNode. (f r)\<lparr>reward_computed := True\<rparr> = g r"
  shows "case update_rows name epoch_node_key (epoch_node_fk d) P f rows of
      Inl e \<Rightarrow> update_rows name epoch_node_key (epoch_node_fk d) P g rows = Inl e
    | Inr xs \<Rightarrow> (\<exists>ys. update_rows name epoch_node_key (epoch_node_fk d) P g rows = Inr ys \<and>
        map (\<lambda>r. r\<lparr>reward_computed := False\<rparr>) ys = map (\<lambda>r. r\<lparr>reward_computed := False\<rparr>) xs)"
proof -
  have g: "g = (\<lambda>r. (f r)\<lparr>reward_computed := True\<rparr>)" using assms by (intro ext) simp
  have keys: "map epoch_node_key (set_where P g rows) = map epoch_node_key (set_where P f rows)"
    by (simp add: g)
  have fks: "epoch_node_fk d (g r) = epoch_node_fk d (f r)" for r by (simp add: g)
  have marks: "map (\<lambda>r. r\<lparr>reward_computed := False\<rparr>) (set_where P g rows) = map (\<lambda>r. r\<lparr>reward_computed := False\<rparr>) (set_where P f rows)"
    by (simp add: g)
  show ?thesis unfolding update_rows_def keys fks using marks by auto
qed

lemma updateValidatorReward_agrees:
  assumes "currentTransaction m = None"
    and "updateValidatorReward v e rw a t f o' g q m = (x, m1)" "older_updateValidatorReward v e rw a t f o' g q m = (y, m2)"
  shows "x = y \<and> without_mark (committed m1) = without_mark (committed m2)"
proof -
  let ?P = "\<lambda>r. id_posdao_epoch r = e \<and> id_node r = addressToBuffer v"
  let ?F = "\<lambda>r. r\<lparr>owner_reward := Some rw, epoch_apy := a, total_pool_reward := t, validator_fixed_reward := f,
    node_operator_reward := o', delegators_total_reward := g, total_staked_snapshot := q\<rparr>"
  let ?G = "\<lambda>r. r\<lparr>owner_reward := Some rw, epoch_apy := a, total_pool_reward := t, validator_fixed_reward := f,
    node_operator_reward := o', delegators_total_reward := g, total_staked_snapshot := q, reward_computed := True\<rparr>"
  let ?s = "\<lambda>h d. await (update_rows ''posdao_epoch_node'' epoch_node_key (epoch_node_fk d) ?P h (posdao_epoch_node d))
    (\<lambda>rows. Inr (d\<lparr>posdao_epoch_node := rows\<rparr>))"
  have "agree (updateValidatorReward v e rw a t f o' g q) (pool_execute (?s ?G))"
    unfolding updateValidatorReward_def by (rule agree_retry) (auto simp: sql_errors_def result_simps dest: sql_table_errors)
  then have 1: "pool_execute (?s ?G) m = (x, m1)" using assms(1,2) by (simp add: agree_def)
  have 2: "pool_execute (?s ?F) m = (y, m2)" using assms(3) by (simp add: older_updateValidatorReward_def)
  have mark: "(?F r)\<lparr>reward_computed := True\<rparr> = ?G r" for r by simp
  have rows: "case update_rows ''posdao_epoch_node'' epoch_node_key (epoch_node_fk (committed m)) ?P ?F (posdao_epoch_node (committed m)) of
      Inl e \<Rightarrow> update_rows ''posdao_epoch_node'' epoch_node_key (epoch_node_fk (committed m)) ?P ?G (posdao_epoch_node (committed m)) = Inl e
    | Inr xs \<Rightarrow> (\<exists>ys. update_rows ''posdao_epoch_node'' epoch_node_key (epoch_node_fk (committed m)) ?P ?G (posdao_epoch_node (committed m)) = Inr ys \<and>
        map (\<lambda>r. r\<lparr>reward_computed := False\<rparr>) ys = map (\<lambda>r. r\<lparr>reward_computed := False\<rparr>) xs)"
    by (rule update_rows_mark, rule mark)
  show ?thesis
  proof (cases "update_rows ''posdao_epoch_node'' epoch_node_key (epoch_node_fk (committed m)) ?P ?F (posdao_epoch_node (committed m))")
    case (Inl e)
    then show ?thesis using 1 2 rows by (simp add: pool_execute_def without_mark_def)
  next
    case (Inr xs)
    then obtain ys where ys: "update_rows ''posdao_epoch_node'' epoch_node_key (epoch_node_fk (committed m)) ?P ?G (posdao_epoch_node (committed m)) = Inr ys"
      "map (\<lambda>r. r\<lparr>reward_computed := False\<rparr>) ys = map (\<lambda>r. r\<lparr>reward_computed := False\<rparr>) xs"
      using rows by auto
    have "x = Inr ()" "m1 = m\<lparr>committed := (committed m)\<lparr>posdao_epoch_node := ys\<rparr>\<rparr>"
      using 1 ys(1) by (simp_all add: pool_execute_def)
    moreover have "y = Inr ()" "m2 = m\<lparr>committed := (committed m)\<lparr>posdao_epoch_node := xs\<rparr>\<rparr>"
      using 2 Inr by (simp_all add: pool_execute_def)
    ultimately show ?thesis using ys(2) by (simp add: without_mark_def)
  qed
qed

text \<open>The end of a validator's state: the older code wants at most one open record, and closes all records of the
  state that began at the same block, whatever their round.\<close>

lemma update_rows_cong:
  assumes "\<And>r. r \<in> set rows \<Longrightarrow> P r = Q r"
  shows "update_rows name key fk P f rows = update_rows name key fk Q f rows"
proof -
  have "set_where P f rows = set_where Q f rows" using assms by simp
  moreover have "list_all (\<lambda>r. P r \<longrightarrow> fk (f r)) rows = list_all (\<lambda>r. Q r \<longrightarrow> fk (f r)) rows"
    using assms by (auto simp: list_all_iff)
  ultimately show ?thesis unfolding update_rows_def by presburger
qed

definition open_records :: "string \<Rightarrow> string \<Rightarrow> int \<Rightarrow> db \<Rightarrow> PendingValidatorStateEvent list" where
  "open_records v st b d = filter (\<lambda>r. pv_node r = addressToBuffer v \<and> on_enter_block_number r \<noteq> b \<and>
     on_exit_block_number r = None \<and> pv_state r = st) (pending_validator_state_event d)"

definition rounds_unique :: "db \<Rightarrow> bool" where
  "rounds_unique d \<longleftrightarrow> (\<forall>r \<in> set (pending_validator_state_event d). \<forall>r' \<in> set (pending_validator_state_event d).
     pv_node r = pv_node r' \<and> pv_state r = pv_state r' \<and> on_enter_block_number r = on_enter_block_number r' \<longrightarrow>
     keygen_round r = keygen_round r')"

lemma updateOrIgnoreValidator_differs:
  assumes "length (open_records v st b (committed m)) \<ge> 2"
  shows "older_updateOrIgnoreValidator v st b k m = (Inl (MultipleRows ''pending_validator_state_event''), m)"
proof -
  obtain x y zs where "open_records v st b (committed m) = x # y # zs"
    using assms by (metis Suc_le_length_iff numeral_2_eq_2)
  then show ?thesis
    by (simp add: open_records_def older_updateOrIgnoreValidator_def andThen_def pool_read_def find_one_def)
qed

lemma updateOrIgnoreValidator_agrees:
  assumes "currentTransaction m = None" "length (open_records v st b (committed m)) \<le> 1"
    and "rounds_unique (committed m)"
  shows "updateOrIgnoreValidator v st b k m = older_updateOrIgnoreValidator v st b k m"
proof (cases "open_records v st b (committed m)")
  case Nil
  then have "open_states (addressToBuffer v) st b (pending_validator_state_event (committed m)) = []"
    unfolding open_states_def open_records_def by simp
  then show ?thesis using Nil assms(1)
    by (simp add: updateOrIgnoreValidator_def older_updateOrIgnoreValidator_def andThen_def read_def query_def usable_def
        getDbContext_def pool_read_def find_one_def open_records_def ret_def set_context_def)
next
  case (Cons x xs)
  then have one: "open_records v st b (committed m) = [x]" using assms(2) by simp
  then have x: "x \<in> set (pending_validator_state_event (committed m))" "pv_node x = addressToBuffer v" "pv_state x = st"
    unfolding open_records_def by (auto simp: filter_eq_Cons_iff)
  have states: "open_states (addressToBuffer v) st b (pending_validator_state_event (committed m)) = [x]"
    using one unfolding open_states_def open_records_def by simp
  let ?up = "\<lambda>P d. await (update_rows ''pending_validator_state_event'' pending_validator_key (pending_validator_fk d) P
      (\<lambda>r. r\<lparr>on_exit_block_number := Some b\<rparr>) (pending_validator_state_event d))
    (\<lambda>rows. Inr (d\<lparr>pending_validator_state_event := rows\<rparr>))"
  let ?P = "\<lambda>r. pv_node r = addressToBuffer v \<and> pv_state r = st \<and> on_enter_block_number r = on_enter_block_number x \<and>
    keygen_round r = keygen_round x"
  let ?Q = "\<lambda>r. pv_node r = addressToBuffer v \<and> pv_state r = st \<and> on_enter_block_number r = on_enter_block_number x"
  have "keygen_round r = keygen_round x" if "r \<in> set (pending_validator_state_event (committed m))" "?Q r" for r
    using assms(3) [unfolded rounds_unique_def, rule_format, OF that(1) x(1)] that(2) x(2,3) by simp
  then have "?P r = ?Q r" if "r \<in> set (pending_validator_state_event (committed m))" for r
    using that by blast
  then have same: "?up ?P (committed m) = ?up ?Q (committed m)" by (subst update_rows_cong) auto
  have "updateOrIgnoreValidator v st b k m = execute (?up ?P) m"
    using states assms(1)
    by (simp add: updateOrIgnoreValidator_def andThen_def read_def query_def usable_def getDbContext_def set_context_def)
  also have "\<dots> = pool_execute (?up ?P) m" using agree_execute assms(1) by (simp add: agree_def)
  also have "\<dots> = pool_execute (?up ?Q) m" unfolding pool_execute_def same ..
  also have "\<dots> = older_updateOrIgnoreValidator v st b k m"
    using one by (simp add: older_updateOrIgnoreValidator_def andThen_def pool_read_def find_one_def open_records_def)
  finally show ?thesis .
qed




end
