(* ===== verification/BlockMessages.thy ===== *)
theory BlockMessages imports NodeManager "HOL-Library.AList" "HOL-Library.Multiset" begin

text \<open>
  The analysis of the messages of a block: src/src/analysis/analyseBlockMessages.ts. The nodes wrote the
  messages of the consensus they received as JSON files, one directory per node and block; the analysis counts
  decryption shares per node and proposer and ready messages per node and value. A \<open>Map\<close> of JavaScript is an
  association list in the order of insertion: \<open>AList.update\<close> replaces in place or appends, as \<open>set\<close> does.
\<close>

section \<open>Messages\<close>

text \<open>What the analysis reads of a message; a missing, null or empty field is \<open>None\<close>.\<close>

datatype broadcast = Broadcast (Ready: "nat list option")

datatype subset = Subset (subset_content: "broadcast option option")

record content =
  DecryptionShare :: "string option option"
  content_Subset :: "subset option"

type_synonym message = "content option"

section \<open>The report\<close>

record node_result =
  decryptionShares :: "(string \<times> nat) list"
  readyMessages :: "(string \<times> nat) list"

record analyse_report =
  results :: "(string \<times> node_result) list"
  proposalsPerValidator :: "(string \<times> nat) list"

definition new_NodeResult :: node_result where
  "new_NodeResult = \<lparr>decryptionShares = [], readyMessages = []\<rparr>"

definition new_report :: analyse_report where
  "new_report = \<lparr>results = [], proposalsPerValidator = []\<rparr>"

definition getNodeResult :: "string \<Rightarrow> analyse_report \<Rightarrow> node_result \<times> analyse_report" where
  "getNodeResult name rep = (case map_of (results rep) name of
     Some r \<Rightarrow> (r, rep)
   | None \<Rightarrow> (new_NodeResult, rep\<lparr>results := AList.update name new_NodeResult (results rep)\<rparr>))"

text \<open>A count that is missing or 0 becomes 1.\<close>

definition countUp :: "string \<Rightarrow> (string \<times> nat) list \<Rightarrow> (string \<times> nat) list" where
  "countUp k m = AList.update k (case map_of m k of Some n \<Rightarrow> (if n \<noteq> 0 then n + 1 else 1) | None \<Rightarrow> 1) m"

definition reportDecryptionShare :: "string \<Rightarrow> string \<Rightarrow> analyse_report \<Rightarrow> analyse_report" where
  "reportDecryptionShare name proposer rep = (case getNodeResult name rep of (r, rep1) \<Rightarrow>
     rep1\<lparr>results := AList.update name (r\<lparr>decryptionShares := countUp proposer (decryptionShares r)\<rparr>) (results rep1),
       proposalsPerValidator := countUp proposer (proposalsPerValidator rep1)\<rparr>)"

definition reportReady :: "(nat list \<Rightarrow> string) \<Rightarrow> nat list \<Rightarrow> string \<Rightarrow> analyse_report \<Rightarrow> analyse_report" where
  "reportReady bytesToHex readyValue name rep = (case getNodeResult name rep of (r, rep1) \<Rightarrow>
     rep1\<lparr>results := AList.update name (r\<lparr>readyMessages := countUp (bytesToHex readyValue) (readyMessages r)\<rparr>) (results rep1)\<rparr>)"

definition analyzeSingleMessage :: "(nat list \<Rightarrow> string) \<Rightarrow> string \<Rightarrow> message \<Rightarrow> analyse_report \<Rightarrow> analyse_report" where
  "analyzeSingleMessage bytesToHex name message rep = (case message of None \<Rightarrow> rep
     | Some c \<Rightarrow> (case DecryptionShare c of
         Some proposer \<Rightarrow> (case truthy proposer of Some p \<Rightarrow> reportDecryptionShare name p rep | None \<Rightarrow> rep)
       | None \<Rightarrow> (case content_Subset c of
           Some (Subset (Some (Some (Broadcast (Some readyValue))))) \<Rightarrow> reportReady bytesToHex readyValue name rep
         | _ \<Rightarrow> rep)))"

section \<open>The printed report\<close>

datatype report_line =
    Shares string "(string \<times> nat \<times> nat option) list" nat
  | ReadyMessages string "(string \<times> nat) list"
  | PerProposer string nat "nat option"
  | Unexpected string nat
  | TotalUnexpected nat

definition nameOf :: "node_manager \<Rightarrow> string \<Rightarrow> nat option result" where
  "nameOf nm key = await (getNodeByPublicKey key nm) (\<lambda>found. Inr (map_option nodeID found))"

definition nodeReport :: "node_manager \<Rightarrow> string \<times> node_result \<Rightarrow> report_line list result" where
  "nodeReport nm = (\<lambda>(name, r).
     await (mapM (\<lambda>(proposer, gotShares). await (nameOf nm proposer) (\<lambda>n. Inr (proposer, gotShares, n))) (decryptionShares r))
       (\<lambda>lines. Inr [Shares name lines (length (decryptionShares r)), ReadyMessages name (readyMessages r)]))"

text \<open>The check for unexpected proposers looks each key of the map up in the same map.\<close>

definition unexpected :: "analyse_report \<Rightarrow> (string \<times> nat) list" where
  "unexpected rep = filter (\<lambda>(key, _). map_of (proposalsPerValidator rep) key \<in> {None, Some 0}) (proposalsPerValidator rep)"

definition consoleLogReport :: "node_manager \<Rightarrow> string list \<Rightarrow> analyse_report \<Rightarrow> report_line list result" where
  "consoleLogReport nm expected rep =
     await (mapM (nodeReport nm) (results rep)) (\<lambda>nodes.
       if expected = [] then Inr (concat nodes)
       else await (mapM (\<lambda>key. await (nameOf nm key) (\<lambda>n.
           Inr (PerProposer key (case map_of (proposalsPerValidator rep) key of Some k \<Rightarrow> k | None \<Rightarrow> 0) n))) expected)
         (\<lambda>proposers. Inr (concat nodes @ proposers @ map (\<lambda>(key, k). Unexpected key k) (unexpected rep) @
           [TotalUnexpected (length (unexpected rep))])))"

section \<open>The analysis\<close>

record stats =
  notLocalValidator :: "string list"
  noMessageFilesFound :: "string list"
  analyzed :: "string list"

text \<open>The directories of messages: the files of a directory that exists, by name, with what reading gives\<close>

type_synonym message_files = "string \<Rightarrow> (string \<times> message result) list option"

definition endsWith :: "string \<Rightarrow> string \<Rightarrow> bool" where
  "endsWith t s \<longleftrightarrow> length t \<le> length s \<and> drop (length s - length t) s = t"

definition messageDir :: "string \<Rightarrow> nat \<Rightarrow> string" where
  "messageDir nodeDir blockNumber = ''testnet/testnet-analysis/messages/'' @ nodeDir @ ''/'' @ decimal blockNumber"

definition analyseValidator ::
  "(nat list \<Rightarrow> string) \<Rightarrow> message_files \<Rightarrow> node_manager \<Rightarrow> nat \<Rightarrow> string \<Rightarrow> stats \<times> analyse_report \<Rightarrow> (stats \<times> analyse_report) result" where
  "analyseValidator bytesToHex files nm blockNumber validator = (\<lambda>(st, rep).
     case filter (\<lambda>x. map_option to_lower (node_address x) = Some (to_lower validator)) (nodeStates nm) of
       [nodeInfo] \<Rightarrow>
         let nodeDir = sshNodeName nodeInfo in
         (case files (messageDir nodeDir blockNumber) of
            None \<Rightarrow> Inr (st\<lparr>noMessageFilesFound := noMessageFilesFound st @ [validator]\<rparr>, rep)
          | Some fs \<Rightarrow> await (mapM snd (filter (\<lambda>(filename, _). endsWith ''.json'' filename) fs)) (\<lambda>messages.
              Inr (st\<lparr>analyzed := analyzed st @ [validator]\<rparr>, fold (analyzeSingleMessage bytesToHex nodeDir) messages rep)))
     | _ \<Rightarrow> Inr (st\<lparr>notLocalValidator := notLocalValidator st @ [validator]\<rparr>, rep))"

definition analyseBlockMessages ::
  "(nat list \<Rightarrow> string) \<Rightarrow> message_files \<Rightarrow> node_manager \<Rightarrow> string list result \<Rightarrow> (string \<Rightarrow> string result) \<Rightarrow>
   (string \<Rightarrow> string result) \<Rightarrow> nat \<Rightarrow> (stats \<times> report_line list) result" where
  "analyseBlockMessages bytesToHex files nm getValidators stakingByMiningAddress getPoolPublicKey blockNumber =
     await getValidators (\<lambda>validators.
     await (forM validators (analyseValidator bytesToHex files nm blockNumber)
         (\<lparr>notLocalValidator = [], noMessageFilesFound = [], analyzed = []\<rparr>, new_report)) (\<lambda>(st, rep).
     await (mapM (\<lambda>a. await (stakingByMiningAddress a) getPoolPublicKey) validators) (\<lambda>publicKeys.
     await (consoleLogReport nm publicKeys rep) (\<lambda>lines. Inr (st, lines)))))"

section \<open>What the counts are\<close>

text \<open>What a message counts for, as a list with at most one element\<close>

definition shareOf :: "message \<Rightarrow> string list" where
  "shareOf m = (case m of Some c \<Rightarrow> (case DecryptionShare c of Some (Some (x # p)) \<Rightarrow> [x # p] | _ \<Rightarrow> []) | None \<Rightarrow> [])"

definition readyOf :: "(nat list \<Rightarrow> string) \<Rightarrow> message \<Rightarrow> string list" where
  "readyOf bytesToHex m = (case m of
     Some c \<Rightarrow> (case (DecryptionShare c, content_Subset c) of
       (None, Some (Subset (Some (Some (Broadcast (Some v)))))) \<Rightarrow> [bytesToHex v] | _ \<Rightarrow> []) | None \<Rightarrow> [])"

definition sharesIn :: "message list \<Rightarrow> string list" where
  "sharesIn ms = concat (map shareOf ms)"

definition readiesIn :: "(nat list \<Rightarrow> string) \<Rightarrow> message list \<Rightarrow> string list" where
  "readiesIn bytesToHex ms = concat (map (readyOf bytesToHex) ms)"

lemma in_appends [simp]:
  "sharesIn [] = []" "sharesIn (ms @ ns) = sharesIn ms @ sharesIn ns" "sharesIn [m] = shareOf m"
  "readiesIn h [] = []" "readiesIn h (ms @ ns) = readiesIn h ms @ readiesIn h ns" "readiesIn h [m] = readyOf h m"
  by (simp_all add: sharesIn_def readiesIn_def)

lemma analyze_cases:
  obtains (share) p where "shareOf m = [p]" "readyOf h m = []" "analyzeSingleMessage h name m rep = reportDecryptionShare name p rep"
  | (ready) v where "shareOf m = []" "readyOf h m = [h v]" "analyzeSingleMessage h name m rep = reportReady h v name rep"
  | (other) "shareOf m = []" "readyOf h m = []" "analyzeSingleMessage h name m rep = rep"
proof -
  have "(\<exists>p. shareOf m = [p] \<and> readyOf h m = [] \<and> analyzeSingleMessage h name m rep = reportDecryptionShare name p rep) \<or>
    (\<exists>v. shareOf m = [] \<and> readyOf h m = [h v] \<and> analyzeSingleMessage h name m rep = reportReady h v name rep) \<or>
    (shareOf m = [] \<and> readyOf h m = [] \<and> analyzeSingleMessage h name m rep = rep)"
    by (auto simp: shareOf_def readyOf_def analyzeSingleMessage_def truthy_def
        split: option.splits list.splits subset.splits broadcast.splits)
  then show thesis using that by blast
qed

text \<open>A map counts the elements of a list.\<close>

definition counts :: "(string \<times> nat) list \<Rightarrow> string list \<Rightarrow> bool" where
  "counts m xs \<longleftrightarrow> distinct (map fst m) \<and>
     (\<forall>k. map_of m k = (if k \<in> set xs then Some (count_list xs k) else None))"

lemma counts_Nil [simp]: "counts [] []"
  by (simp add: counts_def)

lemma counts_countUp: "counts m xs \<Longrightarrow> counts (countUp k m) (xs @ [k])"
  by (auto simp: counts_def countUp_def update_conv' distinct_update count_list_0_iff split: if_splits)

lemma counts_member: "counts m xs \<Longrightarrow> (k, n) \<in> set m \<Longrightarrow> k \<in> set xs \<and> n = count_list xs k"
  by (metis counts_def map_of_is_SomeI option.distinct(1) option.inject)

lemma counts_keys: "counts m xs \<Longrightarrow> fst ` set m = set xs"
proof -
  assume "counts m xs"
  then have "map_of m k = (if k \<in> set xs then Some (count_list xs k) else None)" for k unfolding counts_def by blast
  then have "k \<in> dom (map_of m) \<longleftrightarrow> k \<in> set xs" for k unfolding domIff by (simp del: map_of_eq_Some_iff)
  then show ?thesis unfolding dom_map_of_conv_image_fst by blast
qed

definition toNode :: "string \<Rightarrow> (string \<times> message) list \<Rightarrow> message list" where
  "toNode name xs = map snd (filter (\<lambda>(n, _). n = name) xs)"

lemma toNode_append [simp]: "toNode name (xs @ ys) = toNode name xs @ toNode name ys"
  by (simp add: toNode_def)

lemma toNode_single [simp]: "toNode name [(n, m)] = (if n = name then [m] else [])"
  by (simp add: toNode_def)

definition node_counts :: "(nat list \<Rightarrow> string) \<Rightarrow> node_result option \<Rightarrow> message list \<Rightarrow> bool" where
  "node_counts h r ms \<longleftrightarrow> (case r of
     None \<Rightarrow> sharesIn ms = [] \<and> readiesIn h ms = []
   | Some r \<Rightarrow> counts (decryptionShares r) (sharesIn ms) \<and> counts (readyMessages r) (readiesIn h ms))"

definition reports :: "(nat list \<Rightarrow> string) \<Rightarrow> analyse_report \<Rightarrow> (string \<times> message) list \<Rightarrow> bool" where
  "reports h rep xs \<longleftrightarrow> counts (proposalsPerValidator rep) (sharesIn (map snd xs)) \<and>
     distinct (map fst (results rep)) \<and> (\<forall>name. node_counts h (map_of (results rep) name) (toNode name xs))"

lemma getNodeResult_counts:
  assumes "getNodeResult name rep = (r, rep1)" "reports h rep xs"
  shows "node_counts h (Some r) (toNode name xs) \<and> proposalsPerValidator rep1 = proposalsPerValidator rep \<and>
    distinct (map fst (results rep1)) \<and> (\<forall>k. k \<noteq> name \<longrightarrow> map_of (results rep1) k = map_of (results rep) k)"
proof -
  have "node_counts h (map_of (results rep) name) (toNode name xs)" "distinct (map fst (results rep))"
    using assms(2) by (simp_all add: reports_def)
  then show ?thesis using assms(1)
    by (auto simp: getNodeResult_def node_counts_def new_NodeResult_def update_conv' distinct_update split: option.splits)
qed

lemma analyze_reports:
  assumes "reports h rep xs"
  shows "reports h (analyzeSingleMessage h name m rep) (xs @ [(name, m)])"
proof -
  obtain r rep1 where r: "getNodeResult name rep = (r, rep1)" by fastforce
  note g = getNodeResult_counts [OF r assms]
  have others: "node_counts h (map_of (results rep) k) (toNode k xs)" for k using assms by (simp add: reports_def)
  have all: "counts (proposalsPerValidator rep) (sharesIn (map snd xs))" using assms by (simp add: reports_def)
  show ?thesis
  proof (cases rule: analyze_cases [of m h name rep])
    case (share p)
    have "node_counts h (map_of (results (reportDecryptionShare name p rep)) k) (toNode k (xs @ [(name, m)]))" for k
      using g others [of k] share by (cases "k = name") (auto simp: reportDecryptionShare_def r update_conv' node_counts_def counts_countUp)
    then show ?thesis using g share counts_countUp [OF all, of p]
      by (simp add: reports_def reportDecryptionShare_def r distinct_update)
  next
    case (ready v)
    have "node_counts h (map_of (results (reportReady h v name rep)) k) (toNode k (xs @ [(name, m)]))" for k
      using g others [of k] ready by (cases "k = name") (auto simp: reportReady_def r update_conv' node_counts_def counts_countUp)
    then show ?thesis using g ready all
      by (simp add: reports_def reportReady_def r distinct_update)
  next
    case other
    have "node_counts h (map_of (results rep) k) (toNode k (xs @ [(name, m)]))" for k
      using others [of k] other by (cases "k = name") (auto simp: node_counts_def split: option.splits)
    then show ?thesis using assms other by (simp add: reports_def)
  qed
qed

lemma fold_reports:
  "reports h rep xs \<Longrightarrow> reports h (fold (analyzeSingleMessage h name) ms rep) (xs @ map (Pair name) ms)"
  by (induction ms arbitrary: rep xs) (use analyze_reports in fastforce)+

section \<open>The whole analysis\<close>

text \<open>The directory of a validator's node, and the messages in it\<close>

definition dirOf :: "node_manager \<Rightarrow> string \<Rightarrow> string" where
  "dirOf nm validator = sshNodeName (hd (filter (\<lambda>x. map_option to_lower (node_address x) = Some (to_lower validator)) (nodeStates nm)))"

definition messagesOf :: "message_files \<Rightarrow> node_manager \<Rightarrow> nat \<Rightarrow> string \<Rightarrow> message list" where
  "messagesOf files nm b validator = (case files (messageDir (dirOf nm validator) b) of None \<Rightarrow> []
     | Some fs \<Rightarrow> map (\<lambda>(_, m). projr m) (filter (\<lambda>(filename, _). endsWith ''.json'' filename) fs))"

abbreviation readMessages :: "message_files \<Rightarrow> node_manager \<Rightarrow> nat \<Rightarrow> stats \<Rightarrow> (string \<times> message) list" where
  "readMessages files nm b st \<equiv> concat (map (\<lambda>v. map (Pair (dirOf nm v)) (messagesOf files nm b v)) (analyzed st))"

definition sorted_out :: "stats \<Rightarrow> string list \<Rightarrow> bool" where
  "sorted_out st vs \<longleftrightarrow> mset (notLocalValidator st) + mset (noMessageFilesFound st) + mset (analyzed st) = mset vs"

lemma mapM_snd: "mapM snd xs = Inr ys \<Longrightarrow> ys = map (\<lambda>(_, m). projr m) xs"
  by (induction xs arbitrary: ys) (auto simp: result_simps)

lemma analyseValidator_step:
  assumes "analyseValidator h files nm b v (st, rep) = Inr (st', rep')"
    and "reports h rep (readMessages files nm b st)" and "sorted_out st vs"
  shows "reports h rep' (readMessages files nm b st') \<and> sorted_out st' (vs @ [v])"
proof (cases "filter (\<lambda>x. map_option to_lower (node_address x) = Some (to_lower v)) (nodeStates nm)")
  case (Cons n ns)
  show ?thesis
  proof (cases ns)
    case Nil
    then have dir: "sshNodeName n = dirOf nm v" using Cons by (simp add: dirOf_def)
    show ?thesis
    proof (cases "files (messageDir (dirOf nm v) b)")
      case None
      then show ?thesis using assms Cons Nil dir by (auto simp: analyseValidator_def sorted_out_def)
    next
      case (Some fs)
      then obtain ms where ms: "mapM snd (filter (\<lambda>(filename, _). endsWith ''.json'' filename) fs) = Inr ms"
        "st' = st\<lparr>analyzed := analyzed st @ [v]\<rparr>" "rep' = fold (analyzeSingleMessage h (dirOf nm v)) ms rep"
        using assms(1) Cons Nil dir by (auto simp: analyseValidator_def result_simps)
      have "messagesOf files nm b v = ms" using mapM_snd [OF ms(1)] Some by (simp add: messagesOf_def)
      then show ?thesis using fold_reports [OF assms(2), of "dirOf nm v" ms] assms(3) ms(2,3) by (simp add: sorted_out_def)
    qed
  qed (use assms Cons in \<open>auto simp: analyseValidator_def sorted_out_def\<close>)
qed (use assms in \<open>auto simp: analyseValidator_def sorted_out_def\<close>)

lemma analyse_all:
  assumes "forM validators (analyseValidator h files nm b) (st, rep) = Inr (st', rep')"
    and "reports h rep (readMessages files nm b st)" and "sorted_out st vs"
  shows "reports h rep' (readMessages files nm b st') \<and> sorted_out st' (vs @ validators)"
  using assms
proof (induction validators arbitrary: st rep vs)
  case (Cons v validators)
  then obtain st1 rep1 where step: "analyseValidator h files nm b v (st, rep) = Inr (st1, rep1)"
    "forM validators (analyseValidator h files nm b) (st1, rep1) = Inr (st', rep')"
    by (auto simp: result_simps)
  from Cons.IH [OF step(2)] analyseValidator_step [OF step(1) Cons.prems(2,3)] show ?case by fastforce
qed simp

lemma unexpected_empty:
  assumes "reports h rep xs"
  shows "unexpected rep = []"
proof -
  have c: "counts (proposalsPerValidator rep) (sharesIn (map snd xs))" using assms by (simp add: reports_def)
  have known: "map_of (proposalsPerValidator rep) k \<notin> {None, Some 0}" if "(k, n) \<in> set (proposalsPerValidator rep)" for k n
    using counts_member [OF c that] c by (simp add: counts_def count_list_0_iff)
  show ?thesis unfolding unexpected_def filter_empty_conv
  proof
    fix x :: "string \<times> nat" assume x: "x \<in> set (proposalsPerValidator rep)"
    obtain k n where "x = (k, n)" by fastforce
    then show "\<not> (case x of (key, _) \<Rightarrow> map_of (proposalsPerValidator rep) key \<in> {None, Some 0})"
      using x known [of k n] by simp
  qed
qed

lemma nodeReport_lines:
  assumes "nodeReport nm (name, r) = Inr ls"
  shows "\<exists>shares. ls = [Shares name shares (length (decryptionShares r)), ReadyMessages name (readyMessages r)] \<and>
    map (\<lambda>(k, c, _). (k, c)) shares = decryptionShares r"
proof -
  have pairs: "list_all2 (\<lambda>(proposer, got) y. await (nameOf nm proposer) (\<lambda>n. Inr (proposer, got, n)) = Inr y) xs ys \<Longrightarrow>
      map (\<lambda>(k, c, _). (k, c)) ys = xs" for xs ys
    by (induction rule: list_all2_induct) (auto simp: result_simps)
  show ?thesis using assms pairs by (fastforce simp: nodeReport_def result_simps mapM_Inr case_prod_beta')
qed

lemma printed_lines:
  assumes "consoleLogReport nm expected rep = Inr lines" and "line \<in> set lines"
  shows "(\<exists>name r ls. (name, r) \<in> set (results rep) \<and> nodeReport nm (name, r) = Inr ls \<and> line \<in> set ls) \<or>
    (\<exists>key n. line = PerProposer key (case map_of (proposalsPerValidator rep) key of Some k \<Rightarrow> k | None \<Rightarrow> 0) n) \<or>
    (\<exists>key k. line = Unexpected key k) \<or> line = TotalUnexpected (length (unexpected rep))"
proof -
  have in_mapM: "mapM f xs = Inr ys \<Longrightarrow> y \<in> set ys \<Longrightarrow> \<exists>x \<in> set xs. f x = Inr y" for f :: "'x \<Rightarrow> 'y result" and xs ys y
    by (induction xs arbitrary: ys) (auto simp: result_simps)
  obtain nodes where nodes: "mapM (nodeReport nm) (results rep) = Inr nodes"
    "expected = [] \<longrightarrow> lines = concat nodes"
    "expected \<noteq> [] \<longrightarrow> (\<exists>ps. mapM (\<lambda>key. await (nameOf nm key) (\<lambda>n.
        Inr (PerProposer key (case map_of (proposalsPerValidator rep) key of Some k \<Rightarrow> k | None \<Rightarrow> 0) n))) expected = Inr ps \<and>
      lines = concat nodes @ ps @ map (\<lambda>(key, k). Unexpected key k) (unexpected rep) @ [TotalUnexpected (length (unexpected rep))])"
    using assms(1) by (auto simp: consoleLogReport_def result_simps split: if_splits)
  have node: "\<exists>name r ls. (name, r) \<in> set (results rep) \<and> nodeReport nm (name, r) = Inr ls \<and> line \<in> set ls"
    if line: "line \<in> set (concat nodes)"
  proof -
    obtain ls where ls: "ls \<in> set nodes" "line \<in> set ls" using line by auto
    from in_mapM [OF nodes(1) ls(1)] ls(2) show ?thesis by fastforce
  qed
  show ?thesis
  proof (cases "expected = []")
    case True
    then show ?thesis using nodes(2) assms(2) node by blast
  next
    case False
    then obtain ps where ps: "mapM (\<lambda>key. await (nameOf nm key) (\<lambda>n.
        Inr (PerProposer key (case map_of (proposalsPerValidator rep) key of Some k \<Rightarrow> k | None \<Rightarrow> 0) n))) expected = Inr ps"
      "lines = concat nodes @ ps @ map (\<lambda>(key, k). Unexpected key k) (unexpected rep) @ [TotalUnexpected (length (unexpected rep))]"
      using nodes(3) by blast
    consider "line \<in> set (concat nodes)" | "line \<in> set ps" | "\<exists>key k. line = Unexpected key k"
      | "line = TotalUnexpected (length (unexpected rep))"
      using assms(2) ps(2) by auto
    then show ?thesis
    proof cases
      case 2
      from in_mapM [OF ps(1) this] show ?thesis by (auto simp: result_simps)
    qed (use node in blast)+
  qed
qed

text \<open>An analysis that comes to its end has put every validator into one of its three lists and counted the
  messages of those analysed: the decryption shares of a proposer, over all nodes and for each node, are as many
  as the messages with such a share in the directories read. The number of unexpected messages is always 0,
  whoever sent them: the check looks each proposer up among the counted ones and not among the validators.\<close>

theorem block_messages_counted:
  assumes "analyseBlockMessages h files nm (Inr validators) stakingOf keyOf b = Inr (st, lines)"
  defines "xs \<equiv> readMessages files nm b st"
  shows "mset (notLocalValidator st) + mset (noMessageFilesFound st) + mset (analyzed st) = mset validators \<and>
    (\<forall>k c n. PerProposer k c n \<in> set lines \<longrightarrow> c = count_list (sharesIn (map snd xs)) k) \<and>
    (\<forall>name shares t. Shares name shares t \<in> set lines \<longrightarrow> t = card (set (sharesIn (toNode name xs))) \<and>
       (\<forall>(k, c, n) \<in> set shares. c = count_list (sharesIn (toNode name xs)) k)) \<and>
    (\<forall>t. TotalUnexpected t \<in> set lines \<longrightarrow> t = 0)"
proof -
  obtain rep keys where run: "forM validators (analyseValidator h files nm b)
      (\<lparr>notLocalValidator = [], noMessageFilesFound = [], analyzed = []\<rparr>, new_report) = Inr (st, rep)"
    "consoleLogReport nm keys rep = Inr lines"
    using assms(1) by (auto simp: analyseBlockMessages_def result_simps split: prod.splits)
  have "reports h new_report []" by (simp add: reports_def new_report_def node_counts_def toNode_def)
  then have r: "reports h rep xs" and st: "sorted_out st validators"
    using analyse_all [OF run(1), of "[]"] by (simp_all add: sorted_out_def xs_def)
  have counted: "counts (proposalsPerValidator rep) (sharesIn (map snd xs))" using r by (simp add: reports_def)
  have proposers: "c = count_list (sharesIn (map snd xs)) k" if "PerProposer k c n \<in> set lines" for k c n
    using printed_lines [OF run(2) that] counted nodeReport_lines
    by (fastforce simp: counts_def count_list_0_iff split: if_splits)
  have total: "t = 0" if "TotalUnexpected t \<in> set lines" for t
    using printed_lines [OF run(2) that] unexpected_empty [OF r] nodeReport_lines by fastforce
  have shares: "t = card (set (sharesIn (toNode name xs))) \<and> (\<forall>(k, c, n) \<in> set ls. c = count_list (sharesIn (toNode name xs)) k)"
    if line: "Shares name ls t \<in> set lines" for name ls t
  proof -
    obtain r where res: "(name, r) \<in> set (results rep)" "t = length (decryptionShares r)"
      "map (\<lambda>(k, c, _). (k, c)) ls = decryptionShares r"
      using printed_lines [OF run(2) line] nodeReport_lines by fastforce
    have c: "counts (decryptionShares r) (sharesIn (toNode name xs))"
      using r res(1) by (force simp: reports_def node_counts_def split: option.splits dest: map_of_is_SomeI)
    have "set (map fst (decryptionShares r)) = set (sharesIn (toNode name xs))"
      using counts_keys [OF c] by simp
    then have "t = card (set (sharesIn (toNode name xs)))"
      using c res(2) by (metis counts_def distinct_card length_map)
    moreover have "c' = count_list (sharesIn (toNode name xs)) k" if "(k, c', n) \<in> set ls" for k c' n
    proof -
      have "(k, c') \<in> set (decryptionShares r)" unfolding res(3) [symmetric] using that by force
      then show ?thesis using counts_member [OF c] by blast
    qed
    ultimately show ?thesis by blast
  qed
  show ?thesis using st proposers total shares unfolding sorted_out_def by blast
qed

definition share_message :: "string \<Rightarrow> message" where
  "share_message p = Some \<lparr>DecryptionShare = Some (Some p), content_Subset = None\<rparr>"

definition one_directory :: message_files where
  "one_directory dir = (if dir = ''testnet/testnet-analysis/messages/hbbft1/5''
     then Some [(''1.json'', Inr (share_message ''key'')), (''2.json'', Inr (share_message ''other'')),
       (''3.json'', Inr (share_message ''key'')), (''notes.txt'', Inl (Thrown ''not JSON''))]
     else None)"

definition one_node :: node_manager where
  "one_node = \<lparr>nodeStates = [new_NodeState 1 None (Some ''0xAA'')], rpcNode = None\<rparr>"

lemma block_messages_counted_witness:
  "\<exists>st lines. analyseBlockMessages (\<lambda>_. []) one_directory one_node (Inr [''0xaa'', ''0xbb'']) Inr
       (\<lambda>a. Inr (if a = ''0xaa'' then ''key'' else ''none'')) 5 = Inr (st, lines) \<and>
     PerProposer ''key'' 2 None \<in> set lines \<and> Shares ''hbbft1'' [(''key'', 2, None), (''other'', 1, None)] 2 \<in> set lines \<and>
     (\<forall>t. TotalUnexpected t \<in> set lines \<longrightarrow> t = 0) \<and>
     mset (notLocalValidator st) + mset (noMessageFilesFound st) + mset (analyzed st) = mset [''0xaa'', ''0xbb'']"
proof -
  let ?run = "analyseBlockMessages (\<lambda>_. []) one_directory one_node (Inr [''0xaa'', ''0xbb'']) Inr
    (\<lambda>a. Inr (if a = ''0xaa'' then ''key'' else ''none'')) 5"
  obtain st lines where run: "?run = Inr (st, lines)"
  proof -
    have "\<not> isl ?run" by code_simp
    then show thesis using that by (cases ?run) auto
  qed
  have "PerProposer ''key'' 2 None \<in> set (snd (projr ?run)) \<and>
      Shares ''hbbft1'' [(''key'', 2, None), (''other'', 1, None)] 2 \<in> set (snd (projr ?run))"
    by code_simp
  then show ?thesis using block_messages_counted [OF run] run by auto
qed

end
