(* ===== verification/StakeOnValidators.thy ===== *)
theory StakeOnValidators imports NodeManager begin

text \<open>
  Making pools for nodes: \<open>stakeOnValidators\<close> of src/src/net/stakeOnValidators.ts. The chain is a parameter:
  a record of the calls that the function makes, on a state \<open>'c\<close> that only its transactions change. The answers
  at the prompt come from a list; when it ends, the function waits for the user.
\<close>

section \<open>The calls, the state, the outcome\<close>

record 'c staking_calls =
  sc_getValidators :: "'c \<Rightarrow> string list result"
  sc_minStake :: "'c \<Rightarrow> int result"
  sc_getBalance :: "'c \<Rightarrow> string \<Rightarrow> int result"
  sc_stakingByMining :: "'c \<Rightarrow> string \<Rightarrow> string result"
  sc_miningByStaking :: "'c \<Rightarrow> string \<Rightarrow> string result"
  sc_feed :: "string \<Rightarrow> int \<Rightarrow> 'c \<Rightarrow> 'c result"
  sc_addPool :: "string \<Rightarrow> string \<Rightarrow> string option \<Rightarrow> string option \<Rightarrow> int \<Rightarrow> 'c \<Rightarrow> (string \<times> 'c) result"

record staking_infos =
  si_validators :: "string list"
  si_public_keys :: "string list"
  si_ip_addresses :: "string list"

record staking_detail =
  nodePublicKey :: "string option"
  nodeMiningAddress :: string
  nodeStakingAddress :: string
  ipAddress :: "string option"
  stakingTransactionHash :: string

record 'c staking_state =
  chain_state :: 'c
  autostakesLeft :: int
  answers :: "string list"
  details :: "staking_detail list"

datatype outcome = Proceed | Returned | Waits | Rejected error

definition isZeroAddress :: "string \<Rightarrow> bool" where
  "isZeroAddress a \<longleftrightarrow> take 2 a = ''0x'' \<and> list_all (\<lambda>c. c = CHR ''0'') (drop 2 a)"

definition zeroAddress :: string where
  "zeroAddress = ''0x0000000000000000000000000000000000000000''"

text \<open>\<open>xs[xs2.indexOf(v)]\<close>: nothing when \<open>v\<close> is not there\<close>

fun indexOf :: "string \<Rightarrow> string list \<Rightarrow> nat option" where
  "indexOf v [] = None"
| "indexOf v (x # xs) = (if x = v then Some 0 else map_option Suc (indexOf v xs))"

definition infoOf :: "string list \<Rightarrow> staking_infos \<Rightarrow> string \<Rightarrow> string option" where
  "infoOf column infos v = Option.bind (indexOf v (si_validators infos)) (entry column)"

section \<open>One pool\<close>

text \<open>An account without the stake is fed with the stake and one coin before the pool is added.\<close>

definition createPool ::
  "'c staking_calls \<Rightarrow> staking_infos \<Rightarrow> int \<Rightarrow> string \<Rightarrow> string \<Rightarrow> 'c staking_state \<Rightarrow> unit result \<times> 'c staking_state" where
  "createPool calls infos minStake validator account s =
     (case sc_getBalance calls (chain_state s) account of Inl e \<Rightarrow> (Inl e, s) | Inr balance \<Rightarrow>
     (case (if balance < minStake then sc_feed calls account (minStake + 10 ^ 18) (chain_state s) else Inr (chain_state s)) of
        Inl e \<Rightarrow> (Inl e, s)
      | Inr c1 \<Rightarrow> (let publicKey = infoOf (si_public_keys infos) infos validator; ip = infoOf (si_ip_addresses infos) infos validator in
        case sc_addPool calls account validator publicKey ip minStake c1 of
          Inl e \<Rightarrow> (Inl e, s\<lparr>chain_state := c1\<rparr>)
        | Inr (txHash, c2) \<Rightarrow> (Inr (), s\<lparr>chain_state := c2, details := details s @
            [\<lparr>nodePublicKey = publicKey, nodeMiningAddress = validator, nodeStakingAddress = account, ipAddress = ip,
              stakingTransactionHash = txHash\<rparr>]\<rparr>))))"

text \<open>The choice for an account: without asking as long as autostakes are left\<close>

definition choiceFor :: "'c staking_state \<Rightarrow> (string \<times> 'c staking_state) option" where
  "choiceFor s = (if autostakesLeft s > 0 then Some (''y'', s\<lparr>autostakesLeft := autostakesLeft s - 1\<rparr>)
     else case answers s of [] \<Rightarrow> None | a # rest \<Rightarrow> Some (to_lower a, s\<lparr>answers := rest\<rparr>))"

definition afterChoice :: "int \<Rightarrow> 'c staking_state \<Rightarrow> outcome \<times> 'c staking_state" where
  "afterChoice autostakeCount s = (if autostakeCount > 0 \<and> autostakesLeft s = 0 then (Returned, s) else (Proceed, s))"

text \<open>The loop over the accounts of the mnemonic\<close>

fun tryAccounts ::
  "'c staking_calls \<Rightarrow> staking_infos \<Rightarrow> int \<Rightarrow> int \<Rightarrow> string \<Rightarrow> string list \<Rightarrow> 'c staking_state \<Rightarrow> outcome \<times> 'c staking_state" where
  "tryAccounts calls infos autostakeCount minStake validator [] s = (Proceed, s)"
| "tryAccounts calls infos autostakeCount minStake validator (account # accounts) s =
     (case sc_miningByStaking calls (chain_state s) account of Inl e \<Rightarrow> (Rejected e, s)
      | Inr mining \<Rightarrow>
        if \<not> isZeroAddress mining then tryAccounts calls infos autostakeCount minStake validator accounts s
        else (case choiceFor s of None \<Rightarrow> (Waits, s)
          | Some (choice, s1) \<Rightarrow>
            if choice = ''s'' then afterChoice autostakeCount s1
            else if choice = ''y'' then
              (case createPool calls infos minStake validator account s1 of
                 (Inl e, s2) \<Rightarrow> (Rejected e, s2) | (Inr _, s2) \<Rightarrow> afterChoice autostakeCount s2)
            else if choice = ''n'' then tryAccounts calls infos autostakeCount minStake validator accounts s1
            else (Returned, s1)))"

section \<open>All validators\<close>

definition stakeOne ::
  "'c staking_calls \<Rightarrow> staking_infos \<Rightarrow> string list \<Rightarrow> int \<Rightarrow> int \<Rightarrow> string list \<Rightarrow> string \<Rightarrow> 'c staking_state \<Rightarrow> outcome \<times> 'c staking_state" where
  "stakeOne calls infos currentValidators autostakeCount minStake accounts validator s =
     (if validator = zeroAddress then (Proceed, s)
      else case sc_stakingByMining calls (chain_state s) validator of Inl e \<Rightarrow> (Rejected e, s)
        | Inr pool \<Rightarrow>
          if \<not> isZeroAddress pool then (Proceed, s)
          else if validator \<in> set currentValidators then (Proceed, s)
          else tryAccounts calls infos autostakeCount minStake validator accounts s)"

text \<open>The accounts of the \<open>i\<close>-th validator begin \<open>i\<close> places after the first one of the mnemonic.\<close>

fun stakeAll ::
  "'c staking_calls \<Rightarrow> staking_infos \<Rightarrow> string list \<Rightarrow> int \<Rightarrow> int \<Rightarrow> string list \<Rightarrow> string list \<Rightarrow> 'c staking_state \<Rightarrow> outcome \<times> 'c staking_state" where
  "stakeAll calls infos current autostakeCount minStake accounts [] s = (Returned, s)"
| "stakeAll calls infos current autostakeCount minStake accounts (v # vs) s =
     (case stakeOne calls infos current autostakeCount minStake accounts v s of
        (Proceed, s1) \<Rightarrow> stakeAll calls infos current autostakeCount minStake (tl accounts) vs s1
      | ended \<Rightarrow> ended)"

definition numOfAddresses :: nat where "numOfAddresses = 100"

definition stakeOnValidators ::
  "'c staking_calls \<Rightarrow> staking_infos option \<Rightarrow> string \<Rightarrow> string list \<Rightarrow> nat \<Rightarrow> int \<Rightarrow> string list \<Rightarrow> string list \<Rightarrow> 'c \<Rightarrow>
   outcome \<times> 'c staking_state" where
  "stakeOnValidators calls nodeInfos defaultAccount wallets mnemonicAccountIndex autostakeCount specific answered c =
     (let s = \<lparr>chain_state = c, autostakesLeft = autostakeCount, answers = answered, details = []\<rparr> in
      case sc_getBalance calls c defaultAccount of Inl e \<Rightarrow> (Rejected e, s) | Inr _ \<Rightarrow>
      (case sc_getValidators calls c of Inl e \<Rightarrow> (Rejected e, s) | Inr validators \<Rightarrow>
      (case nodeInfos of
         None \<Rightarrow> (Rejected (Thrown ''stake on validators requires a testnet manifest. aborting.''), s)
       | Some infos \<Rightarrow>
      (case sc_minStake calls c of Inl e \<Rightarrow> (Rejected e, s) | Inr minStake \<Rightarrow>
      (case sc_getBalance calls c defaultAccount of Inl e \<Rightarrow> (Rejected e, s) | Inr balance \<Rightarrow>
         if balance < minStake then (Returned, s)
         else stakeAll calls infos (map to_lower validators) autostakeCount minStake
           (drop mnemonicAccountIndex (take numOfAddresses wallets))
           (if specific \<noteq> [] then specific else si_validators infos) s)))))"

section \<open>Autostaking\<close>

lemma createPool_frame:
  "createPool calls infos ms v a s = (r, s') \<Longrightarrow> autostakesLeft s' = autostakesLeft s \<and> answers s' = answers s \<and>
     (if r = Inr () then \<exists>d. details s' = details s @ [d] \<and> nodeMiningAddress d = v \<and> nodeStakingAddress d = a
      else details s' = details s)"
  by (auto simp: createPool_def Let_def split: sum.splits if_splits prod.splits)

definition automatic :: "int \<Rightarrow> string list \<Rightarrow> outcome \<times> 'c staking_state \<Rightarrow> bool" where
  "automatic n as = (\<lambda>(r, s). answers s = as \<and> int (length (details s)) + autostakesLeft s \<le> n \<and> 0 \<le> autostakesLeft s \<and>
     r \<noteq> Waits \<and> (r = Proceed \<longrightarrow> 0 < autostakesLeft s))"

lemma automatic_left: "automatic n as (Proceed, s) \<Longrightarrow> 0 < autostakesLeft s"
  unfolding automatic_def prod.case by blast

lemma choiceFor_automatic:
  assumes "automatic n as (Proceed, s)"
  shows "choiceFor s = Some (''y'', s\<lparr>autostakesLeft := autostakesLeft s - 1\<rparr>)"
  using automatic_left [OF assms] by (simp add: choiceFor_def)

lemma createPool_automatic:
  assumes "automatic n as (Proceed, s)" "0 < n"
    and pool: "createPool calls infos ms v a (s\<lparr>autostakesLeft := autostakesLeft s - 1\<rparr>) = (r, s')"
  shows "automatic n as (Rejected e, s')" and "automatic n as (afterChoice n s')"
proof -
  note f = createPool_frame [OF pool]
  have "length (details s') \<le> length (details s) + 1"
    using f by (auto split: if_splits)
  then have bound: "answers s' = as \<and> int (length (details s')) + autostakesLeft s' \<le> n \<and> 0 \<le> autostakesLeft s'"
    using f assms(1) by (simp add: automatic_def)
  then show "automatic n as (Rejected e, s')" by (simp add: automatic_def)
  show "automatic n as (afterChoice n s')" using bound assms(2) by (simp add: automatic_def afterChoice_def)
qed

lemma tryAccounts_automatic:
  assumes "automatic n as (Proceed, s)" "0 < n"
  shows "automatic n as (tryAccounts calls infos n ms v accounts s)"
proof (induction accounts)
  case Nil
  show ?case using assms(1) by simp
next
  case (Cons account accounts)
  note choice = choiceFor_automatic [OF assms(1)]
  obtain r s2 where pool: "createPool calls infos ms v account (s\<lparr>autostakesLeft := autostakesLeft s - 1\<rparr>) = (r, s2)"
    by fastforce
  have other: "automatic n as (Rejected e, s)" for e using assms(1) by (simp add: automatic_def)
  show ?case using Cons other createPool_automatic [OF assms pool]
    by (simp add: choice pool split: sum.splits)
qed

lemma stakeAll_automatic:
  "automatic n as (Proceed, s) \<Longrightarrow> 0 < n \<Longrightarrow> automatic n as (stakeAll calls infos cur n ms accounts vs s)"
proof (induction vs arbitrary: s accounts)
  case Nil
  then show ?case by (simp add: automatic_def)
next
  case (Cons v vs)
  have "automatic n as (stakeOne calls infos cur n ms accounts v s)"
    using tryAccounts_automatic [OF Cons.prems] Cons.prems(1) by (auto simp: stakeOne_def automatic_def split: sum.splits)
  then show ?case using Cons
    by (cases "stakeOne calls infos cur n ms accounts v s"; cases "fst (stakeOne calls infos cur n ms accounts v s)") auto
qed

text \<open>With a number of nodes to stake on automatically, the user is never asked and at most that many pools
  are made, whatever the chain answers and wherever the run ends.\<close>

theorem autostake_is_bounded:
  assumes "stakeOnValidators calls infos def ws i n specific as c = (r, s)" and "0 < n"
  shows "answers s = as \<and> r \<noteq> Waits \<and> int (length (details s)) \<le> n"
proof -
  let ?s = "\<lparr>chain_state = c, autostakesLeft = n, answers = as, details = []\<rparr>"
  have start: "automatic n as (Proceed, ?s)" using assms(2) by (simp add: automatic_def)
  then have "automatic n as (e, ?s)" if "e \<noteq> Waits" for e using that by (simp add: automatic_def)
  then have "automatic n as (stakeOnValidators calls infos def ws i n specific as c)"
    using stakeAll_automatic [OF start assms(2)] by (auto simp: stakeOnValidators_def Let_def split: sum.splits option.splits)
  then show ?thesis using assms by (simp add: automatic_def)
qed

section \<open>Each pool is new\<close>

definition has_pool :: "'c staking_calls \<Rightarrow> 'c \<Rightarrow> string \<Rightarrow> bool" where
  "has_pool calls c v \<longleftrightarrow> (\<forall>p. sc_stakingByMining calls c v = Inr p \<longrightarrow> \<not> isZeroAddress p)"

definition is_used :: "'c staking_calls \<Rightarrow> 'c \<Rightarrow> string \<Rightarrow> bool" where
  "is_used calls c a \<longleftrightarrow> (\<forall>m. sc_miningByStaking calls c a = Inr m \<longrightarrow> \<not> isZeroAddress m)"

definition grows :: "'c staking_calls \<Rightarrow> 'c \<Rightarrow> 'c \<Rightarrow> bool" where
  "grows calls c c' \<longleftrightarrow> (\<forall>v. has_pool calls c v \<longrightarrow> has_pool calls c' v) \<and> (\<forall>a. is_used calls c a \<longrightarrow> is_used calls c' a)"

text \<open>What the contract promises: a pool that was added binds its two addresses, and no binding is undone.\<close>

definition pools_persist :: "'c staking_calls \<Rightarrow> bool" where
  "pools_persist calls \<longleftrightarrow> (\<forall>a w c c'. sc_feed calls a w c = Inr c' \<longrightarrow> grows calls c c') \<and>
     (\<forall>a v k i w c h c'. sc_addPool calls a v k i w c = Inr (h, c') \<longrightarrow>
       grows calls c c' \<and> has_pool calls c' v \<and> is_used calls c' a)"

definition new_pools :: "'c staking_calls \<Rightarrow> string list \<Rightarrow> 'c \<Rightarrow> 'c staking_state \<Rightarrow> bool" where
  "new_pools calls current c0 s \<longleftrightarrow> grows calls c0 (chain_state s) \<and>
     distinct (map nodeMiningAddress (details s)) \<and> distinct (map nodeStakingAddress (details s)) \<and>
     (\<forall>d \<in> set (details s). has_pool calls (chain_state s) (nodeMiningAddress d) \<and> is_used calls (chain_state s) (nodeStakingAddress d) \<and>
        \<not> has_pool calls c0 (nodeMiningAddress d) \<and> \<not> is_used calls c0 (nodeStakingAddress d) \<and> nodeMiningAddress d \<notin> set current)"

lemma grows_trans: "grows calls c d \<Longrightarrow> grows calls d e \<Longrightarrow> grows calls c e"
  by (simp add: grows_def)

lemma new_pools_grows:
  "new_pools calls current c0 s \<Longrightarrow> grows calls (chain_state s) c \<Longrightarrow> new_pools calls current c0 (s\<lparr>chain_state := c\<rparr>)"
  using grows_trans [of calls c0 "chain_state s" c] by (auto simp: new_pools_def grows_def)

lemma new_pools_snoc:
  assumes "new_pools calls current c0 s" "grows calls (chain_state s) c" "has_pool calls c (nodeMiningAddress d)"
    and "is_used calls c (nodeStakingAddress d)" "nodeMiningAddress d \<notin> set current"
    and "\<not> has_pool calls (chain_state s) (nodeMiningAddress d)" "\<not> is_used calls (chain_state s) (nodeStakingAddress d)"
  shows "new_pools calls current c0 (s\<lparr>chain_state := c, details := details s @ [d]\<rparr>)"
proof -
  have "\<not> has_pool calls c0 (nodeMiningAddress d)" "\<not> is_used calls c0 (nodeStakingAddress d)"
    using assms(1,6,7) by (auto simp: new_pools_def grows_def)
  moreover have "nodeMiningAddress d \<notin> nodeMiningAddress ` set (details s)" "nodeStakingAddress d \<notin> nodeStakingAddress ` set (details s)"
    using assms(1,6,7) by (auto simp: new_pools_def)
  ultimately show ?thesis using new_pools_grows [OF assms(1,2)] assms(3-5) by (auto simp: new_pools_def)
qed

lemma createPool_new:
  assumes "pools_persist calls" "new_pools calls current c0 s" "createPool calls infos ms v a s = (r, s')" "v \<notin> set current"
    and "\<not> has_pool calls (chain_state s) v" "\<not> is_used calls (chain_state s) a"
  shows "new_pools calls current c0 s'"
proof -
  show ?thesis
  proof (cases "sc_getBalance calls (chain_state s) a")
    case (Inl e)
    then show ?thesis using assms(2,3) by (simp add: createPool_def)
  next
    case (Inr balance)
    let ?feed = "if balance < ms then sc_feed calls a (ms + 10 ^ 18) (chain_state s) else Inr (chain_state s)"
    let ?add = "sc_addPool calls a v (infoOf (si_public_keys infos) infos v) (infoOf (si_ip_addresses infos) infos v) ms"
    show ?thesis
    proof (cases ?feed)
      case (Inl e)
      then show ?thesis using assms(2,3) Inr by (simp add: createPool_def)
    next
      case fed: (Inr c1)
      have g: "grows calls (chain_state s) c1"
        using fed assms(1) by (auto simp: pools_persist_def grows_def split: if_splits)
      show ?thesis
      proof (cases "?add c1")
        case (Inl e)
        then have "s' = s\<lparr>chain_state := c1\<rparr>" using assms(3) Inr fed by (simp add: createPool_def Let_def)
        then show ?thesis using new_pools_grows [OF assms(2) g] by simp
      next
        case added: (Inr hc)
        obtain h c2 where hc: "hc = (h, c2)" by fastforce
        have c2: "grows calls c1 c2 \<and> has_pool calls c2 v \<and> is_used calls c2 a"
          using added assms(1) hc unfolding pools_persist_def by blast
        have "\<exists>d. s' = s\<lparr>chain_state := c2, details := details s @ [d]\<rparr> \<and> nodeMiningAddress d = v \<and> nodeStakingAddress d = a"
          using assms(3) Inr fed added hc by (auto simp: createPool_def Let_def)
        then show ?thesis using c2 grows_trans [OF g] new_pools_snoc [OF assms(2), of c2] assms(4-6) by blast
      qed
    qed
  qed
qed

lemma choiceFor_state: "choiceFor s = Some (x, s1) \<Longrightarrow> chain_state s1 = chain_state s \<and> details s1 = details s"
  by (auto simp: choiceFor_def split: if_splits list.splits)

lemma new_pools_cong: "chain_state s1 = chain_state s \<Longrightarrow> details s1 = details s \<Longrightarrow> new_pools calls cur c0 s1 = new_pools calls cur c0 s"
  by (simp add: new_pools_def)

lemma tryAccounts_new:
  assumes "pools_persist calls" "new_pools calls current c0 s" "v \<notin> set current" "\<not> has_pool calls (chain_state s) v"
  shows "new_pools calls current c0 (snd (tryAccounts calls infos n ms v accounts s))"
  using assms
proof (induction accounts arbitrary: s)
  case (Cons account accounts)
  have after: "snd (afterChoice n s') = s'" for s' :: "'a staking_state" by (simp add: afterChoice_def)
  show ?case
  proof (cases "sc_miningByStaking calls (chain_state s) account")
    case (Inl e)
    then show ?thesis using Cons.prems by simp
  next
    case (Inr mining)
    show ?thesis
    proof (cases "isZeroAddress mining")
      case False
      then show ?thesis using Inr Cons by simp
    next
      case zero: True
      then have free: "\<not> is_used calls (chain_state s) account" using Inr by (simp add: is_used_def)
      show ?thesis
      proof (cases "choiceFor s")
        case None
        then show ?thesis using Inr zero Cons.prems by simp
      next
        case (Some y)
        obtain x s1 where y: "y = (x, s1)" by fastforce
        have s1: "chain_state s1 = chain_state s" "new_pools calls current c0 s1"
          using choiceFor_state [of s x s1] new_pools_cong [of s1 s] Some y Cons.prems(2) by auto
        obtain r s2 where pool: "createPool calls infos ms v account s1 = (r, s2)" by fastforce
        have "new_pools calls current c0 s2"
          by (rule createPool_new [OF Cons.prems(1) s1(2) pool Cons.prems(3)]) (use s1(1) free Cons.prems(4) in simp_all)
        then show ?thesis using Inr zero Some y s1 pool Cons.IH [OF Cons.prems(1) s1(2)] Cons.prems(3,4)
          by (auto simp: after split: sum.splits)
      qed
    qed
  qed
qed simp

lemma stakeAll_new:
  assumes "pools_persist calls" "new_pools calls current c0 s"
  shows "new_pools calls current c0 (snd (stakeAll calls infos current n ms accounts vs s))"
  using assms(2)
proof (induction vs arbitrary: s accounts)
  case (Cons v vs)
  have one: "new_pools calls current c0 (snd (stakeOne calls infos current n ms accounts v s))"
    using Cons.prems tryAccounts_new [OF assms(1) Cons.prems]
    by (auto simp: stakeOne_def has_pool_def split: sum.splits)
  obtain r s1 where r: "stakeOne calls infos current n ms accounts v s = (r, s1)" by fastforce
  then show ?case using one Cons.IH [of s1 "tl accounts"] by (cases r) simp_all
qed simp


text \<open>A chain on which the theorems are applied: the list of the bindings.\<close>

definition sample_calls :: "(string \<times> string) list staking_calls" where
  "sample_calls = \<lparr>sc_getValidators = \<lambda>c. Inr [], sc_minStake = \<lambda>c. Inr 5, sc_getBalance = \<lambda>c a. Inr 7,
     sc_stakingByMining = \<lambda>c v. Inr (case map_of c v of Some a \<Rightarrow> ''0x1'' | None \<Rightarrow> ''0x0''),
     sc_miningByStaking = \<lambda>c a. Inr (if a \<in> snd ` set c then ''0x1'' else ''0x0''),
     sc_feed = \<lambda>a w c. Inr c, sc_addPool = \<lambda>a v k i w c. Inr (''0xf'', (v, a) # c)\<rparr>"

definition two_nodes :: staking_infos where
  "two_nodes = \<lparr>si_validators = [''0xaa'', ''0xbb''], si_public_keys = [''ka'', ''kb''], si_ip_addresses = [''1'', ''2'']\<rparr>"

definition run_two :: "outcome \<times> (string \<times> string) list staking_state" where
  "run_two = stakeOnValidators sample_calls (Some two_nodes) ''0xdd'' [''0x11'', ''0x22'', ''0x33''] 0 2 [] [] []"


lemma autostake_is_bounded_witness:
  "fst run_two \<noteq> Waits \<and> int (length (details (snd run_two))) \<le> 2"
proof -
  have "stakeOnValidators sample_calls (Some two_nodes) ''0xdd'' [''0x11'', ''0x22'', ''0x33''] 0 2 [] [] [] =
      (fst run_two, snd run_two)" by (simp add: run_two_def)
  from autostake_is_bounded [OF this] show ?thesis by simp
qed


end
