(* ===== verification/Json.thy ===== *)
theory Json imports JavaScript begin

text \<open>
  Values of \<open>JSON.parse\<close>, as the builder of local networks (src/src/localnet/localnet-builder.ts) and the
  builder of forked networks (src/src/fork/forkedNetworkBuilder.ts) change them, and the merge of the
  arguments for a node into its configuration. An object is the list of its entries. Numbers are the
  integers; the order that JavaScript gives to keys that are numbers is left out.
\<close>

section \<open>Values\<close>

datatype json =
    JNull
  | JBool bool
  | JNumber int
  | JString string
  | JArray "json list"
  | JObject "(string \<times> json) list"

type_synonym entries = "(string \<times> json) list"

definition decimal_int :: "int \<Rightarrow> string" where
  "decimal_int n = (if n < 0 then CHR ''-'' # decimal (nat (- n)) else decimal (nat n))"

fun separated :: "string \<Rightarrow> string list \<Rightarrow> string" where
  "separated d [] = []"
| "separated d [w] = w"
| "separated d (w # ws) = w @ d @ separated d ws"

text \<open>\<open>String(v)\<close>; an element of an array that is null has no text.\<close>

fun json_toString :: "json \<Rightarrow> string" where
  "json_toString JNull = ''null''"
| "json_toString (JBool b) = (if b then ''true'' else ''false'')"
| "json_toString (JNumber n) = decimal_int n"
| "json_toString (JString s) = s"
| "json_toString (JArray xs) = separated '','' (map (\<lambda>x. if x = JNull then [] else json_toString x) xs)"
| "json_toString (JObject kvs) = ''[object Object]''"

text \<open>An assignment to a key: it keeps its place, or is added at the end.\<close>

fun set_key :: "string \<Rightarrow> json \<Rightarrow> entries \<Rightarrow> entries" where
  "set_key k v [] = [(k, v)]"
| "set_key k v ((k', v') # kvs) = (if k' = k then (k, v) # kvs else (k', v') # set_key k v kvs)"

lemma map_of_set_key [simp]: "map_of (set_key k v kvs) = (map_of kvs)(k \<mapsto> v)"
  by (induction kvs) auto

lemma set_key_same: "map_of kvs k = Some v \<Longrightarrow> set_key k v kvs = kvs"
  by (induction kvs) (auto split: if_splits)

lemma set_key_keys: "set (map fst (set_key k v kvs)) = insert k (set (map fst kvs))"
proof (induction kvs)
  case (Cons e kvs)
  obtain k' v' where e: "e = (k', v')" by (cases e)
  show ?case using Cons by (cases "k' = k") (simp_all add: e insert_commute)
qed simp

lemma set_key_distinct: "distinct (map fst (set_key k v kvs)) \<longleftrightarrow> distinct (map fst kvs)"
proof (induction kvs)
  case (Cons e kvs)
  obtain k' v' where e: "e = (k', v')" by (cases e)
  show ?case
  proof (cases "k' = k")
    case False
    have "k' \<in> set (map fst (set_key k v kvs)) \<longleftrightarrow> k' \<in> set (map fst kvs)"
      using set_key_keys [of k v kvs] False by auto
    then show ?thesis using Cons False by (simp add: e)
  qed (simp add: e)
qed simp

text \<open>\<open>{ ...v }\<close>: strings and arrays have their positions as keys, other values than objects have none.\<close>

definition spread :: "json \<Rightarrow> entries" where
  "spread j = (case j of JObject kvs \<Rightarrow> kvs
     | JString s \<Rightarrow> map (\<lambda>i. (decimal i, JString [s ! i])) [0..<length s]
     | JArray xs \<Rightarrow> map (\<lambda>i. (decimal i, xs ! i)) [0..<length xs]
     | _ \<Rightarrow> [])"

section \<open>Merging\<close>

text \<open>
  The values that are falsy (null, false, zero, the empty string) have no keys either, so that
  \<open>obj1[key] || {}\<close> has the keys of \<open>obj1[key]\<close>. The code reads \<open>obj1[key]\<close> from the first object and writes
  the copy of it.
\<close>

definition keys_at :: "entries \<Rightarrow> string \<Rightarrow> entries" where
  "keys_at obj1 k = (case map_of obj1 k of Some v \<Rightarrow> spread v | None \<Rightarrow> [])"

fun mergeInto :: "entries \<Rightarrow> entries \<Rightarrow> entries \<Rightarrow> entries" where
  "mergeInto obj1 result [] = result"
| "mergeInto obj1 result ((k, JObject o2) # rest) =
     mergeInto obj1 (set_key k (JObject (mergeInto (keys_at obj1 k) (keys_at obj1 k) o2)) result) rest"
| "mergeInto obj1 result ((k, v) # rest) = mergeInto obj1 (set_key k v result) rest"

definition deepMerge :: "entries \<Rightarrow> entries \<Rightarrow> entries" where
  "deepMerge obj1 obj2 = mergeInto obj1 obj1 obj2"

definition merged :: "entries \<Rightarrow> string \<Rightarrow> json \<Rightarrow> json" where
  "merged obj1 k v = (case v of JObject o2 \<Rightarrow> JObject (deepMerge (keys_at obj1 k) o2) | _ \<Rightarrow> v)"

lemma mergeInto_Cons: "mergeInto obj1 result ((k, v) # rest) = mergeInto obj1 (set_key k (merged obj1 k v) result) rest"
  by (cases v) (simp_all add: merged_def deepMerge_def)

lemma mergeInto_lookup:
  assumes "distinct (map fst obj2)"
  shows "map_of (mergeInto obj1 result obj2) k =
         (case map_of obj2 k of Some v \<Rightarrow> Some (merged obj1 k v) | None \<Rightarrow> map_of result k)"
  using assms
proof (induction obj2 arbitrary: result)
  case (Cons e rest)
  obtain k' v where e: "e = (k', v)" by (cases e)
  have fresh: "map_of rest k' = None" using Cons.prems e by (auto simp: map_of_eq_None_iff)
  have d: "distinct (map fst rest)" using Cons.prems by simp
  have IH: "map_of (mergeInto obj1 (set_key k' (merged obj1 k' v) result) rest) k =
    (case map_of rest k of Some v \<Rightarrow> Some (merged obj1 k v) | None \<Rightarrow> ((map_of result)(k' \<mapsto> merged obj1 k' v)) k)"
    unfolding Cons.IH [OF d] map_of_set_key ..
  show ?case
  proof (cases "k = k'")
    case True
    then show ?thesis using IH fresh unfolding e mergeInto_Cons by simp
  next
    case False
    then show ?thesis using IH unfolding e mergeInto_Cons by (simp split: option.split)
  qed
qed simp

lemma deepMerge_lookup:
  assumes "distinct (map fst obj2)"
  shows "map_of (deepMerge obj1 obj2) k =
         (case map_of obj2 k of Some v \<Rightarrow> Some (merged obj1 k v) | None \<Rightarrow> map_of obj1 k)"
  unfolding deepMerge_def by (rule mergeInto_lookup [OF assms])

text \<open>The value at the end of a path of keys.\<close>

fun value_at :: "entries \<Rightarrow> string list \<Rightarrow> json option" where
  "value_at kvs [] = Some (JObject kvs)"
| "value_at kvs [k] = map_of kvs k"
| "value_at kvs (k # ks) = (case map_of kvs k of Some (JObject o2) \<Rightarrow> value_at o2 ks | _ \<Rightarrow> None)"

text \<open>The keys of an object that \<open>JSON.parse\<close> or the parser of TOML returns are distinct at every depth.\<close>

fun distinct_keys :: "json \<Rightarrow> bool" where
  "distinct_keys (JObject kvs) \<longleftrightarrow> distinct (map fst kvs) \<and> list_all (\<lambda>kv. distinct_keys (snd kv)) kvs"
| "distinct_keys (JArray xs) \<longleftrightarrow> list_all distinct_keys xs"
| "distinct_keys _ \<longleftrightarrow> True"

definition is_object :: "json \<Rightarrow> bool" where
  "is_object j = (case j of JObject kvs \<Rightarrow> True | _ \<Rightarrow> False)"

lemma merged_plain [simp]: "\<not> is_object v \<Longrightarrow> merged obj1 k v = v"
  by (cases v) (simp_all add: merged_def is_object_def)

lemma merged_object [simp]: "merged obj1 k (JObject o2) = JObject (deepMerge (keys_at obj1 k) o2)"
  by (simp add: merged_def)

lemma distinct_keys_at:
  assumes "distinct_keys (JObject kvs)" "map_of kvs k = Some v"
  shows "distinct_keys v"
  using assms by (auto simp: list_all_iff dest!: map_of_SomeD)

text \<open>Each value of the second object wins.\<close>

lemma merge_wins:
  assumes "distinct_keys (JObject obj2)" "value_at obj2 p = Some v" "\<not> is_object v"
  shows "value_at (deepMerge obj1 obj2) p = Some v"
  using assms
proof (induction obj2 p arbitrary: obj1 rule: value_at.induct)
  case (2 kvs k)
  then have "distinct (map fst kvs)" "map_of kvs k = Some v" by simp_all
  with 2 show ?case by (simp add: deepMerge_lookup)
next
  case (3 kvs k k' ks)
  from 3(3) obtain o2 where o2: "map_of kvs k = Some (JObject o2)" "value_at o2 (k' # ks) = Some v"
    by (auto split: option.splits json.splits)
  have d: "distinct (map fst kvs)" using 3(2) by simp
  have "value_at (deepMerge (keys_at obj1 k) o2) (k' # ks) = Some v"
    using 3(1) [OF o2(1) refl _ o2(2) 3(4)] distinct_keys_at [OF 3(2) o2(1)] by blast
  then show ?case using o2(1) by (simp add: deepMerge_lookup [OF d])
qed (auto simp: is_object_def split: json.splits)

text \<open>A path that leaves the second object keeps its value.\<close>

fun leaves_path :: "entries \<Rightarrow> string list \<Rightarrow> bool" where
  "leaves_path kvs [] \<longleftrightarrow> False"
| "leaves_path kvs (k # ks) \<longleftrightarrow> (case map_of kvs k of None \<Rightarrow> True | Some (JObject o2) \<Rightarrow> leaves_path o2 ks | Some _ \<Rightarrow> False)"

lemma merge_keeps:
  assumes "distinct_keys (JObject obj2)" "leaves_path obj2 p" "value_at obj1 p = Some v"
  shows "value_at (deepMerge obj1 obj2) p = Some v"
  using assms
proof (induction obj1 p arbitrary: obj2 rule: value_at.induct)
  case (2 kvs k)
  then have "distinct (map fst obj2)" "map_of obj2 k = None" by (auto split: option.splits json.splits)
  then show ?case using 2(3) by (simp add: deepMerge_lookup)
next
  case (3 kvs k k' ks)
  have d: "distinct (map fst obj2)" using 3(2) by simp
  from 3(4) obtain o1 where o1: "map_of kvs k = Some (JObject o1)" "value_at o1 (k' # ks) = Some v"
    by (auto split: option.splits json.splits)
  show ?case
  proof (cases "map_of obj2 k")
    case None
    then show ?thesis using o1 by (simp add: deepMerge_lookup [OF d])
  next
    case (Some w)
    then obtain o2 where w: "w = JObject o2" "leaves_path o2 (k' # ks)" using 3(3) by (cases w) auto
    have "value_at (deepMerge o1 o2) (k' # ks) = Some v"
      using 3(1) [OF o1(1) refl _ w(2) o1(2)] distinct_keys_at [OF 3(2) Some] w(1) by blast
    moreover have "keys_at kvs k = o1" using o1(1) by (simp add: keys_at_def spread_def)
    ultimately show ?thesis using Some w(1) by (simp add: deepMerge_lookup [OF d])
  qed
qed simp

text \<open>Merging the same arguments a second time changes no value.\<close>

lemma keys_at_merged:
  "distinct (map fst obj2) \<Longrightarrow> map_of obj2 k = Some (JObject o2) \<Longrightarrow>
   keys_at (deepMerge obj1 obj2) k = deepMerge (keys_at obj1 k) o2"
  by (simp add: keys_at_def [of "deepMerge obj1 obj2"] deepMerge_lookup spread_def)

lemma mergeInto_same:
  assumes "\<And>k v. (k, v) \<in> set obj2 \<Longrightarrow> map_of result k = Some (merged obj1 k v)"
  shows "mergeInto obj1 result obj2 = result"
  using assms
proof (induction obj2)
  case (Cons e rest)
  obtain k v where e: "e = (k, v)" by (cases e)
  have "map_of result k = Some (merged obj1 k v)" using Cons.prems e by simp
  then have "set_key k (merged obj1 k v) result = result" by (rule set_key_same)
  then show ?case using Cons unfolding e mergeInto_Cons by simp
qed simp

lemma merge_again:
  assumes "distinct_keys (JObject obj2)"
  shows "deepMerge (deepMerge obj1 obj2) obj2 = deepMerge obj1 obj2"
  using assms
proof (induction "JObject obj2" arbitrary: obj1 obj2 rule: measure_induct_rule [of size])
  case (less obj2)
  have d: "distinct (map fst obj2)" using less(2) by simp
  have "map_of (deepMerge obj1 obj2) k = Some (merged (deepMerge obj1 obj2) k v)" if kv: "(k, v) \<in> set obj2" for k v
  proof -
    have v: "map_of obj2 k = Some v" using d kv by simp
    show ?thesis
    proof (cases "is_object v")
      case True
      then obtain o2 where o2: "v = JObject o2" by (cases v) (auto simp: is_object_def)
      have "size v < size (JObject obj2)"
        using size_list_estimation' [OF kv, of "size v" "size_prod (\<lambda>x. 0) size"] by (simp add: less_Suc_eq_le)
      then have "deepMerge (deepMerge (keys_at obj1 k) o2) o2 = deepMerge (keys_at obj1 k) o2"
        using less(1) distinct_keys_at [OF less(2) v] o2 by blast
      then show ?thesis using v o2 keys_at_merged [OF d, of k o2 obj1] by (simp add: deepMerge_lookup [OF d])
    qed (simp add: deepMerge_lookup [OF d] v)
  qed
  then show ?case unfolding deepMerge_def [of "deepMerge obj1 obj2"] by (rule mergeInto_same)
qed

end
