(* ===== verification/LocalNets.thy ===== *)
theory LocalNets imports Json Config begin

text \<open>
  The builder of local networks: src/src/localnet/localnet-builder.ts, the creation of a network in
  src/src/net/nodeManager.ts, and the two functions of src/src/fork/forkedNetworkBuilder.ts that join the
  files of two networks. The state is what the code changes outside of its objects: the environment of
  the process, the files and the directories. A file with a JSON text is kept as its value. The commands
  that are run, the parser and the printer of TOML, and the places of the sibling repositories are
  parameters; paths are joined with one slash, as the code passes no dots behind those places. Assigning
  to a property of an array, which \<open>JSON.stringify\<close> would drop, counts as an error here.
\<close>

section \<open>Files, directories and the environment\<close>

datatype file_content = Text string | Json json

record host =
  env_vars :: "string \<Rightarrow> string option"
  host_files :: "string \<Rightarrow> file_content option"
  host_dirs :: "string set"

definition path_join :: "string \<Rightarrow> string \<Rightarrow> string" where
  "path_join a b = (if a \<noteq> [] \<and> last a = CHR ''/'' then a @ b else a @ ''/'' @ b)"

definition dirname :: "string \<Rightarrow> string" where
  "dirname p = rev (drop 1 (dropWhile (\<lambda>c. c \<noteq> CHR ''/'') (rev p)))"

definition ancestors :: "string \<Rightarrow> string set" where
  "ancestors d = insert d (set (map (\<lambda>i. take i d) (filter (\<lambda>i. d ! i = CHR ''/'') [0..<length d])))"

definition mkdirRecursive :: "string \<Rightarrow> host \<Rightarrow> host result" where
  "mkdirRecursive d h =
     (if \<exists>a \<in> ancestors d. host_files h a \<noteq> None then Inl (Thrown ''EEXIST'')
      else Inr (h\<lparr>host_dirs := ancestors d \<union> host_dirs h\<rparr>))"

definition mkdirSync :: "string \<Rightarrow> host \<Rightarrow> host result" where
  "mkdirSync d h =
     (if d \<in> host_dirs h \<or> host_files h d \<noteq> None then Inl (Thrown ''EEXIST'')
      else if dirname d \<notin> host_dirs h then Inl (Thrown ''ENOENT'')
      else Inr (h\<lparr>host_dirs := insert d (host_dirs h)\<rparr>))"

definition writeFileSync :: "string \<Rightarrow> file_content \<Rightarrow> host \<Rightarrow> host result" where
  "writeFileSync p c h =
     (if p \<in> host_dirs h then Inl (Thrown ''EISDIR'')
      else if dirname p \<notin> host_dirs h then Inl (Thrown ''ENOENT'')
      else Inr (h\<lparr>host_files := (host_files h)(p \<mapsto> c)\<rparr>))"

definition readFileSync :: "string \<Rightarrow> host \<Rightarrow> file_content result" where
  "readFileSync p h = (case host_files h p of Some c \<Rightarrow> Inr c | None \<Rightarrow> Inl (Thrown ''ENOENT''))"

definition readJson :: "string \<Rightarrow> host \<Rightarrow> json result" where
  "readJson p h = await (readFileSync p h) (\<lambda>c. case c of Json j \<Rightarrow> Inr j | Text t \<Rightarrow> Inl (Thrown ''SyntaxError''))"

definition copyFile :: "string \<Rightarrow> string \<Rightarrow> host \<Rightarrow> host result" where
  "copyFile src dest h = await (readFileSync src h) (\<lambda>c. writeFileSync dest c h)"

section \<open>The builder\<close>

record builder_args =
  initialValidatorsCount :: nat
  nodesCount :: nat
  ba_networkID :: "int option"
  p2pPortBase :: "int option"
  rpcPortBase :: "int option"
  rpcWSPortBase :: "int option"
  ba_metricsPortBase :: "int option"
  ba_txQueuePerSender :: "int option"
  ba_hbbftArgs :: "entries option"
  ba_contractArgs :: "entries option"
  ba_nodeArgs :: "string list option"

text \<open>A port or size that is not a number is missing here.\<close>

record LocalnetBuilder =
  lb_name :: string
  numInitialValidators :: nat
  numNodes :: nat
  useContractProxies :: bool
  metricsPortBase :: "int option"
  txQueuePerSender :: "int option"
  portBase :: "int option"
  portBaseRPC :: "int option"
  portBaseWS :: "int option"
  networkID :: int
  hbbftArgs :: entries
  contractArgs :: entries
  lb_nodeArgs :: "string list option"

definition newBuilder :: "string \<Rightarrow> nat \<Rightarrow> nat \<Rightarrow> LocalnetBuilder" where
  "newBuilder name v n = \<lparr>lb_name = name, numInitialValidators = v, numNodes = n, useContractProxies = True,
     metricsPortBase = Some 48700, txQueuePerSender = None, portBase = None, portBaseRPC = None,
     portBaseWS = None, networkID = 777012, hbbftArgs = [], contractArgs = [], lb_nodeArgs = None\<rparr>"

definition given_or :: "'a option \<Rightarrow> 'a \<Rightarrow> 'a" where
  "given_or v d = (case v of Some x \<Rightarrow> x | None \<Rightarrow> d)"

definition fromBuilderArgs :: "string \<Rightarrow> builder_args \<Rightarrow> LocalnetBuilder" where
  "fromBuilderArgs name a =
     (newBuilder name (initialValidatorsCount a) (nodesCount a))\<lparr>
       metricsPortBase := Some (given_or (ba_metricsPortBase a) 48700),
       txQueuePerSender := ba_txQueuePerSender a, portBase := p2pPortBase a, portBaseRPC := rpcPortBase a,
       portBaseWS := rpcWSPortBase a, networkID := given_or (ba_networkID a) 777012,
       hbbftArgs := given_or (ba_hbbftArgs a) [], contractArgs := given_or (ba_contractArgs a) [],
       lb_nodeArgs := ba_nodeArgs a\<rparr>"

text \<open>
  The places next to the repository, and what is outside of the program: the commands with the change of
  the files that they make, the TOML library and the account of the wallet.
\<close>

record surroundings =
  posdaoContractsDir :: string
  daoContractsDir :: string
  viewsContractsDir :: string
  diamondNodeDir :: string
  cmd :: "string \<Rightarrow> host \<Rightarrow> bool \<times> host"
  toml_parse :: "string \<Rightarrow> entries result"
  toml_stringify :: "entries \<Rightarrow> string"
  defaultAccount :: string

definition getGeneratedAssetsDirectory :: "surroundings \<Rightarrow> string" where
  "getGeneratedAssetsDirectory w = path_join (diamondNodeDir w) ''crates/ethcore/src/engines/hbbft/hbbft_config_generator/''"

definition getPosdaoContractsOutputSpecFile :: "surroundings \<Rightarrow> string" where
  "getPosdaoContractsOutputSpecFile w = path_join (posdaoContractsDir w) ''spec_hbbft.json''"

definition getViewsContractsOutputFile :: "surroundings \<Rightarrow> string" where
  "getViewsContractsOutputFile w = path_join (viewsContractsDir w) ''out/spec_aggregator.json''"

definition getDaoContractsOutput :: "surroundings \<Rightarrow> string" where
  "getDaoContractsOutput w = path_join (daoContractsDir w) ''out/spec_dao.json''"

definition writeEnv :: "LocalnetBuilder \<Rightarrow> string \<Rightarrow> string \<Rightarrow> host \<Rightarrow> host" where
  "writeEnv b envName envDefaultValue h =
     (case env_vars h envName of Some v \<Rightarrow> h
      | None \<Rightarrow> h\<lparr>env_vars := (env_vars h)(envName \<mapsto>
          (case map_of (contractArgs b) envName of Some v \<Rightarrow> json_toString v | None \<Rightarrow> envDefaultValue))\<rparr>)"

text \<open>A command that has to succeed.\<close>

definition cmd_or_throw :: "surroundings \<Rightarrow> string \<Rightarrow> string \<Rightarrow> host \<Rightarrow> host result" where
  "cmd_or_throw w c message h = (case cmd w c h of (ok, h1) \<Rightarrow> if ok then Inr h1 else Inl (Thrown message))"

definition port_arg :: "string \<Rightarrow> int option \<Rightarrow> string list" where
  "port_arg name v = (case v of Some n \<Rightarrow> [name @ decimal_int n] | None \<Rightarrow> [])"

definition cargoArgs :: "LocalnetBuilder \<Rightarrow> string list" where
  "cargoArgs b = [''run'', decimal (numInitialValidators b), decimal (numNodes b), ''Docker''] @
     port_arg ''--tx_queue_per_sender='' (txQueuePerSender b) @
     (case metricsPortBase b of Some n \<Rightarrow> [''--metrics_port_base=='' @ decimal_int n, ''--metrics_interface=all''] | None \<Rightarrow> []) @
     port_arg ''--port_base='' (portBase b) @
     port_arg ''--port_base_rpc='' (portBaseRPC b) @
     port_arg ''--port_base_ws='' (portBaseWS b)"

definition buildNodeFiles :: "surroundings \<Rightarrow> LocalnetBuilder \<Rightarrow> host \<Rightarrow> host result" where
  "buildNodeFiles w b = cmd_or_throw w
     (''cd '' @ path_join (diamondNodeDir w) ''crates/ethcore/src/engines/hbbft/hbbft_config_generator'' @
      '' && cargo '' @ separated '' '' (cargoArgs b)) ''Failed to create node files''"

definition contract_defaults :: "string \<Rightarrow> (string \<times> string) list" where
  "contract_defaults networkName =
     [(''NETWORK_NAME'', networkName), (''NETWORK_ID'', ''777012''),
      (''OWNER'', ''0xDA0da0da0Da0Da0Da0DA00DA0da0da0DA0DA0dA0''),
      (''STAKING_EPOCH_DURATION'', ''3600''), (''STAKE_WITHDRAW_DISALLOW_PERIOD'', ''1''),
      (''STAKING_TRANSITION_WINDOW_LENGTH'', ''600''), (''STAKING_MIN_STAKE_FOR_VALIDATOR'', ''10000''),
      (''STAKING_MIN_STAKE_FOR_DELEGATOR'', ''100'')]"

definition writeEnvs :: "string \<Rightarrow> LocalnetBuilder \<Rightarrow> host \<Rightarrow> host" where
  "writeEnvs networkName b h = foldl (\<lambda>h (k, d). writeEnv b k d h) h (contract_defaults networkName)"

text \<open>\<open>chain\<close> is the name of the chain of the network that the configuration has selected.\<close>

definition buildContracts :: "surroundings \<Rightarrow> string \<Rightarrow> LocalnetBuilder \<Rightarrow> host \<Rightarrow> host result" where
  "buildContracts w chain b h =
     await (cmd_or_throw w (''cd '' @ posdaoContractsDir w @ '' && npx hardhat compile'')
              ''Failed to compile contracts'' (writeEnvs chain b h)) (\<lambda>h1.
     cmd_or_throw w (''cd '' @ posdaoContractsDir w @
        '' && npx hardhat make_spec_hbbft --init-contracts initial-contracts.json --initial-fund-address '' @
        defaultAccount w @ '' '' @ (if useContractProxies b then ''--use-upgrade-proxy'' else []) @ '' '' @
        getGeneratedAssetsDirectory w @ ''keygen_history.json'') ''Failed to generate chain spec'' h1)"

definition chain_spec_script :: "string \<Rightarrow> string" where
  "chain_spec_script d = ''cd '' @ d @ '' && npx hardhat compile && npx hardhat run scripts/deployForChainSpec.ts''"

definition buildContractsDao :: "surroundings \<Rightarrow> host \<Rightarrow> host result" where
  "buildContractsDao w = cmd_or_throw w (chain_spec_script (daoContractsDir w)) ''Failed to generate DAO spec''"

definition buildContractsViews :: "surroundings \<Rightarrow> host \<Rightarrow> host result" where
  "buildContractsViews w = cmd_or_throw w (chain_spec_script (viewsContractsDir w)) ''Failed to generate views spec''"

section \<open>The specification of the chain\<close>

text \<open>\<open>j.k1.k2...\<close>, where everything on the way has to be an object.\<close>

definition type_error :: "'a result" where
  "type_error = Inl (Thrown ''TypeError'')"

fun change_at :: "string list \<Rightarrow> (entries \<Rightarrow> entries) \<Rightarrow> json \<Rightarrow> json result" where
  "change_at [] f (JObject kvs) = Inr (JObject (f kvs))"
| "change_at (k # ks) f (JObject kvs) = (case map_of kvs k of
     Some j \<Rightarrow> await (change_at ks f j) (\<lambda>j'. Inr (JObject (set_key k j' kvs)))
   | None \<Rightarrow> type_error)"
| "change_at ks f j = type_error"

definition set_keys :: "entries \<Rightarrow> entries \<Rightarrow> entries" where
  "set_keys new kvs = foldl (\<lambda>kvs (k, v). set_key k v kvs) kvs new"

definition integrateDaoToChainSpec :: "surroundings \<Rightarrow> host \<Rightarrow> host result" where
  "integrateDaoToChainSpec w h =
     await (readJson (getPosdaoContractsOutputSpecFile w) h) (\<lambda>spec.
     await (readJson (getDaoContractsOutput w) h) (\<lambda>specDao.
     await (if spread specDao = [] then Inr spec else change_at [''accounts''] (set_keys (spread specDao)) spec) (\<lambda>spec1.
     await (readJson (getViewsContractsOutputFile w) h) (\<lambda>specViews.
     await (if spread specViews = [] then Inr spec1 else change_at [''accounts''] (set_keys (spread specViews)) spec1) (\<lambda>spec2.
     writeFileSync (getPosdaoContractsOutputSpecFile w) (Json spec2) h)))))"

definition manipulated :: "LocalnetBuilder \<Rightarrow> json \<Rightarrow> json result" where
  "manipulated b spec =
     await (change_at [] (set_key ''name'' (JString (lb_name b))) spec) (\<lambda>s1.
     await (change_at [''params''] (set_key ''networkID'' (JString (decimal_int (networkID b)))) s1) (\<lambda>s2.
     await (if hbbftArgs b = [] then Inr s2
            else change_at [''engine'', ''hbbft'', ''params''] (set_keys (hbbftArgs b)) s2) (\<lambda>s3.
     change_at [''params''] (set_key ''minGasLimit'' (JString ''10000000'')) s3)))"

definition applyChainSpecManipulations :: "surroundings \<Rightarrow> LocalnetBuilder \<Rightarrow> host \<Rightarrow> host result" where
  "applyChainSpecManipulations w b h =
     await (readJson (getPosdaoContractsOutputSpecFile w) h) (\<lambda>spec.
     await (manipulated b spec) (\<lambda>spec1.
     writeFileSync (getPosdaoContractsOutputSpecFile w) (Json spec1) h))"

section \<open>The directories of the nodes\<close>

definition getTargetNodeDir :: "string \<Rightarrow> nat \<Rightarrow> string" where
  "getTargetNodeDir target i = path_join target (''node'' @ decimal i)"

definition getTargetNodeTomlFile :: "string \<Rightarrow> nat \<Rightarrow> string" where
  "getTargetNodeTomlFile target i =
     path_join (getTargetNodeDir target i) (if i = 0 then ''node.toml'' else ''validator_node.toml'')"

text \<open>The operations on files that set up a node, in their order.\<close>

datatype file_op = MkdirP string | Mkdir string | Copy string string

fun do_op :: "file_op \<Rightarrow> host \<Rightarrow> host result" where
  "do_op (MkdirP d) h = mkdirRecursive d h"
| "do_op (Mkdir d) h = mkdirSync d h"
| "do_op (Copy src dest) h = copyFile src dest h"

definition nodeOps :: "surroundings \<Rightarrow> string \<Rightarrow> string \<Rightarrow> nat \<Rightarrow> file_op list" where
  "nodeOps w chain target i =
     (let assets = getGeneratedAssetsDirectory w; nodeDir = getTargetNodeDir target i;
          validator = (\<lambda>s. path_join assets (''hbbft_validator_'' @ s @ decimal i));
          chainDir = path_join nodeDir (''data/keys/'' @ chain) in
      [MkdirP nodeDir,
       MkdirP (path_join nodeDir ''data/network''),
       MkdirP (path_join nodeDir ''data/keys''),
       MkdirP (path_join nodeDir ''data/keys/DPoSChain''),
       Copy (validator [] @ ''.toml'') (getTargetNodeTomlFile target i),
       Copy (validator ''key_'') (path_join nodeDir ''data/network/key''),
       Copy (validator ''address_'' @ ''.txt'') (path_join nodeDir ''address.txt''),
       Copy (validator ''public_'' @ ''.txt'') (path_join nodeDir ''public_key.txt''),
       Copy (path_join assets ''reserved-peers'') (path_join nodeDir ''reserved-peers''),
       Copy (getPosdaoContractsOutputSpecFile w) (path_join nodeDir ''spec.json''),
       Copy (path_join assets ''password.txt'') (path_join nodeDir ''password.txt''),
       Copy (validator ''key_'' @ ''.json'') (path_join nodeDir ''data/keys/DPoSChain/hbbft_validator_key.json''),
       Mkdir chainDir,
       Copy (validator ''key_'' @ ''.json'') (path_join chainDir ''hbbft_validator_key.json'')])"

definition rpcOps :: "surroundings \<Rightarrow> string \<Rightarrow> file_op list" where
  "rpcOps w target =
     (let assets = getGeneratedAssetsDirectory w in
      [MkdirP (path_join target ''rpc_node''),
       Copy (path_join assets ''rpc_node.toml'') (path_join target ''rpc_node/node.toml''),
       Copy (path_join assets ''reserved-peers'') (path_join target ''rpc_node/reserved-peers''),
       Copy (getPosdaoContractsOutputSpecFile w) (path_join target ''rpc_node/spec.json''),
       Copy (assets @ ''nodes_info.json'') (path_join target ''nodes_info.json'')])"

definition do_ops :: "file_op list \<Rightarrow> host \<Rightarrow> host result" where
  "do_ops ops = forM ops do_op"

definition copyNodeFilesToTargetDirectory :: "surroundings \<Rightarrow> string \<Rightarrow> LocalnetBuilder \<Rightarrow> string \<Rightarrow> host \<Rightarrow> host result" where
  "copyNodeFilesToTargetDirectory w chain b target h =
     await (forM [1..<numNodes b + 1] (\<lambda>i. do_ops (nodeOps w chain target i)) h) (do_ops (rpcOps w target))"

definition applyTomlManipulation :: "surroundings \<Rightarrow> LocalnetBuilder \<Rightarrow> string \<Rightarrow> nat \<Rightarrow> host \<Rightarrow> host result" where
  "applyTomlManipulation w b target i h = (case lb_nodeArgs b of None \<Rightarrow> Inr h
     | Some args \<Rightarrow>
         await (readFileSync (getTargetNodeTomlFile target i) h) (\<lambda>c.
         await (case c of Text toml \<Rightarrow> toml_parse w toml | Json j \<Rightarrow> Inl (Thrown ''TomlError'')) (\<lambda>originalConfig.
         await (toml_parse w (separated [CHR 0x0A] args)) (\<lambda>overwriteConfig.
         writeFileSync (getTargetNodeTomlFile target i)
           (Text (toml_stringify w (deepMerge originalConfig overwriteConfig))) h))))"

definition applyTomlManipulations :: "surroundings \<Rightarrow> LocalnetBuilder \<Rightarrow> string \<Rightarrow> host \<Rightarrow> host result" where
  "applyTomlManipulations w b target = forM [1..<numNodes b + 1] (applyTomlManipulation w b target)"

definition build :: "surroundings \<Rightarrow> string \<Rightarrow> LocalnetBuilder \<Rightarrow> string \<Rightarrow> host \<Rightarrow> host result" where
  "build w chain b target h =
     await (buildNodeFiles w b h) (\<lambda>h.
     await (buildContracts w chain b h) (\<lambda>h.
     await (buildContractsDao w h) (\<lambda>h.
     await (buildContractsViews w h) (\<lambda>h.
     await (integrateDaoToChainSpec w h) (\<lambda>h.
     await (applyChainSpecManipulations w b h) (\<lambda>h.
     await (copyNodeFilesToTargetDirectory w chain b target h) (\<lambda>h.
     applyTomlManipulations w b target h)))))))"

text \<open>
  \<open>createLocalNetwork\<close> of the node manager. \<open>sections\<close> are the entries \<open>builder\<close> of the networks of the
  configuration; the program ends with the status 1 where it gives up.
\<close>

definition createLocalNetwork ::
    "surroundings \<Rightarrow> environment \<Rightarrow> (string \<Rightarrow> builder_args option) \<Rightarrow> string \<Rightarrow> config_state \<Rightarrow> host \<Rightarrow> host result" where
  "createLocalNetwork w env sections network s h =
     (case getLocalTargetNetworkFSDir env (Some network) s of (location, s1) \<Rightarrow>
      await location (\<lambda>target.
      if target \<in> host_dirs h \<or> host_files h target \<noteq> None then Inl (Thrown ''exit 1'')
      else (case getChainName env (Some network) s1 of (name, s2) \<Rightarrow>
        let section = sections network;
            v = or_number (map_option (\<lambda>a. int (initialValidatorsCount a)) section) 1;
            n = or_number (map_option (\<lambda>a. int (nodesCount a)) section) 4 in
        if v > n then Inl (Thrown ''exit 1'')
        else await name (\<lambda>testnetName.
          await (fst (getChainName env None s2)) (\<lambda>chain.
            build w chain (case section of Some a \<Rightarrow> fromBuilderArgs testnetName a
              | None \<Rightarrow> newBuilder testnetName (nat v) (nat n)) target h)))))"

text \<open>
  \<open>restoreDB\<close> of a node ignores whether the copy succeeds. \<open>awaitRpcReady\<close> asks until the answer has the
  status 200 or an error other than a refused connection; when the answers end, it is still asking.
\<close>

definition restoreDB :: "surroundings \<Rightarrow> string \<Rightarrow> string \<Rightarrow> node_state \<Rightarrow> host \<Rightarrow> host result" where
  "restoreDB w nodesDirectory backupDir n h =
     (if isStarted n then Inl (Thrown ''Can't restore DB while node is running.'')
      else Inr (snd (cmd w (''cp -r '' @ backupDir @ '' testnet/'' @ nodesDirectory @ ''/node'' @ decimal (nodeID n) @ ''/data/chains/'') h)))"

datatype rpc_answer = Status nat | ConnectionRefused | OtherError

fun awaitRpcReady :: "rpc_answer list \<Rightarrow> bool option" where
  "awaitRpcReady [] = None"
| "awaitRpcReady (Status s # as) = (if s = 200 then Some True else awaitRpcReady as)"
| "awaitRpcReady (ConnectionRefused # as) = awaitRpcReady as"
| "awaitRpcReady (OtherError # as) = Some False"

section \<open>Joining two networks\<close>

text \<open>The elements of an array that is the entry of an object, and an array with more elements.\<close>

definition field_of :: "json \<Rightarrow> string \<Rightarrow> json result" where
  "field_of j k = (case j of JObject kvs \<Rightarrow> (case map_of kvs k of Some v \<Rightarrow> Inr v | None \<Rightarrow> type_error) | _ \<Rightarrow> type_error)"

fun elements :: "json \<Rightarrow> json list result" where
  "elements (JArray xs) = Inr xs"
| "elements (JString s) = Inr (map (\<lambda>c. JString [c]) s)"
| "elements _ = type_error"

fun pushed :: "json list \<Rightarrow> json \<Rightarrow> json result" where
  "pushed ys (JArray xs) = Inr (JArray (xs @ ys))"
| "pushed ys _ = type_error"

definition push_field :: "json \<Rightarrow> string \<Rightarrow> json \<Rightarrow> json result" where
  "push_field extra k j =
     await (field_of j k) (\<lambda>old.
     await (await (field_of extra k) elements) (\<lambda>ys.
     await (pushed ys old) (\<lambda>new. change_at [] (set_key k new) j)))"

definition createForkedNodeInfos :: "json \<Rightarrow> json \<Rightarrow> json result" where
  "createForkedNodeInfos bootNodesFile forkNodesFile =
     await (push_field forkNodesFile ''validators'' bootNodesFile) (\<lambda>r.
     await (push_field forkNodesFile ''public_keys'' r) (\<lambda>r.
     push_field forkNodesFile ''ip_addresses'' r))"

fun substring2 :: "json \<Rightarrow> json result" where
  "substring2 (JString s) = Inr (JString (drop 2 s))"
| "substring2 _ = type_error"

text \<open>\<open>hex\<close> is web3's \<open>bytesToHex\<close>.\<close>

definition bytesAsHex :: "(json \<Rightarrow> string result) \<Rightarrow> json \<Rightarrow> json result" where
  "bytesAsHex hex bytes = await (hex bytes) (\<lambda>s. Inr (JString (drop 2 s)))"

definition createForkAdaptedSpec :: "(json \<Rightarrow> string result) \<Rightarrow> json \<Rightarrow> json \<Rightarrow> int \<Rightarrow> json result" where
  "createForkAdaptedSpec hex originalSpec info forkBlockStart =
     await (await (await (field_of info ''public_keys'') elements) (mapM substring2)) (\<lambda>validators.
     await (await (await (field_of info ''parts'') elements) (mapM (bytesAsHex hex))) (\<lambda>parts.
     await (await (await (field_of info ''acks'') elements)
              (mapM (\<lambda>a. await (elements a) (\<lambda>xs. await (mapM (bytesAsHex hex) xs) (\<lambda>ys. Inr (JArray ys)))))) (\<lambda>acks.
     change_at [''engine'', ''hbbft'', ''params''] (set_key ''forks'' (JArray [JObject
       [(''blockNumberStart'', JNumber forkBlockStart), (''validators'', JArray validators),
        (''parts'', JArray parts), (''acks'', JArray acks)]])) originalSpec)))"

end
