(* ===== verification/LocalNetBuilds.thy ===== *)
theory LocalNetBuilds imports LocalNets begin

text \<open>
  What a build of a local network leaves: the specification that its nodes share, the arguments in their
  configurations, the environment for the contracts, and when a build cannot succeed.
\<close>

section \<open>Single operations\<close>

lemma mkdirRecursive_files: "mkdirRecursive d h = Inr h' \<Longrightarrow> host_files h' = host_files h"
  by (auto simp: mkdirRecursive_def split: if_splits)

lemma mkdirRecursive_dirs: "mkdirRecursive d h = Inr h' \<Longrightarrow> host_dirs h' = ancestors d \<union> host_dirs h"
  by (auto simp: mkdirRecursive_def split: if_splits)

lemma mkdirSync_files: "mkdirSync d h = Inr h' \<Longrightarrow> host_files h' = host_files h"
  by (auto simp: mkdirSync_def split: if_splits)

lemma mkdirSync_dirs: "mkdirSync d h = Inr h' \<Longrightarrow> d \<notin> host_dirs h \<and> host_dirs h' = insert d (host_dirs h)"
  by (auto simp: mkdirSync_def split: if_splits)

lemma writeFileSync_result:
  "writeFileSync p c h = Inr h' \<Longrightarrow> host_files h' = (host_files h)(p \<mapsto> c) \<and> host_dirs h' = host_dirs h"
  by (auto simp: writeFileSync_def split: if_splits)

lemma copyFile_result:
  assumes "copyFile src dest h = Inr h'"
  shows "host_files h' = (host_files h)(dest := host_files h src)" "host_dirs h' = host_dirs h"
proof -
  from assms obtain c where c: "host_files h src = Some c" "writeFileSync dest c h = Inr h'"
    by (auto simp: copyFile_def readFileSync_def result_simps split: option.splits)
  show "host_files h' = (host_files h)(dest := host_files h src)" "host_dirs h' = host_dirs h"
    using writeFileSync_result [OF c(2)] c(1) by (simp_all add: fun_upd_def)
qed

lemmas file_results = mkdirRecursive_files mkdirSync_files copyFile_result(1)
lemmas dir_results = mkdirRecursive_dirs mkdirSync_dirs copyFile_result(2)

lemma in_ancestors [simp]: "d \<in> ancestors d"
  by (simp add: ancestors_def)

section \<open>Paths\<close>

definition base :: "string \<Rightarrow> string" where
  "base a = (if a \<noteq> [] \<and> last a = CHR ''/'' then butlast a else a)"

lemma path_join_base: "path_join a b = base a @ ''/'' @ b"
proof (cases "a \<noteq> [] \<and> last a = CHR ''/''")
  case True
  then have "a = butlast a @ ''/''" using append_butlast_last_id [of a] by simp
  then show ?thesis using True by (simp add: path_join_def base_def)
qed (auto simp: path_join_def base_def)

lemma no_slash_in_decimal: "CHR ''/'' \<notin> set (decimal n)"
  using decimal_digits [of n] digit_range by (fastforce simp: list_all_iff)

lemma decimal_not_empty: "decimal n \<noteq> []"
  using decimal_digits [of n] by simp

lemma base_node [simp]: "base (x @ decimal i) = x @ decimal i"
proof -
  have "last (decimal i) \<noteq> CHR ''/''" using no_slash_in_decimal [of i] last_in_set [OF decimal_not_empty] by metis
  then have "last (x @ decimal i) \<noteq> CHR ''/''" using decimal_not_empty [of i] by simp
  then show ?thesis by (simp add: base_def)
qed

lemma node_dir: "getTargetNodeDir target i = base target @ ''/node'' @ decimal i"
  by (simp add: getTargetNodeDir_def path_join_base)

lemma base_node_dir [simp]: "base (getTargetNodeDir target i) = getTargetNodeDir target i"
  using base_node [of "base target @ ''/node''" i] by (simp add: node_dir)

definition node_path :: "string \<Rightarrow> nat \<Rightarrow> string \<Rightarrow> string" where
  "node_path target i p = getTargetNodeDir target i @ ''/'' @ p"

lemma node_join: "path_join (getTargetNodeDir target i) p = node_path target i p"
  by (simp add: path_join_base node_path_def)

lemma node_path_inj: "node_path target i p = node_path target j q \<longleftrightarrow> i = j \<and> p = q"
proof
  assume "node_path target i p = node_path target j q"
  then have e: "decimal i @ ''/'' @ p = decimal j @ ''/'' @ q" by (simp add: node_path_def node_dir)
  have t: "takeWhile (\<lambda>c. c \<noteq> CHR ''/'') (decimal n @ ''/'' @ r) = decimal n" for n r
    using no_slash_in_decimal [of n] by (subst takeWhile_append2) auto
  have "decimal i = decimal j" using e t [of i p] t [of j q] by simp
  then show "i = j \<and> p = q" using e decimal_inj by auto
qed simp


section \<open>Sequences of operations\<close>

fun writes :: "file_op \<Rightarrow> string set" where
  "writes (Copy src dest) = {dest}"
| "writes _ = {}"

definition all_writes :: "file_op list \<Rightarrow> string set" where
  "all_writes ops = (\<Union>op \<in> set ops. writes op)"

lemma do_op_effect:
  assumes "do_op op h = Inr h'"
  shows "p \<notin> writes op \<Longrightarrow> host_files h' p = host_files h p" and "host_dirs h \<subseteq> host_dirs h'"
  using assms by (cases op; auto dest: file_results dir_results)+

lemma do_ops_Cons: "do_ops (op # ops) h = Inr h' \<longleftrightarrow> (\<exists>h1. do_op op h = Inr h1 \<and> do_ops ops h1 = Inr h')"
  by (simp add: do_ops_def result_simps)

lemma do_ops_append: "do_ops (ops @ ops') h = Inr h' \<longleftrightarrow> (\<exists>h1. do_ops ops h = Inr h1 \<and> do_ops ops' h1 = Inr h')"
  by (simp add: do_ops_def forM_append result_simps)

lemma do_ops_files:
  assumes "do_ops ops h = Inr h'" "p \<notin> all_writes ops"
  shows "host_files h' p = host_files h p"
  using assms
proof (induction ops arbitrary: h)
  case (Cons op ops)
  then obtain h1 where h1: "do_op op h = Inr h1" "do_ops ops h1 = Inr h'" by (auto simp: do_ops_Cons)
  then show ?case using Cons do_op_effect(1) [OF h1(1)] by (simp add: all_writes_def)
qed (simp add: do_ops_def)

lemma do_ops_dirs: "do_ops ops h = Inr h' \<Longrightarrow> host_dirs h \<subseteq> host_dirs h'"
proof (induction ops arbitrary: h)
  case (Cons op ops)
  then obtain h1 where "do_op op h = Inr h1" "do_ops ops h1 = Inr h'" by (auto simp: do_ops_Cons)
  then show ?case using Cons do_op_effect(2) by blast
qed (simp add: do_ops_def)

text \<open>A copy that nothing overwrites, of a file that nothing changed before.\<close>

lemma do_ops_copy:
  assumes "do_ops (ops @ Copy src dest # ops') h = Inr h'" "src \<notin> all_writes ops" "dest \<notin> all_writes ops'"
  shows "host_files h' dest = host_files h src"
proof -
  from assms(1) obtain h1 h2 where h: "do_ops ops h = Inr h1" "copyFile src dest h1 = Inr h2" "do_ops ops' h2 = Inr h'"
    by (auto simp: do_ops_append do_ops_Cons)
  have "host_files h' dest = host_files h2 dest" using do_ops_files [OF h(3) assms(3)] .
  also have "\<dots> = host_files h1 src" using copyFile_result(1) [OF h(2)] by simp
  also have "\<dots> = host_files h src" using do_ops_files [OF h(1) assms(2)] .
  finally show ?thesis .
qed

text \<open>A directory that is made without the option for existing ones.\<close>

lemma do_ops_mkdir:
  assumes "do_ops (ops @ Mkdir d # ops') h = Inr h'"
  shows "d \<in> host_dirs h'" "d \<notin> host_dirs h"
proof -
  from assms obtain h1 h2 where h: "do_ops ops h = Inr h1" "mkdirSync d h1 = Inr h2" "do_ops ops' h2 = Inr h'"
    by (auto simp: do_ops_append do_ops_Cons)
  show "d \<in> host_dirs h'" "d \<notin> host_dirs h"
    using do_ops_dirs [OF h(1)] do_ops_dirs [OF h(3)] mkdirSync_dirs [OF h(2)] by blast+
qed

section \<open>The files of the nodes\<close>

lemma chain_key_path:
  "\<exists>q. path_join (path_join (getTargetNodeDir target i) (''data/keys/'' @ chain)) ''hbbft_validator_key.json'' =
       node_path target i q \<and> q \<noteq> ''spec.json''"
proof -
  let ?k = "''data/keys/'' @ chain"
  have "base (getTargetNodeDir target i @ ''/'' @ ?k) = getTargetNodeDir target i @ ''/'' @ base ?k"
    by (simp add: base_def butlast_append)
  then have "path_join (path_join (getTargetNodeDir target i) ?k) ''hbbft_validator_key.json'' =
      node_path target i (base ?k @ ''/hbbft_validator_key.json'')"
    by (simp add: path_join_base node_path_def)
  moreover have "base ?k @ ''/hbbft_validator_key.json'' \<noteq> ''spec.json''"
    by (auto dest: arg_cong [of _ _ rev])
  ultimately show ?thesis by blast
qed

text \<open>The operations around the copy of the specification, and around the directory of the chain.\<close>

lemma nodeOps_split:
  obtains before after where
    "nodeOps w chain target i =
       before @ Copy (getPosdaoContractsOutputSpecFile w) (node_path target i ''spec.json'') # after"
    "all_writes before \<subseteq> range (node_path target i)"
    "all_writes after \<subseteq> node_path target i ` (- {''spec.json''})"
proof -
  obtain q where q: "path_join (path_join (getTargetNodeDir target i) (''data/keys/'' @ chain)) ''hbbft_validator_key.json'' =
       node_path target i q" "q \<noteq> ''spec.json''" using chain_key_path by blast
  show ?thesis
  proof (rule that [of "take 9 (nodeOps w chain target i)" "drop 10 (nodeOps w chain target i)"])
    show "nodeOps w chain target i = take 9 (nodeOps w chain target i) @
        Copy (getPosdaoContractsOutputSpecFile w) (node_path target i ''spec.json'') # drop 10 (nodeOps w chain target i)"
      by (simp add: nodeOps_def Let_def node_join)
    show "all_writes (take 9 (nodeOps w chain target i)) \<subseteq> range (node_path target i)"
      by (simp add: nodeOps_def Let_def node_join all_writes_def getTargetNodeTomlFile_def)
    show "all_writes (drop 10 (nodeOps w chain target i)) \<subseteq> node_path target i ` (- {''spec.json''})"
      using q by (simp add: nodeOps_def Let_def q(1)) (auto simp: node_join all_writes_def)
  qed
qed

text \<open>The places of a network: the directories of its nodes, of its rpc node, and the list of its nodes.\<close>

definition in_network :: "string \<Rightarrow> string \<Rightarrow> bool" where
  "in_network target p \<longleftrightarrow> prefix (base target @ ''/'') p"

lemma node_path_in_network [simp]: "in_network target (node_path target i q)"
  by (simp add: in_network_def node_path_def node_dir)

lemma setUpNode_files:
  assumes "do_ops (nodeOps w chain target i) h = Inr h'" "\<not> in_network target (getPosdaoContractsOutputSpecFile w)"
  shows "host_files h' (node_path target i ''spec.json'') = host_files h (getPosdaoContractsOutputSpecFile w)"
    and "\<not> in_network target p \<Longrightarrow> host_files h' p = host_files h p"
    and "i \<noteq> j \<Longrightarrow> host_files h' (node_path target j q) = host_files h (node_path target j q)"
proof -
  obtain before after where s: "nodeOps w chain target i =
       before @ Copy (getPosdaoContractsOutputSpecFile w) (node_path target i ''spec.json'') # after"
    "all_writes before \<subseteq> range (node_path target i)"
    "all_writes after \<subseteq> node_path target i ` (- {''spec.json''})" by (rule nodeOps_split)
  have outside: "getPosdaoContractsOutputSpecFile w \<notin> all_writes before"
    using s(2) assms(2) by auto
  have "node_path target i ''spec.json'' \<notin> all_writes after" using s(3) by (auto simp: node_path_inj)
  then show "host_files h' (node_path target i ''spec.json'') = host_files h (getPosdaoContractsOutputSpecFile w)"
    using do_ops_copy assms(1) outside unfolding s(1) by blast
  have all: "all_writes (nodeOps w chain target i) \<subseteq> range (node_path target i)"
    using s(2,3) unfolding s(1) by (auto simp: all_writes_def)
  show "host_files h' p = host_files h p" if "\<not> in_network target p"
    using do_ops_files [OF assms(1), of p] all that node_path_in_network by blast
  show "host_files h' (node_path target j q) = host_files h (node_path target j q)" if "i \<noteq> j"
  proof -
    have "node_path target j q \<notin> range (node_path target i)" using that by (auto simp: node_path_inj)
    then show ?thesis using do_ops_files [OF assms(1), of "node_path target j q"] all by blast
  qed
qed

lemma rpc_paths:
  "all_writes (rpcOps w target) = (\<lambda>q. base target @ ''/'' @ q) `
     {''rpc_node/node.toml'', ''rpc_node/reserved-peers'', ''rpc_node/spec.json'', ''nodes_info.json''}"
  by (auto simp: rpcOps_def Let_def all_writes_def path_join_base)

lemma rpc_not_node: "node_path target i q \<notin> all_writes (rpcOps w target)"
proof -
  have "decimal i @ ''/'' @ q \<noteq> ''s_info.json''"
  proof
    assume "decimal i @ ''/'' @ q = ''s_info.json''"
    then have "CHR ''/'' \<in> set ''s_info.json''" by (metis in_set_conv_decomp append_Cons append_Nil)
    then show False by simp
  qed
  then show ?thesis by (auto simp: rpc_paths node_path_def node_dir)
qed

lemma setUpNodes_files:
  assumes "forM ids (\<lambda>i. do_ops (nodeOps w chain target i)) h = Inr h'" "distinct ids"
    "\<not> in_network target (getPosdaoContractsOutputSpecFile w)"
  shows "i \<in> set ids \<Longrightarrow> host_files h' (node_path target i ''spec.json'') = host_files h (getPosdaoContractsOutputSpecFile w)"
    and "\<not> in_network target p \<Longrightarrow> host_files h' p = host_files h p"
    and "j \<notin> set ids \<Longrightarrow> host_files h' (node_path target j q) = host_files h (node_path target j q)"
  using assms(1,2)
proof (induction ids arbitrary: h j q)
  case (Cons a ids)
  {
    case 1
    from 1(2) obtain h1 where h1: "do_ops (nodeOps w chain target a) h = Inr h1"
        "forM ids (\<lambda>i. do_ops (nodeOps w chain target i)) h1 = Inr h'" by (auto simp: result_simps)
    note a = setUpNode_files [OF h1(1) assms(3)]
    show ?case
    proof (cases "i = a")
      case True
      then show ?thesis using Cons(3) [where j = a and q = "''spec.json''", OF _ h1(2)] 1(3) a(1) by simp
    next
      case False
      then show ?thesis using Cons(1) [OF _ h1(2)] 1 a(2) [OF assms(3)] by auto
    qed
  next
    case 2
    from 2(2) obtain h1 where h1: "do_ops (nodeOps w chain target a) h = Inr h1"
        "forM ids (\<lambda>i. do_ops (nodeOps w chain target i)) h1 = Inr h'" by (auto simp: result_simps)
    show ?case using Cons(2) [OF _ h1(2)] 2 setUpNode_files(2) [OF h1(1) assms(3)] by auto
  next
    case 3
    from 3(2) obtain h1 where h1: "do_ops (nodeOps w chain target a) h = Inr h1"
        "forM ids (\<lambda>i. do_ops (nodeOps w chain target i)) h1 = Inr h'" by (auto simp: result_simps)
    show ?case using Cons(3) [OF _ h1(2)] 3 setUpNode_files(3) [OF h1(1) assms(3)] by auto
  }
qed simp_all

text \<open>After the files are copied, every node and the rpc node have the specification of the chain.\<close>

lemma nodes_share_spec:
  assumes "copyNodeFilesToTargetDirectory w chain b target h = Inr h'"
    "\<not> in_network target (getPosdaoContractsOutputSpecFile w)"
  shows "1 \<le> i \<Longrightarrow> i \<le> numNodes b \<Longrightarrow>
      host_files h' (node_path target i ''spec.json'') = host_files h (getPosdaoContractsOutputSpecFile w)"
    and "host_files h' (path_join target ''rpc_node/spec.json'') = host_files h (getPosdaoContractsOutputSpecFile w)"
proof -
  let ?spec = "getPosdaoContractsOutputSpecFile w"
  from assms(1) obtain h1 where
    h1: "forM [1..<numNodes b + 1] (\<lambda>i. do_ops (nodeOps w chain target i)) h = Inr h1"
        "do_ops (rpcOps w target) h1 = Inr h'"
    by (auto simp: copyNodeFilesToTargetDirectory_def result_simps)
  note nodes = setUpNodes_files [OF h1(1) _ assms(2)]
  show "host_files h' (node_path target i ''spec.json'') = host_files h ?spec" if "1 \<le> i" "i \<le> numNodes b"
  proof -
    have "i \<in> set [1..<numNodes b + 1]" using that by auto
    then show ?thesis using do_ops_files [OF h1(2) rpc_not_node] nodes(1) [of i] by simp
  qed
  let ?before = "take 3 (rpcOps w target)" and ?after = "drop 4 (rpcOps w target)"
  have s: "rpcOps w target = ?before @ Copy ?spec (path_join target ''rpc_node/spec.json'') # ?after"
    by (simp add: rpcOps_def Let_def)
  have "?spec \<notin> all_writes (rpcOps w target)" using assms(2) by (auto simp: rpc_paths in_network_def)
  then have "?spec \<notin> all_writes ?before" by (auto simp: all_writes_def dest: in_set_takeD)
  moreover have "path_join target ''rpc_node/spec.json'' \<notin> all_writes ?after"
    by (simp add: rpcOps_def Let_def all_writes_def path_join_base)
  moreover have "do_ops (?before @ Copy ?spec (path_join target ''rpc_node/spec.json'') # ?after) h1 = Inr h'"
    using h1(2) by (subst s [symmetric])
  ultimately have "host_files h' (path_join target ''rpc_node/spec.json'') = host_files h1 ?spec"
    by (intro do_ops_copy)
  also have "\<dots> = host_files h ?spec" using nodes(2) assms(2) by simp
  finally show "host_files h' (path_join target ''rpc_node/spec.json'') = host_files h ?spec" .
qed

section \<open>The specification of a network\<close>

lemma set_keys_lookup:
  assumes "distinct (map fst new)"
  shows "map_of (set_keys new kvs) k = (case map_of new k of Some v \<Rightarrow> Some v | None \<Rightarrow> map_of kvs k)"
  using assms
proof (induction new arbitrary: kvs)
  case (Cons e new)
  obtain k' v where e: "e = (k', v)" by (cases e)
  have d: "distinct (map fst new)" and fresh: "map_of new k' = None"
    using Cons.prems e by (auto simp: map_of_eq_None_iff)
  have "map_of (set_keys (e # new) kvs) k = map_of (set_keys new (set_key k' v kvs)) k" by (simp add: set_keys_def e)
  also have "\<dots> = (case map_of new k of Some v \<Rightarrow> Some v | None \<Rightarrow> ((map_of kvs)(k' \<mapsto> v)) k)"
    unfolding Cons.IH [OF d] map_of_set_key ..
  finally show ?case using fresh by (simp add: e split: option.split)
qed (simp add: set_keys_def)

text \<open>A change below a key: the entry is the changed value, the other entries stay.\<close>

lemma change_at_Cons:
  assumes "change_at (k # ks) f j = Inr j'"
  obtains kvs j0 j1 where "j = JObject kvs" "map_of kvs k = Some j0" "change_at ks f j0 = Inr j1"
    "j' = JObject (set_key k j1 kvs)"
proof (cases j)
  case (JObject kvs)
  with assms that show ?thesis by (auto simp: result_simps type_error_def split: option.splits)
qed (use assms in \<open>simp_all add: type_error_def\<close>)

lemma change_at_Nil:
  assumes "change_at [] f j = Inr j'"
  obtains kvs where "j = JObject kvs" "j' = JObject (f kvs)"
  using assms by (cases j) (auto simp: type_error_def)

definition json_entries :: "json \<Rightarrow> entries" where
  "json_entries j = (case j of JObject kvs \<Rightarrow> kvs | _ \<Rightarrow> [])"

definition json_at :: "json \<Rightarrow> string list \<Rightarrow> json option" where
  "json_at j p = value_at (json_entries j) p"

lemma change_below:
  assumes "change_at [k] f j = Inr j'"
  shows "\<exists>kvs. json_at j [k] = Some (JObject kvs) \<and> json_at j' [k] = Some (JObject (f kvs))"
    and "k' \<noteq> k \<Longrightarrow> json_at j' (k' # ks) = json_at j (k' # ks)"
proof -
  obtain kvs j0 j1 where s: "j = JObject kvs" "map_of kvs k = Some j0" "change_at [] f j0 = Inr j1"
    "j' = JObject (set_key k j1 kvs)" using assms by (rule change_at_Cons)
  show "\<exists>kvs. json_at j [k] = Some (JObject kvs) \<and> json_at j' [k] = Some (JObject (f kvs))"
    using s change_at_Nil [OF s(3)] by (auto simp: json_at_def json_entries_def)
  show "json_at j' (k' # ks) = json_at j (k' # ks)" if "k' \<noteq> k"
    using s that by (cases ks) (simp_all add: json_at_def json_entries_def)
qed

lemma json_at_step: "json_at j [k] = Some (JObject kvs) \<Longrightarrow> json_at j (k # k' # ks) = value_at kvs (k' # ks)"
  by (simp add: json_at_def)

text \<open>What the builder writes into the specification.\<close>

lemma manipulated_values:
  assumes "manipulated b spec = Inr spec'" "distinct (map fst (hbbftArgs b))"
  shows "json_at spec' [''name''] = Some (JString (lb_name b))"
    and "json_at spec' [''params'', ''networkID''] = Some (JString (decimal_int (networkID b)))"
    and "json_at spec' [''params'', ''minGasLimit''] = Some (JString ''10000000'')"
    and "map_of (hbbftArgs b) k = Some v \<Longrightarrow> json_at spec' [''engine'', ''hbbft'', ''params'', k] = Some v"
    and "key \<notin> {''name'', ''params'', ''engine''} \<Longrightarrow> json_at spec' (key # ks) = json_at spec (key # ks)"
proof -
  let ?engine = "[''engine'', ''hbbft'', ''params'']"
  from assms(1) obtain s1 s2 s3 where
    s1: "change_at [] (set_key ''name'' (JString (lb_name b))) spec = Inr s1" and
    s2: "change_at [''params''] (set_key ''networkID'' (JString (decimal_int (networkID b)))) s1 = Inr s2" and
    s3: "(if hbbftArgs b = [] then Inr s2 else change_at ?engine (set_keys (hbbftArgs b)) s2) = Inr s3" and
    s4: "change_at [''params''] (set_key ''minGasLimit'' (JString ''10000000'')) s3 = Inr spec'"
    by (auto simp: manipulated_def result_simps)
  obtain kvs where kvs: "spec = JObject kvs" "s1 = JObject (set_key ''name'' (JString (lb_name b)) kvs)"
    using s1 by (rule change_at_Nil)
  have other: "json_at s3 (k # ks) = json_at s2 (k # ks)" if "k \<noteq> ''engine''" for k ks
  proof (cases "hbbftArgs b = []")
    case False
    then have "change_at ?engine (set_keys (hbbftArgs b)) s2 = Inr s3" using s3 by simp
    then obtain kvs j0 j1 where "s2 = JObject kvs" "s3 = JObject (set_key ''engine'' j1 kvs)" by (rule change_at_Cons)
    then show ?thesis using that by (cases ks) (simp_all add: json_at_def json_entries_def)
  qed (use s3 in simp)
  obtain p where p: "json_at s1 [''params''] = Some (JObject p)"
      "json_at s2 [''params''] = Some (JObject (set_key ''networkID'' (JString (decimal_int (networkID b))) p))"
    using change_below(1) [OF s2] by blast
  obtain p' where p': "json_at s3 [''params''] = Some (JObject p')"
      "json_at spec' [''params''] = Some (JObject (set_key ''minGasLimit'' (JString ''10000000'') p'))"
    using change_below(1) [OF s4] by blast
  have pp: "p' = set_key ''networkID'' (JString (decimal_int (networkID b))) p" using p(2) p'(1) other [of "''params''" "[]"] by simp
  show "json_at spec' [''params'', ''networkID''] = Some (JString (decimal_int (networkID b)))"
    using json_at_step [OF p'(2), of "''networkID''" "[]"] by (simp add: pp)
  show "json_at spec' [''params'', ''minGasLimit''] = Some (JString ''10000000'')"
    using json_at_step [OF p'(2), of "''minGasLimit''" "[]"] by simp
  show "json_at spec' [''name''] = Some (JString (lb_name b))"
    using change_below(2) [OF s4, of "''name''" "[]"] other [of "''name''" "[]"] change_below(2) [OF s2, of "''name''" "[]"] kvs(2)
    by (simp add: json_at_def json_entries_def)
  show "json_at spec' (key # ks) = json_at spec (key # ks)" if "key \<notin> {''name'', ''params'', ''engine''}"
    using change_below(2) [OF s4, of key ks] other [of key ks] change_below(2) [OF s2, of key ks] kvs that
    by (cases ks) (simp_all add: json_at_def json_entries_def)
  show "json_at spec' [''engine'', ''hbbft'', ''params'', k] = Some v" if kv: "map_of (hbbftArgs b) k = Some v"
  proof -
    have "change_at ?engine (set_keys (hbbftArgs b)) s2 = Inr s3" using s3 kv by (auto split: if_splits)
    then obtain e j0 j1 where e: "s2 = JObject e" "change_at [''hbbft'', ''params''] (set_keys (hbbftArgs b)) j0 = Inr j1"
      "s3 = JObject (set_key ''engine'' j1 e)" by (rule change_at_Cons)
    obtain g j2 j3 where g: "j0 = JObject g" "change_at [''params''] (set_keys (hbbftArgs b)) j2 = Inr j3"
      "j1 = JObject (set_key ''hbbft'' j3 g)" using e(2) by (rule change_at_Cons)
    obtain q where q: "json_at j3 [''params''] = Some (JObject (set_keys (hbbftArgs b) q))"
      using change_below(1) [OF g(2)] by blast
    have "value_at (set_keys (hbbftArgs b) q) [k] = Some v"
      using kv by (simp add: set_keys_lookup [OF assms(2)])
    then have "json_at j3 [''params'', k] = Some v" using json_at_step [OF q, of k "[]"] by simp
    moreover have "\<exists>x. j3 = JObject x" using q by (cases j3) (simp_all add: json_at_def json_entries_def)
    ultimately have "json_at s3 [''engine'', ''hbbft'', ''params'', k] = Some v"
      unfolding e(3) g(3) by (auto simp: json_at_def json_entries_def)
    then show ?thesis using change_below(2) [OF s4, of "''engine''"] by simp
  qed
qed

section \<open>A whole build\<close>

lemma toml_file: "getTargetNodeTomlFile target i = node_path target i (if i = 0 then ''node.toml'' else ''validator_node.toml'')"
  by (simp add: getTargetNodeTomlFile_def node_join)

lemma applyTomlManipulation_files:
  assumes "applyTomlManipulation w b target i h = Inr h'" "p \<noteq> getTargetNodeTomlFile target i"
  shows "host_files h' p = host_files h p"
proof (cases "lb_nodeArgs b")
  case (Some args)
  with assms(1) obtain c where "writeFileSync (getTargetNodeTomlFile target i) c h = Inr h'"
    by (auto simp: applyTomlManipulation_def result_simps)
  then show ?thesis using writeFileSync_result assms(2) by simp
qed (use assms(1) in \<open>simp add: applyTomlManipulation_def\<close>)

lemma applyTomlManipulations_files:
  assumes "applyTomlManipulations w b target h = Inr h'" "\<And>i. p \<noteq> getTargetNodeTomlFile target i"
  shows "host_files h' p = host_files h p"
  using forM_invariant [where I = "\<lambda>h1. host_files h1 p = host_files h p", OF assms(1) [unfolded applyTomlManipulations_def]]
    applyTomlManipulation_files [OF _ assms(2)] by metis

lemma build_spec:
  assumes "build w chain b target h = Inr h'" "\<not> in_network target (getPosdaoContractsOutputSpecFile w)"
  shows "\<exists>spec spec'. manipulated b spec = Inr spec' \<and>
     (\<forall>i \<in> {1..numNodes b}. host_files h' (getTargetNodeDir target i @ ''/spec.json'') = Some (Json spec')) \<and>
     host_files h' (path_join target ''rpc_node/spec.json'') = Some (Json spec')"
proof -
  let ?file = "getPosdaoContractsOutputSpecFile w"
  from assms(1) obtain h1 h2 h3 where
    h2: "applyChainSpecManipulations w b h1 = Inr h2" and
    h3: "copyNodeFilesToTargetDirectory w chain b target h2 = Inr h3" "applyTomlManipulations w b target h3 = Inr h'"
    by (auto simp: build_def result_simps)
  from h2 obtain spec spec' where spec: "manipulated b spec = Inr spec'" "writeFileSync ?file (Json spec') h1 = Inr h2"
    by (auto simp: applyChainSpecManipulations_def result_simps)
  have content: "host_files h2 ?file = Some (Json spec')" using writeFileSync_result [OF spec(2)] by simp
  note copied = nodes_share_spec [OF h3(1) assms(2), unfolded content]
  have "host_files h' (node_path target i ''spec.json'') = Some (Json spec')" if "i \<in> {1..numNodes b}" for i
    using applyTomlManipulations_files [OF h3(2), of "node_path target i ''spec.json''"] copied(1) [of i] that
    by (simp add: toml_file node_path_inj)
  moreover have "path_join target ''rpc_node/spec.json'' \<noteq> getTargetNodeTomlFile target i" for i
    by (auto simp: toml_file node_path_def node_dir path_join_base dest: arg_cong [of _ _ "drop (length (base target))"])
  then have "host_files h' (path_join target ''rpc_node/spec.json'') = Some (Json spec')"
    using applyTomlManipulations_files [OF h3(2)] copied(2) by simp
  ultimately show ?thesis using spec(1) by (auto simp: node_path_def)
qed

text \<open>C20: 
  Every node of a built network, and the rpc node, run on one specification: it has the name and the id of
  the network, each of its parameters for honey badger, and the low minimum of gas.
\<close>

theorem built_nodes_run_one_spec:
  assumes "build w chain b target h = Inr h'" "\<not> in_network target (getPosdaoContractsOutputSpecFile w)"
    "distinct (map fst (hbbftArgs b))"
  shows "\<exists>spec. (\<forall>i \<in> {1..numNodes b}. host_files h' (getTargetNodeDir target i @ ''/spec.json'') = Some (Json spec)) \<and>
    host_files h' (path_join target ''rpc_node/spec.json'') = Some (Json spec) \<and>
    json_at spec [''name''] = Some (JString (lb_name b)) \<and>
    json_at spec [''params'', ''networkID''] = Some (JString (decimal_int (networkID b))) \<and>
    json_at spec [''params'', ''minGasLimit''] = Some (JString ''10000000'') \<and>
    (\<forall>(k, v) \<in> set (hbbftArgs b). json_at spec [''engine'', ''hbbft'', ''params'', k] = Some v)"
proof -
  obtain spec spec' where s: "manipulated b spec = Inr spec'"
    "\<forall>i \<in> {1..numNodes b}. host_files h' (getTargetNodeDir target i @ ''/spec.json'') = Some (Json spec')"
    "host_files h' (path_join target ''rpc_node/spec.json'') = Some (Json spec')"
    using build_spec [OF assms(1,2)] by blast
  note vals = manipulated_values [OF s(1) assms(3)]
  have "\<forall>(k, v) \<in> set (hbbftArgs b). json_at spec' [''engine'', ''hbbft'', ''params'', k] = Some v"
    using vals(4) assms(3) by auto
  then show ?thesis using s(2,3) vals(1-3) by blast
qed

section \<open>The arguments for the nodes\<close>

lemma applyTomlManipulation_result:
  assumes "applyTomlManipulation w b target i h = Inr h'" "lb_nodeArgs b = Some args"
    "toml_parse w (separated [CHR 0x0A] args) = Inr over"
  shows "\<exists>toml conf. host_files h (getTargetNodeTomlFile target i) = Some (Text toml) \<and> toml_parse w toml = Inr conf \<and>
     h' = h\<lparr>host_files := (host_files h)(getTargetNodeTomlFile target i \<mapsto> Text (toml_stringify w (deepMerge conf over)))\<rparr>"
proof -
  from assms obtain c conf where c: "readFileSync (getTargetNodeTomlFile target i) h = Inr c"
    "(case c of Text toml \<Rightarrow> toml_parse w toml | Json j \<Rightarrow> Inl (Thrown ''TomlError'')) = Inr conf"
    "writeFileSync (getTargetNodeTomlFile target i) (Text (toml_stringify w (deepMerge conf over))) h = Inr h'"
    by (auto simp: applyTomlManipulation_def result_simps)
  then show ?thesis
    by (auto simp: readFileSync_def writeFileSync_def split: option.splits file_content.splits if_splits)
qed

text \<open>
  Each value of the arguments is in the new configuration of the node, and each value of the old one at a
  path that the arguments leave. The library of TOML has to read what it prints.
\<close>

theorem node_arguments_win:
  assumes "applyTomlManipulation w b target i h = Inr h'" "lb_nodeArgs b = Some args"
    "toml_parse w (separated [CHR 0x0A] args) = Inr over" "distinct_keys (JObject over)"
    "host_files h (getTargetNodeTomlFile target i) = Some (Text toml)" "toml_parse w toml = Inr conf"
    "toml_parse w (toml_stringify w (deepMerge conf over)) = Inr (deepMerge conf over)"
  shows "\<exists>toml' conf'. host_files h' (getTargetNodeTomlFile target i) = Some (Text toml') \<and> toml_parse w toml' = Inr conf' \<and>
     (\<forall>p v. value_at over p = Some v \<and> \<not> is_object v \<longrightarrow> value_at conf' p = Some v) \<and>
     (\<forall>p v. leaves_path over p \<and> value_at conf p = Some v \<longrightarrow> value_at conf' p = Some v)"
proof -
  have "host_files h' (getTargetNodeTomlFile target i) = Some (Text (toml_stringify w (deepMerge conf over)))"
    using applyTomlManipulation_result [OF assms(1-3)] assms(5,6) by auto
  then show ?thesis using assms(7) merge_wins [OF assms(4)] merge_keeps [OF assms(4)] by blast
qed

text \<open>Applying the arguments a second time changes nothing.\<close>

theorem node_arguments_applied_once:
  assumes "applyTomlManipulation w b target i h = Inr h'" "lb_nodeArgs b = Some args"
    "toml_parse w (separated [CHR 0x0A] args) = Inr over" "distinct_keys (JObject over)"
    "host_files h (getTargetNodeTomlFile target i) = Some (Text toml)" "toml_parse w toml = Inr conf"
    "toml_parse w (toml_stringify w (deepMerge conf over)) = Inr (deepMerge conf over)"
    "applyTomlManipulation w b target i h' = Inr h''"
  shows "h'' = h'"
proof -
  have h': "h' = h\<lparr>host_files := (host_files h)(getTargetNodeTomlFile target i \<mapsto> Text (toml_stringify w (deepMerge conf over)))\<rparr>"
    using applyTomlManipulation_result [OF assms(1-3)] assms(5,6) by auto
  obtain toml' conf' where c': "host_files h' (getTargetNodeTomlFile target i) = Some (Text toml')" "toml_parse w toml' = Inr conf'"
    "h'' = h'\<lparr>host_files := (host_files h')(getTargetNodeTomlFile target i \<mapsto> Text (toml_stringify w (deepMerge conf' over)))\<rparr>"
    using applyTomlManipulation_result [OF assms(8,2,3)] by blast
  have "conf' = deepMerge conf over" using c'(1,2) assms(7) by (simp add: h')
  then have "deepMerge conf' over = deepMerge conf over" using merge_again [OF assms(4)] by simp
  then show ?thesis using c'(3) by (simp add: h')
qed

section \<open>The environment of the contracts\<close>

text \<open>
  A value that is in the environment stays; so the second network that one process builds has the values of
  the first, whatever its own arguments are.
\<close>

lemma writeEnv_present: "env_vars h k \<noteq> None \<Longrightarrow> writeEnv b k d h = h"
  by (auto simp: writeEnv_def)

lemma writeEnv_keeps: "env_vars h k \<noteq> None \<Longrightarrow> env_vars (writeEnv b k' d h) k = env_vars h k"
  by (auto simp: writeEnv_def split: option.splits)

lemma writeEnv_sets: "env_vars (writeEnv b k d h) k \<noteq> None"
  by (auto simp: writeEnv_def split: option.splits)

lemma writeEnvs_fold_keeps:
  "env_vars h k \<noteq> None \<Longrightarrow> env_vars (foldl (\<lambda>h (k, d). writeEnv b k d h) h ks) k = env_vars h k"
proof (induction ks arbitrary: h)
  case (Cons e ks)
  obtain k' d where "e = (k', d)" by (cases e)
  then show ?case using Cons writeEnv_keeps [OF Cons.prems, of b k' d] by simp
qed simp

lemma writeEnvs_fold_sets:
  "k \<in> fst ` set ks \<Longrightarrow> env_vars (foldl (\<lambda>h (k, d). writeEnv b k d h) h ks) k \<noteq> None"
proof (induction ks arbitrary: h)
  case (Cons e ks)
  obtain k' d where e: "e = (k', d)" by (cases e)
  show ?case
  proof (cases "k = k'")
    case True
    then show ?thesis using writeEnvs_fold_keeps [OF writeEnv_sets [of b k d h], of b ks] writeEnv_sets [of b k d h] by (simp add: e)
  qed (use Cons e in auto)
qed simp

lemma writeEnvs_fold_present:
  "\<forall>k \<in> fst ` set ks. env_vars h k \<noteq> None \<Longrightarrow> foldl (\<lambda>h (k, d). writeEnv b k d h) h ks = h"
  by (induction ks) (auto simp: writeEnv_present)

theorem first_network_fixes_environment:
  "writeEnvs name2 b2 (writeEnvs name1 b1 h) = writeEnvs name1 b1 h"
proof -
  have "fst ` set (contract_defaults name2) = fst ` set (contract_defaults name1)" by (simp add: contract_defaults_def)
  then have "\<forall>k \<in> fst ` set (contract_defaults name2). env_vars (writeEnvs name1 b1 h) k \<noteq> None"
    using writeEnvs_fold_sets unfolding writeEnvs_def by metis
  then show ?thesis unfolding writeEnvs_def [of name2] by (rule writeEnvs_fold_present)
qed

section \<open>Builds that cannot succeed\<close>

lemma nodeOps_mkdir:
  "nodeOps w chain target i = take 12 (nodeOps w chain target i) @
     Mkdir (path_join (getTargetNodeDir target i) (''data/keys/'' @ chain)) # drop 13 (nodeOps w chain target i)"
  by (simp add: nodeOps_def Let_def)

lemma chain_directory:
  assumes "do_ops (nodeOps w chain target i) h = Inr h'"
  shows "path_join (getTargetNodeDir target i) (''data/keys/'' @ chain) \<in> host_dirs h'"
    "path_join (getTargetNodeDir target i) (''data/keys/'' @ chain) \<notin> host_dirs h"
proof -
  have "do_ops (take 12 (nodeOps w chain target i) @
      Mkdir (path_join (getTargetNodeDir target i) (''data/keys/'' @ chain)) # drop 13 (nodeOps w chain target i)) h = Inr h'"
    using assms by (subst nodeOps_mkdir [symmetric])
  from do_ops_mkdir [OF this] show "path_join (getTargetNodeDir target i) (''data/keys/'' @ chain) \<in> host_dirs h'"
    "path_join (getTargetNodeDir target i) (''data/keys/'' @ chain) \<notin> host_dirs h" by blast+
qed

lemma first_node:
  assumes "copyNodeFilesToTargetDirectory w chain b target h = Inr h'" "1 \<le> numNodes b"
  obtains h1 where "do_ops (nodeOps w chain target 1) h = Inr h1" "host_dirs h1 \<subseteq> host_dirs h'"
proof -
  have "[1..<numNodes b + 1] = 1 # [Suc 1..<numNodes b + 1]" using assms(2) by (intro upt_conv_Cons) simp
  with assms(1) obtain h1 h2 where h: "do_ops (nodeOps w chain target 1) h = Inr h1"
      "forM [Suc 1..<numNodes b + 1] (\<lambda>i. do_ops (nodeOps w chain target i)) h1 = Inr h2" "do_ops (rpcOps w target) h2 = Inr h'"
    by (auto simp: copyNodeFilesToTargetDirectory_def result_simps)
  have "host_dirs h1 \<subseteq> host_dirs h2"
    using forM_invariant [where I = "\<lambda>h. host_dirs h1 \<subseteq> host_dirs h", OF h(2)] do_ops_dirs by blast
  then show ?thesis using that h(1) do_ops_dirs [OF h(3)] by blast
qed

text \<open>The files of a network are never copied over those of a network that is there.\<close>

theorem second_copy_fails:
  assumes "copyNodeFilesToTargetDirectory w chain b target h = Inr h'" "1 \<le> numNodes b"
    "host_dirs h' \<subseteq> host_dirs h2" "1 \<le> numNodes b2"
  shows "\<exists>e. copyNodeFilesToTargetDirectory w chain b2 target h2 = Inl e"
proof (cases "copyNodeFilesToTargetDirectory w chain b2 target h2")
  case (Inr h3)
  obtain h1 where "do_ops (nodeOps w chain target 1) h = Inr h1" "host_dirs h1 \<subseteq> host_dirs h'"
    using first_node [OF assms(1,2)] .
  moreover obtain h4 where "do_ops (nodeOps w chain target 1) h2 = Inr h4" using first_node [OF Inr assms(4)] .
  ultimately show ?thesis using chain_directory assms(3) by blast
qed simp

text \<open>A chain with the name of the directory for keys, which is made just before, cannot be built.\<close>

theorem DPoSChain_fails:
  assumes "1 \<le> numNodes b"
  shows "\<exists>e. copyNodeFilesToTargetDirectory w ''DPoSChain'' b target h = Inl e"
proof (cases "copyNodeFilesToTargetDirectory w ''DPoSChain'' b target h")
  case (Inr h')
  let ?d = "path_join (getTargetNodeDir target 1) ''data/keys/DPoSChain''" and ?ops = "nodeOps w ''DPoSChain'' target 1"
  obtain h1 where h1: "do_ops ?ops h = Inr h1" using first_node [OF Inr assms] .
  have s: "?ops = take 3 ?ops @ MkdirP ?d # take 8 (drop 4 ?ops) @ Mkdir ?d # drop 13 ?ops"
    by (simp add: nodeOps_def Let_def)
  have "do_ops (take 3 ?ops @ MkdirP ?d # take 8 (drop 4 ?ops) @ Mkdir ?d # drop 13 ?ops) h = Inr h1"
    using h1 by (subst s [symmetric])
  then obtain h2 h3 where h: "mkdirRecursive ?d h2 = Inr h3" "do_ops (take 8 (drop 4 ?ops) @ Mkdir ?d # drop 13 ?ops) h3 = Inr h1"
    unfolding do_ops_append do_ops_Cons do_op.simps by blast
  have "?d \<in> host_dirs h3" using mkdirRecursive_dirs [OF h(1)] by simp
  then show ?thesis using do_ops_mkdir(2) [OF h(2)] by blast
qed simp

section \<open>Joined networks\<close>

lemma push_field_lookup:
  assumes "push_field extra k j = Inr j'"
  shows "\<exists>xs ys. field_of j k = Inr (JArray xs) \<and> await (field_of extra k) elements = Inr ys \<and> field_of j' k = Inr (JArray (xs @ ys))"
    and "k' \<noteq> k \<Longrightarrow> field_of j' k' = field_of j k'"
proof -
  from assms obtain old ys new where s: "field_of j k = Inr old" "await (field_of extra k) elements = Inr ys"
    "pushed ys old = Inr new" "change_at [] (set_key k new) j = Inr j'"
    unfolding push_field_def
    by (cases "field_of j k"; cases "await (field_of extra k) elements"; auto simp: result_simps simp del: await.simps(2))
  obtain kvs where kvs: "j = JObject kvs" "j' = JObject (set_key k new kvs)" using s(4) by (rule change_at_Nil)
  obtain xs where xs: "old = JArray xs" "new = JArray (xs @ ys)"
    using s(3) by (cases old) (simp_all add: type_error_def)
  show "\<exists>xs ys. field_of j k = Inr (JArray xs) \<and> await (field_of extra k) elements = Inr ys \<and> field_of j' k = Inr (JArray (xs @ ys))"
    using s(1,2) xs kvs(2) by (simp add: field_of_def)
  show "field_of j' k' = field_of j k'" if "k' \<noteq> k" using that kvs by (simp add: field_of_def)
qed

text \<open>The list of the nodes of a forked network: first those of the network that was booted, then the forked ones.\<close>

theorem forked_nodes_follow:
  assumes "createForkedNodeInfos boot fork = Inr infos" "k \<in> {''validators'', ''public_keys'', ''ip_addresses''}"
  shows "\<exists>xs ys. field_of boot k = Inr (JArray xs) \<and> await (field_of fork k) elements = Inr ys \<and>
    field_of infos k = Inr (JArray (xs @ ys))"
proof -
  from assms(1) obtain r1 r2 where r: "push_field fork ''validators'' boot = Inr r1"
    "push_field fork ''public_keys'' r1 = Inr r2" "push_field fork ''ip_addresses'' r2 = Inr infos"
    unfolding createForkedNodeInfos_def await_Inr_iff by blast
  note p = push_field_lookup [OF r(1)] push_field_lookup [OF r(2)] push_field_lookup [OF r(3)]
  consider "k = ''validators''" | "k = ''public_keys''" | "k = ''ip_addresses''" using assms(2) by blast
  then show ?thesis
  proof cases
    case 1
    then show ?thesis using p(1) p(4) [of k] p(6) [of k] by simp
  next
    case 2
    then show ?thesis using p(2) [of k] p(3) p(6) [of k] by simp
  next
    case 3
    then show ?thesis using p(2) [of k] p(4) [of k] p(5) by simp
  qed
qed

section \<open>Samples\<close>

definition sample_conf :: entries where
  "sample_conf = [(''network'', JObject [(''port'', JNumber 30300), (''min_peers'', JNumber 2)])]"

definition sample_over :: entries where
  "sample_over = [(''network'', JObject [(''min_peers'', JNumber 5)])]"

definition sample_merged :: entries where
  "sample_merged = [(''network'', JObject [(''port'', JNumber 30300), (''min_peers'', JNumber 5)])]"

definition sample_surroundings :: surroundings where
  "sample_surroundings = \<lparr>posdaoContractsDir = ''p'', daoContractsDir = ''d'', viewsContractsDir = ''v'', diamondNodeDir = ''n'',
     cmd = (\<lambda>c h. (True, h)),
     toml_parse = (\<lambda>t. if t = ''conf'' then Inr sample_conf else if t = ''over'' then Inr sample_over
       else if t = ''merged'' then Inr sample_merged else Inl (Thrown ''TomlError'')),
     toml_stringify = (\<lambda>e. if e = sample_merged then ''merged'' else ''other''), defaultAccount = ''0x1''\<rparr>"

definition sample_spec :: json where
  "sample_spec = JObject [(''name'', JString ''old''), (''accounts'', JObject []), (''params'', JObject []),
     (''engine'', JObject [(''hbbft'', JObject [(''params'', JObject [])])])]"

definition sample_host :: host where
  "sample_host = \<lparr>env_vars = (\<lambda>k. None),
     host_files = (\<lambda>p. if take 2 p = ''n/'' then Some (Text ''conf'') else if take 2 p = ''p/'' then Some (Json sample_spec)
       else if take 2 p = ''d/'' \<or> take 2 p = ''v/'' then Some (Json (JObject [(''0x5'', JObject [])])) else None),
     host_dirs = {''p''}\<rparr>"

definition sample_builder :: LocalnetBuilder where
  "sample_builder = (newBuilder ''local'' 1 1)\<lparr>metricsPortBase := None, networkID := 7,
     hbbftArgs := [(''minimumBlockTime'', JNumber 1)], lb_nodeArgs := Some [''over'']\<rparr>"

text \<open>The build of the sample, step by step; \<open>g\<close> is the directory of the generated files.\<close>

lemma sample_ancestors:
  "ancestors ''t/node1'' = {''t'', ''t/node1''}"
  "ancestors ''t/node1/data/network'' = {''t'', ''t/node1'', ''t/node1/data'', ''t/node1/data/network''}"
  "ancestors ''t/node1/data/keys'' = {''t'', ''t/node1'', ''t/node1/data'', ''t/node1/data/keys''}"
  "ancestors ''t/node1/data/keys/DPoSChain'' =
     {''t'', ''t/node1'', ''t/node1/data'', ''t/node1/data/keys'', ''t/node1/data/keys/DPoSChain''}"
  "ancestors ''t/rpc_node'' = {''t'', ''t/rpc_node''}"
  by code_simp+

lemma sample_nodeOps:
  "nodeOps sample_surroundings ''local'' ''t'' (Suc 0) =
     (let g = ''n/crates/ethcore/src/engines/hbbft/hbbft_config_generator/'' in
      [MkdirP ''t/node1'', MkdirP ''t/node1/data/network'', MkdirP ''t/node1/data/keys'',
       MkdirP ''t/node1/data/keys/DPoSChain'',
       Copy (g @ ''hbbft_validator_1.toml'') ''t/node1/validator_node.toml'',
       Copy (g @ ''hbbft_validator_key_1'') ''t/node1/data/network/key'',
       Copy (g @ ''hbbft_validator_address_1.txt'') ''t/node1/address.txt'',
       Copy (g @ ''hbbft_validator_public_1.txt'') ''t/node1/public_key.txt'',
       Copy (g @ ''reserved-peers'') ''t/node1/reserved-peers'',
       Copy ''p/spec_hbbft.json'' ''t/node1/spec.json'',
       Copy (g @ ''password.txt'') ''t/node1/password.txt'',
       Copy (g @ ''hbbft_validator_key_1.json'') ''t/node1/data/keys/DPoSChain/hbbft_validator_key.json'',
       Mkdir ''t/node1/data/keys/local'',
       Copy (g @ ''hbbft_validator_key_1.json'') ''t/node1/data/keys/local/hbbft_validator_key.json''])"
  by code_simp

lemma sample_rpcOps:
  "rpcOps sample_surroundings ''t'' =
     (let g = ''n/crates/ethcore/src/engines/hbbft/hbbft_config_generator/'' in
      [MkdirP ''t/rpc_node'',
       Copy (g @ ''rpc_node.toml'') ''t/rpc_node/node.toml'',
       Copy (g @ ''reserved-peers'') ''t/rpc_node/reserved-peers'',
       Copy ''p/spec_hbbft.json'' ''t/rpc_node/spec.json'',
       Copy (g @ ''nodes_info.json'') ''t/nodes_info.json''])"
  by code_simp

lemma sample_copied:
  assumes "host_files h = (host_files sample_host)(''p/spec_hbbft.json'' \<mapsto> c)" "host_dirs h = {''p''}"
  shows "\<exists>h'. copyNodeFilesToTargetDirectory sample_surroundings ''local'' sample_builder ''t'' h = Inr h' \<and>
     host_files h' ''t/node1/validator_node.toml'' = Some (Text ''conf'') \<and> ''t/node1'' \<in> host_dirs h' \<and>
     ''t/node1/validator_node.toml'' \<notin> host_dirs h'"
  using assms
  by (simp add: copyNodeFilesToTargetDirectory_def sample_builder_def newBuilder_def sample_nodeOps sample_rpcOps do_ops_def
      mkdirRecursive_def mkdirSync_def sample_ancestors copyFile_def readFileSync_def writeFileSync_def dirname_def
      sample_host_def Let_def)

lemma sample_toml_file: "getTargetNodeTomlFile ''t'' (Suc 0) = ''t/node1/validator_node.toml''"
  by code_simp

lemma writeEnvs_files: "host_files (writeEnvs name b h) = host_files h \<and> host_dirs (writeEnvs name b h) = host_dirs h"
proof -
  have "host_files (foldl (\<lambda>h (k, d). writeEnv b k d h) h ks) = host_files h \<and>
        host_dirs (foldl (\<lambda>h (k, d). writeEnv b k d h) h ks) = host_dirs h" for ks
    by (induction ks arbitrary: h) (auto simp: writeEnv_def split: option.splits)
  then show ?thesis by (simp add: writeEnvs_def)
qed

lemma sample_manipulated:
  assumes "host_files h = host_files sample_host" "host_dirs h = {''p''}"
  shows "\<exists>h1. integrateDaoToChainSpec sample_surroundings h = Inr h1 \<and>
    (\<exists>h2 c. applyChainSpecManipulations sample_surroundings sample_builder h1 = Inr h2 \<and>
     host_files h2 = (host_files sample_host)(''p/spec_hbbft.json'' \<mapsto> c) \<and> host_dirs h2 = {''p''})"
  using assms
  by (simp add: integrateDaoToChainSpec_def applyChainSpecManipulations_def getPosdaoContractsOutputSpecFile_def
      getDaoContractsOutput_def getViewsContractsOutputFile_def path_join_def sample_surroundings_def readJson_def readFileSync_def
      writeFileSync_def dirname_def sample_host_def sample_spec_def spread_def set_keys_def manipulated_def sample_builder_def newBuilder_def)
    blast

lemma sample_build: "\<exists>h'. build sample_surroundings ''local'' sample_builder ''t'' sample_host = Inr h'"
proof -
  let ?w = sample_surroundings and ?b = sample_builder
  have runs: "cmd_or_throw ?w c m h = Inr h" for c m h by (simp add: cmd_or_throw_def sample_surroundings_def)
  obtain h1 h2 c where h2: "integrateDaoToChainSpec ?w (writeEnvs ''local'' ?b sample_host) = Inr h1"
    "applyChainSpecManipulations ?w ?b h1 = Inr h2"
    "host_files h2 = (host_files sample_host)(''p/spec_hbbft.json'' \<mapsto> c)" "host_dirs h2 = {''p''}"
    using sample_manipulated [of "writeEnvs ''local'' ?b sample_host"] writeEnvs_files by (auto simp: sample_host_def)
  obtain h3 where h3: "copyNodeFilesToTargetDirectory ?w ''local'' ?b ''t'' h2 = Inr h3"
    "host_files h3 ''t/node1/validator_node.toml'' = Some (Text ''conf'')" "''t/node1'' \<in> host_dirs h3"
    "''t/node1/validator_node.toml'' \<notin> host_dirs h3" using sample_copied [OF h2(3,4)] by blast
  have toml: "\<exists>h'. applyTomlManipulations ?w ?b ''t'' h3 = Inr h'"
    using h3(2-4) by (simp add: applyTomlManipulations_def applyTomlManipulation_def sample_toml_file sample_builder_def newBuilder_def
        readFileSync_def writeFileSync_def dirname_def sample_surroundings_def sample_conf_def sample_over_def)
  have "build ?w ''local'' ?b ''t'' sample_host = applyTomlManipulations ?w ?b ''t'' h3"
    by (simp add: build_def buildNodeFiles_def buildContracts_def buildContractsDao_def buildContractsViews_def runs h2(1,2) h3(1))
  then show ?thesis using toml by simp
qed

definition sample_built :: host where
  "sample_built = (case build sample_surroundings ''local'' sample_builder ''t'' sample_host of Inr h \<Rightarrow> h | Inl e \<Rightarrow> sample_host)"

lemma sample_built: "build sample_surroundings ''local'' sample_builder ''t'' sample_host = Inr sample_built"
  using sample_build by (auto simp: sample_built_def)

theorem built_nodes_run_one_spec_witness:
  "\<exists>spec. host_files sample_built ''t/node1/spec.json'' = Some (Json spec) \<and>
     json_at spec [''name''] = Some (JString ''local'') \<and>
     json_at spec [''engine'', ''hbbft'', ''params'', ''minimumBlockTime''] = Some (JNumber 1)"
proof -
  have "\<not> in_network ''t'' (getPosdaoContractsOutputSpecFile sample_surroundings)" by code_simp
  moreover have "distinct (map fst (hbbftArgs sample_builder))" by (simp add: sample_builder_def)
  ultimately obtain spec where s:
    "\<forall>i \<in> {1..numNodes sample_builder}. host_files sample_built (getTargetNodeDir ''t'' i @ ''/spec.json'') = Some (Json spec)"
    "json_at spec [''name''] = Some (JString (lb_name sample_builder))"
    "\<forall>(k, v) \<in> set (hbbftArgs sample_builder). json_at spec [''engine'', ''hbbft'', ''params'', k] = Some v"
    using built_nodes_run_one_spec [OF sample_built] by blast
  moreover have "numNodes sample_builder = 1" "lb_name sample_builder = ''local''"
    "hbbftArgs sample_builder = [(''minimumBlockTime'', JNumber 1)]" by (simp_all add: sample_builder_def newBuilder_def)
  moreover have "getTargetNodeDir ''t'' 1 @ ''/spec.json'' = ''t/node1/spec.json''" by code_simp
  ultimately show ?thesis by auto
qed

definition sample_node_host :: host where
  "sample_node_host = \<lparr>env_vars = (\<lambda>k. None), host_files = [''t/node1/validator_node.toml'' \<mapsto> Text ''conf''], host_dirs = {''t/node1''}\<rparr>"



lemma sample_applied:
  "applyTomlManipulation sample_surroundings sample_builder ''t'' 1 sample_node_host =
     Inr (sample_node_host\<lparr>host_files := (host_files sample_node_host)(''t/node1/validator_node.toml'' \<mapsto> Text ''merged'')\<rparr>)"
  "applyTomlManipulation sample_surroundings sample_builder ''t'' 1
     (sample_node_host\<lparr>host_files := (host_files sample_node_host)(''t/node1/validator_node.toml'' \<mapsto> Text ''merged'')\<rparr>) =
     Inr (sample_node_host\<lparr>host_files := (host_files sample_node_host)(''t/node1/validator_node.toml'' \<mapsto> Text ''merged'')\<rparr>)"
  by (simp_all add: applyTomlManipulation_def sample_toml_file sample_builder_def newBuilder_def sample_node_host_def
      readFileSync_def writeFileSync_def sample_surroundings_def sample_conf_def sample_over_def sample_merged_def
      dirname_def deepMerge_def keys_at_def spread_def)

lemma sample_toml:
  "lb_nodeArgs sample_builder = Some [''over'']"
  "toml_parse sample_surroundings (separated [CHR 0x0A] [''over'']) = Inr sample_over"
  "distinct_keys (JObject sample_over)"
  "host_files sample_node_host (getTargetNodeTomlFile ''t'' 1) = Some (Text ''conf'')"
  "toml_parse sample_surroundings ''conf'' = Inr sample_conf"
  "toml_parse sample_surroundings (toml_stringify sample_surroundings (deepMerge sample_conf sample_over)) =
     Inr (deepMerge sample_conf sample_over)"
  by (simp_all add: sample_toml_file sample_builder_def sample_node_host_def sample_surroundings_def sample_conf_def
      sample_over_def sample_merged_def deepMerge_def keys_at_def spread_def)

theorem node_arguments_win_witness:
  "\<exists>conf'. toml_parse sample_surroundings ''merged'' = Inr conf' \<and>
     value_at conf' [''network'', ''min_peers''] = Some (JNumber 5) \<and>
     value_at conf' [''network'', ''port''] = Some (JNumber 30300)"
proof -
  obtain toml' conf' where c:
    "host_files (sample_node_host\<lparr>host_files := (host_files sample_node_host)(''t/node1/validator_node.toml'' \<mapsto> Text ''merged'')\<rparr>)
       (getTargetNodeTomlFile ''t'' 1) = Some (Text toml')" "toml_parse sample_surroundings toml' = Inr conf'"
    "\<forall>p v. value_at sample_over p = Some v \<and> \<not> is_object v \<longrightarrow> value_at conf' p = Some v"
    "\<forall>p v. leaves_path sample_over p \<and> value_at sample_conf p = Some v \<longrightarrow> value_at conf' p = Some v"
    using node_arguments_win [OF sample_applied(1) sample_toml] by blast
  have "toml' = ''merged''" using c(1) by (simp add: sample_toml_file)
  moreover have "value_at sample_over [''network'', ''min_peers''] = Some (JNumber 5)" "\<not> is_object (JNumber 5)"
    "leaves_path sample_over [''network'', ''port'']" "value_at sample_conf [''network'', ''port''] = Some (JNumber 30300)"
    by (simp_all add: sample_over_def sample_conf_def is_object_def)
  ultimately show ?thesis using c(2-4) by blast
qed

end
