(* ===== verification/ContractUpgrades.thy ===== *)
theory ContractUpgrades imports JavaScript begin

text \<open>
  The upgrade of the contracts of a network, src/src/contracts/runUpgradeContracts.ts with
  src/src/contracts/contractTools.ts. The calls of the chain, the artifacts of the contracts and the
  verification on the explorer are parameters; the answers of the user are a list. A run keeps the
  transactions that it sent, also when it fails: when the answers end, the program is still asking, which is
  an error here. Texts printed are left out.
\<close>

section \<open>Runs that send transactions\<close>

datatype tx = Deploy string | UpgradeTo string string | Initialize string

type_synonym 'a run = "tx list \<times> 'a result"

fun afterRun :: "'a run \<Rightarrow> ('a \<Rightarrow> 'b run) \<Rightarrow> 'b run" where
  "afterRun (txs, Inl e) f = (txs, Inl e)"
| "afterRun (txs, Inr x) f = (case f x of (txs', r) \<Rightarrow> (txs @ txs', r))"

definition reading :: "'a result \<Rightarrow> 'a run" where
  "reading r = ([], r)"

text \<open>A loop that changes each element.\<close>

fun eachRun :: "('a \<Rightarrow> 's \<Rightarrow> ('b \<times> 's) run) \<Rightarrow> 'a list \<Rightarrow> 's \<Rightarrow> ('b list \<times> 's) run" where
  "eachRun f [] s = ([], Inr ([], s))"
| "eachRun f (x # xs) s = afterRun (f x s) (\<lambda>(y, s1). afterRun (eachRun f xs s1) (\<lambda>(ys, s2). ([], Inr (y # ys, s2))))"

section \<open>The program\<close>

datatype UpdateState = Unknown | IsUpToDate | Pending | Deployed | UpgradedTo

record ContractDeployment =
  contractName :: string
  currentAddress :: string
  proxyAddress :: string
  currentAdmin :: string
  updateState :: UpdateState
  newAddress :: string
  deploymentHash :: string
  upgradeToCallTxHash :: string

record receipt =
  contractAddress :: "string option"
  blockHash :: string
  rc_blockNumber :: nat

record upgrade_world =
  uw_account :: string
  head_block :: "unit result"
  implementation :: "string \<Rightarrow> string result"
  admin :: "string \<Rightarrow> string result"
  getCode :: "string \<Rightarrow> string result"
  deployedBytecode :: "string \<Rightarrow> string result"
  sendDeployment :: "string \<Rightarrow> receipt result"
  explorer :: "nat \<Rightarrow> string \<Rightarrow> unit result"
  upgradeTo :: "string \<Rightarrow> string \<Rightarrow> string result"
  validatorSetContract :: "string \<Rightarrow> string result"
  initializeSet :: "string \<Rightarrow> unit result"
  uw_toBN :: "string \<Rightarrow> int"

definition contractAddresses :: "(string \<times> string) list" where
  "contractAddresses =
     [(''TxPermissionHbbft'', ''0x4000000000000000000000000000000000000001''),
      (''ValidatorSetHbbft'', ''0x1000000000000000000000000000000000000001''),
      (''StakingHbbft'', ''0x1100000000000000000000000000000000000001''),
      (''BlockRewardHbbft'', ''0x2000000000000000000000000000000000000001''),
      (''KeyGenHistory'', ''0x7000000000000000000000000000000000000001''),
      (''RandomHbbft'', ''0x3000000000000000000000000000000000000001'')]"

text \<open>
  The last 114 digits of a deployed contract are the hash of its metadata. Codes that are equal leave the
  state unknown.
\<close>

definition differences :: "string \<Rightarrow> string \<Rightarrow> nat list" where
  "differences contractCode code =
     map (\<lambda>i. length code - i) (filter (\<lambda>i. contractCode ! i \<noteq> code ! i) [0..<length code - 114])"

definition compareCode :: "string \<Rightarrow> string \<Rightarrow> UpdateState" where
  "compareCode contractCode code =
     (if contractCode = code then Unknown
      else if length contractCode = length code
        then (if differences contractCode code \<noteq> [] then Pending else IsUpToDate)
      else Pending)"

definition checkContract :: "upgrade_world \<Rightarrow> string \<times> string \<Rightarrow> ContractDeployment result" where
  "checkContract w = (\<lambda>(name, address).
     await (implementation w address) (\<lambda>current.
     await (admin w address) (\<lambda>adm.
     if adm \<noteq> uw_account w then Inl (Thrown ''The Account is not allowed to upgrade.'')
     else await (deployedBytecode w name) (\<lambda>contractCode.
       await (getCode w current) (\<lambda>code.
       Inr \<lparr>contractName = name, currentAddress = current, proxyAddress = address, currentAdmin = adm,
            updateState = compareCode contractCode code, newAddress = [], deploymentHash = [],
            upgradeToCallTxHash = []\<rparr>)))))"

definition contractsToUpdate :: "upgrade_world \<Rightarrow> ContractDeployment list result" where
  "contractsToUpdate w = await (mapM (checkContract w) contractAddresses) (\<lambda>ds. Inr (filter (\<lambda>d. updateState d = Pending) ds))"

text \<open>The question is asked until the answer has the form that is wanted.\<close>

definition answer_form :: "string \<Rightarrow> bool" where
  "answer_form s \<longleftrightarrow> s \<noteq> [] \<and> (\<forall>c \<in> set s. c \<in> set ''yYnNcC-'' \<or> is_space c)"

fun ask :: "string list \<Rightarrow> (string \<times> string list) option" where
  "ask [] = None"
| "ask (a # as) = (if answer_form a then Some (a, as) else ask as)"

definition consent :: "string list \<Rightarrow> (bool \<times> string list) result" where
  "consent answers = (case ask answers of Some (a, rest) \<Rightarrow> Inr (to_lower a = ''y'', rest)
     | None \<Rightarrow> Inl (Thrown ''waiting for an answer''))"

definition deploy :: "upgrade_world \<Rightarrow> string \<Rightarrow> receipt run" where
  "deploy w name = ([Deploy name], await (sendDeployment w name) (\<lambda>t.
     if contractAddress t = None then Inl (Thrown ''Expected new Contract address.'') else Inr t))"

definition deployContract :: "upgrade_world \<Rightarrow> ContractDeployment \<Rightarrow> unit \<Rightarrow> (ContractDeployment \<times> unit) run" where
  "deployContract w d u =
     afterRun (reading (await (deployedBytecode w (contractName d)) (\<lambda>_. Inr ()))) (\<lambda>_.
     afterRun (deploy w (contractName d)) (\<lambda>t.
     let a = (case contractAddress t of Some a \<Rightarrow> a | None \<Rightarrow> []) in
     afterRun (reading (explorer w (rc_blockNumber t) a)) (\<lambda>_.
     ([], Inr (d\<lparr>newAddress := a, deploymentHash := blockHash t, updateState := Deployed\<rparr>, u)))))"

definition validatorSetAddress :: string where
  "validatorSetAddress = ''0x1000000000000000000000000000000000000001''"

text \<open>The contract of random numbers is told the set of validators, when it has another one.\<close>

definition specialCase :: "upgrade_world \<Rightarrow> ContractDeployment \<Rightarrow> string list \<Rightarrow> string list run" where
  "specialCase w d answers =
     (if contractName d = ''RandomHbbft'' then
        afterRun (reading (validatorSetContract w (proxyAddress d))) (\<lambda>v.
        if uw_toBN w v \<noteq> uw_toBN w validatorSetAddress then
          afterRun (reading (consent answers)) (\<lambda>(yes, rest).
          if yes then ([Initialize (proxyAddress d)], await (initializeSet w (proxyAddress d)) (\<lambda>_. Inr rest))
          else ([], Inr rest))
        else ([], Inr answers))
      else ([], Inr answers))"

definition upgradeContract :: "upgrade_world \<Rightarrow> ContractDeployment \<Rightarrow> string list \<Rightarrow> (ContractDeployment \<times> string list) run" where
  "upgradeContract w d answers =
     afterRun (reading (implementation w (proxyAddress d))) (\<lambda>_.
     afterRun ([UpgradeTo (proxyAddress d) (newAddress d)], upgradeTo w (proxyAddress d) (newAddress d)) (\<lambda>hash.
     afterRun (specialCase w d answers) (\<lambda>rest.
     ([], Inr (d\<lparr>upgradeToCallTxHash := hash\<rparr>, rest)))))"

definition executeUpdate :: "upgrade_world \<Rightarrow> ContractDeployment list \<Rightarrow> string list \<Rightarrow> ContractDeployment list run" where
  "executeUpdate w ds answers =
     afterRun (reading (consent answers)) (\<lambda>(yes, rest).
     if yes then afterRun (eachRun (upgradeContract w) ds rest) (\<lambda>(ds', _). ([], Inr ds')) else ([], Inr ds))"

definition doDeployContracts :: "upgrade_world \<Rightarrow> string list \<Rightarrow> ContractDeployment list run" where
  "doDeployContracts w answers =
     afterRun (reading (head_block w)) (\<lambda>_.
     afterRun (reading (contractsToUpdate w)) (\<lambda>ds.
     if ds = [] then ([], Inr [])
     else afterRun (reading (consent answers)) (\<lambda>(yes, rest).
       if yes then afterRun (eachRun (deployContract w) ds ()) (\<lambda>(ds', _). executeUpdate w ds' rest)
       else ([], Inr ds))))"

section \<open>Traces\<close>

definition txs_after :: "'a result \<Rightarrow> ('a \<Rightarrow> 'b run) \<Rightarrow> tx list" where
  "txs_after r f = (case r of Inl e \<Rightarrow> [] | Inr x \<Rightarrow> fst (f x))"

lemma txs_after_simps [simp]: "txs_after (Inl e) f = []" "txs_after (Inr x) f = fst (f x)"
  by (simp_all add: txs_after_def)

lemma afterRun_run: "afterRun m f = (fst m @ txs_after (snd m) f, await (snd m) (\<lambda>x. snd (f x)))"
proof -
  obtain txs r where "m = (txs, r)" by (cases m)
  then show ?thesis by (cases r) (simp_all split: prod.split)
qed

lemma reading_run [simp]: "fst (reading r) = []" "snd (reading r) = r"
  by (simp_all add: reading_def)

fun is_upgrade :: "tx \<Rightarrow> bool" where
  "is_upgrade (UpgradeTo p a) = True"
| "is_upgrade _ = False"

lemma eachRun_Cons:
  "eachRun f (x # xs) s = (case f x s of (txs, Inl e) \<Rightarrow> (txs, Inl e)
     | (txs, Inr (y, s1)) \<Rightarrow> (case eachRun f xs s1 of (txs', Inl e) \<Rightarrow> (txs @ txs', Inl e)
        | (txs', Inr (ys, s2)) \<Rightarrow> (txs @ txs', Inr (y # ys, s2))))"
proof -
  obtain txs r where f: "f x s = (txs, r)" by (cases "f x s")
  show ?thesis
  proof (cases r)
    case (Inr p)
    obtain y s1 where p: "p = (y, s1)" by (cases p)
    obtain txs' r' where "eachRun f xs s1 = (txs', r')" by (cases "eachRun f xs s1")
    then show ?thesis using f Inr p by (cases r') (auto split: prod.splits)
  qed (simp add: f)
qed

text \<open>A property of the transactions of each turn of a loop.\<close>

lemma eachRun_txs:
  assumes "t \<in> set (fst (eachRun f xs s))" "\<And>x s. x \<in> set xs \<Longrightarrow> \<forall>t \<in> set (fst (f x s)). P x t"
  shows "\<exists>x \<in> set xs. P x t"
  using assms
proof (induction xs arbitrary: s)
  case (Cons x xs)
  obtain txs r where f: "f x s = (txs, r)" by (cases "f x s")
  show ?case
  proof (cases "t \<in> set txs")
    case True
    then show ?thesis using Cons.prems(2) [of x s] f by auto
  next
    case False
    then obtain y s1 where "r = Inr (y, s1)" "t \<in> set (fst (eachRun f xs s1))"
      using Cons.prems(1) f unfolding eachRun_Cons by (auto split: sum.splits prod.splits)
    then show ?thesis using Cons.IH [of s1] Cons.prems(2) by auto
  qed
qed simp

text \<open>What a loop that ends has made of each element.\<close>

lemma eachRun_done:
  assumes "eachRun f xs s = (txs, Inr (ys, s'))"
    "\<And>x s y s1 txs. x \<in> set xs \<Longrightarrow> f x s = (txs, Inr (y, s1)) \<Longrightarrow> Q x y \<and> filter K txs = g x y"
  shows "list_all2 Q xs ys \<and> filter K txs = concat (map2 g xs ys)"
  using assms
proof (induction xs arbitrary: s txs ys)
  case (Cons x xs)
  from Cons.prems(1) obtain txs1 y s1 txs2 ys2 where t: "f x s = (txs1, Inr (y, s1))"
    "eachRun f xs s1 = (txs2, Inr (ys2, s'))" "txs = txs1 @ txs2" "ys = y # ys2"
    unfolding eachRun_Cons by (auto split: sum.splits prod.splits)
  have "list_all2 Q xs ys2 \<and> filter K txs2 = concat (map2 g xs ys2)"
    using Cons.IH [OF t(2)] Cons.prems(2) by simp
  then show ?case using Cons.prems(2) [OF _ t(1)] t(3,4) by simp
qed simp

lemma txs_after_in: "t \<in> set (txs_after r f) \<longleftrightarrow> (\<exists>x. r = Inr x \<and> t \<in> set (fst (f x)))"
  by (cases r) simp_all

lemma deployContract_txs: "t \<in> set (fst (deployContract w d u)) \<Longrightarrow> t = Deploy (contractName d)"
  by (auto simp: deployContract_def deploy_def afterRun_run Let_def txs_after_in)

lemma deployContract_done:
  assumes "deployContract w d u = (txs, Inr (d', u'))"
  shows "\<exists>t a. sendDeployment w (contractName d) = Inr t \<and> contractAddress t = Some a \<and>
     d' = d\<lparr>newAddress := a, deploymentHash := blockHash t, updateState := Deployed\<rparr> \<and> txs = [Deploy (contractName d)]"
  using assms by (auto simp: deployContract_def deploy_def afterRun_run Let_def result_simps split: if_splits)

lemma specialCase_txs: "t \<in> set (fst (specialCase w d as)) \<Longrightarrow> t = Initialize (proxyAddress d)"
  by (auto simp: specialCase_def afterRun_run txs_after_in split: if_splits)

lemma upgradeContract_txs:
  "t \<in> set (fst (upgradeContract w d as)) \<Longrightarrow> t = UpgradeTo (proxyAddress d) (newAddress d) \<or> t = Initialize (proxyAddress d)"
  by (auto simp: upgradeContract_def afterRun_run txs_after_in dest: specialCase_txs)

lemma specialCase_upgrades [simp]: "filter is_upgrade (fst (specialCase w d as)) = []"
  by (auto simp: filter_empty_conv dest!: specialCase_txs)

lemma upgradeContract_done:
  assumes "upgradeContract w d as = (txs, Inr (d', rest))"
  shows "proxyAddress d' = proxyAddress d \<and> newAddress d' = newAddress d \<and> contractName d' = contractName d \<and>
     upgradeTo w (proxyAddress d) (newAddress d) = Inr (upgradeToCallTxHash d') \<and>
     filter is_upgrade txs = [UpgradeTo (proxyAddress d) (newAddress d)]"
  using assms by (auto simp: upgradeContract_def afterRun_run result_simps)

section \<open>Which contracts are upgraded\<close>

text \<open>The code behind the proxy differs from the artifact, apart from the hash at its end.\<close>

definition outdated :: "upgrade_world \<Rightarrow> string \<times> string \<Rightarrow> bool" where
  "outdated w = (\<lambda>(n, p). case (implementation w p, deployedBytecode w n) of
     (Inr current, Inr art) \<Rightarrow> (case getCode w current of Inr code \<Rightarrow> compareCode art code = Pending | _ \<Rightarrow> False)
   | _ \<Rightarrow> False)"

lemma checkContract_result:
  assumes "checkContract w (n, p) = Inr d"
  shows "contractName d = n \<and> proxyAddress d = p \<and> admin w p = Inr (uw_account w) \<and>
     (updateState d = Pending \<longleftrightarrow> outdated w (n, p))"
  using assms by (auto simp: checkContract_def outdated_def result_simps split: if_splits)

definition same_contract :: "upgrade_world \<Rightarrow> string \<times> string \<Rightarrow> ContractDeployment \<Rightarrow> bool" where
  "same_contract w np d \<longleftrightarrow> np = (contractName d, proxyAddress d) \<and> admin w (snd np) = Inr (uw_account w) \<and>
     (updateState d = Pending \<longleftrightarrow> outdated w np)"

lemma same_contracts:
  "list_all2 (same_contract w) cs ds \<Longrightarrow>
   (\<forall>np \<in> set cs. admin w (snd np) = Inr (uw_account w)) \<and>
   map (\<lambda>d. (contractName d, proxyAddress d)) (filter (\<lambda>d. updateState d = Pending) ds) = filter (outdated w) cs"
  by (induction cs ds rule: list_all2_induct) (auto simp: same_contract_def)

lemma contractsToUpdate_result:
  assumes "contractsToUpdate w = Inr ds"
  shows "\<forall>(n, p) \<in> set contractAddresses. admin w p = Inr (uw_account w)"
    and "map (\<lambda>d. (contractName d, proxyAddress d)) ds = filter (outdated w) contractAddresses"
proof -
  from assms obtain all where all: "mapM (checkContract w) contractAddresses = Inr all" "ds = filter (\<lambda>d. updateState d = Pending) all"
    by (auto simp: contractsToUpdate_def result_simps)
  have "list_all2 (same_contract w) contractAddresses all"
    using all(1) unfolding mapM_Inr
    by (rule list.rel_mono_strong) (auto simp: same_contract_def dest!: checkContract_result)
  note r = same_contracts [OF this]
  show "\<forall>(n, p) \<in> set contractAddresses. admin w p = Inr (uw_account w)"
    and "map (\<lambda>d. (contractName d, proxyAddress d)) ds = filter (outdated w) contractAddresses"
    using r all(2) by auto
qed

text \<open>What has been deployed before the upgrade starts.\<close>

definition deployed_from :: "upgrade_world \<Rightarrow> ContractDeployment \<Rightarrow> ContractDeployment \<Rightarrow> bool" where
  "deployed_from w d d' \<longleftrightarrow> contractName d' = contractName d \<and> proxyAddress d' = proxyAddress d \<and>
     (\<exists>t. sendDeployment w (contractName d) = Inr t \<and> contractAddress t = Some (newAddress d'))"

lemma deployments_done:
  assumes "eachRun (deployContract w) ds () = (txs, Inr (ds', u))"
  shows "list_all2 (deployed_from w) ds ds' \<and> filter is_upgrade txs = []"
proof -
  have "list_all2 (deployed_from w) ds ds' \<and> filter is_upgrade txs = concat (map2 (\<lambda>d d'. []) ds ds')"
    by (rule eachRun_done [OF assms]) (auto simp: deployed_from_def dest: deployContract_done)
  moreover have "concat (map2 (\<lambda>d d'. []) ds ds') = []" by (simp add: concat_eq_Nil_conv)
  ultimately show ?thesis by simp
qed

lemma deployments_txs:
  assumes "t \<in> set (fst (eachRun (deployContract w) ds u))"
  shows "\<exists>n. t = Deploy n"
proof -
  have "\<exists>d \<in> set ds. t = Deploy (contractName d)"
    by (rule eachRun_txs [OF assms]) (auto dest: deployContract_txs)
  then show ?thesis by blast
qed

lemma upgrades_txs:
  assumes "t \<in> set (fst (eachRun (upgradeContract w) ds as))"
  shows "\<exists>d \<in> set ds. t = UpgradeTo (proxyAddress d) (newAddress d) \<or> t = Initialize (proxyAddress d)"
  by (rule eachRun_txs [OF assms]) (auto dest: upgradeContract_txs)

lemma executeUpdate_txs:
  assumes "t \<in> set (fst (executeUpdate w ds as))"
  shows "(\<exists>rest. consent as = Inr (True, rest)) \<and>
    (\<exists>d \<in> set ds. t = UpgradeTo (proxyAddress d) (newAddress d) \<or> t = Initialize (proxyAddress d))"
  using assms by (auto simp: executeUpdate_def afterRun_run txs_after_in split: if_splits dest: upgrades_txs)

lemma doDeployContracts_txs:
  assumes "t \<in> set (fst (doDeployContracts w answers))"
  obtains ds rest where "contractsToUpdate w = Inr ds" "consent answers = Inr (True, rest)"
    "t \<in> set (fst (eachRun (deployContract w) ds ())) \<or>
     (\<exists>txs ds' u. eachRun (deployContract w) ds () = (txs, Inr (ds', u)) \<and> t \<in> set (fst (executeUpdate w ds' rest)))"
  using assms
  by (auto simp: doDeployContracts_def afterRun_run txs_after_in split: if_splits) (metis prod.collapse)+

text \<open>
  Nothing is sent unless the account is the administrator of every contract and the user has consented; the
  proxies are only changed after a second confirmation.
\<close>

lemma transactions_need_consent:
  assumes "t \<in> set (fst (doDeployContracts w answers))"
  shows "(\<forall>(n, p) \<in> set contractAddresses. admin w p = Inr (uw_account w)) \<and>
    (\<exists>rest. consent answers = Inr (True, rest) \<and>
      ((\<exists>n. t = Deploy n) \<or> (\<exists>rest'. consent rest = Inr (True, rest'))))"
proof -
  obtain ds rest where s: "contractsToUpdate w = Inr ds" "consent answers = Inr (True, rest)"
    "t \<in> set (fst (eachRun (deployContract w) ds ())) \<or>
     (\<exists>txs ds' u. eachRun (deployContract w) ds () = (txs, Inr (ds', u)) \<and> t \<in> set (fst (executeUpdate w ds' rest)))"
    using assms by (rule doDeployContracts_txs)
  then have "(\<exists>n. t = Deploy n) \<or> (\<exists>rest'. consent rest = Inr (True, rest'))"
    using deployments_txs executeUpdate_txs by blast
  then show ?thesis using s(2) contractsToUpdate_result(1) [OF s(1)] by blast
qed

text \<open>C23: A proxy is only upgraded when the code behind it differs from the artifact, the account is its administrator and
  the user has confirmed twice, and only to the contract that was deployed for it in this run.\<close>

theorem only_outdated_upgraded:
  assumes "UpgradeTo p a \<in> set (fst (doDeployContracts w answers))"
  shows "\<exists>n t rest rest'. (n, p) \<in> set contractAddresses \<and> outdated w (n, p) \<and> admin w p = Inr (uw_account w) \<and>
    sendDeployment w n = Inr t \<and> contractAddress t = Some a \<and>
    consent answers = Inr (True, rest) \<and> consent rest = Inr (True, rest')"
proof -
  obtain ds rest where s: "contractsToUpdate w = Inr ds" "consent answers = Inr (True, rest)"
    "UpgradeTo p a \<in> set (fst (eachRun (deployContract w) ds ())) \<or>
     (\<exists>txs ds' u. eachRun (deployContract w) ds () = (txs, Inr (ds', u)) \<and> UpgradeTo p a \<in> set (fst (executeUpdate w ds' rest)))"
    using assms by (rule doDeployContracts_txs)
  then obtain txs ds' u where d: "eachRun (deployContract w) ds () = (txs, Inr (ds', u))"
    "UpgradeTo p a \<in> set (fst (executeUpdate w ds' rest))" using deployments_txs by blast
  obtain d' rest' where d': "d' \<in> set ds'" "p = proxyAddress d'" "a = newAddress d'" "consent rest = Inr (True, rest')"
    using executeUpdate_txs [OF d(2)] by auto
  obtain d where dd: "d \<in> set ds" "deployed_from w d d'"
  proof -
    obtain i where i: "i < length ds'" "ds' ! i = d'" using d'(1) by (auto simp: in_set_conv_nth)
    have l: "list_all2 (deployed_from w) ds ds'" using deployments_done [OF d(1)] ..
    have "ds ! i \<in> set ds" using i(1) list_all2_lengthD [OF l] by simp
    then show ?thesis using that list_all2_nthD2 [OF l i(1)] i(2) by blast
  qed
  have "(contractName d, p) \<in> set (filter (outdated w) contractAddresses)"
    using dd d'(2) contractsToUpdate_result(2) [OF s(1), symmetric] by (auto simp: deployed_from_def)
  then have c: "(contractName d, p) \<in> set contractAddresses" "outdated w (contractName d, p)" by simp_all
  then show ?thesis
    using dd(2) d'(3,4) s(2) contractsToUpdate_result(1) [OF s(1)] by (fastforce simp: deployed_from_def)
qed

text \<open>A run that ends after both confirmations has upgraded each outdated contract once, in their order.\<close>

definition upgraded_from :: "upgrade_world \<Rightarrow> ContractDeployment \<Rightarrow> ContractDeployment \<Rightarrow> bool" where
  "upgraded_from w d d' \<longleftrightarrow> contractName d' = contractName d \<and> proxyAddress d' = proxyAddress d \<and> newAddress d' = newAddress d \<and>
     upgradeTo w (proxyAddress d) (newAddress d) = Inr (upgradeToCallTxHash d')"

lemma upgrades_done:
  assumes "eachRun (upgradeContract w) ds as = (txs, Inr (ds', rest))"
  shows "list_all2 (upgraded_from w) ds ds'" "filter is_upgrade txs = map (\<lambda>d. UpgradeTo (proxyAddress d) (newAddress d)) ds"
proof -
  have r: "list_all2 (upgraded_from w) ds ds' \<and>
      filter is_upgrade txs = concat (map2 (\<lambda>d d'. [UpgradeTo (proxyAddress d) (newAddress d)]) ds ds')"
    by (rule eachRun_done [OF assms]) (auto simp: upgraded_from_def dest: upgradeContract_done)
  then show "list_all2 (upgraded_from w) ds ds'" by blast
  then have "length ds = length ds'" by (rule list_all2_lengthD)
  then have "concat (map2 (\<lambda>d d'. [UpgradeTo (proxyAddress d) (newAddress d)]) ds ds') =
      map (\<lambda>d. UpgradeTo (proxyAddress d) (newAddress d)) ds"
    by (induction ds ds' rule: list_induct2) simp_all
  then show "filter is_upgrade txs = map (\<lambda>d. UpgradeTo (proxyAddress d) (newAddress d)) ds" using r by simp
qed

lemma deployed_contracts:
  "list_all2 (deployed_from w) ds ds' \<Longrightarrow>
   map (\<lambda>d. (contractName d, proxyAddress d)) ds' = map (\<lambda>d. (contractName d, proxyAddress d)) ds"
  by (induction ds ds' rule: list_all2_induct) (simp_all add: deployed_from_def)

lemma upgraded_contracts:
  "list_all2 (upgraded_from w) ds ds' \<Longrightarrow>
   map (\<lambda>d. UpgradeTo (proxyAddress d) (newAddress d)) ds' = map (\<lambda>d. UpgradeTo (proxyAddress d) (newAddress d)) ds \<and>
   map (\<lambda>d. (contractName d, proxyAddress d)) ds' = map (\<lambda>d. (contractName d, proxyAddress d)) ds"
  by (induction ds ds' rule: list_all2_induct) (simp_all add: upgraded_from_def)

theorem all_outdated_upgraded:
  assumes "doDeployContracts w answers = (txs, Inr ds)"
    "consent answers = Inr (True, rest)" "consent rest = Inr (True, rest')"
  shows "filter is_upgrade txs = map (\<lambda>d. UpgradeTo (proxyAddress d) (newAddress d)) ds \<and>
    map (\<lambda>d. (contractName d, proxyAddress d)) ds = filter (outdated w) contractAddresses"
proof -
  from assms(1) obtain ds0 where ds0: "contractsToUpdate w = Inr ds0"
    by (auto simp: doDeployContracts_def afterRun_run result_simps)
  note out = contractsToUpdate_result(2) [OF ds0]
  have head: "head_block w = Inr ()" using assms(1) by (auto simp: doDeployContracts_def afterRun_run result_simps)
  show ?thesis
  proof (cases "ds0 = []")
    case True
    then have "txs = []" "ds = []" using assms(1) ds0 head by (simp_all add: doDeployContracts_def afterRun_run)
    then show ?thesis using out True by simp
  next
    case False
    then obtain txs1 ds1 u txs2 ds2 where r: "eachRun (deployContract w) ds0 () = (txs1, Inr (ds1, u))"
      "eachRun (upgradeContract w) ds1 rest' = (txs2, Inr (ds, ds2))" "txs = txs1 @ txs2"
      using assms ds0 head
      by (auto simp: doDeployContracts_def executeUpdate_def afterRun_run result_simps) (metis prod.collapse)
    have "filter is_upgrade txs = map (\<lambda>d. UpgradeTo (proxyAddress d) (newAddress d)) ds1"
      using deployments_done [OF r(1)] upgrades_done(2) [OF r(2)] r(3) by simp
    then show ?thesis
      using upgraded_contracts [OF upgrades_done(1) [OF r(2)]]
        deployed_contracts [OF deployments_done [OF r(1), THEN conjunct1]] out by simp
  qed
qed

section \<open>Samples\<close>

definition sample_upgrade_world :: upgrade_world where
  "sample_upgrade_world = \<lparr>uw_account = ''0xa'', head_block = Inr (), implementation = (\<lambda>p. Inr p), admin = (\<lambda>p. Inr ''0xa''),
     getCode = (\<lambda>p. Inr (if p = ''0x2000000000000000000000000000000000000001'' then ''0x01'' else ''0x'')),
     deployedBytecode = (\<lambda>n. Inr ''0x''),
     sendDeployment = (\<lambda>n. Inr \<lparr>contractAddress = Some ''0xb'', blockHash = ''0xc'', rc_blockNumber = 5\<rparr>),
     explorer = (\<lambda>b a. Inr ()), upgradeTo = (\<lambda>p a. Inr ''0xd''), validatorSetContract = (\<lambda>p. Inr p),
     initializeSet = (\<lambda>p. Inr ()), uw_toBN = (\<lambda>a. 0)\<rparr>"

definition sample_upgraded :: ContractDeployment where
  "sample_upgraded = \<lparr>contractName = ''BlockRewardHbbft'', currentAddress = ''0x2000000000000000000000000000000000000001'',
     proxyAddress = ''0x2000000000000000000000000000000000000001'', currentAdmin = ''0xa'', updateState = Deployed,
     newAddress = ''0xb'', deploymentHash = ''0xc'', upgradeToCallTxHash = ''0xd''\<rparr>"

lemma sample_upgrade:
  "doDeployContracts sample_upgrade_world [''yes'', ''y'', ''Y''] =
     ([Deploy ''BlockRewardHbbft'', UpgradeTo ''0x2000000000000000000000000000000000000001'' ''0xb''], Inr [sample_upgraded])"
  by code_simp

lemma sample_consent: "consent [''yes'', ''y'', ''Y''] = Inr (True, [''Y''])" "consent [''Y''] = Inr (True, [])"
  by code_simp+

theorem only_outdated_upgraded_witness:
  "\<exists>n. (n, ''0x2000000000000000000000000000000000000001'') \<in> set contractAddresses \<and>
     outdated sample_upgrade_world (n, ''0x2000000000000000000000000000000000000001'')"
proof -
  have "UpgradeTo ''0x2000000000000000000000000000000000000001'' ''0xb'' \<in>
      set (fst (doDeployContracts sample_upgrade_world [''yes'', ''y'', ''Y'']))" by (simp add: sample_upgrade)
  from only_outdated_upgraded [OF this] show ?thesis by blast
qed

theorem all_outdated_upgraded_witness:
  "filter (outdated sample_upgrade_world) contractAddresses =
     [(''BlockRewardHbbft'', ''0x2000000000000000000000000000000000000001'')]"
  using all_outdated_upgraded [OF sample_upgrade sample_consent] by (simp add: sample_upgraded_def)

end
