(* ===== verification/NodeRunStates.thy ===== *)
theory NodeRunStates imports NodeManager begin

text \<open>
  The random walk over the states of the nodes of a test network, and its execution:
  src/src/localnet/tests/nodeRunStateTestSpecification.ts. The numbers of \<open>Math.random\<close> are a sequence of
  which the code takes the next one; computations with fractions are exact. The loops that may not end are
  partial functions: \<open>None\<close> is a loop that does not end. The sleeps of the execution are left out.
\<close>

section \<open>The random walk\<close>

record NodeRunStateTestSpecificationEntry =
  states :: "bool list"
  sleep :: nat

text \<open>The first entry of the states is not counted.\<close>

definition countActiveNodes :: "NodeRunStateTestSpecificationEntry \<Rightarrow> nat" where
  "countActiveNodes e = length (filter (\<lambda>s. s) (tl (states e)))"

definition hbbftTreshholdReached :: "NodeRunStateTestSpecificationEntry \<Rightarrow> rat \<Rightarrow> bool" where
  "hbbftTreshholdReached e treshold \<longleftrightarrow> states e \<noteq> [] \<and> of_nat (countActiveNodes e) / of_nat (length (states e)) > treshold"

definition randomIndex :: "rat \<Rightarrow> nat \<Rightarrow> nat" where
  "randomIndex r n = nat \<lfloor>r * of_nat n\<rfloor>"

text \<open>A node whose state differs from the wanted one; a position behind the end has no state.\<close>

definition state_at :: "bool list \<Rightarrow> nat \<Rightarrow> bool option" where
  "state_at s i = (if i < length s then Some (s ! i) else None)"

definition set_state :: "nat \<Rightarrow> bool \<Rightarrow> bool list \<Rightarrow> bool list" where
  "set_state i b s = (if i < length s then s[i := b] else s @ [b])"

partial_function (option) findNode :: "(nat \<Rightarrow> rat) \<Rightarrow> nat \<Rightarrow> bool list \<Rightarrow> bool \<Rightarrow> nat \<Rightarrow> (nat \<times> nat) option" where
  "findNode random n s b pos =
     (if state_at s (randomIndex (random pos) n) = Some b then findNode random n s b (pos + 1)
      else Some (randomIndex (random pos) n, pos + 1))"

text \<open>The bias towards the target; a division by zero is no number or infinite, and never above the target.\<close>

definition addOrRemove :: "nat \<Rightarrow> rat \<Rightarrow> NodeRunStateTestSpecificationEntry \<Rightarrow> rat \<Rightarrow> bool" where
  "addOrRemove n target e r =
     (let targetNumOfActive = \<lceil>of_nat n * target\<rceil>; missing = targetNumOfActive - int (countActiveNodes e) in
      targetNumOfActive \<noteq> 0 \<and> r + 2 * of_int missing / of_int targetNumOfActive > target)"

definition nextEntry :: "(nat \<Rightarrow> rat) \<Rightarrow> nat \<Rightarrow> rat \<Rightarrow> NodeRunStateTestSpecificationEntry \<Rightarrow> nat \<Rightarrow>
    (NodeRunStateTestSpecificationEntry \<times> nat) option" where
  "nextEntry random n target e pos =
     (let b = addOrRemove n target e (random pos) in
      map_option (\<lambda>(i, pos'). (\<lparr>states = set_state i b (states e), sleep = 1000\<rparr>, pos')) (findNode random n (states e) b (pos + 1)))"

fun random_walk :: "(nat \<Rightarrow> rat) \<Rightarrow> nat \<Rightarrow> rat \<Rightarrow> nat \<Rightarrow> NodeRunStateTestSpecificationEntry \<Rightarrow> nat \<Rightarrow>
    NodeRunStateTestSpecificationEntry list option" where
  "random_walk random n target 0 e pos = Some []"
| "random_walk random n target (Suc k) e pos = Option.bind (nextEntry random n target e pos)
     (\<lambda>(e', pos'). map_option ((#) e') (random_walk random n target k e' pos'))"

definition allOn :: "nat \<Rightarrow> NodeRunStateTestSpecificationEntry" where
  "allOn n = \<lparr>states = replicate n True, sleep = 1000\<rparr>"

definition generate :: "(nat \<Rightarrow> rat) \<Rightarrow> nat \<Rightarrow> nat \<Rightarrow> rat \<Rightarrow> NodeRunStateTestSpecificationEntry list option" where
  "generate random cnt n target = map_option ((#) (allOn n)) (random_walk random n target (cnt - 1) (allOn n) 0)"

section \<open>What a walk consists of\<close>

definition found :: "(nat \<Rightarrow> rat) \<Rightarrow> nat \<Rightarrow> bool list \<Rightarrow> bool \<Rightarrow> nat \<Rightarrow> nat \<times> nat \<Rightarrow> bool" where
  "found random n s b pos r \<longleftrightarrow> state_at s (fst r) \<noteq> Some b \<and> (\<exists>p \<ge> pos. fst r = randomIndex (random p) n)"

lemma findNode_result: "findNode random n s b pos = Some r \<Longrightarrow> found random n s b pos r"
proof (rule findNode.raw_induct [where P = found])
  fix find :: "(nat \<Rightarrow> rat) \<Rightarrow> nat \<Rightarrow> bool list \<Rightarrow> bool \<Rightarrow> nat \<Rightarrow> (nat \<times> nat) option" and random n s b pos r
  assume IH: "\<And>random n s b pos r. find random n s b pos = Some r \<Longrightarrow> found random n s b pos r"
    and step: "(if state_at s (randomIndex (random pos) n) = Some b then find random n s b (pos + 1)
      else Some (randomIndex (random pos) n, pos + 1)) = Some r"
  show "found random n s b pos r"
  proof (cases "state_at s (randomIndex (random pos) n) = Some b")
    case True
    then have "found random n s b (pos + 1) r" using step IH by simp
    then show ?thesis unfolding found_def by (meson le_add1 le_trans)
  next
    case False
    then show ?thesis using step by (auto simp: found_def)
  qed
qed

text \<open>When a differing node is drawn at some time, the search ends.\<close>

lemma findNode_ends:
  assumes "state_at s (randomIndex (random (pos + k)) n) \<noteq> Some b"
  shows "\<exists>r. findNode random n s b pos = Some r"
  using assms
proof (induction k arbitrary: pos)
  case (Suc k)
  show ?case
  proof (cases "state_at s (randomIndex (random pos) n) = Some b")
    case True
    have "\<exists>r. findNode random n s b (pos + 1) = Some r" using Suc.IH [of "pos + 1"] Suc.prems by simp
    then show ?thesis using True by (simp add: findNode.simps [of random n s b pos])
  qed (simp add: findNode.simps)
qed (simp add: findNode.simps)

text \<open>When no node differs, it does not.\<close>

lemma findNode_hangs:
  assumes "\<And>p. state_at s (randomIndex (random p) n) = Some b"
  shows "findNode random n s b pos = None"
  using findNode_result [of random n s b pos] assms by (cases "findNode random n s b pos") (auto simp: found_def)

definition fraction :: "(nat \<Rightarrow> rat) \<Rightarrow> bool" where
  "fraction random \<longleftrightarrow> (\<forall>p. 0 \<le> random p \<and> random p < 1)"

lemma randomIndex_less:
  assumes "fraction random" "0 < n"
  shows "randomIndex (random p) n < n"
proof -
  have "0 \<le> random p * of_nat n" "random p * of_nat n < of_nat n"
    using assms by (simp_all add: fraction_def)
  then show ?thesis by (simp add: randomIndex_def nat_less_iff floor_less_iff)
qed

text \<open>The entry after another one: one node has changed.\<close>

definition one_step :: "NodeRunStateTestSpecificationEntry \<Rightarrow> NodeRunStateTestSpecificationEntry \<Rightarrow> bool" where
  "one_step e e' \<longleftrightarrow> (\<exists>i < length (states e). states e' = (states e)[i := \<not> states e ! i])"

lemma nextEntry_step:
  assumes "nextEntry random n target e pos = Some (e', pos')" "fraction random" "0 < n" "length (states e) = n"
  shows "one_step e e' \<and> length (states e') = n"
proof -
  let ?b = "addOrRemove n target e (random pos)"
  from assms(1) obtain i where i: "findNode random n (states e) ?b (pos + 1) = Some (i, pos')"
    "states e' = set_state i ?b (states e)" by (auto simp: nextEntry_def Let_def)
  obtain p where "i = randomIndex (random p) n" "state_at (states e) i \<noteq> Some ?b"
    using findNode_result [OF i(1)] by (auto simp: found_def)
  then have "i < length (states e)" "?b = (\<not> states e ! i)"
    using randomIndex_less [OF assms(2,3)] assms(4) by (auto simp: state_at_def)
  then show ?thesis using i(2) assms(4) by (auto simp: one_step_def set_state_def)
qed

lemma walk_steps:
  assumes "random_walk random n target k e pos = Some es" "fraction random" "0 < n" "length (states e) = n"
  shows "length es = k \<and> successively one_step (e # es) \<and> (\<forall>x \<in> set es. length (states x) = n)"
  using assms(1,4)
proof (induction k arbitrary: e pos es)
  case (Suc k)
  from Suc.prems(1) obtain e' pos' es' where s: "nextEntry random n target e pos = Some (e', pos')"
    "random_walk random n target k e' pos' = Some es'" "es = e' # es'" by (auto simp: bind_eq_Some_conv)
  note step = nextEntry_step [OF s(1) assms(2,3) Suc.prems(2)]
  then show ?case using Suc.IH [OF s(2)] s(3) by simp
qed simp

text \<open>A generated specification begins with all nodes on, and each entry changes one node.\<close>

theorem generated_walk:
  assumes "generate random cnt n target = Some es" "fraction random" "0 < n" "0 < cnt"
  shows "length es = cnt \<and> states (hd es) = replicate n True \<and> successively one_step es \<and>
    (\<forall>e \<in> set es. length (states e) = n)"
proof -
  obtain es' where es': "random_walk random n target (cnt - 1) (allOn n) 0 = Some es'" "es = allOn n # es'"
    using assms(1) by (auto simp: generate_def)
  have "length (states (allOn n)) = n" by (simp add: allOn_def)
  from walk_steps [OF es'(1) assms(2,3) this] show ?thesis using es'(2) assms(4) by (simp add: allOn_def)
qed

section \<open>When the generator ends\<close>

lemma count_allOn [simp]: "countActiveNodes (allOn n) = n - 1"
  by (cases n) (simp_all add: countActiveNodes_def allOn_def)

text \<open>The number of nodes that the walk stays around, for two thirds of them.\<close>

lemma two_thirds: "3 * \<lceil>of_nat n * (2/3) :: rat\<rceil> \<le> 2 * int n + 2" "2 * int n \<le> 3 * \<lceil>of_nat n * (2/3) :: rat\<rceil>"
proof -
  define T where "T = \<lceil>of_nat n * (2/3) :: rat\<rceil>"
  have T: "of_int T < of_nat n * (2/3) + (1::rat)" "of_nat n * (2/3) \<le> (of_int T :: rat)"
    using ceiling_correct [of "of_nat n * (2/3) :: rat"] unfolding T_def [symmetric] by linarith+
  then have "(of_int (3 * T) :: rat) < of_int (2 * int n + 3)" "(of_int (2 * int n) :: rat) \<le> of_int (3 * T)" by simp_all
  then have "3 * T \<le> 2 * int n + 2" "2 * int n \<le> 3 * T" by linarith+
  then show "3 * \<lceil>of_nat n * (2/3) :: rat\<rceil> \<le> 2 * int n + 2" "2 * int n \<le> 3 * \<lceil>of_nat n * (2/3) :: rat\<rceil>"
    unfolding T_def by blast+
qed

text \<open>With six nodes or more, a walk never wants to switch on one more when all are on, nor off when all are off.\<close>

lemma all_on_removes:
  assumes "6 \<le> n" "r < 1" "countActiveNodes e = n - 1"
  shows "\<not> addOrRemove n (2/3) e r"
proof -
  define T where "T = \<lceil>of_nat n * (2/3) :: rat\<rceil>"
  have T: "3 * T \<le> 2 * int n + 2" "2 * int n \<le> 3 * T" using two_thirds [of n] unfolding T_def by blast+
  then have "7 * T \<le> 6 * (int n - 1)" "0 < T" using assms(1) by presburger+
  then have "(of_int (7 * T) :: rat) \<le> of_int (6 * (int n - 1))" "0 < (of_int T :: rat)" by (simp_all only: of_int_le_iff of_int_0_less_iff)
  then have "2 * of_int (T - int (n - 1)) / of_int T \<le> (- 1/3 :: rat)" using assms(1) by (simp add: field_simps)
  then have "r + 2 * of_int (T - int (n - 1)) / of_int T \<le> 2/3" using assms(2) by linarith
  then show ?thesis using assms(3) unfolding addOrRemove_def T_def [symmetric] Let_def by simp
qed

lemma all_off_adds:
  assumes "0 < n" "0 \<le> r" "countActiveNodes e = 0"
  shows "addOrRemove n (2/3) e r"
proof -
  define T where "T = \<lceil>of_nat n * (2/3) :: rat\<rceil>"
  have "2 * int n \<le> 3 * T" using two_thirds(2) [of n] unfolding T_def .
  then have "T \<noteq> 0" using assms(1) by linarith
  then show ?thesis using assms(2,3) unfolding addOrRemove_def T_def [symmetric] Let_def by simp
qed

lemma differing_node:
  assumes "6 \<le> n" "0 \<le> r" "r < 1" "length (states e) = n"
  shows "\<exists>i < n. state_at (states e) i \<noteq> Some (addOrRemove n (2/3) e r)"
proof (rule ccontr)
  assume "\<not> ?thesis"
  then have "states e = replicate n (addOrRemove n (2/3) e r)"
    using assms(4) by (intro nth_equalityI) (auto simp: state_at_def)
  then have "countActiveNodes e = (if addOrRemove n (2/3) e r then n - 1 else 0)"
    by (cases n) (simp_all add: countActiveNodes_def)
  then show False using all_on_removes [OF assms(1,3)] all_off_adds [of n r] assms(1,2) by (auto split: if_splits)
qed

text \<open>Every position is drawn again and again.\<close>

definition fair :: "nat \<Rightarrow> (nat \<Rightarrow> rat) \<Rightarrow> bool" where
  "fair n random \<longleftrightarrow> (\<forall>i < n. \<forall>p. \<exists>q \<ge> p. randomIndex (random q) n = i)"

lemma walk_ends:
  assumes "6 \<le> n" "fraction random" "fair n random" "length (states e) = n"
  shows "\<exists>es. random_walk random n (2/3) k e pos = Some es"
  using assms(4)
proof (induction k arbitrary: e pos)
  case (Suc k)
  let ?b = "addOrRemove n (2/3) e (random pos)"
  obtain i where "i < n" "state_at (states e) i \<noteq> Some ?b"
    using differing_node [OF assms(1) _ _ Suc.prems] assms(2) by (auto simp: fraction_def)
  moreover obtain q where "q \<ge> pos + 1" "randomIndex (random q) n = i" using assms(3) \<open>i < n\<close> by (auto simp: fair_def)
  ultimately have "state_at (states e) (randomIndex (random (pos + 1 + (q - (pos + 1)))) n) \<noteq> Some ?b" by simp
  then obtain j pos' where "findNode random n (states e) ?b (pos + 1) = Some (j, pos')"
    using findNode_ends [where pos = "pos + 1" and k = "q - (pos + 1)"] by (metis prod.collapse)
  then obtain e' where e': "nextEntry random n (2/3) e pos = Some (e', pos')" by (simp add: nextEntry_def)
  have "length (states e') = n" using nextEntry_step [OF e' assms(2) _ Suc.prems] assms(1) by simp
  then show ?case using Suc.IH [of e' pos'] e' by auto
qed simp

theorem generator_ends:
  assumes "6 \<le> n" "fraction random" "fair n random"
  shows "\<exists>es. generate random cnt n (2/3) = Some es"
  using walk_ends [OF assms, of "allOn n" "cnt - 1" 0] by (auto simp: generate_def allOn_def)

text \<open>With one or two nodes it never ends, with three to five it may not.\<close>

lemma wants_more:
  assumes "n \<in> {1, 2} \<or> n \<in> {3, 4, 5} \<and> r > 2/3" "0 \<le> r"
  shows "addOrRemove n (2/3) (allOn n) r"
proof -
  define T where "T = \<lceil>of_nat n * (2/3) :: rat\<rceil>"
  have "3 * T \<le> 2 * int n + 2" "2 * int n \<le> 3 * T" using two_thirds [of n] unfolding T_def by blast+
  then have "(n = 1 \<and> T = 1) \<or> (n = 2 \<and> T = 2) \<or> (r > 2/3 \<and> (n = 3 \<and> T = 2 \<or> n = 4 \<and> T = 3 \<or> n = 5 \<and> T = 4))"
    using assms(1) by auto
  then show ?thesis using assms(2) unfolding addOrRemove_def T_def [symmetric] Let_def by auto
qed

theorem generator_hangs:
  assumes "n \<in> {1, 2} \<or> n \<in> {3, 4, 5} \<and> random 0 > 2/3" "fraction random" "2 \<le> cnt"
  shows "generate random cnt n (2/3) = None"
proof -
  have "0 < n" using assms(1) by auto
  then have "state_at (states (allOn n)) (randomIndex (random p) n) = Some True" for p
    using randomIndex_less [OF assms(2)] by (simp add: state_at_def allOn_def)
  then have "findNode random n (states (allOn n)) True 1 = None" by (rule findNode_hangs)
  moreover have "addOrRemove n (2/3) (allOn n) (random 0)" using wants_more [OF assms(1)] assms(2) by (simp add: fraction_def)
  ultimately have "nextEntry random n (2/3) (allOn n) 0 = None" by (simp add: nextEntry_def Let_def)
  moreover obtain k where "cnt - 1 = Suc k" using assms(3) by (cases "cnt - 1") auto
  ultimately show ?thesis by (simp add: generate_def)
qed

section \<open>Executing a specification\<close>

text \<open>
  A step of the execution goes over the nodes by their number in the manager; node \<open>i + 2\<close> of the loop is
  made when the manager has no node of that number. A node that is stopped is left when its process has ended.
\<close>

definition stopAndWait :: "node_state \<Rightarrow> node_state result" where
  "stopAndWait n = await (stop_begin False n) (\<lambda>(call, n1).
     Inr (case childProcess n of Some p \<Rightarrow> close p n1 | None \<Rightarrow> n1))"

definition switchNode :: "bool \<Rightarrow> node_state \<Rightarrow> node_state result" where
  "switchNode on n =
     (if on then (if isStarted n then Inr n else start False n)
      else if isStarted n then stopAndWait n else Inr n)"

partial_function (option) nextLoop :: "node_infos option \<Rightarrow> bool list \<Rightarrow> nat \<Rightarrow> node_manager \<Rightarrow> node_manager result option" where
  "nextLoop infos s i m =
     (if i < length (nodeStates m) then
        (case getNode infos (i + 2) m of Inl e \<Rightarrow> Some (Inl e)
         | Inr (n, m1) \<Rightarrow> (case switchNode (state_at s i = Some True) n of Inl e \<Rightarrow> Some (Inl e)
             | Inr n1 \<Rightarrow> nextLoop infos s (i + 1) (set_node (i + 2) n1 m1)))
      else Some (Inr m))"

record executer =
  entries :: "NodeRunStateTestSpecificationEntry list"
  currentStep :: nat
  ex_manager :: node_manager

definition finished :: "executer \<Rightarrow> bool" where
  "finished x \<longleftrightarrow> currentStep x \<ge> length (entries x)"

definition next_step :: "node_infos option \<Rightarrow> executer \<Rightarrow> (bool \<times> executer) result option" where
  "next_step infos x =
     (if currentStep x \<ge> length (entries x) then Some (Inl (Thrown ''No more steps to execute, check finished() method.''))
      else let e = entries x ! currentStep x in
        map_option (\<lambda>r. await r (\<lambda>m.
          Inr (hbbftTreshholdReached e (2/3), x\<lparr>currentStep := currentStep x + 1, ex_manager := m\<rparr>)))
          (nextLoop infos (states e) 0 (ex_manager x)))"

text \<open>
  Asking for a node that does not exist makes it, so that the loop never reaches the end of the nodes: a step
  over any node at all does not end, unless switching a node throws.
\<close>

definition switches :: "node_manager \<Rightarrow> bool" where
  "switches m \<longleftrightarrow> (\<forall>n \<in> set (nodeStates m). isStarted n \<longrightarrow> childProcess n \<noteq> None)"

lemma switchNode_total: "(isStarted n \<longrightarrow> childProcess n \<noteq> None) \<Longrightarrow> \<exists>n1. switchNode on n = Inr n1"
  by (auto simp: switchNode_def start_def stopAndWait_def stop_begin_def)

lemma run_listener_child: "childProcess n \<noteq> None \<Longrightarrow> childProcess (run_listener l n) \<noteq> None"
  by (cases l) (auto simp: start_def spawn_def)

lemma close_child:
  assumes "childProcess n \<noteq> None"
  shows "childProcess (close p n) \<noteq> None"
proof -
  have "childProcess (foldl (\<lambda>n l. run_listener l n) m ls) \<noteq> None" if "childProcess m \<noteq> None" for m ls
    using that
  proof (induction ls arbitrary: m)
    case (Cons l ls)
    then show ?case using run_listener_child [OF Cons.prems, of l] by simp
  qed simp
  then show ?thesis using assms by (simp add: close_def update_process_def)
qed

lemma switchNode_child:
  assumes "isStarted n \<longrightarrow> childProcess n \<noteq> None" "switchNode on n = Inr n1"
  shows "isStarted n1 \<longrightarrow> childProcess n1 \<noteq> None"
proof (cases "on \<or> \<not> isStarted n")
  case True
  then show ?thesis using assms by (auto simp: switchNode_def start_def spawn_def split: if_splits)
next
  case False
  then obtain p call n2 where p: "childProcess n = Some p" "stop_begin False n = Inr (call, n2)" "n1 = close p n2"
    using assms by (auto simp: switchNode_def stopAndWait_def result_simps)
  then have "childProcess n2 \<noteq> None" by (auto simp: stop_begin_def update_process_def split: if_splits)
  then show ?thesis using p(3) close_child by simp
qed

lemma getNode_more:
  assumes "getNode infos (i + 2) m = Inr (n, m1)" "switches m"
  shows "length (nodeStates m1) = max (length (nodeStates m)) (i + 2)" "switches m1" "isStarted n \<longrightarrow> childProcess n \<noteq> None"
proof -
  have m1: "nodeStates m1 = nodeStates m @ map (newState infos) [length (nodeStates m)..<i + 2]" "n = nodeStates m1 ! (i + 1)"
    using assms(1) by (auto simp: getNode_def ensureNodeStates_def Let_def)
  then show l: "length (nodeStates m1) = max (length (nodeStates m)) (i + 2)" by simp
  show "switches m1" using assms(2) m1(1) by (auto simp: switches_def newState_def new_NodeState_def)
  then show "isStarted n \<longrightarrow> childProcess n \<noteq> None" using m1(2) l by (auto simp: switches_def)
qed

definition at_end :: "node_infos option \<Rightarrow> bool list \<Rightarrow> nat \<Rightarrow> node_manager \<Rightarrow> node_manager result \<Rightarrow> bool" where
  "at_end infos s i m r \<longleftrightarrow> \<not> (i < length (nodeStates m) \<and> switches m)"

lemma nextLoop_end: "nextLoop infos s i m = Some r \<Longrightarrow> at_end infos s i m r"
proof (rule nextLoop.raw_induct [where P = at_end])
  fix loop :: "node_infos option \<Rightarrow> bool list \<Rightarrow> nat \<Rightarrow> node_manager \<Rightarrow> node_manager result option" and infos s i m r
  assume IH: "\<And>infos s i m r. loop infos s i m = Some r \<Longrightarrow> at_end infos s i m r"
    and step: "(if i < length (nodeStates m) then
        (case getNode infos (i + 2) m of Inl e \<Rightarrow> Some (Inl e)
         | Inr (n, m1) \<Rightarrow> (case switchNode (state_at s i = Some True) n of Inl e \<Rightarrow> Some (Inl e)
             | Inr n1 \<Rightarrow> loop infos s (i + 1) (set_node (i + 2) n1 m1)))
      else Some (Inr m)) = Some r"
  show "at_end infos s i m r" unfolding at_end_def
  proof
    assume a: "i < length (nodeStates m) \<and> switches m"
    obtain n m1 where g: "getNode infos (i + 2) m = Inr (n, m1)" by (simp add: getNode_def Let_def)
    note more = getNode_more [OF g a [THEN conjunct2]]
    obtain n1 where n1: "switchNode (state_at s i = Some True) n = Inr n1" using switchNode_total [OF more(3)] by blast
    have "switches (set_node (i + 2) n1 m1)" using more(2) switchNode_child [OF more(3) n1]
      by (auto simp: switches_def set_node_def dest!: set_update_subset_insert [THEN subsetD])
    moreover have "i + 1 < length (nodeStates (set_node (i + 2) n1 m1))" using more(1) by (simp add: set_node_def)
    moreover have "loop infos s (i + 1) (set_node (i + 2) n1 m1) = Some r" using step a g n1 by simp
    ultimately show False using IH unfolding at_end_def by blast
  qed
qed

theorem step_never_ends:
  assumes "nodeStates (ex_manager x) \<noteq> []" "switches (ex_manager x)" "\<not> finished x"
  shows "next_step infos x = None"
proof -
  have "nextLoop infos (states (entries x ! currentStep x)) 0 (ex_manager x) = None"
    using nextLoop_end [of infos _ 0 "ex_manager x"] assms(1,2)
    by (cases "nextLoop infos (states (entries x ! currentStep x)) 0 (ex_manager x)") (auto simp: at_end_def)
  then show ?thesis using assms(3) by (simp add: next_step_def finished_def Let_def)
qed

section \<open>Samples\<close>

definition sample_executer :: executer where
  "sample_executer = \<lparr>entries = [allOn 1], currentStep = 0,
     ex_manager = \<lparr>nodeStates = [new_NodeState 1 None None], rpcNode = None\<rparr>\<rparr>"

theorem step_never_ends_witness: "next_step None sample_executer = None"
  by (rule step_never_ends) (simp_all add: sample_executer_def switches_def new_NodeState_def finished_def)

text \<open>Numbers that draw each of six positions in turn.\<close>

definition sample_random :: "nat \<Rightarrow> rat" where
  "sample_random p = of_nat (p mod 6) / 6"

lemma sample_index: "randomIndex (sample_random p) 6 = p mod 6"
  by (simp add: randomIndex_def sample_random_def)

lemma sample_fair: "fraction sample_random" "fair 6 sample_random"
proof -
  have "(of_nat (p mod 6) :: rat) < of_nat 6" for p unfolding of_nat_less_iff by simp
  then show "fraction sample_random" by (simp add: fraction_def sample_random_def)
  have "\<exists>q \<ge> p. q mod 6 = i" if "i < 6" for i p :: nat
    using that by (intro exI [of _ "6 * p + i"]) simp
  then show "fair 6 sample_random" by (simp add: fair_def sample_index)
qed

theorem generator_ends_witness: "\<exists>es. generate sample_random 10 6 (2/3) = Some es"
  by (rule generator_ends [OF _ sample_fair]) simp

theorem generator_hangs_witness: "generate (\<lambda>p. 3/4) 2 4 (2/3) = None"
  by (rule generator_hangs) (simp_all add: fraction_def)

theorem generated_walk_witness:
  "\<exists>es. generate sample_random 3 6 (2/3) = Some es \<and> length es = 3 \<and> states (hd es) = replicate 6 True"
proof -
  obtain es where es: "generate sample_random 3 6 (2/3) = Some es" using generator_ends [OF _ sample_fair, of 3] by auto
  then show ?thesis using generated_walk [OF es sample_fair(1)] by simp
qed

end
