(* ===== verification/RemoteFiles.thy ===== *)
theory RemoteFiles imports Config begin

text \<open>
  Changes on the remote nodes: the edits of their configuration files (src/src/remotenet/runManipulateToml.ts)
  and the commands on some or all of them (src/src/remotenet/executeOnRemotes.ts). The files are a map from
  the names for ssh to the texts; whether a copy by \<open>scp\<close> succeeds is a parameter, since the code does
  not look at it. The nodes that the command line selects are an argument (see \<open>RemoteSelection\<close>).
\<close>

section \<open>Replacing a part of a text\<close>

text \<open>\<open>String.prototype.replace\<close> with a text: the first occurrence.\<close>

fun replaceFirst :: "string \<Rightarrow> string \<Rightarrow> string \<Rightarrow> string" where
  "replaceFirst old new [] = (if old = [] then new else [])"
| "replaceFirst old new (c # s) =
     (if prefix old (c # s) then new @ drop (length old) (c # s) else c # replaceFirst old new s)"

lemma replaceFirst_none: "\<not> occursIn old s \<Longrightarrow> replaceFirst old new s = s"
proof (induction s)
  case (Cons c s)
  then have "\<not> prefix old (c # s)" "\<not> occursIn old s"
    by (auto simp: occursIn_def prefix_imp_sublist sublist_Cons_right)
  then show ?case using Cons by simp
qed (simp add: occursIn_def)

lemma replaceFirst_prefix: "prefix old s \<Longrightarrow> replaceFirst old new s = new @ drop (length old) s"
  by (cases s) auto

lemma replaceFirst_some:
  assumes "occursIn old s"
  shows "\<exists>a b. s = a @ old @ b \<and> replaceFirst old new s = a @ new @ b"
  using assms
proof (induction s)
  case (Cons c s)
  show ?case
  proof (cases "prefix old (c # s)")
    case True
    then obtain b where b: "c # s = old @ b" by (auto simp: prefix_def)
    then have "replaceFirst old new (c # s) = new @ b" using replaceFirst_prefix [OF True] by simp
    then show ?thesis using b by (intro exI [of _ "[]"] exI [of _ b]) simp
  next
    case False
    then have "occursIn old s" using Cons.prems by (auto simp: occursIn_def sublist_Cons_right)
    then obtain a b where "s = a @ old @ b" "replaceFirst old new s = a @ new @ b" using Cons.IH by blast
    then show ?thesis using False by (intro exI [of _ "c # a"] exI [of _ b]) simp
  qed
qed (simp add: occursIn_def)

text \<open>Putting a text behind the first occurrence, twice.\<close>

lemma replaceFirst_again:
  assumes "occursIn old s"
  shows "\<exists>a b. s = a @ old @ b \<and> replaceFirst old (old @ x) s = a @ old @ x @ b \<and>
    replaceFirst old (old @ x) (replaceFirst old (old @ x) s) = a @ old @ x @ x @ b"
  using assms
proof (induction s)
  case Nil
  then show ?case by (simp add: occursIn_def replaceFirst_prefix)
next
  case (Cons c s)
  show ?case
  proof (cases "prefix old (c # s)")
    case True
    then obtain b where b: "c # s = old @ b" by (auto simp: prefix_def)
    have "replaceFirst old (old @ x) (old @ b) = old @ x @ b" "replaceFirst old (old @ x) (old @ x @ b) = old @ x @ x @ b"
      by (simp_all add: replaceFirst_prefix)
    then show ?thesis unfolding b by (intro exI [of _ "[]"] exI [of _ b]) simp
  next
    case False
    then have "occursIn old s" using Cons.prems by (auto simp: occursIn_def sublist_Cons_right)
    then obtain a b where ab: "s = a @ old @ b" "replaceFirst old (old @ x) s = a @ old @ x @ b"
      "replaceFirst old (old @ x) (replaceFirst old (old @ x) s) = a @ old @ x @ x @ b" using Cons.IH by blast
    have "take (length old) (c # a @ old @ x @ b) = take (length old) (c # s)" by (simp add: ab(1) take_Cons')
    then have "\<not> prefix old (c # a @ old @ x @ b)" using False by (metis prefix_order.dual_order.trans append_eq_conv_conj prefix_def take_is_prefix)
    then show ?thesis using False ab by (intro exI [of _ "c # a"] exI [of _ b]) simp
  qed
qed

section \<open>Edits of the files\<close>

type_synonym remote_files = "string \<Rightarrow> string option"

text \<open>The host is the fourth argument of ssh.\<close>

definition catFile :: "remote_files \<Rightarrow> string list \<Rightarrow> string result" where
  "catFile files args = (case files (args ! 3) of Some t \<Rightarrow> Inr t | None \<Rightarrow> Inl (CallFailed ''ssh''))"

definition pathToToml :: "string \<Rightarrow> string" where
  "pathToToml dir = ''~/'' @ dir @ ''/validator_node.toml''"

text \<open>An edit gives the new text, or nothing when the node is skipped.\<close>

definition editNode :: "(string \<Rightarrow> bool) \<Rightarrow> string \<Rightarrow> (string \<Rightarrow> string option) \<Rightarrow> node_state \<Rightarrow> remote_files \<Rightarrow> remote_files result" where
  "editNode scp dir edit n files =
     await (cmdR (catFile files) (sshNodeName n) (''cat '' @ pathToToml dir) False) (\<lambda>body.
     Inr (case edit body of None \<Rightarrow> files
       | Some new \<Rightarrow> if scp (sshNodeName n) then files(sshNodeName n \<mapsto> new) else files))"

definition valueToAdd :: string where
  "valueToAdd = ''tx_queue_per_sender = 2000''"

definition addAfter :: string where
  "addAfter = ''reseal_on_txs = '' @ [CHR 0x22] @ ''none'' @ [CHR 0x22]"

definition newline :: string where
  "newline = [CHR 0x0A]"

definition addEdit :: "string \<Rightarrow> string option" where
  "addEdit body = (if occursIn valueToAdd body then None
     else Some (replaceFirst addAfter (addAfter @ newline @ valueToAdd) body))"

definition runAdd :: "(string \<Rightarrow> bool) \<Rightarrow> string \<Rightarrow> node_state list \<Rightarrow> remote_files \<Rightarrow> remote_files result" where
  "runAdd scp dir nodes = forM nodes (editNode scp dir addEdit)"

definition replaceEdit :: "string \<Rightarrow> string \<Rightarrow> string \<Rightarrow> string option" where
  "replaceEdit valueOld valueNew body = (if occursIn valueOld body then Some (replaceFirst valueOld valueNew body) else None)"

definition runReplace :: "(string \<Rightarrow> bool) \<Rightarrow> string \<Rightarrow> string \<Rightarrow> string \<Rightarrow> node_state list \<Rightarrow> remote_files \<Rightarrow> remote_files result" where
  "runReplace scp dir valueOld valueNew nodes = forM nodes (editNode scp dir (replaceEdit valueOld valueNew))"

definition misc_section :: string where
  "misc_section = ''[misc]''"

definition shutdown_line :: string where
  "shutdown_line = ''shutdown_on_missing_block_import = 900''"

definition runActivatenshutdown :: "(string \<Rightarrow> bool) \<Rightarrow> string \<Rightarrow> node_state list \<Rightarrow> remote_files \<Rightarrow> remote_files result" where
  "runActivatenshutdown scp dir =
     runReplace scp dir misc_section (misc_section @ newline @ shutdown_line)"

text \<open>A loop of edits that change no text leaves the files.\<close>

lemma cat_read: "cmdR (catFile files) host c False = Inr body \<longleftrightarrow> SSH_HOST_RE host \<and> files host = Some body"
  by (cases "files host") (simp_all add: cmdR_def catFile_def assertValidSshHost_def)

lemma editNode_cases:
  "editNode scp dir edit n files = Inr files' \<longleftrightarrow> SSH_HOST_RE (sshNodeName n) \<and>
   (\<exists>body. files (sshNodeName n) = Some body \<and> files' = (case edit body of None \<Rightarrow> files
       | Some new \<Rightarrow> if scp (sshNodeName n) then files(sshNodeName n \<mapsto> new) else files))"
  unfolding editNode_def await_Inr_iff cat_read by (auto split: option.split)

lemma editNode_host:
  assumes "editNode scp dir edit n files = Inr files'"
  shows "\<exists>body. files (sshNodeName n) = Some body \<and>
     (files' = files \<or> (\<exists>new. edit body = Some new \<and> files' = files(sshNodeName n \<mapsto> new))) \<and>
     (scp (sshNodeName n) \<longrightarrow> files' (sshNodeName n) = Some (case edit body of None \<Rightarrow> body | Some new \<Rightarrow> new))"
proof -
  obtain body where t: "files (sshNodeName n) = Some body" "files' = (case edit body of None \<Rightarrow> files
       | Some new \<Rightarrow> if scp (sshNodeName n) then files(sshNodeName n \<mapsto> new) else files)"
    using assms unfolding editNode_cases by blast
  then show ?thesis by (cases "edit body") auto
qed

lemma editNode_settled:
  assumes "SSH_HOST_RE (sshNodeName n)" "files (sshNodeName n) = Some body" "edit body = None \<or> edit body = Some body"
  shows "editNode scp dir edit n files = Inr files"
  unfolding editNode_cases using assms by (auto simp: fun_upd_idem)

lemma editNode_valid: "editNode scp dir edit n files = Inr files' \<Longrightarrow> SSH_HOST_RE (sshNodeName n)"
  unfolding editNode_cases by blast

lemma edits_settled:
  assumes "\<forall>n \<in> set nodes. SSH_HOST_RE (sshNodeName n) \<and>
    (\<exists>body. files (sshNodeName n) = Some body \<and> (edit body = None \<or> edit body = Some body))"
  shows "forM nodes (editNode scp dir edit) files = Inr files"
  using assms by (induction nodes) (auto simp: editNode_settled)

text \<open>After a run, each node has a text that the edit leaves as it is.\<close>

definition settles :: "(string \<Rightarrow> string option) \<Rightarrow> bool" where
  "settles edit \<longleftrightarrow> (\<forall>body new. edit body = Some new \<longrightarrow> edit new = None \<or> edit new = Some new)"

definition settled :: "(string \<Rightarrow> string option) \<Rightarrow> remote_files \<Rightarrow> string \<Rightarrow> bool" where
  "settled edit files host \<longleftrightarrow> (\<exists>body. files host = Some body \<and> (edit body = None \<or> edit body = Some body))"

lemma editNode_settles:
  assumes "editNode scp dir edit n files = Inr files'" "settles edit" "scp (sshNodeName n)"
  shows "settled edit files' (sshNodeName n)" "settled edit files host \<Longrightarrow> settled edit files' host"
proof -
  obtain body where t: "files (sshNodeName n) = Some body"
    "files' = files \<or> (\<exists>new. edit body = Some new \<and> files' = files(sshNodeName n \<mapsto> new))"
    "files' (sshNodeName n) = Some (case edit body of None \<Rightarrow> body | Some new \<Rightarrow> new)"
    using editNode_host [OF assms(1)] assms(3) by blast
  show here: "settled edit files' (sshNodeName n)"
    using t(3) assms(2) by (cases "edit body") (auto simp: settled_def settles_def)
  show "settled edit files' host" if "settled edit files host"
    using that t(2) here by (cases "host = sshNodeName n") (auto simp: settled_def)
qed

lemma edits_settle:
  assumes "forM nodes (editNode scp dir edit) files = Inr files'" "settles edit" "\<forall>h. scp h"
  shows "\<forall>n \<in> set nodes. SSH_HOST_RE (sshNodeName n) \<and> settled edit files' (sshNodeName n)"
  using assms(1)
proof (induction nodes arbitrary: files)
  case (Cons n nodes)
  then obtain files1 where f: "editNode scp dir edit n files = Inr files1" "forM nodes (editNode scp dir edit) files1 = Inr files'"
    by (auto simp: result_simps)
  have "settled edit files' (sshNodeName n)"
  proof (rule forM_invariant [OF f(2), of "\<lambda>fs. settled edit fs (sshNodeName n)"])
    show "settled edit files1 (sshNodeName n)" using editNode_settles(1) [OF f(1) assms(2)] assms(3) by simp
  qed (use editNode_settles(2) assms(2,3) in blast)
  then show ?case using Cons.IH [OF f(2)] editNode_valid [OF f(1)] by simp
qed simp

lemma edits_twice:
  assumes "forM nodes (editNode scp dir edit) files = Inr files'" "settles edit" "\<forall>h. scp h"
  shows "forM nodes (editNode scp dir edit) files' = Inr files'"
  using edits_settle [OF assms] by (intro edits_settled) (auto simp: settled_def)

lemma addEdit_settles: "settles addEdit"
  unfolding settles_def
proof (intro allI impI)
  fix body new assume e: "addEdit body = Some new"
  show "addEdit new = None \<or> addEdit new = Some new"
  proof (cases "occursIn addAfter body")
    case True
    then obtain a b where "replaceFirst addAfter (addAfter @ newline @ valueToAdd) body = a @ (addAfter @ newline @ valueToAdd) @ b"
      using replaceFirst_some by blast
    then have "new = (a @ addAfter @ newline) @ valueToAdd @ b" using e by (auto simp: addEdit_def split: if_splits)
    then have "occursIn valueToAdd new" unfolding occursIn_def sublist_def by blast
    then show ?thesis by (simp add: addEdit_def)
  next
    case False
    then show ?thesis using e replaceFirst_none by (auto simp: addEdit_def split: if_splits)
  qed
qed

text \<open>Adding the line a second time changes no file.\<close>

theorem runAdd_twice:
  assumes "runAdd scp dir nodes files = Inr files'" "\<forall>h. scp h"
  shows "runAdd scp dir nodes files' = Inr files'"
  using edits_twice [OF assms(1) [unfolded runAdd_def] addEdit_settles assms(2)] by (simp add: runAdd_def)

text \<open>The line for the shutdown is added by every run: the file has it twice after two runs.\<close>

theorem shutdown_line_added_again:
  assumes "runActivatenshutdown scp dir [n] files = Inr files'" "runActivatenshutdown scp dir [n] files' = Inr files''"
    "files (sshNodeName n) = Some body" "occursIn misc_section body" "scp (sshNodeName n)"
  shows "\<exists>a b. body = a @ misc_section @ b \<and> files'' (sshNodeName n) =
    Some (a @ misc_section @ newline @ shutdown_line @ newline @ shutdown_line @ b)"
proof -
  let ?x = "newline @ shutdown_line"
  obtain a b where ab: "body = a @ misc_section @ b" "replaceFirst misc_section (misc_section @ ?x) body = a @ misc_section @ ?x @ b"
    "replaceFirst misc_section (misc_section @ ?x) (a @ misc_section @ ?x @ b) = a @ misc_section @ ?x @ ?x @ b"
    using replaceFirst_again [OF assms(4), of ?x] by metis
  have step: "editNode scp dir (replaceEdit misc_section (misc_section @ ?x)) n f = Inr f' \<Longrightarrow> f (sshNodeName n) = Some t \<Longrightarrow>
      f' (sshNodeName n) = Some (case replaceEdit misc_section (misc_section @ ?x) t of None \<Rightarrow> t | Some new \<Rightarrow> new)" for f f' t
    using editNode_host assms(5) by fastforce
  have "files' (sshNodeName n) = Some (a @ misc_section @ ?x @ b)"
    using step [of files files' body] assms(1,3,4) ab(2) by (simp add: runActivatenshutdown_def runReplace_def replaceEdit_def result_simps)
  moreover have "occursIn misc_section (a @ misc_section @ ?x @ b)" by (auto simp: occursIn_def sublist_def)
  ultimately have "files'' (sshNodeName n) = Some (a @ misc_section @ ?x @ ?x @ b)"
    using step [of files' files''] assms(2) ab(3) by (simp add: runActivatenshutdown_def runReplace_def replaceEdit_def result_simps)
  then show ?thesis using ab(1) by auto
qed

section \<open>Commands on several nodes\<close>

text \<open>
  A run of a command: the hosts on which it was started, in order. An error of a command is caught. With the
  nodes of the command line, the name of the host is built in the same way.
\<close>

definition executeOnRemotes :: "(string list \<Rightarrow> string result) \<Rightarrow> string \<Rightarrow> node_state list \<Rightarrow> (string \<times> string result) list" where
  "executeOnRemotes exec shellCommand nodes =
     map (\<lambda>n. (''hbbft'' @ decimal (nodeID n), cmdR exec (''hbbft'' @ decimal (nodeID n)) shellCommand False)) nodes"

definition clearDBRemote :: "environment \<Rightarrow> (string list \<Rightarrow> string result) \<Rightarrow> node_state \<Rightarrow> config_state \<Rightarrow> unit result \<times> config_state" where
  "clearDBRemote env exec n s = (case getRemoteInstallDir env s of (dir, s1) \<Rightarrow>
     (await dir (\<lambda>d. await (cmdR exec (sshNodeName n) (''cd '' @ d @ '' && ./reset.sh'') False) (\<lambda>t. Inr ())), s1))"

text \<open>
  \<open>executeOnAllRemotes\<close>: \<open>available\<close> is the answer of the chain. The address of a validator is only used
  to print a line.
\<close>

fun executeAll :: "node_infos option \<Rightarrow> (string \<Rightarrow> bool result) \<Rightarrow> bool \<Rightarrow> string option \<Rightarrow> nat list \<Rightarrow> node_manager \<Rightarrow>
    string list \<times> node_manager result" where
  "executeAll infos available onlyUnavailable miningAddress [] m = ([], Inr m)"
| "executeAll infos available onlyUnavailable miningAddress (i # is') m =
     (case (if onlyUnavailable \<or> miningAddress \<noteq> None
            then await (getNode infos i m) (\<lambda>(n, m1).
              if onlyUnavailable then (case truthy (node_address n) of Some a \<Rightarrow> await (available a) (\<lambda>b. Inr (\<not> b, m1))
                | None \<Rightarrow> Inr (True, m1))
              else Inr (True, m1))
            else Inr (True, m)) of
        Inl e \<Rightarrow> ([], Inl e)
      | Inr (run, m1) \<Rightarrow> (case executeAll infos available onlyUnavailable miningAddress is' m1 of
          (hosts, r) \<Rightarrow> (if run then (''hbbft'' @ decimal i) # hosts else hosts, r)))"

definition executeOnAllRemotes :: "node_infos option \<Rightarrow> (string \<Rightarrow> bool result) \<Rightarrow> nat option \<Rightarrow> bool \<Rightarrow> string option \<Rightarrow> node_manager \<Rightarrow>
    string list \<times> node_manager result" where
  "executeOnAllRemotes infos available numberOfNodes onlyUnavailable miningAddress m =
     executeAll infos available onlyUnavailable (truthy miningAddress)
       [1..<(case numberOfNodes of Some k \<Rightarrow> k | None \<Rightarrow> length (nodeStates m)) + 1] m"

text \<open>Nodes that are there stay as they are when one of them is looked up.\<close>

lemma getNode_known:
  "1 \<le> i \<Longrightarrow> i \<le> length (nodeStates m) \<Longrightarrow> getNode infos i m = Inr (nodeStates m ! (i - 1), m)"
  by (simp add: getNode_def ensureNodeStates_def)

lemma executeAll_every:
  assumes "\<forall>i \<in> set ids. 1 \<le> i \<and> i \<le> length (nodeStates m)"
  shows "executeAll infos available False addr ids m = (map (\<lambda>i. ''hbbft'' @ decimal i) ids, Inr m)"
  using assms by (induction ids) (cases addr, simp_all add: getNode_known)+

text \<open>A command for the node of one validator is run on every node.\<close>

theorem validator_not_selected:
  "executeOnAllRemotes infos available None False addr m = (map (\<lambda>i. ''hbbft'' @ decimal i) [1..<length (nodeStates m) + 1], Inr m)"
  unfolding executeOnAllRemotes_def by (simp only: option.case) (rule executeAll_every, auto)

text \<open>With the restriction, it is run on the nodes that the chain does not have as available.\<close>

definition unavailable :: "(string \<Rightarrow> bool result) \<Rightarrow> node_state \<Rightarrow> bool" where
  "unavailable available n = (case truthy (node_address n) of Some a \<Rightarrow> available a \<noteq> Inr True | None \<Rightarrow> True)"

lemma executeAll_unavailable:
  assumes "\<forall>i \<in> set ids. 1 \<le> i \<and> i \<le> length (nodeStates m)" "\<And>a. \<not> isl (available a)"
  shows "executeAll infos available True addr ids m =
     (map (\<lambda>i. ''hbbft'' @ decimal i) (filter (\<lambda>i. unavailable available (nodeStates m ! (i - 1))) ids), Inr m)"
  using assms(1)
proof (induction ids)
  case (Cons i ids)
  have g: "getNode infos i m = Inr (nodeStates m ! (i - 1), m)" using Cons.prems by (simp add: getNode_known)
  have rest: "executeAll infos available True addr ids m =
     (map (\<lambda>i. ''hbbft'' @ decimal i) (filter (\<lambda>i. unavailable available (nodeStates m ! (i - 1))) ids), Inr m)"
    using Cons by simp
  show ?case
  proof (cases "truthy (node_address (nodeStates m ! (i - 1)))")
    case None
    then show ?thesis using g rest by (simp add: unavailable_def)
  next
    case (Some a)
    obtain b where "available a = Inr b" using assms(2) [of a] by (cases "available a") auto
    then show ?thesis using Some g rest by (simp add: unavailable_def)
  qed
qed simp

theorem only_unavailable_nodes:
  assumes "\<And>a. \<not> isl (available a)"
  shows "executeOnAllRemotes infos available None True addr m =
     (map (\<lambda>i. ''hbbft'' @ decimal i)
        (filter (\<lambda>i. unavailable available (nodeStates m ! (i - 1))) [1..<length (nodeStates m) + 1]), Inr m)"
  unfolding executeOnAllRemotes_def by (simp only: option.case) (rule executeAll_unavailable, use assms in auto)

section \<open>Samples\<close>

definition sample_remote :: remote_files where
  "sample_remote = [''hbbft1'' \<mapsto> ''[misc]'' @ newline]"

definition sample_remote_node :: node_state where
  "sample_remote_node = new_NodeState 1 None None"

lemma sample_host: "sshNodeName sample_remote_node = ''hbbft1''" "SSH_HOST_RE ''hbbft1''"
  by code_simp+

theorem runAdd_twice_witness:
  "runAdd (\<lambda>h. True) ''node'' [sample_remote_node] sample_remote = Inr sample_remote"
proof -
  have "addEdit (''[misc]'' @ newline) = Some (''[misc]'' @ newline)" by code_simp
  then have "runAdd (\<lambda>h. True) ''node'' [sample_remote_node] sample_remote = Inr sample_remote"
    by (simp add: runAdd_def editNode_settled sample_host sample_remote_def)
  from runAdd_twice [OF this] show ?thesis by simp
qed

theorem shutdown_line_added_again_witness:
  "\<exists>files' files'' a b. runActivatenshutdown (\<lambda>h. True) ''node'' [sample_remote_node] sample_remote = Inr files' \<and>
     runActivatenshutdown (\<lambda>h. True) ''node'' [sample_remote_node] files' = Inr files'' \<and>
     files'' ''hbbft1'' = Some (a @ misc_section @ newline @ shutdown_line @ newline @ shutdown_line @ b)"
proof -
  let ?edit = "replaceEdit misc_section (misc_section @ newline @ shutdown_line)"
  have run: "runActivatenshutdown (\<lambda>h. True) ''node'' [sample_remote_node] f = editNode (\<lambda>h. True) ''node'' ?edit sample_remote_node f" for f
    unfolding runActivatenshutdown_def runReplace_def by (cases "editNode (\<lambda>h. True) ''node'' ?edit sample_remote_node f") simp_all
  have ok: "\<exists>f'. editNode (\<lambda>h. True) ''node'' ?edit sample_remote_node f = Inr f' \<and> f' ''hbbft1'' \<noteq> None" if ne: "f ''hbbft1'' \<noteq> None" for f
  proof -
    obtain body where body: "f ''hbbft1'' = Some body" using ne by (cases "f ''hbbft1''") simp_all
    then have "editNode (\<lambda>h. True) ''node'' ?edit sample_remote_node f =
        Inr (case ?edit body of None \<Rightarrow> f | Some new \<Rightarrow> f(''hbbft1'' \<mapsto> new))"
      unfolding editNode_cases sample_host(1) by (simp add: sample_host(2) split: option.split)
    then show ?thesis using body by (cases "?edit body") simp_all
  qed
  obtain f1 where f1: "editNode (\<lambda>h. True) ''node'' ?edit sample_remote_node sample_remote = Inr f1" "f1 ''hbbft1'' \<noteq> None"
    using ok [of sample_remote] by (auto simp: sample_remote_def)
  obtain f2 where f2: "editNode (\<lambda>h. True) ''node'' ?edit sample_remote_node f1 = Inr f2" using ok [of f1] f1(2) by blast
  have "occursIn misc_section (''[misc]'' @ newline)" by code_simp
  then obtain a b where "f2 (sshNodeName sample_remote_node) =
      Some (a @ misc_section @ newline @ shutdown_line @ newline @ shutdown_line @ b)"
    using shutdown_line_added_again [of "\<lambda>h. True" "''node''" sample_remote_node sample_remote f1 f2 "''[misc]'' @ newline"] f1(1) f2
    unfolding run by (auto simp: sample_host sample_remote_def)
  then show ?thesis unfolding run using f1(1) f2 sample_host(1) by auto
qed

end
