(* ===== verification/LogPages.thy ===== *)
theory LogPages imports LocalNets RemoteFiles begin

text \<open>
  The log of the watchdog's server as a page (src/src/server/LogToHtmlAdapter.ts) and the names of the files
  that the tools write (src/src/logFileManager.ts). The printing of values, the conversion of colours and
  the time are parameters. An append that fails is left out: the adapter only reports it.
\<close>

section \<open>The adapter\<close>

record adapter =
  logs :: "string list"
  printTimestamp :: bool
  storageFile :: "string option"
  stored :: string

text \<open>\<open>stored\<close> is the content of the storage file.\<close>

definition load :: "adapter \<Rightarrow> adapter" where
  "load a = a\<lparr>logs := split_at (CHR 0x0A) (stored a)\<rparr>"

definition new_adapter :: "bool \<Rightarrow> string option \<Rightarrow> string \<Rightarrow> adapter" where
  "new_adapter timestamps file content =
     (let a = \<lparr>logs = [], printTimestamp = timestamps, storageFile = file, stored = content\<rparr> in
      if truthy file = None then a else load a)"

definition writeHtmlMessage :: "string \<Rightarrow> adapter \<Rightarrow> adapter" where
  "writeHtmlMessage html a =
     (if truthy (storageFile a) = None then a else a\<lparr>stored := stored a @ html @ ''/n''\<rparr>)\<lparr>logs := logs a @ [html]\<rparr>"

text \<open>One quote and one line break are replaced; the result never says that it was changed.\<close>

definition trim_text :: "string \<Rightarrow> bool \<times> string" where
  "trim_text input = (False, replaceFirst (''+'' @ newline) ''<br>'' (replaceFirst [CHR 0x27] [] input))"

definition format :: "string \<Rightarrow> string" where
  "format input = snd (trim_text input)"

record printing =
  inspect :: "string \<Rightarrow> string"
  toHtml :: "string \<Rightarrow> string"
  nowPrefix :: string

definition prefix_of :: "printing \<Rightarrow> adapter \<Rightarrow> string" where
  "prefix_of p a = (if printTimestamp a then nowPrefix p else [])"

definition argsToLog :: "printing \<Rightarrow> string list \<Rightarrow> string" where
  "argsToLog p args = separated '' '' (map (\<lambda>x. format (format (inspect p x))) args)"

definition console_log :: "printing \<Rightarrow> string list \<Rightarrow> adapter \<Rightarrow> adapter" where
  "console_log p args a = writeHtmlMessage (toHtml p (format (prefix_of p a @ argsToLog p args))) a"

definition escape :: string where
  "escape = [CHR 0x1B]"

definition warn_text :: string where
  "warn_text = escape @ ''[1;33mWARN'' @ escape @ ''[0m'' @ [CHR 0x27]"

definition error_text :: string where
  "error_text = escape @ ''[1;31mERROR'' @ escape @ ''[0m'' @ [CHR 0x27]"

definition console_warn :: "printing \<Rightarrow> string list \<Rightarrow> adapter \<Rightarrow> adapter" where
  "console_warn p args a = writeHtmlMessage (format (prefix_of p a @ warn_text @ argsToLog p args)) a"

definition console_error :: "printing \<Rightarrow> string list \<Rightarrow> adapter \<Rightarrow> adapter" where
  "console_error p args a = writeHtmlMessage (format (prefix_of p a @ error_text @ argsToLog p args)) a"

text \<open>The rows of a table are objects; the columns are the keys of the first, and a missing value is printed so.\<close>

definition formatTable :: "(string \<times> string) list list \<Rightarrow> string" where
  "formatTable rows = (case rows of [] \<Rightarrow> []
     | first # rest \<Rightarrow>
         ''<table border='' @ [CHR 0x22] @ ''0'' @ [CHR 0x22] @ '' style='' @ [CHR 0x22] @ ''color:#ffffff'' @ [CHR 0x22] @ ''><thead><tr>'' @
         concat (map (\<lambda>(k, v). ''<th>'' @ k @ ''</th>'') first) @ ''</tr></thead><tbody>'' @
         concat (map (\<lambda>row. ''<tr>'' @ concat (map (\<lambda>(k, v). ''<td>'' @
             (case map_of row k of Some c \<Rightarrow> c | None \<Rightarrow> ''undefined'') @ ''</td>'') first) @ ''</tr>'') rows) @
         ''</tbody></table>'')"

definition console_table :: "(string \<times> string) list list \<Rightarrow> adapter \<Rightarrow> adapter" where
  "console_table rows a = (let html = formatTable rows; b = writeHtmlMessage html a in b\<lparr>logs := logs b @ [html]\<rparr>)"

definition clear :: "adapter \<Rightarrow> adapter" where
  "clear a = a\<lparr>logs := []\<rparr>"

text \<open>No number and the number zero mean all entries.\<close>

definition logsToPrint :: "nat option \<Rightarrow> adapter \<Rightarrow> string list" where
  "logsToPrint maxLogs a = (case maxLogs of Some (Suc k) \<Rightarrow>
       (if length (logs a) < Suc k then logs a else drop (length (logs a) - Suc k) (logs a))
     | _ \<Rightarrow> logs a)"

definition getLogsAsHTMLElements :: "nat option \<Rightarrow> adapter \<Rightarrow> string" where
  "getLogsAsHTMLElements maxLogs a = ''<pre>'' @ separated ''<br>'' (logsToPrint maxLogs a) @ ''</pre>''"

section \<open>What the page and the file show\<close>

lemma logsToPrint_last: "logsToPrint (Some (Suc k)) a = rev (take (Suc k) (rev (logs a)))"
  by (simp add: logsToPrint_def take_rev)

text \<open>The page has the last entries, in their order.\<close>

theorem page_shows_last:
  "0 < k \<Longrightarrow> suffix (logsToPrint (Some k) a) (logs a) \<and> length (logsToPrint (Some k) a) = min k (length (logs a))"
  by (cases k) (auto simp: logsToPrint_def suffix_drop)

text \<open>
  The entries are written behind each other with a slash and a letter instead of the end of a line, so that
  the next adapter on the file loads them as one entry.
\<close>

definition write_all :: "string list \<Rightarrow> adapter \<Rightarrow> adapter" where
  "write_all hs a = foldl (\<lambda>a h. writeHtmlMessage h a) a hs"

lemma write_all_stored:
  "truthy (storageFile a) \<noteq> None \<Longrightarrow> stored (write_all hs a) = stored a @ concat (map (\<lambda>h. h @ ''/n'') hs) \<and>
   storageFile (write_all hs a) = storageFile a"
  unfolding write_all_def by (induction hs arbitrary: a) (simp_all add: writeHtmlMessage_def)

lemma split_at_absent: "d \<notin> set s \<Longrightarrow> split_at d s = [s]"
  by (induction s) auto

theorem stored_log_is_one_line:
  assumes "truthy file \<noteq> None" "\<forall>h \<in> set hs. CHR 0x0A \<notin> set h"
  shows "logs (new_adapter t file (stored (write_all hs (new_adapter t file [])))) = [concat (map (\<lambda>h. h @ ''/n'') hs)]"
proof -
  have "stored (write_all hs (new_adapter t file [])) = concat (map (\<lambda>h. h @ ''/n'') hs)"
    using write_all_stored [of "new_adapter t file []" hs] assms(1)
    by (cases "truthy file") (simp_all add: new_adapter_def load_def Let_def)
  moreover have "split_at (CHR 0x0A) (concat (map (\<lambda>h. h @ ''/n'') hs)) = [concat (map (\<lambda>h. h @ ''/n'') hs)]"
    by (rule split_at_absent) (use assms(2) in auto)
  moreover obtain y where "truthy file = Some y" using assms(1) by blast
  ultimately show ?thesis by (simp add: new_adapter_def load_def Let_def)
qed

text \<open>A table is in the log twice.\<close>

lemma table_twice: "logs (console_table rows a) = logs a @ [formatTable rows, formatTable rows]"
  by (simp add: console_table_def writeHtmlMessage_def Let_def)

section \<open>The files of the tools\<close>

definition getOutputDirectory :: "string \<Rightarrow> string" where
  "getOutputDirectory cwd = cwd @ ''/output''"

definition getLogConfigName :: "host \<Rightarrow> string" where
  "getLogConfigName h = (case truthy (env_vars h ''NODE_ENV'') of Some n \<Rightarrow> n | None \<Rightarrow> ''output'')"

definition output_path :: "string \<Rightarrow> string \<Rightarrow> string" where
  "output_path cwd name = getOutputDirectory cwd @ ''/'' @ name"

definition getOutputPathCSV :: "string \<Rightarrow> host \<Rightarrow> string" where
  "getOutputPathCSV cwd h = output_path cwd (getLogConfigName h @ ''.transactions.csv'')"

definition getOutputPathJSON :: "string \<Rightarrow> host \<Rightarrow> string" where
  "getOutputPathJSON cwd h = output_path cwd (getLogConfigName h @ ''.transactions.json'')"

definition getOutputPathTextLog :: "string \<Rightarrow> host \<Rightarrow> string" where
  "getOutputPathTextLog cwd h = output_path cwd (getLogConfigName h @ ''.log.txt'')"

definition getOutputPathBlock :: "string \<Rightarrow> string" where
  "getOutputPathBlock cwd = output_path cwd ''blocks.blocks.csv''"

definition getOutputPathBlockNumber :: "string \<Rightarrow> string" where
  "getOutputPathBlockNumber cwd = output_path cwd ''startblockNumber.blocknumber.txt''"

definition ensureOutputPath :: "string \<Rightarrow> host \<Rightarrow> host result" where
  "ensureOutputPath cwd h =
     (if getOutputDirectory cwd \<in> host_dirs h \<or> host_files h (getOutputDirectory cwd) \<noteq> None then Inr h
      else mkdirSync (getOutputDirectory cwd) h)"

definition writeOutput :: "string \<Rightarrow> string \<Rightarrow> string \<Rightarrow> host \<Rightarrow> host result" where
  "writeOutput cwd path text h = await (ensureOutputPath cwd h) (writeFileSync path (Text text))"

definition writeCSVOutput :: "string \<Rightarrow> string \<Rightarrow> host \<Rightarrow> host result" where
  "writeCSVOutput cwd csv h = writeOutput cwd (getOutputPathCSV cwd h) csv h"

definition writeJSONOutput :: "string \<Rightarrow> string \<Rightarrow> host \<Rightarrow> host result" where
  "writeJSONOutput cwd json h = writeOutput cwd (getOutputPathJSON cwd h) json h"

definition writeLogOutput :: "string \<Rightarrow> string list \<Rightarrow> host \<Rightarrow> host result" where
  "writeLogOutput cwd text h = writeOutput cwd (getOutputPathTextLog cwd h) (separated newline text) h"

definition writeBlockchainOutput :: "string \<Rightarrow> string \<Rightarrow> host \<Rightarrow> host result" where
  "writeBlockchainOutput cwd text h = writeOutput cwd (getOutputPathBlock cwd) text h"

definition writeBlockNumberOutput :: "string \<Rightarrow> nat \<Rightarrow> host \<Rightarrow> host result" where
  "writeBlockNumberOutput cwd b h = writeOutput cwd (getOutputPathBlockNumber cwd) (decimal b) h"

definition writeRaw :: "string \<Rightarrow> string \<Rightarrow> string \<Rightarrow> host \<Rightarrow> host result" where
  "writeRaw cwd filename text h = writeOutput cwd (output_path cwd filename) text h"

text \<open>A file that is written keeps its text while the other outputs are written.\<close>

lemma writeOutput_files:
  "writeOutput cwd path text h = Inr h' \<Longrightarrow> host_files h' = (host_files h)(path \<mapsto> Text text)"
  by (auto simp: writeOutput_def ensureOutputPath_def mkdirSync_def writeFileSync_def result_simps split: if_splits)

lemma writeOutput_env: "writeOutput cwd path text h = Inr h' \<Longrightarrow> env_vars h' = env_vars h"
  by (auto simp: writeOutput_def ensureOutputPath_def mkdirSync_def writeFileSync_def result_simps split: if_splits)

theorem outputs_kept:
  assumes "writeCSVOutput cwd csv h = Inr h1" "writeJSONOutput cwd json h1 = Inr h2" "writeLogOutput cwd text h2 = Inr h3"
  shows "host_files h3 (getOutputPathCSV cwd h) = Some (Text csv) \<and> host_files h3 (getOutputPathJSON cwd h) = Some (Text json) \<and>
    host_files h3 (getOutputPathTextLog cwd h) = Some (Text (separated newline text))"
proof -
  have n: "getLogConfigName h1 = getLogConfigName h" "getLogConfigName h2 = getLogConfigName h"
    using assms(1,2) writeOutput_env by (auto simp: writeCSVOutput_def writeJSONOutput_def getLogConfigName_def)
  note f = assms [unfolded writeCSVOutput_def writeJSONOutput_def writeLogOutput_def, THEN writeOutput_files]
  have "x @ ''.transactions.csv'' \<noteq> x @ ''.transactions.json''" "x @ ''.transactions.csv'' \<noteq> x @ ''.log.txt''"
    "x @ ''.transactions.json'' \<noteq> x @ ''.log.txt''" for x :: string by simp_all
  then show ?thesis using f n
    by (simp add: getOutputPathCSV_def getOutputPathJSON_def getOutputPathTextLog_def output_path_def)
qed

end
