(* ===== verification/PotTransfers.thy ===== *)
theory PotTransfers imports Manager StakeOnValidators begin

text \<open>
  The tools that move coins: filling the delta pot (src/src/net/runFeedDeltaPot.ts, netDeltaPotServer.ts), the
  dilution of the claiming pot (runClaimingPotDilution.ts), staking on pools (src/src/stakeOnExistingPools.ts),
  recovering abandoned stakes (src/src/net/runTransferAbandonedCoins.ts) and withdrawing stake (runUnstake.ts,
  runUnstakeDeletators.ts). The chain is a parameter: the calls that the tools make, on a state \<open>'c\<close>. A tool is
  a program on that state and on the transactions that the node has accepted so far.
\<close>

section \<open>Transactions and calls\<close>

datatype contract_call = Transfer | AddToDeltaPot | Stake string | Withdraw string int | RecoverAbandonedStakes

record transfer =
  tx_from :: string
  tx_to :: string
  tx_value :: int
  tx_gas :: int
  tx_gasPrice :: "int option"
  tx_call :: contract_call

text \<open>The gas is not given to the estimate; a price that is not given is chosen by the node.\<close>

record 'c tool_calls =
  tc_send :: "transfer \<Rightarrow> 'c \<Rightarrow> 'c result"
  tc_estimateGas :: "transfer \<Rightarrow> 'c \<Rightarrow> int result"
  tc_getBalance :: "string \<Rightarrow> 'c \<Rightarrow> int result"
  tc_getGasPrice :: "'c \<Rightarrow> int result"
  tc_getBlockNumber :: "'c \<Rightarrow> int result"
  tc_timestamp :: "int option \<Rightarrow> 'c \<Rightarrow> int result"
  tc_rewardContract :: "'c \<Rightarrow> string result"
  tc_governancePot :: "'c \<Rightarrow> string result"
  tc_stakingContract :: "'c \<Rightarrow> string result"
  tc_deltaPot :: "'c \<Rightarrow> int result"
  tc_stakingEpoch :: "'c \<Rightarrow> int result"
  tc_getValidators :: "'c \<Rightarrow> string list result"
  tc_getPools :: "'c \<Rightarrow> string list result"
  tc_getPoolsInactive :: "'c \<Rightarrow> string list result"
  tc_miningByStaking :: "string \<Rightarrow> 'c \<Rightarrow> string result"
  tc_stakingByMining :: "string \<Rightarrow> 'c \<Rightarrow> string result"
  tc_poolDelegators :: "string \<Rightarrow> 'c \<Rightarrow> string list result"
  tc_delegatorMinStake :: "'c \<Rightarrow> int result"
  tc_stakeAmount :: "string \<Rightarrow> string \<Rightarrow> 'c \<Rightarrow> int result"
  tc_maxWithdrawAllowed :: "string \<Rightarrow> string \<Rightarrow> 'c \<Rightarrow> int result"
  tc_inactivityThreshold :: "'c \<Rightarrow> int result"
  tc_availableSince :: "string \<Rightarrow> 'c \<Rightarrow> int result"
  tc_lastWrite :: "string \<Rightarrow> 'c \<Rightarrow> int result"

record 'c purse =
  on_chain :: 'c
  accepted :: "transfer list"

type_synonym ('c, 'a) tool = "('c purse, 'a) prog"

definition ask_chain :: "('c \<Rightarrow> 'a result) \<Rightarrow> ('c, 'a) tool" where
  "ask_chain f w = (f (on_chain w), w)"

definition send_tx :: "'c tool_calls \<Rightarrow> transfer \<Rightarrow> ('c, unit) tool" where
  "send_tx calls t w = (case tc_send calls t (on_chain w) of
     Inl e \<Rightarrow> (Inl e, w) | Inr c \<Rightarrow> (Inr (), \<lparr>on_chain = c, accepted = accepted w @ [t]\<rparr>))"

definition start_on :: "'c \<Rightarrow> 'c purse" where
  "start_on c = \<lparr>on_chain = c, accepted = []\<rparr>"

lemma ask_chain_Inr [action_simps]: "ask_chain f w = (Inr x, w') \<longleftrightarrow> f (on_chain w) = Inr x \<and> w' = w"
  by (auto simp: ask_chain_def)

lemma send_tx_Inr [action_simps]:
  "send_tx calls t w = (Inr u, w') \<longleftrightarrow>
   (\<exists>c. tc_send calls t (on_chain w) = Inr c \<and> w' = \<lparr>on_chain = c, accepted = accepted w @ [t]\<rparr>)"
  by (auto simp: send_tx_def split: sum.splits)

text \<open>What a tool may send, wherever it ends\<close>

definition sends_only :: "(transfer \<Rightarrow> bool) \<Rightarrow> 'c purse \<Rightarrow> bool" where
  "sends_only P w \<longleftrightarrow> (\<forall>t \<in> set (accepted w). P t)"

lemma keeps_ask_chain [keeps_rules]: "keeps (sends_only P) (ask_chain f)"
  by (simp add: keeps_def ask_chain_def)

lemma keeps_cond: "(b \<Longrightarrow> keeps I A) \<Longrightarrow> (\<not> b \<Longrightarrow> keeps I B) \<Longrightarrow> keeps I (if b then A else B)"
  by simp

lemma keeps_send_tx: "P t \<Longrightarrow> keeps (sends_only P) (send_tx calls t)"
  by (auto simp: keeps_def send_tx_def sends_only_def split: sum.splits)

lemma sends_only_start [simp]: "sends_only P (start_on c)"
  by (simp add: sends_only_def start_on_def)

section \<open>The tools\<close>

definition wei_per_coin :: int where
  "wei_per_coin = 10 ^ 18"

definition gwei :: int where
  "gwei = 1000000000"

definition feedDelta :: "'c tool_calls \<Rightarrow> string \<Rightarrow> ('c, unit) tool" where
  "feedDelta calls account =
     andThen (ask_chain (tc_deltaPot calls)) (\<lambda>currentDelta.
     if currentDelta \<noteq> 0 then ret ()
     else andThen (ask_chain (tc_rewardContract calls)) (\<lambda>reward.
          andThen (ask_chain (tc_estimateGas calls \<lparr>tx_from = account, tx_to = reward, tx_value = wei_per_coin,
            tx_gas = 0, tx_gasPrice = Some gwei, tx_call = AddToDeltaPot\<rparr>)) (\<lambda>estimatedGas.
          andThen (ask_chain (tc_getBalance calls account)) (\<lambda>totalDelta.
          andThen (ask_chain (tc_getGasPrice calls)) (\<lambda>gasPrice.
            send_tx calls \<lparr>tx_from = account, tx_to = reward, tx_value = totalDelta - estimatedGas * gasPrice,
              tx_gas = estimatedGas, tx_gasPrice = Some gasPrice, tx_call = AddToDeltaPot\<rparr>)))))"

text \<open>The server waits for 25 validators; the price of gas is read once, at its start.\<close>

definition fundDeltaPot :: "'c tool_calls \<Rightarrow> string \<Rightarrow> int \<Rightarrow> ('c, unit) tool" where
  "fundDeltaPot calls account gasPrice =
     andThen (ask_chain (tc_rewardContract calls)) (\<lambda>reward.
     andThen (ask_chain (tc_estimateGas calls \<lparr>tx_from = account, tx_to = reward,
         tx_value = 123456789012345678901234567890, tx_gas = 0, tx_gasPrice = Some gwei, tx_call = AddToDeltaPot\<rparr>)) (\<lambda>estimate.
     let estimatedGas = estimate + 8831 in
     andThen (ask_chain (tc_getBalance calls account)) (\<lambda>totalDelta.
       send_tx calls \<lparr>tx_from = account, tx_to = reward, tx_value = totalDelta - estimatedGas * gasPrice,
         tx_gas = estimatedGas, tx_gasPrice = Some gwei, tx_call = AddToDeltaPot\<rparr>)))"

definition targetValidators :: nat where
  "targetValidators = 25"

text \<open>
  The turns of the loop, each with the chain as it stands then; nothing when the server still waits after
  them.
\<close>

fun serveTurns :: "'c tool_calls \<Rightarrow> string \<Rightarrow> int \<Rightarrow> int \<Rightarrow> 'c list \<Rightarrow> (unit result \<times> 'c purse) option" where
  "serveTurns calls account gasPrice lastCheckedEpoch [] = None"
| "serveTurns calls account gasPrice lastCheckedEpoch (c # cs) =
     (case tc_stakingEpoch calls c of Inl e \<Rightarrow> Some (Inl e, start_on c)
      | Inr currentEpoch \<Rightarrow>
        if currentEpoch = lastCheckedEpoch then serveTurns calls account gasPrice lastCheckedEpoch cs
        else (case tc_getValidators calls c of Inl e \<Rightarrow> Some (Inl e, start_on c)
          | Inr validators \<Rightarrow>
            if length validators = targetValidators then Some (fundDeltaPot calls account gasPrice (start_on c))
            else serveTurns calls account gasPrice currentEpoch cs))"

definition runDeltaPotServer :: "'c tool_calls \<Rightarrow> string \<Rightarrow> 'c \<Rightarrow> 'c list \<Rightarrow> (unit result \<times> 'c purse) option" where
  "runDeltaPotServer calls account c turns =
     (case await (tc_getBalance calls account c) (\<lambda>_. await (tc_getGasPrice calls c) (\<lambda>p.
            await (tc_stakingContract calls c) (\<lambda>_. Inr p))) of
        Inl e \<Rightarrow> Some (Inl e, start_on c)
      | Inr gasPrice \<Rightarrow> serveTurns calls account gasPrice (-1) turns)"

text \<open>Amounts are not negative, so that the quotient of \<open>BN\<close> is \<open>div\<close>.\<close>

definition sendDilutionAmount :: "'c tool_calls \<Rightarrow> string \<Rightarrow> nat \<Rightarrow> ('c, unit) tool" where
  "sendDilutionAmount calls caller amount =
     andThen (ask_chain (tc_rewardContract calls)) (\<lambda>reinsertPot.
     andThen (ask_chain (tc_governancePot calls)) (\<lambda>governancePot.
     let reinsertAmount = int (amount div 2); governanceAmount = int amount - reinsertAmount in
     andThen (send_tx calls \<lparr>tx_from = caller, tx_to = reinsertPot, tx_value = reinsertAmount, tx_gas = 100000,
         tx_gasPrice = Some gwei, tx_call = Transfer\<rparr>) (\<lambda>_.
       send_tx calls \<lparr>tx_from = caller, tx_to = governancePot, tx_value = governanceAmount, tx_gas = 100000,
         tx_gasPrice = Some gwei, tx_call = Transfer\<rparr>)))"

definition START_BLOCK_NUMBER :: int where
  "START_BLOCK_NUMBER = 21000"

definition setup_dilution :: "'c tool_calls \<Rightarrow> string \<Rightarrow> string \<Rightarrow> ('c, unit) tool" where
  "setup_dilution calls defaultAccount sendFrom =
     andThen (ask_chain (tc_getBalance calls sendFrom)) (\<lambda>currentBalance.
     andThen (if currentBalance = 0 then send_tx calls \<lparr>tx_from = defaultAccount, tx_to = sendFrom,
         tx_value = 710000 * wei_per_coin, tx_gas = 21000, tx_gasPrice = None, tx_call = Transfer\<rparr> else ret ()) (\<lambda>_.
     andThen (ask_chain (tc_getBlockNumber calls)) (\<lambda>currentBlock.
     andThen (ask_chain (tc_timestamp calls (Some START_BLOCK_NUMBER))) (\<lambda>startBlockTimestamp.
       sendDilutionAmount calls sendFrom (330035 * 10 ^ 18)))))"

definition stakeOnExistingPools :: "'c tool_calls \<Rightarrow> string \<Rightarrow> int option \<Rightarrow> ('c, unit) tool" where
  "stakeOnExistingPools calls account amount =
     andThen (ask_chain (tc_stakingContract calls)) (\<lambda>staking.
     andThen (ask_chain (tc_getPools calls)) (\<lambda>pools.
     andThen (case amount of Some a \<Rightarrow> ret a | None \<Rightarrow> ask_chain (tc_delegatorMinStake calls)) (\<lambda>amountToStake.
       forEach [2..<length pools] (\<lambda>i. send_tx calls \<lparr>tx_from = account, tx_to = staking, tx_value = amountToStake,
         tx_gas = 10000000, tx_gasPrice = Some 4000000000, tx_call = Stake (pools ! i)\<rparr>))))"

definition poolOverTreshold :: "'c tool_calls \<Rightarrow> int \<Rightarrow> int \<Rightarrow> string \<Rightarrow> ('c, string list) tool" where
  "poolOverTreshold calls now treshold pool =
     andThen (ask_chain (tc_miningByStaking calls pool)) (\<lambda>mining.
     andThen (ask_chain (tc_availableSince calls mining)) (\<lambda>availableSince.
     andThen (ask_chain (tc_lastWrite calls mining)) (\<lambda>lastWrite.
       ret (if now - lastWrite > treshold then [pool] else []))))"

definition executeRescue :: "'c tool_calls \<Rightarrow> string \<Rightarrow> ('c, unit) tool" where
  "executeRescue calls account =
     andThen (ask_chain (tc_stakingContract calls)) (\<lambda>staking.
     andThen (ask_chain (tc_timestamp calls None)) (\<lambda>now.
     andThen (ask_chain (tc_inactivityThreshold calls)) (\<lambda>treshold.
     andThen (ask_chain (tc_getPoolsInactive calls)) (\<lambda>pools.
     andThen (collect pools (poolOverTreshold calls now treshold)) (\<lambda>poolsOverTreshold.
       if poolsOverTreshold = [] then ret ()
       else send_tx calls \<lparr>tx_from = account, tx_to = staking, tx_value = 0, tx_gas = 500000, tx_gasPrice = None,
         tx_call = RecoverAbandonedStakes\<rparr>)))))"

section \<open>Withdrawing\<close>

definition unstakeNode :: "'c tool_calls \<Rightarrow> string \<Rightarrow> string list \<Rightarrow> node_state \<Rightarrow> ('c, unit) tool" where
  "unstakeNode calls staking validators n =
     (case truthy (node_address n) of None \<Rightarrow> ret ()
      | Some address \<Rightarrow>
        andThen (ask_chain (tc_stakingByMining calls address)) (\<lambda>pool.
        if isZeroAddress pool then ret ()
        else andThen (ask_chain (tc_stakeAmount calls pool pool)) (\<lambda>stakeAmount.
        if stakeAmount = 0 then ret ()
        else andThen (ask_chain (tc_maxWithdrawAllowed calls pool pool)) (\<lambda>maxWithdrawAllowed.
        if maxWithdrawAllowed = 0 then ret ()
        else if address \<in> set validators then ret ()
        else send_tx calls \<lparr>tx_from = pool, tx_to = staking, tx_value = 0, tx_gas = 1000000, tx_gasPrice = None,
          tx_call = Withdraw pool maxWithdrawAllowed\<rparr>))))"

definition unstake :: "'c tool_calls \<Rightarrow> node_state list \<Rightarrow> ('c, unit) tool" where
  "unstake calls nodes =
     andThen (ask_chain (tc_stakingContract calls)) (\<lambda>staking.
     andThen (ask_chain (tc_getPools calls)) (\<lambda>pools.
     andThen (ask_chain (tc_getValidators calls)) (\<lambda>validators.
       forEach nodes (unstakeNode calls staking validators))))"

text \<open>
  The callback that looks for the delegator's account has a body in braces without \<open>return\<close>: its value is
  \<open>undefined\<close> for every account, which \<open>find\<close> takes as false. Its comparison is the argument that is not used.
\<close>

definition find_callback :: "bool \<Rightarrow> bool" where
  "find_callback compared = False"

definition foundStaker :: "string list \<Rightarrow> string \<Rightarrow> string option" where
  "foundStaker accounts delegator = find (\<lambda>v. find_callback (to_lower v = to_lower delegator)) accounts"

definition unstakeDelegator :: "'c tool_calls \<Rightarrow> string \<Rightarrow> string list \<Rightarrow> string \<Rightarrow> string \<Rightarrow> ('c, unit) tool" where
  "unstakeDelegator calls staking accounts pool delegator =
     (case foundStaker accounts delegator of None \<Rightarrow> ret ()
      | Some _ \<Rightarrow> andThen (ask_chain (tc_maxWithdrawAllowed calls pool delegator)) (\<lambda>maxWithdrawAllowed.
          if maxWithdrawAllowed = 0 then ret ()
          else send_tx calls \<lparr>tx_from = delegator, tx_to = staking, tx_value = 0, tx_gas = 1000000, tx_gasPrice = None,
            tx_call = Withdraw pool maxWithdrawAllowed\<rparr>))"

definition unstakeDelegators :: "'c tool_calls \<Rightarrow> string list \<Rightarrow> ('c, unit) tool" where
  "unstakeDelegators calls accounts =
     andThen (ask_chain (tc_stakingContract calls)) (\<lambda>staking.
     andThen (ask_chain (tc_getPoolsInactive calls)) (\<lambda>pools.
     andThen (ask_chain (tc_getValidators calls)) (\<lambda>validators.
     forEach pools (\<lambda>pool.
       andThen (ask_chain (tc_miningByStaking calls pool)) (\<lambda>miningAddress.
       if miningAddress \<in> set validators then ret ()
       else andThen (ask_chain (tc_poolDelegators calls pool)) (\<lambda>delegators.
         forEach delegators (unstakeDelegator calls staking accounts pool)))))))"

section \<open>Filling the pots\<close>

text \<open>
  What a node refuses: a transaction whose value and whole gas are not covered by the balance of its sender.
\<close>

definition cost :: "transfer \<Rightarrow> int" where
  "cost t = tx_value t + tx_gas t * (case tx_gasPrice t of Some p \<Rightarrow> p | None \<Rightarrow> 0)"

definition refuses_uncovered :: "'c tool_calls \<Rightarrow> bool" where
  "refuses_uncovered calls \<longleftrightarrow> (\<forall>t c c' b. tc_send calls t c = Inr c' \<longrightarrow> tc_getBalance calls (tx_from t) c = Inr b \<longrightarrow> cost t \<le> b)"

text \<open>
  A filling that succeeds finds the pot filled and sends nothing, or sends one transaction for the empty pot
  whose value and gas are together exactly the balance of the account.
\<close>

theorem feedDelta_uses_balance:
  assumes "feedDelta calls account (start_on c) = (Inr (), w)"
  shows "\<exists>pot. tc_deltaPot calls c = Inr pot \<and>
    (if pot \<noteq> 0 then w = start_on c
     else \<exists>t. accepted w = [t] \<and> tx_call t = AddToDeltaPot \<and> tx_from t = account \<and>
       tc_rewardContract calls c = Inr (tx_to t) \<and> tc_getBalance calls account c = Inr (cost t))"
  using assms by (auto simp: feedDelta_def action_simps start_on_def cost_def split: if_splits)

text \<open>
  The server pays with a price of one gwei and leaves the gas at the price of the node: together that is the
  balance, and the estimated gas times the difference of the prices.
\<close>

lemma fundDeltaPot_cost:
  assumes "fundDeltaPot calls account gasPrice w = (Inr (), w')"
  shows "\<exists>t b. accepted w' = accepted w @ [t] \<and> tx_from t = account \<and> tx_call t = AddToDeltaPot \<and>
    tc_send calls t (on_chain w) = Inr (on_chain w') \<and>
    tc_getBalance calls account (on_chain w) = Inr b \<and> cost t = b + tx_gas t * (gwei - gasPrice)"
  using assms by (auto simp: fundDeltaPot_def action_simps Let_def cost_def algebra_simps)

definition estimates_gas :: "'c tool_calls \<Rightarrow> bool" where
  "estimates_gas calls \<longleftrightarrow> (\<forall>t c g. tc_estimateGas calls t c = Inr g \<longrightarrow> 0 \<le> g)"

lemma fundDeltaPot_gas:
  "fundDeltaPot calls account gasPrice w = (Inr (), w') \<Longrightarrow> estimates_gas calls \<Longrightarrow>
   \<exists>t. accepted w' = accepted w @ [t] \<and> 0 < tx_gas t"
  by (auto simp: fundDeltaPot_def action_simps Let_def estimates_gas_def) (smt (verit))

lemma serveTurns_Some:
  assumes "serveTurns calls account p lst turns = Some (Inr (), w)"
  shows "\<exists>c \<in> set turns. fundDeltaPot calls account p (start_on c) = (Inr (), w) \<and>
    (\<exists>vs. tc_getValidators calls c = Inr vs \<and> length vs = targetValidators)"
  using assms by (induction turns arbitrary: lst) (auto split: sum.splits if_splits)

text \<open>
  The delta pot is only filled in a turn with 25 validators.
\<close>

theorem server_fills_at_25:
  assumes "runDeltaPotServer calls account c turns = Some (Inr (), w)"
  shows "\<exists>c' \<in> set turns. \<exists>vs t b p. tc_getValidators calls c' = Inr vs \<and> length vs = 25 \<and> accepted w = [t] \<and>
    tx_from t = account \<and> tx_call t = AddToDeltaPot \<and> tc_getGasPrice calls c = Inr p \<and>
    tc_getBalance calls account c' = Inr b \<and> cost t = b + tx_gas t * (gwei - p)"
proof -
  obtain p where p: "tc_getGasPrice calls c = Inr p" "serveTurns calls account p (-1) turns = Some (Inr (), w)"
    using assms by (auto simp: runDeltaPotServer_def result_simps split: sum.splits)
  obtain c' vs where c: "c' \<in> set turns" "fundDeltaPot calls account p (start_on c') = (Inr (), w)"
      "tc_getValidators calls c' = Inr vs" "length vs = targetValidators"
    using serveTurns_Some [OF p(2)] by blast
  show ?thesis using fundDeltaPot_cost [OF c(2)] c p(1) by (auto simp: start_on_def targetValidators_def)
qed

text \<open>C39: 
  When the price of gas at the start was below one gwei, a node that refuses transactions that the balance of
  their sender does not cover never lets the server fill the pot, in whatever turn it tries.
\<close>

theorem server_cannot_pay:
  assumes "refuses_uncovered calls" "estimates_gas calls" "tc_getGasPrice calls c = Inr p" "p < gwei"
  shows "runDeltaPotServer calls account c turns \<noteq> Some (Inr (), w)"
proof
  assume "runDeltaPotServer calls account c turns = Some (Inr (), w)"
  then have "serveTurns calls account p (-1) turns = Some (Inr (), w)"
    using assms(3) by (auto simp: runDeltaPotServer_def result_simps split: sum.splits)
  then obtain c' where f: "fundDeltaPot calls account p (start_on c') = (Inr (), w)"
    using serveTurns_Some by blast
  obtain t b where t: "accepted w = [t]" "tx_from t = account" "tc_send calls t c' = Inr (on_chain w)"
      "tc_getBalance calls account c' = Inr b" "cost t = b + tx_gas t * (gwei - p)"
    using fundDeltaPot_cost [OF f] by (auto simp: start_on_def)
  have "0 < tx_gas t" using fundDeltaPot_gas [OF f assms(2)] t(1) by (auto simp: start_on_def)
  then have "b < cost t" using assms(4) t(5) by simp
  moreover have "cost t \<le> b" using assms(1) t(2-4) unfolding refuses_uncovered_def by blast
  ultimately show False by simp
qed

text \<open>
  The server waits exactly as long as in every turn either the epoch is the one of the turn before or the
  number of validators is not 25.
\<close>

fun still_waits :: "'c tool_calls \<Rightarrow> int \<Rightarrow> 'c list \<Rightarrow> bool" where
  "still_waits calls lst [] = True"
| "still_waits calls lst (c # cs) = (\<exists>e. tc_stakingEpoch calls c = Inr e \<and>
     (e = lst \<or> (\<exists>vs. tc_getValidators calls c = Inr vs \<and> length vs \<noteq> 25)) \<and> still_waits calls e cs)"

lemma serveTurns_waits: "serveTurns calls account p lst turns = None \<longleftrightarrow> still_waits calls lst turns"
  by (induction turns arbitrary: lst) (auto simp: targetValidators_def split: sum.splits)

section \<open>The dilution\<close>

text \<open>
  A dilution that succeeds has sent the whole amount, the smaller half to the pot for the rewards and the rest
  to the pot of the governance.
\<close>

theorem dilution_sends_whole_amount:
  assumes "sendDilutionAmount calls caller amount (start_on c) = (Inr (), w)"
  shows "\<exists>t u. accepted w = [t, u] \<and> tx_value t + tx_value u = int amount \<and>
    tx_value t \<le> tx_value u \<and> tx_value u \<le> tx_value t + 1 \<and>
    tc_rewardContract calls c = Inr (tx_to t) \<and> tc_governancePot calls c = Inr (tx_to u)"
proof -
  have "amount div 2 + amount div 2 \<le> amount" "amount \<le> amount div 2 + amount div 2 + 1" by linarith+
  then show ?thesis using assms by (auto simp: sendDilutionAmount_def action_simps Let_def start_on_def)
qed

text \<open>
  The run sends the third dilution at once, whatever the time: it has the block at which the phases began, but
  only to print when it would be due.
\<close>

theorem dilution_is_immediate:
  assumes "setup_dilution calls defaultAccount sendFrom (start_on c) = (Inr (), w)"
  shows "\<exists>fed t u. accepted w = fed @ [t, u] \<and> tx_value t + tx_value u = 330035 * wei_per_coin \<and>
    (if tc_getBalance calls sendFrom c = Inr 0 then \<exists>f. fed = [f] \<and> tx_value f = 710000 * wei_per_coin else fed = [])"
  using assms
  by (auto simp: setup_dilution_def sendDilutionAmount_def action_simps Let_def start_on_def wei_per_coin_def split: if_splits)

section \<open>Stakes\<close>

text \<open>The stakes go to all pools but the first two, in order; a run that fails has staked on the first of them.\<close>

lemma staked_in_order:
  assumes "forEach js (\<lambda>i. send_tx calls (f i)) w = (r, w')"
  shows "\<exists>k \<le> length js. accepted w' = accepted w @ map f (take k js) \<and> (r = Inr () \<longrightarrow> k = length js)"
  using assms
proof (induction js arbitrary: w)
  case (Cons j js)
  show ?case
  proof (cases "send_tx calls (f j) w")
    case (Pair q w1)
    show ?thesis
    proof (cases q)
      case (Inl e)
      then show ?thesis using Cons.prems Pair by (intro exI [of _ 0]) (auto simp: andThen_def send_tx_def split: sum.splits)
    next
      case (Inr u)
      then have w1: "accepted w1 = accepted w @ [f j]" using Pair by (auto simp: action_simps)
      have "forEach js (\<lambda>i. send_tx calls (f i)) w1 = (r, w')" using Cons.prems Pair Inr by (simp add: andThen_def)
      then obtain k where "k \<le> length js" "accepted w' = accepted w1 @ map f (take k js)" "r = Inr () \<longrightarrow> k = length js"
        using Cons.IH by blast
      then show ?thesis using w1 by (intro exI [of _ "Suc k"]) simp
    qed
  qed
qed (simp add: ret_def)

theorem first_two_pools_skipped:
  assumes "stakeOnExistingPools calls account amount (start_on c) = (Inr (), w)" "tc_getPools calls c = Inr pools"
  shows "map tx_call (accepted w) = map Stake (drop 2 pools) \<and> (\<forall>t \<in> set (accepted w). tx_from t = account)"
proof -
  obtain a s where f: "forEach [2..<length pools] (\<lambda>i. send_tx calls \<lparr>tx_from = account, tx_to = s, tx_value = a,
         tx_gas = 10000000, tx_gasPrice = Some 4000000000, tx_call = Stake (pools ! i)\<rparr>) (start_on c) = (Inr (), w)"
    using assms by (cases amount) (auto simp: stakeOnExistingPools_def action_simps start_on_def)
  have "map (\<lambda>i. Stake (pools ! i)) [2..<length pools] = map Stake (drop 2 pools)"
    by (rule nth_equalityI) (auto simp: nth_append)
  then show ?thesis using staked_in_order [OF f] by (auto simp: start_on_def comp_def)
qed

section \<open>Abandoned stakes\<close>

definition over_treshold :: "'c tool_calls \<Rightarrow> int \<Rightarrow> int \<Rightarrow> 'c \<Rightarrow> string \<Rightarrow> bool" where
  "over_treshold calls now treshold c pool \<longleftrightarrow> (\<exists>m l. tc_miningByStaking calls pool c = Inr m \<and>
     tc_lastWrite calls m c = Inr l \<and> now - l > treshold)"

lemma poolOverTreshold_Inr:
  "poolOverTreshold calls now treshold pool w = (Inr ps, w') \<Longrightarrow>
   w' = w \<and> ps = (if over_treshold calls now treshold (on_chain w) pool then [pool] else [])"
  by (auto simp: poolOverTreshold_def action_simps over_treshold_def split: if_splits)

lemma pools_over_treshold:
  "collect pools (poolOverTreshold calls now treshold) w = (Inr ps, w') \<Longrightarrow>
   w' = w \<and> ps = filter (over_treshold calls now treshold (on_chain w)) pools"
  by (induction pools arbitrary: ps) (auto simp: action_simps dest!: poolOverTreshold_Inr)

text \<open>
  A rescue that succeeds has sent one transaction when a pool without activity has not written for longer than
  the threshold, and nothing otherwise.
\<close>

theorem rescue_only_when_abandoned:
  assumes "executeRescue calls account (start_on c) = (Inr (), w)"
  shows "\<exists>now treshold pools. tc_timestamp calls None c = Inr now \<and> tc_inactivityThreshold calls c = Inr treshold \<and>
    tc_getPoolsInactive calls c = Inr pools \<and>
    map tx_call (accepted w) = (if \<exists>p \<in> set pools. over_treshold calls now treshold c p then [RecoverAbandonedStakes] else [])"
proof -
  obtain staking now treshold pools ps w1 where r: "tc_timestamp calls None c = Inr now" "tc_inactivityThreshold calls c = Inr treshold"
      "tc_getPoolsInactive calls c = Inr pools" "collect pools (poolOverTreshold calls now treshold) (start_on c) = (Inr ps, w1)"
      "(if ps = [] then ret () else send_tx calls \<lparr>tx_from = account, tx_to = staking, tx_value = 0, tx_gas = 500000,
         tx_gasPrice = None, tx_call = RecoverAbandonedStakes\<rparr>) w1 = (Inr (), w)"
    using assms unfolding executeRescue_def by (auto simp: action_simps start_on_def)
  have "w1 = start_on c" "ps = filter (over_treshold calls now treshold c) pools"
    using pools_over_treshold [OF r(4)] by (simp_all add: start_on_def)
  then have "map tx_call (accepted w) = (if \<exists>p \<in> set pools. over_treshold calls now treshold c p then [RecoverAbandonedStakes] else [])"
    using r(5) by (auto simp: action_simps start_on_def filter_empty_conv split: if_splits)
  then show ?thesis using r(1-3) by blast
qed

section \<open>Withdrawals\<close>

text \<open>
  However a run ends, every withdrawal takes what the pool of one of the nodes may withdraw of its own stake, and
  the node is not in the list of validators.
\<close>

definition withdraws_own :: "node_state list \<Rightarrow> string list \<Rightarrow> transfer \<Rightarrow> bool" where
  "withdraws_own nodes validators t \<longleftrightarrow> (\<exists>n \<in> set nodes. \<exists>a m. node_address n = Some a \<and> a \<notin> set validators \<and>
     tx_call t = Withdraw (tx_from t) m \<and> m \<noteq> 0 \<and> tx_value t = 0 \<and> \<not> isZeroAddress (tx_from t))"

lemma keeps_unstakeNode:
  assumes "n \<in> set nodes"
  shows "keeps (sends_only (withdraws_own nodes validators)) (unstakeNode calls staking validators n)"
proof (cases "truthy (node_address n)")
  case None
  then show ?thesis by (simp add: unstakeNode_def keeps_rules)
next
  case (Some a)
  then have a: "node_address n = Some a" by (auto simp: truthy_def split: option.splits list.splits)
  have send: "keeps (sends_only (withdraws_own nodes validators)) (send_tx calls \<lparr>tx_from = p, tx_to = staking, tx_value = 0,
      tx_gas = 1000000, tx_gasPrice = None, tx_call = Withdraw p m\<rparr>)" if "a \<notin> set validators" "m \<noteq> 0" "\<not> isZeroAddress p" for p m
    by (rule keeps_send_tx) (use that assms a in \<open>auto simp: withdraws_own_def\<close>)
  show ?thesis unfolding unstakeNode_def Some option.case
    by (intro keeps_andThen keeps_ask_chain keeps_cond keeps_ret send)
qed

theorem unstake_spares_validators:
  assumes "unstake calls nodes (start_on c) = (r, w)" "tc_getValidators calls c = Inr validators"
  shows "\<forall>t \<in> set (accepted w). withdraws_own nodes validators t"
proof -
  have k: "keeps (sends_only (withdraws_own nodes validators)) (forEach nodes (unstakeNode calls staking validators))" for staking
    by (rule keeps_forEach) (rule keeps_unstakeNode)
  have "sends_only (withdraws_own nodes validators) w"
    using assms keepsD [OF k sends_only_start]
    by (auto simp: unstake_def andThen_def ask_chain_def start_on_def sends_only_def split: sum.splits prod.splits)
  then show ?thesis by (simp add: sends_only_def)
qed

text \<open>The withdrawal for the delegators of a mnemonic never withdraws anything.\<close>

lemma foundStaker_none: "foundStaker accounts delegator = None"
  by (simp add: foundStaker_def find_callback_def find_None_iff)

theorem delegators_never_unstaked: "snd (unstakeDelegators calls accounts w) = w"
proof -
  let ?I = "\<lambda>v. v = w"
  have ask: "keeps ?I (ask_chain f)" for f :: "'a \<Rightarrow> 'x result" by (simp add: keeps_def ask_chain_def)
  have "keeps ?I (unstakeDelegators calls accounts)"
    unfolding unstakeDelegators_def unstakeDelegator_def foundStaker_none option.case
    by (intro keeps_andThen keeps_forEach keeps_if keeps_ret ask)
  then show ?thesis by (simp add: keeps_def)
qed

section \<open>A chain of balances\<close>

text \<open>
  The node takes what the balance covers; the sender pays the value and the whole gas at the price of the
  node, one gwei unless the sample says otherwise.
\<close>

definition pay :: "int \<Rightarrow> transfer \<Rightarrow> (string \<Rightarrow> int) \<Rightarrow> (string \<Rightarrow> int) result" where
  "pay price t c = (let price = (case tx_gasPrice t of Some p \<Rightarrow> p | None \<Rightarrow> price); fee = tx_gas t * price in
     if tx_value t < 0 \<or> c (tx_from t) < tx_value t + fee \<or> c (tx_from t) < cost t then Inl (CallFailed ''insufficient funds'')
     else let d = c(tx_from t := c (tx_from t) - tx_value t - fee) in Inr (d(tx_to t := d (tx_to t) + tx_value t)))"

definition sample_tools :: "int \<Rightarrow> nat \<Rightarrow> (string \<Rightarrow> int) tool_calls" where
  "sample_tools price n = \<lparr>tc_send = pay price, tc_estimateGas = (\<lambda>t c. Inr 50000), tc_getBalance = (\<lambda>a c. Inr (c a)),
     tc_getGasPrice = (\<lambda>c. Inr price), tc_getBlockNumber = (\<lambda>c. Inr 30000), tc_timestamp = (\<lambda>b c. Inr 1000),
     tc_rewardContract = (\<lambda>c. Inr ''reward''), tc_governancePot = (\<lambda>c. Inr ''dao''), tc_stakingContract = (\<lambda>c. Inr ''staking''),
     tc_deltaPot = (\<lambda>c. Inr (c ''reward'')), tc_stakingEpoch = (\<lambda>c. Inr 3), tc_getValidators = (\<lambda>c. Inr (replicate n ''0xv'')),
     tc_getPools = (\<lambda>c. Inr [''0xp1'', ''0xp2'', ''0xp3'', ''0xp4'']), tc_getPoolsInactive = (\<lambda>c. Inr [''0xp5'']),
     tc_miningByStaking = (\<lambda>p c. Inr (p @ ''m'')), tc_stakingByMining = (\<lambda>m c. Inr (m @ ''s'')),
     tc_poolDelegators = (\<lambda>p c. Inr [''0xd'']), tc_delegatorMinStake = (\<lambda>c. Inr 100),
     tc_stakeAmount = (\<lambda>p d c. Inr 500), tc_maxWithdrawAllowed = (\<lambda>p d c. Inr 400), tc_inactivityThreshold = (\<lambda>c. Inr 600),
     tc_availableSince = (\<lambda>m c. Inr 0), tc_lastWrite = (\<lambda>m c. Inr 300)\<rparr>"

definition sample_balances :: "string \<Rightarrow> int" where
  "sample_balances a = (if a = ''reward'' then 0 else 10 ^ 24)"

text \<open>Balances are functions: a sample run is compared by its transactions and by what it returns.\<close>

definition sample_feed :: "unit result \<times> (string \<Rightarrow> int) purse" where
  "sample_feed = feedDelta (sample_tools 2000000000 25) ''me'' (start_on sample_balances)"

lemma sample_feed_returns: "fst sample_feed = Inr ()"
  by code_simp

lemma run_pair: "f = (x, y) \<longleftrightarrow> fst f = x \<and> snd f = y"
  by (cases f) auto

lemma feedDelta_uses_balance_witness:
  "\<exists>t. accepted (snd sample_feed) = [t] \<and> cost t = 10 ^ 24"
proof -
  have f: "feedDelta (sample_tools 2000000000 25) ''me'' (start_on sample_balances) = (Inr (), snd sample_feed)"
    using sample_feed_returns unfolding sample_feed_def by (simp add: prod_eq_iff)
  show ?thesis using feedDelta_uses_balance [OF f] by (auto simp: sample_tools_def sample_balances_def)
qed

definition sample_server :: "(unit result \<times> (string \<Rightarrow> int) purse) option" where
  "sample_server = runDeltaPotServer (sample_tools gwei 25) ''me'' sample_balances [sample_balances]"

lemma sample_server_returns: "map_option fst sample_server = Some (Inr ())"
  by code_simp

lemma server_fills_at_25_witness:
  "\<exists>w t. sample_server = Some (Inr (), w) \<and> accepted w = [t] \<and> cost t = 10 ^ 24"
proof -
  obtain w where w: "sample_server = Some (Inr (), w)" using sample_server_returns by auto
  show ?thesis using server_fills_at_25 [OF w [unfolded sample_server_def]] w
    by (auto simp: sample_tools_def sample_balances_def gwei_def)
qed

lemma sample_refuses: "refuses_uncovered (sample_tools p n)"
  by (auto simp: refuses_uncovered_def sample_tools_def pay_def Let_def split: if_splits)

lemma server_cannot_pay_witness:
  "\<forall>w. runDeltaPotServer (sample_tools (gwei - 1) 25) ''me'' sample_balances [sample_balances] \<noteq> Some (Inr (), w)"
proof (rule allI, rule server_cannot_pay [OF sample_refuses, of "gwei - 1" 25 sample_balances "gwei - 1"])
  show "estimates_gas (sample_tools (gwei - 1) 25)" by (simp add: estimates_gas_def sample_tools_def)
  show "tc_getGasPrice (sample_tools (gwei - 1) 25) sample_balances = Inr (gwei - 1)" by (simp add: sample_tools_def)
qed simp


end
