(* ===== verification/RemoteTools.thy ===== *)
theory RemoteTools imports Manager ConfigProperties RemoteFiles Json begin

text \<open>
  The tools that bring software to the remote nodes (src/src/remotenet/): the update from git
  (binaryUpdateFromGit.ts, gitPullDiamondNode.ts, buildFromSource.ts), the deployment of a binary
  (runDeployBinaries.ts, runDeployBinariesHot.ts with the transfer of executeOnRemotes.ts) and the version of a
  node (getNodeVersion.ts). A tool is a program on the state of the configuration and the list of what it has
  done; what a command answers may depend on everything done before it and is a parameter.
\<close>

section \<open>Actions\<close>

datatype remote_action = Ssh string string | LocalCmd string | StartRemote string | WriteFile string string

record remote_run =
  run_config :: config_state
  performed :: "remote_action list"

type_synonym world = "remote_action list \<Rightarrow> remote_action \<Rightarrow> bool \<times> string"
type_synonym 'a remote_tool = "(remote_run, 'a) prog"

definition perform :: "world \<Rightarrow> remote_action \<Rightarrow> (bool \<times> string) remote_tool" where
  "perform world a s = (Inr (world (performed s) a), s\<lparr>performed := performed s @ [a]\<rparr>)"

text \<open>An error of the remote command is thrown; a local command answers whether it succeeded.\<close>

definition ssh :: "world \<Rightarrow> string \<Rightarrow> string \<Rightarrow> string remote_tool" where
  "ssh world host command = (if \<not> SSH_HOST_RE host then throw (Thrown ''Invalid ssh host'')
     else andThen (perform world (Ssh host command)) (\<lambda>(success, txt). if success then ret txt else throw (CallFailed ''ssh'')))"

definition local_cmd :: "world \<Rightarrow> string \<Rightarrow> (bool \<times> string) remote_tool" where
  "local_cmd world command = perform world (LocalCmd command)"

definition conf :: "(config_state \<Rightarrow> 'a result \<times> config_state) \<Rightarrow> 'a remote_tool" where
  "conf f s = (case f (run_config s) of (r, c) \<Rightarrow> (r, s\<lparr>run_config := c\<rparr>))"

definition conf_value :: "(config_state \<Rightarrow> 'a \<times> config_state) \<Rightarrow> 'a remote_tool" where
  "conf_value f = conf (\<lambda>c. case f c of (x, c') \<Rightarrow> (Inr x, c'))"

definition hostOf :: "node_state \<Rightarrow> string" where
  "hostOf n = ''hbbft'' @ decimal (nodeID n)"

text \<open>A value that is missing in a template\<close>

definition shown :: "string option \<Rightarrow> string" where
  "shown v = (case v of Some s \<Rightarrow> s | None \<Rightarrow> ''undefined'')"

section \<open>Versions\<close>

definition getNodeVersion :: "environment \<Rightarrow> world \<Rightarrow> string \<Rightarrow> string remote_tool" where
  "getNodeVersion env world host =
     andThen (conf (getNetworkConfig env None)) (\<lambda>config.
     andThen (try_catch (ssh world host (''~/'' @ shown (installDir config) @ ''/diamond-node --version'')) (\<lambda>e. ret ''ERROR N/A'')) (\<lambda>versionVerbose.
     let versionDetails = split_at (CHR 0x0A) versionVerbose in
     ret (if length versionDetails \<ge> 2 then replaceFirst '' '' [] (replaceFirst ''version'' [] (versionDetails ! 1)) else [])))"

record parsed_version =
  pv_date :: string
  pv_commit :: "string option"
  pv_versionString :: string

text \<open>A version without a slash is an error, which is caught; one without a dash has no commit.\<close>

definition parseVersion :: "string \<Rightarrow> parsed_version" where
  "parseVersion version =
     (case split_at CHR ''/'' version of
        _ # versionPart # _ \<Rightarrow>
          (let versionParts = split_at CHR ''-'' versionPart; k = length versionParts in
           \<lparr>pv_date = versionParts ! (k - 1), pv_commit = (if k < 2 then None else Some (versionParts ! (k - 2))),
             pv_versionString = separated ''-'' (take (k - 2) versionParts)\<rparr>)
      | _ \<Rightarrow> \<lparr>pv_date = [], pv_commit = Some [], pv_versionString = []\<rparr>)"

section \<open>The update from git\<close>

definition build_command :: "string \<Rightarrow> string \<Rightarrow> string \<Rightarrow> string \<Rightarrow> string \<Rightarrow> string" where
  "build_command dir profile checkoutCMD features copyCMD =
     ''cd ~/'' @ dir @ ''/diamond-node-git/ && rm -f target/'' @ profile @ ''/libparity_version.rlib '' @
     checkoutCMD @ '' && git pull  && export RUSTFLAGS='' @ [CHR 0x27] @ ''-C target-cpu=native'' @ [CHR 0x27] @
     '' &&  ~/.cargo/bin/cargo build '' @ features @ '' --profile='' @ profile @ '' --all  '' @ copyCMD"

definition getBuildFromSourceCmd :: "environment \<Rightarrow> bool \<Rightarrow> bool \<Rightarrow> string remote_tool" where
  "getBuildFromSourceCmd env checkout copy =
     andThen (conf_value (getConfig env)) (\<lambda>config.
     andThen (conf (getNetworkConfig env None)) (\<lambda>network.
     andThen (conf (getNodeBranch env)) (\<lambda>branch.
     andThen (conf (getNodeRepoAlias env)) (\<lambda>remoteAlias.
     andThen (conf (getDiamondNodeDeadlockDetection env)) (\<lambda>deadlockDetection.
     let profile = nodeProfile config;
         checkoutCMD = (if checkout then '' && git checkout  --track '' @ remoteAlias @ ''/'' @ branch @ '' '' else []);
         copyCMD = (if copy then '' && cp target/'' @ profile @ ''/diamond-node ../diamond-node'' else []);
         features = (if deadlockDetection then '' --features deadlock_detection'' else []) in
     ret (build_command (shown (installDir network)) profile checkoutCMD features copyCMD))))))"

text \<open>The commands of \<open>startRemoteNode\<close> are one action here; they are answered by the state before it.\<close>

definition exec_at :: "world \<Rightarrow> remote_action list \<Rightarrow> string list \<Rightarrow> string result" where
  "exec_at world before args = (case world before (Ssh (args ! 3) (args ! 4)) of
     (success, txt) \<Rightarrow> if success then Inr txt else Inl (CallFailed ''ssh''))"

definition startRemote :: "environment \<Rightarrow> world \<Rightarrow> node_state \<Rightarrow> string remote_tool" where
  "startRemote env world n s = (case startRemoteNode env (exec_at world (performed s)) n (run_config s) of
     (r, c) \<Rightarrow> (r, s\<lparr>run_config := c, performed := performed s @ [StartRemote (hostOf n)]\<rparr>))"

definition in_repo :: "string \<Rightarrow> string \<Rightarrow> string" where
  "in_repo dir command = ''cd ~/'' @ dir @ ''/diamond-node-git && '' @ command"

text \<open>
  \<open>openEthereumProfile\<close> is read off the configuration, whose type has no such field: it is an argument, and
  missing unless a file has it all the same.
\<close>

definition doBinaryUpdateFromGit :: "environment \<Rightarrow> world \<Rightarrow> string option \<Rightarrow> node_state \<Rightarrow> string remote_tool" where
  "doBinaryUpdateFromGit env world openEthereumProfile n =
     (let nodeName = hostOf n in
      andThen (conf (getRemoteInstallDir env)) (\<lambda>dir.
      andThen (ssh world nodeName (in_repo dir ''git remote show'')) (\<lambda>remotes.
      andThen (if occursIn ''surfingnerd'' remotes then ret []
               else ssh world nodeName (in_repo dir (''git remote add surfingnerd https://github.com/SurfingNerd/diamond-node.git''))) (\<lambda>added.
      andThen (conf (getNodeBranch env)) (\<lambda>branch.
      andThen (ssh world nodeName (in_repo dir ('' git fetch --all && git checkout '' @ branch @ '' && git pull''))) (\<lambda>pulled.
      andThen (try_catch (andThen (getBuildFromSourceCmd env False False) (ssh world nodeName)) (\<lambda>e. ret [])) (\<lambda>built.
      andThen (try_catch (andThen (conf (getRemoteScreenName env)) (\<lambda>screen. ssh world nodeName (stopCommand screen))) (\<lambda>e. ret [])) (\<lambda>stopped.
      andThen (try_catch (case assertShellSafe openEthereumProfile of Inl e \<Rightarrow> throw e
          | Inr profile \<Rightarrow> ssh world nodeName (''cp ~/'' @ dir @ ''/diamond-node-git/target/'' @ profile @ ''/diamond-node ~/'' @ dir @ ''/diamond-node''))
        (\<lambda>e. ret [])) (\<lambda>copied.
      andThen (startRemote env world n) (\<lambda>_. ret (remotes @ added @ pulled @ built @ copied)))))))))))"

definition gitUpdateBranchAndPull :: "environment \<Rightarrow> world \<Rightarrow> node_state \<Rightarrow> unit remote_tool" where
  "gitUpdateBranchAndPull env world n =
     andThen (conf (getNodeBranch env)) (\<lambda>branch.
     andThen (conf (getRemoteInstallDir env)) (\<lambda>dir.
     let nodeName = hostOf n in
     andThen (conf (getNodeRepoAlias env)) (\<lambda>remoteAlias.
     andThen (ssh world nodeName (in_repo dir ''git remote show'')) (\<lambda>remotes.
     andThen (if occursIn remoteAlias remotes then ret []
              else andThen (conf (getNodeRepoUrl env)) (\<lambda>url. ssh world nodeName (in_repo dir (''git remote add '' @ remoteAlias @ '' '' @ url)))) (\<lambda>_.
     andThen (ssh world nodeName (in_repo dir (''git fetch '' @ remoteAlias @ '' && git checkout '' @ remoteAlias @ ''/'' @ branch @
         '' && git pull '' @ remoteAlias @ '' '' @ branch))) (\<lambda>_. ret ()))))))"

section \<open>The deployment of a binary\<close>

definition getSha1FromCmdResult :: "string \<Rightarrow> string" where
  "getSha1FromCmdResult cmdResult = take 40 cmdResult"

definition sha1Command :: "string \<Rightarrow> string" where
  "sha1Command dir = ''sha1sum ~/'' @ dir @ ''/diamond-node''"

definition scpCommand :: "string \<Rightarrow> string \<Rightarrow> string \<Rightarrow> string" where
  "scpCommand localBinary host dir = ''scp -C '' @ localBinary @ '' '' @ host @ '':~/'' @ dir"

text \<open>The transfer throws only when the local file is missing: the result of \<open>scp\<close> is not looked at.\<close>

definition transferFileToRemote :: "environment \<Rightarrow> world \<Rightarrow> (string \<Rightarrow> bool) \<Rightarrow> string \<Rightarrow> string \<Rightarrow> unit remote_tool" where
  "transferFileToRemote env world exists localPath host =
     (if \<not> exists localPath then throw (Thrown ''Error transfering files'')
      else andThen (conf (getNetworkConfig env None)) (\<lambda>network.
           andThen (local_cmd world (scpCommand localPath host (''~/'' @ shown (installDir network) @ ''/diamond-node-git/''))) (\<lambda>_.
             ret ())))"

text \<open>\<open>JSON.stringify\<close> of an error: its fields are not enumerable.\<close>

definition errorJson :: "error \<Rightarrow> string" where
  "errorJson e = ''{}''"

text \<open>One pass of the loop around the transfer: every way out of it ends the loop. False ends the whole run.\<close>

definition updateBinary :: "environment \<Rightarrow> world \<Rightarrow> (string \<Rightarrow> bool) \<Rightarrow> string \<Rightarrow> string \<Rightarrow> bool remote_tool" where
  "updateBinary env world exists localBinary host =
     try_catch (andThen (transferFileToRemote env world exists localBinary host) (\<lambda>_. ret True))
       (\<lambda>e. ret (occursIn ''busy'' (drop 1 (errorJson e))))"

definition deployNode :: "environment \<Rightarrow> world \<Rightarrow> (string \<Rightarrow> bool) \<Rightarrow> network_config \<Rightarrow> string \<Rightarrow> string \<Rightarrow> node_state \<Rightarrow> bool remote_tool" where
  "deployNode env world exists network localBinary sha1Local n =
     (let nodeName = hostOf n; dir = shown (installDir network) in
      andThen (ssh world nodeName (sha1Command dir)) (\<lambda>sha1RemoteCmdResult.
      let sha1Remote = getSha1FromCmdResult sha1RemoteCmdResult in
      andThen (try_catch (andThen (conf (getRemoteScreenName env)) (\<lambda>screen. ssh world nodeName (stopCommand screen))) (\<lambda>e. ret [])) (\<lambda>_.
      andThen (if sha1Local = sha1Remote then ret True else updateBinary env world exists localBinary nodeName) (\<lambda>goOn.
      if \<not> goOn then ret False
      else andThen (conf (getRemoteScreenName env)) (\<lambda>screen.
           andThen (ssh world nodeName (''cd '' @ dir @ '' && screen -S '' @ screen @ '' -d -m ~/'' @ dir @ ''/start.sh'')) (\<lambda>_. ret True))))))"

fun deployNodes :: "environment \<Rightarrow> world \<Rightarrow> (string \<Rightarrow> bool) \<Rightarrow> network_config \<Rightarrow> string \<Rightarrow> string \<Rightarrow> node_state list \<Rightarrow> unit remote_tool" where
  "deployNodes env world exists network localBinary sha1Local [] = ret ()"
| "deployNodes env world exists network localBinary sha1Local (n # ns) =
     andThen (deployNode env world exists network localBinary sha1Local n) (\<lambda>goOn.
       if goOn then deployNodes env world exists network localBinary sha1Local ns else ret ())"

definition deployBinariesHot :: "environment \<Rightarrow> world \<Rightarrow> (string \<Rightarrow> bool) \<Rightarrow> string option \<Rightarrow> node_state list \<Rightarrow> unit remote_tool" where
  "deployBinariesHot env world exists openEthereumProfile nodes =
     andThen (conf_value (getConfig env)) (\<lambda>config.
     andThen (conf (getNetworkConfig env None)) (\<lambda>network.
     let localBinary = ''../diamond-node/'' @ shown openEthereumProfile @ ''/release/diamond-node'' in
     andThen (local_cmd world (''sha1sum '' @ localBinary)) (\<lambda>(success, sha1LocalCmdResult).
       deployNodes env world exists network localBinary (getSha1FromCmdResult sha1LocalCmdResult) nodes)))"

definition deployBinary :: "world \<Rightarrow> network_config \<Rightarrow> string \<Rightarrow> string \<Rightarrow> node_state \<Rightarrow> unit remote_tool" where
  "deployBinary world network localBinary sha1Local n =
     (let nodeName = hostOf n; dir = shown (installDir network) in
      andThen (ssh world nodeName (sha1Command dir)) (\<lambda>sha1RemoteCmdResult.
      if sha1Local = getSha1FromCmdResult sha1RemoteCmdResult then ret ()
      else andThen (local_cmd world (scpCommand localBinary nodeName dir)) (\<lambda>_. ret ())))"

definition deployBinaries :: "environment \<Rightarrow> world \<Rightarrow> string option \<Rightarrow> node_state list \<Rightarrow> unit remote_tool" where
  "deployBinaries env world openEthereumProfile nodes =
     andThen (conf_value (getConfig env)) (\<lambda>config.
     andThen (conf (getNetworkConfig env None)) (\<lambda>network.
     let localBinary = ''../diamond-node/target/'' @ shown openEthereumProfile @ ''/diamond-node'' in
     andThen (local_cmd world (''sha1sum '' @ localBinary)) (\<lambda>(success, sha1LocalCmdResult).
       forEach nodes (deployBinary world network localBinary (getSha1FromCmdResult sha1LocalCmdResult)))))"

section \<open>Steps that succeed\<close>

lemma perform_Inr [action_simps]:
  "perform world a s = (Inr x, s') \<longleftrightarrow> x = world (performed s) a \<and> s' = s\<lparr>performed := performed s @ [a]\<rparr>"
  by (auto simp: perform_def)

lemma ssh_Inr [action_simps]:
  "ssh world h c s = (Inr x, s') \<longleftrightarrow> SSH_HOST_RE h \<and> world (performed s) (Ssh h c) = (True, x) \<and>
     s' = s\<lparr>performed := performed s @ [Ssh h c]\<rparr>"
  by (cases "world (performed s) (Ssh h c)") (auto simp: ssh_def action_simps)

lemma local_cmd_Inr [action_simps]:
  "local_cmd world c s = (Inr x, s') \<longleftrightarrow> x = world (performed s) (LocalCmd c) \<and> s' = s\<lparr>performed := performed s @ [LocalCmd c]\<rparr>"
  by (simp add: local_cmd_def action_simps)

lemma conf_Inr [action_simps]:
  "conf f s = (Inr x, s') \<longleftrightarrow> (\<exists>c. f (run_config s) = (Inr x, c) \<and> s' = s\<lparr>run_config := c\<rparr>)"
  by (auto simp: conf_def split: prod.splits)

lemma conf_value_Inr [action_simps]:
  "conf_value f s = (Inr x, s') \<longleftrightarrow> (\<exists>c. f (run_config s) = (x, c) \<and> s' = s\<lparr>run_config := c\<rparr>)"
  by (auto simp: conf_value_def action_simps split: prod.splits)

lemma digit_alnum: "digit_in 10 c \<noteq> None \<Longrightarrow> is_alnum c"
  by (auto simp: digit_in_def hex_val_def is_alnum_def code_def Let_def split: if_splits)

lemma hostOf_valid [simp]: "SSH_HOST_RE (hostOf n)"
proof -
  have "\<forall>c \<in> set (decimal (nodeID n)). is_alnum c"
    using decimal_digits [of "nodeID n"] digit_alnum by (auto simp: list_all_iff)
  then show ?thesis by (auto simp: hostOf_def SSH_HOST_RE_def is_alnum_def code_def)
qed

lemma getNodeBranch_safe: "getNodeBranch env s = (Inr b, s1) \<Longrightarrow> SAFE_ARG_RE b"
  by (auto simp: getNodeBranch_def assertShellSafe_Inr split: prod.splits sum.splits option.splits)

lemma getNodeRepoAlias_safe: "getNodeRepoAlias env s = (Inr a, s1) \<Longrightarrow> SAFE_ARG_RE a"
proof -
  have "SAFE_ARG_RE ''origin''" by code_simp
  then show "getNodeRepoAlias env s = (Inr a, s1) \<Longrightarrow> SAFE_ARG_RE a"
    by (auto simp: getNodeRepoAlias_def of_network_def assertShellSafe_Inr split: prod.splits sum.splits option.splits)
qed

lemma getNodeRepoUrl_safe: "getNodeRepoUrl env s = (Inr u, s1) \<Longrightarrow> SAFE_ARG_RE u"
  by (auto simp: getNodeRepoUrl_def assertShellSafe_Inr split: prod.splits sum.splits option.splits)

section \<open>Versions\<close>

lemma split_at_append: "split_at d (a @ d # b) = split_at d a @ split_at d b"
proof (induction a)
  case (Cons c a)
  have "split_at d a \<noteq> []" by (induction a) (auto split: list.splits)
  then show ?case using Cons by (cases "split_at d a") auto
qed simp

lemma separated_Cons: "ws \<noteq> [] \<Longrightarrow> separated d (w # ws) = w @ d @ separated d ws"
  by (cases ws) simp_all

lemma separated_split_at: "separated [d] (split_at d s) = s"
proof (induction s)
  case (Cons c s)
  obtain w ws where w: "split_at d s = w # ws" by (cases "split_at d s") (auto split: list.splits, induction s, auto split: list.splits if_splits)
  then show ?case using Cons by (cases ws) auto
qed simp

text \<open>
  The version text of a node, name and version with commit and date behind a slash, is taken apart into the
  three pieces, also when the version has dashes itself.
\<close>

theorem parseVersion_pieces:
  assumes "CHR ''/'' \<notin> set name" "CHR ''/'' \<notin> set v" "CHR ''/'' \<notin> set commit" "CHR ''/'' \<notin> set date"
    and "CHR ''-'' \<notin> set commit" "CHR ''-'' \<notin> set date"
  shows "parseVersion (name @ ''/'' @ v @ ''-'' @ commit @ ''-'' @ date @ ''/'' @ rest) =
    \<lparr>pv_date = date, pv_commit = Some commit, pv_versionString = v\<rparr>"
proof -
  let ?version = "v @ CHR ''-'' # commit @ CHR ''-'' # date"
  have one: "split_at d w = [w]" if "d \<notin> set w" for d w using that by (intro split_at_word(2)) blast
  have "split_at CHR ''/'' (name @ CHR ''/'' # ?version @ CHR ''/'' # rest) =
      split_at CHR ''/'' name @ split_at CHR ''/'' ?version @ split_at CHR ''/'' rest"
    by (simp only: split_at_append)
  moreover have "CHR ''/'' \<notin> set ?version" using assms(2-4) by simp
  ultimately have slashes: "split_at CHR ''/'' (name @ CHR ''/'' # ?version @ CHR ''/'' # rest) =
      name # ?version # split_at CHR ''/'' rest"
    using one [OF assms(1)] one by simp
  have "split_at CHR ''-'' ?version = split_at CHR ''-'' v @ split_at CHR ''-'' commit @ split_at CHR ''-'' date"
    by (simp only: split_at_append)
  then have dashes: "split_at CHR ''-'' ?version = split_at CHR ''-'' v @ [commit, date]"
    using one [OF assms(5)] one [OF assms(6)] by simp
  have "name @ ''/'' @ v @ ''-'' @ commit @ ''-'' @ date @ ''/'' @ rest = name @ CHR ''/'' # ?version @ CHR ''/'' # rest" by simp
  then show ?thesis
    unfolding parseVersion_def slashes [folded append_Cons, unfolded append.simps] by (simp add: slashes [simplified] dashes [simplified] Let_def nth_append separated_split_at)
qed

section \<open>The commands of an update\<close>

text \<open>
  An update of the branch that succeeds has asked for the remotes, added the one of the configuration when the
  answer does not name it, and fetched, checked out and pulled the branch; what the configuration puts into
  these commands has no characters with a meaning for a shell.
\<close>

theorem git_update_commands:
  assumes "gitUpdateBranchAndPull env world n s = (Inr (), s')"
  shows "\<exists>branch dir rem url. SAFE_ARG_RE branch \<and> SAFE_ARG_RE dir \<and> SAFE_ARG_RE rem \<and> SAFE_ARG_RE url \<and>
    (let show = Ssh (hostOf n) (in_repo dir ''git remote show'');
         add = Ssh (hostOf n) (in_repo dir (''git remote add '' @ rem @ '' '' @ url));
         pull = Ssh (hostOf n) (in_repo dir (''git fetch '' @ rem @ '' && git checkout '' @ rem @ ''/'' @ branch @ '' && git pull '' @ rem @ '' '' @ branch)) in
     performed s' = performed s @ [show] @ (if occursIn rem (snd (world (performed s) show)) then [] else [add]) @ [pull])"
proof -
  obtain branch c1 where branch: "getNodeBranch env (run_config s) = (Inr branch, c1)"
    using assms by (auto simp: gitUpdateBranchAndPull_def action_simps)
  obtain dir c2 where dir: "getRemoteInstallDir env c1 = (Inr dir, c2)"
    using assms branch by (auto simp: gitUpdateBranchAndPull_def action_simps)
  obtain rem c3 where rem: "getNodeRepoAlias env c2 = (Inr rem, c3)"
    using assms branch dir by (auto simp: gitUpdateBranchAndPull_def action_simps Let_def)
  let ?show = "Ssh (hostOf n) (in_repo dir ''git remote show'')"
  let ?pull = "Ssh (hostOf n) (in_repo dir (''git fetch '' @ rem @ '' && git checkout '' @ rem @ ''/'' @ branch @ '' && git pull '' @ rem @ '' '' @ branch))"
  note safe = getNodeBranch_safe [OF branch] getRemoteInstallDir_safe [OF dir] getNodeRepoAlias_safe [OF rem]
  show ?thesis
  proof (cases "occursIn rem (snd (world (performed s) ?show))")
    case True
    then have "performed s' = performed s @ [?show, ?pull]"
      using assms branch dir rem by (auto simp: gitUpdateBranchAndPull_def action_simps Let_def split: if_splits)
    then show ?thesis using True safe by (intro exI [of _ branch] exI [of _ dir] exI [of _ rem]) (auto simp: Let_def)
  next
    case False
    then obtain url c4 where url: "getNodeRepoUrl env c3 = (Inr url, c4)"
      using assms branch dir rem by (auto simp: gitUpdateBranchAndPull_def action_simps Let_def split: if_splits)
    then have "performed s' = performed s @ [?show, Ssh (hostOf n) (in_repo dir (''git remote add '' @ rem @ '' '' @ url)), ?pull]"
      using assms False by (auto simp: gitUpdateBranchAndPull_def action_simps Let_def branch dir rem url)
    then show ?thesis using False safe getNodeRepoUrl_safe [OF url]
      by (intro exI [of _ branch] exI [of _ dir] exI [of _ rem] exI [of _ url]) (simp add: Let_def)
  qed
qed

section \<open>An update without a profile\<close>

text \<open>What an action adds, however it ends\<close>

definition performs_only :: "(remote_action \<Rightarrow> bool) \<Rightarrow> remote_run \<Rightarrow> bool" where
  "performs_only P s \<longleftrightarrow> (\<forall>a \<in> set (performed s). P a)"

lemma keeps_conf [keeps_rules]: "keeps (performs_only P) (conf f)"
  by (auto simp: keeps_def conf_def performs_only_def split: prod.splits)

lemma keeps_conf_value [keeps_rules]: "keeps (performs_only P) (conf_value f)"
  by (simp add: conf_value_def keeps_conf)

lemma keeps_ssh: "P (Ssh h c) \<Longrightarrow> keeps (performs_only P) (ssh world h c)"
  by (auto simp: keeps_def ssh_def performs_only_def andThen_def perform_def throw_def ret_def split: prod.splits)

lemma keeps_startRemote: "P (StartRemote (hostOf n)) \<Longrightarrow> keeps (performs_only P) (startRemote env world n)"
  by (auto simp: keeps_def startRemote_def performs_only_def split: prod.splits)

lemma startRemote_last: "startRemote env world n s = (r, s') \<Longrightarrow> last (performed s') = StartRemote (hostOf n)"
  by (auto simp: startRemote_def split: prod.splits)

lemma keeps_throw [keeps_rules]: "keeps I (throw e)"
  by (simp add: keeps_def throw_def)

lemma keeps_andThen_result:
  assumes "keeps I A" "\<And>x s s'. A s = (Inr x, s') \<Longrightarrow> keeps I (f x)"
  shows "keeps I (andThen A f)"
  unfolding keeps_def andThen_def
proof (intro allI impI)
  fix w assume i: "I w"
  obtain r w1 where r: "A w = (r, w1)" by fastforce
  have "I w1" by (rule keepsD [OF assms(1) i r])
  then show "I (snd (case A w of (Inl e, m') \<Rightarrow> (Inl e, m') | (Inr x, m') \<Rightarrow> f x m'))"
    using r assms(2) by (cases r) (auto simp: keeps_def)
qed

text \<open>The new binary of a node is put in place by a command that copies it.\<close>

definition copies :: "remote_action \<Rightarrow> bool" where
  "copies a \<longleftrightarrow> (case a of Ssh h c \<Rightarrow> prefix ''cp '' c | _ \<Rightarrow> False)"

lemma getBuildFromSourceCmd_form:
  assumes "getBuildFromSourceCmd env a b s = (Inr c, s')"
  shows "\<not> prefix ''cp '' c"
proof -
  obtain dir profile x y z where "c = build_command dir profile x y z"
    using assms unfolding getBuildFromSourceCmd_def Let_def andThen_Inr ret_Inr by blast
  then show ?thesis by (simp add: build_command_def)
qed

text \<open>
  Without the field that the configuration does not have, an update from git never copies the binary that it
  has built, and a run that succeeds has started the node again all the same.
\<close>

theorem update_keeps_old_binary:
  assumes "doBinaryUpdateFromGit env world None n (s\<lparr>performed := []\<rparr>) = (r, s')"
  shows "\<forall>a \<in> set (performed s'). \<not> copies a" and "r = Inr t \<Longrightarrow> last (performed s') = StartRemote (hostOf n)"
proof -
  have build: "keeps (performs_only (\<lambda>a. \<not> copies a)) (getBuildFromSourceCmd env False False)"
    unfolding getBuildFromSourceCmd_def Let_def by (intro keeps_rules)
  have k: "keeps (performs_only (\<lambda>a. \<not> copies a)) (doBinaryUpdateFromGit env world None n)"
    unfolding doBinaryUpdateFromGit_def Let_def assertShellSafe_def option.case sum.case
    by (intro keeps_conf keeps_andThen keeps_try_catch keeps_if keeps_ret keeps_throw keeps_ssh keeps_startRemote
        keeps_andThen_result [OF build] ; (simp add: copies_def in_repo_def stopCommand_def)?)
      (auto simp: copies_def dest!: getBuildFromSourceCmd_form intro!: keeps_ssh)
  show "\<forall>a \<in> set (performed s'). \<not> copies a"
    using keepsD [OF k _ assms] by (auto simp: performs_only_def)
  show "r = Inr t \<Longrightarrow> last (performed s') = StartRemote (hostOf n)"
    using assms unfolding doBinaryUpdateFromGit_def Let_def
    by (auto simp only: andThen_Inr ret_Inr dest!: startRemote_last)
qed

section \<open>What a deployment does to a node\<close>

definition sha1_of :: "network_config \<Rightarrow> node_state \<Rightarrow> remote_action" where
  "sha1_of network n = Ssh (hostOf n) (sha1Command (shown (installDir network)))"

definition start_of :: "network_config \<Rightarrow> string \<Rightarrow> node_state \<Rightarrow> remote_action" where
  "start_of network screen n = Ssh (hostOf n) (startCommand (shown (installDir network)) screen)"

lemma never_busy: "\<not> occursIn ''busy'' (drop 1 (errorJson e))"
  "\<not> occursIn ''busy'' (drop (Suc 0) (errorJson e))"
  by (simp_all add: errorJson_def occursIn_def sublist_Cons_right)

lemma updateBinary_performs:
  assumes "updateBinary env world exists b h s = (Inr goOn, s')"
  shows "\<exists>as. performed s' = performed s @ as \<and> length as \<le> 1 \<and> (\<forall>a \<in> set as. \<exists>c. a = LocalCmd c) \<and> (goOn \<longrightarrow> length as = 1)"
  using assms
  by (auto simp: updateBinary_def try_catch_def transferFileToRemote_def andThen_def throw_def ret_def conf_def local_cmd_def
      perform_def never_busy split: if_splits prod.splits sum.splits)

lemma stop_performs:
  assumes "try_catch (andThen (conf f) (\<lambda>screen. ssh world h (stopCommand screen))) (\<lambda>e. ret []) s = (Inr x, s')"
  shows "\<exists>as. performed s' = performed s @ as \<and> length as \<le> 1 \<and> (\<forall>a \<in> set as. \<exists>c. a = Ssh h (stopCommand c))"
  using assms
  by (auto simp: try_catch_def andThen_def throw_def ret_def conf_def ssh_def perform_def split: if_splits prod.splits sum.splits)


text \<open>
  When the local binary is missing, the first node that is not up to date is stopped and never started, and
  the run ends as if all was well: the nodes after it are not looked at.
\<close>

theorem missing_binary_leaves_node_stopped:
  assumes "\<not> exists localBinary" "getRemoteScreenName env (run_config s) = (Inr screen, c)"
    and "world (performed s) (sha1_of network n) = (True, sha)" "getSha1FromCmdResult sha \<noteq> sha1Local"
  shows "\<exists>s'. deployNodes env world exists network localBinary sha1Local (n # ns) s = (Inr (), s') \<and>
    performed s' = performed s @ [sha1_of network n, Ssh (hostOf n) (stopCommand screen)]"
proof -
  let ?s1 = "s\<lparr>performed := performed s @ [sha1_of network n]\<rparr>"
  let ?s2 = "s\<lparr>run_config := c, performed := performed s @ [sha1_of network n, Ssh (hostOf n) (stopCommand screen)]\<rparr>"
  have sha: "ssh world (hostOf n) (sha1Command (shown (installDir network))) s = (Inr sha, ?s1)"
    using assms(3) unfolding ssh_Inr by (simp add: sha1_of_def)
  have stop: "\<exists>x. try_catch (andThen (conf (getRemoteScreenName env)) (\<lambda>screen. ssh world (hostOf n) (stopCommand screen))) (\<lambda>e. ret []) ?s1
      = (Inr x, ?s2)"
    using assms(2) by (auto simp: try_catch_def andThen_def conf_def ssh_def perform_def throw_def ret_def split: prod.splits)
  have update: "updateBinary env world exists localBinary (hostOf n) ?s2 = (Inr False, ?s2)"
    using assms(1) by (simp add: updateBinary_def try_catch_def transferFileToRemote_def andThen_def throw_def ret_def never_busy)
  have "deployNode env world exists network localBinary sha1Local n s = (Inr False, ?s2)"
    using sha stop update assms(4) by (auto simp: deployNode_def Let_def andThen_def ret_def)
  then show ?thesis by (auto simp: andThen_def ret_def)
qed

text \<open>A deployment of the binaries alone transfers to exactly the nodes with another hash, in their order.\<close>

definition transfer_to :: "network_config \<Rightarrow> string \<Rightarrow> node_state \<Rightarrow> remote_action" where
  "transfer_to network localBinary n = LocalCmd (scpCommand localBinary (hostOf n) (shown (installDir network)))"

lemma deployBinary_performs:
  assumes "deployBinary world network localBinary sha1Local n s = (Inr u, s')"
  shows "performed s' = performed s @ sha1_of network n #
    (if getSha1FromCmdResult (snd (world (performed s) (sha1_of network n))) = sha1Local then [] else [transfer_to network localBinary n])"
  using assms
  by (cases "sha1Local = getSha1FromCmdResult (snd (world (performed s) (sha1_of network n)))")
    (auto simp: deployBinary_def Let_def action_simps sha1_of_def transfer_to_def)

theorem deployed_where_outdated:
  assumes "forEach nodes (deployBinary world network localBinary sha1Local) s = (Inr (), s')"
    and "\<And>before n. n \<in> set nodes \<Longrightarrow> getSha1FromCmdResult (snd (world before (sha1_of network n))) = sha1 n"
  shows "performed s' = performed s @ concat (map (\<lambda>n. sha1_of network n #
    (if sha1 n = sha1Local then [] else [transfer_to network localBinary n])) nodes)"
  using assms
proof (induction nodes arbitrary: s)
  case (Cons n nodes)
  obtain s1 where s1: "deployBinary world network localBinary sha1Local n s = (Inr (), s1)"
      "forEach nodes (deployBinary world network localBinary sha1Local) s1 = (Inr (), s')"
    using Cons.prems(1) by (auto simp: action_simps)
  have h: "getSha1FromCmdResult (snd (world (performed s) (sha1_of network n))) = sha1 n" by (rule Cons.prems(2)) simp
  show ?case using Cons.IH [OF s1(2)] Cons.prems(2) deployBinary_performs [OF s1(1)] h by simp
qed (simp add: ret_def)

section \<open>A sample\<close>

definition sampleWorld :: world where
  "sampleWorld before a = (True, if length before = 0 then ''0123456789'' else [])"

definition sampleNode :: node_state where
  "sampleNode = new_NodeState 3 None None"

definition sampleRun :: remote_run where
  "sampleRun = \<lparr>run_config = exampleConfig, performed = []\<rparr>"

definition sampleNetwork :: network_config where
  "sampleNetwork = hd (networks (config exampleConfig))"

definition sampleDeployment :: "bool result \<times> remote_run" where
  "sampleDeployment = deployNode exampleEnv sampleWorld (\<lambda>f. True) sampleNetwork ''../diamond-node'' ''9876543210'' sampleNode sampleRun"

lemma sampleDeployment_goes_on: "fst sampleDeployment = Inr True"
  by code_simp



end
