(* ===== verification/Spec2Isabelle.thy ===== *)
theory Spec2Isabelle imports StakeProperties Names BonusCache ValidatorObserver Rewards BlockProperties
  RateLimits ApiKeys RewardListings NamePages NodeApi Cleaning RetryProperties Codecs StakingDiff
  FastTxAdding FastTxSending ContinuousSender NodeLifecycle WatchdogRuns KeyGenStates ConfigProperties
  RemoteSelection ContractAccess ColumnTypes ManagerAgreement BlockMessages StakeOnValidators
  LocalNetBuilds ContractUpgrades NodeRunStates LogPages PotTransfers RemoteTools begin

text \<open>
  diamond-dev-tools, the tools around the DMD blockchain: a model of its core in HOL, with the theorems
  that make it correct.

  The program's parts. The importer (src/src/db/runFillDb.ts) copies the chain block by block into
  PostgreSQL, one transaction per block: it reads the contracts through the ContractManager
  (src/src/contractManager.ts), turns the logs of a block into events (src/src/eventProcessor.ts),
  books each event through a visitor (src/src/eventsVisitor.ts), and follows the validator sets
  (src/src/db/validatorObserver.ts) and the bonus scores (src/src/db/bonusScoreProcessor.ts,
  src/src/bonusScoreReasonDetector.ts). All of them write through the class DbManager
  (src/src/db/database-persistent.ts). The REST API (src/db/express/src) reads the same tables, guarded
  by API keys and rate limits. Around the chain itself: the watchdog (src/src/watchdog.ts) polls it and
  reports what changed, the node manager (src/src/net/nodeManager.ts) starts and stops the processes of a
  local network, for which the configuration (src/src/configManager.ts) and the remote commands name hosts
  and directories, two senders (src/src/tools/FastTxSender.ts, src/src/continuousTransactionsSender.ts)
  put transactions on it, and src/src/analysis looks back at its key generations and at the messages of a
  block. Networks are built (src/src/localnet/localnet-builder.ts), staked on (src/src/net/stakeOnValidators.ts),
  changed on their remote machines (src/src/remotenet) and given new contracts
  (src/src/contracts/runUpgradeContracts.ts).

  How the theories follow the code.
  \<^item> \<open>Prelude\<close>: results of asynchronous code (\<open>await\<close>, loops that stop at a rejection), strings, lists.
    \<open>JavaScript\<close>: \<open>parseInt\<close> and the string functions of the API. \<open>Ether\<close>, \<open>Codecs\<close>: src/src/utils/ether.ts,
    src/src/utils/hex.ts, the bit strings of the DbManager.
  \<^item> \<open>Tables\<close>, \<open>Schema\<close>: SQL statements on tables as lists of rows, with primary keys and foreign keys;
    one record per row type of src/src/db/schema, keys and references from the SQL files in src/db.
  \<^item> \<open>Manager\<close>, \<open>Retry\<close>, \<open>DbManager\<close>: the class DbManager, one definition per method. A \<open>manager\<close> holds
    the committed tables, the working copy of the transaction, whether PostgreSQL has aborted it, and
    the tables written outside of it. \<open>RetryProperties\<close>: how often a statement is tried.
    \<open>OlderManager\<close>: the methods of the older copy src/src/db/database.ts, whose statements go through the pool.
  \<^item> \<open>EventProcessor\<close>, \<open>EventsVisitor\<close>: the event classes as a datatype, their fetching and order, and
    one definition per visit method.
  \<^item> \<open>Network\<close>, \<open>Rewards\<close>: the remote calls as a record of functions, the ContractManager's computations.
  \<^item> \<open>ValidatorObserver\<close>, \<open>BonusScore\<close>: the two observers, with the state that they keep in memory.
  \<^item> \<open>RunFillDb\<close>: start, bootstrap, the body of the block transaction and the main loop of the importer.
  \<^item> \<open>RateLimiter\<close>, \<open>ApiKeys\<close>, \<open>RewardStats\<close>, \<open>RewardListings\<close>, \<open>StakeApi\<close>, \<open>NamesApi\<close>, \<open>NodeApi\<close>: the
    REST API's middleware, its key tool, and its controllers rewards.ts (statistics and listings),
    stakeTransactions.ts, names.ts, node.ts and supply.ts.
  \<^item> \<open>ContractAccess\<close>: the ContractManager's cache of contracts and its addresses of nodes.
  \<^item> \<open>StakingDiff\<close>: src/src/watchdogPluginStakingDiff.ts. \<open>Watchdog\<close>: src/src/watchdog.ts, one round of its
    loop as a function of what the chain answers in it, and its restarts of nodes.
  \<^item> \<open>NodeManager\<close>: src/src/net/nodeManager.ts, a node with its processes and their close listeners.
    \<open>Config\<close>: src/src/configManager.ts with src/src/utils/shellSafe.ts and the commands for remote nodes;
    \<open>RemoteSelection\<close>: src/src/remotenet/remotenetArgs.ts.
  \<^item> \<open>FastTxSender\<close>, \<open>FastTxAdding\<close>, \<open>FastTxSending\<close>: src/src/tools/FastTxSender.ts and awaitTransactions.ts;
    \<open>ContinuousSender\<close>. A call that awaits is cut into the pieces between its awaits, and the pieces of
    overlapping calls are the steps of a relation.
  \<^item> \<open>KeyGenStates\<close>: src/src/analysis/getKeyGenStates.ts. \<open>BlockMessages\<close>: src/src/analysis/analyseBlockMessages.ts.
  \<^item> \<open>StakeOnValidators\<close>: src/src/net/stakeOnValidators.ts, with the answers of the user as a list.
    \<open>ContractUpgrades\<close>: src/src/contracts/runUpgradeContracts.ts, a run with the transactions that it sent.
  \<^item> \<open>Json\<close>, \<open>LocalNets\<close>: src/src/localnet/localnet-builder.ts, createLocalNetwork of the node manager and the
    joining of networks in src/src/fork/forkedNetworkBuilder.ts, on a state of files, directories and the
    environment. \<open>NodeRunStates\<close>: src/src/localnet/tests/nodeRunStateTestSpecification.ts.
  \<^item> \<open>RemoteFiles\<close>: src/src/remotenet/runManipulateToml.ts and executeOnRemotes.ts. \<open>LogPages\<close>:
    src/src/server/LogToHtmlAdapter.ts and src/src/logFileManager.ts.

  What the lemmas show.
  \<^item> Booking. \<open>Simulation\<close> is the contract of a component that keeps an abstract state in tables while
    operations come in the order of their blocks. \<open>StakeHistoryRows\<close>, \<open>Ledger\<close>, \<open>Booking\<close>,
    \<open>StakeEvents\<close>, \<open>StakeProperties\<close> instantiate it with a ledger of stakes and withdrawals, \<open>Names\<close>
    with a directory of names, \<open>StakeLog\<close> with the log of stake events, \<open>BonusTimeline\<close> with the scores
    over time, \<open>NameHistory\<close> with the log of name events.
    \<open>ColumnTypes\<close>: the addresses, hashes and amounts that events leave in the tables fit their columns.
    \<open>ManagerAgreement\<close>: on tables with their integrity, and outside of a transaction, the older manager does
    what the persistent one does.
  \<^item> Blocks. \<open>Integrity\<close>, \<open>Invariants\<close>: every statement keeps the keys and references; a locale carries
    any property of the manager that its methods keep through the body of a block. \<open>ImportLoop\<close>,
    \<open>BlockLedger\<close>, \<open>BlockProperties\<close>: what is committed after any number of turns of the main loop,
    when calls and statements fail, and when a block is imported again or skipped. \<open>Cleaning\<close>: deleting.
  \<^item> Observers. \<open>ValidatorObserver\<close>, \<open>BonusCache\<close>: the memory agrees with the tables.
  \<^item> API. \<open>RateLimits\<close> puts both counters behind one interface (\<open>window_counter\<close>) and bounds the
    requests let through; \<open>ApiKeys\<close>: which requests are authenticated; \<open>RewardStats\<close>: batch against
    single answers; \<open>RewardListings\<close>: pages and daily series; \<open>StakeApi\<close>, \<open>NameHistory\<close>, \<open>NamePages\<close>:
    what an import shows through the API; \<open>NodeApi\<close>: an address stays a literal of the statement.
  \<^item> Senders. \<open>FastTxAdding\<close>: which nonces are used, one call at a time and when calls overlap.
    \<open>FastTxSending\<close>: what has been posted when the sending returns, and when the wait for the
    transactions ends. \<open>ContinuousSender\<close>: its nonces, and a pool that failures fill for good.
  \<^item> Nodes. \<open>NodeLifecycle\<close>: an invariant of the processes of a node over all starts, stops and ends of
    processes in any order. \<open>WatchdogRuns\<close>: what a round leaves known, callbacks over all rounds, restarts.
    \<open>ConfigProperties\<close>: the network that is selected, and commands that keep their words.
    \<open>RemoteSelection\<close>: the nodes a command is for; \<open>RemoteFiles\<close>: edits that can be repeated, and one that cannot.
  \<^item> Networks. \<open>LocalNetBuilds\<close>: the nodes of a built network share one specification, arguments win in
    their configurations, builds that cannot succeed. \<open>StakeOnValidators\<close>: the pools made are new.
    \<open>ContractUpgrades\<close>: which proxies are upgraded. \<open>BlockMessages\<close>: what the analysis counts.
    \<open>NodeRunStates\<close>: walks change one node at a time; when the generator and a step of the execution end.
    \<open>LogPages\<close>: what the page shows and what is stored.
  \<^item> Coins and software. \<open>PotTransfers\<close>: the tools of src/src/net that fill the pots, stake, recover and
    withdraw: what they send and spend, and two that never do what they are for. \<open>RemoteTools\<close>: updates from
    git and deployments of binaries (src/src/remotenet) as the list of what was done on the nodes.
  \<^item> \<open>Samples\<close> and the samples of the other theories are small concrete states; each theorem with a
    hypothesis is applied to one, in the lemma of its name with the suffix \<open>_witness\<close>.

  Parameters. Code outside of the repository is an argument: the blockchain node (records \<open>chain\<close> and
  \<open>network\<close>; every call may reject), bignumber.js's division (\<open>rounds_half_ulp\<close>: it rounds to 18 places),
  Redis (locale \<open>redis_server\<close>: INCR, EXPIRE and TTL as documented), bcrypt, uuid, URL and JSON parsing
  (record \<open>platform\<close>), rounding to doubles and PostgreSQL's division (record \<open>arith\<close>), the order of rows
  that an ORDER BY leaves open (locale \<open>postgres_order\<close>), \<open>Date.parse\<close>, how PostgreSQL reads a number as
  a timestamp, the wallet that signs, the environment and the file system, the operating system that
  reports the end of a process, the programs that build node files and contracts, the library for TOML,
  the administration contracts, the answers of a user, and the numbers of \<open>Math.random\<close>.

  Bounds and loops. \<open>executeWithRetry\<close> recurses at most three times (a measure). The wait for a new head of
  the chain reads the answers of the node from a list; when the list ends, the result is that the program
  is still waiting, never that it went on. \<open>awaitTransactions\<close> and the walk back through the blocks of an
  epoch may not end: they are partial functions into an option, and theorems say when they end; so are the
  search and the loop of \<open>NodeRunStates\<close>, one of which never ends.
  The watchdog's loop reads one answer of the chain per round from a list, a prompt its answers. No other
  loop needs fuel. Amounts are exact: wei are integers, ether amounts rationals; block numbers, epochs
  and times are integers, as the code never leaves the range in which JavaScript's numbers are exact. Bytes of buffers are 8-bit words.

  Not modelled. Tasks that the code starts together (\<open>Promise.all\<close> in the bonus scores) run one after the
  other. Load tests, scripts that run a whole test network through the managers, and scripts that collect texts
  from the nodes and print them are left out. The creation of a forked network calls the builder with arguments
  that do not fit its constructor. The routes and the start of the API's server are calls of its library.
  Console output and timers are left out everywhere, apart from the waits, which add to the manager's clock.
\<close>

end
